(* ===== verification/Prelude.thy ===== *)
theory Prelude
  imports Complex_Main "HOL-Library.AList" "HOL-Library.Word" "HOL-Library.Char_ord"
    "HOL-Library.List_Lexorder" "HOL-Library.Multiset"
begin

text \<open>
  What every component of the development shares: the model of Go's times, durations and
  fixed-width counters, of the \<open>strings\<close> and \<open>sort\<close> functions the source calls, and of
  Go's built-in maps, with the lemmas the component theories rest on.

  A \<open>time.Time\<close> is the number of nanoseconds since Go's zero time (1 January of year 1,
  UTC), so \<open>t.IsZero()\<close> is \<open>t = 0\<close>; a \<open>time.Duration\<close> is a number of nanoseconds.
  The current time, the random bytes and the outcome of a file write are arguments of the
  operations that use them. Go strings are byte strings (\<open>string\<close>).
\<close>

named_theorems go_simps "unfolding rules of the operations, for case analysis of a handler"
named_theorems inv_intros "preservation of a component's invariant by its operations"

section \<open>Times, durations and counters\<close>

type_synonym time = int
type_synonym duration = int
type_synonym u32 = "32 word"
type_synonym u64 = "64 word"

definition is_zero_time :: "time \<Rightarrow> bool" where
  "is_zero_time t \<longleftrightarrow> t = 0"

definition max_duration :: int where "max_duration = 2 ^ 63 - 1"
definition min_duration :: int where "min_duration = - (2 ^ 63)"

text \<open>\<open>Time.Sub\<close> saturates at the ends of the 64-bit duration range.\<close>

definition time_sub :: "time \<Rightarrow> time \<Rightarrow> duration" where
  "time_sub a b = max min_duration (min max_duration (a - b))"

definition seconds :: "int \<Rightarrow> duration" where "seconds n = n * 1000000000"
definition minutes :: "int \<Rightarrow> duration" where "minutes n = n * 60000000000"
definition hours :: "int \<Rightarrow> duration" where "hours n = n * 3600000000000"

text \<open>Go's time at the Unix epoch, and the integer functions of a time since then.\<close>

definition unix_epoch :: time where "unix_epoch = seconds 62135596800"

definition unix_seconds :: "time \<Rightarrow> int" where "unix_seconds t = (t - unix_epoch) div seconds 1"

definition unix_nano :: "time \<Rightarrow> int" where "unix_nano t = t - unix_epoch"

lemma time_sub_less_iff:
  "min_duration < d \<Longrightarrow> d \<le> max_duration \<Longrightarrow> time_sub a b < d \<longleftrightarrow> a - b < d"
  by (auto simp: time_sub_def)

lemma time_sub_greater_iff:
  "min_duration \<le> d \<Longrightarrow> d < max_duration \<Longrightarrow> d < time_sub a b \<longleftrightarrow> d < a - b"
  by (auto simp: time_sub_def)

lemma time_sub_ge_iff:
  "min_duration < d \<Longrightarrow> d \<le> max_duration \<Longrightarrow> d \<le> time_sub a b \<longleftrightarrow> d \<le> a - b"
  using time_sub_less_iff [of d a b] by linarith

lemma duration_bounds [simp]: "min_duration < 0" "0 < max_duration"
  by (simp_all add: min_duration_def max_duration_def)

text \<open>The product of 64-bit integers wraps around.\<close>

definition wrap64 :: "int \<Rightarrow> int" where
  "wrap64 n = sint (word_of_int n :: 64 word)"

section \<open>Strings\<close>

text \<open>The UTF-8 encodings of the runes \<open>unicode.IsSpace\<close> accepts.\<close>

definition space_runes :: "string list" where
  "space_runes =
     map (\<lambda>n. [char_of (n::nat)]) [9, 10, 11, 12, 13, 32]
     @ map (map (\<lambda>n. char_of (n::nat)))
       ([[0xC2, 0x85], [0xC2, 0xA0], [0xE1, 0x9A, 0x80]]
        @ map (\<lambda>n. [0xE2, 0x80, n])
            [0x80, 0x81, 0x82, 0x83, 0x84, 0x85, 0x86, 0x87, 0x88, 0x89, 0x8A, 0xA8, 0xA9, 0xAF]
        @ [[0xE2, 0x81, 0x9F], [0xE3, 0x80, 0x80]])"

fun has_prefix :: "string \<Rightarrow> string \<Rightarrow> bool" where
  "has_prefix s [] = True"
| "has_prefix [] (p # ps) = False"
| "has_prefix (c # cs) (p # ps) = (c = p \<and> has_prefix cs ps)"

definition has_suffix :: "string \<Rightarrow> string \<Rightarrow> bool" where
  "has_suffix s p = has_prefix (rev s) (rev p)"

definition trim_prefix :: "string \<Rightarrow> string \<Rightarrow> string" where
  "trim_prefix s p = (if has_prefix s p then drop (length p) s else s)"

definition trim_suffix :: "string \<Rightarrow> string \<Rightarrow> string" where
  "trim_suffix s p = (if has_suffix s p then take (length s - length p) s else s)"

lemma has_prefix_iff: "has_prefix s p \<longleftrightarrow> (\<exists>t. s = p @ t)"
  by (induction s p rule: has_prefix.induct) auto

text \<open>Strip any number of the given non-empty strings from the front.\<close>

definition strip_one :: "string list \<Rightarrow> string \<Rightarrow> string" where
  "strip_one ps s = (case find (\<lambda>p. p \<noteq> [] \<and> has_prefix s p) ps of
     None \<Rightarrow> s | Some p \<Rightarrow> drop (length p) s)"

lemma strip_one_length: "strip_one ps s \<noteq> s \<Longrightarrow> length (strip_one ps s) < length s"
  by (auto simp: strip_one_def has_prefix_iff find_Some_iff split: option.splits)

function strip_all :: "string list \<Rightarrow> string \<Rightarrow> string" where
  "strip_all ps s = (if strip_one ps s = s then s else strip_all ps (strip_one ps s))"
  by pat_completeness auto
termination
  by (relation "measure (\<lambda>(ps, s). length s)") (auto simp: strip_one_length)

declare strip_all.simps [simp del]

definition trim_space :: "string \<Rightarrow> string" where
  "trim_space s = rev (strip_all (map rev space_runes) (rev (strip_all space_runes s)))"

text \<open>A text that begins and ends with printable ASCII characters has nothing to trim.\<close>

definition graphic :: "char \<Rightarrow> bool" where
  "graphic c \<longleftrightarrow> 33 \<le> (of_char c :: nat) \<and> (of_char c :: nat) \<le> 126"

lemma space_runes_not_graphic:
  "list_all (\<lambda>p. p \<noteq> [] \<and> \<not> graphic (hd p) \<and> \<not> graphic (last p)) space_runes"
  by (simp add: space_runes_def graphic_def)

lemma strip_all_same: "strip_one ps s = s \<Longrightarrow> strip_all ps s = s"
  by (simp add: strip_all.simps)

lemma strip_one_graphic:
  assumes "list_all (\<lambda>p. p \<noteq> [] \<longrightarrow> \<not> graphic (hd p)) ps" and "s \<noteq> []" and "graphic (hd s)"
  shows "strip_one ps s = s"
proof -
  have "\<not> (p \<noteq> [] \<and> has_prefix s p)" if "p \<in> set ps" for p
    using assms that by (cases p; cases s) (auto simp: list_all_iff)
  then have "find (\<lambda>p. p \<noteq> [] \<and> has_prefix s p) ps = None" by (auto simp: find_None_iff)
  then show ?thesis by (simp add: strip_one_def)
qed

lemma trim_space_graphic:
  assumes "s \<noteq> []" and "graphic (hd s)" and "graphic (last s)"
  shows "trim_space s = s"
proof -
  have "list_all (\<lambda>p. p \<noteq> [] \<longrightarrow> \<not> graphic (hd p)) space_runes"
    and "list_all (\<lambda>p. p \<noteq> [] \<longrightarrow> \<not> graphic (hd p)) (map rev space_runes)"
    using space_runes_not_graphic by (auto simp: list_all_iff hd_rev)
  with assms show ?thesis
    by (simp add: trim_space_def strip_all_same strip_one_graphic hd_rev)
qed

lemma space_eq: "CHR '' '' = char_of (n :: nat) \<longleftrightarrow> n mod 256 = 32"
  by (simp add: eq_commute [of "CHR '' ''"] char_of_eq_iff take_bit_eq_mod)

lemma strip_one_space: "strip_one space_runes (CHR '' '' # s) = s"
  by (simp add: strip_one_def space_runes_def space_eq)

lemma trim_space_space [simp]: "trim_space (CHR '' '' # s) = trim_space s"
proof -
  have "strip_all space_runes (CHR '' '' # s) = strip_all space_runes s"
    by (subst strip_all.simps) (simp add: strip_one_space)
  then show ?thesis by (simp add: trim_space_def)
qed

text \<open>\<open>strings.ToLower\<close>: the case mapping of the ASCII letters; other bytes are kept.\<close>

definition lower_char :: "char \<Rightarrow> char" where
  "lower_char c = (let n = (of_char c :: nat) in if 65 \<le> n \<and> n \<le> 90 then char_of (n + 32) else c)"

definition to_lower :: "string \<Rightarrow> string" where
  "to_lower s = map lower_char s"

text \<open>\<open>strings.Split\<close> at a one-byte separator.\<close>

fun split_at :: "char \<Rightarrow> string \<Rightarrow> string list" where
  "split_at sep [] = [[]]"
| "split_at sep (c # cs) =
     (if c = sep then [] # split_at sep cs
      else (case split_at sep cs of [] \<Rightarrow> [[c]] | w # ws \<Rightarrow> (c # w) # ws))"

lemma split_at_nonempty [simp]: "split_at sep s \<noteq> []"
  by (induction s) (auto split: list.splits)

lemma split_at_no_sep: "sep \<notin> set s \<Longrightarrow> split_at sep s = [s]"
  by (induction s) auto

lemma split_at_append:
  "sep \<notin> set xs \<Longrightarrow> split_at sep (xs @ sep # ys) = xs # split_at sep ys"
  by (induction xs) (auto split: list.splits)

text \<open>Control characters.\<close>

definition newline :: char where "newline = CHR 0x0A"
definition carriage_return :: char where "carriage_return = CHR 0x0D"

text \<open>
  The lines a \<open>bufio.Scanner\<close> returns: split at newlines (a text that ends with one has no empty
  last line), each without a carriage return at its end, and only up to the first line that does
  not fit the scanner's buffer of 65536 bytes. The second component says whether all were read.
\<close>

definition scan_limit :: nat where "scan_limit = 65536"

definition drop_cr :: "string \<Rightarrow> string" where
  "drop_cr l = (if l \<noteq> [] \<and> last l = carriage_return then butlast l else l)"

definition text_lines :: "string \<Rightarrow> string list" where
  "text_lines s = (let ps = split_at newline s in if last ps = [] then butlast ps else ps)"

definition scan_lines :: "string \<Rightarrow> string list \<times> bool" where
  "scan_lines s =
     (let ls = text_lines s; fit = takeWhile (\<lambda>l. length l < scan_limit) ls in
      (map drop_cr fit, length fit = length ls))"

text \<open>\<open>strings.Join(lines, "\n") + "\n"\<close> is read back as those lines.\<close>

definition unlines :: "string list \<Rightarrow> string" where
  "unlines ls = concat (map (\<lambda>l. l @ [newline]) ls)"

lemma split_at_unlines:
  "list_all (\<lambda>l. newline \<notin> set l) ls \<Longrightarrow> split_at newline (unlines ls) = ls @ [[]]"
  by (induction ls) (simp_all add: unlines_def split_at_append)

lemma text_lines_unlines:
  "list_all (\<lambda>l. newline \<notin> set l) ls \<Longrightarrow> text_lines (unlines ls) = ls"
  by (simp add: text_lines_def split_at_unlines)

lemma scan_unlines:
  assumes "list_all (\<lambda>l. newline \<notin> set l \<and> carriage_return \<notin> set l \<and> length l < scan_limit) ls"
  shows "scan_lines (unlines ls) = (ls, True)"
proof -
  have tl: "text_lines (unlines ls) = ls" using assms by (intro text_lines_unlines) (auto simp: list_all_iff)
  have tw: "takeWhile (\<lambda>l. length l < scan_limit) ls = ls"
    using assms by (auto simp: takeWhile_eq_all_conv list_all_iff)
  have mp: "map drop_cr ls = ls"
    using assms by (intro map_idI) (auto simp: list_all_iff drop_cr_def dest: last_in_set)
  show ?thesis unfolding scan_lines_def Let_def tl tw mp by simp
qed

lemma split_at_pieces: "l \<in> set (split_at sep s) \<Longrightarrow> sep \<notin> set l"
  by (induction s arbitrary: l) (auto split: if_splits list.splits)

lemma split_at_chars: "l \<in> set (split_at sep s) \<Longrightarrow> set l \<subseteq> set s"
  by (induction s arbitrary: l) (auto split: if_splits list.splits, blast+)

text \<open>Decimal numbers as text: their value, and the digits \<open>strconv.Itoa\<close> prints.\<close>

definition is_digit :: "char \<Rightarrow> bool" where
  "is_digit c \<longleftrightarrow> 48 \<le> (of_char c :: nat) \<and> (of_char c :: nat) \<le> 57"

definition digits_val :: "string \<Rightarrow> nat" where
  "digits_val s = foldl (\<lambda>v c. v * 10 + (of_char c - 48)) 0 s"

fun nat_digits :: "nat \<Rightarrow> string" where
  "nat_digits n = (if n < 10 then [char_of (48 + n)] else nat_digits (n div 10) @ [char_of (48 + n mod 10)])"

declare nat_digits.simps [simp del]

lemma digits_val_snoc: "digits_val (s @ [c]) = digits_val s * 10 + (of_char c - 48)"
  by (simp add: digits_val_def)

lemma digit_char: "d < 10 \<Longrightarrow> of_char (char_of (48 + d) :: char) - 48 = (d :: nat)"
  by simp

lemma digits_val_nat_digits [simp]: "digits_val (nat_digits n) = n"
proof (induction n rule: nat_digits.induct)
  case (1 n)
  show ?case
  proof (cases "n < 10")
    case True
    then show ?thesis by (subst nat_digits.simps) (simp add: digits_val_def)
  next
    case False
    with 1 show ?thesis by (subst nat_digits.simps) (simp add: digits_val_snoc)
  qed
qed

lemma nat_digits_inj [simp]: "nat_digits m = nat_digits n \<longleftrightarrow> m = n"
  by (metis digits_val_nat_digits)

lemma nat_digits_all [simp]: "list_all is_digit (nat_digits n)"
proof (induction n rule: nat_digits.induct)
  case (1 n)
  have d: "is_digit (char_of (48 + k))" if "k < 10" for k :: nat using that by (simp add: is_digit_def)
  show ?case
  proof (cases "n < 10")
    case True
    then show ?thesis using d [of n] by (subst nat_digits.simps) simp
  next
    case False
    with 1 d [of "n mod 10"] show ?thesis by (subst nat_digits.simps) simp
  qed
qed

lemma digits_val_zeros [simp]: "digits_val (replicate k CHR ''0'' @ s) = digits_val s"
  by (induction k) (simp_all add: digits_val_def)

text \<open>\<open>strconv.Itoa\<close>, and \<open>strconv.Atoi\<close> with its range of a 64-bit \<open>int\<close>.\<close>

definition int_text :: "int \<Rightarrow> string" where
  "int_text n = (if n < 0 then ''-'' @ nat_digits (nat (- n)) else nat_digits (nat n))"

text \<open>The digits of an \<open>int\<close>, for evaluation.\<close>

definition int_digits :: "int \<Rightarrow> string" where
  "int_digits n = nat_digits (nat n)"

lemma int_digits_code [code]:
  "int_digits n = (if n < 10 then [char_of (48 + nat n)]
     else int_digits (n div 10) @ [char_of (48 + nat (n mod 10))])"
proof (cases "n < 10")
  case True
  then have "nat n < 10" by simp
  then show ?thesis unfolding int_digits_def using True by (subst nat_digits.simps) simp
next
  case False
  then have "\<not> nat n < 10" "nat (n div 10) = nat n div 10" "nat (n mod 10) = nat n mod 10" by (simp_all add: nat_div_distrib nat_mod_distrib)
  with False show ?thesis unfolding int_digits_def by (subst nat_digits.simps) simp
qed

lemma int_text_code [code]:
  "int_text n = (if n < 0 then ''-'' @ int_digits (- n) else int_digits n)"
  by (simp add: int_text_def int_digits_def)

lemma digit_is_plain: "is_digit c \<Longrightarrow> c \<noteq> CHR ''.'' \<and> c \<noteq> CHR ''-'' \<and> c \<noteq> CHR ''+'' \<and> graphic c"
  by (auto simp: is_digit_def graphic_def)

lemma nat_digits_chars:
  "c \<in> set (nat_digits n) \<Longrightarrow> c \<noteq> CHR ''.'' \<and> c \<noteq> CHR ''-'' \<and> c \<noteq> CHR ''+'' \<and> graphic c"
  using nat_digits_all [of n] digit_is_plain by (auto simp: list_all_iff)

lemma nat_digits_nonempty [simp]: "nat_digits n \<noteq> []"
  by (subst nat_digits.simps) simp

lemma zero_digit: "char_of (48 :: nat) = CHR ''0''"
proof -
  have "(of_char CHR ''0'' :: nat) = 48" by simp
  then show ?thesis by (metis char_of_char)
qed

lemma nat_digits_0: "nat_digits 0 = ''0''"
  by (subst nat_digits.simps) (simp add: zero_digit del: char_of_def)

lemma nat_digits_head: "0 < n \<Longrightarrow> hd (nat_digits n) \<noteq> CHR ''0''"
proof (induction n rule: nat_digits.induct)
  case (1 n)
  show ?case
  proof (cases "n < 10")
    case True
    then have "nat_digits n = [char_of (48 + n)]" by (subst nat_digits.simps) simp
    then show ?thesis using True 1 by (simp add: zero_digit [symmetric] char_of_eq_iff take_bit_eq_mod)
  next
    case False
    then have "nat_digits n = nat_digits (n div 10) @ [char_of (48 + n mod 10)]" by (subst nat_digits.simps) simp
    with 1 False show ?thesis by simp
  qed
qed

definition atoi :: "string \<Rightarrow> int option" where
  "atoi s =
     (let neg = has_prefix s ''-'';
          ds = (if neg \<or> has_prefix s ''+'' then tl s else s);
          v = (if neg then - int (digits_val ds) else int (digits_val ds)) in
      if ds = [] \<or> \<not> list_all is_digit ds then None
      else if v < - (2 ^ 63) \<or> v > 2 ^ 63 - 1 then None
      else Some v)"

lemma atoi_digits: "n < 2 ^ 63 \<Longrightarrow> atoi (nat_digits n) = Some (int n)"
proof -
  assume n: "n < 2 ^ 63"
  obtain d ds where ds: "nat_digits n = d # ds" by (cases "nat_digits n") auto
  then have "d \<noteq> CHR ''-''" "d \<noteq> CHR ''+''" using nat_digits_chars [of d n] by auto
  then have "\<not> has_prefix (nat_digits n) ''-''" "\<not> has_prefix (nat_digits n) ''+''" by (auto simp: ds)
  with n show ?thesis by (simp add: atoi_def Let_def)
qed

text \<open>\<open>strings.Contains\<close> and the trimming of a set of characters.\<close>

definition contains :: "string \<Rightarrow> string \<Rightarrow> bool" where
  "contains s p \<longleftrightarrow> list_ex (\<lambda>i. has_prefix (drop i s) p) [0..<Suc (length s)]"

definition trim_left_set :: "string \<Rightarrow> string \<Rightarrow> string" where
  "trim_left_set cs s = dropWhile (\<lambda>c. c \<in> set cs) s"

definition trim_right_set :: "string \<Rightarrow> string \<Rightarrow> string" where
  "trim_right_set cs s = rev (trim_left_set cs (rev s))"

definition trim_set :: "string \<Rightarrow> string \<Rightarrow> string" where
  "trim_set cs s = trim_right_set cs (trim_left_set cs s)"

section \<open>Sorting\<close>

text \<open>
  \<open>sort.Slice\<close> and \<open>sort.SliceStable\<close> with a less function: insertion from the right, which
  keeps the order of elements that compare equal. \<open>sort.Slice\<close> promises no order among
  equal elements; the stable result is one of those it allows, and the only one when the less
  function decides every pair.
\<close>

fun insert_by :: "('a \<Rightarrow> 'a \<Rightarrow> bool) \<Rightarrow> 'a \<Rightarrow> 'a list \<Rightarrow> 'a list" where
  "insert_by lt x [] = [x]"
| "insert_by lt x (y # ys) = (if lt y x then y # insert_by lt x ys else x # y # ys)"

definition go_sort :: "('a \<Rightarrow> 'a \<Rightarrow> bool) \<Rightarrow> 'a list \<Rightarrow> 'a list" where
  "go_sort lt xs = foldr (insert_by lt) xs []"

lemma go_sort_Nil [simp]: "go_sort lt [] = []"
  and go_sort_Cons [simp]: "go_sort lt (x # xs) = insert_by lt x (go_sort lt xs)"
  by (simp_all add: go_sort_def)

lemma mset_insert_by [simp]: "mset (insert_by lt x ys) = add_mset x (mset ys)"
  by (induction ys) auto

lemma mset_go_sort [simp]: "mset (go_sort lt xs) = mset xs"
  by (induction xs) auto

lemma set_go_sort [simp]: "set (go_sort lt xs) = set xs"
  using mset_go_sort [of lt xs] by (metis set_mset_mset)

lemma length_go_sort [simp]: "length (go_sort lt xs) = length xs"
  using mset_go_sort [of lt xs] by (metis size_mset)

text \<open>The contract a less function must keep for the sorts to sort.\<close>

locale weak_order =
  fixes lt :: "'a \<Rightarrow> 'a \<Rightarrow> bool"
  assumes asym: "lt x y \<Longrightarrow> \<not> lt y x"
    and not_less_trans: "\<not> lt y x \<Longrightarrow> \<not> lt z y \<Longrightarrow> \<not> lt z x"
begin

lemma sorted_insert_by:
  "sorted_wrt (\<lambda>x y. \<not> lt y x) ys \<Longrightarrow> sorted_wrt (\<lambda>x y. \<not> lt y x) (insert_by lt x ys)"
proof (induction ys)
  case Nil
  show ?case by simp
next
  case (Cons y ys)
  have set_ins: "set (insert_by lt x ys) = insert x (set ys)"
    by (metis mset_insert_by set_mset_add_mset_insert set_mset_mset)
  from Cons show ?case
    by (auto simp: set_ins dest: asym not_less_trans)
qed

lemma sorted_go_sort: "sorted_wrt (\<lambda>x y. \<not> lt y x) (go_sort lt xs)"
  by (induction xs) (auto intro: sorted_insert_by)

lemma sorted_filter: "sorted_wrt (\<lambda>x y. \<not> lt y x) (filter P (go_sort lt xs))"
  by (rule sorted_wrt_filter) (rule sorted_go_sort)

lemma head_is_least: "go_sort lt xs = y # ys \<Longrightarrow> x \<in> set ys \<Longrightarrow> \<not> lt x y"
  using sorted_go_sort [of xs] by simp

end

section \<open>The last elements of a list\<close>

definition last_n :: "nat \<Rightarrow> 'a list \<Rightarrow> 'a list" where
  "last_n n xs = drop (length xs - n) xs"

lemma last_n_snoc:
  "0 < n \<Longrightarrow> last_n n (xs @ [x]) = (if length (last_n n xs) \<ge> n then tl (last_n n xs) else last_n n xs) @ [x]"
  by (auto simp: last_n_def drop_Suc [symmetric] Suc_diff_le tl_drop drop_Cons' not_le)

lemma last_n_append_le: "length ys \<le> n \<Longrightarrow> \<exists>zs. last_n n (xs @ ys) = zs @ ys"
  by (simp add: last_n_def)

lemma last_n_suffix: "\<exists>zs. xs = zs @ last_n n xs"
  unfolding last_n_def by (metis append_take_drop_id)

section \<open>Go maps\<close>

text \<open>
  A Go map is an association list with distinct keys. Its order stands for the order in
  which \<open>range\<close> visits the entries, which Go leaves open: the theorems hold for every list,
  so for every order.
\<close>

type_synonym ('k, 'v) gomap = "('k \<times> 'v) list"

abbreviation gget :: "('k, 'v) gomap \<Rightarrow> 'k \<Rightarrow> 'v option" where
  "gget m k \<equiv> map_of m k"

abbreviation gput :: "'k \<Rightarrow> 'v \<Rightarrow> ('k, 'v) gomap \<Rightarrow> ('k, 'v) gomap" where
  "gput \<equiv> AList.update"

abbreviation gdel :: "'k \<Rightarrow> ('k, 'v) gomap \<Rightarrow> ('k, 'v) gomap" where
  "gdel \<equiv> AList.delete"

abbreviation gkeys :: "('k, 'v) gomap \<Rightarrow> 'k list" where
  "gkeys m \<equiv> map fst m"

abbreviation gvals :: "('k, 'v) gomap \<Rightarrow> 'v list" where
  "gvals m \<equiv> map snd m"

text \<open>Deleting in a \<open>range\<close> loop every entry a test selects.\<close>

definition gdel_if :: "('k \<Rightarrow> 'v \<Rightarrow> bool) \<Rightarrow> ('k, 'v) gomap \<Rightarrow> ('k, 'v) gomap" where
  "gdel_if P m = filter (\<lambda>(k, v). \<not> P k v) m"

definition wf_map :: "('k, 'v) gomap \<Rightarrow> bool" where
  "wf_map m \<longleftrightarrow> distinct (gkeys m)"

lemma wf_map_Nil [simp]: "wf_map []"
  by (simp add: wf_map_def)

lemma wf_map_single [simp]: "wf_map [(k, v)]"
  by (simp add: wf_map_def)

lemma wf_gput [simp, intro]: "wf_map m \<Longrightarrow> wf_map (gput k v m)"
  by (simp add: wf_map_def distinct_update)

lemma wf_gdel [simp, intro]: "wf_map m \<Longrightarrow> wf_map (gdel k m)"
  by (simp add: wf_map_def distinct_delete)

lemma wf_gdel_if [simp, intro]: "wf_map m \<Longrightarrow> wf_map (gdel_if P m)"
  unfolding wf_map_def gdel_if_def by (rule distinct_map_filter)

lemma gget_gput [simp]: "gget (gput k v m) = (gget m)(k \<mapsto> v)"
  by (rule update_conv')

lemma gget_gdel [simp]: "gget (gdel k m) = (gget m)(k := None)"
  by (rule delete_conv')

lemma gget_gdel_if:
  "wf_map m \<Longrightarrow>
    gget (gdel_if P m) k = (case gget m k of None \<Rightarrow> None | Some v \<Rightarrow> if P k v then None else Some v)"
  unfolding wf_map_def gdel_if_def
  by (induction m) (auto simp: map_of_eq_None_iff split: option.splits)

lemma wf_map_vals [simp]: "wf_map (map (\<lambda>(k, v). (k, f v)) m) = wf_map m"
  by (simp add: wf_map_def comp_def case_prod_beta)

lemma gget_map_vals [simp]: "gget (map (\<lambda>(k, v). (k, f v)) m) k = map_option f (gget m k)"
  by (induction m) auto

lemma list_ex_pairs: "list_ex (\<lambda>(k, v). P k v) m \<longleftrightarrow> (\<exists>k v. (k, v) \<in> set m \<and> P k v)"
  by (auto simp: list_ex_iff)

lemma gget_in_set: "gget m k = Some v \<Longrightarrow> (k, v) \<in> set m"
  by (rule map_of_SomeD)

lemma gget_iff_in_set: "wf_map m \<Longrightarrow> gget m k = Some v \<longleftrightarrow> (k, v) \<in> set m"
  by (simp add: wf_map_def)

lemma gget_in_vals: "gget m k = Some v \<Longrightarrow> v \<in> set (gvals m)"
  by (force dest: map_of_SomeD)

lemma in_vals_gget: "wf_map m \<Longrightarrow> v \<in> set (gvals m) \<Longrightarrow> \<exists>k. gget m k = Some v"
  by (auto simp: wf_map_def)

lemma set_gput: "wf_map m \<Longrightarrow> set (gput k v m) = insert (k, v) {e \<in> set m. fst e \<noteq> k}"
  by (induction m) (auto simp: wf_map_def rev_image_eqI)

lemma set_gdel: "set (gdel k m) = {e \<in> set m. fst e \<noteq> k}"
  by (induction m) auto

lemma set_gdel_if: "set (gdel_if P m) = {e \<in> set m. \<not> P (fst e) (snd e)}"
  by (auto simp: gdel_if_def)

lemma gput_gput: "gput k v (gput k w m) = gput k v m"
  by (induction m) auto

lemma gput_same: "gget m k = Some v \<Longrightarrow> gput k v m = m"
  by (induction m) (auto split: if_splits)

lemma gvals_gput: "set (gvals (gput k v m)) \<subseteq> insert v (set (gvals m))"
  by (induction m) auto

lemma gvals_gdel: "set (gvals (gdel k m)) \<subseteq> set (gvals m)"
  by (induction m) auto

lemma gput_fresh: "gget m k = None \<Longrightarrow> gput k v m = m @ [(k, v)]"
  by (induction m) (auto split: if_splits)

lemma gdel_gput_fresh [simp]: "gget m k = None \<Longrightarrow> gdel k (gput k v m) = m"
  by (induction m) (auto split: if_splits)

lemma gput_restore: "gget m k = Some v \<Longrightarrow> gput k v (gput k w m) = m"
  by (simp add: update_triv)

lemma length_gdel_gput: "gget m k = Some v \<Longrightarrow> length (gput k w m) = length m"
  by (induction m) (auto split: if_splits)

text \<open>
  The interface the components use a keyed store through: what a lookup returns after a
  write or a removal, and that the writers that undo a failed write restore the store.
\<close>

locale keyed_store =
  fixes get :: "'m \<Rightarrow> 'k \<Rightarrow> 'v option"
    and put :: "'k \<Rightarrow> 'v \<Rightarrow> 'm \<Rightarrow> 'm"
    and del :: "'k \<Rightarrow> 'm \<Rightarrow> 'm"
  assumes get_put: "get (put k v m) k' = (if k' = k then Some v else get m k')"
    and get_del: "get (del k m) k' = (if k' = k then None else get m k')"
    and put_back: "get m k = Some v \<Longrightarrow> put k v (put k w m) = m"
    and del_back: "get m k = None \<Longrightarrow> del k (put k v m) = m"
begin

definition rollback :: "'k \<Rightarrow> 'v option \<Rightarrow> 'm \<Rightarrow> 'm" where
  "rollback k old m = (case old of None \<Rightarrow> del k m | Some v \<Rightarrow> put k v m)"

lemma rollback_restores: "rollback k (get m k) (put k v m) = m"
  by (cases "get m k") (simp_all add: rollback_def put_back del_back)

lemma put_other: "k' \<noteq> k \<Longrightarrow> get (put k v m) k' = get m k'"
  by (simp add: get_put)

lemma put_put_get: "get (put k w (put k v m)) k' = get (put k w m) k'"
  by (simp add: get_put)

end

interpretation gm: keyed_store "gget :: ('k, 'v) gomap \<Rightarrow> 'k \<Rightarrow> 'v option" gput gdel
  by unfold_locales (auto simp: gput_restore update_triv)

end
