(* ===== verification/Users.thy ===== *)
theory Users
  imports Prelude
begin

text \<open>
  Accounts and the fixed permission matrix: \<open>internal/auth/user.go\<close> (roles, account status,
  user names) and \<open>internal/auth/permissions.go\<close>. A Go string type with named values is a
  datatype with one constructor per value and one, \<open>\<dots>Other\<close>, for every other string.
\<close>

section \<open>Roles and account status (user.go)\<close>

datatype Role = RoleOwner | RoleAdmin | RoleViewer | RoleOther string

datatype UserStatus = UserStatusActive | UserStatusDisabled | UserStatusOther string

fun IsValidRole :: "Role \<Rightarrow> bool" where
  "IsValidRole RoleOwner = True"
| "IsValidRole RoleAdmin = True"
| "IsValidRole RoleViewer = True"
| "IsValidRole (RoleOther s) = False"

fun IsValidUserStatus :: "UserStatus \<Rightarrow> bool" where
  "IsValidUserStatus UserStatusActive = True"
| "IsValidUserStatus UserStatusDisabled = True"
| "IsValidUserStatus (UserStatusOther s) = False"

text \<open>The conversions \<open>string(role)\<close> and \<open>Role(s)\<close>.\<close>

fun role_string :: "Role \<Rightarrow> string" where
  "role_string RoleOwner = ''owner''"
| "role_string RoleAdmin = ''admin''"
| "role_string RoleViewer = ''viewer''"
| "role_string (RoleOther s) = s"

definition role_of :: "string \<Rightarrow> Role" where
  "role_of s = (if s = ''owner'' then RoleOwner else if s = ''admin'' then RoleAdmin
     else if s = ''viewer'' then RoleViewer else RoleOther s)"

lemma role_string_role_of [simp]: "role_string (role_of s) = s"
  by (simp add: role_of_def)

lemma role_of_role_string [simp]: "IsValidRole r \<Longrightarrow> role_of (role_string r) = r"
  by (cases r) (simp_all add: role_of_def)

datatype auth_error =
    ErrLastOwnerRequired | ErrUsernameConflict | ErrUserNotFound | ErrUserDisabled
  | ErrInvalidRole | ErrInvalidUsername | ErrPasswordTooShort
  | ErrUnauthorized | ErrSessionExpired
  | ErrEmptyCredentials | ErrInvalidUser | ErrEmptyNewPassword | ErrWrongCurrentPassword
  | ErrPasswordHash | ErrRandom | ErrSave
  | ErrClaimTokenNotFound | ErrClaimTokenExpired | ErrClaimTokenExhausted

record User =
  u_ID :: string
  u_Username :: string
  u_UsernameKey :: string
  u_PasswordHash :: string
  u_Role :: Role
  u_Status :: UserStatus
  u_SessionVersion :: u64
  u_CreatedBy :: string
  u_CreatedAt :: time
  u_UpdatedAt :: time
  u_LastLoginAt :: "time option"
  u_DisabledAt :: "time option"
  u_Revision :: u64

section \<open>User names (user.go)\<close>

definition NormalizeUsernameKey :: "string \<Rightarrow> string" where
  "NormalizeUsernameKey username = to_lower (trim_space username)"

text \<open>The character class of \<open>usernameRegex\<close>, \<open>[a-zA-Z0-9_.@-]\<close>.\<close>

definition username_char :: "char \<Rightarrow> bool" where
  "username_char c = (let n = (of_char c :: nat) in
     97 \<le> n \<and> n \<le> 122 \<or> 65 \<le> n \<and> n \<le> 90 \<or> 48 \<le> n \<and> n \<le> 57
     \<or> c = CHR ''_'' \<or> c = CHR ''.'' \<or> c = CHR ''@'' \<or> c = CHR ''-'')"

definition ValidateUsernameFormat :: "string \<Rightarrow> auth_error option" where
  "ValidateUsernameFormat username =
     (let trimmed = trim_space username in
      if length trimmed < 3 \<or> length trimmed > 32 then Some ErrInvalidUsername
      else if \<not> list_all username_char trimmed then Some ErrInvalidUsername
      else None)"

lemma strip_one_id_iff:
  "strip_one ps s = s \<longleftrightarrow> (\<forall>p \<in> set ps. p \<noteq> [] \<longrightarrow> \<not> has_prefix s p)"
proof
  assume eq: "strip_one ps s = s"
  show "\<forall>p \<in> set ps. p \<noteq> [] \<longrightarrow> \<not> has_prefix s p"
  proof (cases "find (\<lambda>p. p \<noteq> [] \<and> has_prefix s p) ps")
    case None
    then show ?thesis by (auto simp: find_None_iff)
  next
    case (Some p)
    then obtain t where "p \<noteq> []" and "s = p @ t" by (auto simp: find_Some_iff has_prefix_iff)
    moreover from Some eq have "drop (length p) s = s" by (simp add: strip_one_def)
    ultimately have False by (metis append_eq_conv_conj append_self_conv2)
    then show ?thesis ..
  qed
next
  assume "\<forall>p \<in> set ps. p \<noteq> [] \<longrightarrow> \<not> has_prefix s p"
  then have "find (\<lambda>p. p \<noteq> [] \<and> has_prefix s p) ps = None"
    by (auto simp: find_None_iff)
  then show "strip_one ps s = s" by (simp add: strip_one_def)
qed

lemma strip_all_fixed: "strip_one ps (strip_all ps s) = strip_all ps s"
proof (induction ps s rule: strip_all.induct)
  case (1 ps s)
  then show ?case by (cases "strip_one ps s = s") (simp_all add: strip_all.simps [of ps s])
qed

lemma strip_all_id: "strip_one ps s = s \<Longrightarrow> strip_all ps s = s"
  by (simp add: strip_all.simps)

lemma strip_one_suffix: "\<exists>p. s = p @ strip_one ps s"
  by (auto simp: strip_one_def has_prefix_iff find_Some_iff split: option.splits)

lemma strip_all_suffix: "\<exists>p. s = p @ strip_all ps s"
proof (induction ps s rule: strip_all.induct)
  case (1 ps s)
  show ?case
  proof (cases "strip_one ps s = s")
    case True
    then show ?thesis by (simp add: strip_all.simps [of ps s])
  next
    case False
    with "1" obtain p where "strip_one ps s = p @ strip_all ps (strip_one ps s)" by blast
    moreover obtain q where "s = q @ strip_one ps s" using strip_one_suffix by blast
    ultimately have "s = (q @ p) @ strip_all ps s"
      using False by (simp add: strip_all.simps [of ps s])
    then show ?thesis by blast
  qed
qed

lemma trim_space_idem [simp]: "trim_space (trim_space s) = trim_space s"
proof -
  let ?l = "strip_all space_runes s"
  let ?r = "strip_all (map rev space_runes) (rev ?l)"
  obtain q where "rev ?l = q @ ?r" using strip_all_suffix by blast
  then have l: "?l = rev ?r @ rev q" by (metis rev_append rev_rev_ident)
  have "strip_one space_runes ?l = ?l" by (rule strip_all_fixed)
  then have "\<forall>p \<in> set space_runes. p \<noteq> [] \<longrightarrow> \<not> has_prefix (rev ?r) p"
    unfolding strip_one_id_iff using l by (metis append_assoc has_prefix_iff)
  then have "strip_all space_runes (rev ?r) = rev ?r"
    by (intro strip_all_id) (simp add: strip_one_id_iff)
  moreover have "strip_all (map rev space_runes) ?r = ?r"
    by (rule strip_all_id) (rule strip_all_fixed)
  ultimately show ?thesis by (simp add: trim_space_def)
qed

lemma lower_char_idem [simp]: "lower_char (lower_char c) = lower_char c"
  by (auto simp: lower_char_def Let_def)

lemma to_lower_idem [simp]: "to_lower (to_lower s) = to_lower s"
  by (simp add: to_lower_def o_def)

section \<open>The permission matrix (permissions.go)\<close>

datatype Permission =
    PermUsersRead | PermUsersCreate | PermUsersUpdateRole | PermUsersDisable | PermUsersDelete
  | PermUsersResetPassword | PermSessionsReadAll | PermSessionsRevokeAll
  | PermDevicesRead | PermDevicesUpdate | PermDevicesDelete | PermDevicesShare
  | PermDevicesTransfer | PermDevicesClaimTokenCreate | PermDevicesClaimTokenRead
  | PermDevicesClaimTokenRevoke | PermDevicesSync | PermDevicesWake | PermDevicesShutdown
  | PermDevicesUpgrade | PermCommandsRead | PermCommandsCancel | PermHealthRead
  | PermAlertsRead | PermAlertsManage | PermGitHubManage | PermInstanceSettingsRead
  | PermInstanceSettingsManage | PermAuditRead | PermOther string

definition allPermissions :: "Permission list" where
  "allPermissions =
    [PermUsersRead, PermUsersCreate, PermUsersUpdateRole, PermUsersDisable, PermUsersDelete,
     PermUsersResetPassword, PermSessionsReadAll, PermSessionsRevokeAll,
     PermDevicesRead, PermDevicesUpdate, PermDevicesDelete, PermDevicesShare,
     PermDevicesTransfer, PermDevicesClaimTokenCreate, PermDevicesClaimTokenRead,
     PermDevicesClaimTokenRevoke, PermDevicesSync, PermDevicesWake, PermDevicesShutdown,
     PermDevicesUpgrade, PermCommandsRead, PermCommandsCancel, PermHealthRead,
     PermAlertsRead, PermAlertsManage, PermGitHubManage, PermInstanceSettingsRead,
     PermInstanceSettingsManage, PermAuditRead]"

definition adminPermList :: "Permission list" where
  "adminPermList =
    [PermUsersRead, PermUsersResetPassword, PermDevicesRead, PermDevicesUpdate,
     PermDevicesDelete, PermDevicesShare, PermDevicesClaimTokenCreate,
     PermDevicesClaimTokenRead, PermDevicesClaimTokenRevoke, PermDevicesSync,
     PermDevicesWake, PermDevicesShutdown, PermDevicesUpgrade, PermCommandsRead,
     PermCommandsCancel, PermHealthRead, PermAlertsRead, PermAlertsManage,
     PermInstanceSettingsRead, PermAuditRead]"

definition viewerPermList :: "Permission list" where
  "viewerPermList =
    [PermUsersRead, PermUsersResetPassword, PermDevicesRead, PermCommandsRead,
     PermHealthRead, PermAlertsRead]"

fun RoleHasPermission :: "Role \<Rightarrow> Permission \<Rightarrow> bool" where
  "RoleHasPermission RoleOwner perm = List.member allPermissions perm"
| "RoleHasPermission RoleAdmin perm = List.member adminPermList perm"
| "RoleHasPermission RoleViewer perm = List.member viewerPermList perm"
| "RoleHasPermission (RoleOther s) perm = False"

definition PermissionsForRole :: "Role \<Rightarrow> Permission list" where
  "PermissionsForRole role = filter (RoleHasPermission role) allPermissions"

lemma allPermissions_complete: "p \<in> set allPermissions \<longleftrightarrow> (\<forall>s. p \<noteq> PermOther s)"
  by (cases p) (simp_all add: allPermissions_def)

lemma viewer_sub_admin: "RoleHasPermission RoleViewer p \<Longrightarrow> RoleHasPermission RoleAdmin p"
  by (cases p) (simp_all add: viewerPermList_def adminPermList_def)

lemma admin_sub_owner: "RoleHasPermission RoleAdmin p \<Longrightarrow> RoleHasPermission RoleOwner p"
  by (cases p) (simp_all add: adminPermList_def allPermissions_def)

end
