(* ===== verification/Sessions.thy ===== *)
theory Sessions
  imports Users
begin

text \<open>
  Accounts and login sessions: \<open>internal/auth/session.go\<close>, with the store migration of
  \<open>internal/auth/migration.go\<close>. The state is the record \<open>SessionManager\<close> of the three maps;
  \<open>sm_disk\<close> is what the store file holds. Every operation returns the new state with its
  result, because several of them change the state and then return an error.

  The clock reading, the outcome of a file write, the random token and identifier, SHA-256 and
  bcrypt are the environment \<open>auth_env\<close> of an operation; each operation reads the clock once.
\<close>

record AdminUser =
  adm_Username :: string
  adm_PasswordHash :: string
  adm_CreatedAt :: time
  adm_UpdatedAt :: time

record Session =
  sess_TokenHash :: string
  sess_UserID :: string
  sess_Username :: string
  sess_Role :: string
  sess_IssuedSessionVer :: u64
  sess_CreatedAt :: time
  sess_LastSeenAt :: time
  sess_ExpiresAt :: time
  sess_RememberMe :: bool

record authStoreDataV2 =
  st_SchemaVersion :: int
  st_Admin :: "AdminUser option"
  st_Users :: "(string, User) gomap"
  st_Sessions :: "(string, Session) gomap"

record SessionManager =
  sm_storePath :: string
  sm_schemaVersion :: int
  sm_users :: "(string, User) gomap"
  sm_userKeys :: "(string, string) gomap"
  sm_sessions :: "(string, Session) gomap"
  sm_disk :: "authStoreDataV2 option"

record auth_env =
  ae_Now :: time
  ae_SaveOK :: bool
  ae_Token :: "string option"
  ae_UserID :: string
  ae_Sha256 :: "string \<Rightarrow> string"
  ae_HashPassword :: "string \<Rightarrow> string option"
  ae_CheckPassword :: "string \<Rightarrow> string \<Rightarrow> bool"

definition CurrentSchemaVersion :: int where "CurrentSchemaVersion = 2"
definition SessionDurationRememberMe :: duration where "SessionDurationRememberMe = hours (7 * 24)"
definition SessionDurationDefault :: duration where "SessionDurationDefault = hours 24"

text \<open>\<open>HashToken\<close> of \<open>hash.go\<close>, with the SHA-256 of the environment.\<close>

definition HashToken :: "(string \<Rightarrow> string) \<Rightarrow> string \<Rightarrow> string" where
  "HashToken sha rawToken = (if rawToken = [] then [] else sha rawToken)"

section \<open>Persistence and the helpers that hold the lock\<close>

definition saveLocked :: "bool \<Rightarrow> SessionManager \<Rightarrow> SessionManager \<times> bool" where
  "saveLocked ok sm =
     (if sm_storePath sm = [] then (sm, True)
      else if ok then
        (sm\<lparr>sm_disk := Some \<lparr>st_SchemaVersion = sm_schemaVersion sm, st_Admin = None,
             st_Users = sm_users sm, st_Sessions = sm_sessions sm\<rparr>\<rparr>, True)
      else (sm, False))"

text \<open>\<open>return sm.saveLocked()\<close> at the end of an operation.\<close>

definition save_return :: "bool \<Rightarrow> SessionManager \<Rightarrow> 'a \<Rightarrow> SessionManager \<times> (auth_error + 'a)" where
  "save_return ok sm v =
     (let (sm', saved) = saveLocked ok sm in (sm', if saved then Inr v else Inl ErrSave))"

definition is_active_owner :: "User \<Rightarrow> bool" where
  "is_active_owner u \<longleftrightarrow> u_Status u = UserStatusActive \<and> u_Role u = RoleOwner"

definition countActiveOwnersLocked :: "SessionManager \<Rightarrow> nat" where
  "countActiveOwnersLocked sm = length (filter is_active_owner (gvals (sm_users sm)))"

definition cleanExpiredLocked :: "time \<Rightarrow> SessionManager \<Rightarrow> SessionManager" where
  "cleanExpiredLocked now sm =
     sm\<lparr>sm_sessions := gdel_if (\<lambda>_ s. now > sess_ExpiresAt s) (sm_sessions sm)\<rparr>"

text \<open>The loop that deletes every session of one user.\<close>

definition drop_user_sessions :: "string \<Rightarrow> SessionManager \<Rightarrow> SessionManager" where
  "drop_user_sessions userID sm =
     sm\<lparr>sm_sessions := gdel_if (\<lambda>_ s. sess_UserID s = userID) (sm_sessions sm)\<rparr>"

definition put_user :: "string \<Rightarrow> User \<Rightarrow> SessionManager \<Rightarrow> SessionManager" where
  "put_user userID u sm = sm\<lparr>sm_users := gput userID u (sm_users sm)\<rparr>"

section \<open>Loading and migration (migration.go)\<close>

datatype raw_store = EmptyStore | MalformedStore | ParsedStore authStoreDataV2

text \<open>
  \<open>MigrateAuthStoreData\<close>: the parsed store file, whether it was migrated, or None where the
  JSON cannot be decoded. The backup copy of the old bytes is not modelled.
\<close>

definition migrate_admin :: "auth_env \<Rightarrow> AdminUser \<Rightarrow> authStoreDataV2 \<Rightarrow> authStoreDataV2" where
  "migrate_admin env adm d =
     (let now = ae_Now env; ownerID = ae_UserID env;
          uname0 = trim_space (adm_Username adm);
          uname = (if uname0 = [] then ''admin'' else uname0);
          createdAt = (if is_zero_time (adm_CreatedAt adm) then now else adm_CreatedAt adm);
          updatedAt = (if is_zero_time (adm_UpdatedAt adm) then now else adm_UpdatedAt adm);
          owner = \<lparr>u_ID = ownerID, u_Username = uname, u_UsernameKey = NormalizeUsernameKey uname,
            u_PasswordHash = adm_PasswordHash adm, u_Role = RoleOwner, u_Status = UserStatusActive,
            u_SessionVersion = 1, u_CreatedBy = ''system_migration'', u_CreatedAt = createdAt,
            u_UpdatedAt = updatedAt, u_LastLoginAt = None, u_DisabledAt = None, u_Revision = 1\<rparr> in
      d\<lparr>st_Users := gput ownerID owner (st_Users d),
        st_Sessions := map (\<lambda>(h, s). (h, s\<lparr>sess_UserID := ownerID, sess_Username := uname,
          sess_Role := role_string RoleOwner, sess_IssuedSessionVer := 1\<rparr>)) (st_Sessions d),
        st_Admin := None, st_SchemaVersion := CurrentSchemaVersion\<rparr>)"

definition MigrateAuthStoreData :: "auth_env \<Rightarrow> raw_store \<Rightarrow> (authStoreDataV2 \<times> bool) option" where
  "MigrateAuthStoreData env raw = (case raw of
     EmptyStore \<Rightarrow>
       Some (\<lparr>st_SchemaVersion = CurrentSchemaVersion, st_Admin = None, st_Users = [],
              st_Sessions = []\<rparr>, False)
   | MalformedStore \<Rightarrow> None
   | ParsedStore d \<Rightarrow>
       (if st_SchemaVersion d \<ge> CurrentSchemaVersion \<and> st_Admin d = None then Some (d, False)
        else (case st_Admin d of
          Some adm \<Rightarrow>
            if adm_PasswordHash adm \<noteq> [] \<and> st_Users d = [] then Some (migrate_admin env adm d, True)
            else Some (d\<lparr>st_Admin := None, st_SchemaVersion := CurrentSchemaVersion\<rparr>, True)
        | None \<Rightarrow> Some (d\<lparr>st_Admin := None, st_SchemaVersion := CurrentSchemaVersion\<rparr>, True))))"

datatype store_file = NoFile | UnreadableFile | StoreFile raw_store

text \<open>The loop of \<open>NewSessionManager\<close> that fills in missing keys and builds the key index.\<close>

definition fill_key :: "User \<Rightarrow> User" where
  "fill_key u = (if u_UsernameKey u = [] then u\<lparr>u_UsernameKey := NormalizeUsernameKey (u_Username u)\<rparr> else u)"

definition index_keys :: "(string, User) gomap \<Rightarrow> (string, string) gomap" where
  "index_keys us = fold (\<lambda>(_, u) ks. gput (u_UsernameKey u) (u_ID u) ks) us []"

definition NewSessionManager ::
  "auth_env \<Rightarrow> string \<Rightarrow> store_file \<Rightarrow> SessionManager option" where
  "NewSessionManager env storePath file =
     (let sm = \<lparr>sm_storePath = storePath, sm_schemaVersion = CurrentSchemaVersion, sm_users = [],
                sm_userKeys = [], sm_sessions = [], sm_disk = None\<rparr> in
      if storePath = [] then Some sm
      else (case file of
        NoFile \<Rightarrow> Some sm
      | UnreadableFile \<Rightarrow> None
      | StoreFile raw \<Rightarrow>
          (case MigrateAuthStoreData env raw of
             None \<Rightarrow> None
           | Some (d, migrated) \<Rightarrow>
               (let us = map (\<lambda>(i, u). (i, fill_key u)) (st_Users d);
                    sm1 = sm\<lparr>sm_schemaVersion := st_SchemaVersion d, sm_users := us,
                      sm_sessions := st_Sessions d, sm_userKeys := index_keys us,
                      sm_disk := (case raw of ParsedStore d0 \<Rightarrow> Some d0 | _ \<Rightarrow> None)\<rparr>;
                    sm2 = cleanExpiredLocked (ae_Now env) sm1 in
                Some (if migrated then fst (saveLocked (ae_SaveOK env) sm2) else sm2)))))"

section \<open>Accounts\<close>

definition HasAdmin :: "SessionManager \<Rightarrow> bool" where
  "HasAdmin sm \<longleftrightarrow> list_ex (\<lambda>u. u_Status u = UserStatusActive
     \<and> (u_Role u = RoleOwner \<or> u_Role u = RoleAdmin)) (gvals (sm_users sm))"

definition GetAdminUsername :: "SessionManager \<Rightarrow> string" where
  "GetAdminUsername sm =
     (case find is_active_owner (gvals (sm_users sm)) of
        Some u \<Rightarrow> u_Username u
      | None \<Rightarrow>
         (case find (\<lambda>u. u_Status u = UserStatusActive \<and> u_Role u = RoleAdmin) (gvals (sm_users sm)) of
            Some u \<Rightarrow> u_Username u
          | None \<Rightarrow> []))"

definition new_user :: "auth_env \<Rightarrow> string \<Rightarrow> string \<Rightarrow> Role \<Rightarrow> string \<Rightarrow> User" where
  "new_user env username hash role createdBy =
     \<lparr>u_ID = ae_UserID env, u_Username = trim_space username,
      u_UsernameKey = NormalizeUsernameKey username, u_PasswordHash = hash, u_Role = role,
      u_Status = UserStatusActive, u_SessionVersion = 1, u_CreatedBy = createdBy,
      u_CreatedAt = ae_Now env, u_UpdatedAt = ae_Now env, u_LastLoginAt = None,
      u_DisabledAt = None, u_Revision = 1\<rparr>"

definition add_user :: "User \<Rightarrow> SessionManager \<Rightarrow> SessionManager" where
  "add_user u sm = sm\<lparr>sm_users := gput (u_ID u) u (sm_users sm),
     sm_userKeys := gput (u_UsernameKey u) (u_ID u) (sm_userKeys sm)\<rparr>"

definition InitAdminBootstrap ::
  "auth_env \<Rightarrow> string \<Rightarrow> string \<Rightarrow> SessionManager \<Rightarrow> SessionManager \<times> (auth_error + bool)" where
  "InitAdminBootstrap env username password sm =
     (if trim_space username = [] \<or> trim_space password = [] then (sm, Inl ErrEmptyCredentials)
      else if sm_users sm \<noteq> [] then (sm, Inr False)
      else (case ValidateUsernameFormat username of
        Some e \<Rightarrow> (sm, Inl e)
      | None \<Rightarrow>
          if length password < 6 then (sm, Inl ErrPasswordTooShort)
          else (case ae_HashPassword env password of
            None \<Rightarrow> (sm, Inl ErrPasswordHash)
          | Some hash \<Rightarrow>
              save_return (ae_SaveOK env)
                (add_user (new_user env username hash RoleOwner ''bootstrap'') sm) True)))"

text \<open>The nil pointer argument of \<open>UpsertUser\<close> is None.\<close>

definition UpsertUser :: "User option \<Rightarrow> SessionManager \<Rightarrow> SessionManager \<times> (auth_error + unit)" where
  "UpsertUser uo sm = (case uo of
     None \<Rightarrow> (sm, Inl ErrInvalidUser)
   | Some u \<Rightarrow>
       if u_ID u = [] then (sm, Inl ErrInvalidUser)
       else
         (let key = (if u_UsernameKey u = [] then NormalizeUsernameKey (u_Username u)
                     else u_UsernameKey u) in
          (sm\<lparr>sm_users := gput (u_ID u) u (sm_users sm),
              sm_userKeys := gput key (u_ID u) (sm_userKeys sm)\<rparr>, Inr ())))"

definition AuthenticateUser ::
  "auth_env \<Rightarrow> string \<Rightarrow> string \<Rightarrow> SessionManager \<Rightarrow> auth_error + User" where
  "AuthenticateUser env username password sm =
     (case gget (sm_userKeys sm) (NormalizeUsernameKey username) of
        None \<Rightarrow> Inl ErrUnauthorized
      | Some userID \<Rightarrow>
         (case gget (sm_users sm) userID of
            None \<Rightarrow> Inl ErrUnauthorized
          | Some u \<Rightarrow>
              if u_Status u \<noteq> UserStatusActive \<or> u_PasswordHash u = [] then Inl ErrUnauthorized
              else if \<not> ae_CheckPassword env (u_PasswordHash u) password then Inl ErrUnauthorized
              else Inr u))"

definition CreateUser ::
  "auth_env \<Rightarrow> string \<Rightarrow> string \<Rightarrow> Role \<Rightarrow> string \<Rightarrow> SessionManager
     \<Rightarrow> SessionManager \<times> (auth_error + User)" where
  "CreateUser env username password role createdBy sm =
     (case ValidateUsernameFormat username of
        Some e \<Rightarrow> (sm, Inl e)
      | None \<Rightarrow>
          if length password < 6 then (sm, Inl ErrPasswordTooShort)
          else if \<not> IsValidRole role then (sm, Inl ErrInvalidRole)
          else if gget (sm_userKeys sm) (NormalizeUsernameKey username) \<noteq> None
            then (sm, Inl ErrUsernameConflict)
          else (case ae_HashPassword env password of
            None \<Rightarrow> (sm, Inl ErrPasswordHash)
          | Some hash \<Rightarrow>
             (let user = new_user env username hash role createdBy;
                  (sm', saved) = saveLocked (ae_SaveOK env) (add_user user sm) in
              if saved then (sm', Inr user)
              else (sm'\<lparr>sm_users := gdel (u_ID user) (sm_users sm'),
                        sm_userKeys := gdel (u_UsernameKey user) (sm_userKeys sm')\<rparr>, Inl ErrSave))))"

section \<open>Sessions\<close>

definition CreateUserSession ::
  "auth_env \<Rightarrow> string \<Rightarrow> bool \<Rightarrow> SessionManager \<Rightarrow> SessionManager \<times> (auth_error + (string \<times> Session))" where
  "CreateUserSession env userID rememberMe sm =
     (case gget (sm_users sm) userID of
        None \<Rightarrow> (sm, Inl ErrUnauthorized)
      | Some u \<Rightarrow>
          if u_Status u \<noteq> UserStatusActive then (sm, Inl ErrUnauthorized)
          else (case ae_Token env of
            None \<Rightarrow> (sm, Inl ErrRandom)
          | Some rawToken \<Rightarrow>
             (let tokenHash = HashToken (ae_Sha256 env) rawToken; now = ae_Now env;
                  duration = (if rememberMe then SessionDurationRememberMe else SessionDurationDefault);
                  session = \<lparr>sess_TokenHash = tokenHash, sess_UserID = u_ID u,
                    sess_Username = u_Username u, sess_Role = role_string (u_Role u),
                    sess_IssuedSessionVer = u_SessionVersion u, sess_CreatedAt = now,
                    sess_LastSeenAt = now, sess_ExpiresAt = now + duration,
                    sess_RememberMe = rememberMe\<rparr>;
                  sm1 = cleanExpiredLocked now sm;
                  sm2 = put_user userID (u\<lparr>u_LastLoginAt := Some now\<rparr>)
                          (sm1\<lparr>sm_sessions := gput tokenHash session (sm_sessions sm1)\<rparr>);
                  (sm3, saved) = saveLocked (ae_SaveOK env) sm2 in
              if saved then (sm3, Inr (rawToken, session))
              else (put_user userID u
                      (sm3\<lparr>sm_sessions := gdel tokenHash (sm_sessions sm3)\<rparr>), Inl ErrSave))))"

definition CreateSession ::
  "auth_env \<Rightarrow> string \<Rightarrow> string \<Rightarrow> bool \<Rightarrow> SessionManager
     \<Rightarrow> SessionManager \<times> (auth_error + (string \<times> Session))" where
  "CreateSession env username role rememberMe sm =
     (case gget (sm_userKeys sm) (NormalizeUsernameKey username) of
        None \<Rightarrow> (sm, Inl ErrUserNotFound)
      | Some userID \<Rightarrow> CreateUserSession env userID rememberMe sm)"

definition ValidateSession ::
  "auth_env \<Rightarrow> string \<Rightarrow> SessionManager \<Rightarrow> SessionManager \<times> (auth_error + Session)" where
  "ValidateSession env rawToken sm =
     (if trim_space rawToken = [] then (sm, Inl ErrUnauthorized)
      else
        (let tokenHash = HashToken (ae_Sha256 env) rawToken; now = ae_Now env;
             expire = (fst (saveLocked (ae_SaveOK env)
               (sm\<lparr>sm_sessions := gdel tokenHash (sm_sessions sm)\<rparr>)), Inl ErrSessionExpired) in
         (case gget (sm_sessions sm) tokenHash of
            None \<Rightarrow> (sm, Inl ErrUnauthorized)
          | Some sess \<Rightarrow>
              if now > sess_ExpiresAt sess then expire
              else (case gget (sm_users sm) (sess_UserID sess) of
                None \<Rightarrow> expire
              | Some u \<Rightarrow>
                  if u_Status u \<noteq> UserStatusActive
                     \<or> sess_IssuedSessionVer sess \<noteq> u_SessionVersion u then expire
                  else
                    (let sess' = sess\<lparr>sess_LastSeenAt := now, sess_Username := u_Username u,
                           sess_Role := role_string (u_Role u)\<rparr> in
                     (sm\<lparr>sm_sessions := gput tokenHash sess' (sm_sessions sm)\<rparr>, Inr sess'))))))"

definition RevokeSession ::
  "auth_env \<Rightarrow> string \<Rightarrow> SessionManager \<Rightarrow> SessionManager \<times> (auth_error + unit)" where
  "RevokeSession env rawToken sm =
     (if trim_space rawToken = [] then (sm, Inr ())
      else save_return (ae_SaveOK env)
        (sm\<lparr>sm_sessions := gdel (HashToken (ae_Sha256 env) rawToken) (sm_sessions sm)\<rparr>) ())"

definition RevokeAllSessions ::
  "auth_env \<Rightarrow> SessionManager \<Rightarrow> SessionManager \<times> (auth_error + unit)" where
  "RevokeAllSessions env sm = save_return (ae_SaveOK env) (sm\<lparr>sm_sessions := []\<rparr>) ()"

definition RevokeUserSessions ::
  "auth_env \<Rightarrow> string \<Rightarrow> SessionManager \<Rightarrow> SessionManager \<times> (auth_error + unit)" where
  "RevokeUserSessions env userID sm =
     (case gget (sm_users sm) userID of
        None \<Rightarrow> (sm, Inl ErrUserNotFound)
      | Some u \<Rightarrow>
          save_return (ae_SaveOK env) (drop_user_sessions userID
            (put_user userID (u\<lparr>u_SessionVersion := u_SessionVersion u + 1,
               u_UpdatedAt := ae_Now env\<rparr>) sm)) ())"

section \<open>Changing accounts\<close>

text \<open>The update and clean-up that the password changes share.\<close>

definition replace_password :: "auth_env \<Rightarrow> string \<Rightarrow> User \<Rightarrow> string \<Rightarrow> SessionManager \<Rightarrow> SessionManager" where
  "replace_password env userID u hash sm =
     drop_user_sessions userID (put_user userID (u\<lparr>u_PasswordHash := hash,
       u_SessionVersion := u_SessionVersion u + 1, u_UpdatedAt := ae_Now env,
       u_Revision := u_Revision u + 1\<rparr>) sm)"

definition UpdateUserPassword ::
  "auth_env \<Rightarrow> string \<Rightarrow> string \<Rightarrow> string \<Rightarrow> SessionManager \<Rightarrow> SessionManager \<times> (auth_error + unit)" where
  "UpdateUserPassword env userID oldPassword newPassword sm =
     (if trim_space newPassword = [] then (sm, Inl ErrEmptyNewPassword)
      else if length newPassword < 6 then (sm, Inl ErrPasswordTooShort)
      else (case gget (sm_users sm) userID of
        None \<Rightarrow> (sm, Inl ErrUserNotFound)
      | Some u \<Rightarrow>
          if \<not> ae_CheckPassword env (u_PasswordHash u) oldPassword
          then (sm, Inl ErrWrongCurrentPassword)
          else (case ae_HashPassword env newPassword of
            None \<Rightarrow> (sm, Inl ErrPasswordHash)
          | Some hash \<Rightarrow>
              save_return (ae_SaveOK env) (replace_password env userID u hash sm) ())))"

definition UpdateAdminPassword ::
  "auth_env \<Rightarrow> string \<Rightarrow> string \<Rightarrow> string \<Rightarrow> SessionManager \<Rightarrow> SessionManager \<times> (auth_error + unit)" where
  "UpdateAdminPassword env username oldPassword newPassword sm =
     (case gget (sm_userKeys sm) (NormalizeUsernameKey username) of
        None \<Rightarrow> (sm, Inl ErrUnauthorized)
      | Some userID \<Rightarrow> UpdateUserPassword env userID oldPassword newPassword sm)"

definition ResetUserPassword ::
  "auth_env \<Rightarrow> string \<Rightarrow> string \<Rightarrow> SessionManager \<Rightarrow> SessionManager \<times> (auth_error + unit)" where
  "ResetUserPassword env userID newPassword sm =
     (if length newPassword < 6 then (sm, Inl ErrPasswordTooShort)
      else (case gget (sm_users sm) userID of
        None \<Rightarrow> (sm, Inl ErrUserNotFound)
      | Some u \<Rightarrow>
          (case ae_HashPassword env newPassword of
            None \<Rightarrow> (sm, Inl ErrPasswordHash)
          | Some hash \<Rightarrow>
              save_return (ae_SaveOK env) (replace_password env userID u hash sm) ())))"

definition UpdateUserRole ::
  "auth_env \<Rightarrow> string \<Rightarrow> Role \<Rightarrow> SessionManager \<Rightarrow> SessionManager \<times> (auth_error + unit)" where
  "UpdateUserRole env userID newRole sm =
     (if \<not> IsValidRole newRole then (sm, Inl ErrInvalidRole)
      else (case gget (sm_users sm) userID of
        None \<Rightarrow> (sm, Inl ErrUserNotFound)
      | Some u \<Rightarrow>
          if u_Role u = RoleOwner \<and> newRole \<noteq> RoleOwner \<and> countActiveOwnersLocked sm \<le> 1
          then (sm, Inl ErrLastOwnerRequired)
          else save_return (ae_SaveOK env) (drop_user_sessions userID
            (put_user userID (u\<lparr>u_Role := newRole, u_SessionVersion := u_SessionVersion u + 1,
               u_UpdatedAt := ae_Now env, u_Revision := u_Revision u + 1\<rparr>) sm)) ()))"

definition DisableUser ::
  "auth_env \<Rightarrow> string \<Rightarrow> SessionManager \<Rightarrow> SessionManager \<times> (auth_error + unit)" where
  "DisableUser env userID sm =
     (case gget (sm_users sm) userID of
        None \<Rightarrow> (sm, Inl ErrUserNotFound)
      | Some u \<Rightarrow>
          if u_Status u = UserStatusDisabled then (sm, Inr ())
          else if u_Role u = RoleOwner \<and> countActiveOwnersLocked sm \<le> 1
          then (sm, Inl ErrLastOwnerRequired)
          else save_return (ae_SaveOK env) (drop_user_sessions userID
            (put_user userID (u\<lparr>u_Status := UserStatusDisabled, u_DisabledAt := Some (ae_Now env),
               u_SessionVersion := u_SessionVersion u + 1, u_UpdatedAt := ae_Now env,
               u_Revision := u_Revision u + 1\<rparr>) sm)) ())"

definition EnableUser ::
  "auth_env \<Rightarrow> string \<Rightarrow> SessionManager \<Rightarrow> SessionManager \<times> (auth_error + unit)" where
  "EnableUser env userID sm =
     (case gget (sm_users sm) userID of
        None \<Rightarrow> (sm, Inl ErrUserNotFound)
      | Some u \<Rightarrow>
          if u_Status u = UserStatusActive then (sm, Inr ())
          else save_return (ae_SaveOK env)
            (put_user userID (u\<lparr>u_Status := UserStatusActive, u_DisabledAt := None,
               u_UpdatedAt := ae_Now env, u_Revision := u_Revision u + 1\<rparr>) sm) ())"

definition DeleteUser ::
  "auth_env \<Rightarrow> string \<Rightarrow> SessionManager \<Rightarrow> SessionManager \<times> (auth_error + unit)" where
  "DeleteUser env userID sm =
     (case gget (sm_users sm) userID of
        None \<Rightarrow> (sm, Inl ErrUserNotFound)
      | Some u \<Rightarrow>
          if u_Role u = RoleOwner \<and> u_Status u = UserStatusActive \<and> countActiveOwnersLocked sm \<le> 1
          then (sm, Inl ErrLastOwnerRequired)
          else save_return (ae_SaveOK env) (drop_user_sessions userID
            (sm\<lparr>sm_users := gdel userID (sm_users sm),
                sm_userKeys := gdel (u_UsernameKey u) (sm_userKeys sm)\<rparr>)) ())"

definition GetUser :: "string \<Rightarrow> SessionManager \<Rightarrow> auth_error + User" where
  "GetUser userID sm = (case gget (sm_users sm) userID of
     None \<Rightarrow> Inl ErrUserNotFound | Some u \<Rightarrow> Inr u)"

definition GetUserByUsername :: "string \<Rightarrow> SessionManager \<Rightarrow> auth_error + User" where
  "GetUserByUsername username sm =
     (case gget (sm_userKeys sm) (NormalizeUsernameKey username) of
        None \<Rightarrow> Inl ErrUserNotFound
      | Some userID \<Rightarrow> GetUser userID sm)"

definition user_before :: "User \<Rightarrow> User \<Rightarrow> bool" where
  "user_before a b = (if u_CreatedAt a = u_CreatedAt b then u_ID a > u_ID b
     else u_CreatedAt a > u_CreatedAt b)"

interpretation user_order: weak_order user_before
  by unfold_locales (auto simp: user_before_def split: if_splits)

definition ListUsers :: "SessionManager \<Rightarrow> User list" where
  "ListUsers sm = go_sort user_before (map (\<lambda>u. u\<lparr>u_PasswordHash := []\<rparr>) (gvals (sm_users sm)))"

definition CountActiveOwners :: "SessionManager \<Rightarrow> nat" where
  "CountActiveOwners sm = countActiveOwnersLocked sm"

text \<open>An environment on which the witnesses evaluate the operations.\<close>

definition sample_env :: auth_env where
  "sample_env = \<lparr>ae_Now = hours 1, ae_SaveOK = True, ae_Token = Some ''agt_sess_1'',
     ae_UserID = ''usr_1'', ae_Sha256 = (\<lambda>s. ''h'' @ s), ae_HashPassword = (\<lambda>s. Some (''b'' @ s)),
     ae_CheckPassword = (\<lambda>h s. h = ''b'' @ s)\<rparr>"

end
