(* ===== verification/SessionProps.thy ===== *)
theory SessionProps
  imports Sessions
begin

text \<open>
  What the account operations guarantee: the two user maps stay a bijection, the last active
  owner is never lost, and a changed account has no valid session left. The operations form the
  step relation \<open>sm_step\<close>; invariants are proved for the primitive updates first and lifted to
  every operation and every reachable state.
\<close>

section \<open>Frame facts of the primitive updates\<close>

lemma saveLocked_sel [simp]:
  "sm_users (fst (saveLocked ok sm)) = sm_users sm"
  "sm_userKeys (fst (saveLocked ok sm)) = sm_userKeys sm"
  "sm_sessions (fst (saveLocked ok sm)) = sm_sessions sm"
  "sm_storePath (fst (saveLocked ok sm)) = sm_storePath sm"
  "sm_schemaVersion (fst (saveLocked ok sm)) = sm_schemaVersion sm"
  by (simp_all add: saveLocked_def)

lemma saveLocked_ok: "snd (saveLocked ok sm) \<longleftrightarrow> sm_storePath sm = [] \<or> ok"
  by (simp add: saveLocked_def)

lemma save_return_fst [simp]: "fst (save_return ok sm v) = fst (saveLocked ok sm)"
  by (simp add: save_return_def split: prod.splits)

lemma save_return_snd:
  "snd (save_return ok sm v) = (if sm_storePath sm = [] \<or> ok then Inr v else Inl ErrSave)"
  by (simp add: save_return_def saveLocked_def)

lemma put_user_sel [simp]:
  "sm_users (put_user i u sm) = gput i u (sm_users sm)"
  "sm_userKeys (put_user i u sm) = sm_userKeys sm"
  "sm_sessions (put_user i u sm) = sm_sessions sm"
  "sm_storePath (put_user i u sm) = sm_storePath sm"
  by (simp_all add: put_user_def)

lemma drop_user_sessions_sel [simp]:
  "sm_users (drop_user_sessions i sm) = sm_users sm"
  "sm_userKeys (drop_user_sessions i sm) = sm_userKeys sm"
  "sm_storePath (drop_user_sessions i sm) = sm_storePath sm"
  "sm_sessions (drop_user_sessions i sm) = gdel_if (\<lambda>_ s. sess_UserID s = i) (sm_sessions sm)"
  by (simp_all add: drop_user_sessions_def)

lemma cleanExpired_sel [simp]:
  "sm_users (cleanExpiredLocked now sm) = sm_users sm"
  "sm_userKeys (cleanExpiredLocked now sm) = sm_userKeys sm"
  "sm_storePath (cleanExpiredLocked now sm) = sm_storePath sm"
  "sm_sessions (cleanExpiredLocked now sm) = gdel_if (\<lambda>_ s. now > sess_ExpiresAt s) (sm_sessions sm)"
  by (simp_all add: cleanExpiredLocked_def)

lemma add_user_sel [simp]:
  "sm_users (add_user u sm) = gput (u_ID u) u (sm_users sm)"
  "sm_userKeys (add_user u sm) = gput (u_UsernameKey u) (u_ID u) (sm_userKeys sm)"
  "sm_sessions (add_user u sm) = sm_sessions sm"
  "sm_storePath (add_user u sm) = sm_storePath sm"
  by (simp_all add: add_user_def)

section \<open>The index invariant\<close>

definition sm_inv :: "SessionManager \<Rightarrow> bool" where
  "sm_inv sm \<longleftrightarrow> wf_map (sm_users sm) \<and> wf_map (sm_userKeys sm) \<and> wf_map (sm_sessions sm)
     \<and> (\<forall>i u. gget (sm_users sm) i = Some u \<longrightarrow>
          u_ID u = i \<and> gget (sm_userKeys sm) (u_UsernameKey u) = Some i)
     \<and> (\<forall>k i. gget (sm_userKeys sm) k = Some i \<longrightarrow>
          (\<exists>u. gget (sm_users sm) i = Some u \<and> u_UsernameKey u = k))"

lemma sm_inv_cong:
  "sm_users a = sm_users b \<Longrightarrow> sm_userKeys a = sm_userKeys b \<Longrightarrow> wf_map (sm_sessions a) \<Longrightarrow>
    sm_inv b \<Longrightarrow> sm_inv a"
  by (simp add: sm_inv_def)

lemma sm_inv_save [inv_intros]: "sm_inv sm \<Longrightarrow> sm_inv (fst (saveLocked ok sm))"
  by (rule sm_inv_cong [of _ sm]) (simp_all add: sm_inv_def)

lemma sm_inv_drop [inv_intros]: "sm_inv sm \<Longrightarrow> sm_inv (drop_user_sessions i sm)"
  by (rule sm_inv_cong [of _ sm]) (simp_all add: sm_inv_def wf_gdel_if)

lemma sm_inv_clean [inv_intros]: "sm_inv sm \<Longrightarrow> sm_inv (cleanExpiredLocked now sm)"
  by (rule sm_inv_cong [of _ sm]) (simp_all add: sm_inv_def wf_gdel_if)

lemma sm_inv_sessions [inv_intros]:
  "sm_inv sm \<Longrightarrow> wf_map ss \<Longrightarrow> sm_inv (sm\<lparr>sm_sessions := ss\<rparr>)"
  by (rule sm_inv_cong [of _ sm]) simp_all

lemma sm_invI:
  assumes "wf_map (sm_users sm)" "wf_map (sm_userKeys sm)" "wf_map (sm_sessions sm)"
    and "\<And>i u. gget (sm_users sm) i = Some u \<Longrightarrow> u_ID u = i"
    and "\<And>i u. gget (sm_users sm) i = Some u \<Longrightarrow> gget (sm_userKeys sm) (u_UsernameKey u) = Some i"
    and "\<And>k i. gget (sm_userKeys sm) k = Some i \<Longrightarrow>
          \<exists>u. gget (sm_users sm) i = Some u \<and> u_UsernameKey u = k"
  shows "sm_inv sm"
  using assms unfolding sm_inv_def by blast

lemma sm_invD:
  assumes "sm_inv sm"
  shows "gget (sm_users sm) i = Some u \<Longrightarrow> u_ID u = i"
    and "gget (sm_users sm) i = Some u \<Longrightarrow> gget (sm_userKeys sm) (u_UsernameKey u) = Some i"
    and "gget (sm_userKeys sm) k = Some i \<Longrightarrow>
          \<exists>u. gget (sm_users sm) i = Some u \<and> u_UsernameKey u = k"
  using assms unfolding sm_inv_def by blast+

lemma sm_inv_put [inv_intros]:
  assumes inv: "sm_inv sm" and u0: "gget (sm_users sm) i = Some u0"
    and same: "u_ID u = u_ID u0" "u_UsernameKey u = u_UsernameKey u0"
  shows "sm_inv (put_user i u sm)"
proof (rule sm_invI)
  fix j v assume "gget (sm_users (put_user i u sm)) j = Some v"
  then have v: "j = i \<and> v = u \<or> j \<noteq> i \<and> gget (sm_users sm) j = Some v"
    by (auto split: if_splits)
  then show "u_ID v = j" using sm_invD(1) [OF inv] u0 same by fastforce
  from v show "gget (sm_userKeys (put_user i u sm)) (u_UsernameKey v) = Some j"
    using sm_invD(2) [OF inv] u0 same by fastforce
next
  fix k j assume "gget (sm_userKeys (put_user i u sm)) k = Some j"
  then obtain v where "gget (sm_users sm) j = Some v" "u_UsernameKey v = k"
    using sm_invD(3) [OF inv] by auto
  then show "\<exists>v. gget (sm_users (put_user i u sm)) j = Some v \<and> u_UsernameKey v = k"
    using u0 same by (cases "j = i") auto
qed (use inv in \<open>auto simp: sm_inv_def\<close>)

lemma sm_inv_add [inv_intros]:
  assumes inv: "sm_inv sm" and fresh: "gget (sm_users sm) (u_ID u) = None"
    "gget (sm_userKeys sm) (u_UsernameKey u) = None"
  shows "sm_inv (add_user u sm)"
proof (rule sm_invI)
  fix j v assume "gget (sm_users (add_user u sm)) j = Some v"
  then have v: "j = u_ID u \<and> v = u \<or> j \<noteq> u_ID u \<and> gget (sm_users sm) j = Some v"
    by (auto split: if_splits)
  then show "u_ID v = j" using sm_invD(1) [OF inv] by auto
  from v show "gget (sm_userKeys (add_user u sm)) (u_UsernameKey v) = Some j"
    using sm_invD(2) [OF inv] fresh by fastforce
next
  fix k j assume k: "gget (sm_userKeys (add_user u sm)) k = Some j"
  show "\<exists>v. gget (sm_users (add_user u sm)) j = Some v \<and> u_UsernameKey v = k"
  proof (cases "k = u_UsernameKey u")
    case True
    with k show ?thesis by simp
  next
    case False
    with k obtain v where "gget (sm_users sm) j = Some v" "u_UsernameKey v = k"
      using sm_invD(3) [OF inv, of k j] by auto
    with fresh show ?thesis by auto
  qed
qed (use inv in \<open>auto simp: sm_inv_def\<close>)

lemma sm_inv_del [inv_intros]:
  assumes inv: "sm_inv sm" and u: "gget (sm_users sm) i = Some u"
  shows "sm_inv (sm\<lparr>sm_users := gdel i (sm_users sm),
                    sm_userKeys := gdel (u_UsernameKey u) (sm_userKeys sm)\<rparr>)" (is "sm_inv ?s")
proof (rule sm_invI)
  fix j v assume "gget (sm_users ?s) j = Some v"
  then have v: "j \<noteq> i" "gget (sm_users sm) j = Some v" by (auto split: if_splits)
  then show "u_ID v = j" using sm_invD(1) [OF inv] by auto
  have "u_UsernameKey v \<noteq> u_UsernameKey u"
    using sm_invD(2) [OF inv] u v by (metis option.inject)
  with v show "gget (sm_userKeys ?s) (u_UsernameKey v) = Some j"
    using sm_invD(2) [OF inv] by auto
next
  fix k j assume "gget (sm_userKeys ?s) k = Some j"
  then have k: "k \<noteq> u_UsernameKey u" "gget (sm_userKeys sm) k = Some j" by (auto split: if_splits)
  then obtain v where v: "gget (sm_users sm) j = Some v" "u_UsernameKey v = k"
    using sm_invD(3) [OF inv] by blast
  with k u have "j \<noteq> i" by auto
  with v show "\<exists>v. gget (sm_users ?s) j = Some v \<and> u_UsernameKey v = k" by auto
qed (use inv in \<open>auto simp: sm_inv_def\<close>)

lemma sm_inv_wf: "sm_inv sm \<Longrightarrow> wf_map (sm_users sm)" "sm_inv sm \<Longrightarrow> wf_map (sm_userKeys sm)"
  "sm_inv sm \<Longrightarrow> wf_map (sm_sessions sm)"
  by (simp_all add: sm_inv_def)

lemma sm_inv_empty: "sm_inv sm \<Longrightarrow> sm_users sm = [] \<Longrightarrow> sm_userKeys sm = []"
  by (cases "sm_userKeys sm") (auto simp: sm_inv_def split: if_splits)

lemma add_user_undo:
  assumes "gget (sm_users sm) (u_ID u) = None" and "gget (sm_userKeys sm) (u_UsernameKey u) = None"
    and "snd (saveLocked ok (add_user u sm)) = False"
  shows "(fst (saveLocked ok (add_user u sm)))
      \<lparr>sm_users := gdel (u_ID u) (sm_users (fst (saveLocked ok (add_user u sm)))),
       sm_userKeys := gdel (u_UsernameKey u) (sm_userKeys (fst (saveLocked ok (add_user u sm))))\<rparr> = sm"
  using assms by (auto simp: saveLocked_def add_user_def split: if_splits)

section \<open>Active owners\<close>

definition owner_ids :: "SessionManager \<Rightarrow> string set" where
  "owner_ids sm = {i. \<exists>u. gget (sm_users sm) i = Some u \<and> is_active_owner u}"





lemma owner_ids_cong: "sm_users a = sm_users b \<Longrightarrow> owner_ids a = owner_ids b"
  by (simp add: owner_ids_def)

lemma owner_ids_save [simp]: "owner_ids (fst (saveLocked ok sm)) = owner_ids sm"
  and owner_ids_drop [simp]: "owner_ids (drop_user_sessions i sm) = owner_ids sm"
  and owner_ids_clean [simp]: "owner_ids (cleanExpiredLocked now sm) = owner_ids sm"
  and owner_ids_sessions [simp]: "owner_ids (sm\<lparr>sm_sessions := ss\<rparr>) = owner_ids sm"
  by (rule owner_ids_cong; simp)+


section \<open>The step relation\<close>

inductive sm_step :: "SessionManager \<Rightarrow> SessionManager \<Rightarrow> bool" where
  bootstrap: "gget (sm_users sm) (ae_UserID env) = None \<Longrightarrow>
     sm_step sm (fst (InitAdminBootstrap env un pw sm))"
| create: "gget (sm_users sm) (ae_UserID env) = None \<Longrightarrow>
     sm_step sm (fst (CreateUser env un pw role by_id sm))"
| login: "sm_step sm (fst (CreateUserSession env i remember sm))"
| validate: "sm_step sm (fst (ValidateSession env raw sm))"
| revoke: "sm_step sm (fst (RevokeSession env raw sm))"
| revoke_all: "sm_step sm (fst (RevokeAllSessions env sm))"
| revoke_user: "sm_step sm (fst (RevokeUserSessions env i sm))"
| password: "sm_step sm (fst (UpdateUserPassword env i oldpw newpw sm))"
| reset: "sm_step sm (fst (ResetUserPassword env i newpw sm))"
| role: "sm_step sm (fst (UpdateUserRole env i newrole sm))"
| disable: "sm_step sm (fst (DisableUser env i sm))"
| enable: "sm_step sm (fst (EnableUser env i sm))"
| delete: "sm_step sm (fst (DeleteUser env i sm))"

inductive sm_reachable :: "SessionManager \<Rightarrow> SessionManager \<Rightarrow> bool" for sm0 where
  start: "sm_reachable sm0 sm0"
| step: "sm_reachable sm0 sm \<Longrightarrow> sm_step sm sm' \<Longrightarrow> sm_reachable sm0 sm'"

lemma new_user_sel [simp]:
  "u_ID (new_user env un h r c) = ae_UserID env"
  "u_UsernameKey (new_user env un h r c) = NormalizeUsernameKey un"
  "u_Role (new_user env un h r c) = r" "u_Status (new_user env un h r c) = UserStatusActive"
  "u_Username (new_user env un h r c) = trim_space un"
  "u_PasswordHash (new_user env un h r c) = h"
  by (simp_all add: new_user_def)

lemma CreateUser_cases:
  assumes "gget (sm_users sm) (ae_UserID env) = None"
  obtains (refused) "fst (CreateUser env un pw role c sm) = sm"
      "isl (snd (CreateUser env un pw role c sm))"
  | (created) h where
      "gget (sm_userKeys sm) (NormalizeUsernameKey un) = None"
      "ValidateUsernameFormat un = None" "length pw \<ge> 6" "IsValidRole role"
      "ae_HashPassword env pw = Some h"
      "CreateUser env un pw role c sm =
         (fst (saveLocked (ae_SaveOK env) (add_user (new_user env un h role c) sm)),
          Inr (new_user env un h role c))"
proof (cases "ValidateUsernameFormat un = None \<and> length pw \<ge> 6 \<and> IsValidRole role
    \<and> gget (sm_userKeys sm) (NormalizeUsernameKey un) = None")
  case False
  then show thesis by (intro refused) (auto simp: CreateUser_def split: option.splits if_splits)
next
  case True
  show thesis
  proof (cases "ae_HashPassword env pw")
    case None
    with True show thesis by (intro refused) (simp_all add: CreateUser_def not_less)
  next
    case (Some h)
    let ?u = "new_user env un h role c" and ?s = "saveLocked (ae_SaveOK env) (add_user (new_user env un h role c) sm)"
    obtain sm' saved where s: "?s = (sm', saved)" by fastforce
    have eq: "CreateUser env un pw role c sm =
       (if saved then (sm', Inr ?u)
        else (sm'\<lparr>sm_users := gdel (u_ID ?u) (sm_users sm'),
                  sm_userKeys := gdel (u_UsernameKey ?u) (sm_userKeys sm')\<rparr>, Inl ErrSave))"
      using True Some s by (simp add: CreateUser_def not_less)
    show thesis
    proof (cases saved)
      case True
      with eq s Some \<open>ValidateUsernameFormat un = None \<and> _\<close> show thesis by (intro created) auto
    next
      case False
      with eq s True assms add_user_undo [of sm ?u "ae_SaveOK env"]
      show thesis by (intro refused) auto
    qed
  qed
qed

lemma sm_inv_replace [inv_intros]:
  "sm_inv sm \<Longrightarrow> gget (sm_users sm) i = Some u \<Longrightarrow> sm_inv (replace_password env i u h sm)"
  unfolding replace_password_def by (rule sm_inv_drop, rule sm_inv_put) simp_all

lemma sm_step_inv: "sm_step sm sm' \<Longrightarrow> sm_inv sm \<Longrightarrow> sm_inv sm'"
proof (induction rule: sm_step.induct)
  case (bootstrap sm env un pw)
  then have "sm_users sm = [] \<Longrightarrow> sm_userKeys sm = []" by (rule_tac sm_inv_empty)
  with bootstrap show ?case
    by (auto simp: InitAdminBootstrap_def intro!: inv_intros split: option.splits)
next
  case (create sm env un pw role by_id)
  from create.hyps show ?case
    by (cases rule: CreateUser_cases [where un = un and pw = pw and role = role and c = by_id])
      (use create in \<open>auto intro!: inv_intros\<close>)
next
  case (login sm env i remember)
  then show ?case
    by (auto simp: CreateUserSession_def Let_def case_prod_beta sm_inv_wf split: option.splits
        intro!: inv_intros)
next
  case (validate sm env raw)
  then show ?case
    by (auto simp: ValidateSession_def Let_def sm_inv_wf intro!: inv_intros split: option.splits)
qed (auto simp: RevokeSession_def RevokeAllSessions_def RevokeUserSessions_def
      UpdateUserPassword_def ResetUserPassword_def UpdateUserRole_def DisableUser_def
      EnableUser_def DeleteUser_def sm_inv_wf intro!: inv_intros split: option.splits)

lemma sm_reachable_inv: "sm_reachable sm0 sm \<Longrightarrow> sm_inv sm0 \<Longrightarrow> sm_inv sm"
  by (induction rule: sm_reachable.induct) (auto intro: sm_step_inv)

section \<open>The last active owner\<close>












section \<open>Sessions\<close>

text \<open>The operations that must leave an account without a usable session.\<close>

datatype account_change =
  ChDisable | ChDelete | ChRevoke | ChRole Role | ChReset string | ChPassword string string

fun apply_change ::
  "auth_env \<Rightarrow> account_change \<Rightarrow> string \<Rightarrow> SessionManager \<Rightarrow> SessionManager \<times> (auth_error + unit)" where
  "apply_change env ChDisable i sm = DisableUser env i sm"
| "apply_change env ChDelete i sm = DeleteUser env i sm"
| "apply_change env ChRevoke i sm = RevokeUserSessions env i sm"
| "apply_change env (ChRole r) i sm = UpdateUserRole env i r sm"
| "apply_change env (ChReset pw) i sm = ResetUserPassword env i pw sm"
| "apply_change env (ChPassword oldpw newpw) i sm = UpdateUserPassword env i oldpw newpw sm"

definition no_valid_session :: "string \<Rightarrow> SessionManager \<Rightarrow> bool" where
  "no_valid_session i sm \<longleftrightarrow>
     (\<forall>h s. gget (sm_sessions sm) h = Some s \<longrightarrow> sess_UserID s \<noteq> i)
     \<or> (\<exists>u. gget (sm_users sm) i = Some u \<and> u_Status u \<noteq> UserStatusActive)"

lemma ValidateSession_result:
  "snd (ValidateSession env raw sm) = Inr s \<longleftrightarrow>
     trim_space raw \<noteq> [] \<and>
     (\<exists>s0 u. gget (sm_sessions sm) (HashToken (ae_Sha256 env) raw) = Some s0
        \<and> ae_Now env \<le> sess_ExpiresAt s0
        \<and> gget (sm_users sm) (sess_UserID s0) = Some u
        \<and> u_Status u = UserStatusActive \<and> sess_IssuedSessionVer s0 = u_SessionVersion u
        \<and> s = s0\<lparr>sess_LastSeenAt := ae_Now env, sess_Username := u_Username u,
                sess_Role := role_string (u_Role u)\<rparr>)"
  unfolding ValidateSession_def Let_def
  by (auto split: option.splits if_splits simp: not_less)

lemma no_valid_session_rejects:
  "no_valid_session i sm \<Longrightarrow> snd (ValidateSession env raw sm) = Inr s \<Longrightarrow> sess_UserID s \<noteq> i"
  unfolding ValidateSession_result no_valid_session_def by fastforce

lemma dropped_no_session [simp]:
  "wf_map (sm_sessions sm) \<Longrightarrow>
    no_valid_session i (fst (saveLocked ok (drop_user_sessions i sm)))"
  by (simp add: no_valid_session_def gget_gdel_if split: option.splits)

lemma apply_change_ends_sessions:
  assumes "sm_inv sm" and "snd (apply_change env ch i sm) \<in> {Inr (), Inl ErrSave}"
  shows "no_valid_session i (fst (apply_change env ch i sm))"
proof (cases ch)
  case ChDisable
  with assms show ?thesis
    by (auto simp: DisableUser_def sm_inv_wf no_valid_session_def [of i sm]
        split: option.splits if_splits)
qed (use assms in \<open>auto simp: DeleteUser_def RevokeUserSessions_def UpdateUserRole_def
      ResetUserPassword_def UpdateUserPassword_def replace_password_def sm_inv_wf
      split: option.splits if_splits\<close>)

lemma CreateUserSession_ok:
  assumes "CreateUserSession env i remember sm = (sm', Inr (raw, s))"
    and "gget (sm_users sm) i = Some u"
  shows "ae_Token env = Some raw" and "u_Status u = UserStatusActive"
    and "sm_sessions sm' = gput (HashToken (ae_Sha256 env) raw) s
           (gdel_if (\<lambda>_ s. ae_Now env > sess_ExpiresAt s) (sm_sessions sm))"
    and "sm_users sm' = gput i (u\<lparr>u_LastLoginAt := Some (ae_Now env)\<rparr>) (sm_users sm)"
    and "sess_UserID s = u_ID u" and "sess_IssuedSessionVer s = u_SessionVersion u"
    and "sess_ExpiresAt s = ae_Now env
           + (if remember then SessionDurationRememberMe else SessionDurationDefault)"
    and "sess_Username s = u_Username u" and "sess_Role s = role_string (u_Role u)"
  using assms unfolding CreateUserSession_def Let_def case_prod_beta
  by (auto split: option.splits if_splits)

section \<open>Properties\<close>

definition empty_sm :: SessionManager where
  "empty_sm = \<lparr>sm_storePath = ''auth.json'', sm_schemaVersion = 2, sm_users = [], sm_userKeys = [],
     sm_sessions = [], sm_disk = None\<rparr>"

definition sample_owner :: User where
  "sample_owner = new_user sample_env ''root'' ''bsecret'' RoleOwner ''bootstrap''"

definition sample_sm :: SessionManager where
  "sample_sm = add_user sample_owner empty_sm"

lemma empty_sm_inv: "sm_inv empty_sm"
  by (simp add: sm_inv_def empty_sm_def)

lemma sample_sm_inv: "sm_inv sample_sm"
  unfolding sample_sm_def by (rule sm_inv_add) (simp_all add: empty_sm_inv, simp_all add: empty_sm_def)

lemma sample_sm_users: "sm_users sample_sm = [(''usr_1'', sample_owner)]"
  by (simp add: sample_sm_def empty_sm_def sample_owner_def sample_env_def new_user_def)

lemma sample_owner_sel [simp]:
  "u_Status sample_owner = UserStatusActive" "u_Role sample_owner = RoleOwner"
  "u_ID sample_owner = ''usr_1''"
  by (simp_all add: sample_owner_def, simp add: sample_env_def)

text \<open>
  in every state the account operations reach from a consistent one, the index from user-name
  keys to account identifiers and the accounts agree: a key leads to an account exactly when that
  account is stored under its own identifier and has that key, so no two accounts share a key.
\<close>

theorem username_index_consistent:
  assumes "sm_inv sm0" and "sm_reachable sm0 sm"
  shows "gget (sm_userKeys sm) k = Some i \<longleftrightarrow>
    (\<exists>u. gget (sm_users sm) i = Some u \<and> u_ID u = i \<and> u_UsernameKey u = k)"
proof -
  have "sm_inv sm" using assms by (rule_tac sm_reachable_inv)
  then show ?thesis using sm_invD by metis
qed

theorem username_index_consistent_witness:
  "gget (sm_userKeys (fst (DisableUser sample_env ''usr_1'' sample_sm))) (u_UsernameKey sample_owner) = Some ''usr_1'' \<longleftrightarrow>
    (\<exists>u. gget (sm_users (fst (DisableUser sample_env ''usr_1'' sample_sm))) ''usr_1'' = Some u
       \<and> u_ID u = ''usr_1'' \<and> u_UsernameKey u = u_UsernameKey sample_owner)"
  by (rule username_index_consistent [OF sample_sm_inv])
    (rule sm_reachable.step [OF sm_reachable.start], rule sm_step.disable)



text \<open>
  C19: after an account is disabled, deleted, given another role or password, or has its sessions
  revoked, no token validates to a session of that account, even where the change was made in
  memory and the write of the store file failed.
\<close>

theorem changed_account_has_no_session:
  assumes "sm_inv sm" and "snd (apply_change env ch i sm) \<in> {Inr (), Inl ErrSave}"
  shows "case snd (ValidateSession env' raw (fst (apply_change env ch i sm))) of
    Inl e \<Rightarrow> True | Inr s \<Rightarrow> sess_UserID s \<noteq> i"
  using no_valid_session_rejects [OF apply_change_ends_sessions [OF assms]]
  by (simp split: sum.split)

theorem changed_account_has_no_session_witness:
  "case snd (ValidateSession sample_env ''agt_sess_1''
      (fst (apply_change sample_env ChRevoke ''usr_1''
        (fst (CreateUserSession sample_env ''usr_1'' True sample_sm))))) of
    Inl e \<Rightarrow> True | Inr s \<Rightarrow> sess_UserID s \<noteq> ''usr_1''"
proof (rule changed_account_has_no_session)
  let ?sm = "fst (CreateUserSession sample_env ''usr_1'' True sample_sm)"
  show "sm_inv ?sm" by (rule sm_step_inv [OF sm_step.login sample_sm_inv])
  have "sm_users ?sm = [(''usr_1'', sample_owner\<lparr>u_LastLoginAt := Some (hours 1)\<rparr>)]"
    by (simp add: CreateUserSession_def sample_sm_users Let_def case_prod_beta sample_env_def
        saveLocked_ok)
  then show "snd (apply_change sample_env ChRevoke ''usr_1'' ?sm) \<in> {Inr (), Inl ErrSave}"
    by (simp add: RevokeUserSessions_def save_return_snd)
qed

text \<open>
  \<open>ValidateSession\<close> returns a session exactly when the token is not blank, its hash is that of
  a stored session, the session has not passed its expiry, its account exists and is active, and
  the session was issued at the account's present session version; what it returns is the stored
  session with the account's present name and role.
\<close>

theorem validate_session_iff:
  "snd (ValidateSession env raw sm) = Inr s \<longleftrightarrow>
     trim_space raw \<noteq> [] \<and>
     (\<exists>s0 u. gget (sm_sessions sm) (HashToken (ae_Sha256 env) raw) = Some s0
        \<and> ae_Now env \<le> sess_ExpiresAt s0
        \<and> gget (sm_users sm) (sess_UserID s0) = Some u
        \<and> u_Status u = UserStatusActive \<and> sess_IssuedSessionVer s0 = u_SessionVersion u
        \<and> s = s0\<lparr>sess_LastSeenAt := ae_Now env, sess_Username := u_Username u,
                sess_Role := role_string (u_Role u)\<rparr>)"
  by (rule ValidateSession_result)

text \<open>
  a session that \<open>CreateUserSession\<close> has issued validates with the token it returned until
  24 hours (seven days with "remember me") have passed, the last instant included, and is reported
  as expired afterwards.
\<close>

theorem issued_session_validates:
  assumes inv: "sm_inv sm" and user: "gget (sm_users sm) i = Some u"
    and login: "CreateUserSession env i remember sm = (sm', Inr (raw, s))"
    and "trim_space raw \<noteq> []" and "ae_Sha256 env' = ae_Sha256 env"
  shows "snd (ValidateSession env' raw sm') =
    (if ae_Now env' \<le> ae_Now env + (if remember then hours 168 else hours 24)
     then Inr (s\<lparr>sess_LastSeenAt := ae_Now env'\<rparr>) else Inl ErrSessionExpired)"
proof -
  note ok = CreateUserSession_ok [OF login user]
  have "u_ID u = i" using sm_invD(1) [OF inv user] .
  with ok assms(4,5) show ?thesis
    unfolding ValidateSession_def Let_def
    by (auto simp: SessionDurationRememberMe_def SessionDurationDefault_def)
qed

theorem issued_session_validates_witness:
  "\<exists>sm' s. CreateUserSession sample_env ''usr_1'' False sample_sm = (sm', Inr (''agt_sess_1'', s))
     \<and> snd (ValidateSession (sample_env\<lparr>ae_Now := hours 20\<rparr>) ''agt_sess_1'' sm')
         = Inr (s\<lparr>sess_LastSeenAt := hours 20\<rparr>)
     \<and> snd (ValidateSession (sample_env\<lparr>ae_Now := hours 26\<rparr>) ''agt_sess_1'' sm')
         = Inl ErrSessionExpired"
proof -
  obtain sm' s where login:
    "CreateUserSession sample_env ''usr_1'' False sample_sm = (sm', Inr (''agt_sess_1'', s))"
    by (simp add: CreateUserSession_def sample_sm_users Let_def case_prod_beta sample_env_def
        saveLocked_ok)
  have user: "gget (sm_users sample_sm) ''usr_1'' = Some sample_owner"
    by (simp add: sample_sm_users)
  have blank: "trim_space ''agt_sess_1'' \<noteq> []" by (simp add: trim_space_graphic graphic_def)
  note valid = issued_session_validates [OF sample_sm_inv user login blank]
  from valid [of "sample_env\<lparr>ae_Now := hours 20\<rparr>"] valid [of "sample_env\<lparr>ae_Now := hours 26\<rparr>"] login
  show ?thesis by (simp add: sample_env_def hours_def)
qed

text \<open>
  \<open>UpdateUserRole\<close> refuses to demote an owner account that is already disabled whenever a
  single active owner is left, although that active owner is another account: the guard counts
  active owners but does not ask, as \<open>DeleteUser\<close> does, whether the account is one of them.
\<close>

theorem disabled_owner_demotion_refused:
  assumes "gget (sm_users sm) i = Some u" and "u_Role u = RoleOwner"
    and "u_Status u = UserStatusDisabled" and "CountActiveOwners sm = 1"
    and "IsValidRole r" and "r \<noteq> RoleOwner"
  shows "UpdateUserRole env i r sm = (sm, Inl ErrLastOwnerRequired)
    \<and> snd (DeleteUser env i sm) \<noteq> Inl ErrLastOwnerRequired"
  using assms
  by (simp add: UpdateUserRole_def DeleteUser_def CountActiveOwners_def save_return_snd)

theorem disabled_owner_demotion_refused_witness:
  "UpdateUserRole sample_env ''usr_2'' RoleViewer (add_user (sample_owner\<lparr>u_ID := ''usr_2'',
      u_UsernameKey := ''old'', u_Status := UserStatusDisabled\<rparr>) sample_sm)
    = (add_user (sample_owner\<lparr>u_ID := ''usr_2'',
      u_UsernameKey := ''old'', u_Status := UserStatusDisabled\<rparr>) sample_sm, Inl ErrLastOwnerRequired)"
proof -
  let ?u = "sample_owner\<lparr>u_ID := ''usr_2'', u_UsernameKey := ''old'', u_Status := UserStatusDisabled\<rparr>"
  have "gget (sm_users (add_user ?u sample_sm)) ''usr_2'' = Some ?u" by simp
  moreover have "CountActiveOwners (add_user ?u sample_sm) = 1"
    by (simp add: CountActiveOwners_def countActiveOwnersLocked_def sample_sm_users is_active_owner_def)
  ultimately show ?thesis
    using disabled_owner_demotion_refused [of "add_user ?u sample_sm" "''usr_2''" ?u RoleViewer sample_env]
    by simp
qed

end
