(* ===== verification/Enrollment.thy ===== *)
theory Enrollment
  imports Sessions
begin

text \<open>
  Claim tokens, \<open>internal/auth/enrollment.go\<close>: short-lived credentials an administrator creates
  and a device consumes, keyed by the hash of the token. The environment is that of the sessions.
  A token is returned by \<open>CreateClaimTokenForOwner\<close> as it is stored.
\<close>

record ClaimToken =
  ct_ID :: string
  ct_TokenHash :: string
  ct_CreatedAt :: time
  ct_ExpiresAt :: time
  ct_MaxUses :: int
  ct_RemainingUses :: int
  ct_Description :: string
  ct_CreatedByUserID :: string
  ct_OwnerUserID :: string

record EnrollmentManager =
  em_storePath :: string
  em_tokens :: "(string, ClaimToken) gomap"
  em_disk :: "(string, ClaimToken) gomap option"

definition DefaultClaimTTL :: duration where "DefaultClaimTTL = minutes 15"

section \<open>Operations\<close>

definition em_saveLocked :: "bool \<Rightarrow> EnrollmentManager \<Rightarrow> EnrollmentManager \<times> bool" where
  "em_saveLocked ok em =
     (if em_storePath em = [] then (em, True)
      else if ok then (em\<lparr>em_disk := Some (em_tokens em)\<rparr>, True)
      else (em, False))"

definition token_dead :: "time \<Rightarrow> ClaimToken \<Rightarrow> bool" where
  "token_dead now t \<longleftrightarrow> now > ct_ExpiresAt t \<or> ct_RemainingUses t \<le> 0"

definition em_cleanExpiredLocked :: "time \<Rightarrow> EnrollmentManager \<Rightarrow> EnrollmentManager" where
  "em_cleanExpiredLocked now em = em\<lparr>em_tokens := gdel_if (\<lambda>_ t. token_dead now t) (em_tokens em)\<rparr>"

text \<open>The store file: absent, unreadable or malformed, or a (possibly absent) token map.\<close>

datatype em_file = EmNoFile | EmUnreadable | EmMalformed | EmTokens "(string, ClaimToken) gomap option"

definition NewEnrollmentManager :: "auth_env \<Rightarrow> string \<Rightarrow> em_file \<Rightarrow> EnrollmentManager option" where
  "NewEnrollmentManager env storePath file =
     (let em = \<lparr>em_storePath = storePath, em_tokens = [], em_disk = None\<rparr> in
      if storePath = [] then Some em
      else (case file of
        EmNoFile \<Rightarrow> Some em
      | EmUnreadable \<Rightarrow> None
      | EmMalformed \<Rightarrow> None
      | EmTokens ts \<Rightarrow>
          (let em1 = em\<lparr>em_tokens := (case ts of None \<Rightarrow> [] | Some m \<Rightarrow> m), em_disk := ts\<rparr> in
           Some (fst (em_saveLocked (ae_SaveOK env) (em_cleanExpiredLocked (ae_Now env) em1))))))"

definition CreateClaimTokenForOwner ::
  "auth_env \<Rightarrow> duration \<Rightarrow> int \<Rightarrow> string \<Rightarrow> string \<Rightarrow> string \<Rightarrow> EnrollmentManager
     \<Rightarrow> EnrollmentManager \<times> (auth_error + (string \<times> ClaimToken))" where
  "CreateClaimTokenForOwner env ttl0 maxUses0 description createdByUserID ownerUserID em =
     (let ttl = (if ttl0 \<le> 0 then DefaultClaimTTL else ttl0);
          maxUses = (if maxUses0 \<le> 0 then 1 else maxUses0) in
      (case ae_Token env of
         None \<Rightarrow> (em, Inl ErrRandom)
       | Some rawToken \<Rightarrow>
          (let tokenHash = HashToken (ae_Sha256 env) rawToken;
               i = (if length rawToken > 18 then take 18 rawToken else rawToken);
               now = ae_Now env;
               token = \<lparr>ct_ID = i, ct_TokenHash = tokenHash, ct_CreatedAt = now,
                 ct_ExpiresAt = now + ttl, ct_MaxUses = maxUses, ct_RemainingUses = maxUses,
                 ct_Description = trim_space description,
                 ct_CreatedByUserID = trim_space createdByUserID,
                 ct_OwnerUserID = trim_space ownerUserID\<rparr>;
               em1 = em_cleanExpiredLocked now em;
               (em2, saved) = em_saveLocked (ae_SaveOK env)
                 (em1\<lparr>em_tokens := gput tokenHash token (em_tokens em1)\<rparr>) in
           (em2, if saved then Inr (rawToken, token) else Inl ErrSave))))"

definition CreateClaimToken ::
  "auth_env \<Rightarrow> duration \<Rightarrow> int \<Rightarrow> string \<Rightarrow> EnrollmentManager
     \<Rightarrow> EnrollmentManager \<times> (auth_error + (string \<times> ClaimToken))" where
  "CreateClaimToken env ttl maxUses description em =
     CreateClaimTokenForOwner env ttl maxUses description [] [] em"

definition ConsumeClaimToken ::
  "auth_env \<Rightarrow> string \<Rightarrow> EnrollmentManager \<Rightarrow> EnrollmentManager \<times> (auth_error + ClaimToken)" where
  "ConsumeClaimToken env rawToken em =
     (if trim_space rawToken = [] then (em, Inl ErrClaimTokenNotFound)
      else
        (let tokenHash = HashToken (ae_Sha256 env) rawToken;
             dropped = fst (em_saveLocked (ae_SaveOK env)
               (em\<lparr>em_tokens := gdel tokenHash (em_tokens em)\<rparr>)) in
         (case gget (em_tokens em) tokenHash of
            None \<Rightarrow> (em, Inl ErrClaimTokenNotFound)
          | Some token \<Rightarrow>
              if ae_Now env > ct_ExpiresAt token then (dropped, Inl ErrClaimTokenExpired)
              else if ct_RemainingUses token \<le> 0 then (dropped, Inl ErrClaimTokenExhausted)
              else
                (let token' = token\<lparr>ct_RemainingUses := ct_RemainingUses token - 1\<rparr>;
                     ts = (if ct_RemainingUses token' \<le> 0 then gdel tokenHash (em_tokens em)
                           else gput tokenHash token' (em_tokens em)) in
                 (fst (em_saveLocked (ae_SaveOK env) (em\<lparr>em_tokens := ts\<rparr>)), Inr token')))))"



definition RevokeToken ::
  "auth_env \<Rightarrow> string \<Rightarrow> EnrollmentManager \<Rightarrow> EnrollmentManager \<times> (auth_error + unit)" where
  "RevokeToken env i em =
     (if i = [] then (em, Inr ())
      else (let (em1, saved) = em_saveLocked (ae_SaveOK env)
              (em\<lparr>em_tokens := gdel_if (\<lambda>_ t. ct_ID t = i \<or> has_prefix (ct_ID t) i) (em_tokens em)\<rparr>) in
            (em1, if saved then Inr () else Inl ErrSave)))"

section \<open>Uses left\<close>

lemma em_save_sel [simp]: "em_tokens (fst (em_saveLocked ok em)) = em_tokens em"
  by (simp add: em_saveLocked_def)

definition uses_left :: "EnrollmentManager \<Rightarrow> string \<Rightarrow> nat" where
  "uses_left em h = (case gget (em_tokens em) h of None \<Rightarrow> 0 | Some t \<Rightarrow> nat (ct_RemainingUses t))"

definition em_wf :: "EnrollmentManager \<Rightarrow> bool" where
  "em_wf em \<longleftrightarrow> wf_map (em_tokens em)"










section \<open>Properties\<close>


fun consume_results :: "auth_env list \<Rightarrow> string \<Rightarrow> EnrollmentManager \<Rightarrow> (auth_error + ClaimToken) list" where
  "consume_results [] raw em = []"
| "consume_results (env # envs) raw em =
     (let (em', res) = ConsumeClaimToken env raw em in res # consume_results envs raw em')"

lemma consume_missing:
  assumes "\<forall>env \<in> set envs. ae_Sha256 env = sha" and "gget (em_tokens em) (HashToken sha raw) = None"
  shows "consume_results envs raw em = replicate (length envs) (Inl ErrClaimTokenNotFound)"
  using assms by (induction envs) (auto simp: ConsumeClaimToken_def Let_def)

definition sample_token :: ClaimToken where
  "sample_token = \<lparr>ct_ID = ''claim_1'', ct_TokenHash = ''hclaim_1'', ct_CreatedAt = 0,
     ct_ExpiresAt = hours 2, ct_MaxUses = 2, ct_RemainingUses = 2, ct_Description = [],
     ct_CreatedByUserID = [], ct_OwnerUserID = ''usr_1''\<rparr>"

definition sample_em :: EnrollmentManager where
  "sample_em = \<lparr>em_storePath = [], em_tokens = [(''hclaim_1'', sample_token)], em_disk = None\<rparr>"

lemma sample_em_facts: "em_wf sample_em" "uses_left sample_em ''hclaim_1'' = 2"
  "gget (em_tokens sample_em) ''hclaim_1'' = Some sample_token"
  by (simp_all add: em_wf_def sample_em_def uses_left_def sample_token_def)


text \<open>
  before its expiry a token with \<open>n\<close> uses left is consumed successfully exactly \<open>n\<close> times;
  every attempt after that fails with "not found".
\<close>

theorem claim_token_exact_uses:
  assumes "trim_space raw \<noteq> []"
    and "\<forall>env \<in> set envs. ae_Sha256 env = sha \<and> ae_Now env \<le> ct_ExpiresAt t"
    and "gget (em_tokens em) (HashToken sha raw) = Some t" and "ct_RemainingUses t > 0"
  shows "map isl (consume_results envs raw em)
       = map (\<lambda>k. k \<ge> nat (ct_RemainingUses t)) [0..<length envs]
    \<and> set (drop (nat (ct_RemainingUses t)) (consume_results envs raw em)) \<subseteq> {Inl ErrClaimTokenNotFound}"
  using assms
proof (induction envs arbitrary: em t)
  case Nil
  then show ?case by simp
next
  case (Cons env envs)
  let ?h = "HashToken sha raw" and ?n = "nat (ct_RemainingUses t)"
  define em' where "em' = fst (ConsumeClaimToken env raw em)"
  have res: "\<not> isl (snd (ConsumeClaimToken env raw em))"
    using Cons.prems by (auto simp: ConsumeClaimToken_def Let_def)
  have split: "consume_results (env # envs) raw em
      = snd (ConsumeClaimToken env raw em) # consume_results envs raw em'"
    by (simp add: em'_def case_prod_beta)
  have upt: "[0..<length (env # envs)] = 0 # map Suc [0..<length envs]"
    by (simp add: upt_conv_Cons map_Suc_upt del: upt_Suc)
  show ?case
  proof (cases "ct_RemainingUses t = 1")
    case True
    then have "gget (em_tokens em') ?h = None"
      using Cons.prems by (auto simp: em'_def ConsumeClaimToken_def Let_def)
    with Cons.prems have "consume_results envs raw em' = replicate (length envs) (Inl ErrClaimTokenNotFound)"
      by (intro consume_missing) auto
    with res split True show ?thesis unfolding upt
      by (auto simp: map_replicate_const o_def set_replicate_conv_if)
  next
    case False
    let ?t = "t\<lparr>ct_RemainingUses := ct_RemainingUses t - 1\<rparr>"
    have "gget (em_tokens em') ?h = Some ?t"
      using Cons.prems False by (auto simp: em'_def ConsumeClaimToken_def Let_def)
    moreover have "?n = Suc (nat (ct_RemainingUses ?t))" using Cons.prems False by simp
    ultimately show ?thesis
      using Cons.IH [of ?t em'] Cons.prems res False unfolding split upt by (simp add: o_def)
  qed
qed

theorem claim_token_exact_uses_witness:
  "map isl (consume_results [sample_env, sample_env, sample_env] ''claim_1'' sample_em)
     = [False, False, True]"
proof -
  have "trim_space ''claim_1'' \<noteq> []" by (simp add: trim_space_graphic graphic_def)
  then show ?thesis
    using claim_token_exact_uses [of "''claim_1''" "[sample_env, sample_env, sample_env]"
        "ae_Sha256 sample_env" sample_token sample_em]
    by (simp add: sample_em_facts(3) HashToken_def upt_rec del: consume_results.simps)
      (simp add: sample_token_def sample_env_def hours_def upt_rec sample_em_facts(3) [unfolded sample_token_def hours_def] del: consume_results.simps)
qed

text \<open>
  \<open>RevokeToken\<close> removes exactly the tokens whose identifier starts with its argument, not only
  the token that has it as its identifier; an argument that is a shorter prefix, such as the
  prefix every claim token has, removes all of them.
\<close>

theorem revoke_token_by_prefix:
  assumes "em_wf em" and "i \<noteq> []"
  shows "gget (em_tokens (fst (RevokeToken env i em))) h =
    (case gget (em_tokens em) h of None \<Rightarrow> None
     | Some t \<Rightarrow> if has_prefix (ct_ID t) i then None else Some t)"
proof -
  have "has_prefix i i" by (simp add: has_prefix_iff)
  with assms show ?thesis
    by (auto simp: RevokeToken_def em_wf_def case_prod_beta gget_gdel_if split: option.splits)
qed

theorem revoke_token_by_prefix_witness:
  "gget (em_tokens (fst (RevokeToken sample_env ''claim_'' sample_em))) ''hclaim_1'' = None"
  using revoke_token_by_prefix [OF sample_em_facts(1), of "''claim_''" sample_env "''hclaim_1''"]
  by (simp add: sample_em_facts(3)) (simp add: sample_token_def)

end
