(* ===== verification/RateLimit.thy ===== *)
theory RateLimit
  imports Prelude
begin

text \<open>
  The login rate limiter, \<open>internal/auth/ratelimit.go\<close>, and the in-memory audit log,
  \<open>internal/auth/audit.go\<close>. The clock reading of an operation is its argument.
\<close>

section \<open>The rate limiter\<close>

record ipRecord =
  ip_failedAttempts :: int
  ip_lockedUntil :: time
  ip_lastAttempt :: time

record RateLimiter =
  rl_maxFailures :: int
  rl_lockDuration :: duration
  rl_records :: "(string, ipRecord) gomap"
  rl_cleanupInterval :: duration
  rl_lastCleanup :: time

definition DefaultMaxFailedAttempts :: int where "DefaultMaxFailedAttempts = 5"
definition DefaultLockoutDuration :: duration where "DefaultLockoutDuration = minutes 15"

definition NewRateLimiter :: "time \<Rightarrow> int \<Rightarrow> duration \<Rightarrow> RateLimiter" where
  "NewRateLimiter now maxFailures lockDuration =
     \<lparr>rl_maxFailures = (if maxFailures \<le> 0 then DefaultMaxFailedAttempts else maxFailures),
      rl_lockDuration = (if lockDuration \<le> 0 then DefaultLockoutDuration else lockDuration),
      rl_records = [], rl_cleanupInterval = minutes 5, rl_lastCleanup = now\<rparr>"

definition stale_record :: "RateLimiter \<Rightarrow> time \<Rightarrow> ipRecord \<Rightarrow> bool" where
  "stale_record rl now r \<longleftrightarrow>
     now > ip_lockedUntil r \<and> time_sub now (ip_lastAttempt r) > rl_lockDuration rl"

definition maybeCleanupLocked :: "time \<Rightarrow> RateLimiter \<Rightarrow> RateLimiter" where
  "maybeCleanupLocked now rl =
     (if time_sub now (rl_lastCleanup rl) < rl_cleanupInterval rl then rl
      else rl\<lparr>rl_lastCleanup := now,
              rl_records := gdel_if (\<lambda>_ r. stale_record rl now r) (rl_records rl)\<rparr>)"

definition RecordFailure :: "time \<Rightarrow> string \<Rightarrow> RateLimiter \<Rightarrow> RateLimiter \<times> (bool \<times> duration)" where
  "RecordFailure now ip rl =
     (if ip = [] then (rl, (False, 0))
      else
        (let rl1 = maybeCleanupLocked now rl;
             r0 = (case gget (rl_records rl1) ip of
                     None \<Rightarrow> \<lparr>ip_failedAttempts = 0, ip_lockedUntil = 0, ip_lastAttempt = 0\<rparr>
                   | Some r \<Rightarrow> r);
             r1 = r0\<lparr>ip_lastAttempt := now, ip_failedAttempts := ip_failedAttempts r0 + 1\<rparr> in
         if ip_failedAttempts r1 \<ge> rl_maxFailures rl then
           (rl1\<lparr>rl_records := gput ip (r1\<lparr>ip_lockedUntil := now + rl_lockDuration rl\<rparr>)
                  (rl_records rl1)\<rparr>, (True, rl_lockDuration rl))
         else (rl1\<lparr>rl_records := gput ip r1 (rl_records rl1)\<rparr>, (False, 0))))"

definition RecordSuccess :: "string \<Rightarrow> RateLimiter \<Rightarrow> RateLimiter" where
  "RecordSuccess ip rl = (if ip = [] then rl else rl\<lparr>rl_records := gdel ip (rl_records rl)\<rparr>)"

definition IsLocked :: "time \<Rightarrow> string \<Rightarrow> RateLimiter \<Rightarrow> RateLimiter \<times> (bool \<times> duration)" where
  "IsLocked now ip rl =
     (if ip = [] then (rl, (False, 0))
      else (case gget (rl_records rl) ip of
        None \<Rightarrow> (rl, (False, 0))
      | Some r \<Rightarrow>
          if now < ip_lockedUntil r then (rl, (True, time_sub (ip_lockedUntil r) now))
          else if \<not> is_zero_time (ip_lockedUntil r)
            then (rl\<lparr>rl_records := gdel ip (rl_records rl)\<rparr>, (False, 0))
          else (rl, (False, 0))))"

subsection \<open>What a run of events leaves\<close>

datatype rl_event = Fail time string | Succeed string | Query time string

fun rl_apply :: "rl_event \<Rightarrow> RateLimiter \<Rightarrow> RateLimiter" where
  "rl_apply (Fail t ip) rl = fst (RecordFailure t ip rl)"
| "rl_apply (Succeed ip) rl = RecordSuccess ip rl"
| "rl_apply (Query t ip) rl = fst (IsLocked t ip rl)"

fun event_time :: "rl_event \<Rightarrow> time option" where
  "event_time (Fail t ip) = Some t"
| "event_time (Succeed ip) = None"
| "event_time (Query t ip) = Some t"

definition rl_wf :: "RateLimiter \<Rightarrow> bool" where
  "rl_wf rl \<longleftrightarrow> wf_map (rl_records rl) \<and> 0 < rl_lockDuration rl \<and> rl_lockDuration rl < max_duration
     \<and> (\<forall>ip r. gget (rl_records rl) ip = Some r \<longrightarrow> 0 \<le> ip_failedAttempts r)"

lemma rl_params [simp]:
  "rl_maxFailures (rl_apply e rl) = rl_maxFailures rl"
  "rl_lockDuration (rl_apply e rl) = rl_lockDuration rl"
  by (cases e; simp add: RecordFailure_def RecordSuccess_def IsLocked_def maybeCleanupLocked_def
      Let_def split: option.split)+

lemma cleanup_wf: "wf_map (rl_records rl) \<Longrightarrow> wf_map (rl_records (maybeCleanupLocked now rl))"
  by (simp add: maybeCleanupLocked_def wf_gdel_if)

lemma cleanup_sub:
  "wf_map (rl_records rl) \<Longrightarrow> gget (rl_records (maybeCleanupLocked now rl)) ip = Some r \<Longrightarrow>
    gget (rl_records rl) ip = Some r"
  by (auto simp: maybeCleanupLocked_def gget_gdel_if split: option.splits if_splits)

lemma RecordFailure_attempts:
  assumes wf: "rl_wf rl" and r: "gget (rl_records (fst (RecordFailure t ip rl))) k = Some r"
  shows "0 \<le> ip_failedAttempts r"
proof -
  have old: "0 \<le> ip_failedAttempts r'" if "gget (rl_records (maybeCleanupLocked t rl)) j = Some r'" for j r'
    using wf that cleanup_sub [of rl t j r'] by (auto simp: rl_wf_def)
  show ?thesis
  proof (cases "gget (rl_records (maybeCleanupLocked t rl)) ip")
    case None
    with r wf old show ?thesis
      by (auto simp: RecordFailure_def Let_def rl_wf_def split: if_splits)
  next
    case (Some r0)
    with r wf old old [OF Some] show ?thesis
      by (auto simp: RecordFailure_def Let_def rl_wf_def split: if_splits)
  qed
qed

lemma rl_wf_apply [inv_intros]:
  assumes "rl_wf rl"
  shows "rl_wf (rl_apply e rl)"
proof -
  have "wf_map (rl_records rl)" using assms by (simp add: rl_wf_def)
  then have "wf_map (rl_records (rl_apply e rl))"
    by (cases e) (auto simp: RecordFailure_def RecordSuccess_def IsLocked_def Let_def cleanup_wf
        split: option.splits)
  moreover have "0 \<le> ip_failedAttempts r" if "gget (rl_records (rl_apply e rl)) k = Some r" for k r
    using that assms RecordFailure_attempts [OF assms]
    by (cases e) (auto simp: RecordSuccess_def IsLocked_def rl_wf_def split: option.splits if_splits)
  ultimately show ?thesis using assms by (simp add: rl_wf_def)
qed

lemma cleanup_keeps:
  assumes "rl_wf rl" and "gget (rl_records rl) ip = Some r"
    and "now \<le> ip_lockedUntil r \<or> now - ip_lastAttempt r \<le> rl_lockDuration rl"
  shows "gget (rl_records (maybeCleanupLocked now rl)) ip = Some r"
proof -
  have "min_duration \<le> rl_lockDuration rl" "rl_lockDuration rl < max_duration"
    using assms(1) duration_bounds(1) by (auto simp: rl_wf_def simp del: duration_bounds)
  with assms(3) have "\<not> stale_record rl now r"
    by (auto simp: stale_record_def time_sub_greater_iff)
  with assms(1,2) show ?thesis by (simp add: maybeCleanupLocked_def gget_gdel_if rl_wf_def)
qed

text \<open>The failure counter and the lock of one address, as an invariant of a run.\<close>

definition locked_at :: "string \<Rightarrow> time \<Rightarrow> RateLimiter \<Rightarrow> bool" where
  "locked_at ip until rl \<longleftrightarrow>
     (\<exists>r. gget (rl_records rl) ip = Some r \<and> until \<le> ip_lockedUntil r
        \<and> ip_failedAttempts r \<ge> rl_maxFailures rl)"

lemma locked_at_query: "ip \<noteq> [] \<Longrightarrow> locked_at ip until rl \<Longrightarrow> t < until \<Longrightarrow> fst (snd (IsLocked t ip rl))"
  by (auto simp: locked_at_def IsLocked_def)

lemma locked_at_keep:
  assumes "rl_wf rl" and "locked_at ip until rl" and "e \<noteq> Succeed ip"
    and "\<forall>t. event_time e = Some t \<longrightarrow> until - rl_lockDuration rl \<le> t \<and> t < until"
  shows "locked_at ip until (rl_apply e rl)"
proof -
  obtain r where r: "gget (rl_records rl) ip = Some r" "until \<le> ip_lockedUntil r"
      "ip_failedAttempts r \<ge> rl_maxFailures rl"
    using assms(2) by (auto simp: locked_at_def)
  show ?thesis
  proof (cases e)
    case (Fail t ip')
    with assms(4) have t: "until - rl_lockDuration rl \<le> t" "t < until" by auto
    with r have "gget (rl_records (maybeCleanupLocked t rl)) ip = Some r"
      by (intro cleanup_keeps [OF assms(1)]) auto
    moreover have "rl_maxFailures (maybeCleanupLocked t rl) = rl_maxFailures rl"
      by (simp add: maybeCleanupLocked_def)
    ultimately show ?thesis using Fail r t
      by (auto simp: RecordFailure_def Let_def locked_at_def split: option.splits)
  next
    case (Succeed ip')
    with assms(3) r show ?thesis by (auto simp: RecordSuccess_def locked_at_def)
  next
    case (Query t ip')
    with assms(4) r show ?thesis by (auto simp: IsLocked_def locked_at_def split: option.splits)
  qed
qed

lemma locked_at_run:
  assumes "rl_wf rl" and "locked_at ip until rl"
    and "\<forall>e \<in> set es. e \<noteq> Succeed ip"
    and "\<forall>e \<in> set es. \<forall>t. event_time e = Some t \<longrightarrow> until - rl_lockDuration rl \<le> t \<and> t < until"
  shows "locked_at ip until (fold rl_apply es rl)"
  using assms
proof (induction es arbitrary: rl)
  case Nil
  then show ?case by simp
next
  case (Cons e es)
  then have "locked_at ip until (rl_apply e rl)" by (intro locked_at_keep) auto
  with Cons show ?case by (simp add: rl_wf_apply)
qed

lemma RecordFailure_locks:
  assumes "rl_wf rl" and "ip \<noteq> []" and "fst (snd (RecordFailure t ip rl))"
  shows "locked_at ip (t + rl_lockDuration rl) (fst (RecordFailure t ip rl))"
  using assms
  by (auto simp: RecordFailure_def Let_def locked_at_def maybeCleanupLocked_def split: if_splits)

text \<open>Consecutive failures are counted as long as no two are further apart than the lock time.\<close>

fun close_times :: "duration \<Rightarrow> time list \<Rightarrow> bool" where
  "close_times d (t # t' # ts) \<longleftrightarrow> t' - t \<le> d \<and> close_times d (t' # ts)"
| "close_times d _ \<longleftrightarrow> True"

definition counted :: "string \<Rightarrow> time \<Rightarrow> int \<Rightarrow> RateLimiter \<Rightarrow> bool" where
  "counted ip t n rl \<longleftrightarrow>
     (\<exists>r. gget (rl_records rl) ip = Some r \<and> ip_lastAttempt r = t \<and> n \<le> ip_failedAttempts r)"

lemma RecordFailure_counts:
  assumes "rl_wf rl" and "ip \<noteq> []" and "counted ip t n rl" and "t' - t \<le> rl_lockDuration rl"
  shows "counted ip t' (n + 1) (fst (RecordFailure t' ip rl))
    \<and> (n + 1 \<ge> rl_maxFailures rl \<longrightarrow> fst (snd (RecordFailure t' ip rl)))"
proof -
  obtain r where r: "gget (rl_records rl) ip = Some r" "ip_lastAttempt r = t" "n \<le> ip_failedAttempts r"
    using assms(3) by (auto simp: counted_def)
  with assms have "gget (rl_records (maybeCleanupLocked t' rl)) ip = Some r"
    by (intro cleanup_keeps) auto
  with r assms(2) show ?thesis by (auto simp: RecordFailure_def Let_def counted_def)
qed

lemma failures_lock:
  assumes "rl_wf rl" and "ip \<noteq> []" and "counted ip t n rl"
    and "close_times (rl_lockDuration rl) (t # ts)" and "ts \<noteq> []"
    and "rl_maxFailures rl \<le> n + int (length ts)"
  shows "fst (snd (RecordFailure (last ts) ip (fold (\<lambda>t. rl_apply (Fail t ip)) (butlast ts) rl)))"
  using assms
proof (induction ts arbitrary: rl t n)
  case Nil
  then show ?case by simp
next
  case (Cons t' ts)
  from Cons.prems have step: "counted ip t' (n + 1) (rl_apply (Fail t' ip) rl)"
      "n + 1 \<ge> rl_maxFailures rl \<Longrightarrow> fst (snd (RecordFailure t' ip rl))"
    using RecordFailure_counts [of rl ip t n t'] by auto
  show ?case
  proof (cases "ts = []")
    case True
    with Cons.prems step show ?thesis by simp
  next
    case False
    with Cons.prems step show ?thesis
      using Cons.IH [of "rl_apply (Fail t' ip) rl" t' "n + 1"] by (simp add: rl_wf_apply del: rl_apply.simps)
  qed
qed

lemma first_counted:
  assumes "rl_wf rl" and "ip \<noteq> []"
  shows "counted ip t 1 (fst (RecordFailure t ip rl))"
proof (cases "gget (rl_records (maybeCleanupLocked t rl)) ip")
  case None
  with assms show ?thesis by (simp add: RecordFailure_def Let_def counted_def)
next
  case (Some r)
  with assms have "0 \<le> ip_failedAttempts r"
    using cleanup_sub [of rl t ip r] by (auto simp: rl_wf_def)
  with Some assms show ?thesis by (simp add: RecordFailure_def Let_def counted_def)
qed

lemma fold_Fail_params:
  "rl_wf rl \<Longrightarrow> rl_wf (fold (\<lambda>t. rl_apply (Fail t ip)) ts rl)"
  "rl_lockDuration (fold (\<lambda>t. rl_apply (Fail t ip)) ts rl) = rl_lockDuration rl"
  by (induction ts arbitrary: rl) (simp_all add: rl_wf_apply del: rl_apply.simps)

subsection \<open>Properties\<close>

text \<open>
  C13: \<open>maxFailures\<close> failures of one address in a row, each no more than the lock time after the
  one before, lock it, and from then until the lock time has passed every query answers that it is
  locked, whatever failures and queries of this and other addresses, and successes of others, come
  in between: neither the periodic clean-up nor a query lifts a lock that has not run out.
\<close>

theorem repeated_failures_lock:
  assumes "rl_wf rl" and "ip \<noteq> []" and "rl_maxFailures rl = int (length ts)" and "length ts \<ge> 2"
    and "close_times (rl_lockDuration rl) ts"
    and rl': "rl' = fold (\<lambda>t. rl_apply (Fail t ip)) ts rl"
    and "\<forall>e \<in> set es. e \<noteq> Succeed ip"
    and "\<forall>e \<in> set es. \<forall>t. event_time e = Some t \<longrightarrow> last ts \<le> t \<and> t < last ts + rl_lockDuration rl"
    and "t < last ts + rl_lockDuration rl"
  shows "fst (snd (IsLocked t ip (fold rl_apply es rl')))"
proof -
  obtain t0 us where ts: "ts = t0 # us" "us \<noteq> []" using assms(4) by (cases ts) (auto simp: Suc_le_eq)
  define rl0 where "rl0 = rl_apply (Fail t0 ip) rl"
  define rl1 where "rl1 = fold (\<lambda>t. rl_apply (Fail t ip)) (butlast us) rl0"
  have wf0: "rl_wf rl0" using assms(1) by (simp add: rl0_def rl_wf_apply del: rl_apply.simps)
  have wf1: "rl_wf rl1" "rl_lockDuration rl1 = rl_lockDuration rl"
    unfolding rl1_def using fold_Fail_params(1) [OF wf0]
    by (simp_all add: fold_Fail_params(2) rl0_def del: rl_apply.simps)
  have "counted ip t0 1 rl0"
    using first_counted [OF assms(1,2)] by (simp add: rl0_def)
  then have "fst (snd (RecordFailure (last us) ip rl1))"
    unfolding rl1_def using failures_lock [OF wf0 assms(2)] assms(3,5) ts
    by (simp add: rl0_def del: rl_apply.simps)
  then have "locked_at ip (last ts + rl_lockDuration rl) (rl_apply (Fail (last us) ip) rl1)"
    using RecordFailure_locks [OF wf1(1) assms(2)] wf1(2) ts by simp
  moreover have "rl' = rl_apply (Fail (last us) ip) rl1"
  proof -
    have "fold (\<lambda>t. rl_apply (Fail t ip)) (butlast us @ [last us]) rl0 = rl_apply (Fail (last us) ip) rl1"
      by (simp add: rl1_def)
    with ts rl' show ?thesis by (simp add: rl0_def)
  qed
  ultimately have "locked_at ip (last ts + rl_lockDuration rl) rl'" and "rl_wf rl'"
    and "rl_lockDuration rl' = rl_lockDuration rl"
    using wf1 by (simp_all add: rl_wf_apply del: rl_apply.simps)
  then have "locked_at ip (last ts + rl_lockDuration rl) (fold rl_apply es rl')"
    using assms(7,8) by (intro locked_at_run) auto
  then show ?thesis using assms(2,9) by (intro locked_at_query)
qed

theorem repeated_failures_lock_witness:
  "fst (snd (IsLocked 15 ''10.0.0.1''
     (fold rl_apply [Fail 12 ''10.0.0.2'', Query 13 ''10.0.0.1'']
       (fold (\<lambda>t. rl_apply (Fail t ''10.0.0.1'')) [0, 5, 10] (NewRateLimiter 0 3 60)))))"
proof (rule repeated_failures_lock [OF _ _ _ _ _ refl])
  show "rl_wf (NewRateLimiter 0 3 60)" by (simp add: rl_wf_def NewRateLimiter_def max_duration_def)
qed (simp_all add: NewRateLimiter_def)

text \<open>
  once the lock time has passed, the next query answers that the address is not locked and
  forgets its failures, so that counting starts again; a successful login does the same at once.
\<close>

theorem lock_expires:
  assumes "gget (rl_records rl) ip = Some r" and "ip \<noteq> []" and "ip_lockedUntil r \<noteq> 0"
    and "ip_lockedUntil r \<le> t"
  shows "snd (IsLocked t ip rl) = (False, 0)
    \<and> gget (rl_records (fst (IsLocked t ip rl))) ip = None
    \<and> gget (rl_records (RecordSuccess ip rl)) ip = None"
  using assms by (simp add: IsLocked_def RecordSuccess_def is_zero_time_def)

theorem lock_expires_witness:
  "snd (IsLocked 70 ''10.0.0.1'' (fold (\<lambda>t. rl_apply (Fail t ''10.0.0.1'')) [0, 5, 10]
     (NewRateLimiter 0 3 60))) = (False, 0)"
proof -
  let ?rl = "fold (\<lambda>t. rl_apply (Fail t ''10.0.0.1'')) [0, 5, 10] (NewRateLimiter 0 3 60)"
  have "gget (rl_records ?rl) ''10.0.0.1''
      = Some \<lparr>ip_failedAttempts = 3, ip_lockedUntil = 70, ip_lastAttempt = 10\<rparr>"
    by (simp add: NewRateLimiter_def RecordFailure_def maybeCleanupLocked_def time_sub_def
        minutes_def Let_def min_duration_def max_duration_def)
  then show ?thesis using lock_expires [of ?rl "''10.0.0.1''" _ 70] by simp
qed

section \<open>The audit log\<close>

record AuditEvent =
  ae_Timestamp :: time
  ae_ActorUserID :: string
  ae_ActorRole :: string
  ae_Action :: string
  ae_ResourceType :: string
  ae_ResourceID :: string
  ae_ClientIP :: string
  ae_Status :: string
  ae_Detail :: string

record MemoryAuditLogger =
  al_capacity :: nat
  al_events :: "AuditEvent list"

definition NewMemoryAuditLogger :: "int \<Rightarrow> MemoryAuditLogger" where
  "NewMemoryAuditLogger capacity =
     \<lparr>al_capacity = (if capacity \<le> 0 then 500 else nat capacity), al_events = []\<rparr>"

definition Record :: "time \<Rightarrow> AuditEvent \<Rightarrow> MemoryAuditLogger \<Rightarrow> MemoryAuditLogger" where
  "Record now event l =
     (let event1 = (if is_zero_time (ae_Timestamp event) then event\<lparr>ae_Timestamp := now\<rparr> else event);
          kept = (if length (al_events l) \<ge> al_capacity l then tl (al_events l) else al_events l) in
      l\<lparr>al_events := kept @ [event1]\<rparr>)"

definition Recent :: "int \<Rightarrow> MemoryAuditLogger \<Rightarrow> AuditEvent list" where
  "Recent limit l =
     (let total = length (al_events l);
          n = (if limit \<le> 0 \<or> limit > int total then total else nat limit) in
      map (\<lambda>i. al_events l ! (total - 1 - i)) [0..<n])"

text \<open>The abstract log: everything recorded, oldest first.\<close>

definition audit_stamped :: "time \<times> AuditEvent \<Rightarrow> AuditEvent" where
  "audit_stamped x = (if is_zero_time (ae_Timestamp (snd x)) then (snd x)\<lparr>ae_Timestamp := fst x\<rparr> else snd x)"

lemma Recent_rev: "Recent limit l = take (if limit \<le> 0 then length (al_events l) else nat limit) (rev (al_events l))"
proof (rule nth_equalityI)
  show "length (Recent limit l)
      = length (take (if limit \<le> 0 then length (al_events l) else nat limit) (rev (al_events l)))"
    by (auto simp: Recent_def Let_def)
  fix i assume "i < length (Recent limit l)"
  then show "Recent limit l ! i
      = take (if limit \<le> 0 then length (al_events l) else nat limit) (rev (al_events l)) ! i"
    by (auto simp: Recent_def Let_def rev_nth split: if_splits)
qed

lemma Recent_by_rev:
  "Recent limit l = (let r = rev (al_events l) in if limit \<le> 0 then r else take (nat limit) r)"
  by (simp add: Recent_rev Let_def)

lemma audit_run:
  assumes "0 < al_capacity l" and "al_events l = last_n (al_capacity l) old"
  shows "al_events (fold (\<lambda>(t, e). Record t e) xs l) = last_n (al_capacity l) (old @ map audit_stamped xs)
    \<and> al_capacity (fold (\<lambda>(t, e). Record t e) xs l) = al_capacity l"
  using assms
proof (induction xs arbitrary: l old)
  case Nil
  then show ?case by simp
next
  case (Cons x xs)
  obtain t e where x: "x = (t, e)" by fastforce
  have "al_events (Record t e l) = last_n (al_capacity l) (old @ [audit_stamped x])"
    using Cons.prems by (simp add: last_n_snoc) (simp add: Record_def Let_def audit_stamped_def x)
  moreover have "al_capacity (Record t e l) = al_capacity l" by (simp add: Record_def Let_def)
  ultimately show ?case using Cons.IH [of "Record t e l" "old @ [audit_stamped x]"] Cons.prems x by simp
qed

text \<open>
  the audit log is the bounded view of an unbounded one: after any events are recorded in a
  new log, \<open>Recent\<close> returns the latest of them, newest first, each stamped with the time of its
  recording where it had none, cut to the capacity and to the limit asked for.
\<close>

theorem audit_log_refines:
  "Recent limit (fold (\<lambda>(t, e). Record t e) xs (NewMemoryAuditLogger capacity)) =
    (let newest = take (if capacity \<le> 0 then 500 else nat capacity) (rev (map audit_stamped xs)) in
     if limit \<le> 0 then newest else take (nat limit) newest)"
proof -
  let ?l = "NewMemoryAuditLogger capacity"
  have "0 < al_capacity ?l" "al_events ?l = last_n (al_capacity ?l) []"
    by (simp_all add: NewMemoryAuditLogger_def last_n_def)
  from audit_run [OF this, of xs]
  have "al_events (fold (\<lambda>(t, e). Record t e) xs ?l) = last_n (al_capacity ?l) (map audit_stamped xs)"
    by simp
  moreover have "rev (last_n n ys) = take n (rev ys)" for n and ys :: "AuditEvent list"
    by (cases "n \<le> length ys") (simp_all add: last_n_def rev_drop)
  ultimately have "rev (al_events (fold (\<lambda>(t, e). Record t e) xs ?l))
      = take (al_capacity ?l) (rev (map audit_stamped xs))"
    by simp
  moreover have "al_capacity ?l = (if capacity \<le> 0 then 500 else nat capacity)"
    by (simp add: NewMemoryAuditLogger_def)
  ultimately show ?thesis by (simp add: Recent_by_rev Let_def)
qed

end
