(* ===== verification/Wol.thy ===== *)
theory Wol
  imports Prelude
begin

text \<open>
  Wake-on-LAN, \<open>internal/wol/wol.go\<close>: the validation of hardware addresses, with the parser
  \<open>net.ParseMAC\<close> it rests on, and the magic packet. A byte is an \<open>8 word\<close>. The discovery of
  broadcast addresses and the sending of the packet are network input and output.
\<close>

type_synonym byte = "8 word"

section \<open>Hexadecimal digits\<close>

definition hex_val :: "char \<Rightarrow> byte option" where
  "hex_val c = (let n = (of_char c :: nat) in
     if 48 \<le> n \<and> n \<le> 57 then Some (of_nat (n - 48))
     else if 97 \<le> n \<and> n \<le> 102 then Some (of_nat (n - 87))
     else if 65 \<le> n \<and> n \<le> 70 then Some (of_nat (n - 55))
     else None)"

definition hex_digit :: "nat \<Rightarrow> char" where
  "hex_digit n = ''0123456789abcdef'' ! n"

definition hex_byte :: "byte \<Rightarrow> string" where
  "hex_byte b = [hex_digit (unat b div 16), hex_digit (unat b mod 16)]"

section \<open>\<open>net.ParseMAC\<close> and \<open>HardwareAddr.String\<close>\<close>

text \<open>\<open>xtoi2\<close> reads two digits, then the separator where more text follows.\<close>

fun groups2 :: "char \<Rightarrow> string \<Rightarrow> byte list option" where
  "groups2 sep (h # l # []) =
     (case (hex_val h, hex_val l) of (Some a, Some b) \<Rightarrow> Some [16 * a + b] | _ \<Rightarrow> None)"
| "groups2 sep (h # l # c # rest) =
     (case (hex_val h, hex_val l) of
        (Some a, Some b) \<Rightarrow>
          (if c \<noteq> sep then None
           else (case groups2 sep rest of None \<Rightarrow> None | Some bs \<Rightarrow> Some ((16 * a + b) # bs)))
      | _ \<Rightarrow> None)"
| "groups2 sep _ = None"

fun groups4 :: "string \<Rightarrow> byte list option" where
  "groups4 (h # l # h' # l' # []) =
     (case (hex_val h, hex_val l, hex_val h', hex_val l') of
        (Some a, Some b, Some a', Some b') \<Rightarrow> Some [16 * a + b, 16 * a' + b'] | _ \<Rightarrow> None)"
| "groups4 (h # l # h' # l' # c # rest) =
     (case (hex_val h, hex_val l, hex_val h', hex_val l') of
        (Some a, Some b, Some a', Some b') \<Rightarrow>
          (if c \<noteq> CHR ''.'' then None
           else (case groups4 rest of None \<Rightarrow> None
                 | Some bs \<Rightarrow> Some ((16 * a + b) # (16 * a' + b') # bs)))
      | _ \<Rightarrow> None)"
| "groups4 _ = None"

definition ParseMAC :: "string \<Rightarrow> byte list option" where
  "ParseMAC s =
     (if length s < 14 then None
      else (let bs = (if s ! 2 = CHR '':'' \<or> s ! 2 = CHR ''-'' then groups2 (s ! 2) s
                      else if s ! 4 = CHR ''.'' then groups4 s else None) in
        case bs of None \<Rightarrow> None | Some hw \<Rightarrow> if length hw \<in> {6, 8, 20} then Some hw else None))"

fun mac_string :: "byte list \<Rightarrow> string" where
  "mac_string [] = []"
| "mac_string [b] = hex_byte b"
| "mac_string (b # bs) = hex_byte b @ CHR '':'' # mac_string bs"

section \<open>The operations\<close>

datatype mac_error =
  EmptyMAC | InvalidMACFormat | MACNotSixBytes | MACAllZero | MACBroadcast | MACMulticast

definition ParseAndValidateMAC :: "string \<Rightarrow> mac_error + byte list \<times> string" where
  "ParseAndValidateMAC macStr =
     (let clean = trim_space macStr in
      if clean = [] then Inl EmptyMAC
      else (case ParseMAC clean of
        None \<Rightarrow> Inl InvalidMACFormat
      | Some hw \<Rightarrow>
          if length hw \<noteq> 6 then Inl MACNotSixBytes
          else if list_all (\<lambda>b. b = 0) hw then Inl MACAllZero
          else if list_all (\<lambda>b. b = 0xff) hw then Inl MACBroadcast
          else if and (hw ! 0) 1 \<noteq> 0 then Inl MACMulticast
          else Inr (hw, to_lower (mac_string hw))))"

definition BuildMagicPacket :: "string \<Rightarrow> mac_error + byte list" where
  "BuildMagicPacket macStr =
     (case ParseAndValidateMAC macStr of
        Inl e \<Rightarrow> Inl e
      | Inr (hw, _) \<Rightarrow> Inr (replicate 6 0xff @ concat (replicate 16 hw)))"

section \<open>Lemmas\<close>

lemma nibble_table:
  "list_all (\<lambda>n. hex_val (hex_digit n) = Some (of_nat n) \<and> lower_char (hex_digit n) = hex_digit n
     \<and> graphic (hex_digit n)) [0..<16]"
  by (simp add: upt_rec hex_val_def hex_digit_def lower_char_def graphic_def Let_def)

lemma nibble_facts:
  assumes "n < 16"
  shows "hex_val (hex_digit n) = Some (of_nat n)" "lower_char (hex_digit n) = hex_digit n"
    "graphic (hex_digit n)"
  using nibble_table assms by (auto simp: list_all_iff)

lemmas hex_val_digit [simp] = nibble_facts(1)
lemmas lower_hex_digit [simp] = nibble_facts(2)

lemma nibble_bounds [simp]: "unat (b :: byte) div 16 < 16"
  using unsigned_less [of b, where 'a = nat] by (simp add: less_mult_imp_div_less)

lemma graphic_hex: "graphic (hex_digit (unat (b :: byte) div 16))" "graphic (hex_digit (unat b mod 16))"
  by (rule nibble_facts; simp)+

lemma nth_concat_replicate:
  "n < k * length xs \<Longrightarrow> concat (replicate k xs) ! n = xs ! (n mod length xs)"
proof (induction k arbitrary: n)
  case (Suc k)
  then show ?case by (cases "n < length xs") (simp_all add: nth_append le_mod_geq)
qed simp

lemma byte_nibbles: "16 * of_nat (unat b div 16) + of_nat (unat b mod 16) = (b :: byte)"
proof -
  have split: "(16 * of_nat q + of_nat r :: byte) = of_nat (16 * q + r)" for q r by simp
  have "16 * of_nat (unat b div 16) + of_nat (unat b mod 16) = (of_nat (unat b) :: byte)"
    unfolding split by (simp only: mult_div_mod_eq)
  also have "\<dots> = b" by simp
  finally show ?thesis .
qed

lemma hex_pair:
  "hex_val (hex_digit (unat b div 16)) = Some (of_nat (unat b div 16))"
  "hex_val (hex_digit (unat b mod 16)) = Some (of_nat (unat (b :: byte) mod 16))"
  by (rule hex_val_digit; simp)+

lemma groups2_mac_string: "bs \<noteq> [] \<Longrightarrow> groups2 CHR '':'' (mac_string bs) = Some bs"
proof (induction bs rule: mac_string.induct)
  case (3 b b' bs)
  then show ?case by (simp add: hex_byte_def hex_pair byte_nibbles del: hex_val_digit)
qed (simp_all add: hex_byte_def hex_pair byte_nibbles del: hex_val_digit)

lemma length_mac_string: "bs \<noteq> [] \<Longrightarrow> length (mac_string bs) = 3 * length bs - 1"
  by (induction bs rule: mac_string.induct) (auto simp: hex_byte_def)

lemma mac_string_colon: "length bs \<ge> 2 \<Longrightarrow> mac_string bs ! 2 = CHR '':''"
  by (cases bs rule: mac_string.cases) (auto simp: hex_byte_def)

lemma ParseMAC_mac_string: "length bs = 6 \<Longrightarrow> ParseMAC (mac_string bs) = Some bs"
  using groups2_mac_string [of bs] length_mac_string [of bs] mac_string_colon [of bs]
  by (cases "bs = []") (auto simp: ParseMAC_def)

lemma lower_mac_string [simp]: "to_lower (mac_string bs) = mac_string bs"
proof (induction bs rule: mac_string.induct)
  case (3 b b' bs)
  then show ?case by (simp add: to_lower_def hex_byte_def lower_char_def [of "CHR '':''"])
qed (simp_all add: to_lower_def hex_byte_def)

lemma mac_string_ends:
  "bs \<noteq> [] \<Longrightarrow> mac_string bs \<noteq> [] \<and> graphic (hd (mac_string bs)) \<and> graphic (last (mac_string bs))"
proof (induction bs rule: mac_string.induct)
  case (3 b b' bs)
  then show ?case by (auto simp: hex_byte_def graphic_hex)
qed (simp_all add: hex_byte_def graphic_hex)

lemma trim_mac_string [simp]: "bs \<noteq> [] \<Longrightarrow> trim_space (mac_string bs) = mac_string bs"
  by (simp add: mac_string_ends trim_space_graphic)

lemma ParseMAC_short: "length s < 14 \<Longrightarrow> ParseMAC s = None"
  by (simp add: ParseMAC_def)

lemma ParseAndValidateMAC_ok:
  "ParseAndValidateMAC s = Inr (hw, canon) \<longleftrightarrow>
     ParseMAC (trim_space s) = Some hw \<and> length hw = 6 \<and> \<not> list_all (\<lambda>b. b = 0) hw
     \<and> \<not> list_all (\<lambda>b. b = 0xff) hw \<and> and (hw ! 0) 1 = 0 \<and> canon = mac_string hw"
proof (cases "ParseMAC (trim_space s)")
  case None
  then show ?thesis by (simp add: ParseAndValidateMAC_def Let_def)
next
  case (Some bs)
  then have "trim_space s \<noteq> []" using ParseMAC_short [of "[]"] by auto
  with Some show ?thesis by (auto simp: ParseAndValidateMAC_def Let_def simp del: list_all_iff)
qed

lemma sample_mac:
  "ParseAndValidateMAC ''001A.2B3C.4D5E'' = Inr ([0, 0x1a, 0x2b, 0x3c, 0x4d, 0x5e], ''00:1a:2b:3c:4d:5e'')"
proof -
  have "trim_space ''001A.2B3C.4D5E'' = ''001A.2B3C.4D5E''"
    by (rule trim_space_graphic) (simp_all add: graphic_def)
  then show ?thesis
    by (simp add: ParseAndValidateMAC_def ParseMAC_def hex_val_def to_lower_def lower_char_def
        hex_byte_def hex_digit_def Let_def)
qed

section \<open>Properties\<close>

text \<open>
  an accepted hardware address is stored in a normal form: the normal form itself is accepted,
  with the same bytes, and normalises to itself; it names six bytes, neither all zero, nor the
  broadcast address, nor a multicast one.
\<close>

theorem mac_normal_form:
  assumes "ParseAndValidateMAC s = Inr (hw, canon)"
  shows "ParseAndValidateMAC canon = Inr (hw, canon) \<and> length hw = 6 \<and> length canon = 17
    \<and> hw \<noteq> replicate 6 0 \<and> hw \<noteq> replicate 6 0xff \<and> \<not> bit (hw ! 0) 0"
proof -
  from assms have hw: "length hw = 6" "\<not> list_all (\<lambda>b. b = 0) hw" "\<not> list_all (\<lambda>b. b = 0xff) hw"
      "and (hw ! 0) 1 = 0" "canon = mac_string hw"
    by (simp_all add: ParseAndValidateMAC_ok)
  then have "hw \<noteq> []" by auto
  with hw have "ParseAndValidateMAC canon = Inr (hw, canon)"
    by (simp add: ParseAndValidateMAC_ok ParseMAC_mac_string)
  moreover have "\<not> bit (hw ! 0) 0"
    using hw(4) by (simp add: and_one_eq bit_0 even_iff_mod_2_eq_zero)
  moreover have "hw \<noteq> replicate 6 0" "hw \<noteq> replicate 6 0xff"
    using hw(2,3) by (auto simp: list_all_iff)
  ultimately show ?thesis using hw \<open>hw \<noteq> []\<close> length_mac_string [of hw] by simp
qed

theorem mac_normal_form_witness:
  "ParseAndValidateMAC ''00:1a:2b:3c:4d:5e'' = Inr ([0, 0x1a, 0x2b, 0x3c, 0x4d, 0x5e], ''00:1a:2b:3c:4d:5e'')"
proof -
  have "ParseAndValidateMAC ''001A.2B3C.4D5E'' = Inr ([0, 0x1a, 0x2b, 0x3c, 0x4d, 0x5e], ''00:1a:2b:3c:4d:5e'')"
    by (rule sample_mac)
  from mac_normal_form [OF this] show ?thesis by blast
qed

text \<open>
  the magic packet has the protocol's layout: 102 bytes, six of 255 and then the address of
  the target repeated in each of the sixteen groups of six bytes.
\<close>

theorem magic_packet_layout:
  assumes "BuildMagicPacket s = Inr p" and "i < 102"
  shows "length p = 102
    \<and> (\<exists>hw canon. ParseAndValidateMAC s = Inr (hw, canon) \<and> p ! i = (if i < 6 then 0xff else hw ! (i mod 6)))"
proof -
  obtain hw canon where hw: "ParseAndValidateMAC s = Inr (hw, canon)"
      "p = replicate 6 0xff @ concat (replicate 16 hw)"
    using assms(1) by (auto simp: BuildMagicPacket_def split: sum.splits)
  then have len: "length hw = 6" by (simp add: ParseAndValidateMAC_ok)
  then have "length p = 102" by (simp add: hw(2) length_concat sum_list_replicate)
  moreover have "p ! i = (if i < 6 then 0xff else hw ! (i mod 6))"
  proof (cases "i < 6")
    case False
    with assms(2) len have "concat (replicate 16 hw) ! (i - 6) = hw ! ((i - 6) mod 6)"
      using nth_concat_replicate [of "i - 6" 16 hw] by simp
    moreover have "(i - 6) mod 6 = i mod 6" using False by (simp add: le_mod_geq)
    ultimately show ?thesis using False by (simp add: hw(2) nth_append)
  qed (simp add: hw(2) nth_append)
  ultimately show ?thesis using hw(1) by blast
qed

theorem magic_packet_layout_witness:
  "\<exists>p. BuildMagicPacket ''001A.2B3C.4D5E'' = Inr p \<and> length p = 102"
proof -
  obtain p where p: "BuildMagicPacket ''001A.2B3C.4D5E'' = Inr p"
    by (simp add: BuildMagicPacket_def sample_mac)
  with magic_packet_layout [OF p, of 0] show ?thesis by auto
qed

end
