(* ===== verification/NetIP.thy ===== *)
theory NetIP
  imports Wol
begin

text \<open>
  The part of Go's package \<open>net\<close> the server relies on for addresses: \<open>ParseIP\<close>, the printed
  form of an address, and the tests on its ranges. An address is its 16 bytes, an IPv4 address
  the bytes of its IPv4-mapped form, as \<open>net.ParseIP\<close> returns it.
\<close>

type_synonym ip = "byte list"

section \<open>Parsing\<close>

definition parse_octet :: "string \<Rightarrow> byte option" where
  "parse_octet s =
     (if s = [] \<or> \<not> list_all is_digit s \<or> (length s > 1 \<and> hd s = CHR ''0'') \<or> digits_val s > 255 then None
      else Some (of_nat (digits_val s)))"

definition parse_ip4 :: "string \<Rightarrow> byte list option" where
  "parse_ip4 s = (case map parse_octet (split_at CHR ''.'' s) of
     [Some a, Some b, Some c, Some d] \<Rightarrow> Some [a, b, c, d] | _ \<Rightarrow> None)"

definition hex_run :: "string \<Rightarrow> string" where
  "hex_run s = takeWhile (\<lambda>c. hex_val c \<noteq> None) s"

definition hex_group :: "string \<Rightarrow> byte list" where
  "hex_group ds = (let v = foldl (\<lambda>v c. v * 16 + unat (the (hex_val c))) 0 ds in
     [of_nat (v div 256), of_nat (v mod 256)])"

text \<open>
  The loop of \<open>parseIPv6\<close>: \<open>n\<close> groups of two bytes are still free, \<open>ip\<close> is what was read,
  \<open>e\<close> the place of the ellipsis. The result has the text that was left.
\<close>

fun ip6_loop :: "nat \<Rightarrow> string \<Rightarrow> byte list \<Rightarrow> nat option \<Rightarrow> (byte list \<times> nat option \<times> string) option" where
  "ip6_loop 0 s ip e = Some (ip, e, s)"
| "ip6_loop (Suc n) s ip e =
     (let ds = hex_run s; rest = drop (length ds) s in
      if ds = [] \<or> length ds > 4 then None
      else if rest \<noteq> [] \<and> hd rest = CHR ''.'' then
        (if (e = None \<and> length ip \<noteq> 12) \<or> length ip + 4 > 16 then None
         else (case parse_ip4 s of None \<Rightarrow> None | Some v4 \<Rightarrow> Some (ip @ v4, e, [])))
      else
        (let ip1 = ip @ hex_group ds in
         case rest of
           [] \<Rightarrow> Some (ip1, e, [])
         | c # cs \<Rightarrow>
             if c \<noteq> CHR '':'' \<or> cs = [] then None
             else if hd cs = CHR '':'' then
               (if e \<noteq> None then None
                else if tl cs = [] then Some (ip1, Some (length ip1), [])
                else ip6_loop n (tl cs) ip1 (Some (length ip1)))
             else ip6_loop n cs ip1 e))"

definition parse_ip6 :: "string \<Rightarrow> byte list option" where
  "parse_ip6 s =
     (let start = has_prefix s ''::''; s1 = (if start then drop 2 s else s) in
      if start \<and> s1 = [] then Some (replicate 16 0)
      else (case ip6_loop 8 s1 [] (if start then Some 0 else None) of
        None \<Rightarrow> None
      | Some (ip, e, rest) \<Rightarrow>
          if rest \<noteq> [] then None
          else if length ip < 16 then
            (case e of None \<Rightarrow> None
             | Some k \<Rightarrow> Some (take k ip @ replicate (16 - length ip) 0 @ drop k ip))
          else if e \<noteq> None then None else Some ip))"

definition v4_mapped :: "byte list \<Rightarrow> ip" where
  "v4_mapped v4 = replicate 10 0 @ [0xff, 0xff] @ v4"

text \<open>\<open>netip.ParseAddr\<close> decides by the first of the three characters; \<open>net.ParseIP\<close> refuses zones.\<close>

definition ParseIP :: "string \<Rightarrow> ip option" where
  "ParseIP s =
     (case find (\<lambda>c. c \<in> {CHR ''.'', CHR '':'', CHR ''%''}) s of
        None \<Rightarrow> None
      | Some c \<Rightarrow>
          if c = CHR ''.'' then map_option v4_mapped (parse_ip4 s)
          else if c = CHR '':'' then (if CHR ''%'' \<in> set s then None else parse_ip6 s)
          else None)"

section \<open>Tests\<close>

definition To4 :: "ip \<Rightarrow> byte list option" where
  "To4 a = (if take 12 a = replicate 10 0 @ [0xff, 0xff] then Some (drop 12 a) else None)"

definition IsLoopback :: "ip \<Rightarrow> bool" where
  "IsLoopback a = (case To4 a of Some v \<Rightarrow> v ! 0 = 127 | None \<Rightarrow> a = replicate 15 0 @ [1])"

definition IsLinkLocalUnicast :: "ip \<Rightarrow> bool" where
  "IsLinkLocalUnicast a = (case To4 a of Some v \<Rightarrow> v ! 0 = 169 \<and> v ! 1 = 254
     | None \<Rightarrow> a ! 0 = 0xfe \<and> and (a ! 1) 0xc0 = 0x80)"

definition IsLinkLocalMulticast :: "ip \<Rightarrow> bool" where
  "IsLinkLocalMulticast a = (case To4 a of Some v \<Rightarrow> v ! 0 = 224 \<and> v ! 1 = 0 \<and> v ! 2 = 0
     | None \<Rightarrow> a ! 0 = 0xff \<and> and (a ! 1) 0x0f = 0x02)"

definition IsPrivate :: "ip \<Rightarrow> bool" where
  "IsPrivate a = (case To4 a of
       Some v \<Rightarrow> v ! 0 = 10 \<or> (v ! 0 = 172 \<and> and (v ! 1) 0xf0 = 16) \<or> (v ! 0 = 192 \<and> v ! 1 = 168)
     | None \<Rightarrow> and (a ! 0) 0xfe = 0xfc)"

section \<open>Printing\<close>

fun hex_digits :: "nat \<Rightarrow> string" where
  "hex_digits n = (if n < 16 then [hex_digit n] else hex_digits (n div 16) @ [hex_digit (n mod 16)])"

declare hex_digits.simps [simp del]

fun ip_groups :: "byte list \<Rightarrow> nat list" where
  "ip_groups (a # b # bs) = (256 * unat a + unat b) # ip_groups bs"
| "ip_groups _ = []"

text \<open>The first longest run of at least two zero groups, as (start, end); \<open>(8, 8)\<close> for none.\<close>

definition zero_run :: "nat list \<Rightarrow> nat \<times> nat" where
  "zero_run gs = fold (\<lambda>i (s, e).
     let l = length (takeWhile (\<lambda>g. g = 0) (drop i gs)) in
     if l \<ge> 2 \<and> l > e - s then (i, i + l) else (s, e)) [0..<8] (8, 8)"

definition ip6_string :: "nat list \<Rightarrow> string" where
  "ip6_string gs =
     (let (s, e) = zero_run gs;
          join = (\<lambda>xs. concat (map (\<lambda>(i, g). (if i = 0 then [] else '':'') @ hex_digits g) (enumerate 0 xs))) in
      if s \<ge> 8 then join gs else join (take s gs) @ ''::'' @ join (drop e gs))"

definition ip_string :: "ip \<Rightarrow> string" where
  "ip_string a = (case To4 a of
     Some v \<Rightarrow> nat_digits (unat (v ! 0)) @ ''.'' @ nat_digits (unat (v ! 1)) @ ''.''
        @ nat_digits (unat (v ! 2)) @ ''.'' @ nat_digits (unat (v ! 3))
   | None \<Rightarrow> ip6_string (ip_groups a))"

section \<open>Lemmas\<close>

lemma parse_ip4_length: "parse_ip4 s = Some v \<Longrightarrow> length v = 4"
  by (auto simp: parse_ip4_def split: list.splits option.splits)

lemma ip6_loop_length:
  "ip6_loop n s ip e = Some (ip', e', r) \<Longrightarrow> length ip + 2 * n = 16 \<Longrightarrow> length ip' \<le> 16"
proof (induction n s ip e rule: ip6_loop.induct)
  case (2 n s ip e)
  then show ?case
    by (auto simp: Let_def hex_group_def dest: parse_ip4_length split: if_splits list.splits option.splits)
qed simp

lemma parse_ip6_length: "parse_ip6 s = Some a \<Longrightarrow> length a = 16"
  by (auto simp: parse_ip6_def Let_def dest!: ip6_loop_length split: if_splits option.splits)

lemma ParseIP_length: "ParseIP s = Some a \<Longrightarrow> length a = 16"
  by (auto simp: ParseIP_def v4_mapped_def dest: parse_ip4_length parse_ip6_length
      split: option.splits if_splits)

end
