(* ===== verification/Devices.thy ===== *)
theory Devices
  imports NetIP
begin

text \<open>
  The device model, \<open>internal/device/device.go\<close> and \<open>grant.go\<close>: the device record with its
  validation, the normalisation of its SSH ports and of its addresses, and the grants that share
  one device with one user.
\<close>

section \<open>Devices\<close>

text \<open>\<open>*float64\<close> is an optional rational: JSON has neither infinities nor NaN.\<close>

record RuntimeFacts =
  rf_ObservedAt :: time
  rf_UptimeSeconds :: int
  rf_Load1 :: "rat option"
  rf_LogicalCPUCount :: int
  rf_MemoryTotalBytes :: u64
  rf_MemoryAvailableBytes :: u64
  rf_DiskTotalBytes :: u64
  rf_DiskAvailableBytes :: u64
  rf_DiskMount :: string

record HardwareIdentityReport =
  hi_Version :: int
  hi_Source :: string
  hi_Value :: string

record HardwareFingerprint =
  hf_Version :: int
  hf_Source :: string
  hf_Fingerprint :: string
  hf_LastObservedAt :: time

record Device =
  d_ID :: string
  d_OwnerUserID :: string
  d_Hostname :: string
  d_Alias :: string
  d_MAC :: string
  d_AgentVersion :: string
  d_OS :: string
  d_Arch :: string
  d_SSHUser :: string
  d_SSHPort :: int
  d_SSHPortReported :: int
  d_SSHPortOverride :: int
  d_PublicKey :: string
  d_Addresses :: "string list"
  d_CreatedAt :: time
  d_UpdatedAt :: time
  d_LastSeenAt :: time
  d_SyncStatus :: string
  d_AppliedVersion :: int
  d_AppliedHash :: string
  d_SyncError :: string
  d_SyncUpdatedAt :: time
  d_GitHubSyncEnabled :: bool
  d_GitHubStatus :: string
  d_GitHubKeyID :: int
  d_GitHubFingerprint :: string
  d_GitHubUpdatedAt :: time
  d_DeviceTokenHash :: string
  d_ControlProtocols :: "int list option"
  d_UpgradeTransactionID :: string
  d_UpgradeFenceRevision :: u64
  d_UpgradeReleaseSequence :: u64
  d_ConfirmedManifestDigest :: string
  d_RunningBundleDigest :: string
  d_UpgradeSecurityMode :: string
  d_RuntimeFacts :: "RuntimeFacts option"
  d_HardwareIdentity :: "HardwareFingerprint option"

definition ShouldReceiveGitHubCredentials :: "Device \<Rightarrow> bool" where
  "ShouldReceiveGitHubCredentials d = d_GitHubSyncEnabled d"

datatype device_error =
    ErrIDHostname | ErrSSHUserPort | ErrPublicKey | ErrMAC mac_error
  | ErrPortOverride | ErrPortReported | ErrHardwareIdentity

subsection \<open>Hardware identity\<close>

definition validHardwareSource :: "string \<Rightarrow> bool" where
  "validHardwareSource source \<longleftrightarrow>
     source \<in> {''io_platform_uuid'', ''win32_computer_system_product_uuid'', ''dmi_product_uuid''}"

text \<open>\<open>hex.DecodeString\<close> wants an even number of hexadecimal digits.\<close>

definition invalidHardwareIdentityValue :: "string \<Rightarrow> bool" where
  "invalidHardwareIdentityValue val \<longleftrightarrow>
     (if val \<in> {[], ''00000000-0000-0000-0000-000000000000'', ''ffffffff-ffff-ffff-ffff-ffffffffffff''} then True
      else (let parts = split_at CHR ''-'' val in
        if map length parts \<noteq> [8, 4, 4, 4, 12] then True
        else \<not> (list_all (\<lambda>c. hex_val c \<noteq> None) (concat parts) \<and> even (length (concat parts)))))"

text \<open>\<open>hmac\<close> is the keyed SHA-256 of the key and the message, in hexadecimal.\<close>

definition FingerprintHardwareIdentity ::
  "(string \<Rightarrow> string \<Rightarrow> string) \<Rightarrow> time \<Rightarrow> string \<Rightarrow> HardwareIdentityReport \<Rightarrow> device_error + HardwareFingerprint" where
  "FingerprintHardwareIdentity hmac now key report =
     (let val = to_lower (trim_space (hi_Value report)) in
      if length key < 32 \<or> hi_Version report \<noteq> 1 \<or> \<not> validHardwareSource (hi_Source report)
         \<or> invalidHardwareIdentityValue val
      then Inl ErrHardwareIdentity
      else Inr \<lparr>hf_Version = hi_Version report, hf_Source = hi_Source report,
        hf_Fingerprint = hmac key (''homeagent-hardware-v1'' @ [char_of (0::nat)] @ hi_Source report
          @ [char_of (0::nat)] @ val),
        hf_LastObservedAt = now\<rparr>)"

subsection \<open>Identifiers\<close>

definition id_char :: "char \<Rightarrow> bool" where
  "id_char c \<longleftrightarrow> (let n = (of_char c :: nat) in (97 \<le> n \<and> n \<le> 122) \<or> (48 \<le> n \<and> n \<le> 57)) \<or> c = CHR ''-''"

definition join_with :: "string \<Rightarrow> string list \<Rightarrow> string" where
  "join_with sep ws = (case ws of [] \<Rightarrow> [] | w # ws' \<Rightarrow> w @ concat (map (\<lambda>x. sep @ x) ws'))"

text \<open>
  The non-empty pieces between dashes, joined by single dashes; the final \<open>strings.Trim\<close> of
  dashes has nothing left to cut. \<open>sha\<close> gives the digest's bytes.
\<close>

definition GenerateID :: "(string \<Rightarrow> byte list) \<Rightarrow> string \<Rightarrow> string \<Rightarrow> string" where
  "GenerateID sha hostname machineID =
     (let host0 = to_lower (trim_space hostname);
          host1 = map (\<lambda>c. if id_char c then c else CHR ''-'') host0;
          host2 = join_with ''-'' (filter (\<lambda>w. w \<noteq> []) (split_at CHR ''-'' host1));
          host = (if host2 = [] then ''device'' else host2);
          sum = sha (trim_space hostname @ trim_space machineID) in
      host @ ''-'' @ concat (map hex_byte (take 4 sum)))"

subsection \<open>Validation\<close>

text \<open>\<open>strings.Fields\<close>: the maximal runs between white space.\<close>

function space_fields :: "string \<Rightarrow> string list" where
  "space_fields [] = []"
| "space_fields (c # cs) =
     (case find (\<lambda>p. has_prefix (c # cs) p) space_runes of
        Some p \<Rightarrow> space_fields (drop (max 1 (length p)) (c # cs))
      | None \<Rightarrow>
          (if cs \<noteq> [] \<and> find (\<lambda>p. has_prefix cs p) space_runes = None
           then (case space_fields cs of w # ws \<Rightarrow> (c # w) # ws | [] \<Rightarrow> [[c]])
           else [c] # space_fields cs))"
  by pat_completeness auto
termination by (relation "measure length") auto

definition valid_key_type :: "string \<Rightarrow> bool" where
  "valid_key_type t \<longleftrightarrow> t = ''ssh-ed25519'' \<or> t = ''ssh-rsa'' \<or> has_prefix t ''ecdsa-sha2-''"

definition Validate :: "Device \<Rightarrow> device_error option" where
  "Validate d =
     (if trim_space (d_ID d) = [] \<or> trim_space (d_Hostname d) = [] then Some ErrIDHostname
      else if trim_space (d_SSHUser d) = [] \<or> d_SSHPort d < 1 \<or> d_SSHPort d > 65535 then Some ErrSSHUserPort
      else (case space_fields (d_PublicKey d) of
        kt # _ # _ \<Rightarrow>
          (if \<not> valid_key_type kt then Some ErrPublicKey
           else if trim_space (d_MAC d) \<noteq> [] then
             (case ParseAndValidateMAC (d_MAC d) of Inl e \<Rightarrow> Some (ErrMAC e) | Inr _ \<Rightarrow> None)
           else None)
      | _ \<Rightarrow> Some ErrPublicKey))"

definition NormalizeSSHPorts :: "Device \<Rightarrow> device_error + Device" where
  "NormalizeSSHPorts d =
     (if d_SSHPortOverride d < 0 \<or> d_SSHPortOverride d > 65535 then Inl ErrPortOverride
      else (let d1 = (if d_SSHPortReported d = 0 \<and> d_SSHPortOverride d = 0
                      then d\<lparr>d_SSHPortReported := d_SSHPort d\<rparr> else d) in
        if d_SSHPortReported d1 < 1 \<or> d_SSHPortReported d1 > 65535 then Inl ErrPortReported
        else Inr (d1\<lparr>d_SSHPort := (if d_SSHPortOverride d1 \<noteq> 0 then d_SSHPortOverride d1
                                   else d_SSHPortReported d1)\<rparr>)))"

subsection \<open>Addresses\<close>

definition isVirtualOrProxyIP :: "ip \<Rightarrow> bool" where
  "isVirtualOrProxyIP a = (case To4 a of
     Some v \<Rightarrow>
       v ! 3 = 0 \<or> v ! 3 = 255
       \<or> (v ! 0 = 169 \<and> v ! 1 = 254)
       \<or> (v ! 0 = 100 \<and> 64 \<le> v ! 1 \<and> v ! 1 \<le> 127)
       \<or> (v ! 0 = 172 \<and> 17 \<le> v ! 1 \<and> v ! 1 \<le> 31)
       \<or> (v ! 0 = 192 \<and> v ! 1 = 168 \<and> v ! 2 \<in> {56, 65, 97, 107, 117, 139, 147, 148, 156, 158, 215})
   | None \<Rightarrow> length a = 16 \<and> and (a ! 0) 0xfe = 0xfc)"

definition address_rank :: "ip \<Rightarrow> nat" where
  "address_rank a = (if To4 a \<noteq> None \<and> IsPrivate a then 0 else if To4 a \<noteq> None then 1 else 2)"

definition trim_brackets :: "string \<Rightarrow> string" where
  "trim_brackets s = (let cut = dropWhile (\<lambda>c. c = CHR ''['' \<or> c = CHR '']'') in rev (cut (rev (cut s))))"

definition usable_address :: "string \<Rightarrow> ip option" where
  "usable_address raw = (case ParseIP (trim_brackets (trim_space raw)) of
     None \<Rightarrow> None
   | Some a \<Rightarrow> if IsLoopback a \<or> IsLinkLocalUnicast a \<or> IsLinkLocalMulticast a \<or> isVirtualOrProxyIP a
       then None else Some a)"

definition add_address :: "string \<Rightarrow> (string \<times> nat) list \<Rightarrow> (string \<times> nat) list" where
  "add_address raw values = (case usable_address raw of
     None \<Rightarrow> values
   | Some a \<Rightarrow> if ip_string a \<in> set (map fst values) then values
       else values @ [(ip_string a, address_rank a)])"

definition rank_before :: "string \<times> nat \<Rightarrow> string \<times> nat \<Rightarrow> bool" where
  "rank_before x y \<longleftrightarrow> snd x < snd y"

definition FilterAndSortAddresses :: "string list \<Rightarrow> string list" where
  "FilterAndSortAddresses addresses = map fst (go_sort rank_before (fold add_address addresses []))"

interpretation rank_order: weak_order rank_before
  by unfold_locales (auto simp: rank_before_def)

section \<open>Grants\<close>

datatype GrantLevel = GrantLevelRead | GrantLevelOperate | GrantLevelManage | GrantLevelOther string

definition IsValidGrantLevel :: "GrantLevel \<Rightarrow> bool" where
  "IsValidGrantLevel level \<longleftrightarrow> level \<in> {GrantLevelRead, GrantLevelOperate, GrantLevelManage}"

record DeviceGrant =
  g_ID :: string
  g_DeviceID :: string
  g_UserID :: string
  g_Level :: GrantLevel
  g_GrantedBy :: string
  g_CreatedAt :: time
  g_UpdatedAt :: time
  g_Revision :: u64

text \<open>The levels in the order in which they include each other; a text no level has is below them all.\<close>

instantiation GrantLevel :: preorder
begin

fun level_rank :: "GrantLevel \<Rightarrow> nat" where
  "level_rank (GrantLevelOther s) = 0"
| "level_rank GrantLevelRead = 1"
| "level_rank GrantLevelOperate = 2"
| "level_rank GrantLevelManage = 3"

definition less_eq_GrantLevel :: "GrantLevel \<Rightarrow> GrantLevel \<Rightarrow> bool" where
  "x \<le> y \<longleftrightarrow> level_rank x \<le> level_rank y"

definition less_GrantLevel :: "GrantLevel \<Rightarrow> GrantLevel \<Rightarrow> bool" where
  "x < y \<longleftrightarrow> level_rank x < level_rank y"

instance by standard (auto simp: less_eq_GrantLevel_def less_GrantLevel_def)

end

lemmas level_order = less_eq_GrantLevel_def less_GrantLevel_def

section \<open>Lemmas\<close>

lemma add_address_fold:
  "distinct (map fst acc) \<Longrightarrow>
    distinct (map fst (fold add_address xs acc))
    \<and> set (fold add_address xs acc) \<subseteq> set acc \<union> (\<lambda>a. (ip_string a, address_rank a)) ` {a. \<exists>raw \<in> set xs. usable_address raw = Some a}
    \<and> fst ` set (fold add_address xs acc) = fst ` set acc \<union> ip_string ` {a. \<exists>raw \<in> set xs. usable_address raw = Some a}"
proof (induction xs arbitrary: acc)
  case Nil
  then show ?case by simp
next
  case (Cons x xs)
  show ?case
  proof (cases "usable_address x")
    case None
    then have "add_address x acc = acc" by (simp add: add_address_def)
    with Cons.IH [OF Cons.prems] None show ?thesis by auto
  next
    case (Some a)
    have acc': "distinct (map fst (add_address x acc))"
        "set (add_address x acc) \<subseteq> insert (ip_string a, address_rank a) (set acc)"
        "set acc \<subseteq> set (add_address x acc)"
        "fst ` set (add_address x acc) = insert (ip_string a) (fst ` set acc)"
      using Cons.prems Some by (auto simp: add_address_def)
    have un: "{b. \<exists>raw\<in>set (x # xs). usable_address raw = Some b}
        = insert a {b. \<exists>raw\<in>set xs. usable_address raw = Some b}"
      using Some by auto
    show ?thesis unfolding un using Cons.IH [OF acc'(1)] acc'(2,4) by auto
  qed
qed

lemma NormalizeSSHPorts_ok:
  "NormalizeSSHPorts d = Inr d' \<Longrightarrow>
    0 \<le> d_SSHPortOverride d' \<and> d_SSHPortOverride d' \<le> 65535
    \<and> 1 \<le> d_SSHPortReported d' \<and> d_SSHPortReported d' \<le> 65535
    \<and> d_SSHPort d' = (if d_SSHPortOverride d' \<noteq> 0 then d_SSHPortOverride d' else d_SSHPortReported d')"
  by (auto simp: NormalizeSSHPorts_def Let_def split: if_splits)

lemma NormalizeSSHPorts_keeps:
  "NormalizeSSHPorts d = Inr d' \<Longrightarrow>
    d_ID d' = d_ID d \<and> d_OwnerUserID d' = d_OwnerUserID d \<and> d_DeviceTokenHash d' = d_DeviceTokenHash d
    \<and> d_SSHPortOverride d' = d_SSHPortOverride d"
  by (auto simp: NormalizeSSHPorts_def Let_def split: if_splits)

definition sample_device :: Device where
  "sample_device = \<lparr>d_ID = ''nas-1'', d_OwnerUserID = ''u1'', d_Hostname = ''nas'', d_Alias = [], d_MAC = [],
     d_AgentVersion = [], d_OS = ''linux'', d_Arch = ''amd64'', d_SSHUser = ''root'', d_SSHPort = 22,
     d_SSHPortReported = 0, d_SSHPortOverride = 0, d_PublicKey = ''ssh-ed25519 AAAA'', d_Addresses = [],
     d_CreatedAt = 1, d_UpdatedAt = 1, d_LastSeenAt = 1, d_SyncStatus = [], d_AppliedVersion = 0,
     d_AppliedHash = [], d_SyncError = [], d_SyncUpdatedAt = 0, d_GitHubSyncEnabled = False,
     d_GitHubStatus = [], d_GitHubKeyID = 0, d_GitHubFingerprint = [], d_GitHubUpdatedAt = 0,
     d_DeviceTokenHash = [], d_ControlProtocols = None, d_UpgradeTransactionID = [],
     d_UpgradeFenceRevision = 0, d_UpgradeReleaseSequence = 0, d_ConfirmedManifestDigest = [],
     d_RunningBundleDigest = [], d_UpgradeSecurityMode = [], d_RuntimeFacts = None,
     d_HardwareIdentity = None\<rparr>"

lemma sample_device_facts [simp]:
  "d_ID sample_device = ''nas-1''" "d_OwnerUserID sample_device = ''u1''" "d_SSHPort sample_device = 22"
  "d_SSHPortReported sample_device = 0" "d_SSHPortOverride sample_device = 0"
  "d_DeviceTokenHash sample_device = []"
  by (simp_all add: sample_device_def)

section \<open>Properties\<close>

text \<open>
  the addresses kept for a device are the printed forms of exactly the usable ones it
  reported, each once, private IPv4 addresses first, then the other IPv4 ones, then IPv6.
\<close>

theorem addresses_ranked:
  "\<exists>ps. FilterAndSortAddresses addresses = map fst ps \<and> distinct (map fst ps) \<and> sorted (map snd ps)
     \<and> set ps \<subseteq> (\<lambda>a. (ip_string a, address_rank a)) ` {a. Some a \<in> set (map usable_address addresses)}
     \<and> fst ` set ps = ip_string ` {a. Some a \<in> set (map usable_address addresses)}"
proof -
  let ?vs = "fold add_address addresses []" and ?ps = "go_sort rank_before (fold add_address addresses [])"
  have eq: "{a. Some a \<in> set (map usable_address addresses)}
      = {a. \<exists>raw \<in> set addresses. usable_address raw = Some a}" by force
  have "distinct (map fst ?vs)" using add_address_fold [of "[]"] by simp
  moreover have "mset (map fst ?ps) = mset (map fst ?vs)" by simp
  ultimately have "distinct (map fst ?ps)" by (metis mset_eq_imp_distinct_iff)
  moreover have "sorted (map snd ?ps)"
    using rank_order.sorted_go_sort [of ?vs] by (simp add: sorted_map rank_before_def not_less)
  ultimately show ?thesis
    using add_address_fold [of "[]" addresses]
    unfolding eq by (intro exI [of _ ?ps]) (simp add: FilterAndSortAddresses_def)
qed

text \<open>
  normalised SSH ports are in range and stable: the connection port is the manual override
  where there is one and the reported port otherwise, and normalising again changes nothing.
\<close>

theorem ssh_ports_normal:
  assumes "NormalizeSSHPorts d = Inr d'"
  shows "NormalizeSSHPorts d' = Inr d' \<and> 1 \<le> d_SSHPort d' \<and> d_SSHPort d' \<le> 65535
    \<and> d_SSHPort d' = (if d_SSHPortOverride d \<noteq> 0 then d_SSHPortOverride d else d_SSHPortReported d')"
proof -
  note ok = NormalizeSSHPorts_ok [OF assms] and keep = NormalizeSSHPorts_keeps [OF assms]
  then have "NormalizeSSHPorts d' = Inr d'" by (simp add: NormalizeSSHPorts_def)
  with ok keep show ?thesis by auto
qed

theorem ssh_ports_normal_witness:
  "\<exists>d'. NormalizeSSHPorts sample_device = Inr d' \<and> NormalizeSSHPorts d' = Inr d' \<and> d_SSHPort d' \<le> 65535"
proof -
  obtain d' where "NormalizeSSHPorts sample_device = Inr d'" by (simp add: NormalizeSSHPorts_def)
  from ssh_ports_normal [OF this] this show ?thesis by blast
qed

end
