(* ===== verification/Authorizer.thy ===== *)
theory Authorizer
  imports Users
begin

text \<open>
  The authorization decision, \<open>internal/auth/authorizer.go\<close>: the role matrix combined with the
  ownership and sharing of devices. The Go interface \<open>DeviceScopeResolver\<close> is the record
  \<open>resolver\<close> of its three methods and its contract is the locale \<open>device_scope\<close>, which the
  device registry interprets.
\<close>

datatype ResourceKind =
  ResourceKindGlobal | ResourceKindDevice | ResourceKindUser | ResourceKindOther string

record ResourceRef =
  res_Kind :: ResourceKind
  res_ID :: string

definition GlobalResource :: ResourceRef where
  "GlobalResource = \<lparr>res_Kind = ResourceKindGlobal, res_ID = []\<rparr>"

definition DeviceResource :: "string \<Rightarrow> ResourceRef" where
  "DeviceResource deviceID = \<lparr>res_Kind = ResourceKindDevice, res_ID = deviceID\<rparr>"

definition UserResource :: "string \<Rightarrow> ResourceRef" where
  "UserResource userID = \<lparr>res_Kind = ResourceKindUser, res_ID = userID\<rparr>"

record Actor =
  act_UserID :: string
  act_Username :: string
  act_Role :: Role

record AuthorizationRequest =
  req_Actor :: Actor
  req_Permission :: Permission
  req_Resource :: ResourceRef

record Decision =
  dec_Allowed :: bool
  dec_StatusCode :: int
  dec_ErrorCode :: string
  dec_ReasonCode :: string

abbreviation deny :: "int \<Rightarrow> string \<Rightarrow> string \<Rightarrow> Decision" where
  "deny code err reason \<equiv>
     \<lparr>dec_Allowed = False, dec_StatusCode = code, dec_ErrorCode = err, dec_ReasonCode = reason\<rparr>"

abbreviation allow :: Decision where
  "allow \<equiv> \<lparr>dec_Allowed = True, dec_StatusCode = 200, dec_ErrorCode = [],
     dec_ReasonCode = ''authorized''\<rparr>"

abbreviation role_denied :: Decision where
  "role_denied \<equiv> deny 403 ''forbidden'' ''role_permission_denied''"

text \<open>\<open>IsDeviceVisible\<close> returns the pair (visible, exists).\<close>

record DeviceScopeResolver =
  IsDeviceVisible :: "string \<Rightarrow> string \<Rightarrow> bool \<times> bool"
  IsDeviceOwner :: "string \<Rightarrow> string \<Rightarrow> bool"
  HasDevicePermission :: "string \<Rightarrow> string \<Rightarrow> Permission \<Rightarrow> bool"

section \<open>The decision\<close>

text \<open>The branch of \<open>Authorize\<close> for a device resource when a resolver is configured.\<close>

definition authorize_device ::
  "DeviceScopeResolver \<Rightarrow> Actor \<Rightarrow> Permission \<Rightarrow> string \<Rightarrow> Decision" where
  "authorize_device r actor perm deviceID =
     (let hasRolePerm = RoleHasPermission (act_Role actor) perm;
          (visible, exists) = IsDeviceVisible r (act_UserID actor) deviceID in
      if act_Role actor = RoleOwner then
        (if \<not> exists then deny 404 ''resource_not_found'' ''device_not_found''
         else if \<not> hasRolePerm then role_denied
         else allow)
      else if \<not> exists \<or> \<not> visible then
        deny 404 ''resource_not_found'' ''device_not_found_or_unauthorized''
      else if \<not> hasRolePerm then role_denied
      else if perm = PermDevicesDelete \<or> perm = PermDevicesShare then
        (if \<not> IsDeviceOwner r (act_UserID actor) deviceID
         then deny 403 ''forbidden'' ''device_ownership_required''
         else allow)
      else if \<not> HasDevicePermission r (act_UserID actor) deviceID perm then
        deny 403 ''forbidden'' ''device_grant_insufficient''
      else allow)"

definition Authorize :: "DeviceScopeResolver option \<Rightarrow> AuthorizationRequest \<Rightarrow> Decision" where
  "Authorize resolver req =
     (let actor = req_Actor req; perm = req_Permission req; res = req_Resource req;
          hasRolePerm = RoleHasPermission (act_Role actor) perm in
      if act_UserID actor = [] \<or> \<not> IsValidRole (act_Role actor) then
        deny 401 ''unauthorized'' ''invalid_or_missing_actor''
      else if res_Kind res = ResourceKindDevice then
        (if res_ID res = [] then deny 400 ''invalid_request'' ''missing_device_id''
         else (case resolver of
           Some r \<Rightarrow> authorize_device r actor perm (res_ID res)
         | None \<Rightarrow> if \<not> hasRolePerm then role_denied else allow))
      else if res_Kind res = ResourceKindUser then
        (if \<not> hasRolePerm then role_denied
         else if act_Role actor \<noteq> RoleOwner \<and> res_ID res \<noteq> [] \<and> res_ID res \<noteq> act_UserID actor
         then deny 403 ''forbidden'' ''cannot_access_other_users''
         else allow)
      else if \<not> hasRolePerm then role_denied
      else allow)"

lemmas authorize_defs = Authorize_def authorize_device_def

section \<open>The resolver's contract and what the decision guarantees under it\<close>

locale device_scope =
  fixes r :: DeviceScopeResolver
  assumes visible_exists: "IsDeviceVisible r u d = (True, e) \<Longrightarrow> e"
    and owner_visible: "IsDeviceOwner r u d \<Longrightarrow> IsDeviceVisible r u d = (True, True)"
    and permission_visible: "HasDevicePermission r u d p \<Longrightarrow> IsDeviceVisible r u d = (True, True)"
    and exists_uniform: "snd (IsDeviceVisible r u d) = snd (IsDeviceVisible r u' d)"
begin

definition may_use :: "Actor \<Rightarrow> Permission \<Rightarrow> string \<Rightarrow> bool" where
  "may_use a p d \<longleftrightarrow>
     (if act_Role a = RoleOwner then snd (IsDeviceVisible r (act_UserID a) d)
      else if p = PermDevicesDelete \<or> p = PermDevicesShare then IsDeviceOwner r (act_UserID a) d
      else HasDevicePermission r (act_UserID a) d p)"

lemma allowed_device_iff:
  assumes "res_Kind (req_Resource q) = ResourceKindDevice"
  shows "dec_Allowed (Authorize (Some r) q) \<longleftrightarrow>
    act_UserID (req_Actor q) \<noteq> [] \<and> IsValidRole (act_Role (req_Actor q))
    \<and> res_ID (req_Resource q) \<noteq> []
    \<and> RoleHasPermission (act_Role (req_Actor q)) (req_Permission q)
    \<and> may_use (req_Actor q) (req_Permission q) (res_ID (req_Resource q))"
proof -
  let ?a = "req_Actor q" and ?d = "res_ID (req_Resource q)" and ?p = "req_Permission q"
  obtain v e where ve: "IsDeviceVisible r (act_UserID ?a) ?d = (v, e)" by fastforce
  have "IsDeviceOwner r (act_UserID ?a) ?d \<Longrightarrow> v \<and> e"
    and "HasDevicePermission r (act_UserID ?a) ?d ?p \<Longrightarrow> v \<and> e"
    using owner_visible permission_visible ve by fastforce+
  with assms ve show ?thesis
    by (auto simp: authorize_defs may_use_def Let_def)
qed

lemma hidden_as_missing:
  assumes "act_Role (req_Actor q) \<noteq> RoleOwner"
    and "res_Kind (req_Resource q) = ResourceKindDevice" and "res_ID (req_Resource q) \<noteq> []"
    and "IsValidRole (act_Role (req_Actor q))" and "act_UserID (req_Actor q) \<noteq> []"
    and "fst (IsDeviceVisible r (act_UserID (req_Actor q)) (res_ID (req_Resource q))) = False"
  shows "Authorize (Some r) q = deny 404 ''resource_not_found'' ''device_not_found_or_unauthorized''"
  using assms by (auto simp: authorize_defs Let_def split: prod.splits)

end

section \<open>The shape of every decision\<close>

definition decisions :: "Decision set" where
  "decisions = {allow, role_denied, deny 401 ''unauthorized'' ''invalid_or_missing_actor'',
     deny 400 ''invalid_request'' ''missing_device_id'',
     deny 404 ''resource_not_found'' ''device_not_found'',
     deny 404 ''resource_not_found'' ''device_not_found_or_unauthorized'',
     deny 403 ''forbidden'' ''device_ownership_required'',
     deny 403 ''forbidden'' ''device_grant_insufficient'',
     deny 403 ''forbidden'' ''cannot_access_other_users''}"

lemma decisions_mem:
  "allow \<in> decisions" "role_denied \<in> decisions"
  "deny 401 ''unauthorized'' ''invalid_or_missing_actor'' \<in> decisions"
  "deny 400 ''invalid_request'' ''missing_device_id'' \<in> decisions"
  "deny 404 ''resource_not_found'' ''device_not_found'' \<in> decisions"
  "deny 404 ''resource_not_found'' ''device_not_found_or_unauthorized'' \<in> decisions"
  "deny 403 ''forbidden'' ''device_ownership_required'' \<in> decisions"
  "deny 403 ''forbidden'' ''device_grant_insufficient'' \<in> decisions"
  "deny 403 ''forbidden'' ''cannot_access_other_users'' \<in> decisions"
  unfolding decisions_def by simp_all

lemma authorize_device_in: "authorize_device r a p d \<in> decisions"
  unfolding authorize_device_def Let_def by (simp add: decisions_mem split: prod.split)

lemma Authorize_in: "Authorize rs q \<in> decisions"
  unfolding Authorize_def Let_def
  by (simp add: decisions_mem authorize_device_in split: option.split)

lemma decisions_allowed: "d \<in> decisions \<Longrightarrow> dec_Allowed d \<longleftrightarrow> dec_StatusCode d = 200"
  unfolding decisions_def by auto

lemma decisions_codes: "d \<in> decisions \<Longrightarrow> dec_StatusCode d \<in> {200, 400, 401, 403, 404}"
  unfolding decisions_def by auto

lemma authorize_device_role:
  "dec_Allowed (authorize_device r a p d) \<Longrightarrow> RoleHasPermission (act_Role a) p"
  unfolding authorize_device_def Let_def by (simp split: prod.splits if_splits)

lemma Authorize_role:
  "dec_Allowed (Authorize rs q) \<Longrightarrow> RoleHasPermission (act_Role (req_Actor q)) (req_Permission q)"
  unfolding Authorize_def Let_def
  by (simp split: option.splits if_splits add: authorize_device_role)

lemma Authorize_actor: "dec_Allowed (Authorize rs q) \<Longrightarrow> act_UserID (req_Actor q) \<noteq> []"
  unfolding Authorize_def Let_def by (simp split: if_splits)

end
