(* ===== verification/Registry.thy ===== *)
theory Registry
  imports Devices Authorizer Sessions
begin

text \<open>
  The device registry, \<open>internal/registry/registry.go\<close>: the registered devices, the grants that
  share them, indexed by device and by user, and the token check of agents. The two indexes of
  the code hold pointers to the same \<open>DeviceGrant\<close>, which \<open>SetGrant\<close> updates in place: here they
  hold locations of the store \<open>reg_heap\<close>. \<open>reg_file\<close> is the registry's JSON file, decoded, and
  \<open>reg_controlPlane\<close> the state of the attached control-plane database, if any.
\<close>

section \<open>State\<close>

record fileData =
  fd_Devices :: "Device list"
  fd_Grants :: "DeviceGrant list"

record Registry =
  reg_devices :: "(string, Device) gomap"
  reg_grants :: "(string, (string, nat) gomap) gomap"
  reg_userGrants :: "(string, (string, nat) gomap) gomap"
  reg_heap :: "nat \<Rightarrow> DeviceGrant"
  reg_next :: nat
  reg_defaultOwnerID :: string
  reg_legacyJoinToken :: string
  reg_controlPlane :: "fileData option"
  reg_file :: "fileData option"

text \<open>The clock, the identifier \<open>GenerateGrantID\<close> returns, and whether the write succeeds.\<close>

record reg_env =
  re_Now :: time
  re_GrantID :: string
  re_WriteOK :: bool

datatype reg_error =
    ErrNotFound | ErrDevice device_error | ErrInvalidGrantLevel | ErrGrantToOwner | ErrWrite
  | ErrDeviceNotFound | ErrDeviceMismatch | ErrDeviceUnauthorized

text \<open>
  \<open>if m, ok := mm[k]; ok { delete(m, j) }\<close>, the insertion that creates the inner map, and the
  lookup in a map of maps.
\<close>

definition inner_del :: "'k \<Rightarrow> 'j \<Rightarrow> ('k, ('j, 'v) gomap) gomap \<Rightarrow> ('k, ('j, 'v) gomap) gomap" where
  "inner_del k j mm = (case gget mm k of None \<Rightarrow> mm | Some m \<Rightarrow> gput k (gdel j m) mm)"

definition inner_put :: "'k \<Rightarrow> 'j \<Rightarrow> 'v \<Rightarrow> ('k, ('j, 'v) gomap) gomap \<Rightarrow> ('k, ('j, 'v) gomap) gomap" where
  "inner_put k j v mm = gput k (gput j v (case gget mm k of None \<Rightarrow> [] | Some m \<Rightarrow> m)) mm"

definition lookup2 :: "('k, ('j, 'v) gomap) gomap \<Rightarrow> 'k \<Rightarrow> 'j \<Rightarrow> 'v option" where
  "lookup2 mm k j = (case gget mm k of None \<Rightarrow> None | Some m \<Rightarrow> gget m j)"

definition addGrantIndexLocked :: "DeviceGrant \<Rightarrow> Registry \<Rightarrow> Registry" where
  "addGrantIndexLocked g r =
     (let p = reg_next r in
      r\<lparr>reg_heap := (reg_heap r)(p := g), reg_next := Suc p,
        reg_grants := inner_put (g_DeviceID g) (g_UserID g) p (reg_grants r),
        reg_userGrants := inner_put (g_UserID g) (g_DeviceID g) p (reg_userGrants r)\<rparr>)"

definition hasUserGrantLocked :: "string \<Rightarrow> string \<Rightarrow> Registry \<Rightarrow> bool" where
  "hasUserGrantLocked userID deviceID r \<longleftrightarrow>
     (case gget (reg_grants r) deviceID of Some devGrants \<Rightarrow> userID \<in> set (gkeys devGrants) | None \<Rightarrow> False)"

section \<open>Writing and opening\<close>

definition stored_grants :: "Registry \<Rightarrow> DeviceGrant list" where
  "stored_grants r = concat (map (\<lambda>(_, m). map (\<lambda>(_, p). reg_heap r p) m) (reg_grants r))"

definition writeLocked :: "reg_env \<Rightarrow> Registry \<Rightarrow> Registry \<times> reg_error option" where
  "writeLocked env r =
     (if \<not> re_WriteOK env then (r, Some ErrWrite)
      else (case reg_controlPlane r of
        Some _ \<Rightarrow>
          (r\<lparr>reg_controlPlane := Some \<lparr>fd_Devices = gvals (reg_devices r), fd_Grants = stored_grants r\<rparr>\<rparr>, None)
      | None \<Rightarrow>
          (r\<lparr>reg_file := Some
             \<lparr>fd_Devices = go_sort (\<lambda>x y. d_ID x < d_ID y) (gvals (reg_devices r)),
              fd_Grants = go_sort (\<lambda>x y. g_ID x < g_ID y) (stored_grants r)\<rparr>\<rparr>, None)))"

definition empty_registry :: "fileData option \<Rightarrow> Registry" where
  "empty_registry f = \<lparr>reg_devices = [], reg_grants = [], reg_userGrants = [],
     reg_heap = (\<lambda>_. \<lparr>g_ID = [], g_DeviceID = [], g_UserID = [], g_Level = GrantLevelOther [],
       g_GrantedBy = [], g_CreatedAt = 0, g_UpdatedAt = 0, g_Revision = 0\<rparr>),
     reg_next = 0, reg_defaultOwnerID = [], reg_legacyJoinToken = [],
     reg_controlPlane = None, reg_file = f\<rparr>"

fun load_devices :: "Device list \<Rightarrow> Registry \<Rightarrow> device_error + Registry" where
  "load_devices [] r = Inr r"
| "load_devices (d # ds) r =
     (case NormalizeSSHPorts d of
        Inl e \<Rightarrow> Inl e
      | Inr d1 \<Rightarrow>
          (let d2 = d1\<lparr>d_Addresses := FilterAndSortAddresses (d_Addresses d1)\<rparr> in
           load_devices ds (r\<lparr>reg_devices := gput (d_ID d2) d2 (reg_devices r)\<rparr>)))"

text \<open>\<open>Open\<close> on the decoded file; \<open>None\<close> is a file that does not exist.\<close>

definition Open :: "fileData option \<Rightarrow> device_error + Registry" where
  "Open file =
     (case file of
        None \<Rightarrow> Inr (empty_registry None)
      | Some data \<Rightarrow>
          (case load_devices (fd_Devices data) (empty_registry file) of
             Inl e \<Rightarrow> Inl e
           | Inr r \<Rightarrow> Inr (fold addGrantIndexLocked (fd_Grants data) r)))"

definition AttachControlPlane :: "fileData \<Rightarrow> Registry \<Rightarrow> Registry" where
  "AttachControlPlane service r =
     fold addGrantIndexLocked (fd_Grants service)
       (r\<lparr>reg_controlPlane := Some service,
          reg_devices := fold (\<lambda>d. gput (d_ID d) d) (fd_Devices service) [],
          reg_grants := [], reg_userGrants := []\<rparr>)"

definition ReplaceDevicesFromControlPlane :: "Device list \<Rightarrow> Registry \<Rightarrow> Registry" where
  "ReplaceDevicesFromControlPlane devices r =
     r\<lparr>reg_devices := fold (\<lambda>d. gput (d_ID d) d) devices []\<rparr>"

definition ApplyCommittedDevice :: "Device \<Rightarrow> Registry \<Rightarrow> Registry" where
  "ApplyCommittedDevice d r = r\<lparr>reg_devices := gput (d_ID d) d (reg_devices r)\<rparr>"

definition SetDefaultOwnerID :: "reg_env \<Rightarrow> string \<Rightarrow> Registry \<Rightarrow> Registry" where
  "SetDefaultOwnerID env ownerID r =
     (let owner = trim_space ownerID; r1 = r\<lparr>reg_defaultOwnerID := owner\<rparr> in
      if owner = [] then r1
      else if list_all (\<lambda>d. d_OwnerUserID d \<noteq> []) (gvals (reg_devices r1)) then r1
      else fst (writeLocked env
        (r1\<lparr>reg_devices := map (\<lambda>(id, d).
           (id, if d_OwnerUserID d = [] then d\<lparr>d_OwnerUserID := owner\<rparr> else d)) (reg_devices r1)\<rparr>)))"

section \<open>Saving a device\<close>

text \<open>The assignment, the write, and the rollback every update of a device ends with.\<close>

definition put_device :: "reg_env \<Rightarrow> string \<Rightarrow> Device \<Rightarrow> Registry \<Rightarrow> Registry \<times> (reg_error + Device)" where
  "put_device env k d r =
     (let old = gget (reg_devices r) k in
      case writeLocked env (r\<lparr>reg_devices := gput k d (reg_devices r)\<rparr>) of
        (r1, None) \<Rightarrow> (r1, Inr d)
      | (r1, Some e) \<Rightarrow> (r1\<lparr>reg_devices := gm.rollback k old (reg_devices r1)\<rparr>, Inl e))"

definition or_old :: "'a \<Rightarrow> 'a \<Rightarrow> 'a \<Rightarrow> 'a" where
  "or_old zero new old = (if new = zero then old else new)"

text \<open>What a save keeps of the device already registered, where the new data has nothing.\<close>

definition keep_old :: "Device \<Rightarrow> Device \<Rightarrow> Device" where
  "keep_old old d = d
     \<lparr>d_CreatedAt := d_CreatedAt old,
      d_OwnerUserID := or_old [] (d_OwnerUserID d) (d_OwnerUserID old),
      d_Alias := or_old [] (d_Alias d) (d_Alias old),
      d_MAC := or_old [] (d_MAC d) (d_MAC old),
      d_AgentVersion := or_old [] (d_AgentVersion d) (d_AgentVersion old),
      d_SyncStatus := or_old [] (d_SyncStatus d) (d_SyncStatus old),
      d_AppliedVersion := or_old 0 (d_AppliedVersion d) (d_AppliedVersion old),
      d_AppliedHash := or_old [] (d_AppliedHash d) (d_AppliedHash old),
      d_SyncError := or_old [] (d_SyncError d) (d_SyncError old),
      d_SyncUpdatedAt := or_old 0 (d_SyncUpdatedAt d) (d_SyncUpdatedAt old),
      d_GitHubSyncEnabled := (d_GitHubSyncEnabled d \<or> d_GitHubSyncEnabled old),
      d_GitHubStatus := or_old [] (d_GitHubStatus d) (d_GitHubStatus old),
      d_GitHubKeyID := or_old 0 (d_GitHubKeyID d) (d_GitHubKeyID old),
      d_GitHubFingerprint := or_old [] (d_GitHubFingerprint d) (d_GitHubFingerprint old),
      d_GitHubUpdatedAt := or_old 0 (d_GitHubUpdatedAt d) (d_GitHubUpdatedAt old),
      d_DeviceTokenHash := or_old [] (d_DeviceTokenHash d) (d_DeviceTokenHash old),
      d_ControlProtocols := or_old None (d_ControlProtocols d) (d_ControlProtocols old)\<rparr>"

definition set_ports :: "Device option \<Rightarrow> int option \<Rightarrow> Device \<Rightarrow> Device" where
  "set_ports existing report d =
     (let d1 = (case existing of
          Some old \<Rightarrow> d\<lparr>d_SSHPortOverride := d_SSHPortOverride old,
            d_SSHPortReported := (if d_SSHPortReported old = 0 then d_SSHPort old else d_SSHPortReported old)\<rparr>
        | None \<Rightarrow> d\<lparr>d_SSHPortOverride := 0, d_SSHPortReported := d_SSHPort d\<rparr>) in
      case report of Some p \<Rightarrow> d1\<lparr>d_SSHPortReported := p\<rparr> | None \<Rightarrow> d1)"

definition normalize_mac :: "Device \<Rightarrow> device_error + Device" where
  "normalize_mac d =
     (if trim_space (d_MAC d) = [] then Inr d
      else (case ParseAndValidateMAC (d_MAC d) of
        Inl e \<Rightarrow> Inl (ErrMAC e) | Inr (_, canon) \<Rightarrow> Inr (d\<lparr>d_MAC := canon\<rparr>)))"

text \<open>The record a save stores, from the one registered before (\<open>existing\<close>) and the normalised new one.\<close>

definition saved_device :: "time \<Rightarrow> string \<Rightarrow> Device option \<Rightarrow> Device \<Rightarrow> Device" where
  "saved_device now defaultOwner existing d =
     (let d1 = (case existing of
            Some old \<Rightarrow> keep_old old d
          | None \<Rightarrow> d\<lparr>d_CreatedAt := now,
              d_OwnerUserID := (if d_OwnerUserID d = [] \<and> defaultOwner \<noteq> [] then defaultOwner
                                else d_OwnerUserID d)\<rparr>) in
      d1\<lparr>d_Addresses := FilterAndSortAddresses (d_Addresses d1), d_UpdatedAt := now, d_LastSeenAt := now\<rparr>)"

definition SaveWithSSHPortReport ::
  "reg_env \<Rightarrow> Device \<Rightarrow> int option \<Rightarrow> Registry \<Rightarrow> Registry \<times> (reg_error + Device)" where
  "SaveWithSSHPortReport env d report r =
     (case Validate d of Some e \<Rightarrow> (r, Inl (ErrDevice e)) | None \<Rightarrow>
      (case normalize_mac d of Inl e \<Rightarrow> (r, Inl (ErrDevice e)) | Inr d1 \<Rightarrow>
       (let existing = gget (reg_devices r) (d_ID d1) in
        case NormalizeSSHPorts (set_ports existing report d1) of
          Inl e \<Rightarrow> (r, Inl (ErrDevice e))
        | Inr d2 \<Rightarrow>
            put_device env (d_ID d2) (saved_device (re_Now env) (reg_defaultOwnerID r) existing d2) r)))"

definition Save :: "reg_env \<Rightarrow> Device \<Rightarrow> Registry \<Rightarrow> Registry \<times> (reg_error + Device)" where
  "Save env d r = SaveWithSSHPortReport env d (Some (d_SSHPort d)) r"

section \<open>Reading\<close>

definition device_before :: "Device \<Rightarrow> Device \<Rightarrow> bool" where
  "device_before x y \<longleftrightarrow>
     (if d_CreatedAt x = d_CreatedAt y then d_ID x > d_ID y else d_CreatedAt x > d_CreatedAt y)"

definition List :: "Registry \<Rightarrow> Device list" where
  "List r = go_sort device_before (gvals (reg_devices r))"

definition FilterDevicesForUser :: "string \<Rightarrow> bool \<Rightarrow> Registry \<Rightarrow> Device list" where
  "FilterDevicesForUser userID isOwnerRole r =
     go_sort device_before (filter (\<lambda>d. isOwnerRole \<or> d_OwnerUserID d = userID
       \<or> hasUserGrantLocked userID (d_ID d) r) (gvals (reg_devices r)))"

definition Get :: "string \<Rightarrow> Registry \<Rightarrow> reg_error + Device" where
  "Get deviceID r = (case gget (reg_devices r) deviceID of None \<Rightarrow> Inl ErrNotFound | Some d \<Rightarrow> Inr d)"

definition grant_before :: "DeviceGrant \<Rightarrow> DeviceGrant \<Rightarrow> bool" where
  "grant_before x y \<longleftrightarrow>
     (if g_CreatedAt x \<noteq> g_CreatedAt y then g_CreatedAt x > g_CreatedAt y
      else if g_DeviceID x \<noteq> g_DeviceID y then g_DeviceID x > g_DeviceID y
      else g_UserID x > g_UserID y)"

definition AllGrants :: "Registry \<Rightarrow> DeviceGrant list" where
  "AllGrants r = go_sort grant_before (stored_grants r)"

definition ListGrants :: "string \<Rightarrow> Registry \<Rightarrow> DeviceGrant list" where
  "ListGrants deviceID r =
     go_sort (\<lambda>x y. if g_CreatedAt x = g_CreatedAt y then g_UserID x > g_UserID y
                    else g_CreatedAt x > g_CreatedAt y)
       (case gget (reg_grants r) deviceID of None \<Rightarrow> [] | Some m \<Rightarrow> map (reg_heap r) (gvals m))"

definition GetUserGrants :: "string \<Rightarrow> Registry \<Rightarrow> DeviceGrant list" where
  "GetUserGrants userID r =
     go_sort (\<lambda>x y. if g_CreatedAt x = g_CreatedAt y then g_DeviceID x > g_DeviceID y
                    else g_CreatedAt x > g_CreatedAt y)
       (case gget (reg_userGrants r) userID of None \<Rightarrow> [] | Some m \<Rightarrow> map (reg_heap r) (gvals m))"

section \<open>Grants and ownership\<close>

definition drop_device_grants :: "string \<Rightarrow> Registry \<Rightarrow> Registry" where
  "drop_device_grants deviceID r =
     (case gget (reg_grants r) deviceID of
        None \<Rightarrow> r
      | Some devGrants \<Rightarrow>
          r\<lparr>reg_userGrants := fold (\<lambda>u. inner_del u deviceID) (gkeys devGrants) (reg_userGrants r),
            reg_grants := gdel deviceID (reg_grants r)\<rparr>)"

definition Delete :: "reg_env \<Rightarrow> string \<Rightarrow> Registry \<Rightarrow> Registry \<times> reg_error option" where
  "Delete env deviceID r =
     (case gget (reg_devices r) deviceID of
        None \<Rightarrow> (r, Some ErrNotFound)
      | Some old \<Rightarrow>
          (case writeLocked env
             (drop_device_grants deviceID (r\<lparr>reg_devices := gdel deviceID (reg_devices r)\<rparr>)) of
             (r1, None) \<Rightarrow> (r1, None)
           | (r1, Some e) \<Rightarrow> (r1\<lparr>reg_devices := gput deviceID old (reg_devices r1)\<rparr>, Some e)))"

definition delete_owned :: "string \<Rightarrow> Registry \<Rightarrow> Registry" where
  "delete_owned deviceID r =
     drop_device_grants deviceID (r\<lparr>reg_devices := gdel deviceID (reg_devices r)\<rparr>)"

definition DeleteDevicesByOwner ::
  "reg_env \<Rightarrow> string \<Rightarrow> Registry \<Rightarrow> Registry \<times> (reg_error + string list)" where
  "DeleteDevicesByOwner env ownerUserID r =
     (let deletedIDs = map fst (filter (\<lambda>(_, d). d_OwnerUserID d = ownerUserID) (reg_devices r));
          r1 = fold delete_owned deletedIDs r in
      if deletedIDs = [] then (r1, Inr [])
      else (case writeLocked env r1 of
        (r2, Some e) \<Rightarrow> (r2, Inl e)
      | (r2, None) \<Rightarrow> (r2, Inr deletedIDs)))"

definition SetGrant ::
  "reg_env \<Rightarrow> string \<Rightarrow> string \<Rightarrow> GrantLevel \<Rightarrow> string \<Rightarrow> Registry \<Rightarrow> Registry \<times> (reg_error + DeviceGrant)" where
  "SetGrant env deviceID userID level grantedBy r =
     (if \<not> IsValidGrantLevel level then (r, Inl ErrInvalidGrantLevel)
      else (case gget (reg_devices r) deviceID of
        None \<Rightarrow> (r, Inl ErrNotFound)
      | Some d \<Rightarrow>
          if d_OwnerUserID d = userID then (r, Inl ErrGrantToOwner)
          else
            (let now = re_Now env;
                 (g, r1) = (case lookup2 (reg_grants r) deviceID userID of
                   Some p \<Rightarrow>
                     (let g = (reg_heap r p)\<lparr>g_Level := level, g_GrantedBy := grantedBy,
                                g_UpdatedAt := now, g_Revision := g_Revision (reg_heap r p) + 1\<rparr> in
                      (g, r\<lparr>reg_heap := (reg_heap r)(p := g)\<rparr>))
                 | None \<Rightarrow>
                     (let g = \<lparr>g_ID = re_GrantID env, g_DeviceID = deviceID, g_UserID = userID,
                                g_Level = level, g_GrantedBy = grantedBy, g_CreatedAt = now,
                                g_UpdatedAt = now, g_Revision = 1\<rparr> in
                      (g, addGrantIndexLocked g r))) in
             case writeLocked env r1 of
               (r2, Some e) \<Rightarrow> (r2, Inl e)
             | (r2, None) \<Rightarrow> (r2, Inr g))))"

definition unlink_grant :: "string \<Rightarrow> string \<Rightarrow> Registry \<Rightarrow> Registry" where
  "unlink_grant deviceID userID r =
     r\<lparr>reg_grants := inner_del deviceID userID (reg_grants r),
       reg_userGrants := inner_del userID deviceID (reg_userGrants r)\<rparr>"

definition RevokeGrant :: "reg_env \<Rightarrow> string \<Rightarrow> string \<Rightarrow> Registry \<Rightarrow> Registry \<times> reg_error option" where
  "RevokeGrant env deviceID userID r =
     (if gget (reg_devices r) deviceID = None then (r, Some ErrNotFound)
      else writeLocked env (unlink_grant deviceID userID r))"

definition TransferOwnership ::
  "reg_env \<Rightarrow> string \<Rightarrow> string \<Rightarrow> string \<Rightarrow> GrantLevel option \<Rightarrow> Registry \<Rightarrow> Registry \<times> reg_error option" where
  "TransferOwnership env deviceID newOwnerID currentActorID retainLevel r =
     (case gget (reg_devices r) deviceID of
        None \<Rightarrow> (r, Some ErrNotFound)
      | Some d \<Rightarrow>
          (let oldOwnerID = d_OwnerUserID d; now = re_Now env;
               r1 = unlink_grant deviceID newOwnerID
                 (r\<lparr>reg_devices := gput deviceID (d\<lparr>d_OwnerUserID := newOwnerID, d_UpdatedAt := now\<rparr>)
                      (reg_devices r)\<rparr>) in
           writeLocked env
             (if (case retainLevel of Some level \<Rightarrow> IsValidGrantLevel level | None \<Rightarrow> False) \<and> oldOwnerID \<noteq> []
                  \<and> oldOwnerID \<noteq> newOwnerID
              then addGrantIndexLocked \<lparr>g_ID = re_GrantID env, g_DeviceID = deviceID, g_UserID = oldOwnerID,
                     g_Level = the retainLevel, g_GrantedBy = currentActorID, g_CreatedAt = now,
                     g_UpdatedAt = now, g_Revision = 1\<rparr> r1
              else if oldOwnerID \<noteq> [] then unlink_grant deviceID oldOwnerID r1
              else r1)))"

section \<open>The scope of users and the permissions of grants\<close>

definition reg_IsDeviceVisible :: "Registry \<Rightarrow> string \<Rightarrow> string \<Rightarrow> bool \<times> bool" where
  "reg_IsDeviceVisible r userID deviceID =
     (case gget (reg_devices r) deviceID of
        None \<Rightarrow> (False, False)
      | Some d \<Rightarrow> (d_OwnerUserID d = userID \<or> hasUserGrantLocked userID deviceID r, True))"

definition reg_IsDeviceOwner :: "Registry \<Rightarrow> string \<Rightarrow> string \<Rightarrow> bool" where
  "reg_IsDeviceOwner r userID deviceID =
     (case gget (reg_devices r) deviceID of None \<Rightarrow> False | Some d \<Rightarrow> d_OwnerUserID d = userID)"

definition level_allows :: "GrantLevel \<Rightarrow> Permission \<Rightarrow> bool" where
  "level_allows level perm =
     (if perm \<in> {PermDevicesRead, PermCommandsRead, PermHealthRead, PermAlertsRead} then True
      else if perm \<in> {PermDevicesSync, PermDevicesWake, PermDevicesShutdown, PermDevicesUpgrade,
                      PermCommandsCancel}
        then level = GrantLevelOperate \<or> level = GrantLevelManage
      else if perm \<in> {PermDevicesUpdate, PermAlertsManage} then level = GrantLevelManage
      else False)"

definition reg_HasDevicePermission :: "Registry \<Rightarrow> string \<Rightarrow> string \<Rightarrow> Permission \<Rightarrow> bool" where
  "reg_HasDevicePermission r userID deviceID perm =
     (case gget (reg_devices r) deviceID of
        None \<Rightarrow> False
      | Some d \<Rightarrow>
          if d_OwnerUserID d = userID then True
          else (case lookup2 (reg_grants r) deviceID userID of
            None \<Rightarrow> False
          | Some p \<Rightarrow> level_allows (g_Level (reg_heap r p)) perm))"

definition registry_scope :: "Registry \<Rightarrow> DeviceScopeResolver" where
  "registry_scope r = \<lparr>IsDeviceVisible = reg_IsDeviceVisible r, IsDeviceOwner = reg_IsDeviceOwner r,
     HasDevicePermission = reg_HasDevicePermission r\<rparr>"

section \<open>Updates of one device\<close>

definition UpdateDeviceWithSSHPort ::
  "reg_env \<Rightarrow> string \<Rightarrow> string option \<Rightarrow> string option \<Rightarrow> bool option \<Rightarrow> int option \<Rightarrow> Registry
     \<Rightarrow> Registry \<times> (reg_error + Device)" where
  "UpdateDeviceWithSSHPort env deviceID alias mac gitHubSyncEnabled port r =
     (case gget (reg_devices r) deviceID of
        None \<Rightarrow> (r, Inl ErrNotFound)
      | Some d \<Rightarrow>
          (let ported = (case port of
                 None \<Rightarrow> Inr d
               | Some p \<Rightarrow>
                   if p < 0 \<or> p > 65535 then Inl ErrPortOverride
                   else (case NormalizeSSHPorts d of
                     Inl e \<Rightarrow> Inl e
                   | Inr d1 \<Rightarrow> NormalizeSSHPorts (d1\<lparr>d_SSHPortOverride := p\<rparr>))) in
           case ported of
             Inl e \<Rightarrow> (r, Inl (ErrDevice e))
           | Inr d1 \<Rightarrow>
               (let now = re_Now env;
                    d2 = (case alias of None \<Rightarrow> d1 | Some a \<Rightarrow> d1\<lparr>d_Alias := trim_space a\<rparr>);
                    maced = (case mac of
                      None \<Rightarrow> Inr d2
                    | Some m \<Rightarrow>
                        if trim_space m = [] then Inr (d2\<lparr>d_MAC := []\<rparr>)
                        else (case ParseAndValidateMAC (trim_space m) of
                          Inl e \<Rightarrow> Inl (ErrMAC e) | Inr (_, canon) \<Rightarrow> Inr (d2\<lparr>d_MAC := canon\<rparr>))) in
                case maced of
                  Inl e \<Rightarrow> (r, Inl (ErrDevice e))
                | Inr d3 \<Rightarrow>
                    (let d4 = (case gitHubSyncEnabled of
                           None \<Rightarrow> d3
                         | Some b \<Rightarrow> d3\<lparr>d_GitHubSyncEnabled := b, d_GitHubUpdatedAt := now\<rparr>) in
                     put_device env deviceID (d4\<lparr>d_UpdatedAt := now\<rparr>) r))))"

definition UpdateDevice ::
  "reg_env \<Rightarrow> string \<Rightarrow> string option \<Rightarrow> string option \<Rightarrow> bool option \<Rightarrow> Registry
     \<Rightarrow> Registry \<times> (reg_error + Device)" where
  "UpdateDevice env deviceID alias mac gitHubSyncEnabled r =
     UpdateDeviceWithSSHPort env deviceID alias mac gitHubSyncEnabled None r"

definition UpdateGitHubSyncEnabled ::
  "reg_env \<Rightarrow> string \<Rightarrow> bool \<Rightarrow> Registry \<Rightarrow> Registry \<times> (reg_error + Device)" where
  "UpdateGitHubSyncEnabled env deviceID enabled r = UpdateDevice env deviceID None None (Some enabled) r"

definition UpdateAlias :: "reg_env \<Rightarrow> string \<Rightarrow> string \<Rightarrow> Registry \<Rightarrow> Registry \<times> (reg_error + Device)" where
  "UpdateAlias env deviceID alias r =
     (case gget (reg_devices r) deviceID of
        None \<Rightarrow> (r, Inl ErrNotFound)
      | Some d \<Rightarrow>
          put_device env deviceID (d\<lparr>d_Alias := trim_space alias, d_UpdatedAt := re_Now env\<rparr>) r)"

definition UpdateMAC :: "reg_env \<Rightarrow> string \<Rightarrow> string \<Rightarrow> Registry \<Rightarrow> Registry \<times> (reg_error + Device)" where
  "UpdateMAC env deviceID mac r =
     (case gget (reg_devices r) deviceID of
        None \<Rightarrow> (r, Inl ErrNotFound)
      | Some d \<Rightarrow>
          (let clean = trim_space mac;
               maced = (if clean = [] then Inr (d\<lparr>d_MAC := []\<rparr>)
                 else (case ParseAndValidateMAC clean of
                   Inl e \<Rightarrow> Inl (ErrMAC e) | Inr (_, canon) \<Rightarrow> Inr (d\<lparr>d_MAC := canon\<rparr>))) in
           case maced of
             Inl e \<Rightarrow> (r, Inl (ErrDevice e))
           | Inr d1 \<Rightarrow> put_device env deviceID (d1\<lparr>d_UpdatedAt := re_Now env\<rparr>) r))"

text \<open>The updates that return only an error.\<close>

definition only_error :: "Registry \<times> (reg_error + Device) \<Rightarrow> Registry \<times> reg_error option" where
  "only_error res = (fst res, case snd res of Inl e \<Rightarrow> Some e | Inr _ \<Rightarrow> None)"

definition UpdateGitHubStatus ::
  "reg_env \<Rightarrow> string \<Rightarrow> string \<Rightarrow> int \<Rightarrow> string \<Rightarrow> Registry \<Rightarrow> Registry \<times> reg_error option" where
  "UpdateGitHubStatus env deviceID status keyID fingerprint r =
     (case gget (reg_devices r) deviceID of
        None \<Rightarrow> (r, Some ErrNotFound)
      | Some d \<Rightarrow>
          only_error (put_device env deviceID
            (d\<lparr>d_GitHubStatus := status,
               d_GitHubKeyID := (if keyID > 0 then keyID else d_GitHubKeyID d),
               d_GitHubFingerprint := (if fingerprint \<noteq> [] then fingerprint else d_GitHubFingerprint d),
               d_GitHubUpdatedAt := re_Now env, d_UpdatedAt := re_Now env\<rparr>) r))"

definition UpdateAgentVersion :: "reg_env \<Rightarrow> string \<Rightarrow> string \<Rightarrow> Registry \<Rightarrow> Registry \<times> reg_error option" where
  "UpdateAgentVersion env deviceID agentVersion r =
     (case gget (reg_devices r) deviceID of
        None \<Rightarrow> (r, Some ErrNotFound)
      | Some d \<Rightarrow>
          (let clean = trim_space agentVersion in
           only_error (put_device env deviceID
             (d\<lparr>d_AgentVersion := (if clean \<noteq> [] then clean else d_AgentVersion d),
                d_UpdatedAt := re_Now env, d_LastSeenAt := re_Now env\<rparr>) r)))"

definition TouchLastSeen :: "reg_env \<Rightarrow> string \<Rightarrow> Registry \<Rightarrow> Registry \<times> reg_error option" where
  "TouchLastSeen env deviceID r =
     (case gget (reg_devices r) deviceID of
        None \<Rightarrow> (r, Some ErrNotFound)
      | Some d \<Rightarrow>
          only_error (put_device env deviceID (d\<lparr>d_UpdatedAt := re_Now env, d_LastSeenAt := re_Now env\<rparr>) r))"

definition UpdateSyncStatus ::
  "reg_env \<Rightarrow> string \<Rightarrow> string \<Rightarrow> int \<Rightarrow> string \<Rightarrow> string \<Rightarrow> Registry \<Rightarrow> Registry \<times> reg_error option" where
  "UpdateSyncStatus env deviceID status version hash errMsg r =
     (case gget (reg_devices r) deviceID of
        None \<Rightarrow> (r, Some ErrNotFound)
      | Some d \<Rightarrow>
          only_error (put_device env deviceID
            (d\<lparr>d_SyncStatus := status, d_AppliedVersion := version, d_AppliedHash := hash,
               d_SyncError := errMsg, d_SyncUpdatedAt := re_Now env, d_LastSeenAt := re_Now env\<rparr>) r))"

section \<open>The token check of agents\<close>

definition SecureCompareHash :: "string \<Rightarrow> string \<Rightarrow> bool" where
  "SecureCompareHash hash1 hash2 \<longleftrightarrow> hash1 \<noteq> [] \<and> hash2 \<noteq> [] \<and> hash1 = hash2"

definition SetLegacyJoinToken :: "string \<Rightarrow> Registry \<Rightarrow> Registry" where
  "SetLegacyJoinToken token r = r\<lparr>reg_legacyJoinToken := trim_space token\<rparr>"

definition AuthorizeDevice :: "(string \<Rightarrow> string) \<Rightarrow> string \<Rightarrow> string \<Rightarrow> Registry \<Rightarrow> reg_error option" where
  "AuthorizeDevice sha rawToken deviceID r =
     (if rawToken = [] \<or> deviceID = [] then Some ErrDeviceNotFound
      else (case gget (reg_devices r) deviceID of
        None \<Rightarrow> Some ErrDeviceNotFound
      | Some reqDev \<Rightarrow>
          (let tokenHash = HashToken sha rawToken in
           if d_DeviceTokenHash reqDev \<noteq> [] then
             (if SecureCompareHash (d_DeviceTokenHash reqDev) tokenHash then None
              else if list_ex (\<lambda>(otherID, otherDev). otherID \<noteq> deviceID \<and> d_DeviceTokenHash otherDev \<noteq> []
                     \<and> SecureCompareHash (d_DeviceTokenHash otherDev) tokenHash) (reg_devices r)
                then Some ErrDeviceMismatch
              else Some ErrDeviceUnauthorized)
           else if reg_legacyJoinToken r \<noteq> []
             \<and> SecureCompareHash (HashToken sha (reg_legacyJoinToken r)) tokenHash then None
           else Some ErrDeviceUnauthorized)))"

end
