(* ===== verification/RegistryProps.thy ===== *)
theory RegistryProps
  imports Registry
begin

text \<open>
  The registry's invariants over every sequence of its operations, whatever writes fail, the
  interpretation of the authorizer's contract on it, and its properties.
\<close>

section \<open>Frames and lookups\<close>

lemma lookup2_del [simp]:
  "lookup2 (inner_del k j mm) k' j' = (if k' = k \<and> j' = j then None else lookup2 mm k' j')"
  by (auto simp: lookup2_def inner_del_def split: option.split)

lemma lookup2_put [simp]:
  "lookup2 (inner_put k j v mm) k' j' = (if k' = k \<and> j' = j then Some v else lookup2 mm k' j')"
  by (auto simp: lookup2_def inner_put_def split: option.split)

lemma lookup2_dels [simp]:
  "lookup2 (fold (\<lambda>u. inner_del u j) us mm) k' j' = (if k' \<in> set us \<and> j' = j then None else lookup2 mm k' j')"
  by (induction us arbitrary: mm) auto

lemma lookup2_gdel [simp]: "lookup2 (gdel k mm) k' j' = (if k' = k then None else lookup2 mm k' j')"
  by (simp add: lookup2_def)

lemma lookup2_Nil [simp]: "lookup2 [] k j = None"
  by (simp add: lookup2_def)

lemma hasUserGrant_iff: "hasUserGrantLocked u d r \<longleftrightarrow> lookup2 (reg_grants r) d u \<noteq> None"
proof (cases "gget (reg_grants r) d")
  case (Some m)
  have "u \<in> fst ` set m \<longleftrightarrow> gget m u \<noteq> None" by (simp add: map_of_eq_None_iff)
  with Some show ?thesis by (simp add: hasUserGrantLocked_def lookup2_def)
qed (simp add: hasUserGrantLocked_def lookup2_def)

lemma lookup2_in_keys: "gget mm k = Some m \<Longrightarrow> lookup2 mm k j = Some v \<Longrightarrow> j \<in> fst ` set m"
  by (auto simp: lookup2_def dest: map_of_SomeD intro: rev_image_eqI)

definition inner_wf :: "('k, ('j, 'v) gomap) gomap \<Rightarrow> bool" where
  "inner_wf mm \<longleftrightarrow> wf_map mm \<and> (\<forall>k m. gget mm k = Some m \<longrightarrow> wf_map m)"

lemma inner_wf_intros [simp, intro]:
  "inner_wf []"
  "inner_wf mm \<Longrightarrow> inner_wf (inner_del k j mm)"
  "inner_wf mm \<Longrightarrow> inner_wf (inner_put k j v mm)"
  "inner_wf mm \<Longrightarrow> inner_wf (gdel k mm)"
  by (auto simp: inner_wf_def inner_del_def inner_put_def split: option.splits)

lemma inner_wf_dels [simp, intro]: "inner_wf mm \<Longrightarrow> inner_wf (fold (\<lambda>u. inner_del u j) us mm)"
  by (induction us arbitrary: mm) auto

lemma writeLocked_frame [simp]:
  "reg_devices (fst (writeLocked env r)) = reg_devices r"
  "reg_grants (fst (writeLocked env r)) = reg_grants r"
  "reg_userGrants (fst (writeLocked env r)) = reg_userGrants r"
  "reg_heap (fst (writeLocked env r)) = reg_heap r"
  "reg_next (fst (writeLocked env r)) = reg_next r"
  "reg_defaultOwnerID (fst (writeLocked env r)) = reg_defaultOwnerID r"
  "reg_legacyJoinToken (fst (writeLocked env r)) = reg_legacyJoinToken r"
  by (auto simp: writeLocked_def split: option.split)

lemma writeLocked_cases:
  "snd (writeLocked env r) = (if re_WriteOK env then None else Some ErrWrite)"
  "\<not> re_WriteOK env \<Longrightarrow> fst (writeLocked env r) = r"
  by (auto simp: writeLocked_def split: option.split)

lemma put_device_eq:
  "put_device env k d r =
     (if re_WriteOK env then (fst (writeLocked env (r\<lparr>reg_devices := gput k d (reg_devices r)\<rparr>)), Inr d)
      else (r, Inl ErrWrite))"
  using writeLocked_cases [of env "r\<lparr>reg_devices := gput k d (reg_devices r)\<rparr>"]
  by (auto simp: put_device_def Let_def prod_eq_iff gm.rollback_restores split: prod.split)

section \<open>The invariant\<close>

definition index_ok :: "Registry \<Rightarrow> bool" where
  "index_ok r \<longleftrightarrow> inner_wf (reg_grants r) \<and> inner_wf (reg_userGrants r)
     \<and> (\<forall>d u. lookup2 (reg_grants r) d u = lookup2 (reg_userGrants r) u d)
     \<and> (\<forall>d u p. lookup2 (reg_grants r) d u = Some p \<longrightarrow>
          p < reg_next r \<and> g_DeviceID (reg_heap r p) = d \<and> g_UserID (reg_heap r p) = u)"

definition devices_ok :: "Registry \<Rightarrow> bool" where
  "devices_ok r \<longleftrightarrow> wf_map (reg_devices r) \<and> (\<forall>k d. gget (reg_devices r) k = Some d \<longrightarrow> d_ID d = k)"

definition anchored :: "Registry \<Rightarrow> bool" where
  "anchored r \<longleftrightarrow>
     (\<forall>d u. lookup2 (reg_grants r) d u \<noteq> None \<longrightarrow> gget (reg_devices r) d \<noteq> None)"

definition reg_inv :: "Registry \<Rightarrow> bool" where
  "reg_inv r \<longleftrightarrow> index_ok r \<and> devices_ok r"

definition same_grants :: "Registry \<Rightarrow> Registry \<Rightarrow> bool" where
  "same_grants r r' \<longleftrightarrow> reg_grants r' = reg_grants r \<and> reg_userGrants r' = reg_userGrants r
     \<and> reg_heap r' = reg_heap r \<and> reg_next r' = reg_next r"

lemma index_at:
  "index_ok r \<Longrightarrow> lookup2 (reg_grants r) d u = Some p \<Longrightarrow>
    p < reg_next r \<and> g_DeviceID (reg_heap r p) = d \<and> g_UserID (reg_heap r p) = u"
  unfolding index_ok_def by blast

lemma index_ok_same: "same_grants r r' \<Longrightarrow> index_ok r' = index_ok r"
  by (simp add: index_ok_def same_grants_def)

lemma index_ok_write [simp]: "index_ok (fst (writeLocked env r)) = index_ok r"
  by (rule index_ok_same) (simp add: same_grants_def)

lemma devices_ok_write [simp]: "devices_ok (fst (writeLocked env r)) = devices_ok r"
  by (simp add: devices_ok_def)

lemma anchored_write [simp]: "anchored (fst (writeLocked env r)) = anchored r"
  by (simp add: anchored_def)

lemma index_ok_devices [simp]: "index_ok (r\<lparr>reg_devices := m\<rparr>) = index_ok r"
  by (rule index_ok_same) (simp add: same_grants_def)

lemma index_ok_add [intro]:
  assumes "index_ok r" shows "index_ok (addGrantIndexLocked g r)"
proof -
  have "p < Suc (reg_next r) \<and> g_DeviceID (((reg_heap r)(reg_next r := g)) p) = d
      \<and> g_UserID (((reg_heap r)(reg_next r := g)) p) = u"
    if "lookup2 (inner_put (g_DeviceID g) (g_UserID g) (reg_next r) (reg_grants r)) d u = Some p" for d u p
  proof (cases "d = g_DeviceID g \<and> u = g_UserID g")
    case False
    with that assms have "p < reg_next r \<and> g_DeviceID (reg_heap r p) = d \<and> g_UserID (reg_heap r p) = u"
      by (auto simp: index_ok_def split: if_splits)
    then show ?thesis by auto
  qed (use that in auto)
  with assms show ?thesis by (simp add: index_ok_def addGrantIndexLocked_def Let_def)
qed

lemma index_ok_unlink [intro]: "index_ok r \<Longrightarrow> index_ok (unlink_grant d u r)"
  by (auto simp: index_ok_def unlink_grant_def)

lemma index_ok_drop [intro]: "index_ok r \<Longrightarrow> index_ok (drop_device_grants d r)"
proof (cases "gget (reg_grants r) d")
  case (Some m)
  assume ok: "index_ok r"
  have "lookup2 (gdel d (reg_grants r)) d' u'
      = lookup2 (fold (\<lambda>u. inner_del u d) (gkeys m) (reg_userGrants r)) u' d'" for d' u'
  proof (cases "d' = d")
    case True
    show ?thesis
    proof (cases "u' \<in> fst ` set m")
      case False
      with Some have "lookup2 (reg_grants r) d u' = None"
        using lookup2_in_keys [OF Some] by (cases "lookup2 (reg_grants r) d u'") auto
      with ok have "lookup2 (reg_userGrants r) u' d = None" by (simp add: index_ok_def)
      with True show ?thesis by simp
    qed (use True in simp)
  qed (use ok in \<open>simp add: index_ok_def\<close>)
  with ok Some show ?thesis by (auto simp: index_ok_def drop_device_grants_def)
qed (simp add: drop_device_grants_def)

lemma drop_frame [simp]:
  "reg_devices (drop_device_grants d r) = reg_devices r"
  "reg_heap (drop_device_grants d r) = reg_heap r"
  "lookup2 (reg_grants (drop_device_grants d r)) d' u = (if d' = d then None else lookup2 (reg_grants r) d' u)"
  by (auto simp: drop_device_grants_def lookup2_def split: option.split)

lemma add_frame [simp]:
  "reg_devices (addGrantIndexLocked g r) = reg_devices r"
  "lookup2 (reg_grants (addGrantIndexLocked g r)) d u
     = (if d = g_DeviceID g \<and> u = g_UserID g then Some (reg_next r) else lookup2 (reg_grants r) d u)"
  "reg_heap (addGrantIndexLocked g r) = (reg_heap r)(reg_next r := g)"
  by (simp_all add: addGrantIndexLocked_def Let_def)

lemma unlink_frame [simp]:
  "reg_devices (unlink_grant d u r) = reg_devices r"
  "reg_heap (unlink_grant d u r) = reg_heap r"
  "reg_next (unlink_grant d u r) = reg_next r"
  "lookup2 (reg_grants (unlink_grant d u r)) d' u'
     = (if d' = d \<and> u' = u then None else lookup2 (reg_grants r) d' u')"
  by (simp_all add: unlink_grant_def)

lemma devices_ok_put: "devices_ok r \<Longrightarrow> d_ID d = k \<Longrightarrow> devices_ok (r\<lparr>reg_devices := gput k d (reg_devices r)\<rparr>)"
  by (auto simp: devices_ok_def)

lemma devices_ok_cong: "reg_devices r' = reg_devices r \<Longrightarrow> devices_ok r' = devices_ok r"
  by (simp add: devices_ok_def)

section \<open>Every operation keeps it\<close>

text \<open>The operations that change the registry, each with the environment it meets.\<close>

datatype reg_op =
    OpSave Device "int option"
  | OpDelete string
  | OpDeleteByOwner string
  | OpSetGrant string string GrantLevel string
  | OpRevoke string string
  | OpTransfer string string string "GrantLevel option"
  | OpUpdate string "string option" "string option" "bool option" "int option"
  | OpAlias string string
  | OpMAC string string
  | OpGitHubStatus string string int string
  | OpAgentVersion string string
  | OpTouch string
  | OpSyncStatus string string int string string
  | OpDefaultOwner string
  | OpLegacyToken string
  | OpCommitted Device

fun reg_apply :: "reg_env \<Rightarrow> reg_op \<Rightarrow> Registry \<Rightarrow> Registry" where
  "reg_apply env (OpSave d report) r = fst (SaveWithSSHPortReport env d report r)"
| "reg_apply env (OpDelete d) r = fst (Delete env d r)"
| "reg_apply env (OpDeleteByOwner u) r = fst (DeleteDevicesByOwner env u r)"
| "reg_apply env (OpSetGrant d u l by) r = fst (SetGrant env d u l by r)"
| "reg_apply env (OpRevoke d u) r = fst (RevokeGrant env d u r)"
| "reg_apply env (OpTransfer d u by l) r = fst (TransferOwnership env d u by l r)"
| "reg_apply env (OpUpdate d a m g p) r = fst (UpdateDeviceWithSSHPort env d a m g p r)"
| "reg_apply env (OpAlias d a) r = fst (UpdateAlias env d a r)"
| "reg_apply env (OpMAC d m) r = fst (UpdateMAC env d m r)"
| "reg_apply env (OpGitHubStatus d st key fp) r = fst (UpdateGitHubStatus env d st key fp r)"
| "reg_apply env (OpAgentVersion d v) r = fst (UpdateAgentVersion env d v r)"
| "reg_apply env (OpTouch d) r = fst (TouchLastSeen env d r)"
| "reg_apply env (OpSyncStatus d st v h e) r = fst (UpdateSyncStatus env d st v h e r)"
| "reg_apply env (OpDefaultOwner u) r = SetDefaultOwnerID env u r"
| "reg_apply env (OpLegacyToken t) r = SetLegacyJoinToken t r"
| "reg_apply env (OpCommitted d) r = ApplyCommittedDevice d r"

text \<open>One operation, in any environment.\<close>

inductive reg_step :: "Registry \<Rightarrow> Registry \<Rightarrow> bool" where
  op: "r' = reg_apply env oper r \<Longrightarrow> reg_step r r'"

inductive reg_reachable :: "Registry \<Rightarrow> Registry \<Rightarrow> bool" for r0 where
  start: "reg_reachable r0 r0"
| step: "reg_reachable r0 r \<Longrightarrow> reg_step r r' \<Longrightarrow> reg_reachable r0 r'"

inductive_cases reg_stepE: "reg_step r r'"
inductive_simps reg_step_iff: "reg_step r r'"

subsection \<open>Updates of one device\<close>

lemma put_device_frame [simp]:
  "same_grants r (fst (put_device env k d r))"
  "reg_devices (fst (put_device env k d r)) = (if re_WriteOK env then gput k d (reg_devices r) else reg_devices r)"
  "reg_defaultOwnerID (fst (put_device env k d r)) = reg_defaultOwnerID r"
  "reg_legacyJoinToken (fst (put_device env k d r)) = reg_legacyJoinToken r"
  by (simp_all add: put_device_eq same_grants_def)

lemma fst_only_error [simp]: "fst (only_error x) = fst x"
  by (simp add: only_error_def)

text \<open>What an update of a device is: nothing, or the write of one record under its own ID.\<close>

definition device_update :: "Registry \<Rightarrow> Registry \<Rightarrow> bool" where
  "device_update r r' \<longleftrightarrow> r' = r \<or> (\<exists>env d. r' = fst (put_device env (d_ID d) d r))"

lemma device_update_put:
  "devices_ok r \<Longrightarrow> gget (reg_devices r) k = Some d \<Longrightarrow> d_ID d' = d_ID d \<Longrightarrow>
    device_update r (fst (put_device env k d' r))"
  unfolding device_update_def devices_ok_def by metis

lemma device_update_refl [simp]: "device_update r r"
  by (simp add: device_update_def)

lemma device_update_eq: "k = d_ID d \<Longrightarrow> device_update r (fst (put_device env k d r))"
  by (auto simp: device_update_def)

lemma device_update_inv:
  assumes "device_update r r'" and "devices_ok r"
  shows "same_grants r r' \<and> devices_ok r' \<and> (\<forall>k. gget (reg_devices r) k \<noteq> None \<longrightarrow> gget (reg_devices r') k \<noteq> None)"
proof -
  have "same_grants r r" by (simp add: same_grants_def)
  moreover have "devices_ok (fst (put_device env (d_ID d) d r))" for env d
    using assms(2) by (auto simp: devices_ok_def)
  ultimately show ?thesis using assms unfolding device_update_def by auto
qed

lemma saved_device_fields:
  "d_ID (saved_device now ow e d) = d_ID d"
  "d_SSHPort (saved_device now ow e d) = d_SSHPort d"
  "d_SSHPortOverride (saved_device now ow e d) = d_SSHPortOverride d"
  "e = Some old \<Longrightarrow> d_CreatedAt (saved_device now ow e d) = d_CreatedAt old"
  "e = Some old \<Longrightarrow> d_OwnerUserID (saved_device now ow e d) = or_old [] (d_OwnerUserID d) (d_OwnerUserID old)"
  "e = Some old \<Longrightarrow> d_DeviceTokenHash (saved_device now ow e d)
     = or_old [] (d_DeviceTokenHash d) (d_DeviceTokenHash old)"
  by (simp_all add: saved_device_def keep_old_def Let_def split: option.split)

lemma update_SaveWithSSHPortReport: "device_update r (fst (SaveWithSSHPortReport env d report r))"
  by (auto simp: SaveWithSSHPortReport_def Let_def saved_device_fields split: option.split sum.split
      intro!: device_update_eq)

lemma update_UpdateDevice:
  assumes "devices_ok r"
  shows "device_update r (fst (UpdateDeviceWithSSHPort env k alias mac gh port r))"
proof (cases "gget (reg_devices r) k")
  case None
  then show ?thesis by (simp add: UpdateDeviceWithSSHPort_def device_update_def)
next
  case (Some d)
  have same: "device_update r r" by (simp add: device_update_def)
  show ?thesis
    using Some
    by (auto simp: UpdateDeviceWithSSHPort_def Let_def same split: option.splits sum.splits if_splits
        intro!: device_update_put [OF assms Some] dest!: NormalizeSSHPorts_keeps)
qed

lemma update_others:
  assumes "devices_ok r"
  shows "device_update r (fst (UpdateAlias env k alias r))"
    and "device_update r (fst (UpdateMAC env k mac r))"
    and "device_update r (fst (UpdateGitHubStatus env k status key fp r))"
    and "device_update r (fst (UpdateAgentVersion env k v r))"
    and "device_update r (fst (TouchLastSeen env k r))"
    and "device_update r (fst (UpdateSyncStatus env k status ver hash e r))"
proof -
  have same: "device_update r r" by (simp add: device_update_def)
  note put = device_update_put [OF assms]
  note defs = UpdateAlias_def UpdateMAC_def UpdateGitHubStatus_def UpdateAgentVersion_def
    TouchLastSeen_def UpdateSyncStatus_def Let_def
  show "device_update r (fst (UpdateAlias env k alias r))"
    "device_update r (fst (UpdateGitHubStatus env k status key fp r))"
    "device_update r (fst (UpdateAgentVersion env k v r))"
    "device_update r (fst (TouchLastSeen env k r))"
    "device_update r (fst (UpdateSyncStatus env k status ver hash e r))"
    by (auto simp: defs same split: option.split intro!: put)
  show "device_update r (fst (UpdateMAC env k mac r))"
    by (auto simp: defs same split: option.split sum.split intro!: put)
qed

subsection \<open>Deletions, grants and transfers\<close>

lemma delete_owned_frame:
  "reg_devices (delete_owned k r) = gdel k (reg_devices r)"
  "lookup2 (reg_grants (delete_owned k r)) d u = (if d = k then None else lookup2 (reg_grants r) d u)"
  by (simp_all add: delete_owned_def)

lemma delete_owned_inv:
  "reg_inv r \<Longrightarrow> reg_inv (delete_owned k r)"
  "anchored r \<Longrightarrow> anchored (delete_owned k r)"
  by (auto simp: reg_inv_def delete_owned_def devices_ok_def anchored_def)

lemma fold_delete_inv:
  "reg_inv r \<Longrightarrow> reg_inv (fold delete_owned ks r)"
  "anchored r \<Longrightarrow> anchored (fold delete_owned ks r)"
  by (induction ks arbitrary: r) (simp_all add: delete_owned_inv)

lemma Delete_eq:
  "Delete env k r =
     (case gget (reg_devices r) k of
        None \<Rightarrow> (r, Some ErrNotFound)
      | Some old \<Rightarrow>
          if re_WriteOK env then (fst (writeLocked env (delete_owned k r)), None)
          else ((delete_owned k r)\<lparr>reg_devices := gput k old (gdel k (reg_devices r))\<rparr>, Some ErrWrite))"
proof (cases "writeLocked env (delete_owned k r)")
  case (Pair r1 e)
  then show ?thesis
    using writeLocked_cases [of env "delete_owned k r"] delete_owned_frame(1) [of k r]
    by (auto simp: Delete_def delete_owned_def split: option.split)
qed

lemma Delete_inv:
  assumes "reg_inv r"
  shows "reg_inv (fst (Delete env k r))" and "anchored r \<Longrightarrow> anchored (fst (Delete env k r))"
proof -
  have "reg_inv (delete_owned k r)" using assms by (rule delete_owned_inv)
  then show "reg_inv (fst (Delete env k r))"
    using assms by (auto simp: Delete_eq reg_inv_def devices_ok_def split: option.split)
  show "anchored (fst (Delete env k r))" if "anchored r"
    using delete_owned_inv(2) [OF that, of k] that
    by (auto simp: Delete_eq anchored_def delete_owned_frame split: option.split)
qed

lemma DeleteDevicesByOwner_inv:
  assumes "reg_inv r"
  shows "reg_inv (fst (DeleteDevicesByOwner env u r))"
    and "anchored r \<Longrightarrow> anchored (fst (DeleteDevicesByOwner env u r))"
  using fold_delete_inv assms
  by (auto simp: DeleteDevicesByOwner_def Let_def reg_inv_def case_prod_beta
      split: option.split simp flip: fst_def)

lemma SetGrant_eq:
  "SetGrant env k u level by r =
     (if \<not> IsValidGrantLevel level then (r, Inl ErrInvalidGrantLevel)
      else case gget (reg_devices r) k of
        None \<Rightarrow> (r, Inl ErrNotFound)
      | Some d \<Rightarrow>
          if d_OwnerUserID d = u then (r, Inl ErrGrantToOwner)
          else
            (let (g, r1) = (case lookup2 (reg_grants r) k u of
                   Some p \<Rightarrow> (let g = (reg_heap r p)\<lparr>g_Level := level, g_GrantedBy := by,
                       g_UpdatedAt := re_Now env, g_Revision := g_Revision (reg_heap r p) + 1\<rparr> in
                     (g, r\<lparr>reg_heap := (reg_heap r)(p := g)\<rparr>))
                 | None \<Rightarrow> (let g = \<lparr>g_ID = re_GrantID env, g_DeviceID = k, g_UserID = u,
                       g_Level = level, g_GrantedBy = by, g_CreatedAt = re_Now env,
                       g_UpdatedAt = re_Now env, g_Revision = 1\<rparr> in (g, addGrantIndexLocked g r))) in
             (fst (writeLocked env r1), if re_WriteOK env then Inr g else Inl ErrWrite)))"
  by (auto simp: SetGrant_def Let_def case_prod_beta prod_eq_iff writeLocked_cases split: option.splits)

lemma index_ok_heap:
  assumes "index_ok r" and "lookup2 (reg_grants r) k u = Some p"
    and "g_DeviceID g = k" and "g_UserID g = u"
  shows "index_ok (r\<lparr>reg_heap := (reg_heap r)(p := g)\<rparr>)"
proof -
  note at = index_at [OF assms(1)]
  have "g_DeviceID (((reg_heap r)(p := g)) p') = d \<and> g_UserID (((reg_heap r)(p := g)) p') = u'"
    if "lookup2 (reg_grants r) d u' = Some p'" for d u' p'
    using at [OF that] at [OF assms(2)] assms(3,4) by (cases "p' = p") auto
  with at assms(1) show ?thesis unfolding index_ok_def by simp
qed

lemma SetGrant_inv:
  assumes "reg_inv r"
  shows "reg_inv (fst (SetGrant env k u level by r))"
    and "anchored r \<Longrightarrow> anchored (fst (SetGrant env k u level by r))"
proof -
  have ok: "index_ok r" "devices_ok r" using assms by (simp_all add: reg_inv_def)
  show "reg_inv (fst (SetGrant env k u level by r))"
  proof (cases "lookup2 (reg_grants r) k u")
    case None
    with ok show ?thesis
      by (auto simp: SetGrant_eq Let_def reg_inv_def devices_ok_def split: option.split)
  next
    case (Some p)
    have "g_DeviceID (reg_heap r p) = k" "g_UserID (reg_heap r p) = u"
      using ok(1) Some by (auto simp: index_ok_def)
    with Some ok show ?thesis
      by (auto simp: SetGrant_eq Let_def reg_inv_def devices_ok_def intro!: index_ok_heap [OF ok(1) Some]
          split: option.split)
  qed
  show "anchored (fst (SetGrant env k u level by r))" if "anchored r"
    using that by (auto simp: SetGrant_eq Let_def anchored_def split: option.split)
qed

lemma RevokeGrant_inv:
  assumes "reg_inv r"
  shows "reg_inv (fst (RevokeGrant env k u r))"
    and "anchored r \<Longrightarrow> anchored (fst (RevokeGrant env k u r))"
  using assms by (auto simp: RevokeGrant_def reg_inv_def devices_ok_def anchored_def)

text \<open>The registry just before \<open>TransferOwnership\<close> writes.\<close>

definition transferred ::
  "reg_env \<Rightarrow> string \<Rightarrow> Device \<Rightarrow> string \<Rightarrow> string \<Rightarrow> GrantLevel option \<Rightarrow> Registry \<Rightarrow> Registry" where
  "transferred env k d new by retain r =
     (let r1 = unlink_grant k new (r\<lparr>reg_devices := gput k (d\<lparr>d_OwnerUserID := new, d_UpdatedAt := re_Now env\<rparr>)
            (reg_devices r)\<rparr>) in
      if (case retain of Some level \<Rightarrow> IsValidGrantLevel level | None \<Rightarrow> False) \<and> d_OwnerUserID d \<noteq> []
         \<and> d_OwnerUserID d \<noteq> new
      then addGrantIndexLocked \<lparr>g_ID = re_GrantID env, g_DeviceID = k, g_UserID = d_OwnerUserID d,
             g_Level = the retain, g_GrantedBy = by, g_CreatedAt = re_Now env,
             g_UpdatedAt = re_Now env, g_Revision = 1\<rparr> r1
      else if d_OwnerUserID d \<noteq> [] then unlink_grant k (d_OwnerUserID d) r1
      else r1)"

lemma TransferOwnership_eq:
  "TransferOwnership env k new by retain r =
     (case gget (reg_devices r) k of
        None \<Rightarrow> (r, Some ErrNotFound)
      | Some d \<Rightarrow> writeLocked env (transferred env k d new by retain r))"
  by (simp add: TransferOwnership_def transferred_def Let_def split: option.split)

lemma TransferOwnership_inv:
  assumes "reg_inv r"
  shows "reg_inv (fst (TransferOwnership env k new by retain r))"
    and "anchored r \<Longrightarrow> anchored (fst (TransferOwnership env k new by retain r))"
  using assms
  by (auto simp: TransferOwnership_eq transferred_def Let_def reg_inv_def devices_ok_def anchored_def
      intro!: index_ok_add index_ok_unlink split: option.split)

lemma SetDefaultOwnerID_inv:
  assumes "reg_inv r"
  shows "reg_inv (SetDefaultOwnerID env u r)"
    and "anchored r \<Longrightarrow> anchored (SetDefaultOwnerID env u r)"
proof -
  let ?f = "\<lambda>d. if d_OwnerUserID d = [] then d\<lparr>d_OwnerUserID := trim_space u\<rparr> else d"
  have get: "gget (map (\<lambda>(k, d). (k, ?f d)) m) k = map_option ?f (gget m k)" for m k
    by (rule gget_map_vals)
  have keys: "wf_map m \<Longrightarrow> wf_map (map (\<lambda>(k, d). (k, ?f d)) m)" for m
    by (rule wf_map_vals [THEN iffD2])
  have same: "index_ok (r\<lparr>reg_defaultOwnerID := x\<rparr>) = index_ok r" for x
    by (rule index_ok_same) (simp add: same_grants_def)
  let ?r1 = "r\<lparr>reg_defaultOwnerID := trim_space u\<rparr>"
  let ?r2 = "?r1\<lparr>reg_devices := map (\<lambda>(k, d). (k, ?f d)) (reg_devices r)\<rparr>"
  have shape: "SetDefaultOwnerID env u r = ?r1 \<or> SetDefaultOwnerID env u r = fst (writeLocked env ?r2)"
    by (simp add: SetDefaultOwnerID_def Let_def)
  have "wf_map (reg_devices ?r2)" using assms by (simp add: reg_inv_def devices_ok_def keys)
  then have "reg_inv ?r1" "reg_inv ?r2"
    using assms by (auto simp: reg_inv_def devices_ok_def same get)
  with shape show "reg_inv (SetDefaultOwnerID env u r)"
    by (elim disjE) (simp_all add: reg_inv_def)
  show "anchored (SetDefaultOwnerID env u r)" if "anchored r"
  proof -
    have "anchored ?r1" "anchored ?r2" using that by (simp_all add: anchored_def get)
    with shape show ?thesis by (elim disjE) simp_all
  qed
qed

definition keeps_inv :: "Registry \<Rightarrow> Registry \<Rightarrow> bool" where
  "keeps_inv r r' \<longleftrightarrow> reg_inv r' \<and> (anchored r \<longrightarrow> anchored r')"

lemma keeps_inv_update:
  assumes "reg_inv r" and "devices_ok r \<Longrightarrow> device_update r r'"
  shows "keeps_inv r r'"
proof -
  have "devices_ok r" using assms(1) by (simp add: reg_inv_def)
  note upd = device_update_inv [OF assms(2) [OF this] this]
  then have same: "same_grants r r'" and dev: "devices_ok r'"
    and kept: "\<And>k. gget (reg_devices r) k \<noteq> None \<Longrightarrow> gget (reg_devices r') k \<noteq> None" by blast+
  have "index_ok r'" using index_ok_same [OF same] assms(1) by (simp add: reg_inv_def)
  moreover have "anchored r'" if "anchored r"
    unfolding anchored_def
  proof (intro allI impI)
    fix d u assume "lookup2 (reg_grants r') d u \<noteq> None"
    then have "lookup2 (reg_grants r) d u \<noteq> None" using same by (simp add: same_grants_def)
    with that have "gget (reg_devices r) d \<noteq> None" unfolding anchored_def by blast
    then show "gget (reg_devices r') d \<noteq> None" by (rule kept)
  qed
  ultimately show ?thesis using dev by (simp add: keeps_inv_def reg_inv_def)
qed

lemma keeps_inv_ops:
  assumes "reg_inv r"
  shows "keeps_inv r (fst (SaveWithSSHPortReport env d report r))"
    and "keeps_inv r (fst (UpdateDeviceWithSSHPort env k alias mac gh port r))"
    and "keeps_inv r (fst (UpdateAlias env k al r))"
    and "keeps_inv r (fst (UpdateMAC env k m r))"
    and "keeps_inv r (fst (UpdateGitHubStatus env k status key fp r))"
    and "keeps_inv r (fst (UpdateAgentVersion env k v r))"
    and "keeps_inv r (fst (TouchLastSeen env k r))"
    and "keeps_inv r (fst (UpdateSyncStatus env k st ver hash e r))"
  by (rule keeps_inv_update [OF assms]; rule update_SaveWithSSHPortReport update_UpdateDevice update_others;
      assumption)+

lemma keeps_inv_grant_ops:
  assumes "reg_inv r"
  shows "keeps_inv r (fst (Delete env k r))"
    and "keeps_inv r (fst (DeleteDevicesByOwner env u r))"
    and "keeps_inv r (fst (SetGrant env k u level by r))"
    and "keeps_inv r (fst (RevokeGrant env k u r))"
    and "keeps_inv r (fst (TransferOwnership env k new by retain r))"
    and "keeps_inv r (SetDefaultOwnerID env u r)"
  unfolding keeps_inv_def
  by (rule conjI impI Delete_inv DeleteDevicesByOwner_inv SetGrant_inv RevokeGrant_inv TransferOwnership_inv
      SetDefaultOwnerID_inv assms | assumption)+

lemma keeps_inv_plain:
  assumes "reg_inv r"
  shows "keeps_inv r (SetLegacyJoinToken t r)" and "keeps_inv r (ApplyCommittedDevice d r)"
proof -
  have "same_grants r (SetLegacyJoinToken t r)" by (simp add: SetLegacyJoinToken_def same_grants_def)
  with assms show "keeps_inv r (SetLegacyJoinToken t r)"
    by (simp add: keeps_inv_def reg_inv_def index_ok_same SetLegacyJoinToken_def devices_ok_def anchored_def)
  show "keeps_inv r (ApplyCommittedDevice d r)"
    using assms by (auto simp: ApplyCommittedDevice_def keeps_inv_def reg_inv_def devices_ok_put anchored_def)
qed

lemma reg_apply_inv [inv_intros]: "reg_inv r \<Longrightarrow> keeps_inv r (reg_apply env oper r)"
  by (cases oper; simp only: reg_apply.simps; rule keeps_inv_ops keeps_inv_grant_ops keeps_inv_plain; assumption)

lemma reachable_inv:
  "reg_reachable r0 r \<Longrightarrow> reg_inv r0 \<Longrightarrow> reg_inv r \<and> (anchored r0 \<longrightarrow> anchored r)"
proof (induction rule: reg_reachable.induct)
  case (step r r')
  then obtain env oper where "r' = reg_apply env oper r" by (auto elim: reg_stepE)
  with step reg_apply_inv [of r env oper] show ?case by (auto simp: keeps_inv_def)
qed simp

subsection \<open>Opening\<close>

lemma index_ok_empty [simp]: "index_ok (empty_registry f)"
  by (simp add: index_ok_def empty_registry_def)

lemma reg_inv_put:
  "reg_inv r \<Longrightarrow> d_ID d = k \<Longrightarrow> reg_inv (r\<lparr>reg_devices := gput k d (reg_devices r)\<rparr>)"
  by (simp add: reg_inv_def devices_ok_put)

lemma load_devices_inv:
  "load_devices ds r = Inr r' \<Longrightarrow> reg_inv r \<Longrightarrow> reg_inv r'"
proof (induction ds arbitrary: r)
  case (Cons d ds)
  then obtain d1 where d1: "NormalizeSSHPorts d = Inr d1" by (auto split: sum.splits)
  let ?d = "d1\<lparr>d_Addresses := FilterAndSortAddresses (d_Addresses d1)\<rparr>"
  have "reg_inv (r\<lparr>reg_devices := gput (d_ID d1) ?d (reg_devices r)\<rparr>)"
    using Cons.prems(2) by (rule reg_inv_put) simp
  with Cons.IH Cons.prems(1) d1 show ?case by (simp add: Let_def)
qed simp

lemma add_inv: "reg_inv r \<Longrightarrow> reg_inv (addGrantIndexLocked g r)"
  using devices_ok_cong [of "addGrantIndexLocked g r" r] by (simp add: reg_inv_def index_ok_add)

lemma fold_add_inv: "reg_inv r \<Longrightarrow> reg_inv (fold addGrantIndexLocked gs r)"
  by (induction gs arbitrary: r) (simp_all add: add_inv)

lemma Open_inv: "Open file = Inr r \<Longrightarrow> reg_inv r"
proof -
  assume o: "Open file = Inr r"
  have "reg_inv (empty_registry f)" for f
    by (simp add: reg_inv_def devices_ok_def) (simp add: empty_registry_def)
  with o show ?thesis
    by (auto simp: Open_def dest: load_devices_inv intro: fold_add_inv split: option.splits sum.splits)
qed

lemma Open_None: "Open None = Inr (empty_registry None)"
  by (simp add: Open_def)


section \<open>The contracts the registry provides\<close>

interpretation registry_scope: device_scope "registry_scope r" for r
proof unfold_locales
  fix u d e
  assume "IsDeviceVisible (registry_scope r) u d = (True, e)"
  then show e by (auto simp: registry_scope_def reg_IsDeviceVisible_def split: option.splits)
next
  fix u d
  assume "IsDeviceOwner (registry_scope r) u d"
  then show "IsDeviceVisible (registry_scope r) u d = (True, True)"
    by (auto simp: registry_scope_def reg_IsDeviceVisible_def reg_IsDeviceOwner_def split: option.splits)
next
  fix u d p
  assume "HasDevicePermission (registry_scope r) u d p"
  then show "IsDeviceVisible (registry_scope r) u d = (True, True)"
    by (auto simp: registry_scope_def reg_IsDeviceVisible_def reg_HasDevicePermission_def hasUserGrant_iff
        split: option.splits if_splits)
next
  fix u u' d
  show "snd (IsDeviceVisible (registry_scope r) u d) = snd (IsDeviceVisible (registry_scope r) u' d)"
    by (simp add: registry_scope_def reg_IsDeviceVisible_def split: option.split)
qed

interpretation device_order: weak_order device_before
  by unfold_locales (auto simp: device_before_def split: if_splits)

interpretation grant_order: weak_order grant_before
  by unfold_locales (auto simp: grant_before_def split: if_splits)

section \<open>Grants as the users see them\<close>

lemma inner_vals:
  assumes "inner_wf mm"
  shows "p \<in> set (case gget mm k of None \<Rightarrow> [] | Some m \<Rightarrow> gvals m) \<longleftrightarrow> (\<exists>j. lookup2 mm k j = Some p)"
proof (cases "gget mm k")
  case (Some m)
  then have "wf_map m" using assms by (auto simp: inner_wf_def)
  with Some show ?thesis using in_vals_gget [of m p] gget_in_vals [of m _ p] by (auto simp: lookup2_def)
qed (simp add: lookup2_def)

lemma set_ListGrants:
  assumes "index_ok r"
  shows "g \<in> set (ListGrants d r) \<longleftrightarrow> (\<exists>p. lookup2 (reg_grants r) d (g_UserID g) = Some p \<and> reg_heap r p = g)"
proof -
  have "g \<in> set (ListGrants d r)
      \<longleftrightarrow> (\<exists>p \<in> set (case gget (reg_grants r) d of None \<Rightarrow> [] | Some m \<Rightarrow> gvals m). reg_heap r p = g)"
    by (auto simp: ListGrants_def split: option.split)
  also have "\<dots> \<longleftrightarrow> (\<exists>u p. lookup2 (reg_grants r) d u = Some p \<and> reg_heap r p = g)"
    using inner_vals [of "reg_grants r"] assms unfolding index_ok_def by blast
  also have "\<dots> \<longleftrightarrow> (\<exists>p. lookup2 (reg_grants r) d (g_UserID g) = Some p \<and> reg_heap r p = g)"
    using assms unfolding index_ok_def by blast
  finally show ?thesis .
qed

lemma set_GetUserGrants:
  assumes "index_ok r"
  shows "g \<in> set (GetUserGrants u r) \<longleftrightarrow> (\<exists>p. lookup2 (reg_grants r) (g_DeviceID g) u = Some p \<and> reg_heap r p = g)"
proof -
  have "g \<in> set (GetUserGrants u r)
      \<longleftrightarrow> (\<exists>p \<in> set (case gget (reg_userGrants r) u of None \<Rightarrow> [] | Some m \<Rightarrow> gvals m). reg_heap r p = g)"
    by (auto simp: GetUserGrants_def split: option.split)
  also have "\<dots> \<longleftrightarrow> (\<exists>d p. lookup2 (reg_userGrants r) u d = Some p \<and> reg_heap r p = g)"
    using inner_vals [of "reg_userGrants r"] assms unfolding index_ok_def by blast
  also have "\<dots> \<longleftrightarrow> (\<exists>p. lookup2 (reg_grants r) (g_DeviceID g) u = Some p \<and> reg_heap r p = g)"
    using assms unfolding index_ok_def by metis
  finally show ?thesis .
qed


lemma permission_by_grants:
  assumes "index_ok r" and "gget (reg_devices r) k = Some d"
  shows "reg_HasDevicePermission r u k p \<longleftrightarrow>
    d_OwnerUserID d = u \<or> (\<exists>g \<in> set (ListGrants k r). g_UserID g = u \<and> level_allows (g_Level g) p)"
proof -
  have "(\<exists>g \<in> set (ListGrants k r). g_UserID g = u \<and> level_allows (g_Level g) p)
      \<longleftrightarrow> (\<exists>q. lookup2 (reg_grants r) k u = Some q \<and> level_allows (g_Level (reg_heap r q)) p)"
  proof
    assume "\<exists>q. lookup2 (reg_grants r) k u = Some q \<and> level_allows (g_Level (reg_heap r q)) p"
    then obtain q where q: "lookup2 (reg_grants r) k u = Some q" "level_allows (g_Level (reg_heap r q)) p"
      by blast
    then have "g_UserID (reg_heap r q) = u" using assms(1) unfolding index_ok_def by blast
    with q show "\<exists>g \<in> set (ListGrants k r). g_UserID g = u \<and> level_allows (g_Level g) p"
      using set_ListGrants [OF assms(1), of "reg_heap r q" k] by blast
  qed (auto simp: set_ListGrants [OF assms(1)])
  with assms(2) show ?thesis by (auto simp: reg_HasDevicePermission_def split: option.split)
qed

lemma level_allows_mono: "l \<le> l' \<Longrightarrow> IsValidGrantLevel l \<Longrightarrow> level_allows l p \<Longrightarrow> level_allows l' p"
  by (cases l; cases l') (auto simp: level_allows_def level_order IsValidGrantLevel_def split: if_splits)

section \<open>Samples\<close>

definition sample_reg_env :: reg_env where
  "sample_reg_env = \<lparr>re_Now = 100, re_GrantID = ''grant_1'', re_WriteOK = True\<rparr>"

definition sample_reg :: Registry where
  "sample_reg = ApplyCommittedDevice sample_device (empty_registry None)"

definition shared_reg :: Registry where
  "shared_reg = fst (SetGrant sample_reg_env ''nas-1'' ''u2'' GrantLevelOperate ''u1'' sample_reg)"

lemma sample_reg_facts [simp]:
  "reg_devices sample_reg = [(''nas-1'', sample_device)]" "reg_grants sample_reg = []"
  "reg_userGrants sample_reg = []" "reg_next sample_reg = 0" "reg_controlPlane sample_reg = None"
  by (simp_all add: sample_reg_def ApplyCommittedDevice_def empty_registry_def)

lemma sample_env_facts [simp]:
  "re_Now sample_reg_env = 100" "re_GrantID sample_reg_env = ''grant_1''" "re_WriteOK sample_reg_env"
  by (simp_all add: sample_reg_env_def)

lemma sample_reg_reachable: "reg_reachable (empty_registry None) sample_reg"
proof -
  have "reg_step (empty_registry None) sample_reg"
    unfolding sample_reg_def reg_step_iff
    by (intro exI [of _ sample_reg_env] exI [of _ "OpCommitted sample_device"]) simp
  then show ?thesis by (rule reg_reachable.step [OF reg_reachable.start])
qed

lemma shared_reg_reachable: "reg_reachable (empty_registry None) shared_reg"
proof -
  have "reg_step sample_reg shared_reg"
    unfolding shared_reg_def reg_step_iff
    by (intro exI [of _ sample_reg_env] exI [of _ "OpSetGrant ''nas-1'' ''u2'' GrantLevelOperate ''u1''"]) simp
  then show ?thesis by (rule reg_reachable.step [OF sample_reg_reachable])
qed

lemma shared_reg_facts [simp]:
  "reg_devices shared_reg = [(''nas-1'', sample_device)]"
  "lookup2 (reg_grants shared_reg) d u = (if d = ''nas-1'' \<and> u = ''u2'' then Some 0 else None)"
  "g_UserID (reg_heap shared_reg 0) = ''u2''" "g_DeviceID (reg_heap shared_reg 0) = ''nas-1''"
  "g_Level (reg_heap shared_reg 0) = GrantLevelOperate"
  by (simp_all add: shared_reg_def SetGrant_eq IsValidGrantLevel_def Let_def)

lemma reg_inv_samples [simp]: "reg_inv sample_reg" "reg_inv shared_reg"
proof -
  have "reg_inv (empty_registry None)" using Open_inv Open_None by blast
  with reachable_inv [OF sample_reg_reachable] reachable_inv [OF shared_reg_reachable]
  show "reg_inv sample_reg" "reg_inv shared_reg" by blast+
qed

section \<open>Properties\<close>

text \<open>
  C7: after any operations on an opened registry, whatever writes failed, the grants of a device
  and the grants of a user are two views of the same records: a grant is listed for its device
  exactly if it is listed for its user, and every listed grant names the device and the user it is
  listed for.
\<close>

theorem grant_views_agree:
  assumes "Open file = Inr r0" and "reg_reachable r0 r"
  shows "(g \<in> set (ListGrants d r) \<and> g_UserID g = u \<longleftrightarrow> g \<in> set (GetUserGrants u r) \<and> g_DeviceID g = d)
    \<and> (g \<in> set (ListGrants d r) \<longrightarrow> g_DeviceID g = d) \<and> (g \<in> set (GetUserGrants u r) \<longrightarrow> g_UserID g = u)"
proof -
  have ok: "index_ok r" using reachable_inv [OF assms(2) Open_inv [OF assms(1)]] by (simp add: reg_inv_def)
  show ?thesis
    by (auto simp: set_ListGrants [OF ok] set_GetUserGrants [OF ok] dest: index_at [OF ok])
qed

theorem grant_views_agree_witness:
  "\<exists>g. g \<in> set (ListGrants ''nas-1'' shared_reg) \<and> g \<in> set (GetUserGrants ''u2'' shared_reg)"
proof -
  let ?g = "reg_heap shared_reg 0"
  have ok: "index_ok shared_reg" using reg_inv_samples by (simp add: reg_inv_def)
  have "?g \<in> set (ListGrants ''nas-1'' shared_reg)" by (simp add: set_ListGrants [OF ok])
  then show ?thesis using grant_views_agree [OF Open_None shared_reg_reachable, of ?g "''nas-1''" "''u2''"] by auto
qed



text \<open>
  a transfer gives the new owner every permission on the device, leaves the old owner exactly
  the level that was retained and nothing without one, and changes no other user's permissions and
  no other device. It does so in memory even when the write fails.
\<close>

theorem transfer_permissions:
  assumes "reg_inv r" and "gget (reg_devices r) k = Some d" and "u \<noteq> []"
    and r': "r' = fst (TransferOwnership env k new by retain r)"
  shows "reg_HasDevicePermission r' u k' p \<longleftrightarrow>
    (if k' \<noteq> k then reg_HasDevicePermission r u k' p
     else if u = new then True
     else if u = d_OwnerUserID d
       then (case retain of Some level \<Rightarrow> IsValidGrantLevel level \<and> level_allows level p | None \<Rightarrow> False)
     else reg_HasDevicePermission r u k p)"
proof -
  have fresh: "lookup2 (reg_grants r) k' u = Some q \<Longrightarrow> q \<noteq> reg_next r" for q
    using index_at [of r k' u q] assms(1) by (auto simp: reg_inv_def)
  have "reg_devices r' = gput k (d\<lparr>d_OwnerUserID := new, d_UpdatedAt := re_Now env\<rparr>) (reg_devices r)"
    by (simp add: r' TransferOwnership_eq transferred_def Let_def assms(2))
  moreover have "reg_heap r' q = reg_heap r q" if "q \<noteq> reg_next r" for q
    using that by (simp add: r' TransferOwnership_eq transferred_def Let_def assms(2))
  moreover have "lookup2 (reg_grants r') k' u = lookup2 (reg_grants r) k' u"
    if "k' \<noteq> k \<or> (u \<noteq> new \<and> u \<noteq> d_OwnerUserID d)"
    using that by (auto simp: r' TransferOwnership_eq transferred_def Let_def assms(2))
  moreover have "lookup2 (reg_grants r') k (d_OwnerUserID d) =
      (if (case retain of Some level \<Rightarrow> IsValidGrantLevel level | None \<Rightarrow> False) then Some (reg_next r) else None)
    \<and> ((case retain of Some level \<Rightarrow> IsValidGrantLevel level | None \<Rightarrow> False) \<longrightarrow>
        g_Level (reg_heap r' (reg_next r)) = the retain)"
    if "u = d_OwnerUserID d" "u \<noteq> new"
    using that assms(3) by (simp add: r' TransferOwnership_eq transferred_def Let_def assms(2))
  ultimately show ?thesis
    using assms(2) fresh
    by (cases "k' = k") (auto simp: reg_HasDevicePermission_def split: option.splits)
qed

theorem transfer_permissions_witness:
  "\<not> reg_HasDevicePermission
     (fst (TransferOwnership sample_reg_env ''nas-1'' ''u2'' ''u1'' None shared_reg)) ''u1'' ''nas-1'' PermDevicesRead"
  using transfer_permissions [OF reg_inv_samples(2) _ _ refl, of "''nas-1''" sample_device "''u1''"
      sample_reg_env "''u2''" "''u1''" None "''nas-1''" PermDevicesRead] by simp

text \<open>
  a grant gives one user the operations of its level on one device, and replaces the level
  the user had; it is refused to the owner and for unknown devices and levels, and changes nothing
  for any other user or device.
\<close>

theorem grant_permissions:
  assumes "reg_inv r" and r': "r' = fst (SetGrant env k u level by r)"
  shows "reg_HasDevicePermission r' u' k' p \<longleftrightarrow>
    (if u' = u \<and> k' = k \<and> IsValidGrantLevel level \<and> gget (reg_devices r) k \<noteq> None
        \<and> \<not> reg_IsDeviceOwner r u k
     then level_allows level p else reg_HasDevicePermission r u' k' p)"
proof (cases "IsValidGrantLevel level \<and> (\<exists>d. gget (reg_devices r) k = Some d \<and> d_OwnerUserID d \<noteq> u)")
  case False
  then have "r' = r" by (auto simp: r' SetGrant_eq split: option.split)
  with False show ?thesis by (auto simp: reg_IsDeviceOwner_def)
next
  case True
  then obtain d where d: "IsValidGrantLevel level" "gget (reg_devices r) k = Some d" "d_OwnerUserID d \<noteq> u"
    by blast
  define q where "q = (case lookup2 (reg_grants r) k u of Some p \<Rightarrow> p | None \<Rightarrow> reg_next r)"
  have dev: "reg_devices r' = reg_devices r"
    and grants: "lookup2 (reg_grants r') k' u' = (if k' = k \<and> u' = u then Some q else lookup2 (reg_grants r) k' u')"
    and lev: "g_Level (reg_heap r' q) = level"
    and heap: "\<And>q'. q' \<noteq> q \<Longrightarrow> reg_heap r' q' = reg_heap r q'"
    using d by (auto simp: r' SetGrant_eq Let_def q_def split: option.split)
  have "q' \<noteq> q" if "lookup2 (reg_grants r) k' u' = Some q'" "\<not> (k' = k \<and> u' = u)" for q'
  proof
    assume "q' = q"
    have "index_ok r" using assms(1) by (simp add: reg_inv_def)
    note ix = index_at [OF this]
    show False using ix [OF that(1)] ix [of k u q] that(2) \<open>q' = q\<close>
      by (auto simp: q_def split: option.splits)
  qed
  with dev grants lev heap d show ?thesis
    by (auto simp: reg_HasDevicePermission_def reg_IsDeviceOwner_def split: option.split)
qed

theorem grant_permissions_witness:
  "reg_HasDevicePermission shared_reg ''u2'' ''nas-1'' PermDevicesWake
   \<and> \<not> reg_HasDevicePermission shared_reg ''u2'' ''nas-1'' PermDevicesUpdate
   \<and> \<not> reg_HasDevicePermission shared_reg ''u3'' ''nas-1'' PermDevicesRead"
proof -
  note g = grant_permissions [OF reg_inv_samples(1) shared_reg_def]
  show ?thesis
    by (simp add: g reg_IsDeviceOwner_def IsValidGrantLevel_def level_allows_def)
      (simp add: reg_HasDevicePermission_def)
qed

text \<open>
  C4: the authorizer's answer for a device, composed with the registry: an actor with a role
  that has the permission is let through exactly if it is a system owner and the device exists, or
  the owner of the device, or, for all operations but deleting and sharing it, a user with a grant
  whose level covers the operation.
\<close>

theorem device_authorization:
  assumes "reg_inv r" and "res_Kind (req_Resource q) = ResourceKindDevice"
    and "a = req_Actor q" and "p = req_Permission q" and "k = res_ID (req_Resource q)"
  shows "dec_Allowed (Authorize (Some (registry_scope r)) q) \<longleftrightarrow>
    act_UserID a \<noteq> [] \<and> IsValidRole (act_Role a) \<and> k \<noteq> [] \<and> RoleHasPermission (act_Role a) p
    \<and> (case gget (reg_devices r) k of
         None \<Rightarrow> False
       | Some d \<Rightarrow> act_Role a = RoleOwner \<or> d_OwnerUserID d = act_UserID a
           \<or> (p \<noteq> PermDevicesDelete \<and> p \<noteq> PermDevicesShare
              \<and> (\<exists>g \<in> set (ListGrants k r). g_UserID g = act_UserID a \<and> level_allows (g_Level g) p)))"
proof (cases "gget (reg_devices r) k")
  case None
  then have "\<not> registry_scope.may_use r a p k"
    unfolding registry_scope.may_use_def
    by (simp add: registry_scope_def reg_IsDeviceVisible_def reg_IsDeviceOwner_def
        reg_HasDevicePermission_def)
  with None assms(3-5) show ?thesis
    using registry_scope.allowed_device_iff [OF assms(2), of r] by simp
next
  case (Some d)
  have "index_ok r" using assms(1) by (simp add: reg_inv_def)
  from permission_by_grants [OF this Some] Some
  have "registry_scope.may_use r a p k \<longleftrightarrow> act_Role a = RoleOwner \<or> d_OwnerUserID d = act_UserID a
     \<or> (p \<noteq> PermDevicesDelete \<and> p \<noteq> PermDevicesShare
        \<and> (\<exists>g \<in> set (ListGrants k r). g_UserID g = act_UserID a \<and> level_allows (g_Level g) p))"
    unfolding registry_scope.may_use_def
    by (auto simp: registry_scope_def reg_IsDeviceVisible_def reg_IsDeviceOwner_def)
  with Some assms(3-5) show ?thesis
    using registry_scope.allowed_device_iff [OF assms(2), of r] by simp
qed

theorem device_authorization_witness:
  "\<not> dec_Allowed (Authorize (Some (registry_scope shared_reg))
     \<lparr>req_Actor = \<lparr>act_UserID = ''u2'', act_Username = ''bob'', act_Role = RoleAdmin\<rparr>,
      req_Permission = PermDevicesDelete, req_Resource = DeviceResource ''nas-1''\<rparr>)"
  by (subst device_authorization [OF reg_inv_samples(2) _ refl refl refl]) (simp_all add: DeviceResource_def)

text \<open>
  a device that is neither the user's nor shared with the user cannot be told apart from one
  that does not exist: every request about it gets the same answer as for an unknown identifier.
\<close>

theorem hidden_device_indistinguishable:
  assumes "act_Role a \<noteq> RoleOwner" and "k \<noteq> []" and "k' \<noteq> []"
    and "\<not> reg_IsDeviceOwner r (act_UserID a) k" and "\<not> hasUserGrantLocked (act_UserID a) k r"
    and "gget (reg_devices r) k' = None"
  shows "Authorize (Some (registry_scope r)) \<lparr>req_Actor = a, req_Permission = p, req_Resource = DeviceResource k\<rparr>
    = Authorize (Some (registry_scope r)) \<lparr>req_Actor = a, req_Permission = p, req_Resource = DeviceResource k'\<rparr>"
proof (cases "act_UserID a = [] \<or> \<not> IsValidRole (act_Role a)")
  case True
  then show ?thesis by (auto simp: Authorize_def Let_def)
next
  case False
  have "\<not> fst (IsDeviceVisible (registry_scope r) (act_UserID a) k)"
    and "\<not> fst (IsDeviceVisible (registry_scope r) (act_UserID a) k')"
    using assms(4-6)
    by (auto simp: registry_scope_def reg_IsDeviceVisible_def reg_IsDeviceOwner_def split: option.split)
  then have "Authorize (Some (registry_scope r)) \<lparr>req_Actor = a, req_Permission = p, req_Resource = DeviceResource x\<rparr>
      = deny 404 ''resource_not_found'' ''device_not_found_or_unauthorized''" if "x \<in> {k, k'}" for x
    using that assms(1-3) False
    by (intro registry_scope.hidden_as_missing) (auto simp: DeviceResource_def)
  then show ?thesis by simp
qed

theorem hidden_device_indistinguishable_witness:
  "Authorize (Some (registry_scope shared_reg))
     \<lparr>req_Actor = \<lparr>act_UserID = ''u3'', act_Username = ''eve'', act_Role = RoleViewer\<rparr>,
      req_Permission = PermDevicesRead, req_Resource = DeviceResource ''nas-1''\<rparr>
   = Authorize (Some (registry_scope shared_reg))
     \<lparr>req_Actor = \<lparr>act_UserID = ''u3'', act_Username = ''eve'', act_Role = RoleViewer\<rparr>,
      req_Permission = PermDevicesRead, req_Resource = DeviceResource ''nas-2''\<rparr>"
  by (rule hidden_device_indistinguishable) (simp_all add: reg_IsDeviceOwner_def hasUserGrant_iff)

text \<open>
  the list a user gets has exactly the devices the authorizer lets the user see, newest
  first, and all of them for a system owner.
\<close>

theorem device_list_in_scope:
  assumes "reg_inv r"
  shows "(d \<in> set (FilterDevicesForUser u all r) \<longleftrightarrow>
      Get (d_ID d) r = Inr d \<and> (all \<or> fst (reg_IsDeviceVisible r u (d_ID d))))
    \<and> distinct (map d_ID (FilterDevicesForUser u all r))
    \<and> sorted_wrt (\<lambda>x y. d_CreatedAt y \<le> d_CreatedAt x) (FilterDevicesForUser u all r)"
proof -
  let ?vis = "\<lambda>d. all \<or> d_OwnerUserID d = u \<or> hasUserGrantLocked u (d_ID d) r"
  have wf: "wf_map (reg_devices r)" and ids: "\<And>k d. gget (reg_devices r) k = Some d \<Longrightarrow> d_ID d = k"
    using assms by (auto simp: reg_inv_def devices_ok_def)
  have vals: "d \<in> set (gvals (reg_devices r)) \<longleftrightarrow> gget (reg_devices r) (d_ID d) = Some d" for d
    using in_vals_gget [OF wf, of d] gget_in_vals [of "reg_devices r" _ d] ids by blast
  have "map d_ID (gvals (reg_devices r)) = gkeys (reg_devices r)"
    using ids wf by (auto simp: gget_iff_in_set [OF wf, symmetric] intro!: map_cong [OF refl, simplified])
  with wf have "distinct (map d_ID (gvals (reg_devices r)))" by (simp only: wf_map_def)
  then have "distinct (map d_ID (filter ?vis (gvals (reg_devices r))))" by (rule distinct_map_filter)
  moreover have "mset (map d_ID (FilterDevicesForUser u all r))
      = mset (map d_ID (filter ?vis (gvals (reg_devices r))))"
    by (simp add: FilterDevicesForUser_def)
  ultimately have "distinct (map d_ID (FilterDevicesForUser u all r))" by (metis mset_eq_imp_distinct_iff)
  moreover have "sorted_wrt (\<lambda>x y. d_CreatedAt y \<le> d_CreatedAt x) (FilterDevicesForUser u all r)"
    unfolding FilterDevicesForUser_def
    by (rule sorted_wrt_mono_rel [OF _ device_order.sorted_go_sort])
      (auto simp: device_before_def split: if_splits)
  moreover have "d \<in> set (FilterDevicesForUser u all r) \<longleftrightarrow> d \<in> set (gvals (reg_devices r)) \<and> ?vis d"
    by (simp add: FilterDevicesForUser_def del: set_map)
  moreover have "Get (d_ID d) r = Inr d \<and> (all \<or> fst (reg_IsDeviceVisible r u (d_ID d)))
      \<longleftrightarrow> gget (reg_devices r) (d_ID d) = Some d \<and> ?vis d"
    by (auto simp: Get_def reg_IsDeviceVisible_def split: option.split)
  ultimately show ?thesis unfolding vals by blast
qed

theorem device_list_in_scope_witness:
  "sample_device \<in> set (FilterDevicesForUser ''u2'' False shared_reg)
   \<and> sample_device \<notin> set (FilterDevicesForUser ''u3'' False shared_reg)"
  by (simp add: device_list_in_scope [OF reg_inv_samples(2), THEN conjunct1])
    (simp add: Get_def reg_IsDeviceVisible_def hasUserGrant_iff)

text \<open>
  an agent's token opens only the device it was issued for. For a device bound to a token the
  check passes for that token alone, whatever the legacy join token is; another device's token is
  told apart as a mismatch, and everything else is refused. The hypothesis on \<open>sha\<close> says that the
  presented token does not collide with the bound one.
\<close>

theorem agent_token_bound:
  assumes "gget (reg_devices r) k = Some d" and "k \<noteq> []" and "raw \<noteq> []" and "tok \<noteq> []"
    and "d_DeviceTokenHash d = HashToken sha tok" and "\<And>t. sha t \<noteq> []" and "sha raw = sha tok \<Longrightarrow> raw = tok"
  shows "(AuthorizeDevice sha raw k r = None \<longleftrightarrow> raw = tok)
    \<and> (AuthorizeDevice sha raw k r = Some ErrDeviceMismatch \<longleftrightarrow>
        raw \<noteq> tok \<and> (\<exists>k' d'. k' \<noteq> k \<and> (k', d') \<in> set (reg_devices r) \<and> d_DeviceTokenHash d' = sha raw))
    \<and> AuthorizeDevice sha raw k r \<in> {None, Some ErrDeviceMismatch, Some ErrDeviceUnauthorized}"
  using assms
proof -
  have matches: "x \<noteq> [] \<and> SecureCompareHash x (HashToken sha raw) \<longleftrightarrow> x = sha raw" for x
    using assms(3) assms(6) [of raw] by (auto simp: SecureCompareHash_def HashToken_def)
  have other: "list_ex (\<lambda>(otherID, otherDev). otherID \<noteq> k \<and> d_DeviceTokenHash otherDev \<noteq> []
        \<and> SecureCompareHash (d_DeviceTokenHash otherDev) (HashToken sha raw)) (reg_devices r)
      \<longleftrightarrow> (\<exists>k' d'. k' \<noteq> k \<and> (k', d') \<in> set (reg_devices r) \<and> d_DeviceTokenHash d' = sha raw)"
    unfolding list_ex_pairs matches by blast
  have bound: "d_DeviceTokenHash d \<noteq> []"
      "SecureCompareHash (d_DeviceTokenHash d) (HashToken sha raw) \<longleftrightarrow> raw = tok"
    using assms(3-7) by (auto simp: SecureCompareHash_def HashToken_def)
  show ?thesis
    unfolding AuthorizeDevice_def Let_def other using assms(1-3) bound by simp
qed

theorem agent_token_bound_witness:
  "AuthorizeDevice (\<lambda>t. CHR ''h'' # t) ''tok2'' ''nas-1''
     (ApplyCommittedDevice (sample_device\<lparr>d_DeviceTokenHash := ''htok1''\<rparr>) sample_reg) \<noteq> None"
proof -
  have "(AuthorizeDevice (\<lambda>t. CHR ''h'' # t) ''tok2'' ''nas-1''
     (ApplyCommittedDevice (sample_device\<lparr>d_DeviceTokenHash := ''htok1''\<rparr>) sample_reg) = None)
     \<longleftrightarrow> ''tok2'' = ''tok1''"
    by (rule agent_token_bound [where d = "sample_device\<lparr>d_DeviceTokenHash := ''htok1''\<rparr>", THEN conjunct1])
      (simp_all add: ApplyCommittedDevice_def HashToken_def)
  then show ?thesis by simp
qed

text \<open>
  saving a device is all or nothing and keeps what belongs to the registry: on any error the
  registry is as before; otherwise only this device changes, is stored under its identifier, keeps
  its first registration time, its manual SSH port and, when none is given, its owner and token,
  and its SSH port is in range.
\<close>

theorem save_device:
  assumes "(r', res) = SaveWithSSHPortReport env d report r"
  shows "(isl res \<longrightarrow> r' = r)
    \<and> (\<forall>d'. res = Inr d' \<longrightarrow>
        reg_devices r' = gput (d_ID d) d' (reg_devices r) \<and> d_ID d' = d_ID d
        \<and> 1 \<le> d_SSHPort d' \<and> d_SSHPort d' \<le> 65535
        \<and> (\<forall>old. gget (reg_devices r) (d_ID d) = Some old \<longrightarrow>
             d_CreatedAt d' = d_CreatedAt old \<and> d_SSHPortOverride d' = d_SSHPortOverride old
             \<and> (d_OwnerUserID d = [] \<longrightarrow> d_OwnerUserID d' = d_OwnerUserID old)
             \<and> (d_DeviceTokenHash d = [] \<longrightarrow> d_DeviceTokenHash d' = d_DeviceTokenHash old)))"
proof (cases "isl res")
  case True
  with assms show ?thesis
    by (auto simp: SaveWithSSHPortReport_def Let_def put_device_eq split: option.splits sum.splits if_splits)
next
  case False
  then obtain d' where d': "res = Inr d'" by (metis sum.collapse(2))
  with assms obtain d1 d2 where
      v: "normalize_mac d = Inr d1" and n: "NormalizeSSHPorts (set_ports (gget (reg_devices r) (d_ID d1)) report d1) = Inr d2"
    and sd: "d' = saved_device (re_Now env) (reg_defaultOwnerID r) (gget (reg_devices r) (d_ID d1)) d2"
    and r': "reg_devices r' = gput (d_ID d2) d' (reg_devices r)"
    by (auto simp: SaveWithSSHPortReport_def Let_def put_device_eq
        split: option.splits sum.splits if_splits)
  note fields = saved_device_fields [where now = "re_Now env" and ow = "reg_defaultOwnerID r"
      and e = "gget (reg_devices r) (d_ID d1)" and d = d2, folded sd]
  have d1: "d_ID d1 = d_ID d" "d_OwnerUserID d1 = d_OwnerUserID d" "d_DeviceTokenHash d1 = d_DeviceTokenHash d"
    using v by (auto simp: normalize_mac_def split: if_splits sum.splits)
  have sp: "d_ID (set_ports e report d1) = d_ID d1" "d_OwnerUserID (set_ports e report d1) = d_OwnerUserID d1"
      "d_DeviceTokenHash (set_ports e report d1) = d_DeviceTokenHash d1"
      "e = Some old \<Longrightarrow> d_SSHPortOverride (set_ports e report d1) = d_SSHPortOverride old" for e old
    by (auto simp: set_ports_def Let_def split: option.split)
  note k = NormalizeSSHPorts_keeps [OF n, unfolded sp d1] and ok = NormalizeSSHPorts_ok [OF n]
  show ?thesis
    using d' r' fields k ok d1 sp(4) by (auto simp: or_old_def)
qed

theorem save_device_witness:
  "fst (SaveWithSSHPortReport (sample_reg_env\<lparr>re_WriteOK := False\<rparr>) sample_device None sample_reg) = sample_reg"
proof -
  let ?x = "SaveWithSSHPortReport (sample_reg_env\<lparr>re_WriteOK := False\<rparr>) sample_device None sample_reg"
  have "isl (snd ?x)"
    by (auto simp: SaveWithSSHPortReport_def Let_def put_device_eq split: option.split sum.split)
  then show ?thesis using save_device [OF prod.collapse, of "sample_reg_env\<lparr>re_WriteOK := False\<rparr>"] by blast
qed

text \<open>
  \<open>Delete\<close> does not undo its cascade: when the write fails the device is put back, but its
  grants are gone from memory although the stored file still has them.
\<close>

theorem failed_delete_loses_grants:
  assumes "gget (reg_devices r) k = Some d" and "\<not> re_WriteOK env" and "r' = fst (Delete env k r)"
  shows "snd (Delete env k r) = Some ErrWrite \<and> gget (reg_devices r') k = Some d
    \<and> lookup2 (reg_grants r') k u = None \<and> reg_file r' = reg_file r"
  using assms
  by (simp add: Delete_eq delete_owned_frame)
    (simp add: delete_owned_def drop_device_grants_def split: option.split)

theorem failed_delete_loses_grants_witness:
  "reg_HasDevicePermission shared_reg ''u2'' ''nas-1'' PermDevicesWake
   \<and> \<not> reg_HasDevicePermission (fst (Delete (sample_reg_env\<lparr>re_WriteOK := False\<rparr>) ''nas-1'' shared_reg))
         ''u2'' ''nas-1'' PermDevicesWake"
  using failed_delete_loses_grants [of shared_reg "''nas-1''" sample_device "sample_reg_env\<lparr>re_WriteOK := False\<rparr>",
      OF _ _ refl, where u = "''u2''"]
  by (simp add: reg_HasDevicePermission_def level_allows_def)

end
