(* ===== verification/Commands.thy ===== *)
theory Commands
  imports Prelude
begin

text \<open>
  Commands and their deliveries, \<open>internal/command/model.go\<close> and \<open>delivery.go\<close>: the data, the
  terminal states, the lease of a delivery and the checks before one is sent. Raw JSON is its
  text; an optional time is a pointer of the code.
\<close>

section \<open>Commands\<close>

datatype Kind = KindSSHKeys | KindUpgrade | KindShutdown | KindGitHubSync | KindGitHubRevoke | KindOther string

datatype Status =
    StatusQueued | StatusDispatching | StatusDispatched | StatusAccepted
  | StatusSucceeded | StatusFailed | StatusTimedOut | StatusCanceled | StatusInterrupted
  | StatusLegacyUntracked | StatusOther string

datatype command_error =
    ErrCmdNotFound | ErrConflict | ErrInvalidTransition | ErrIdempotencyConflict | ErrCommandInProgress
  | ErrLateAckAccepted | ErrCmdWrite | ErrCmdRandom | ErrInvalidCursor | ErrUnsafeStore | ErrDecodeStore
  | ErrUnsupportedSchema
  | ErrDeliveryExpired | ErrDeliveryLease | ErrDeliveryDevice | ErrDeliveryIdentity | ErrDeliveryExists

record CmdActor =
  ca_Type :: string
  ca_ID :: string
  ca_DisplayName :: string

record TimeoutPolicy =
  tp_Accept :: duration
  tp_Finish :: duration

record LateAck =
  la_Digest :: string
  la_ReceivedAt :: time
  la_Conflict :: bool

record ProjectionState =
  pj_Status :: string
  pj_Revision :: u64
  pj_Error :: string

record UpgradeProgress =
  up_Phase :: string
  up_Sequence :: u64
  up_OccurredAt :: time
  up_DetailCode :: string
  up_ConfirmedDigest :: string
  up_ErrorMessage :: string

record Command =
  c_ID :: string
  c_Kind :: Kind
  c_DeviceID :: string
  c_Status :: Status
  c_RequestedBy :: CmdActor
  c_IdempotencyKey :: string
  c_Request :: string
  c_RequestDigest :: string
  c_Result :: string
  c_ErrorCode :: string
  c_ErrorMessage :: string
  c_CreatedAt :: time
  c_UpdatedAt :: time
  c_DispatchedAt :: "time option"
  c_AcceptedAt :: "time option"
  c_FinishedAt :: "time option"
  c_TimeoutPolicy :: TimeoutPolicy
  c_AcceptDeadline :: "time option"
  c_FinishDeadline :: "time option"
  c_FinalAckDigest :: string
  c_LateAcks :: "LateAck list"
  c_OutcomeRevision :: u64
  c_ProjectionInputDigest :: string
  c_Projection :: ProjectionState
  c_Progress :: "UpgradeProgress option"
  c_Revision :: u64
  c_Protocol :: int
  c_AttemptID :: string

fun terminal_status :: "Status \<Rightarrow> bool" where
  "terminal_status StatusSucceeded = True"
| "terminal_status StatusFailed = True"
| "terminal_status StatusTimedOut = True"
| "terminal_status StatusCanceled = True"
| "terminal_status StatusInterrupted = True"
| "terminal_status StatusLegacyUntracked = True"
| "terminal_status _ = False"

definition Terminal :: "Command \<Rightarrow> bool" where
  "Terminal c \<longleftrightarrow> terminal_status (c_Status c)"

record CreateRequest =
  cq_Kind :: Kind
  cq_DeviceID :: string
  cq_RequestedBy :: CmdActor
  cq_IdempotencyKey :: string
  cq_Request :: string
  cq_TimeoutPolicy :: TimeoutPolicy
  cq_Protocol :: int

text \<open>The empty kind and status of a filter, which select everything, are \<open>None\<close>.\<close>

record Filter =
  f_DeviceID :: string
  f_Kind :: "Kind option"
  f_Status :: "Status option"
  f_Limit :: int
  f_Cursor :: string

record Page =
  pg_Commands :: "Command list"
  pg_NextCursor :: string

record Transition =
  t_Status :: Status
  t_Result :: string
  t_ErrorCode :: string
  t_ErrorMessage :: string
  t_FinalAckDigest :: string
  t_AttemptID :: string
  t_ProjectionInputDigest :: string
  t_At :: time

text \<open>A transition to a status with every other field left at its zero value.\<close>

definition plain_transition :: "Status \<Rightarrow> time \<Rightarrow> Transition" where
  "plain_transition s when = \<lparr>t_Status = s, t_Result = [], t_ErrorCode = [], t_ErrorMessage = [],
     t_FinalAckDigest = [], t_AttemptID = [], t_ProjectionInputDigest = [], t_At = when\<rparr>"

section \<open>Deliveries\<close>

datatype DeliveryStatus =
    DeliveryPending | DeliveryLeased | DeliverySent | DeliveryAccepted | DeliveryCompleted
  | DeliveryExpired | DeliveryCanceled | DeliveryOther string

record Delivery =
  dl_ID :: string
  dl_CommandID :: string
  dl_DeviceID :: string
  dl_Attempt :: u32
  dl_Status :: DeliveryStatus
  dl_LeaseUntil :: "time option"
  dl_SentAt :: "time option"
  dl_AcceptedAt :: "time option"
  dl_CompletedAt :: "time option"
  dl_LastEventID :: string
  dl_ErrorCode :: string
  dl_Revision :: u64

definition dl_Terminal :: "Delivery \<Rightarrow> bool" where
  "dl_Terminal d \<longleftrightarrow> dl_Status d \<in> {DeliveryCompleted, DeliveryExpired, DeliveryCanceled}"

definition Lease :: "time \<Rightarrow> Delivery \<Rightarrow> bool" where
  "Lease now d \<longleftrightarrow> dl_Status d = DeliveryLeased
     \<and> (case dl_LeaseUntil d of None \<Rightarrow> False | Some t \<Rightarrow> t > now)"

definition CanSend :: "Command \<Rightarrow> Delivery \<Rightarrow> string \<Rightarrow> time \<Rightarrow> command_error option" where
  "CanSend c d deviceID now =
     (if dl_DeviceID d \<noteq> deviceID \<or> c_DeviceID c \<noteq> deviceID then Some ErrDeliveryDevice
      else if Terminal c \<or> dl_Terminal d then
        (if dl_Status d = DeliveryExpired then Some ErrDeliveryExpired else Some ErrDeliveryLease)
      else if dl_Status d = DeliveryLeased \<and> \<not> Lease now d then Some ErrDeliveryExpired
      else None)"

definition RenewLease :: "time \<Rightarrow> duration \<Rightarrow> Delivery \<Rightarrow> command_error + Delivery" where
  "RenewLease now lease d =
     (if dl_Terminal d \<or> lease \<le> 0 then Inl ErrDeliveryLease
      else if dl_Status d \<noteq> DeliveryPending \<and> \<not> Lease now d then Inl ErrDeliveryExpired
      else Inr (d\<lparr>dl_Status := DeliveryLeased, dl_LeaseUntil := Some (now + lease),
                  dl_Attempt := dl_Attempt d + 1\<rparr>))"

definition MarkSent :: "time \<Rightarrow> string \<Rightarrow> Delivery \<Rightarrow> command_error + Delivery" where
  "MarkSent now eventID d =
     (if \<not> Lease now d then Inl ErrDeliveryLease
      else Inr (d\<lparr>dl_Status := DeliverySent, dl_SentAt := Some now, dl_LastEventID := eventID\<rparr>))"

definition MarkAccepted :: "time \<Rightarrow> Delivery \<Rightarrow> command_error + Delivery" where
  "MarkAccepted now d =
     (if dl_Status d \<noteq> DeliverySent \<and> dl_Status d \<noteq> DeliveryAccepted then Inl ErrDeliveryLease
      else Inr (d\<lparr>dl_Status := DeliveryAccepted, dl_AcceptedAt := Some now\<rparr>))"

definition Complete :: "time \<Rightarrow> string \<Rightarrow> Delivery \<Rightarrow> Delivery" where
  "Complete now errCode d =
     d\<lparr>dl_Status := DeliveryCompleted, dl_CompletedAt := Some now, dl_ErrorCode := errCode,
       dl_LeaseUntil := None\<rparr>"

section \<open>Lemmas\<close>

lemma terminal_iff:
  "terminal_status s \<longleftrightarrow> s \<in> {StatusSucceeded, StatusFailed, StatusTimedOut, StatusCanceled,
     StatusInterrupted, StatusLegacyUntracked}"
  by (cases s) auto

lemma plain_transition_simps [simp]:
  "t_Status (plain_transition s a) = s" "t_At (plain_transition s a) = a"
  "t_Result (plain_transition s a) = []" "t_ErrorCode (plain_transition s a) = []"
  "t_ErrorMessage (plain_transition s a) = []" "t_FinalAckDigest (plain_transition s a) = []"
  "t_AttemptID (plain_transition s a) = []" "t_ProjectionInputDigest (plain_transition s a) = []"
  by (simp_all add: plain_transition_def)

end
