(* ===== verification/CommandRepo.thy ===== *)
theory CommandRepo
  imports Commands
begin

text \<open>
  The file-backed command repository, \<open>internal/command/file/repository.go\<close>. Its state is the
  map in memory and the content of its file; a write is one step that succeeds and replaces the
  file, after pruning, or fails and leaves it.
\<close>

record command_repo =
  cr_commands :: "(string, Command) gomap"
  cr_file :: "Command list option"

text \<open>
  What one call meets: the clock, the random identifier drawn (\<open>None\<close> when \<open>rand\<close> fails), whether
  writing succeeds, SHA-256 in hexadecimal, and the digest of a final acknowledgement, which is
  SHA-256 of the JSON text of its status, result, error code and message.
\<close>

record cmd_env =
  ce_Now :: time
  ce_NewID :: "string option"
  ce_WriteOK :: bool
  ce_Sha256 :: "string \<Rightarrow> string"
  ce_AckDigest :: "Status \<Rightarrow> string \<Rightarrow> string \<Rightarrow> string \<Rightarrow> string"

section \<open>Opening and writing\<close>

datatype command_file = CmdNoFile | CmdUnreadable | CmdUnsafeMode | CmdMalformed | CmdFile int "Command list"

definition cr_Open :: "command_file \<Rightarrow> command_error + command_repo" where
  "cr_Open f = (case f of
      CmdNoFile \<Rightarrow> Inr \<lparr>cr_commands = [], cr_file = None\<rparr>
    | CmdUnreadable \<Rightarrow> Inl ErrCmdWrite
    | CmdUnsafeMode \<Rightarrow> Inl ErrUnsafeStore
    | CmdMalformed \<Rightarrow> Inl ErrDecodeStore
    | CmdFile schema cs \<Rightarrow>
        if schema \<noteq> 1 then Inl ErrUnsupportedSchema
        else Inr \<lparr>cr_commands = fold (\<lambda>c. gput (c_ID c) c) cs [], cr_file = Some cs\<rparr>)"

definition finished_before :: "Command \<Rightarrow> Command \<Rightarrow> bool" where
  "finished_before x y \<longleftrightarrow> the (c_FinishedAt x) < the (c_FinishedAt y)"

definition prune_candidate :: "time \<Rightarrow> Command \<Rightarrow> bool" where
  "prune_candidate now c \<longleftrightarrow> Terminal c \<and>
     (case c_FinishedAt c of None \<Rightarrow> False | Some t \<Rightarrow> t < now - hours (30 * 24))"

text \<open>The loop over the candidates, oldest first, until a thousand commands remain.\<close>

fun prune_loop :: "Command list \<Rightarrow> nat \<Rightarrow> string list" where
  "prune_loop [] remaining = []"
| "prune_loop (c # cs) remaining =
     (if remaining \<le> 1000 then [] else c_ID c # prune_loop cs (remaining - 1))"

definition pruneIDsLocked :: "time \<Rightarrow> command_repo \<Rightarrow> string list" where
  "pruneIDsLocked now r =
     (if length (cr_commands r) \<le> 1000 then []
      else prune_loop (go_sort finished_before (filter (prune_candidate now) (gvals (cr_commands r))))
             (length (cr_commands r)))"

definition cr_write :: "cmd_env \<Rightarrow> command_repo \<Rightarrow> command_repo \<times> command_error option" where
  "cr_write env r =
     (let dropped = pruneIDsLocked (ce_Now env) r;
          kept = gdel_if (\<lambda>k _. k \<in> set dropped) (cr_commands r) in
      if \<not> ce_WriteOK env then (r, Some ErrCmdWrite)
      else (\<lparr>cr_commands = kept, cr_file = Some (go_sort (\<lambda>x y. c_ID x < c_ID y) (gvals kept))\<rparr>, None))"

text \<open>The assignment, the write, and the rollback that every update of one command ends with.\<close>

definition store_command :: "cmd_env \<Rightarrow> string \<Rightarrow> Command \<Rightarrow> command_repo \<Rightarrow> command_repo \<times> (command_error + Command)" where
  "store_command env k c r =
     (let old = gget (cr_commands r) k in
      case cr_write env (r\<lparr>cr_commands := gput k c (cr_commands r)\<rparr>) of
        (r1, None) \<Rightarrow> (r1, Inr c)
      | (r1, Some e) \<Rightarrow> (r1\<lparr>cr_commands := gm.rollback k old (cr_commands r1)\<rparr>, Inl e))"

section \<open>Creating\<close>

definition sep0 :: string where "sep0 = [char_of (0::nat)]"

definition kind_string :: "Kind \<Rightarrow> string" where
  "kind_string k = (case k of
      KindSSHKeys \<Rightarrow> ''ssh_keys'' | KindUpgrade \<Rightarrow> ''upgrade'' | KindShutdown \<Rightarrow> ''shutdown''
    | KindGitHubSync \<Rightarrow> ''github_credentials_sync'' | KindGitHubRevoke \<Rightarrow> ''github_credentials_revoke''
    | KindOther s \<Rightarrow> s)"

definition idem_key :: "CmdActor \<Rightarrow> string \<Rightarrow> Kind \<Rightarrow> string \<Rightarrow> string" where
  "idem_key by deviceID kind key =
     ca_Type by @ sep0 @ ca_ID by @ sep0 @ deviceID @ sep0 @ kind_string kind @ sep0 @ key"

definition idem :: "Command \<Rightarrow> string" where
  "idem c = idem_key (c_RequestedBy c) (c_DeviceID c) (c_Kind c) (c_IdempotencyKey c)"

definition same_request :: "CreateRequest \<Rightarrow> Command \<Rightarrow> bool" where
  "same_request q c \<longleftrightarrow> cq_IdempotencyKey q \<noteq> []
     \<and> idem c = idem_key (cq_RequestedBy q) (cq_DeviceID q) (cq_Kind q) (cq_IdempotencyKey q)"

definition excludes :: "Kind \<Rightarrow> Kind \<Rightarrow> bool" where
  "excludes k k' \<longleftrightarrow> k = k' \<or> (k = KindShutdown \<and> k' = KindUpgrade) \<or> (k = KindUpgrade \<and> k' = KindShutdown)"

definition in_progress :: "CreateRequest \<Rightarrow> Command \<Rightarrow> bool" where
  "in_progress q c \<longleftrightarrow> c_DeviceID c = cq_DeviceID q \<and> excludes (c_Kind c) (cq_Kind q) \<and> \<not> Terminal c"

text \<open>
  The loop over the map, in its order: the command or error it returns with, or \<open>None\<close> when it
  runs to the end.
\<close>

fun create_scan :: "CreateRequest \<Rightarrow> string \<Rightarrow> Command list \<Rightarrow> (command_error + Command) option" where
  "create_scan q digest [] = None"
| "create_scan q digest (c # cs) =
     (if same_request q c then
        (if c_RequestDigest c \<noteq> digest then Some (Inl ErrIdempotencyConflict) else Some (Inr c))
      else if in_progress q c then Some (Inl ErrCommandInProgress)
      else create_scan q digest cs)"

definition new_command :: "cmd_env \<Rightarrow> CreateRequest \<Rightarrow> string \<Rightarrow> Command" where
  "new_command env q k =
     \<lparr>c_ID = k, c_Kind = cq_Kind q, c_DeviceID = cq_DeviceID q, c_Status = StatusQueued,
      c_RequestedBy = cq_RequestedBy q, c_IdempotencyKey = cq_IdempotencyKey q,
      c_Request = cq_Request q, c_RequestDigest = ce_Sha256 env (cq_Request q), c_Result = [],
      c_ErrorCode = [], c_ErrorMessage = [], c_CreatedAt = ce_Now env, c_UpdatedAt = ce_Now env,
      c_DispatchedAt = None, c_AcceptedAt = None, c_FinishedAt = None,
      c_TimeoutPolicy = cq_TimeoutPolicy q, c_AcceptDeadline = None, c_FinishDeadline = None,
      c_FinalAckDigest = [], c_LateAcks = [], c_OutcomeRevision = 0, c_ProjectionInputDigest = [],
      c_Projection = \<lparr>pj_Status = ''pending'', pj_Revision = 0, pj_Error = []\<rparr>, c_Progress = None,
      c_Revision = 1, c_Protocol = (if cq_Protocol q = 0 then 1 else cq_Protocol q), c_AttemptID = []\<rparr>"

definition CreateOrGet ::
  "cmd_env \<Rightarrow> CreateRequest \<Rightarrow> command_repo \<Rightarrow> command_repo \<times> (command_error + Command \<times> bool)" where
  "CreateOrGet env q r =
     (case create_scan q (ce_Sha256 env (cq_Request q)) (gvals (cr_commands r)) of
        Some (Inl e) \<Rightarrow> (r, Inl e)
      | Some (Inr c) \<Rightarrow> (r, Inr (c, False))
      | None \<Rightarrow>
          (case ce_NewID env of
             None \<Rightarrow> (r, Inl ErrCmdRandom)
           | Some k \<Rightarrow>
               (case cr_write env (r\<lparr>cr_commands := gput k (new_command env q k) (cr_commands r)\<rparr>) of
                  (r1, Some e) \<Rightarrow> (r1\<lparr>cr_commands := gdel k (cr_commands r1)\<rparr>, Inl e)
                | (r1, None) \<Rightarrow> (r1, Inr (new_command env q k, True)))))"

definition cr_Get :: "string \<Rightarrow> command_repo \<Rightarrow> command_error + Command" where
  "cr_Get k r = (case gget (cr_commands r) k of None \<Rightarrow> Inl ErrCmdNotFound | Some c \<Rightarrow> Inr c)"

section \<open>Transitions\<close>

definition valid :: "Status \<Rightarrow> Status \<Rightarrow> bool" where
  "valid from to =
     (if from = to then True
      else (case from of
          StatusQueued \<Rightarrow> to \<in> {StatusDispatching, StatusCanceled, StatusInterrupted}
        | StatusDispatching \<Rightarrow> to \<in> {StatusQueued, StatusDispatched, StatusAccepted, StatusSucceeded,
            StatusFailed, StatusTimedOut, StatusCanceled, StatusInterrupted}
        | StatusDispatched \<Rightarrow> to \<in> {StatusAccepted, StatusSucceeded, StatusFailed, StatusTimedOut,
            StatusCanceled, StatusInterrupted, StatusLegacyUntracked}
        | StatusAccepted \<Rightarrow> to \<in> {StatusSucceeded, StatusFailed, StatusTimedOut, StatusInterrupted}
        | _ \<Rightarrow> False))"

text \<open>The command after the assignments of \<open>Transition\<close>, at time \<open>now\<close>.\<close>

definition apply_transition :: "time \<Rightarrow> Transition \<Rightarrow> Command \<Rightarrow> Command" where
  "apply_transition now t c =
     (let st = t_Status t;
          c1 = c\<lparr>c_Status := st, c_UpdatedAt := now, c_Revision := c_Revision c + 1,
                 c_ErrorCode := t_ErrorCode t, c_ErrorMessage := t_ErrorMessage t,
                 c_AttemptID := t_AttemptID t\<rparr>;
          c2 = (if st = StatusDispatching
                then c1\<lparr>c_AcceptDeadline := Some (now + tp_Accept (c_TimeoutPolicy c1))\<rparr> else c1);
          c3 = (if st \<in> {StatusDispatched, StatusAccepted, StatusSucceeded, StatusFailed}
                   \<and> c_DispatchedAt c2 = None
                then c2\<lparr>c_DispatchedAt := Some now\<rparr> else c2);
          c4 = (if st = StatusAccepted
                then c3\<lparr>c_AcceptedAt := Some now,
                        c_FinishDeadline := Some (now + tp_Finish (c_TimeoutPolicy c3))\<rparr> else c3);
          c5 = (if st \<in> {StatusSucceeded, StatusFailed}
                then c4\<lparr>c_Result := t_Result t, c_FinalAckDigest := t_FinalAckDigest t,
                        c_OutcomeRevision := c_Revision c4,
                        c_ProjectionInputDigest := t_ProjectionInputDigest t\<rparr> else c4) in
      if Terminal c5 then c5\<lparr>c_FinishedAt := Some now\<rparr> else c5)"

definition cr_Transition ::
  "cmd_env \<Rightarrow> string \<Rightarrow> u64 \<Rightarrow> Transition \<Rightarrow> command_repo \<Rightarrow> command_repo \<times> (command_error + Command)" where
  "cr_Transition env k expected t r =
     (case gget (cr_commands r) k of
        None \<Rightarrow> (r, Inl ErrCmdNotFound)
      | Some c \<Rightarrow>
          if c_Revision c \<noteq> expected then (r, Inl ErrConflict)
          else if \<not> valid (c_Status c) (t_Status t) then (r, Inl ErrInvalidTransition)
          else if c_Status c = t_Status t then (r, Inr c)
          else store_command env k
            (apply_transition (if is_zero_time (t_At t) then ce_Now env else t_At t) t c) r)"

section \<open>Listing\<close>

definition command_before :: "Command \<Rightarrow> Command \<Rightarrow> bool" where
  "command_before x y \<longleftrightarrow>
     (if c_CreatedAt x = c_CreatedAt y then c_ID x > c_ID y else c_CreatedAt x > c_CreatedAt y)"

definition filter_selects :: "Filter \<Rightarrow> Command \<Rightarrow> bool" where
  "filter_selects f c \<longleftrightarrow> (f_DeviceID f = [] \<or> c_DeviceID c = f_DeviceID f)
     \<and> (case f_Kind f of None \<Rightarrow> True | Some k \<Rightarrow> c_Kind c = k)
     \<and> (case f_Status f of None \<Rightarrow> True | Some s \<Rightarrow> c_Status c = s)"

text \<open>
  The encoding of a cursor is base64 of a time in RFC 3339 form and an identifier: here a pair of
  functions, \<open>dec\<close> failing on a text that is not one.
\<close>

definition after_cursor :: "time \<times> string \<Rightarrow> Command \<Rightarrow> bool" where
  "after_cursor cur c \<longleftrightarrow> c_CreatedAt c < fst cur \<or> (c_CreatedAt c = fst cur \<and> c_ID c < snd cur)"

definition page_limit :: "int \<Rightarrow> nat" where
  "page_limit n = (if n \<le> 0 \<or> n > 100 then 50 else nat n)"

definition cr_List ::
  "(time \<times> string \<Rightarrow> string) \<Rightarrow> (string \<Rightarrow> (time \<times> string) option) \<Rightarrow> Filter \<Rightarrow> command_repo
     \<Rightarrow> command_error + Page" where
  "cr_List enc dec f r =
     (let a = go_sort command_before (filter (filter_selects f) (gvals (cr_commands r)));
          n = page_limit (f_Limit f);
          page = (\<lambda>b. Inr \<lparr>pg_Commands = take n b,
            pg_NextCursor = (if length b > n then enc (c_CreatedAt (b ! (n - 1)), c_ID (b ! (n - 1))) else [])\<rparr>) in
      if f_Cursor f = [] then page a
      else (case dec (f_Cursor f) of
        None \<Rightarrow> Inl ErrInvalidCursor
      | Some cur \<Rightarrow> page (filter (after_cursor cur) a)))"

definition deadline :: "Command \<Rightarrow> time option" where
  "deadline c = (if c_Status c = StatusAccepted then c_FinishDeadline c else c_AcceptDeadline c)"

definition due_before :: "Command \<Rightarrow> Command \<Rightarrow> bool" where
  "due_before x y \<longleftrightarrow> the (deadline x) < the (deadline y)"

definition expired_at :: "time \<Rightarrow> Command \<Rightarrow> bool" where
  "expired_at now c \<longleftrightarrow> \<not> Terminal c \<and> (case deadline c of None \<Rightarrow> False | Some d \<Rightarrow> d \<le> now)"

definition limited :: "int \<Rightarrow> 'a list \<Rightarrow> 'a list" where
  "limited n xs = (if n > 0 \<and> int (length xs) > n then take (nat n) xs else xs)"

definition ListExpired :: "time \<Rightarrow> int \<Rightarrow> command_repo \<Rightarrow> Command list" where
  "ListExpired now n r = limited n (go_sort due_before (filter (expired_at now) (gvals (cr_commands r))))"

definition projection_pending :: "Command \<Rightarrow> bool" where
  "projection_pending c \<longleftrightarrow> c_Status c \<in> {StatusSucceeded, StatusFailed} \<and> pj_Status (c_Projection c) = ''pending''"

definition created_before :: "Command \<Rightarrow> Command \<Rightarrow> bool" where
  "created_before x y \<longleftrightarrow> c_CreatedAt x < c_CreatedAt y"

definition ListProjectionPending :: "int \<Rightarrow> command_repo \<Rightarrow> Command list" where
  "ListProjectionPending n r =
     limited n (go_sort created_before (filter projection_pending (gvals (cr_commands r))))"

section \<open>The other updates\<close>

definition interrupt_one :: "time \<Rightarrow> Command \<Rightarrow> Command" where
  "interrupt_one now c =
     (if Terminal c then c
      else c\<lparr>c_Status := StatusInterrupted, c_Revision := c_Revision c + 1, c_UpdatedAt := now,
             c_FinishedAt := Some now\<rparr>)"

definition InterruptNonTerminal :: "cmd_env \<Rightarrow> time \<Rightarrow> command_repo \<Rightarrow> command_repo \<times> (command_error + nat)" where
  "InterruptNonTerminal env now r =
     (let n = length (filter (\<lambda>c. \<not> Terminal c) (gvals (cr_commands r)));
          r1 = r\<lparr>cr_commands := map (\<lambda>(k, c). (k, interrupt_one now c)) (cr_commands r)\<rparr> in
      if n = 0 then (r1, Inr 0)
      else (case cr_write env r1 of
        (r2, Some e) \<Rightarrow> (r2\<lparr>cr_commands := cr_commands r\<rparr>, Inl e)
      | (r2, None) \<Rightarrow> (r2, Inr n)))"

definition AppendLateAck ::
  "cmd_env \<Rightarrow> string \<Rightarrow> u64 \<Rightarrow> LateAck \<Rightarrow> command_repo \<Rightarrow> command_repo \<times> (command_error + Command)" where
  "AppendLateAck env k expected ack r =
     (case gget (cr_commands r) k of
        None \<Rightarrow> (r, Inl ErrCmdNotFound)
      | Some c \<Rightarrow>
          if c_Revision c \<noteq> expected then (r, Inl ErrConflict)
          else if list_ex (\<lambda>a. la_Digest a = la_Digest ack) (c_LateAcks c) then (r, Inr c)
          else if c_LateAcks c \<noteq> [] then (r, Inl ErrInvalidTransition)
          else store_command env k (c\<lparr>c_LateAcks := c_LateAcks c @ [ack], c_Revision := c_Revision c + 1,
                 c_UpdatedAt := la_ReceivedAt ack\<rparr>) r)"

definition UpdateProjection ::
  "cmd_env \<Rightarrow> string \<Rightarrow> u64 \<Rightarrow> ProjectionState \<Rightarrow> command_repo \<Rightarrow> command_repo \<times> (command_error + Command)" where
  "UpdateProjection env k expected p r =
     (case gget (cr_commands r) k of
        None \<Rightarrow> (r, Inl ErrCmdNotFound)
      | Some c \<Rightarrow>
          if c_Revision c \<noteq> expected then (r, Inl ErrConflict)
          else store_command env k (c\<lparr>c_Projection := p\<lparr>pj_Revision := pj_Revision (c_Projection c) + 1\<rparr>,
                 c_Revision := c_Revision c + 1, c_UpdatedAt := ce_Now env\<rparr>) r)"

definition UpdateProgress ::
  "cmd_env \<Rightarrow> string \<Rightarrow> u64 \<Rightarrow> UpgradeProgress \<Rightarrow> command_repo \<Rightarrow> command_repo \<times> (command_error + Command)" where
  "UpdateProgress env k expected p r =
     (case gget (cr_commands r) k of
        None \<Rightarrow> (r, Inl ErrCmdNotFound)
      | Some c \<Rightarrow>
          if c_Revision c \<noteq> expected then (r, Inl ErrConflict)
          else store_command env k (c\<lparr>c_Progress := Some p, c_Revision := c_Revision c + 1,
                 c_UpdatedAt := ce_Now env\<rparr>) r)"

end
