(* ===== verification/CommandService.thy ===== *)
theory CommandService
  imports CommandRepo
begin

text \<open>
  The command service, \<open>internal/command/service.go\<close>: the operations of the server on commands
  over the Go interface \<open>Repository\<close>, here the record of its methods on a state \<open>'s\<close>. The
  interface's contract is the locale \<open>command_store\<close>, which the file repository interprets.
\<close>

record 's cmd_repository =
  rp_CreateOrGet :: "cmd_env \<Rightarrow> CreateRequest \<Rightarrow> 's \<Rightarrow> 's \<times> (command_error + Command \<times> bool)"
  rp_Get :: "string \<Rightarrow> 's \<Rightarrow> command_error + Command"
  rp_Transition :: "cmd_env \<Rightarrow> string \<Rightarrow> u64 \<Rightarrow> Transition \<Rightarrow> 's \<Rightarrow> 's \<times> (command_error + Command)"
  rp_List :: "Filter \<Rightarrow> 's \<Rightarrow> command_error + Page"
  rp_ListExpired :: "time \<Rightarrow> int \<Rightarrow> 's \<Rightarrow> Command list"
  rp_InterruptNonTerminal :: "cmd_env \<Rightarrow> time \<Rightarrow> 's \<Rightarrow> 's \<times> (command_error + nat)"
  rp_AppendLateAck :: "cmd_env \<Rightarrow> string \<Rightarrow> u64 \<Rightarrow> LateAck \<Rightarrow> 's \<Rightarrow> 's \<times> (command_error + Command)"
  rp_UpdateProjection :: "cmd_env \<Rightarrow> string \<Rightarrow> u64 \<Rightarrow> ProjectionState \<Rightarrow> 's \<Rightarrow> 's \<times> (command_error + Command)"
  rp_ListProjectionPending :: "int \<Rightarrow> 's \<Rightarrow> Command list"
  rp_UpdateProgress :: "cmd_env \<Rightarrow> string \<Rightarrow> u64 \<Rightarrow> UpgradeProgress \<Rightarrow> 's \<Rightarrow> 's \<times> (command_error + Command)"

section \<open>The operations\<close>

definition svc_Create ::
  "'s cmd_repository \<Rightarrow> cmd_env \<Rightarrow> CreateRequest \<Rightarrow> 's \<Rightarrow> 's \<times> (command_error + Command \<times> bool)" where
  "svc_Create rp env q s = rp_CreateOrGet rp env q s"

definition QueuedForDevice :: "'s cmd_repository \<Rightarrow> string \<Rightarrow> int \<Rightarrow> 's \<Rightarrow> command_error + Command list" where
  "QueuedForDevice rp deviceID n s =
     (case rp_List rp \<lparr>f_DeviceID = deviceID, f_Kind = None, f_Status = Some StatusQueued, f_Limit = n,
                       f_Cursor = []\<rparr> s of
        Inl e \<Rightarrow> Inl e | Inr p \<Rightarrow> Inr (pg_Commands p))"

definition StartDispatch :: "'s cmd_repository \<Rightarrow> cmd_env \<Rightarrow> string \<Rightarrow> 's \<Rightarrow> 's \<times> (command_error + Command)" where
  "StartDispatch rp env k s =
     (case rp_Get rp k s of
        Inl e \<Rightarrow> (s, Inl e)
      | Inr c \<Rightarrow>
          (case ce_NewID env of
             None \<Rightarrow> (s, Inl ErrCmdRandom)
           | Some attempt \<Rightarrow> rp_Transition rp env k (c_Revision c)
               ((plain_transition StatusDispatching (ce_Now env))\<lparr>t_AttemptID := attempt\<rparr>) s))"

definition DispatchResult ::
  "'s cmd_repository \<Rightarrow> cmd_env \<Rightarrow> string \<Rightarrow> bool \<Rightarrow> 's \<Rightarrow> 's \<times> (command_error + Command)" where
  "DispatchResult rp env k delivered s =
     (case rp_Get rp k s of
        Inl e \<Rightarrow> (s, Inl e)
      | Inr c \<Rightarrow>
          if c_Status c \<noteq> StatusDispatching then (s, Inr c)
          else rp_Transition rp env k (c_Revision c)
            (if delivered then plain_transition StatusDispatched (ce_Now env)
             else (plain_transition StatusFailed (ce_Now env))
               \<lparr>t_ErrorCode := ''delivery_unavailable'', t_ErrorMessage := ''no subscriber accepted delivery''\<rparr>) s)"

definition Requeue :: "'s cmd_repository \<Rightarrow> cmd_env \<Rightarrow> string \<Rightarrow> 's \<Rightarrow> 's \<times> (command_error + Command)" where
  "Requeue rp env k s =
     (case rp_Get rp k s of
        Inl e \<Rightarrow> (s, Inl e)
      | Inr c \<Rightarrow>
          if c_Status c = StatusQueued then (s, Inr c)
          else if c_Status c \<noteq> StatusDispatching then (s, Inl ErrInvalidTransition)
          else rp_Transition rp env k (c_Revision c) (plain_transition StatusQueued (ce_Now env)) s)"

definition MarkLegacy :: "'s cmd_repository \<Rightarrow> cmd_env \<Rightarrow> string \<Rightarrow> 's \<Rightarrow> 's \<times> (command_error + Command)" where
  "MarkLegacy rp env k s =
     (case rp_Get rp k s of
        Inl e \<Rightarrow> (s, Inl e)
      | Inr c \<Rightarrow>
          if c_Status c \<noteq> StatusDispatched then (s, Inr c)
          else rp_Transition rp env k (c_Revision c) (plain_transition StatusLegacyUntracked (ce_Now env)) s)"

definition MarkProjection ::
  "'s cmd_repository \<Rightarrow> cmd_env \<Rightarrow> string \<Rightarrow> string \<Rightarrow> string \<Rightarrow> 's \<Rightarrow> 's \<times> (command_error + Command)" where
  "MarkProjection rp env k status errorMessage s =
     (case rp_Get rp k s of
        Inl e \<Rightarrow> (s, Inl e)
      | Inr c \<Rightarrow> rp_UpdateProjection rp env k (c_Revision c)
          \<lparr>pj_Status = status, pj_Revision = 0, pj_Error = errorMessage\<rparr> s)"

definition svc_UpdateProgress ::
  "'s cmd_repository \<Rightarrow> cmd_env \<Rightarrow> string \<Rightarrow> UpgradeProgress \<Rightarrow> 's \<Rightarrow> 's \<times> (command_error + Command)" where
  "svc_UpdateProgress rp env k progress s =
     (case rp_Get rp k s of
        Inl e \<Rightarrow> (s, Inl e)
      | Inr c \<Rightarrow> rp_UpdateProgress rp env k (c_Revision c) progress s)"

definition Accept :: "'s cmd_repository \<Rightarrow> cmd_env \<Rightarrow> string \<Rightarrow> 's \<Rightarrow> 's \<times> (command_error + Command)" where
  "Accept rp env k s =
     (case rp_Get rp k s of
        Inl e \<Rightarrow> (s, Inl e)
      | Inr c \<Rightarrow>
          if c_Status c = StatusAccepted then (s, Inr c)
          else rp_Transition rp env k (c_Revision c) (plain_transition StatusAccepted (ce_Now env)) s)"

text \<open>
  \<open>Finish\<close> returns the updated command together with \<open>ErrLateAckAccepted\<close> for a late
  acknowledgement: the result is a pair of an optional command and an optional error.
\<close>

definition as_pair :: "command_error + Command \<Rightarrow> Command option \<times> command_error option" where
  "as_pair res = (case res of Inl e \<Rightarrow> (None, Some e) | Inr c \<Rightarrow> (Some c, None))"

definition Finish ::
  "'s cmd_repository \<Rightarrow> cmd_env \<Rightarrow> string \<Rightarrow> Status \<Rightarrow> string \<Rightarrow> string \<Rightarrow> string \<Rightarrow> 's
     \<Rightarrow> 's \<times> (Command option \<times> command_error option)" where
  "Finish rp env k status result errorCode errorMessage s =
     (case rp_Get rp k s of
        Inl e \<Rightarrow> (s, (None, Some e))
      | Inr c \<Rightarrow>
          (let d = ce_AckDigest env status result errorCode errorMessage in
           if Terminal c then
             (if c_FinalAckDigest c = d then (s, (Some c, None))
              else if c_Status c \<in> {StatusTimedOut, StatusCanceled, StatusInterrupted} then
                (case rp_AppendLateAck rp env k (c_Revision c)
                    \<lparr>la_Digest = d, la_ReceivedAt = ce_Now env, la_Conflict = False\<rparr> s of
                   (s1, Inl e) \<Rightarrow> (s1, (None, Some e))
                 | (s1, Inr c1) \<Rightarrow> (s1, (Some c1, Some ErrLateAckAccepted)))
              else (s, (None, Some ErrInvalidTransition)))
           else
             (let (s1, res) = rp_Transition rp env k (c_Revision c)
                 \<lparr>t_Status = status, t_Result = result, t_ErrorCode = errorCode,
                  t_ErrorMessage = errorMessage, t_FinalAckDigest = d, t_AttemptID = [],
                  t_ProjectionInputDigest = d, t_At = ce_Now env\<rparr> s in
              (s1, as_pair res))))"

definition Cancel :: "'s cmd_repository \<Rightarrow> cmd_env \<Rightarrow> string \<Rightarrow> 's \<Rightarrow> 's \<times> (command_error + Command)" where
  "Cancel rp env k s =
     (case rp_Get rp k s of
        Inl e \<Rightarrow> (s, Inl e)
      | Inr c \<Rightarrow>
          if c_Status c = StatusAccepted then (s, Inl ErrInvalidTransition)
          else rp_Transition rp env k (c_Revision c) (plain_transition StatusCanceled (ce_Now env)) s)"

text \<open>The loop of \<open>Expire\<close>: the i-th item is handled in the environment \<open>envs i\<close>.\<close>

definition timeout_transition :: "time \<Rightarrow> Transition" where
  "timeout_transition now = (plain_transition StatusTimedOut now)
     \<lparr>t_ErrorCode := ''command_timeout'', t_ErrorMessage := ''command deadline exceeded''\<rparr>"

fun expire_loop ::
  "'s cmd_repository \<Rightarrow> (nat \<Rightarrow> cmd_env) \<Rightarrow> nat \<Rightarrow> Command list \<Rightarrow> nat \<Rightarrow> 's \<Rightarrow> 's \<times> nat \<times> command_error option" where
  "expire_loop rp envs i [] n s = (s, n, None)"
| "expire_loop rp envs i (c # cs) n s =
     (case rp_Transition rp (envs i) (c_ID c) (c_Revision c) (timeout_transition (ce_Now (envs i))) s of
        (s1, Inr _) \<Rightarrow> expire_loop rp envs (Suc i) cs (Suc n) s1
      | (s1, Inl e) \<Rightarrow> if e \<noteq> ErrConflict then (s1, n, Some e) else expire_loop rp envs (Suc i) cs n s1)"

definition Expire :: "'s cmd_repository \<Rightarrow> (nat \<Rightarrow> cmd_env) \<Rightarrow> int \<Rightarrow> 's \<Rightarrow> 's \<times> nat \<times> command_error option" where
  "Expire rp envs n s = expire_loop rp envs 0 (rp_ListExpired rp (ce_Now (envs 0)) n s) 0 s"

definition svc_InterruptNonTerminal :: "'s cmd_repository \<Rightarrow> cmd_env \<Rightarrow> 's \<Rightarrow> 's \<times> (command_error + nat)" where
  "svc_InterruptNonTerminal rp env s = rp_InterruptNonTerminal rp env (ce_Now env) s"

section \<open>The file repository as the interface's implementation\<close>

text \<open>\<open>enc\<close> and \<open>dec\<close> write and read the text of a cursor.\<close>

definition file_repository ::
  "(time \<times> string \<Rightarrow> string) \<Rightarrow> (string \<Rightarrow> (time \<times> string) option) \<Rightarrow> command_repo cmd_repository" where
  "file_repository enc dec = \<lparr>rp_CreateOrGet = CreateOrGet, rp_Get = cr_Get, rp_Transition = cr_Transition,
     rp_List = cr_List enc dec, rp_ListExpired = ListExpired, rp_InterruptNonTerminal = InterruptNonTerminal,
     rp_AppendLateAck = AppendLateAck, rp_UpdateProjection = UpdateProjection,
     rp_ListProjectionPending = ListProjectionPending, rp_UpdateProgress = UpdateProgress\<rparr>"

section \<open>The contract of the interface\<close>

text \<open>
  What the service relies on: updates compare the revision, move along \<open>valid\<close> only, leave the
  store alone when they fail, and are seen by the next read.
\<close>

locale command_store =
  fixes rp :: "'s cmd_repository" and inv :: "'s \<Rightarrow> bool"
  assumes transition_inv: "inv s \<Longrightarrow> inv (fst (rp_Transition rp env k v t s))"
    and transition_missing: "rp_Get rp k s = Inl e \<Longrightarrow> rp_Transition rp env k v t s = (s, Inl e)"
    and transition_conflict: "rp_Get rp k s = Inr c \<Longrightarrow> c_Revision c \<noteq> v \<Longrightarrow>
      rp_Transition rp env k v t s = (s, Inl ErrConflict)"
    and transition_invalid: "rp_Get rp k s = Inr c \<Longrightarrow> c_Revision c = v \<Longrightarrow> \<not> valid (c_Status c) (t_Status t) \<Longrightarrow>
      rp_Transition rp env k v t s = (s, Inl ErrInvalidTransition)"
    and transition_same: "rp_Get rp k s = Inr c \<Longrightarrow> c_Revision c = v \<Longrightarrow> c_Status c = t_Status t \<Longrightarrow>
      rp_Transition rp env k v t s = (s, Inr c)"
    and transition_error: "snd (rp_Transition rp env k v t s) = Inl e \<Longrightarrow> fst (rp_Transition rp env k v t s) = s"
    and transition_done: "inv s \<Longrightarrow> rp_Get rp k s = Inr c \<Longrightarrow> c_Status c \<noteq> t_Status t \<Longrightarrow> t_At t = ce_Now env \<Longrightarrow>
      rp_Transition rp env k v t s = (s', Inr c') \<Longrightarrow>
      rp_Get rp k s' = Inr c' \<and> c_Status c' = t_Status t \<and> c_Revision c' = c_Revision c + 1
        \<and> (t_Status t \<in> {StatusSucceeded, StatusFailed} \<longrightarrow> c_FinalAckDigest c' = t_FinalAckDigest t)"
    and late_ack_again: "rp_Get rp k s = Inr c \<Longrightarrow> c_Revision c = v \<Longrightarrow>
      list_ex (\<lambda>a. la_Digest a = la_Digest ack) (c_LateAcks c) \<Longrightarrow> rp_AppendLateAck rp env k v ack s = (s, Inr c)"
    and late_ack_full: "rp_Get rp k s = Inr c \<Longrightarrow> c_Revision c = v \<Longrightarrow>
      \<not> list_ex (\<lambda>a. la_Digest a = la_Digest ack) (c_LateAcks c) \<Longrightarrow> c_LateAcks c \<noteq> [] \<Longrightarrow>
      rp_AppendLateAck rp env k v ack s = (s, Inl ErrInvalidTransition)"
    and listed_expired: "inv s \<Longrightarrow> c \<in> set (rp_ListExpired rp now n s) \<Longrightarrow> rp_Get rp (c_ID c) s = Inr c"
begin

lemma from_terminal:
  assumes "rp_Get rp k s = Inr c" and "Terminal c"
  shows "fst (rp_Transition rp env k (c_Revision c) t s) = s"
proof (cases "c_Status c = t_Status t")
  case True
  then show ?thesis using transition_same [OF assms(1) refl] by simp
next
  case False
  then have "\<not> valid (c_Status c) (t_Status t)"
    using assms(2) by (cases "c_Status c") (auto simp: valid_def Terminal_def)
  then show ?thesis using transition_invalid [OF assms(1) refl] by simp
qed

lemma terminal_untouched:
  assumes "rp_Get rp k s = Inr c" and "Terminal c"
  shows "fst (StartDispatch rp env k s) = s" and "fst (DispatchResult rp env k b s) = s"
    and "fst (Requeue rp env k s) = s" and "fst (MarkLegacy rp env k s) = s"
    and "fst (Accept rp env k s) = s" and "fst (Cancel rp env k s) = s"
  using from_terminal [OF assms] assms(1)
  by (simp_all add: StartDispatch_def DispatchResult_def Requeue_def MarkLegacy_def Accept_def Cancel_def
      split: option.split)

lemma finish_again:
  assumes inv: "inv s" and st: "status \<in> {StatusSucceeded, StatusFailed}"
    and fin: "Finish rp env k status result code msg s = (s1, (Some c, None))"
    and dig: "ce_AckDigest env' = ce_AckDigest env"
  shows "Finish rp env' k status result code msg s1 = (s1, (Some c, None)) \<and> Terminal c
    \<and> c_FinalAckDigest c = ce_AckDigest env status result code msg"
proof -
  let ?d = "ce_AckDigest env status result code msg"
  obtain c0 where c0: "rp_Get rp k s = Inr c0"
    using fin by (cases "rp_Get rp k s") (auto simp: Finish_def)
  have "rp_Get rp k s1 = Inr c \<and> Terminal c \<and> c_FinalAckDigest c = ?d"
  proof (cases "Terminal c0")
    case True
    with fin c0 show ?thesis by (auto simp: Finish_def Let_def split: if_splits prod.splits sum.splits)
  next
    case False
    let ?t = "\<lparr>t_Status = status, t_Result = result, t_ErrorCode = code, t_ErrorMessage = msg,
      t_FinalAckDigest = ?d, t_AttemptID = [], t_ProjectionInputDigest = ?d, t_At = ce_Now env\<rparr>"
    have tr: "rp_Transition rp env k (c_Revision c0) ?t s = (s1, Inr c)"
      using fin c0 False
      by (auto simp: Finish_def Let_def as_pair_def split: prod.splits sum.splits)
    have "c_Status c0 \<noteq> t_Status ?t" using False st by (auto simp: Terminal_def)
    from transition_done [OF inv c0 this _ tr] st show ?thesis by (auto simp: Terminal_def)
  qed
  then show ?thesis by (simp add: Finish_def Let_def dig)
qed

lemma late_ack_once:
  assumes "rp_Get rp k s = Inr c" and "c_Status c \<in> {StatusTimedOut, StatusCanceled, StatusInterrupted}"
    and "c_LateAcks c = [a]" and "c_FinalAckDigest c \<noteq> ce_AckDigest env status result code msg"
  shows "Finish rp env k status result code msg s =
    (if la_Digest a = ce_AckDigest env status result code msg then (s, (Some c, Some ErrLateAckAccepted))
     else (s, (None, Some ErrInvalidTransition)))"
proof -
  have t: "Terminal c" using assms(2) by (auto simp: Terminal_def)
  let ?ack = "\<lparr>la_Digest = ce_AckDigest env status result code msg, la_ReceivedAt = ce_Now env,
    la_Conflict = False\<rparr>"
  show ?thesis
  proof (cases "la_Digest a = ce_AckDigest env status result code msg")
    case True
    with assms t show ?thesis
      using late_ack_again [OF assms(1) refl, of ?ack env] by (auto simp: Finish_def Let_def)
  next
    case False
    with assms t show ?thesis
      using late_ack_full [OF assms(1) refl, of ?ack env] by (auto simp: Finish_def Let_def)
  qed
qed

lemma expire_stops:
  assumes "inv s" and "rp_ListExpired rp (ce_Now (envs 0)) n s = c # cs" and "c_Status c = StatusQueued"
  shows "Expire rp envs n s = (s, 0, Some ErrInvalidTransition)"
proof -
  have "rp_Get rp (c_ID c) s = Inr c"
    using listed_expired [OF assms(1), of c "ce_Now (envs 0)" n] assms(2) by simp
  moreover have "\<not> valid (c_Status c) (t_Status (timeout_transition now))" for now
    using assms(3) by (simp add: valid_def timeout_transition_def)
  ultimately have "rp_Transition rp (envs 0) (c_ID c) (c_Revision c) (timeout_transition (ce_Now (envs 0))) s
      = (s, Inl ErrInvalidTransition)"
    by (intro transition_invalid) auto
  then show ?thesis using assms(2) by (simp add: Expire_def)
qed

lemma expire_inv: "inv s \<Longrightarrow> inv (fst (expire_loop rp envs i cs n s))"
proof (induction cs arbitrary: i n s)
  case (Cons c cs)
  obtain s1 res where tr: "rp_Transition rp (envs i) (c_ID c) (c_Revision c) (timeout_transition (ce_Now (envs i))) s
      = (s1, res)" by fastforce
  then have "inv s1" using transition_inv [OF Cons.prems, of "envs i" "c_ID c" "c_Revision c"
      "timeout_transition (ce_Now (envs i))"] by simp
  with Cons.IH tr show ?case by (cases res) simp_all
qed simp

end

end
