(* ===== verification/CommandRepoInv.thy ===== *)
theory CommandRepoInv
  imports CommandService
begin

text \<open>
  Invariants of the command repository over every sequence of its operations, failed writes and
  restarts included: commands are stored under their identifiers, memory agrees with the file, and
  no two unfinished commands exclude each other. The file repository is then shown to keep the
  contract of the interface \<open>Repository\<close>.
\<close>

section \<open>Writing and pruning\<close>

interpretation finished_order: weak_order finished_before
  by unfold_locales (auto simp: finished_before_def)

interpretation command_order: weak_order command_before
  by unfold_locales (auto simp: command_before_def split: if_splits)

interpretation due_order: weak_order due_before
  by unfold_locales (auto simp: due_before_def)

lemma prune_loop_take: "prune_loop cs n = map c_ID (take (n - 1000) cs)"
proof (induction cs n rule: prune_loop.induct)
  case (2 c cs n)
  show ?case
  proof (cases "n \<le> 1000")
    case False
    then have "n - 1000 = Suc (n - 1 - 1000)" by simp
    with 2 False show ?thesis by simp
  qed simp
qed simp

definition loaded :: "Command list \<Rightarrow> (string, Command) gomap" where
  "loaded cs = fold (\<lambda>c. gput (c_ID c) c) cs []"

definition cr_inv :: "command_repo \<Rightarrow> bool" where
  "cr_inv r \<longleftrightarrow> wf_map (cr_commands r) \<and> (\<forall>k c. gget (cr_commands r) k = Some c \<longrightarrow> c_ID c = k)"

definition synced :: "command_repo \<Rightarrow> bool" where
  "synced r \<longleftrightarrow> gget (loaded (case cr_file r of None \<Rightarrow> [] | Some cs \<Rightarrow> cs)) = gget (cr_commands r)"

definition exclusive :: "command_repo \<Rightarrow> bool" where
  "exclusive r \<longleftrightarrow> (\<forall>k k' c c'. gget (cr_commands r) k = Some c \<and> gget (cr_commands r) k' = Some c'
     \<and> \<not> Terminal c \<and> \<not> Terminal c' \<and> c_DeviceID c = c_DeviceID c' \<and> excludes (c_Kind c) (c_Kind c')
     \<longrightarrow> k = k')"

lemma exclusiveD:
  "exclusive r \<Longrightarrow> gget (cr_commands r) k = Some c \<Longrightarrow> gget (cr_commands r) k' = Some c' \<Longrightarrow>
    \<not> Terminal c \<Longrightarrow> \<not> Terminal c' \<Longrightarrow> c_DeviceID c = c_DeviceID c' \<Longrightarrow> excludes (c_Kind c) (c_Kind c') \<Longrightarrow>
    k = k'"
  unfolding exclusive_def by blast

lemma exclusive_cong: "gget (cr_commands r) = gget (cr_commands r') \<Longrightarrow> exclusive r = exclusive r'"
  by (simp only: exclusive_def)

lemma excludes_sym: "excludes k k' = excludes k' k"
  by (auto simp: excludes_def)

lemma loaded_wf: "wf_map m \<Longrightarrow> wf_map (fold (\<lambda>c. gput (c_ID c) c) cs m)"
  by (induction cs arbitrary: m) auto

lemma gget_loaded_fold:
  "distinct (map c_ID cs) \<Longrightarrow>
    gget (fold (\<lambda>c. gput (c_ID c) c) cs m) k = Some c \<longleftrightarrow>
      (c \<in> set cs \<and> c_ID c = k) \<or> (k \<notin> c_ID ` set cs \<and> gget m k = Some c)"
  by (induction cs arbitrary: m) auto

lemma gget_loaded:
  "distinct (map c_ID cs) \<Longrightarrow> gget (loaded cs) k = Some c \<longleftrightarrow> c \<in> set cs \<and> c_ID c = k"
  by (simp add: loaded_def gget_loaded_fold)

lemma cr_inv_ids: "cr_inv r \<Longrightarrow> map c_ID (gvals (cr_commands r)) = gkeys (cr_commands r)"
  by (auto simp: cr_inv_def gget_iff_in_set)

lemma cr_inv_val: "cr_inv r \<Longrightarrow> c \<in> set (gvals (cr_commands r)) \<longleftrightarrow> gget (cr_commands r) (c_ID c) = Some c"
  unfolding cr_inv_def by (metis gget_in_vals in_vals_gget)

lemma loaded_vals:
  assumes "cr_inv r" and "mset cs = mset (gvals (cr_commands r))"
  shows "gget (loaded cs) = gget (cr_commands r)"
proof
  fix k
  have "mset (map c_ID cs) = mset (map c_ID (gvals (cr_commands r)))"
    using assms(2) by (metis mset_map)
  moreover have "distinct (map c_ID (gvals (cr_commands r)))"
    using assms(1) by (simp only: cr_inv_ids) (simp add: cr_inv_def wf_map_def)
  ultimately have "distinct (map c_ID cs)" by (metis mset_eq_imp_distinct_iff)
  then have "gget (loaded cs) k = Some c \<longleftrightarrow> gget (cr_commands r) k = Some c" for c
    using assms gget_loaded [of cs k c] cr_inv_val [OF assms(1), of c]
    by (metis cr_inv_def mset_eq_setD)
  then show "gget (loaded cs) k = gget (cr_commands r) k"
    by (metis not_None_eq)
qed

lemma pruned_candidate:
  assumes "cr_inv r" and "k \<in> set (pruneIDsLocked now r)"
  shows "\<exists>c. gget (cr_commands r) k = Some c \<and> prune_candidate now c"
proof -
  let ?cs = "go_sort finished_before (filter (prune_candidate now) (gvals (cr_commands r)))"
  have "k \<in> c_ID ` set (take (length (cr_commands r) - 1000) ?cs)"
    using assms(2) by (simp add: pruneIDsLocked_def prune_loop_take split: if_splits)
  then obtain c where k: "k = c_ID c" and "c \<in> set (take (length (cr_commands r) - 1000) ?cs)"
    by (rule imageE)
  then have "c \<in> set ?cs" by (auto dest: in_set_takeD)
  then have "c \<in> set (gvals (cr_commands r))" "prune_candidate now c"
    by (simp_all del: set_map)
  then show ?thesis unfolding k using cr_inv_val [OF assms(1), of c] by blast
qed

lemma cr_write_eq:
  "cr_write env r =
     (if ce_WriteOK env then
       (let kept = gdel_if (\<lambda>k _. k \<in> set (pruneIDsLocked (ce_Now env) r)) (cr_commands r) in
        (\<lparr>cr_commands = kept, cr_file = Some (go_sort (\<lambda>x y. c_ID x < c_ID y) (gvals kept))\<rparr>, None))
      else (r, Some ErrCmdWrite))"
  by (simp add: cr_write_def Let_def)

lemma written_gget:
  assumes "cr_inv r" and "ce_WriteOK env"
  shows "gget (cr_commands (fst (cr_write env r))) k =
    (if k \<in> set (pruneIDsLocked (ce_Now env) r) then None else gget (cr_commands r) k)"
  using assms by (auto simp: cr_write_eq Let_def gget_gdel_if cr_inv_def split: option.split)

lemma written_inv:
  assumes "cr_inv r"
  shows "cr_inv (fst (cr_write env r))"
proof (cases "ce_WriteOK env")
  case True
  then have "wf_map (cr_commands (fst (cr_write env r)))"
    using assms by (simp add: cr_write_eq Let_def cr_inv_def)
  with True assms show ?thesis by (auto simp: cr_inv_def written_gget split: if_splits)
qed (use assms in \<open>simp add: cr_write_eq\<close>)

lemma written_synced:
  assumes "cr_inv r" and "ce_WriteOK env"
  shows "synced (fst (cr_write env r))"
  unfolding synced_def using assms(2)
  by (intro loaded_vals [OF written_inv [OF assms(1), of env], folded synced_def, THEN trans])
    (simp_all add: cr_write_eq Let_def)

lemma written_exclusive: "cr_inv r \<Longrightarrow> exclusive r \<Longrightarrow> exclusive (fst (cr_write env r))"
proof (cases "ce_WriteOK env")
  case True
  assume "cr_inv r" "exclusive r"
  with True show ?thesis by (auto simp: exclusive_def written_gget split: if_splits)
qed (simp add: cr_write_eq)

lemma store_command_eq:
  "store_command env k c r =
     (if ce_WriteOK env then (fst (cr_write env (r\<lparr>cr_commands := gput k c (cr_commands r)\<rparr>)), Inr c)
      else (r, Inl ErrCmdWrite))"
  by (auto simp: store_command_def cr_write_eq Let_def gm.rollback_restores)

lemma cr_inv_put: "cr_inv r \<Longrightarrow> c_ID c = k \<Longrightarrow> cr_inv (r\<lparr>cr_commands := gput k c (cr_commands r)\<rparr>)"
  by (auto simp: cr_inv_def)

section \<open>How one command evolves\<close>

text \<open>What every update keeps of a command, and that a finished one keeps its outcome.\<close>

definition evolves :: "Command \<Rightarrow> Command \<Rightarrow> bool" where
  "evolves c c' \<longleftrightarrow> c_ID c' = c_ID c \<and> c_Kind c' = c_Kind c \<and> c_DeviceID c' = c_DeviceID c
     \<and> c_CreatedAt c' = c_CreatedAt c \<and> c_RequestDigest c' = c_RequestDigest c \<and> idem c' = idem c
     \<and> c_Revision c' = c_Revision c + 1 \<and> valid (c_Status c) (c_Status c')
     \<and> (Terminal c \<longrightarrow> c_Status c' = c_Status c \<and> c_Result c' = c_Result c
          \<and> c_ErrorCode c' = c_ErrorCode c \<and> c_FinishedAt c' = c_FinishedAt c
          \<and> c_FinalAckDigest c' = c_FinalAckDigest c)"

lemma valid_terminal: "valid s s' \<Longrightarrow> terminal_status s \<Longrightarrow> s' = s"
  by (cases s) (auto simp: valid_def split: if_splits)

lemma valid_refl [simp]: "valid s s"
  by (simp add: valid_def)

lemma apply_transition_fields [simp]:
  "c_ID (apply_transition now t c) = c_ID c" "c_Kind (apply_transition now t c) = c_Kind c"
  "c_DeviceID (apply_transition now t c) = c_DeviceID c"
  "c_CreatedAt (apply_transition now t c) = c_CreatedAt c"
  "c_RequestDigest (apply_transition now t c) = c_RequestDigest c"
  "idem (apply_transition now t c) = idem c"
  "c_Revision (apply_transition now t c) = c_Revision c + 1"
  "c_Status (apply_transition now t c) = t_Status t"
  "c_LateAcks (apply_transition now t c) = c_LateAcks c"
  "c_TimeoutPolicy (apply_transition now t c) = c_TimeoutPolicy c"
  by (simp_all add: apply_transition_def Let_def idem_def)

lemma apply_transition_finished:
  "terminal_status (t_Status t) \<Longrightarrow> c_FinishedAt (apply_transition now t c) = Some now"
  by (cases "t_Status t") (auto simp: apply_transition_def Let_def Terminal_def)

lemma apply_transition_digest:
  "t_Status t \<in> {StatusSucceeded, StatusFailed} \<Longrightarrow>
    c_FinalAckDigest (apply_transition now t c) = t_FinalAckDigest t
    \<and> c_Result (apply_transition now t c) = t_Result t"
  by (auto simp: apply_transition_def Let_def)

lemma apply_transition_deadlines:
  "c_AcceptDeadline (apply_transition now t c) =
     (if t_Status t = StatusDispatching then Some (now + tp_Accept (c_TimeoutPolicy c)) else c_AcceptDeadline c)"
  "c_FinishDeadline (apply_transition now t c) =
     (if t_Status t = StatusAccepted then Some (now + tp_Finish (c_TimeoutPolicy c)) else c_FinishDeadline c)"
  by (auto simp: apply_transition_def Let_def)

lemma evolves_transition:
  assumes "valid (c_Status c) (t_Status t)" and "c_Status c \<noteq> t_Status t"
  shows "evolves c (apply_transition now t c)"
  using assms valid_terminal [OF assms(1)] by (auto simp: evolves_def Terminal_def)

text \<open>The updates of one command: nothing, or a write of what it evolves into.\<close>

definition cmd_change :: "command_repo \<Rightarrow> command_repo \<Rightarrow> bool" where
  "cmd_change r r' \<longleftrightarrow> r' = r \<or>
     (\<exists>env k c c'. gget (cr_commands r) k = Some c \<and> evolves c c' \<and> r' = fst (store_command env k c' r))"

lemma cmd_change_refl [simp]: "cmd_change r r"
  by (simp add: cmd_change_def)

lemma cmd_change_store:
  "gget (cr_commands r) k = Some c \<Longrightarrow> evolves c c' \<Longrightarrow> cmd_change r (fst (store_command env k c' r))"
  unfolding cmd_change_def by blast

lemma change_Transition: "cmd_change r (fst (cr_Transition env k v t r))"
  by (auto simp: cr_Transition_def split: option.split intro!: cmd_change_store evolves_transition)

lemma change_AppendLateAck: "cmd_change r (fst (AppendLateAck env k v ack r))"
  by (auto simp: AppendLateAck_def split: option.split intro!: cmd_change_store)
    (auto simp: evolves_def idem_def)

lemma change_UpdateProjection: "cmd_change r (fst (UpdateProjection env k v p r))"
  by (auto simp: UpdateProjection_def split: option.split intro!: cmd_change_store)
    (auto simp: evolves_def idem_def)

lemma change_UpdateProgress: "cmd_change r (fst (UpdateProgress env k v p r))"
  by (auto simp: UpdateProgress_def split: option.split intro!: cmd_change_store)
    (auto simp: evolves_def idem_def)

lemmas cmd_changes = change_Transition change_AppendLateAck change_UpdateProjection change_UpdateProgress

section \<open>Steps of the repository\<close>

text \<open>
  One operation, in any environment in which \<open>rand\<close> draws an unused identifier, or a restart that
  opens the file again.
\<close>

inductive cr_step :: "command_repo \<Rightarrow> command_repo \<Rightarrow> bool" where
  create: "\<forall>k. ce_NewID env = Some k \<longrightarrow> gget (cr_commands r) k = None \<Longrightarrow>
    cr_step r (fst (CreateOrGet env q r))"
| transition: "cr_step r (fst (cr_Transition env k v t r))"
| late_ack: "cr_step r (fst (AppendLateAck env k v ack r))"
| projection: "cr_step r (fst (UpdateProjection env k v p r))"
| progress: "cr_step r (fst (UpdateProgress env k v up r))"
| interrupt: "cr_step r (fst (InterruptNonTerminal env now r))"
| reopen: "cr_file r = Some cs \<Longrightarrow> cr_Open (CmdFile 1 cs) = Inr r' \<Longrightarrow> cr_step r r'"

inductive cr_reachable :: "command_repo \<Rightarrow> command_repo \<Rightarrow> bool" for r0 where
  start: "cr_reachable r0 r0"
| step: "cr_reachable r0 r \<Longrightarrow> cr_step r r' \<Longrightarrow> cr_reachable r0 r'"

inductive_cases cr_stepE: "cr_step r r'"

definition cr_ok :: "command_repo \<Rightarrow> bool" where
  "cr_ok r \<longleftrightarrow> cr_inv r \<and> synced r \<and> exclusive r"

lemma written_ok: "cr_inv r \<Longrightarrow> exclusive r \<Longrightarrow> ce_WriteOK env \<Longrightarrow> cr_ok (fst (cr_write env r))"
  by (simp add: cr_ok_def written_inv written_synced written_exclusive)

lemma exclusive_put:
  assumes "exclusive r" and "gget (cr_commands r) k = Some c" and "evolves c c'"
  shows "exclusive (r\<lparr>cr_commands := gput k c' (cr_commands r)\<rparr>)"
proof -
  have c': "c_DeviceID c' = c_DeviceID c" "c_Kind c' = c_Kind c" "Terminal c \<Longrightarrow> Terminal c'"
    using assms(3) by (auto simp: evolves_def Terminal_def)
  define old where "old j d = (if j = k then c else d)" for j :: string and d :: Command
  have old: "gget (cr_commands r) j = Some (old j d) \<and> c_DeviceID (old j d) = c_DeviceID d
      \<and> c_Kind (old j d) = c_Kind d \<and> (\<not> Terminal d \<longrightarrow> \<not> Terminal (old j d))"
    if "gget (gput k c' (cr_commands r)) j = Some d" for j d
    using that c' assms(2) by (auto simp: old_def split: if_splits)
  show ?thesis
    unfolding exclusive_def
  proof (intro allI impI)
    fix j j' d d'
    assume a: "gget (cr_commands (r\<lparr>cr_commands := gput k c' (cr_commands r)\<rparr>)) j = Some d
      \<and> gget (cr_commands (r\<lparr>cr_commands := gput k c' (cr_commands r)\<rparr>)) j' = Some d'
      \<and> \<not> Terminal d \<and> \<not> Terminal d' \<and> c_DeviceID d = c_DeviceID d' \<and> excludes (c_Kind d) (c_Kind d')"
    then have g: "gget (gput k c' (cr_commands r)) j = Some d" "gget (gput k c' (cr_commands r)) j' = Some d'"
      by simp_all
    show "j = j'"
      using a old [OF g(1)] old [OF g(2)] assms(1) unfolding exclusive_def by metis
  qed
qed

lemma change_ok:
  assumes "cr_ok r" and "cmd_change r r'"
  shows "cr_ok r'"
proof (cases "r' = r")
  case False
  then obtain env k c c' where c: "gget (cr_commands r) k = Some c" "evolves c c'"
      "r' = fst (store_command env k c' r)"
    using assms(2) by (auto simp: cmd_change_def)
  show ?thesis
  proof (cases "ce_WriteOK env")
    case True
    have "c_ID c' = k" using assms(1) c by (auto simp: cr_ok_def cr_inv_def evolves_def)
    then have "cr_inv (r\<lparr>cr_commands := gput k c' (cr_commands r)\<rparr>)"
      using assms(1) by (simp add: cr_ok_def cr_inv_put)
    moreover have "exclusive (r\<lparr>cr_commands := gput k c' (cr_commands r)\<rparr>)"
      using assms(1) c by (intro exclusive_put) (simp_all add: cr_ok_def)
    ultimately show ?thesis using True c(3) by (simp add: store_command_eq written_ok)
  qed (use assms(1) c in \<open>simp add: store_command_eq\<close>)
qed (use assms(1) in simp)

lemma create_scan_None:
  "create_scan q d cs = None \<Longrightarrow> c \<in> set cs \<Longrightarrow> \<not> same_request q c \<and> \<not> in_progress q c"
  by (induction cs) (auto split: if_splits)

lemma create_scan_Inr: "create_scan q d cs = Some (Inr c) \<Longrightarrow> c \<in> set cs \<and> same_request q c \<and> c_RequestDigest c = d"
  by (induction cs) (auto split: if_splits)

lemma new_command_fields [simp]:
  "c_ID (new_command env q k) = k" "c_Kind (new_command env q k) = cq_Kind q"
  "c_DeviceID (new_command env q k) = cq_DeviceID q" "c_Status (new_command env q k) = StatusQueued"
  "c_Revision (new_command env q k) = 1" "c_RequestDigest (new_command env q k) = ce_Sha256 env (cq_Request q)"
  "idem (new_command env q k) = idem_key (cq_RequestedBy q) (cq_DeviceID q) (cq_Kind q) (cq_IdempotencyKey q)"
  "c_AcceptDeadline (new_command env q k) = None" "c_CreatedAt (new_command env q k) = ce_Now env"
  by (simp_all add: new_command_def idem_def)

lemma CreateOrGet_new:
  assumes "gget (cr_commands r) k = None" and "ce_NewID env = Some k"
    and "create_scan q (ce_Sha256 env (cq_Request q)) (gvals (cr_commands r)) = None"
  shows "CreateOrGet env q r =
    (if ce_WriteOK env
     then (fst (cr_write env (r\<lparr>cr_commands := gput k (new_command env q k) (cr_commands r)\<rparr>)),
           Inr (new_command env q k, True))
     else (r, Inl ErrCmdWrite))"
  using assms by (simp add: CreateOrGet_def cr_write_eq Let_def)

lemma create_ok:
  assumes "cr_ok r" and "\<forall>k. ce_NewID env = Some k \<longrightarrow> gget (cr_commands r) k = None"
  shows "cr_ok (fst (CreateOrGet env q r))"
proof (cases "create_scan q (ce_Sha256 env (cq_Request q)) (gvals (cr_commands r))")
  case (Some x)
  then show ?thesis using assms(1) by (cases x) (simp_all add: CreateOrGet_def)
next
  case None
  show ?thesis
  proof (cases "ce_NewID env")
    case (Some k)
    with assms(2) have fresh: "gget (cr_commands r) k = None" by simp
    let ?r1 = "r\<lparr>cr_commands := gput k (new_command env q k) (cr_commands r)\<rparr>"
    have free: "\<not> (c_DeviceID c = cq_DeviceID q \<and> excludes (c_Kind c) (cq_Kind q) \<and> \<not> Terminal c)"
      if "gget (cr_commands r) j = Some c" for j c
      using create_scan_None [OF None gget_in_vals [OF that]] by (simp add: in_progress_def)
    have "cr_inv ?r1" using assms(1) by (simp add: cr_ok_def cr_inv_put)
    moreover have "exclusive ?r1"
      unfolding exclusive_def
    proof (intro allI impI, elim conjE)
      fix j j' c c'
      assume g: "gget (cr_commands ?r1) j = Some c" "gget (cr_commands ?r1) j' = Some c'"
        and t: "\<not> Terminal c" "\<not> Terminal c'" "c_DeviceID c = c_DeviceID c'" "excludes (c_Kind c) (c_Kind c')"
      show "j = j'"
      proof (rule ccontr)
        assume "j \<noteq> j'"
        show False
        proof (cases "j = k \<or> j' = k")
          case True
          then show False
          proof
            assume "j = k"
            then have "c_DeviceID c = cq_DeviceID q" "c_Kind c = cq_Kind q" "gget (cr_commands r) j' = Some c'"
              using g \<open>j \<noteq> j'\<close> by auto
            with free [of j' c'] t excludes_sym show False by metis
          next
            assume "j' = k"
            then have "c_DeviceID c' = cq_DeviceID q" "c_Kind c' = cq_Kind q" "gget (cr_commands r) j = Some c"
              using g \<open>j \<noteq> j'\<close> by auto
            with free [of j c] t show False by metis
          qed
        next
          case False
          then have "gget (cr_commands r) j = Some c" "gget (cr_commands r) j' = Some c'" using g by simp_all
          moreover have "exclusive r" using assms(1) by (simp add: cr_ok_def)
          ultimately show False using exclusiveD [of r j c j' c'] t \<open>j \<noteq> j'\<close> by blast
        qed
      qed
    qed
    ultimately have "ce_WriteOK env \<Longrightarrow> cr_ok (fst (cr_write env ?r1))" by (simp add: written_ok)
    then show ?thesis using CreateOrGet_new [OF fresh Some None] assms(1) by simp
  qed (use None assms(1) in \<open>simp add: CreateOrGet_def\<close>)
qed

lemma interrupt_one_simps [simp]:
  "c_ID (interrupt_one now c) = c_ID c" "Terminal (interrupt_one now c)"
  "Terminal c \<Longrightarrow> interrupt_one now c = c"
  by (auto simp: interrupt_one_def Terminal_def)

lemma interrupt_ok:
  assumes "cr_ok r"
  shows "cr_ok (fst (InterruptNonTerminal env now r))"
proof -
  let ?r1 = "r\<lparr>cr_commands := map (\<lambda>(k, c). (k, interrupt_one now c)) (cr_commands r)\<rparr>"
  have inv: "cr_inv ?r1" using assms by (auto simp: cr_ok_def cr_inv_def)
  have ex: "exclusive ?r1" by (auto simp: exclusive_def)
  show ?thesis
  proof (cases "filter (\<lambda>c. \<not> Terminal c) (gvals (cr_commands r)) = []")
    case True
    then have "interrupt_one now (snd e) = snd e" if "e \<in> set (cr_commands r)" for e
      using that by (auto simp: filter_empty_conv intro!: interrupt_one_simps(3))
    then have "cr_commands ?r1 = cr_commands r" by (simp add: map_idI case_prod_beta)
    then have "synced ?r1" using assms by (simp add: cr_ok_def synced_def)
    with True inv ex show ?thesis by (simp add: InterruptNonTerminal_def cr_ok_def)
  next
    case False
    show ?thesis
    proof (cases "ce_WriteOK env")
      case True
      with False have "fst (InterruptNonTerminal env now r) = fst (cr_write env ?r1)"
        by (auto simp: InterruptNonTerminal_def Let_def cr_write_eq filter_empty_conv)
      then show ?thesis using written_ok [OF inv ex True] by simp
    next
      case failed: False
      with False have "fst (InterruptNonTerminal env now r) = r"
        by (auto simp: InterruptNonTerminal_def Let_def cr_write_eq filter_empty_conv)
      then show ?thesis using assms by simp
    qed
  qed
qed

lemma loaded_ids:
  "\<forall>k c. gget m k = Some c \<longrightarrow> c_ID c = k \<Longrightarrow>
    gget (fold (\<lambda>c. gput (c_ID c) c) cs m) k = Some c \<Longrightarrow> c_ID c = k"
proof (induction cs arbitrary: m)
  case (Cons d cs)
  have "\<forall>k c. gget (gput (c_ID d) d m) k = Some c \<longrightarrow> c_ID c = k"
    using Cons.prems(1) by simp
  from Cons.IH [OF this] Cons.prems(2) show ?case by simp
qed simp

lemma loaded_inv: "cr_inv \<lparr>cr_commands = loaded cs, cr_file = f\<rparr>"
  unfolding cr_inv_def
proof (intro conjI allI impI)
  fix k c assume "gget (cr_commands \<lparr>cr_commands = loaded cs, cr_file = f\<rparr>) k = Some c"
  then show "c_ID c = k" by (intro loaded_ids [of "[]" cs]) (simp_all add: loaded_def)
qed (simp add: loaded_def loaded_wf)

lemma reopen_ok:
  assumes "cr_ok r" and "cr_file r = Some cs" and "cr_Open (CmdFile 1 cs) = Inr r'"
  shows "cr_ok r' \<and> gget (cr_commands r') = gget (cr_commands r)"
proof -
  have r': "r' = \<lparr>cr_commands = loaded cs, cr_file = Some cs\<rparr>"
    using assms(3) by (simp add: cr_Open_def loaded_def)
  moreover have g: "gget (loaded cs) = gget (cr_commands r)"
    using assms(1,2) by (simp add: cr_ok_def synced_def)
  moreover have "exclusive r'"
  proof -
    have "exclusive r" using assms(1) by (simp add: cr_ok_def)
    then show ?thesis using exclusive_cong [of r' r] g by (simp add: r')
  qed
  ultimately show ?thesis by (simp add: cr_ok_def loaded_inv synced_def)
qed

lemma cr_step_ok: "cr_step r r' \<Longrightarrow> cr_ok r \<Longrightarrow> cr_ok r'"
  by (induction rule: cr_step.induct) (auto simp: create_ok interrupt_ok reopen_ok intro: change_ok cmd_changes)

lemma cr_reachable_ok: "cr_reachable r0 r \<Longrightarrow> cr_ok r0 \<Longrightarrow> cr_ok r"
  by (induction rule: cr_reachable.induct) (auto simp: cr_step_ok)

lemma cr_ok_empty: "cr_Open CmdNoFile = Inr r0 \<Longrightarrow> cr_ok r0"
  by (auto simp: cr_Open_def cr_ok_def cr_inv_def synced_def exclusive_def loaded_def)

section \<open>The contract is kept\<close>

lemma stored_get:
  assumes "cr_inv r" and "gget (cr_commands r) k = Some c0" and "c_ID c' = k" and "\<not> prune_candidate (ce_Now env) c'"
    and "ce_WriteOK env"
  shows "cr_Get k (fst (store_command env k c' r)) = Inr c'"
proof -
  let ?r1 = "r\<lparr>cr_commands := gput k c' (cr_commands r)\<rparr>"
  have inv: "cr_inv ?r1" using assms by (simp add: cr_inv_put)
  then have "k \<notin> set (pruneIDsLocked (ce_Now env) ?r1)"
    using pruned_candidate [OF inv, of k "ce_Now env"] assms(4) by auto
  then show ?thesis using assms(5) by (simp add: store_command_eq cr_Get_def written_gget [OF inv])
qed

lemma fresh_not_pruned: "c_FinishedAt c = Some now \<or> \<not> Terminal c \<Longrightarrow> \<not> prune_candidate now c"
  by (auto simp: prune_candidate_def hours_def)

lemma transition_cases:
  assumes "gget (cr_commands r) k = Some c"
  shows "cr_Transition env k v t r =
    (if c_Revision c \<noteq> v then (r, Inl ErrConflict)
     else if \<not> valid (c_Status c) (t_Status t) then (r, Inl ErrInvalidTransition)
     else if c_Status c = t_Status t then (r, Inr c)
     else if ce_WriteOK env then
       (let c' = apply_transition (if is_zero_time (t_At t) then ce_Now env else t_At t) t c in
        (fst (store_command env k c' r), Inr c'))
     else (r, Inl ErrCmdWrite))"
  using assms by (simp add: cr_Transition_def store_command_eq Let_def)

lemma transition_stored:
  assumes inv: "cr_inv r" and get: "gget (cr_commands r) k = Some c" and ne: "c_Status c \<noteq> t_Status t"
    and t: "t_At t = ce_Now env" and tr: "cr_Transition env k v t r = (r', Inr c')"
  shows "cr_Get k r' = Inr c' \<and> c' = apply_transition (ce_Now env) t c \<and> c_Revision c = v
    \<and> valid (c_Status c) (t_Status t)"
proof -
  have c': "c' = apply_transition (ce_Now env) t c" "r' = fst (store_command env k c' r)"
      "c_Revision c = v" "valid (c_Status c) (t_Status t)" "ce_WriteOK env"
    using tr ne t transition_cases [OF get, of env v t] by (auto simp: Let_def split: if_splits)
  have "c_ID c = k" using inv get by (simp add: cr_inv_def)
  moreover have "\<not> prune_candidate (ce_Now env) c'"
    using apply_transition_finished [of t "ce_Now env" c]
    by (intro fresh_not_pruned) (auto simp: c'(1) Terminal_def)
  ultimately show ?thesis using stored_get [OF inv get, of c' env] c' by simp
qed

lemma store_command_error: "snd (store_command env k c r) = Inl e \<Longrightarrow> fst (store_command env k c r) = r"
  by (simp add: store_command_eq split: if_splits)

lemma in_ListExpired: "c \<in> set (ListExpired now n r) \<Longrightarrow> c \<in> set (gvals (cr_commands r)) \<and> expired_at now c"
  by (auto simp: ListExpired_def limited_def dest: in_set_takeD simp del: set_map split: if_splits)

lemma cr_Get_iff: "cr_Get k r = Inr c \<longleftrightarrow> gget (cr_commands r) k = Some c"
  by (simp add: cr_Get_def split: option.split)

interpretation file_repo: command_store "file_repository enc dec" cr_inv for enc dec
proof unfold_locales
  show "cr_inv s \<Longrightarrow> cr_inv (fst (rp_Transition (file_repository enc dec) env k v t s))" for s env k v t
  proof -
    assume inv: "cr_inv s"
    show ?thesis
    proof (cases "gget (cr_commands s) k")
      case (Some c)
      then have "c_ID c = k" using inv by (simp add: cr_inv_def)
      then show ?thesis using inv
        by (auto simp: file_repository_def transition_cases [OF Some] Let_def store_command_eq
            intro!: written_inv cr_inv_put)
    qed (use inv in \<open>simp add: file_repository_def cr_Transition_def\<close>)
  qed
  show "rp_Transition (file_repository enc dec) env k v t s = (s', Inr c') \<Longrightarrow> cr_inv s \<Longrightarrow>
      rp_Get (file_repository enc dec) k s = Inr c \<Longrightarrow> c_Status c \<noteq> t_Status t \<Longrightarrow> t_At t = ce_Now env \<Longrightarrow>
      rp_Get (file_repository enc dec) k s' = Inr c' \<and> c_Status c' = t_Status t
      \<and> c_Revision c' = c_Revision c + 1
      \<and> (t_Status t \<in> {StatusSucceeded, StatusFailed} \<longrightarrow> c_FinalAckDigest c' = t_FinalAckDigest t)"
    for env k v t s s' c c'
    using transition_stored [of s k c t env v s' c'] apply_transition_digest [of t "ce_Now env" c]
    by (auto simp: file_repository_def cr_Get_iff)
  show "snd (rp_Transition (file_repository enc dec) env k v t s) = Inl e \<Longrightarrow>
      fst (rp_Transition (file_repository enc dec) env k v t s) = s" for env k v t s e
    by (auto simp: file_repository_def cr_Transition_def store_command_error split: option.splits if_splits)
  show "cr_inv s \<Longrightarrow> c \<in> set (rp_ListExpired (file_repository enc dec) now n s) \<Longrightarrow>
      rp_Get (file_repository enc dec) (c_ID c) s = Inr c" for s c now n
    using in_ListExpired [of c now n s] by (simp add: file_repository_def cr_Get_iff cr_inv_val del: set_map)
qed (auto simp: file_repository_def cr_Get_def cr_Transition_def AppendLateAck_def split: option.splits)

end
