(* ===== verification/CommandProps.thy ===== *)
theory CommandProps
  imports CommandRepoInv
begin

text \<open>
  What the command store and the service guarantee: exclusion of conflicting commands, final
  outcomes, agreement of memory and file, retention, idempotence, paging and timeouts.
\<close>

section \<open>Samples\<close>

definition sample_cmd_env :: cmd_env where
  "sample_cmd_env = \<lparr>ce_Now = seconds 100, ce_NewID = Some ''cmd_1'', ce_WriteOK = True,
     ce_Sha256 = (\<lambda>s. CHR ''h'' # s), ce_AckDigest = (\<lambda>_ r c m. r @ c @ m)\<rparr>"

definition sample_q :: CreateRequest where
  "sample_q = \<lparr>cq_Kind = KindUpgrade, cq_DeviceID = ''nas-1'',
     cq_RequestedBy = \<lparr>ca_Type = ''admin'', ca_ID = ''alice'', ca_DisplayName = ''alice''\<rparr>,
     cq_IdempotencyKey = ''k1'', cq_Request = ''{}'',
     cq_TimeoutPolicy = \<lparr>tp_Accept = seconds 15, tp_Finish = seconds 60\<rparr>, cq_Protocol = 0\<rparr>"

definition empty_repo :: command_repo where
  "empty_repo = \<lparr>cr_commands = [], cr_file = None\<rparr>"

definition sample_cmd :: Command where
  "sample_cmd = new_command sample_cmd_env sample_q ''cmd_1''"

definition sample_repo :: command_repo where
  "sample_repo = fst (CreateOrGet sample_cmd_env sample_q empty_repo)"

abbreviation any_repo :: "command_repo cmd_repository" where
  "any_repo \<equiv> file_repository (\<lambda>_. ''c'') (\<lambda>_. None)"

lemma sample_env_simps [simp]:
  "ce_Now sample_cmd_env = seconds 100" "ce_NewID sample_cmd_env = Some ''cmd_1''" "ce_WriteOK sample_cmd_env"
  by (simp_all add: sample_cmd_env_def)

lemma empty_open: "cr_Open CmdNoFile = Inr empty_repo"
  by (simp add: cr_Open_def empty_repo_def)

lemma sample_repo_eq: "sample_repo = \<lparr>cr_commands = [(''cmd_1'', sample_cmd)], cr_file = Some [sample_cmd]\<rparr>"
  by (simp add: sample_repo_def empty_repo_def CreateOrGet_def cr_write_eq pruneIDsLocked_def gdel_if_def
      sample_cmd_def Let_def)

lemma sample_reachable: "cr_reachable empty_repo sample_repo"
  unfolding sample_repo_def
  by (rule cr_reachable.step [OF cr_reachable.start], rule cr_step.create) (simp add: empty_repo_def)

lemma sample_ok: "cr_ok sample_repo"
  by (rule cr_reachable_ok [OF sample_reachable]) (rule cr_ok_empty [OF empty_open])

lemma sample_get: "cr_Get ''cmd_1'' sample_repo = Inr sample_cmd"
  by (simp add: sample_repo_eq cr_Get_def)

lemma sample_cmd_simps [simp]:
  "c_ID sample_cmd = ''cmd_1''" "c_Status sample_cmd = StatusQueued" "c_Revision sample_cmd = 1"
  "c_AcceptDeadline sample_cmd = None" "c_TimeoutPolicy sample_cmd = \<lparr>tp_Accept = seconds 15, tp_Finish = seconds 60\<rparr>"
  by (simp_all add: sample_cmd_def) (simp add: new_command_def sample_q_def)

section \<open>Outcomes over one step\<close>

definition same_outcome :: "Command \<Rightarrow> Command \<Rightarrow> bool" where
  "same_outcome c c' \<longleftrightarrow> c_Status c' = c_Status c \<and> c_Result c' = c_Result c
     \<and> c_ErrorCode c' = c_ErrorCode c \<and> c_FinishedAt c' = c_FinishedAt c
     \<and> c_FinalAckDigest c' = c_FinalAckDigest c"

definition final_in :: "command_repo \<Rightarrow> string \<Rightarrow> Command \<Rightarrow> command_repo \<Rightarrow> bool" where
  "final_in r k c r' \<longleftrightarrow> (\<exists>c'. gget (cr_commands r') k = Some c' \<and> same_outcome c c')
     \<or> (gget (cr_commands r') k = None \<and> 1000 \<le> length (cr_commands r))"

lemma same_outcome_refl [simp]: "same_outcome c c"
  by (simp add: same_outcome_def)

lemma final_same: "gget (cr_commands r) k = Some c \<Longrightarrow> final_in r k c r"
  by (simp add: final_in_def)

lemma written_final:
  assumes "cr_inv r1" and "gget (cr_commands r1) k = Some c1" and "same_outcome c c1"
    and "length (cr_commands r1) \<le> Suc (length (cr_commands r))"
  shows "ce_WriteOK env \<Longrightarrow> final_in r k c (fst (cr_write env r1))"
proof (cases "k \<in> set (pruneIDsLocked (ce_Now env) r1)")
  case True
  assume ok: "ce_WriteOK env"
  have "1000 < length (cr_commands r1)" using True by (simp add: pruneIDsLocked_def split: if_splits)
  with assms(4) have "1000 \<le> length (cr_commands r)" by linarith
  moreover have "gget (cr_commands (fst (cr_write env r1))) k = None"
    using True by (simp add: written_gget [OF assms(1) ok])
  ultimately show ?thesis by (simp add: final_in_def)
next
  case False
  assume ok: "ce_WriteOK env"
  have "gget (cr_commands (fst (cr_write env r1))) k = Some c1"
    using False assms(2) by (simp add: written_gget [OF assms(1) ok])
  then show ?thesis unfolding final_in_def using assms(3) by blast
qed

lemma length_gput: "gget m k \<noteq> None \<Longrightarrow> length (gput k v m) = length m"
  by (auto simp: length_gdel_gput)

lemma change_final:
  assumes ok: "cr_inv r" and ch: "cmd_change r r'" and c: "gget (cr_commands r) k = Some c" "Terminal c"
  shows "final_in r k c r'"
proof (cases "r' = r")
  case False
  then obtain env j d d' where d: "gget (cr_commands r) j = Some d" "evolves d d'"
      "r' = fst (store_command env j d' r)"
    using ch False unfolding cmd_change_def by blast
  show ?thesis
  proof (cases "ce_WriteOK env")
    case True
    let ?r1 = "r\<lparr>cr_commands := gput j d' (cr_commands r)\<rparr>"
    have "c_ID d = j" using ok d(1) unfolding cr_inv_def by blast
    then have "c_ID d' = j" using d(2) by (simp add: evolves_def)
    then have inv: "cr_inv ?r1" using ok by (simp add: cr_inv_put)
    obtain c1 where "gget (cr_commands ?r1) k = Some c1" "same_outcome c c1"
    proof (cases "j = k")
      case True
      with d(1) c(1) have "d = c" by simp
      with d(2) c(2) have "same_outcome c d'" by (simp add: evolves_def same_outcome_def)
      with True that show thesis by simp
    next
      case False
      then show thesis using c(1) that [of c] by simp
    qed
    moreover have "length (cr_commands ?r1) \<le> Suc (length (cr_commands r))"
      using d(1) by (simp add: length_gput)
    ultimately have "final_in r k c (fst (cr_write env ?r1))" using written_final [OF inv] True by blast
    then show ?thesis using True d(3) by (simp add: store_command_eq)
  qed (use d c in \<open>simp add: store_command_eq final_same\<close>)
qed (use c in \<open>simp add: final_same\<close>)

lemma create_final:
  assumes ok: "cr_inv r" and fresh: "\<forall>k. ce_NewID env = Some k \<longrightarrow> gget (cr_commands r) k = None"
    and c: "gget (cr_commands r) k = Some c"
  shows "final_in r k c (fst (CreateOrGet env q r))"
proof (cases "create_scan q (ce_Sha256 env (cq_Request q)) (gvals (cr_commands r))")
  case (Some x)
  then show ?thesis using c by (cases x) (simp_all add: CreateOrGet_def final_same)
next
  case None
  show ?thesis
  proof (cases "ce_NewID env")
    case (Some j)
    with fresh have j: "gget (cr_commands r) j = None" by simp
    let ?r1 = "r\<lparr>cr_commands := gput j (new_command env q j) (cr_commands r)\<rparr>"
    have "cr_inv ?r1" using ok by (simp add: cr_inv_put)
    moreover have "gget (cr_commands ?r1) k = Some c" using c j by auto
    moreover have "length (cr_commands ?r1) \<le> Suc (length (cr_commands r))" by (simp add: gput_fresh [OF j])
    ultimately have "ce_WriteOK env \<Longrightarrow> final_in r k c (fst (cr_write env ?r1))"
      using written_final [of ?r1 k c c r env] by simp
    then show ?thesis using CreateOrGet_new [OF j Some None] c by (simp add: final_same)
  qed (use None c in \<open>simp add: CreateOrGet_def final_same\<close>)
qed

lemma interrupt_final:
  assumes ok: "cr_inv r" and c: "gget (cr_commands r) k = Some c" "Terminal c"
  shows "final_in r k c (fst (InterruptNonTerminal env now r))"
proof -
  let ?r1 = "r\<lparr>cr_commands := map (\<lambda>(k, c). (k, interrupt_one now c)) (cr_commands r)\<rparr>"
  have inv: "cr_inv ?r1" using ok by (auto simp: cr_inv_def)
  have g: "gget (cr_commands ?r1) k = Some c" using c by simp
  have same: "final_in r k c ?r1" unfolding final_in_def using g same_outcome_refl by blast
  have "fst (InterruptNonTerminal env now r) \<in> {?r1, fst (cr_write env ?r1), r}"
    by (simp add: InterruptNonTerminal_def Let_def cr_write_eq)
  moreover have "final_in r k c (fst (cr_write env ?r1))"
  proof (cases "ce_WriteOK env")
    case True
    then show ?thesis using written_final [OF inv g, of c r env] by simp
  next
    case False
    then show ?thesis using same by (simp add: cr_write_eq)
  qed
  moreover note same
  ultimately show ?thesis using final_same [of r k c, OF c(1)] by auto
qed

lemma step_final:
  assumes "cr_step r r'" and "cr_ok r" and "gget (cr_commands r) k = Some c" and "Terminal c"
  shows "final_in r k c r'"
  using assms
proof (induction rule: cr_step.induct)
  case (reopen r cs r')
  then show ?case using reopen_ok [of r cs r'] by (simp add: final_in_def)
qed (simp_all add: cr_ok_def create_final interrupt_final change_final cmd_changes)

section \<open>Exclusion, outcomes and the file\<close>

text \<open>
  C2: in a store that began empty, after any operations, failed writes and restarts, two
  unfinished commands of one device never exclude each other: they are not of the same kind, and
  not an upgrade and a shutdown.
\<close>

theorem one_command_at_a_time:
  assumes "cr_Open CmdNoFile = Inr r0" and "cr_reachable r0 r"
    and "cr_Get k r = Inr c" and "cr_Get k' r = Inr c'" and "\<not> Terminal c" and "\<not> Terminal c'"
    and "c_DeviceID c = c_DeviceID c'"
    and "c_Kind c = c_Kind c' \<or> {c_Kind c, c_Kind c'} = {KindUpgrade, KindShutdown}"
  shows "k = k' \<and> c = c'"
proof -
  have "exclusive r" using cr_reachable_ok [OF assms(2) cr_ok_empty [OF assms(1)]] by (simp add: cr_ok_def)
  moreover have "excludes (c_Kind c) (c_Kind c')"
    using assms(8) by (auto simp: excludes_def doubleton_eq_iff)
  ultimately have "k = k'" using exclusiveD assms(3-7) by (simp add: cr_Get_iff)
  with assms(3,4) show ?thesis by simp
qed

theorem one_command_at_a_time_witness:
  "cr_Get ''cmd_1'' sample_repo = Inr sample_cmd \<and> ''cmd_1'' = ''cmd_1'' \<and> sample_cmd = sample_cmd"
  using one_command_at_a_time [OF empty_open sample_reachable sample_get sample_get]
  by (simp add: Terminal_def sample_get)

text \<open>
  C10: a finished command is final: no operation and no restart changes its status, result, error,
  finishing time or acknowledgement; it can only leave the store, when a thousand are kept.
\<close>

theorem finished_command_final:
  assumes "cr_ok r" and "cr_step r r'" and "cr_Get k r = Inr c" and "Terminal c"
  shows "(\<exists>c'. cr_Get k r' = Inr c' \<and> c_Status c' = c_Status c \<and> c_Result c' = c_Result c
      \<and> c_ErrorCode c' = c_ErrorCode c \<and> c_FinishedAt c' = c_FinishedAt c
      \<and> c_FinalAckDigest c' = c_FinalAckDigest c)
    \<or> (cr_Get k r' = Inl ErrCmdNotFound \<and> 1000 \<le> length (cr_commands r))"
proof -
  have "gget (cr_commands r) k = Some c" using assms(3) by (simp add: cr_Get_iff)
  from step_final [OF assms(2,1) this assms(4)] show ?thesis
    by (auto simp: final_in_def same_outcome_def cr_Get_def)
qed

lemma canceled_sample:
  "\<exists>c. cr_Get ''cmd_1'' (fst (Cancel any_repo sample_cmd_env ''cmd_1'' sample_repo)) = Inr c
     \<and> c_Status c = StatusCanceled \<and> c_LateAcks c = [] \<and> c_FinalAckDigest c = []"
  by (simp add: Cancel_def file_repository_def sample_get transition_cases sample_repo_eq valid_def
      store_command_eq cr_write_eq pruneIDsLocked_def gdel_if_def cr_Get_def Let_def is_zero_time_def seconds_def
      apply_transition_def Terminal_def)
    (simp add: sample_cmd_def new_command_def)

theorem finished_command_final_witness:
  "\<exists>c. cr_Get ''cmd_1'' (fst (InterruptNonTerminal sample_cmd_env 5
      (fst (Cancel any_repo sample_cmd_env ''cmd_1'' sample_repo)))) = Inr c \<and> c_Status c = StatusCanceled"
proof -
  let ?r = "fst (Cancel any_repo sample_cmd_env ''cmd_1'' sample_repo)"
  obtain c where c: "cr_Get ''cmd_1'' ?r = Inr c" "c_Status c = StatusCanceled"
    using canceled_sample by blast
  have r: "?r = fst (cr_Transition sample_cmd_env ''cmd_1'' 1 (plain_transition StatusCanceled (seconds 100)) sample_repo)"
    by (simp add: Cancel_def file_repository_def sample_get)
  have "cr_ok ?r" unfolding r by (rule cr_step_ok [OF cr_step.transition sample_ok])
  moreover have "length (cr_commands ?r) < 1000"
    unfolding r
    by (simp add: transition_cases sample_repo_eq valid_def store_command_eq cr_write_eq
        pruneIDsLocked_def gdel_if_def Let_def)
  ultimately show ?thesis
    using finished_command_final [OF _ cr_step.interrupt c(1), of sample_cmd_env 5] c(2)
    by (auto simp: Terminal_def)
qed



lemma length_gdel_keys:
  assumes "wf_map m" and "distinct ks" and "set ks \<subseteq> set (gkeys m)"
  shows "length (gdel_if (\<lambda>k _. k \<in> set ks) m) = length m - length ks"
proof -
  have keys: "gkeys (gdel_if (\<lambda>k _. k \<in> set ks) m) = filter (\<lambda>k. k \<notin> set ks) (gkeys m)"
    by (induction m) (auto simp: gdel_if_def)
  have "length (gdel_if (\<lambda>k _. k \<in> set ks) m) = length (filter (\<lambda>k. k \<notin> set ks) (gkeys m))"
    by (metis keys length_map)
  also have "\<dots> = card (set (gkeys m) - set ks)"
  proof -
    have "{k. k \<notin> set ks} \<inter> set (gkeys m) = set (gkeys m) - set ks" by blast
    then show ?thesis
      using distinct_length_filter [of "gkeys m" "\<lambda>k. k \<notin> set ks"] assms(1) by (simp only: wf_map_def)
  qed
  also have "\<dots> = length m - length ks"
    using assms by (simp add: card_Diff_subset wf_map_def distinct_card [symmetric] del: set_map)
      (metis distinct_card length_map)
  finally show ?thesis .
qed

lemma pruned_list:
  assumes "cr_inv r"
  shows "distinct (pruneIDsLocked now r)" and "set (pruneIDsLocked now r) \<subseteq> set (gkeys (cr_commands r))"
    and "length (pruneIDsLocked now r) \<le> length (cr_commands r) - 1000"
proof -
  let ?cs = "go_sort finished_before (filter (prune_candidate now) (gvals (cr_commands r)))"
  have "distinct (map c_ID (filter (prune_candidate now) (gvals (cr_commands r))))"
    using assms by (intro distinct_map_filter) (simp only: cr_inv_ids, simp add: cr_inv_def wf_map_def)
  moreover have "mset (map c_ID ?cs) = mset (map c_ID (filter (prune_candidate now) (gvals (cr_commands r))))"
    by simp
  ultimately have "distinct (map c_ID ?cs)" by (metis mset_eq_imp_distinct_iff)
  then have "distinct (take n (map c_ID ?cs))" for n by (rule distinct_take)
  then show "distinct (pruneIDsLocked now r)" by (simp add: pruneIDsLocked_def prune_loop_take take_map)
  show "set (pruneIDsLocked now r) \<subseteq> set (gkeys (cr_commands r))"
  proof
    fix k assume "k \<in> set (pruneIDsLocked now r)"
    then obtain c where "gget (cr_commands r) k = Some c" using pruned_candidate [OF assms] by blast
    then show "k \<in> set (gkeys (cr_commands r))" by (force dest: map_of_SomeD)
  qed
  show "length (pruneIDsLocked now r) \<le> length (cr_commands r) - 1000"
    by (simp add: pruneIDsLocked_def prune_loop_take)
qed

lemma pruned_oldest:
  assumes "cr_inv r" and "k \<in> set (pruneIDsLocked now r)" and "gget (cr_commands r) k = Some c"
    and "gget (cr_commands r) k' = Some c'" and "k' \<notin> set (pruneIDsLocked now r)" and "prune_candidate now c'"
  shows "\<not> finished_before c' c"
proof -
  let ?cs = "go_sort finished_before (filter (prune_candidate now) (gvals (cr_commands r)))"
  define n where "n = length (cr_commands r) - 1000"
  have pr: "pruneIDsLocked now r = map c_ID (take n ?cs)"
    using assms(2) by (auto simp: pruneIDsLocked_def prune_loop_take n_def split: if_splits)
  have ids: "c_ID c = k" "c_ID c' = k'" using assms(1,3,4) unfolding cr_inv_def by blast+
  obtain d where d: "d \<in> set (take n ?cs)" "c_ID d = k" using assms(2) unfolding pr by auto
  then have "d \<in> set (gvals (cr_commands r))" by (auto dest!: in_set_takeD simp del: set_map)
  with cr_inv_val [OF assms(1), of d] d(2) assms(3) have "d = c" by simp
  moreover have "c' \<in> set ?cs" using assms(6) gget_in_vals [OF assms(4)] by (simp del: set_map)
  moreover have "c' \<notin> set (take n ?cs)" using assms(5) ids unfolding pr by auto
  ultimately have "c \<in> set (take n ?cs)" "c' \<in> set (drop n ?cs)"
    using d(1) append_take_drop_id [of n ?cs] by (blast, metis Un_iff set_append)
  moreover have "sorted_wrt (\<lambda>x y. \<not> finished_before y x) (take n ?cs @ drop n ?cs)"
    using finished_order.sorted_go_sort by simp
  ultimately show ?thesis unfolding sorted_wrt_append by blast
qed

definition old_command :: "nat \<Rightarrow> Command" where
  "old_command n = sample_cmd\<lparr>c_ID := replicate n CHR ''a'', c_Status := StatusSucceeded, c_FinishedAt := Some 0\<rparr>"

definition big_repo :: "nat \<Rightarrow> command_repo" where
  "big_repo n = \<lparr>cr_commands = map (\<lambda>i. (c_ID (old_command i), old_command i)) [0..<n], cr_file = None\<rparr>"

lemma big_repo_inv: "cr_inv (big_repo n)"
proof -
  have "inj (\<lambda>i. replicate i CHR ''a'')" by (metis injI length_replicate)
  then have "wf_map (cr_commands (big_repo n))"
    by (simp add: big_repo_def wf_map_def comp_def distinct_map old_command_def inj_on_subset [of _ UNIV])
  then show ?thesis by (auto simp: cr_inv_def gget_iff_in_set) (auto simp: big_repo_def)
qed

text \<open>
  pruning keeps what it must: it never leaves fewer than a thousand commands, drops only
  finished commands whose end lies more than thirty days back, and keeps no such command that
  finished before one it drops.
\<close>

theorem pruning_bounds:
  assumes "cr_inv r" and "1000 \<le> length (cr_commands r)" and "r' = fst (cr_write env r)"
  shows "1000 \<le> length (cr_commands r')
    \<and> (cr_Get k r = Inr c \<and> isl (cr_Get k r') \<longrightarrow>
        Terminal c \<and> (\<exists>t. c_FinishedAt c = Some t \<and> t < ce_Now env - hours (30 * 24))
        \<and> (\<forall>k' c'. cr_Get k' r' = Inr c' \<and> prune_candidate (ce_Now env) c' \<longrightarrow> \<not> finished_before c' c))"
proof (cases "ce_WriteOK env")
  case False
  then have "r' = r" using assms(3) by (simp add: cr_write_eq)
  with assms(2) show ?thesis by auto
next
  case True
  let ?D = "pruneIDsLocked (ce_Now env) r"
  have "length (cr_commands r') = length (cr_commands r) - length ?D"
    using True assms(1,3) pruned_list [OF assms(1), of "ce_Now env"]
    by (simp add: cr_write_eq Let_def length_gdel_keys cr_inv_def)
  then have "1000 \<le> length (cr_commands r')" using pruned_list(3) [OF assms(1), of "ce_Now env"] assms(2) by simp
  moreover have "Terminal c \<and> (\<exists>t. c_FinishedAt c = Some t \<and> t < ce_Now env - hours (30 * 24))
        \<and> (\<forall>k' c'. cr_Get k' r' = Inr c' \<and> prune_candidate (ce_Now env) c' \<longrightarrow> \<not> finished_before c' c)"
    if c: "cr_Get k r = Inr c \<and> isl (cr_Get k r')"
  proof -
    have g: "gget (cr_commands r) k = Some c" using c by (simp add: cr_Get_iff)
    have w: "gget (cr_commands r') j = (if j \<in> set ?D then None else gget (cr_commands r) j)" for j
      using written_gget [OF assms(1) True] by (simp add: assms(3))
    have k: "k \<in> set ?D" using c w [of k] g by (auto simp: cr_Get_def split: option.splits if_splits)
    then have "prune_candidate (ce_Now env) c" using pruned_candidate [OF assms(1) k] g by simp
    moreover have "\<not> finished_before c' c" if "cr_Get k' r' = Inr c'" "prune_candidate (ce_Now env) c'" for k' c'
    proof (rule pruned_oldest [OF assms(1) k g _ _ that(2)])
      show "gget (cr_commands r) k' = Some c'" "k' \<notin> set ?D"
        using that(1) w [of k'] by (auto simp: cr_Get_iff split: if_splits)
    qed
    ultimately show ?thesis by (auto simp: prune_candidate_def split: option.splits)
  qed
  ultimately show ?thesis by blast
qed

theorem pruning_bounds_witness:
  "1000 \<le> length (cr_commands (fst (cr_write (sample_cmd_env\<lparr>ce_Now := hours 1000\<rparr>) (big_repo 1005))))"
  using pruning_bounds [OF big_repo_inv _ refl, of 1005] by (simp add: big_repo_def)

text \<open>
  updates are compare-and-set: a revision serves for one change only. After a transition that
  changed the status, every further transition, acknowledgement, projection or progress with the
  same revision fails and changes nothing.
\<close>

theorem stale_revision_refused:
  assumes "cr_inv r" and "cr_Get k r = Inr c" and "c_Status c \<noteq> t_Status t" and "t_At t = ce_Now env"
    and "cr_Transition env k v t r = (r1, Inr c1)"
  shows "cr_Transition env' k v t' r1 = (r1, Inl ErrConflict)
    \<and> AppendLateAck env' k v ack r1 = (r1, Inl ErrConflict)
    \<and> UpdateProjection env' k v p r1 = (r1, Inl ErrConflict)
    \<and> UpdateProgress env' k v up r1 = (r1, Inl ErrConflict)"
proof -
  have "gget (cr_commands r) k = Some c" using assms(2) by (simp add: cr_Get_iff)
  from transition_stored [OF assms(1) this assms(3-5)]
  have "gget (cr_commands r1) k = Some c1" "c_Revision c1 = v + 1" by (auto simp: cr_Get_iff)
  then show ?thesis
    by (simp add: cr_Transition_def AppendLateAck_def UpdateProjection_def UpdateProgress_def)
qed

theorem stale_revision_refused_witness:
  "\<exists>r1 c1. cr_Transition sample_cmd_env ''cmd_1'' 1 (plain_transition StatusDispatching (seconds 100)) sample_repo
       = (r1, Inr c1)
     \<and> cr_Transition sample_cmd_env ''cmd_1'' 1 (plain_transition StatusCanceled 0) r1 = (r1, Inl ErrConflict)"
proof -
  let ?t = "plain_transition StatusDispatching (seconds 100)"
  have g: "gget (cr_commands sample_repo) ''cmd_1'' = Some sample_cmd" by (simp add: sample_repo_eq)
  obtain r1 c1 where tr: "cr_Transition sample_cmd_env ''cmd_1'' 1 ?t sample_repo = (r1, Inr c1)"
    by (simp add: transition_cases [OF g] valid_def Let_def)
  have "cr_inv sample_repo" using sample_ok by (simp add: cr_ok_def)
  from stale_revision_refused [OF this sample_get _ _ tr] tr show ?thesis by simp
qed

lemma create_scan_only:
  assumes "c \<in> set cs" and "same_request q c" and "c_RequestDigest c = d"
    and "\<And>x. x \<in> set cs \<Longrightarrow> x \<noteq> c \<Longrightarrow> \<not> same_request q x \<and> \<not> in_progress q x"
  shows "create_scan q d cs = Some (Inr c)"
  using assms
proof (induction cs)
  case (Cons y cs)
  show ?case
  proof (cases "y = c")
    case False
    then have "\<not> same_request q y \<and> \<not> in_progress q y" using Cons.prems(4) [of y] by simp
    moreover have "create_scan q d cs = Some (Inr c)" using False Cons.prems by (intro Cons.IH) auto
    ultimately show ?thesis by simp
  qed (use Cons.prems in simp)
qed simp

lemma CreateOrGet_created:
  assumes "cr_inv r" and "\<And>k. ce_NewID env = Some k \<Longrightarrow> cr_Get k r = Inl ErrCmdNotFound"
    and "CreateOrGet env q r = (r1, Inr (c, True))"
  shows "c = new_command env q (c_ID c) \<and> cr_inv r1 \<and> cr_Get (c_ID c) r1 = Inr c
    \<and> (\<forall>x \<in> set (gvals (cr_commands r1)). x = c \<or> (\<not> same_request q x \<and> \<not> in_progress q x))"
proof -
  have none: "create_scan q (ce_Sha256 env (cq_Request q)) (gvals (cr_commands r)) = None"
    using assms(3) by (auto simp: CreateOrGet_def split: option.splits sum.splits)
  then obtain k where k: "ce_NewID env = Some k"
    using assms(3) by (cases "ce_NewID env") (simp_all add: CreateOrGet_def)
  with assms(2) have fresh: "gget (cr_commands r) k = None" by (auto simp: cr_Get_def split: option.splits)
  let ?r' = "r\<lparr>cr_commands := gput k (new_command env q k) (cr_commands r)\<rparr>"
  have c: "ce_WriteOK env" "c = new_command env q k" "r1 = fst (cr_write env ?r')"
    using assms(3) CreateOrGet_new [OF fresh k none] by (auto split: if_splits)
  have inv: "cr_inv ?r'" using assms(1) by (simp add: cr_inv_put)
  have w: "gget (cr_commands r1) j = (if j \<in> set (pruneIDsLocked (ce_Now env) ?r') then None
      else gget (gput k c (cr_commands r)) j)" for j
    using written_gget [OF inv c(1)] c by simp
  have "k \<notin> set (pruneIDsLocked (ce_Now env) ?r')"
    using pruned_candidate [OF inv, of k "ce_Now env"] by (auto simp: prune_candidate_def Terminal_def)
  with w [of k] have g: "gget (cr_commands r1) k = Some c" by simp
  have inv1: "cr_inv r1" using written_inv [OF inv] c(3) by simp
  have "x = c \<or> (\<not> same_request q x \<and> \<not> in_progress q x)" if "x \<in> set (gvals (cr_commands r1))" for x
  proof -
    have "gget (cr_commands r1) (c_ID x) = Some x" using cr_inv_val [OF inv1] that by blast
    then have "x = c \<or> gget (cr_commands r) (c_ID x) = Some x" using w [of "c_ID x"] by (auto split: if_splits)
    then show ?thesis using create_scan_None [OF none] gget_in_vals by metis
  qed
  with inv1 g c(2) show ?thesis by (simp add: cr_Get_iff)
qed

text \<open>
  creating is idempotent: repeating a request that created a command, with its idempotency
  key, returns that command again, creates nothing and reports so.
\<close>

theorem create_idempotent:
  assumes "cr_inv r" and "cq_IdempotencyKey q \<noteq> []" and "\<And>k. ce_NewID env = Some k \<Longrightarrow> cr_Get k r = Inl ErrCmdNotFound"
    and "CreateOrGet env q r = (r1, Inr (c, True))" and "ce_Sha256 env' = ce_Sha256 env"
  shows "CreateOrGet env' q r1 = (r1, Inr (c, False)) \<and> cr_Get (c_ID c) r1 = Inr c"
proof -
  note cr = CreateOrGet_created [OF assms(1,3,4)]
  have c: "c_RequestDigest c = ce_Sha256 env' (cq_Request q)" "same_request q c"
    using cr assms(2,5) by (metis new_command_fields(6), metis new_command_fields(7) same_request_def)
  have "c \<in> set (gvals (cr_commands r1))" using cr by (meson cr_Get_iff gget_in_vals)
  then have "create_scan q (ce_Sha256 env' (cq_Request q)) (gvals (cr_commands r1)) = Some (Inr c)"
    using cr c by (intro create_scan_only) blast+
  with cr show ?thesis by (simp add: CreateOrGet_def)
qed

theorem create_idempotent_witness:
  "\<exists>c. CreateOrGet sample_cmd_env sample_q sample_repo = (sample_repo, Inr (c, False))"
proof -
  have "CreateOrGet sample_cmd_env sample_q empty_repo = (sample_repo, Inr (sample_cmd, True))"
    unfolding sample_repo_eq
    by (simp add: empty_repo_def CreateOrGet_def cr_write_eq pruneIDsLocked_def gdel_if_def sample_cmd_def Let_def)
  from create_idempotent [OF _ _ _ this refl] show ?thesis
    by (auto simp: empty_repo_def cr_inv_def sample_q_def cr_Get_def)
qed

text \<open>
  finishing is idempotent: an agent that repeats its final acknowledgement gets the finished
  command again and changes nothing, and the command keeps the digest of that acknowledgement.
\<close>

theorem finish_idempotent:
  assumes "cr_inv r" and "status = StatusSucceeded \<or> status = StatusFailed"
    and "Finish (file_repository enc dec) env k status result code msg r = (r1, (Some c, None))"
    and "ce_AckDigest env' = ce_AckDigest env"
  shows "Finish (file_repository enc dec) env' k status result code msg r1 = (r1, (Some c, None))
    \<and> Terminal c \<and> c_FinalAckDigest c = ce_AckDigest env status result code msg"
  using file_repo.finish_again [OF assms(1) _ assms(3,4)] assms(2) by simp

definition dispatched_repo :: command_repo where
  "dispatched_repo = fst (StartDispatch any_repo sample_cmd_env ''cmd_1'' sample_repo)"

definition dispatched_cmd :: Command where
  "dispatched_cmd = apply_transition (seconds 100)
     ((plain_transition StatusDispatching (seconds 100))\<lparr>t_AttemptID := ''cmd_1''\<rparr>) sample_cmd"

lemma dispatched_repo_eq: "dispatched_repo = \<lparr>cr_commands = [(''cmd_1'', dispatched_cmd)], cr_file = Some [dispatched_cmd]\<rparr>"
proof -
  have g: "gget (cr_commands sample_repo) ''cmd_1'' = Some sample_cmd" by (simp add: sample_repo_eq)
  show ?thesis
    by (simp add: dispatched_repo_def StartDispatch_def file_repository_def sample_get transition_cases [OF g]
        valid_def Let_def is_zero_time_def seconds_def store_command_eq)
      (simp add: sample_repo_eq cr_write_eq pruneIDsLocked_def gdel_if_def dispatched_cmd_def seconds_def)
qed

lemma dispatched_inv: "cr_inv dispatched_repo"
  by (simp add: dispatched_repo_eq cr_inv_def dispatched_cmd_def)

lemma dispatched_cmd_simps [simp]:
  "c_ID dispatched_cmd = ''cmd_1''" "c_Status dispatched_cmd = StatusDispatching" "c_Revision dispatched_cmd = 2"
  "c_AcceptDeadline dispatched_cmd = Some (seconds 115)"
  by (simp_all add: dispatched_cmd_def apply_transition_deadlines seconds_def)

theorem finish_idempotent_witness:
  "\<exists>r1 c. Finish any_repo sample_cmd_env ''cmd_1'' StatusSucceeded ''ok'' [] [] dispatched_repo = (r1, (Some c, None))
     \<and> Finish any_repo sample_cmd_env ''cmd_1'' StatusSucceeded ''ok'' [] [] r1 = (r1, (Some c, None))"
proof -
  have g: "gget (cr_commands dispatched_repo) ''cmd_1'' = Some dispatched_cmd" by (simp add: dispatched_repo_eq)
  obtain r1 c where f: "Finish any_repo sample_cmd_env ''cmd_1'' StatusSucceeded ''ok'' [] [] dispatched_repo
      = (r1, (Some c, None))"
    using g by (simp add: Finish_def file_repository_def cr_Get_def transition_cases [OF g] valid_def
        Terminal_def Let_def as_pair_def)
  from finish_idempotent [OF dispatched_inv _ f refl] f show ?thesis by blast
qed

text \<open>
  one late acknowledgement: after a timeout, cancellation or interruption, the first late
  acknowledgement is kept for audit, its repetition is answered alike and stored once, and any
  other is refused. None of them changes the outcome.
\<close>

theorem late_ack_kept_once:
  assumes "cr_Get k r = Inr c" and "c_Status c \<in> {StatusTimedOut, StatusCanceled, StatusInterrupted}"
    and "c_LateAcks c = [a]" and "c_FinalAckDigest c \<noteq> ce_AckDigest env status result code msg"
  shows "Finish (file_repository enc dec) env k status result code msg r =
    (if la_Digest a = ce_AckDigest env status result code msg then (r, (Some c, Some ErrLateAckAccepted))
     else (r, (None, Some ErrInvalidTransition)))"
  using assms by (intro file_repo.late_ack_once) (simp_all add: file_repository_def)

theorem late_ack_kept_once_witness:
  "Finish any_repo sample_cmd_env ''cmd_1'' StatusFailed ''late'' [] []
     \<lparr>cr_commands = [(''cmd_1'', sample_cmd\<lparr>c_Status := StatusTimedOut,
        c_LateAcks := [\<lparr>la_Digest = ''other'', la_ReceivedAt = 1, la_Conflict = False\<rparr>]\<rparr>)], cr_file = None\<rparr>
   = (\<lparr>cr_commands = [(''cmd_1'', sample_cmd\<lparr>c_Status := StatusTimedOut,
        c_LateAcks := [\<lparr>la_Digest = ''other'', la_ReceivedAt = 1, la_Conflict = False\<rparr>]\<rparr>)], cr_file = None\<rparr>,
      (None, Some ErrInvalidTransition))"
proof -
  let ?c = "sample_cmd\<lparr>c_Status := StatusTimedOut,
     c_LateAcks := [\<lparr>la_Digest = ''other'', la_ReceivedAt = 1, la_Conflict = False\<rparr>]\<rparr>"
  have "c_FinalAckDigest ?c = []" by (simp add: sample_cmd_def new_command_def)
  then show ?thesis
    by (subst late_ack_kept_once [where c = ?c
          and a = "\<lparr>la_Digest = ''other'', la_ReceivedAt = 1, la_Conflict = False\<rparr>"])
      (simp_all add: cr_Get_def sample_cmd_env_def)
qed

section \<open>Timeouts\<close>

text \<open>
  the sweep is blocked by a requeued command: \<open>Requeue\<close> leaves the accept deadline of the
  failed dispatch in place, so that the queued command is listed as expired, its transition to
  \<open>timed_out\<close> is invalid, and the sweep stops there: nothing with a later deadline times out.
\<close>

theorem requeued_command_blocks_timeouts:
  assumes "cr_inv r" and "cr_Get k r = Inr c" and "c_Status c = StatusQueued"
    and "c_AcceptDeadline c = Some d" and "d \<le> ce_Now (envs 0)" and "0 < n"
    and "\<And>k' c'. cr_Get k' r = Inr c' \<Longrightarrow> expired_at (ce_Now (envs 0)) c' \<Longrightarrow> k' \<noteq> k \<Longrightarrow> due_before c c'"
  shows "Expire (file_repository enc dec) envs n r = (r, 0, Some ErrInvalidTransition)"
proof -
  let ?now = "ce_Now (envs 0)"
  let ?xs = "filter (expired_at ?now) (gvals (cr_commands r))"
  have g: "gget (cr_commands r) k = Some c" using assms(2) by (simp add: cr_Get_iff)
  have "expired_at ?now c" using assms(3-5) by (simp add: expired_at_def Terminal_def deadline_def)
  then have "c \<in> set (go_sort due_before ?xs)" using gget_in_vals [OF g] by (simp del: set_map)
  then obtain y ys where ys: "go_sort due_before ?xs = y # ys" by (cases "go_sort due_before ?xs") auto
  have "y \<in> set (go_sort due_before ?xs)" using ys by simp
  then have y: "y \<in> set (gvals (cr_commands r))" "expired_at ?now y" by (simp_all del: set_map)
  have "y = c"
  proof (rule ccontr)
    assume ne: "y \<noteq> c"
    have gy: "gget (cr_commands r) (c_ID y) = Some y" using cr_inv_val [OF assms(1)] y(1) by blast
    with g ne have "c_ID y \<noteq> k" by auto
    with assms(7) gy y(2) have "due_before c y" by (simp add: cr_Get_iff)
    moreover have "c \<in> set ys" using \<open>c \<in> set (go_sort due_before ?xs)\<close> ys ne by auto
    ultimately show False using due_order.head_is_least [OF ys] by blast
  qed
  then have "limited n (c # ys) \<noteq> []" "hd (limited n (c # ys)) = c" using assms(6) by (simp_all add: limited_def)
  then obtain zs where "limited n (c # ys) = c # zs" by (cases "limited n (c # ys)") auto
  then have "ListExpired ?now n r = c # zs" using ys \<open>y = c\<close> by (simp add: ListExpired_def)
  then have "rp_ListExpired (file_repository enc dec) ?now n r = c # zs" by (simp add: file_repository_def)
  then show ?thesis
    by (rule file_repo.expire_stops [where envs = envs and s = r, OF assms(1) _ assms(3)])
qed

definition requeued_repo :: command_repo where
  "requeued_repo = fst (Requeue any_repo sample_cmd_env ''cmd_1'' dispatched_repo)"

definition requeued_cmd :: Command where
  "requeued_cmd = apply_transition (seconds 100) (plain_transition StatusQueued (seconds 100)) dispatched_cmd"

lemma requeued_repo_eq: "requeued_repo = \<lparr>cr_commands = [(''cmd_1'', requeued_cmd)], cr_file = Some [requeued_cmd]\<rparr>"
proof -
  have g: "gget (cr_commands dispatched_repo) ''cmd_1'' = Some dispatched_cmd" by (simp add: dispatched_repo_eq)
  show ?thesis
    by (simp add: requeued_repo_def Requeue_def file_repository_def cr_Get_def g transition_cases [OF g]
        valid_def Let_def is_zero_time_def seconds_def store_command_eq)
      (simp add: dispatched_repo_eq cr_write_eq pruneIDsLocked_def gdel_if_def requeued_cmd_def seconds_def)
qed

theorem requeued_command_blocks_timeouts_witness:
  "Expire any_repo (\<lambda>_. sample_cmd_env\<lparr>ce_Now := seconds 116\<rparr>) 128
     (fst (Requeue any_repo sample_cmd_env ''cmd_1'' (fst (StartDispatch any_repo sample_cmd_env ''cmd_1'' sample_repo))))
   = (requeued_repo, 0, Some ErrInvalidTransition)"
proof -
  have "cr_inv requeued_repo" by (simp add: requeued_repo_eq cr_inv_def requeued_cmd_def)
  moreover have "cr_Get ''cmd_1'' requeued_repo = Inr requeued_cmd" by (simp add: requeued_repo_eq cr_Get_def)
  ultimately show ?thesis
    unfolding requeued_repo_def [symmetric, unfolded dispatched_repo_def]
    by (rule requeued_command_blocks_timeouts)
      (auto simp: requeued_cmd_def apply_transition_deadlines seconds_def requeued_repo_eq cr_Get_def)
qed

lemma timeout_step:
  assumes inv: "cr_inv r" and get: "gget (cr_commands r) k = Some c" and ok: "ce_WriteOK env"
    and st: "c_Status c \<in> {StatusDispatching, StatusDispatched, StatusAccepted}"
  shows "\<exists>r1 c1. cr_Transition env k (c_Revision c) (timeout_transition (ce_Now env)) r = (r1, Inr c1)
    \<and> cr_inv r1 \<and> c_Status c1 = StatusTimedOut \<and> c_FinishedAt c1 = Some (ce_Now env)
    \<and> gget (cr_commands r1) k = Some c1
    \<and> (\<forall>k' c'. k' \<noteq> k \<longrightarrow> gget (cr_commands r) k' = Some c' \<longrightarrow> \<not> prune_candidate (ce_Now env) c' \<longrightarrow>
         gget (cr_commands r1) k' = Some c')"
proof -
  let ?t = "timeout_transition (ce_Now env)"
  let ?c1 = "apply_transition (ce_Now env) ?t c"
  let ?r1 = "r\<lparr>cr_commands := gput k ?c1 (cr_commands r)\<rparr>"
  have t: "t_Status ?t = StatusTimedOut" "t_At ?t = ce_Now env" by (simp_all add: timeout_transition_def)
  have v: "valid (c_Status c) StatusTimedOut" "c_Status c \<noteq> StatusTimedOut" using st by (auto simp: valid_def)
  have tr: "cr_Transition env k (c_Revision c) ?t r = (fst (cr_write env ?r1), Inr ?c1)"
    using v ok by (simp add: transition_cases [OF get] t Let_def store_command_eq)
  have "c_ID c = k" using inv get by (simp add: cr_inv_def)
  then have inv1: "cr_inv ?r1" using inv by (simp add: cr_inv_put)
  have fin: "c_FinishedAt ?c1 = Some (ce_Now env)" by (rule apply_transition_finished) (simp add: t)
  have keep: "gget (cr_commands (fst (cr_write env ?r1))) k' = Some c'"
    if "gget (cr_commands ?r1) k' = Some c'" "\<not> prune_candidate (ce_Now env) c'" for k' c'
    using that pruned_candidate [OF inv1, of k' "ce_Now env"] by (auto simp: written_gget [OF inv1 ok])
  have "gget (cr_commands (fst (cr_write env ?r1))) k = Some ?c1"
    using fin by (intro keep) (auto intro!: fresh_not_pruned)
  then show ?thesis
    using tr written_inv [OF inv1] fin keep t by auto
qed

lemma expire_all:
  assumes "cr_inv r" and "ce_WriteOK env" and "distinct (map c_ID cs)"
    and "\<forall>c \<in> set cs. gget (cr_commands r) (c_ID c) = Some c
      \<and> c_Status c \<in> {StatusDispatching, StatusDispatched, StatusAccepted}"
  shows "\<exists>r'. expire_loop (file_repository enc dec) (\<lambda>_. env) i cs n r = (r', n + length cs, None)
    \<and> (\<forall>c \<in> set cs. \<exists>c'. gget (cr_commands r') (c_ID c) = Some c' \<and> c_Status c' = StatusTimedOut)
    \<and> (\<forall>k' c'. gget (cr_commands r) k' = Some c' \<longrightarrow> k' \<notin> c_ID ` set cs \<longrightarrow> \<not> prune_candidate (ce_Now env) c' \<longrightarrow>
         gget (cr_commands r') k' = Some c')"
  using assms
proof (induction cs arbitrary: r i n)
  case (Cons c cs)
  then have g: "gget (cr_commands r) (c_ID c) = Some c"
    and st: "c_Status c \<in> {StatusDispatching, StatusDispatched, StatusAccepted}" by auto
  obtain r1 c1 where s: "cr_Transition env (c_ID c) (c_Revision c) (timeout_transition (ce_Now env)) r = (r1, Inr c1)"
      "cr_inv r1" "c_Status c1 = StatusTimedOut" "c_FinishedAt c1 = Some (ce_Now env)"
      "gget (cr_commands r1) (c_ID c) = Some c1"
    and keep: "\<And>k' c'. k' \<noteq> c_ID c \<Longrightarrow> gget (cr_commands r) k' = Some c' \<Longrightarrow> \<not> prune_candidate (ce_Now env) c' \<Longrightarrow>
         gget (cr_commands r1) k' = Some c'"
    using timeout_step [OF Cons.prems(1) g Cons.prems(2) st] by blast
  have "gget (cr_commands r1) (c_ID d) = Some d" if "d \<in> set cs" for d
  proof (rule keep)
    show "c_ID d \<noteq> c_ID c" using Cons.prems(3) that by (metis distinct.simps(2) image_eqI list.simps(9) set_map)
    show "\<not> prune_candidate (ce_Now env) d" using Cons.prems(4) that by (auto simp: prune_candidate_def Terminal_def)
  qed (use Cons.prems(4) that in auto)
  with Cons.prems s(2) obtain r' where r': "expire_loop (file_repository enc dec) (\<lambda>_. env) (Suc i) cs (Suc n) r1
      = (r', Suc n + length cs, None)"
    and timed: "\<forall>c \<in> set cs. \<exists>c'. gget (cr_commands r') (c_ID c) = Some c' \<and> c_Status c' = StatusTimedOut"
    and rest: "\<forall>k' c'. gget (cr_commands r1) k' = Some c' \<longrightarrow> k' \<notin> c_ID ` set cs \<longrightarrow> \<not> prune_candidate (ce_Now env) c' \<longrightarrow>
         gget (cr_commands r') k' = Some c'"
    using Cons.IH [of r1 "Suc i" "Suc n"] by auto
  have "\<not> prune_candidate (ce_Now env) c1" using s(4) by (intro fresh_not_pruned) simp
  moreover have "c_ID c \<notin> c_ID ` set cs" using Cons.prems(3) by simp
  ultimately have "gget (cr_commands r') (c_ID c) = Some c1" using rest s(5) by blast
  moreover have "expire_loop (file_repository enc dec) (\<lambda>_. env) i (c # cs) n r = (r', n + length (c # cs), None)"
    using s(1) r' by (simp add: file_repository_def)
  moreover have "gget (cr_commands r') k' = Some c'"
    if "gget (cr_commands r) k' = Some c'" "k' \<notin> c_ID ` set (c # cs)" "\<not> prune_candidate (ce_Now env) c'" for k' c'
    using that keep [of k' c'] rest by simp
  ultimately show ?case using timed s(3) by (intro exI [of _ r']) auto
qed simp

text \<open>
  without such a command the sweep does its work: when no expired command is queued and writes
  succeed, every expired command has timed out afterwards, and the sweep counts them all.
\<close>

theorem expired_commands_time_out:
  assumes "cr_inv r" and "ce_WriteOK env" and "n \<le> 0"
    and "\<And>k c. cr_Get k r = Inr c \<Longrightarrow> expired_at (ce_Now env) c \<Longrightarrow>
      c_Status c \<in> {StatusDispatching, StatusDispatched, StatusAccepted}"
    and "Expire (file_repository enc dec) (\<lambda>_. env) n r = (r', cnt, e)"
  shows "e = None \<and> cnt = length (filter (expired_at (ce_Now env)) (gvals (cr_commands r)))
    \<and> (cr_Get k r = Inr c \<longrightarrow> expired_at (ce_Now env) c \<longrightarrow> (\<exists>c'. cr_Get k r' = Inr c' \<and> c_Status c' = StatusTimedOut))
    \<and> (cr_Get k r = Inr c \<longrightarrow> \<not> expired_at (ce_Now env) c \<longrightarrow> \<not> Terminal c \<longrightarrow> cr_Get k r' = Inr c)"
proof -
  let ?xs = "filter (expired_at (ce_Now env)) (gvals (cr_commands r))"
  let ?cs = "go_sort due_before ?xs"
  have ids: "distinct (map c_ID ?cs)"
  proof -
    have "distinct (map c_ID ?xs)"
      using assms(1) by (intro distinct_map_filter) (simp only: cr_inv_ids, simp add: cr_inv_def wf_map_def)
    moreover have "mset (map c_ID ?cs) = mset (map c_ID ?xs)" by simp
    ultimately show ?thesis by (metis mset_eq_imp_distinct_iff)
  qed
  have mem: "c \<in> set ?cs \<longleftrightarrow> gget (cr_commands r) (c_ID c) = Some c \<and> expired_at (ce_Now env) c" for c
    using cr_inv_val [OF assms(1), of c] by (simp del: set_map)
  have "\<forall>c \<in> set ?cs. gget (cr_commands r) (c_ID c) = Some c
      \<and> c_Status c \<in> {StatusDispatching, StatusDispatched, StatusAccepted}"
  proof
    fix c assume "c \<in> set ?cs"
    then have "gget (cr_commands r) (c_ID c) = Some c" "expired_at (ce_Now env) c" using mem by blast+
    then show "gget (cr_commands r) (c_ID c) = Some c
      \<and> c_Status c \<in> {StatusDispatching, StatusDispatched, StatusAccepted}"
      using assms(4) [of "c_ID c" c] by (simp add: cr_Get_iff)
  qed
  from expire_all [OF assms(1,2) ids this, of enc dec 0 0] obtain r2 where
      r2: "expire_loop (file_repository enc dec) (\<lambda>_. env) 0 ?cs 0 r = (r2, length ?cs, None)"
    and timed: "\<forall>c \<in> set ?cs. \<exists>c'. gget (cr_commands r2) (c_ID c) = Some c' \<and> c_Status c' = StatusTimedOut"
    and rest: "\<forall>k' c'. gget (cr_commands r) k' = Some c' \<longrightarrow> k' \<notin> c_ID ` set ?cs \<longrightarrow> \<not> prune_candidate (ce_Now env) c' \<longrightarrow>
         gget (cr_commands r2) k' = Some c'"
    by auto
  have "ListExpired (ce_Now env) n r = ?cs" using assms(3) by (simp add: ListExpired_def limited_def)
  then have "(r', cnt, e) = (r2, length ?cs, None)"
    using assms(5) r2 by (simp add: Expire_def file_repository_def)
  moreover have "\<exists>c'. cr_Get k r2 = Inr c' \<and> c_Status c' = StatusTimedOut"
    if "cr_Get k r = Inr c" "expired_at (ce_Now env) c"
  proof -
    have "gget (cr_commands r) k = Some c" "c_ID c = k"
      using that(1) assms(1) by (auto simp: cr_Get_iff cr_inv_def)
    then have "c \<in> set ?cs" using mem that(2) by simp
    with timed \<open>c_ID c = k\<close> show ?thesis by (auto simp: cr_Get_iff)
  qed
  moreover have "cr_Get k r2 = Inr c"
    if "cr_Get k r = Inr c" "\<not> expired_at (ce_Now env) c" "\<not> Terminal c"
  proof -
    have g: "gget (cr_commands r) k = Some c" using that(1) by (simp add: cr_Get_iff)
    have "k \<notin> c_ID ` set ?cs"
    proof
      assume "k \<in> c_ID ` set ?cs"
      then obtain d where "d \<in> set ?cs" "c_ID d = k" by blast
      with mem [of d] g that(2) show False by simp
    qed
    with rest g that(3) show ?thesis by (simp add: cr_Get_iff prune_candidate_def)
  qed
  ultimately show ?thesis by simp
qed

theorem expired_commands_time_out_witness:
  "\<exists>r' e. Expire any_repo (\<lambda>_. sample_cmd_env\<lparr>ce_Now := seconds 116\<rparr>) 0 dispatched_repo = (r', 1, e) \<and> e = None"
proof -
  let ?env = "sample_cmd_env\<lparr>ce_Now := seconds 116\<rparr>"
  obtain r' n e where x: "Expire any_repo (\<lambda>_. ?env) 0 dispatched_repo = (r', n, e)"
    by (cases "Expire any_repo (\<lambda>_. ?env) 0 dispatched_repo") auto
  have st: "c_Status c \<in> {StatusDispatching, StatusDispatched, StatusAccepted}"
    if "cr_Get k dispatched_repo = Inr c" for k c
    using that by (auto simp: cr_Get_iff dispatched_repo_eq split: if_splits)
  have "e = None \<and> n = length (filter (expired_at (ce_Now ?env)) (gvals (cr_commands dispatched_repo)))"
    using expired_commands_time_out [OF dispatched_inv _ order.refl st x] by simp
  moreover have "expired_at (ce_Now ?env) dispatched_cmd"
    by (simp add: expired_at_def deadline_def Terminal_def seconds_def)
  ultimately show ?thesis using x by (simp add: dispatched_repo_eq)
qed

text \<open>
  the answer to a repeated request can depend on the order in which Go ranges over the map:
  when the device has, besides the finished command of the request, an unfinished one of the same
  kind, one order returns the finished command and another refuses with a command in progress.
\<close>

theorem create_depends_on_map_order:
  "\<exists>m m'. gget m = gget m' \<and> cr_inv \<lparr>cr_commands = m, cr_file = None\<rparr>
     \<and> isl (snd (CreateOrGet sample_cmd_env sample_q \<lparr>cr_commands = m, cr_file = None\<rparr>))
     \<and> \<not> isl (snd (CreateOrGet sample_cmd_env sample_q \<lparr>cr_commands = m', cr_file = None\<rparr>))"
proof -
  let ?a = "sample_cmd\<lparr>c_Status := StatusSucceeded\<rparr>"
  let ?b = "sample_cmd\<lparr>c_ID := ''cmd_2'', c_IdempotencyKey := ''k2''\<rparr>"
  let ?m = "[(''cmd_2'', ?b), (''cmd_1'', ?a)]" and ?m' = "[(''cmd_1'', ?a), (''cmd_2'', ?b)]"
  have sa: "same_request sample_q ?a" "c_RequestDigest ?a = ce_Sha256 sample_cmd_env (cq_Request sample_q)"
    by (simp_all add: same_request_def idem_def sample_cmd_def new_command_def sample_q_def)
  have sb: "\<not> same_request sample_q ?b" "in_progress sample_q ?b"
    by (simp_all add: same_request_def idem_def idem_key_def in_progress_def excludes_def Terminal_def
        sample_cmd_def new_command_def sample_q_def)
  have "gget ?m = gget ?m'" by (simp add: fun_eq_iff)
  moreover have "cr_inv \<lparr>cr_commands = ?m, cr_file = None\<rparr>" by (simp add: cr_inv_def wf_map_def)
  moreover have "isl (snd (CreateOrGet sample_cmd_env sample_q \<lparr>cr_commands = ?m, cr_file = None\<rparr>))"
    using sb by (simp add: CreateOrGet_def)
  moreover have "\<not> isl (snd (CreateOrGet sample_cmd_env sample_q \<lparr>cr_commands = ?m', cr_file = None\<rparr>))"
    using sa by (simp add: CreateOrGet_def)
  ultimately show ?thesis by blast
qed

section \<open>Paging\<close>

lemma command_before_total:
  "c_ID x \<noteq> c_ID y \<Longrightarrow> command_before x y \<or> command_before y x"
  by (auto simp: command_before_def)

lemma after_cursor_before: "after_cursor (c_CreatedAt x, c_ID x) = command_before x"
  by (auto simp: fun_eq_iff after_cursor_def command_before_def)

text \<open>A cursor text for the sample: the sign and size of the time in unary, then the identifier.\<close>

definition sample_enc :: "time \<times> string \<Rightarrow> string" where
  "sample_enc x = (if fst x < 0 then CHR ''-'' else CHR ''+'') # replicate (nat \<bar>fst x\<bar>) CHR ''a'' @ CHR ''b'' # snd x"

definition sample_dec :: "string \<Rightarrow> (time \<times> string) option" where
  "sample_dec s = (case s of [] \<Rightarrow> None | c # rest \<Rightarrow>
     (let n = int (length (takeWhile (\<lambda>x. x = CHR ''a'') rest)) in
      Some (if c = CHR ''-'' then - n else n, tl (dropWhile (\<lambda>x. x = CHR ''a'') rest))))"

lemma unary_split:
  "takeWhile (\<lambda>x. x = CHR ''a'') (replicate n CHR ''a'' @ CHR ''b'' # s) = replicate n CHR ''a''"
  "dropWhile (\<lambda>x. x = CHR ''a'') (replicate n CHR ''a'' @ CHR ''b'' # s) = CHR ''b'' # s"
  by (induction n) auto

lemma sample_dec_enc: "sample_dec (sample_enc x) = Some x"
  by (cases x) (simp add: sample_dec_def sample_enc_def unary_split Let_def)

text \<open>
  pages join without gap or overlap: asking again with the cursor of a page gives the
  commands right after it in the order of the list, newest first, so that following the cursors
  visits every selected command once.
\<close>

theorem pages_adjoin:
  assumes "cr_inv r" and "\<And>x. dec (enc x) = Some x" and "\<And>x. enc x \<noteq> []" and "f_Cursor f = []"
    and "cr_List enc dec f r = Inr p" and "pg_NextCursor p \<noteq> []"
    and "cr_List enc dec (f\<lparr>f_Cursor := pg_NextCursor p\<rparr>) r = Inr p2"
  shows "length (pg_Commands p) = page_limit (f_Limit f)
    \<and> pg_Commands p @ pg_Commands p2 =
       take (2 * page_limit (f_Limit f)) (go_sort command_before (filter (filter_selects f) (gvals (cr_commands r))))"
proof -
  let ?a = "go_sort command_before (filter (filter_selects f) (gvals (cr_commands r)))"
  let ?n = "page_limit (f_Limit f)"
  have n: "0 < ?n" by (simp add: page_limit_def)
  have len: "?n < length ?a" using assms(4-6) by (auto simp: cr_List_def Let_def split: if_splits)
  have p: "pg_Commands p = take ?n ?a" "pg_NextCursor p = enc (c_CreatedAt (?a ! (?n - 1)), c_ID (?a ! (?n - 1)))"
    using assms(4,5) len by (auto simp: cr_List_def Let_def split: if_splits)
  have sel: "filter_selects (f\<lparr>f_Cursor := x\<rparr>) = filter_selects f" for x
    by (simp add: fun_eq_iff filter_selects_def)
  have "distinct (map c_ID (filter (filter_selects f) (gvals (cr_commands r))))"
    using assms(1) by (intro distinct_map_filter) (simp only: cr_inv_ids, simp add: cr_inv_def wf_map_def)
  moreover have "mset (map c_ID ?a) = mset (map c_ID (filter (filter_selects f) (gvals (cr_commands r))))" by simp
  ultimately have ids: "distinct (map c_ID ?a)" by (metis mset_eq_imp_distinct_iff)
  have sorted: "sorted_wrt (\<lambda>x y. \<not> command_before y x) ?a" by (rule command_order.sorted_go_sort)
  let ?last = "?a ! (?n - 1)"
  have before: "command_before ?last (?a ! i) \<longleftrightarrow> ?n \<le> i" if "i < length ?a" for i
  proof (cases "?n \<le> i")
    case True
    then have lt: "?n - 1 < i" using n by linarith
    then have "\<not> command_before (?a ! i) ?last" using sorted that by (simp add: sorted_wrt_iff_nth_less)
    moreover have "c_ID ?last \<noteq> c_ID (?a ! i)"
    proof
      assume "c_ID ?last = c_ID (?a ! i)"
      then have "map c_ID ?a ! (?n - 1) = map c_ID ?a ! i" using that lt by simp
      moreover have "?n - 1 < length (map c_ID ?a)" "i < length (map c_ID ?a)" using that lt by simp_all
      ultimately have "?n - 1 = i" using nth_eq_iff_index_eq [OF ids] by blast
      with lt show False by simp
    qed
    ultimately show ?thesis using command_before_total True by blast
  next
    case False
    then show ?thesis using sorted that len command_order.asym
      by (cases "i = ?n - 1") (auto simp: sorted_wrt_iff_nth_less command_before_def)
  qed
  have "filter (command_before ?last) ?a = filter (command_before ?last) (take ?n ?a @ drop ?n ?a)" by simp
  also have "\<dots> = filter (command_before ?last) (take ?n ?a) @ filter (command_before ?last) (drop ?n ?a)"
    by (rule filter_append)
  also have "filter (command_before ?last) (take ?n ?a) = []"
    using before len by (auto simp: filter_empty_conv in_set_conv_nth)
  also have "filter (command_before ?last) (drop ?n ?a) = drop ?n ?a"
    using before by (intro filter_True) (auto simp: in_set_conv_nth)
  finally have rest: "filter (command_before ?last) ?a = drop ?n ?a" by simp
  have "pg_Commands p2 = take ?n (filter (command_before ?last) ?a)"
    using assms(3,7) unfolding p(2)
    by (auto simp: cr_List_def Let_def sel assms(2) after_cursor_before)
  then have "pg_Commands p @ pg_Commands p2 = take (?n + ?n) ?a" by (simp only: p(1) rest take_add)
  moreover have "?n + ?n = 2 * ?n" by simp
  moreover have "length (pg_Commands p) = ?n" using len p(1) by simp
  ultimately show ?thesis by (simp only:)
qed

theorem pages_adjoin_witness:
  "\<exists>p p2 f r. cr_List sample_enc sample_dec f r = Inr p
     \<and> cr_List sample_enc sample_dec (f\<lparr>f_Cursor := pg_NextCursor p\<rparr>) r = Inr p2
     \<and> map c_ID (pg_Commands p @ pg_Commands p2) = [''cmd_2'', ''cmd_1'']"
proof -
  let ?b = "sample_cmd\<lparr>c_ID := ''cmd_2''\<rparr>"
  let ?r = "\<lparr>cr_commands = [(''cmd_1'', sample_cmd), (''cmd_2'', ?b)], cr_file = None\<rparr>"
  let ?f = "\<lparr>f_DeviceID = [], f_Kind = None, f_Status = None, f_Limit = 1, f_Cursor = []\<rparr>"
  have "c_CreatedAt ?b = c_CreatedAt sample_cmd" by simp
  moreover have "''cmd_1'' < ''cmd_2''" by (simp add: less_list_code)
  ultimately have srt: "go_sort command_before [sample_cmd, ?b] = [?b, sample_cmd]"
    by (simp add: command_before_def)
  have sel: "filter (filter_selects (?f\<lparr>f_Cursor := x\<rparr>)) (gvals (cr_commands ?r)) = [sample_cmd, ?b]" for x
    by (simp add: filter_selects_def)
  from sel [of "[]"] have all: "filter (filter_selects ?f) (gvals (cr_commands ?r)) = [sample_cmd, ?b]" by simp
  have inv: "cr_inv ?r" by (simp add: cr_inv_def wf_map_def)
  have nonempty: "sample_enc x \<noteq> []" for x by (simp add: sample_enc_def)
  obtain p where p: "cr_List sample_enc sample_dec ?f ?r = Inr p" "pg_NextCursor p \<noteq> []"
    unfolding cr_List_def Let_def all srt by (simp add: page_limit_def nonempty)
  then have "pg_NextCursor p = sample_enc (c_CreatedAt ?b, c_ID ?b)"
    unfolding cr_List_def Let_def all srt by (auto simp: page_limit_def)
  then obtain p2 where p2: "cr_List sample_enc sample_dec (?f\<lparr>f_Cursor := pg_NextCursor p\<rparr>) ?r = Inr p2"
    unfolding cr_List_def Let_def sel by (simp add: sample_dec_enc nonempty)
  have "pg_Commands p @ pg_Commands p2 = take (2 * page_limit (f_Limit ?f)) [?b, sample_cmd]"
    using pages_adjoin [OF inv sample_dec_enc nonempty _ p p2] unfolding all srt by simp
  then have "map c_ID (pg_Commands p @ pg_Commands p2) = [''cmd_2'', ''cmd_1'']"
    by (simp add: page_limit_def)
  then show ?thesis using p(1) p2 by (intro exI [of _ p] exI [of _ p2] exI [of _ ?f] exI [of _ ?r] conjI)
qed

end
