(* ===== verification/Releases.thy ===== *)
theory Releases
  imports Prelude
begin

text \<open>
  The release channels: the client of GitHub releases, \<open>internal/githubrelease/client.go\<close> (version
  numbers, the scan of the release pages, the required assets, the checksum files), and the state
  of the versions the server knows, \<open>internal/versionstatus\<close>. A reply of GitHub and the parsing of
  a link's address are arguments; an error is its message, which \<open>classifyError\<close> reads.
\<close>

section \<open>Data\<close>

datatype Component = ComponentServer | ComponentAgent | ComponentOther string

definition component_string :: "Component \<Rightarrow> string" where
  "component_string c = (case c of ComponentServer \<Rightarrow> ''server'' | ComponentAgent \<Rightarrow> ''agent'' | ComponentOther s \<Rightarrow> s)"

record Asset =
  as_ID :: int
  as_Name :: string
  as_Size :: int
  as_Digest :: string
  as_BrowserDownloadURL :: string

record Release =
  rl_ID :: int
  rl_TagName :: string
  rl_Version :: string
  rl_Name :: string
  rl_Body :: string
  rl_Draft :: bool
  rl_Prerelease :: bool
  rl_Commitish :: string
  rl_PublishedAt :: time
  rl_HTMLURL :: string
  rl_Assets :: "Asset list"

section \<open>Version numbers\<close>

text \<open>The pattern \<open>^v(0|[1-9][0-9]*)\.(0|[1-9][0-9]*)\.(0|[1-9][0-9]*)$\<close>.\<close>

definition plain_number :: "string \<Rightarrow> bool" where
  "plain_number s \<longleftrightarrow> s = ''0'' \<or> (s \<noteq> [] \<and> list_all is_digit s \<and> hd s \<noteq> CHR ''0'')"

definition strict_version :: "string \<Rightarrow> bool" where
  "strict_version s = (case s of
      CHR ''v'' # rest \<Rightarrow>
        (case split_at CHR ''.'' rest of [a, b, c] \<Rightarrow> plain_number a \<and> plain_number b \<and> plain_number c | _ \<Rightarrow> False)
    | _ \<Rightarrow> False)"

definition splitVersion :: "string \<Rightarrow> int list" where
  "splitVersion v = map (\<lambda>seg. case atoi seg of None \<Rightarrow> 0 | Some n \<Rightarrow> n)
     (split_at CHR ''.'' (takeWhile (\<lambda>c. c \<noteq> CHR ''-'') v))"

text \<open>The loop over the numbers, a missing one counting as zero.\<close>

fun compare_parts :: "int list \<Rightarrow> int list \<Rightarrow> int" where
  "compare_parts [] [] = 0"
| "compare_parts (p # ps) [] = (if p < 0 then -1 else if p > 0 then 1 else compare_parts ps [])"
| "compare_parts [] (q # qs) = (if 0 < q then -1 else if 0 > q then 1 else compare_parts [] qs)"
| "compare_parts (p # ps) (q # qs) = (if p < q then -1 else if p > q then 1 else compare_parts ps qs)"

definition CompareVersions :: "string \<Rightarrow> string \<Rightarrow> int" where
  "CompareVersions v1 v2 =
     (let clean1 = trim_prefix (trim_space v1) ''v''; clean2 = trim_prefix (trim_space v2) ''v'' in
      if clean1 = clean2 then 0
      else (let r = compare_parts (splitVersion clean1) (splitVersion clean2) in
        if r \<noteq> 0 then r
        else if contains clean1 ''-'' \<and> \<not> contains clean2 ''-'' then -1
        else if \<not> contains clean1 ''-'' \<and> contains clean2 ''-'' then 1
        else 0))"

section \<open>The scan of the release pages\<close>

text \<open>\<open>isURI\<close> is \<open>url.ParseRequestURI\<close> succeeding.\<close>

definition linkHasNext :: "(string \<Rightarrow> bool) \<Rightarrow> string \<Rightarrow> bool" where
  "linkHasNext isURI header = list_ex (\<lambda>part.
     let sections = split_at CHR '';'' (trim_space part) in
     length sections \<ge> 2
     \<and> contains (concat (map (\<lambda>s. s @ '';'') (butlast (tl sections))) @ last (tl sections)) ([CHR ''r'', CHR ''e'', CHR ''l'', CHR ''='', CHR 0x22] @ ''next'' @ [CHR 0x22])
     \<and> isURI (trim_set ''<>'' (trim_space (hd sections)))) (split_at CHR '','' header)"

text \<open>A reply: no response, or the status, what the body decodes to and the \<open>Link\<close> header.\<close>

datatype page_reply = PageFailed string | PageReply int "string + Release list" string

definition pick_release :: "Component \<Rightarrow> Release \<Rightarrow> Release option \<Rightarrow> Release option" where
  "pick_release component rel best =
     (let prefix = component_string component @ ''-''; ver = trim_prefix (rl_TagName rel) prefix in
      if rl_Draft rel \<or> rl_Prerelease rel \<or> \<not> has_prefix (rl_TagName rel) prefix then best
      else if \<not> strict_version ver then best
      else (case best of
          None \<Rightarrow> Some (rel\<lparr>rl_Version := ver\<rparr>)
        | Some b \<Rightarrow> if CompareVersions (rl_Version b) ver < 0 then Some (rel\<lparr>rl_Version := ver\<rparr>) else best))"

fun scan_pages ::
  "(string \<Rightarrow> bool) \<Rightarrow> (nat \<Rightarrow> page_reply) \<Rightarrow> Component \<Rightarrow> nat \<Rightarrow> nat \<Rightarrow> Release option \<Rightarrow> string + Release" where
  "scan_pages isURI reply component page 0 best = Inl ''release pagination incomplete after 10 pages''"
| "scan_pages isURI reply component page (Suc left) best =
     (case reply page of
        PageFailed e \<Rightarrow> Inl (''list github releases: '' @ e)
      | PageReply status body link \<Rightarrow>
          if status \<noteq> 200 then Inl (''github api returned status '' @ int_text status @ '' for releases list'')
          else (case body of
            Inl e \<Rightarrow> Inl (''decode releases list: '' @ e)
          | Inr releases \<Rightarrow>
              (let best' = fold (pick_release component) releases best in
               if \<not> linkHasNext isURI link then
                 (case best' of
                    None \<Rightarrow> Inl (''no valid '' @ component_string component @ '' release found'')
                  | Some rel \<Rightarrow> Inr rel)
               else scan_pages isURI reply component (page + 1) left best')))"

record release_client =
  rc_repo :: string
  rc_downloadBaseURL :: string
  rc_mirrorPrefix :: string
  rc_cacheTTL :: duration
  rc_componentCache :: "(Component, Release \<times> time) gomap"

definition GetLatestComponentRelease ::
  "(string \<Rightarrow> bool) \<Rightarrow> (nat \<Rightarrow> page_reply) \<Rightarrow> time \<Rightarrow> Component \<Rightarrow> bool \<Rightarrow> release_client
     \<Rightarrow> release_client \<times> (string + Release)" where
  "GetLatestComponentRelease isURI reply now component forceRefresh cl =
     (if component \<noteq> ComponentServer \<and> component \<noteq> ComponentAgent then
        (cl, Inl (''unsupported release component '' @ component_string component))
      else
        (let scan = (case scan_pages isURI reply component 1 10 None of
               Inl e \<Rightarrow> (cl, Inl e)
             | Inr rel \<Rightarrow> (cl\<lparr>rc_componentCache := gput component (rel, now) (rc_componentCache cl)\<rparr>, Inr rel)) in
         if forceRefresh then scan
         else (case gget (rc_componentCache cl) component of
             Some (rel, since) \<Rightarrow> if time_sub now since < rc_cacheTTL cl then (cl, Inr rel) else scan
           | None \<Rightarrow> scan)))"

section \<open>Assets and checksums\<close>

definition RequiredAssetNames :: "string \<Rightarrow> string \<Rightarrow> Component \<Rightarrow> string list" where
  "RequiredAssetNames goos goarch component =
     (let binaries = (case component of
          ComponentServer \<Rightarrow> [''homeagent-server-'' @ goos @ ''-'' @ goarch @ (if goos = ''windows'' then ''.exe'' else [])]
        | ComponentAgent \<Rightarrow>
            [''homeagent-agent-linux-amd64'', ''homeagent-agent-linux-arm64'', ''homeagent-agent-linux-arm'',
             ''homeagent-agent-linux-mips'', ''homeagent-agent-linux-mipsle'', ''homeagent-agent-darwin-amd64'',
             ''homeagent-agent-darwin-arm64'', ''homeagent-agent-windows-amd64.exe'', ''homeagent-agent-windows-arm64.exe'']
        | ComponentOther _ \<Rightarrow> []) in
      concat (map (\<lambda>name. [name, name @ ''.sha256'']) binaries))"

text \<open>The first duplicate name, found in the order of the list.\<close>

fun first_duplicate :: "string list \<Rightarrow> string list \<Rightarrow> string option" where
  "first_duplicate seen [] = None"
| "first_duplicate seen (n # ns) = (if n \<in> set seen then Some n else first_duplicate (n # seen) ns)"

definition asset_complete :: "Asset list \<Rightarrow> string \<Rightarrow> bool" where
  "asset_complete as name = (case find (\<lambda>a. as_Name a = name) as of
      None \<Rightarrow> False | Some a \<Rightarrow> as_ID a > 0 \<and> as_Size a > 0 \<and> as_BrowserDownloadURL a \<noteq> [])"

definition ValidateReleaseAssets :: "string \<Rightarrow> string \<Rightarrow> Component \<Rightarrow> Release option \<Rightarrow> string option" where
  "ValidateReleaseAssets goos goarch component release = (case release of
      None \<Rightarrow> Some ''release is nil''
    | Some rel \<Rightarrow>
        (case first_duplicate [] (map as_Name (rl_Assets rel)) of
           Some n \<Rightarrow> Some (''duplicate release asset '' @ n)
         | None \<Rightarrow>
             (case find (\<lambda>name. \<not> asset_complete (rl_Assets rel) name) (RequiredAssetNames goos goarch component) of
                Some n \<Rightarrow> Some (''required release asset '' @ n @ '' is missing or incomplete'')
              | None \<Rightarrow> None)))"

definition BuildAssetDownloadURL :: "release_client \<Rightarrow> string \<Rightarrow> string \<Rightarrow> string" where
  "BuildAssetDownloadURL cl tag binaryName =
     (let rawURL = rc_downloadBaseURL cl @ ''/'' @ rc_repo cl @ ''/releases/download/'' @ tag @ ''/'' @ binaryName in
      if rc_mirrorPrefix cl \<noteq> [] then trim_right_set ''/'' (rc_mirrorPrefix cl) @ ''/'' @ rawURL else rawURL)"

definition isHex :: "string \<Rightarrow> bool" where
  "isHex s = list_all (\<lambda>c. is_digit c \<or> (97 \<le> (of_char c :: nat) \<and> (of_char c :: nat) \<le> 102)) s"

definition parseSHA256FromText :: "string \<Rightarrow> string \<Rightarrow> string + string" where
  "parseSHA256FromText txt expectedName =
     (if list_ex (\<lambda>c. c \<in> {CHR ''/'', CHR 0x5C, carriage_return, newline, CHR 0x00}) expectedName then
        Inl ''invalid expected asset name''
      else
        (let line = trim_suffix txt [newline]; n = length expectedName in
         if newline \<in> set line \<or> has_suffix line [carriage_return] \<or> (length line \<noteq> 66 + n \<and> length line \<noteq> 65 + n) then
           Inl ''invalid sha256 sidecar format''
         else
           (let sep = (if length line = 65 + n then 1 else 2); candidate = to_lower (take 64 line) in
            if \<not> isHex candidate \<or> take sep (drop 64 line) \<noteq> replicate sep CHR '' '' \<or> drop (64 + sep) line \<noteq> expectedName then
              Inl ''sha256 sidecar does not match asset name''
            else Inr candidate)))"

text \<open>
  \<open>FetchAssetSHA256\<close>: \<open>fetch\<close> is the reply to a request of an address, no response with its message
  or the status with what reading the body gives.
\<close>

definition FetchAssetSHA256 ::
  "release_client \<Rightarrow> (string \<Rightarrow> string + int \<times> (string + string)) \<Rightarrow> string \<Rightarrow> string \<Rightarrow> string + string" where
  "FetchAssetSHA256 cl fetch tag binaryName =
     (let shaFileName = (if has_suffix binaryName ''.sha256'' then binaryName else binaryName @ ''.sha256'');
          shaURL = BuildAssetDownloadURL cl tag shaFileName in
      case fetch shaURL of
        Inl e \<Rightarrow> Inl (''fetch sha256 asset from '' @ shaURL @ '': '' @ e)
      | Inr (status, body) \<Rightarrow>
          if status \<noteq> 200 then Inl (''fetch sha256 failed with status '' @ int_text status @ '': '' @ shaURL)
          else (case body of
            Inl e \<Rightarrow> Inl (''read sha256 body: '' @ e)
          | Inr txt \<Rightarrow> parseSHA256FromText txt binaryName))"

end
