(* ===== verification/VersionStatus.thy ===== *)
theory VersionStatus
  imports Releases
begin

text \<open>
  What the server knows of the newest releases, \<open>internal/versionstatus\<close>: a snapshot per
  component, refreshed from GitHub, aged on every read and replaced only once it is on disk.
\<close>

datatype version_status =
    VStatusUnknown | VStatusChecking | VStatusAvailable | VStatusStale | VStatusError | VStatusOther string

datatype update_state = UpdateCurrent | UpdateAvailable | UpdateUnknown | UpdateOther string

record Snapshot =
  sn_Component :: Component
  sn_SnapshotID :: string
  sn_Status :: version_status
  sn_CurrentVersion :: string
  sn_LatestVersion :: string
  sn_UpdateState :: update_state
  sn_CheckedAt :: time
  sn_LastSuccessAt :: time
  sn_Stale :: bool
  sn_Refreshing :: bool
  sn_ErrorCode :: string
  sn_ErrorMessage :: string
  sn_ReleaseURL :: string
  sn_ReleaseID :: int
  sn_Tag :: string
  sn_Commitish :: string
  sn_Assets :: "Asset list"
  sn_RetryAt :: time
  sn_ConsecutiveFailures :: int

definition zero_snapshot :: Snapshot where
  "zero_snapshot = \<lparr>sn_Component = ComponentOther [], sn_SnapshotID = [], sn_Status = VStatusOther [],
     sn_CurrentVersion = [], sn_LatestVersion = [], sn_UpdateState = UpdateOther [], sn_CheckedAt = 0,
     sn_LastSuccessAt = 0, sn_Stale = False, sn_Refreshing = False, sn_ErrorCode = [], sn_ErrorMessage = [],
     sn_ReleaseURL = [], sn_ReleaseID = 0, sn_Tag = [], sn_Commitish = [], sn_Assets = [], sn_RetryAt = 0,
     sn_ConsecutiveFailures = 0\<rparr>"

record version_service =
  vs_serverVersion :: string
  vs_channels :: "(Component, Snapshot) gomap"

section \<open>Loading\<close>

text \<open>What \<open>FileRepository.Load\<close> finds at its path.\<close>

datatype version_file = VersionsAbsent | VersionsUnreadable | VersionsMalformed | VersionsData int "(Component, Snapshot) gomap option"

definition load_versions :: "version_file \<Rightarrow> string + (Component, Snapshot) gomap" where
  "load_versions f = (case f of
      VersionsAbsent \<Rightarrow> Inr []
    | VersionsUnreadable \<Rightarrow> Inl ''read version status''
    | VersionsMalformed \<Rightarrow> Inl ''decode version status''
    | VersionsData schema channels \<Rightarrow>
        (case channels of
           None \<Rightarrow> Inl ''unsupported version status schema''
         | Some m \<Rightarrow> if schema \<noteq> 1 then Inl ''unsupported version status schema'' else Inr m))"

definition NewVersionService :: "version_file \<Rightarrow> string \<Rightarrow> string + version_service" where
  "NewVersionService f serverVersion = (case load_versions f of
      Inl e \<Rightarrow> Inl e | Inr m \<Rightarrow> Inr \<lparr>vs_serverVersion = serverVersion, vs_channels = m\<rparr>)"

section \<open>Reading\<close>

definition withAge :: "time \<Rightarrow> Snapshot \<Rightarrow> Snapshot" where
  "withAge now sn =
     (if is_zero_time (sn_LastSuccessAt sn) then sn
      else (let age = time_sub now (sn_LastSuccessAt sn) in
        if age > hours 24 then
          sn\<lparr>sn_Status := VStatusUnknown, sn_LatestVersion := [], sn_UpdateState := UpdateUnknown, sn_Stale := False\<rparr>
        else if age > hours 6 then sn\<lparr>sn_Status := VStatusStale, sn_Stale := True\<rparr>
        else sn))"

definition snapshot_of :: "time \<Rightarrow> Component \<Rightarrow> version_service \<Rightarrow> Snapshot" where
  "snapshot_of now component s = (case gget (vs_channels s) component of
      None \<Rightarrow> zero_snapshot\<lparr>sn_Component := component, sn_Status := VStatusUnknown, sn_UpdateState := UpdateUnknown\<rparr>
    | Some sn \<Rightarrow> withAge now sn)"

section \<open>Refreshing\<close>

definition go_rem :: "int \<Rightarrow> int \<Rightarrow> int" where "go_rem a b = sgn a * (\<bar>a\<bar> mod \<bar>b\<bar>)"

definition retryDelay :: "int \<Rightarrow> time \<Rightarrow> duration" where
  "retryDelay failures now =
     (let steps = [minutes 5, minutes 15, minutes 30, hours 1];
          i0 = (if failures - 1 < 0 then 0 else failures - 1);
          i = (if i0 \<ge> int (length steps) then int (length steps) - 1 else i0);
          base = steps ! nat i in
      base + go_rem (now - unix_epoch) (base div 5))"

definition classifyError :: "string \<Rightarrow> string" where
  "classifyError err =
     (let message = to_lower err in
      if contains message ''pagination incomplete'' then ''incomplete''
      else if contains message ''status 401'' \<or> contains message ''bad credentials'' then ''bad_credentials''
      else if contains message ''status 403'' \<or> contains message ''status 429'' \<or> contains message ''rate limit'' then ''rate_limited''
      else if contains message ''no valid'' then ''migration_required''
      else if contains message ''artifact manifest incomplete'' then ''artifact_manifest_incomplete''
      else ''github_unavailable'')"

text \<open>The snapshot after a fetch that failed, and after one that succeeded.\<close>

definition failed_fetch :: "time \<Rightarrow> string \<Rightarrow> Snapshot \<Rightarrow> Snapshot" where
  "failed_fetch now e sn =
     (let n = sn_ConsecutiveFailures sn + 1;
          sn1 = sn\<lparr>sn_ConsecutiveFailures := n, sn_ErrorCode := classifyError e, sn_ErrorMessage := e,
                   sn_RetryAt := now + retryDelay n now\<rparr> in
      if \<not> is_zero_time (sn_LastSuccessAt sn1) \<and> time_sub now (sn_LastSuccessAt sn1) \<le> hours 24 then
        sn1\<lparr>sn_Status := VStatusStale, sn_Stale := True\<rparr>
      else sn1\<lparr>sn_Status := VStatusError, sn_LatestVersion := [], sn_UpdateState := UpdateUnknown\<rparr>)"

definition good_fetch :: "time \<Rightarrow> string \<Rightarrow> Component \<Rightarrow> Release \<Rightarrow> Snapshot \<Rightarrow> Snapshot" where
  "good_fetch now serverVersion component rel sn =
     (let sn1 = sn\<lparr>sn_Status := VStatusAvailable, sn_Stale := False,
            sn_SnapshotID := component_string component @ '':'' @ int_text (rl_ID rel) @ '':'' @ int_text (unix_seconds now),
            sn_LatestVersion := rl_Version rel, sn_LastSuccessAt := now, sn_ReleaseURL := rl_HTMLURL rel,
            sn_ReleaseID := rl_ID rel, sn_Tag := rl_TagName rel, sn_Commitish := rl_Commitish rel,
            sn_Assets := rl_Assets rel, sn_ErrorCode := [], sn_ErrorMessage := [],
            sn_ConsecutiveFailures := 0, sn_RetryAt := 0\<rparr> in
      sn1\<lparr>sn_UpdateState := (if component = ComponentServer then
             (if CompareVersions serverVersion (rl_Version rel) < 0 then UpdateAvailable else UpdateCurrent)
           else UpdateOther [])\<rparr>)"

text \<open>
  One refresh: \<open>goos\<close> and \<open>goarch\<close> are the server's platform, \<open>fetched\<close> is what the fetcher answers
  when it is asked, \<open>saved\<close> whether the repository saves. The answer is a snapshot and an error;
  a component that has no lock is refused.
\<close>

record refresh_env =
  rf_Now :: time
  rf_Fetched :: "string + Release option"
  rf_Saved :: bool
  rf_GOOS :: string
  rf_GOARCH :: string

definition fetched_release :: "refresh_env \<Rightarrow> Component \<Rightarrow> string + Release" where
  "fetched_release env component = (case rf_Fetched env of
      Inl e \<Rightarrow> Inl e
    | Inr rel \<Rightarrow>
        (case ValidateReleaseAssets (rf_GOOS env) (rf_GOARCH env) component rel of
           Some e \<Rightarrow> Inl (''artifact manifest incomplete: '' @ e)
         | None \<Rightarrow> Inr (the rel)))"

definition checked_snapshot :: "time \<Rightarrow> Component \<Rightarrow> version_service \<Rightarrow> Snapshot" where
  "checked_snapshot now component s =
     (let sn = (case gget (vs_channels s) component of None \<Rightarrow> zero_snapshot | Some sn \<Rightarrow> sn) in
      sn\<lparr>sn_Component := component, sn_CheckedAt := now,
         sn_CurrentVersion := (if component = ComponentServer then vs_serverVersion s else sn_CurrentVersion sn)\<rparr>)"

definition Refresh ::
  "refresh_env \<Rightarrow> Component \<Rightarrow> bool \<Rightarrow> version_service \<Rightarrow> version_service \<times> Snapshot \<times> string option" where
  "Refresh env component force s =
     (let now = rf_Now env; current = snapshot_of now component s in
      if component \<noteq> ComponentServer \<and> component \<noteq> ComponentAgent then
        (s, zero_snapshot, Some (''unsupported component '' @ component_string component))
      else if \<not> force \<and> \<not> is_zero_time (sn_CheckedAt current) \<and> time_sub now (sn_CheckedAt current) < minutes 10 then
        (s, current, None)
      else
        (let fetched = fetched_release env component;
             sn = (case fetched of
                 Inl e \<Rightarrow> failed_fetch now e (checked_snapshot now component s)
               | Inr rel \<Rightarrow> good_fetch now (vs_serverVersion s) component rel (checked_snapshot now component s)) in
         if \<not> rf_Saved env then (s, sn, Some ''persist version snapshot'')
         else (s\<lparr>vs_channels := gput component sn (vs_channels s)\<rparr>, sn, (case fetched of Inl e \<Rightarrow> Some e | Inr _ \<Rightarrow> None))))"

definition Due :: "time \<Rightarrow> Component \<Rightarrow> version_service \<Rightarrow> bool" where
  "Due now component s =
     (let sn = snapshot_of now component s in
      if is_zero_time (sn_CheckedAt sn) then True
      else if \<not> is_zero_time (sn_RetryAt sn) then now \<ge> sn_RetryAt sn
      else is_zero_time (sn_LastSuccessAt sn) \<or> time_sub now (sn_LastSuccessAt sn) \<ge> hours 6)"

end
