(* ===== verification/ReleaseProps.thy ===== *)
theory ReleaseProps
  imports VersionStatus
begin

text \<open>
  What the release channels promise: version numbers compare as the triples of their numbers, the
  scan of the pages finds the highest stable release, and a version is offered for an update only
  while its snapshot is fresh and on disk.
\<close>

section \<open>Version numbers\<close>

definition version_text :: "nat \<Rightarrow> nat \<Rightarrow> nat \<Rightarrow> string" where
  "version_text a b c = ''v'' @ nat_digits a @ ''.'' @ nat_digits b @ ''.'' @ nat_digits c"

lemma plain_nat_digits: "plain_number (nat_digits n)"
proof (cases "n = 0")
  case True
  then show ?thesis by (simp add: plain_number_def nat_digits_0)
next
  case False
  then show ?thesis by (simp add: plain_number_def nat_digits_head)
qed

lemma nat_digits_digits_val:
  "s \<noteq> [] \<Longrightarrow> list_all is_digit s \<Longrightarrow> hd s \<noteq> CHR ''0'' \<Longrightarrow> nat_digits (digits_val s) = s \<and> 0 < digits_val s"
proof (induction s rule: rev_induct)
  case (snoc c s)
  define k where "k = (of_char c :: nat) - 48"
  have k: "k < 10" "(of_char c :: nat) = 48 + k" using snoc.prems by (auto simp: is_digit_def k_def)
  then have c: "c = char_of (48 + k)" by (metis char_of_char)
  show ?case
  proof (cases "s = []")
    case True
    with snoc.prems c have "k \<noteq> 0" by (cases "k = 0") (auto simp: zero_digit)
    with True k c show ?thesis
      by (subst nat_digits.simps) (simp add: digits_val_def)
  next
    case False
    with snoc have IH: "nat_digits (digits_val s) = s" "0 < digits_val s" by auto
    have v: "digits_val (s @ [c]) = digits_val s * 10 + k" by (simp add: digits_val_snoc k_def)
    with k IH have d: "digits_val (s @ [c]) div 10 = digits_val s" "digits_val (s @ [c]) mod 10 = k" by simp_all
    from v IH have "\<not> digits_val (s @ [c]) < 10" by simp
    then show ?thesis using d IH c v by (subst nat_digits.simps) simp
  qed
qed simp

lemma plain_number_iff: "plain_number s \<longleftrightarrow> (\<exists>n. s = nat_digits n)"
proof
  assume "plain_number s"
  then show "\<exists>n. s = nat_digits n"
    unfolding plain_number_def using nat_digits_digits_val [of s] nat_digits_0 by metis
qed (auto intro: plain_nat_digits)

lemma split_dots:
  "split_at CHR ''.'' (nat_digits a @ CHR ''.'' # nat_digits b @ CHR ''.'' # nat_digits c)
     = [nat_digits a, nat_digits b, nat_digits c]"
proof -
  have "CHR ''.'' \<notin> set (nat_digits n)" for n using nat_digits_chars by blast
  then show ?thesis by (simp add: split_at_append split_at_no_sep)
qed

lemma split_at_three:
  "split_at sep s = [a, b, c] \<Longrightarrow> s = a @ sep # b @ sep # c"
proof -
  have join: "s = (case split_at sep s of [] \<Rightarrow> [] | w # ws \<Rightarrow> w @ concat (map (\<lambda>x. sep # x) ws))" for s
    by (induction s) (auto split: list.splits)
  assume "split_at sep s = [a, b, c]"
  with join [of s] show ?thesis by simp
qed

lemma strict_version_iff: "strict_version s \<longleftrightarrow> (\<exists>a b c. s = version_text a b c)"
proof
  assume s: "strict_version s"
  then obtain r where r: "s = CHR ''v'' # r"
    unfolding strict_version_def by (cases s) (auto split: list.splits char.splits bool.splits)
  obtain a b c where p: "split_at CHR ''.'' r = [a, b, c]" "plain_number a" "plain_number b" "plain_number c"
    using s unfolding strict_version_def r by (simp split: list.splits)
  then show "\<exists>a b c. s = version_text a b c"
    unfolding r version_text_def plain_number_iff using split_at_three [OF p(1)] by force
next
  assume "\<exists>a b c. s = version_text a b c"
  then show "strict_version s"
    by (auto simp: strict_version_def version_text_def split_dots plain_nat_digits)
qed

definition version_rest :: "nat \<Rightarrow> nat \<Rightarrow> nat \<Rightarrow> string" where
  "version_rest a b c = nat_digits a @ CHR ''.'' # nat_digits b @ CHR ''.'' # nat_digits c"

lemma version_clean: "trim_prefix (trim_space (version_text a b c)) ''v'' = version_rest a b c"
proof -
  have "graphic (last (version_text a b c))"
    using nat_digits_chars [of "last (nat_digits c)" c] by (simp add: version_text_def)
  then have "trim_space (version_text a b c) = version_text a b c"
    by (intro trim_space_graphic) (simp_all add: version_text_def graphic_def)
  then show ?thesis by (simp add: trim_prefix_def version_text_def version_rest_def)
qed

lemma no_dash: "CHR ''-'' \<notin> set (version_rest a b c)"
  using nat_digits_chars by (auto simp: version_rest_def)

lemma contains_char: "contains s [c] \<longleftrightarrow> c \<in> set s"
proof -
  have "has_prefix (drop i s) [c] \<longleftrightarrow> i < length s \<and> s ! i = c" for i
    by (cases "i < length s") (auto simp: Cons_nth_drop_Suc [symmetric])
  then show ?thesis by (auto simp: contains_def list_ex_iff in_set_conv_nth)
qed

text \<open>A number of 64 bits or more reads as zero.\<close>

definition part_value :: "nat \<Rightarrow> int" where
  "part_value n = (if n < 2 ^ 63 then int n else 0)"

lemma atoi_nat_digits: "(case atoi (nat_digits n) of None \<Rightarrow> 0 | Some m \<Rightarrow> m) = part_value n"
proof -
  obtain d ds where ds: "nat_digits n = d # ds" by (cases "nat_digits n") auto
  then have "d \<noteq> CHR ''-''" "d \<noteq> CHR ''+''" using nat_digits_chars [of d n] by auto
  then have "\<not> has_prefix (nat_digits n) ''-''" "\<not> has_prefix (nat_digits n) ''+''" by (auto simp: ds)
  then show ?thesis by (auto simp: atoi_def part_value_def Let_def)
qed

lemma splitVersion_rest: "splitVersion (version_rest a b c) = [part_value a, part_value b, part_value c]"
proof -
  have tw: "takeWhile (\<lambda>x. x \<noteq> CHR ''-'') (version_rest a b c) = version_rest a b c"
    using no_dash by (auto simp: takeWhile_eq_all_conv)
  have "splitVersion (version_rest a b c)
      = map (\<lambda>seg. case atoi seg of None \<Rightarrow> 0 | Some n \<Rightarrow> n) (split_at CHR ''.'' (version_rest a b c))"
    by (simp add: splitVersion_def tw)
  then show ?thesis by (simp add: version_rest_def split_dots atoi_nat_digits)
qed

lemma compare_parts_same [simp]: "compare_parts ps ps = 0"
  by (induction ps) auto

lemma CompareVersions_text:
  "CompareVersions (version_text a b c) (version_text x y z)
     = compare_parts [part_value a, part_value b, part_value c] [part_value x, part_value y, part_value z]"
  by (auto simp: CompareVersions_def version_clean splitVersion_rest contains_char no_dash Let_def
      dest: arg_cong [of _ _ splitVersion] simp del: compare_parts.simps)

text \<open>
  The pattern of version numbers accepts exactly the texts \<open>v\<close>a.b.c of three numbers without
  leading zeros, and \<open>CompareVersions\<close> orders them as the triples of their numbers, as long as each
  number fits a 64-bit integer.
\<close>

theorem versions_compare_as_numbers:
  assumes "a < 2 ^ 63" and "b < 2 ^ 63" and "c < 2 ^ 63" and "x < 2 ^ 63" and "y < 2 ^ 63" and "z < 2 ^ 63"
  shows "(strict_version s \<longleftrightarrow> (\<exists>a b c. s = version_text a b c))
    \<and> CompareVersions (version_text a b c) (version_text x y z)
      = (if (a, b, c) = (x, y, z) then 0
         else if a < x \<or> a = x \<and> (b < y \<or> b = y \<and> c < z) then -1 else 1)"
  using assms by (auto simp: strict_version_iff CompareVersions_text part_value_def)

theorem versions_compare_as_numbers_witness:
  "CompareVersions (version_text 0 10 3) (version_text 0 9 12) = 1"
  using versions_compare_as_numbers [of 0 10 3 0 9 12 "[]"] by simp

section \<open>The scan\<close>

definition release_version :: "Component \<Rightarrow> Release \<Rightarrow> string" where
  "release_version component r = trim_prefix (rl_TagName r) (component_string component @ ''-'')"

definition stable_release :: "Component \<Rightarrow> Release \<Rightarrow> bool" where
  "stable_release component r \<longleftrightarrow> \<not> rl_Draft r \<and> \<not> rl_Prerelease r
     \<and> has_prefix (rl_TagName r) (component_string component @ ''-'') \<and> strict_version (release_version component r)"

text \<open>The stable releases of the first \<open>n\<close> pages, and that those pages are all there are.\<close>

definition page_releases :: "(nat \<Rightarrow> page_reply) \<Rightarrow> nat \<Rightarrow> Release list" where
  "page_releases reply p = (case reply p of PageReply _ (Inr rs) _ \<Rightarrow> rs | _ \<Rightarrow> [])"

definition stable_on :: "(nat \<Rightarrow> page_reply) \<Rightarrow> Component \<Rightarrow> nat \<Rightarrow> nat \<Rightarrow> Release set" where
  "stable_on reply component p n = {r. \<exists>q. p \<le> q \<and> q < p + n \<and> r \<in> set (page_releases reply q) \<and> stable_release component r}"

fun pages_complete :: "(string \<Rightarrow> bool) \<Rightarrow> (nat \<Rightarrow> page_reply) \<Rightarrow> nat \<Rightarrow> nat \<Rightarrow> bool" where
  "pages_complete isURI reply p 0 = False"
| "pages_complete isURI reply p (Suc n) =
     (case reply p of
        PageReply status (Inr rs) link \<Rightarrow> status = 200
          \<and> (if n = 0 then \<not> linkHasNext isURI link else linkHasNext isURI link \<and> pages_complete isURI reply (p + 1) n)
      | _ \<Rightarrow> False)"

definition version_le :: "string \<Rightarrow> string \<Rightarrow> bool" where
  "version_le v w \<longleftrightarrow> CompareVersions v w \<le> 0"

lemma version_le_order:
  assumes "strict_version u" and "strict_version v" and "strict_version w"
  shows "version_le u u" and "version_le u v \<or> version_le v u"
    and "version_le u v \<Longrightarrow> version_le v w \<Longrightarrow> version_le u w"
    and "CompareVersions u v < 0 \<longleftrightarrow> \<not> version_le v u"
  using assms by (auto simp: strict_version_iff version_le_def CompareVersions_text split: if_splits)

text \<open>What a best release so far is: one of the given ones and not below any of them.\<close>

definition best_of :: "Component \<Rightarrow> Release set \<Rightarrow> Release option \<Rightarrow> bool" where
  "best_of component R best = (case best of
      None \<Rightarrow> R = {}
    | Some b \<Rightarrow> (\<exists>r\<in>R. b = r\<lparr>rl_Version := release_version component r\<rparr>)
        \<and> (\<forall>r\<in>R. strict_version (release_version component r) \<and> version_le (release_version component r) (rl_Version b)))"

lemma pick_release_best:
  assumes "best_of component R best"
  shows "best_of component (R \<union> {r \<in> {rel}. stable_release component r}) (pick_release component rel best)"
proof (cases "stable_release component rel")
  case False
  then have "pick_release component rel best = best"
    by (auto simp: pick_release_def stable_release_def release_version_def Let_def)
  moreover have "R \<union> {r \<in> {rel}. stable_release component r} = R" using False by auto
  ultimately show ?thesis using assms by (simp only:)
next
  case True
  let ?v = "release_version component rel" and ?r = "rel\<lparr>rl_Version := release_version component rel\<rparr>"
  have v: "strict_version ?v" using True by (simp add: stable_release_def)
  have pick: "pick_release component rel best = (case best of None \<Rightarrow> Some ?r
      | Some b \<Rightarrow> if CompareVersions (rl_Version b) ?v < 0 then Some ?r else best)"
    using True by (auto simp: pick_release_def stable_release_def release_version_def Let_def split: option.splits)
  show ?thesis
  proof (cases best)
    case None
    with assms True pick v show ?thesis by (simp add: best_of_def version_le_order)
  next
    case (Some b)
    with assms obtain r0 where r0: "r0 \<in> R" "b = r0\<lparr>rl_Version := release_version component r0\<rparr>"
      "strict_version (rl_Version b)" "\<And>r. r \<in> R \<Longrightarrow> strict_version (release_version component r)
          \<and> version_le (release_version component r) (rl_Version b)"
      by (auto simp: best_of_def)
    show ?thesis
    proof (cases "version_le ?v (rl_Version b)")
      case True
      with v r0(3) Some pick have "pick_release component rel best = Some b"
        by (simp add: version_le_order(4))
      with r0 True v \<open>stable_release component rel\<close> show ?thesis by (auto simp: best_of_def)
    next
      case False
      with v r0(3) Some pick have "pick_release component rel best = Some ?r"
        by (simp add: version_le_order(4))
      moreover have "version_le (release_version component r) ?v" if "r \<in> R" for r
        using r0(4) [OF that] False version_le_order(2,3) v r0(3) by blast
      ultimately show ?thesis using r0(4) v \<open>stable_release component rel\<close>
        by (auto simp: best_of_def version_le_order(1))
    qed
  qed
qed

lemma fold_pick_best:
  "best_of component R best \<Longrightarrow>
    best_of component (R \<union> {r \<in> set rs. stable_release component r}) (fold (pick_release component) rs best)"
proof (induction rs arbitrary: R best)
  case (Cons r rs)
  have "R \<union> {x \<in> set (r # rs). stable_release component x}
      = (R \<union> {x \<in> {r}. stable_release component x}) \<union> {x \<in> set rs. stable_release component x}" by auto
  with Cons.IH [OF pick_release_best [OF Cons.prems]] show ?case by simp
qed simp

lemma stable_on_Suc:
  "stable_on reply component p (Suc n)
     = {r \<in> set (page_releases reply p). stable_release component r} \<union> stable_on reply component (p + 1) n"
proof -
  have q: "(p \<le> q \<and> q < p + Suc n) \<longleftrightarrow> q = p \<or> (p + 1 \<le> q \<and> q < p + 1 + n)" for q by auto
  show ?thesis
    unfolding stable_on_def conj_assoc [symmetric] q by auto
qed

lemma scan_pages_best:
  assumes "pages_complete isURI reply p n" and "n \<le> left" and "best_of component R best"
  shows "\<exists>best'. best_of component (R \<union> stable_on reply component p n) best'
    \<and> (case scan_pages isURI reply component p left best of
         Inr rel \<Rightarrow> best' = Some rel
       | Inl e \<Rightarrow> best' = None \<and> e = ''no valid '' @ component_string component @ '' release found'')"
  using assms
proof (induction n arbitrary: p left best R)
  case (Suc n)
  obtain left' where l: "left = Suc left'" using Suc.prems(2) by (cases left) auto
  from Suc.prems(1) obtain rs link where r: "reply p = PageReply 200 (Inr rs) link"
    by (auto split: page_reply.splits sum.splits)
  let ?R = "R \<union> {x \<in> set rs. stable_release component x}"
  let ?best = "fold (pick_release component) rs best"
  have b: "best_of component ?R ?best" by (rule fold_pick_best [OF Suc.prems(3)])
  have R: "R \<union> stable_on reply component p (Suc n) = ?R \<union> stable_on reply component (p + 1) n"
    unfolding stable_on_Suc by (simp add: page_releases_def r Un_assoc)
  show ?case
  proof (cases n)
    case 0
    with Suc.prems(1) r have "\<not> linkHasNext isURI link" by simp
    moreover have "stable_on reply component (p + 1) 0 = {}" by (auto simp: stable_on_def)
    ultimately show ?thesis using b r l R 0 by (intro exI [of _ ?best]) (auto split: option.split)
  next
    case (Suc m)
    with Suc.prems(1) r have "linkHasNext isURI link" "pages_complete isURI reply (p + 1) n" by simp_all
    with Suc.IH [of "p + 1" left' ?R ?best] Suc.prems(2) b l r R show ?thesis by simp
  qed
qed simp

text \<open>
  C14: When GitHub answers every page and there are at most ten of them, the forced scan for a
  component returns the stable release of the highest version among all pages (a release that is
  no draft or prerelease, whose tag is the component's name and a strict version), and fails only
  when there is none.
\<close>

theorem latest_release_is_highest:
  assumes "component = ComponentServer \<or> component = ComponentAgent"
    and "pages_complete isURI reply 1 n" and "n \<le> 10"
  shows "case snd (GetLatestComponentRelease isURI reply now component True cl) of
      Inl e \<Rightarrow> stable_on reply component 1 n = {}
    | Inr rel \<Rightarrow> (\<exists>r \<in> stable_on reply component 1 n. rel = r\<lparr>rl_Version := release_version component r\<rparr>)
        \<and> (\<forall>r \<in> stable_on reply component 1 n. CompareVersions (release_version component r) (rl_Version rel) \<le> 0)"
proof -
  have "best_of component {} None" by (simp add: best_of_def)
  from scan_pages_best [OF assms(2,3) this]
  obtain best where b: "best_of component (stable_on reply component 1 n) best"
    "case scan_pages isURI reply component 1 10 None of Inr rel \<Rightarrow> best = Some rel
       | Inl e \<Rightarrow> best = None \<and> e = ''no valid '' @ component_string component @ '' release found''" by auto
  then show ?thesis using assms(1)
    by (auto simp: GetLatestComponentRelease_def best_of_def version_le_def Let_def split: sum.splits)
qed

definition sample_release :: "string \<Rightarrow> Release" where
  "sample_release tag = \<lparr>rl_ID = 7, rl_TagName = tag, rl_Version = [], rl_Name = [], rl_Body = [], rl_Draft = False,
     rl_Prerelease = False, rl_Commitish = [], rl_PublishedAt = 0, rl_HTMLURL = [], rl_Assets = []\<rparr>"

definition sample_pages :: "nat \<Rightarrow> page_reply" where
  "sample_pages p = (if p = 1 then PageReply 200 (Inr [sample_release ''agent-v0.6.9'', sample_release ''server-v1.0.0'',
      sample_release ''agent-v0.6.11'', sample_release ''agent-v0.7'']) [] else PageFailed ''timeout'')"

lemma sample_pages_complete: "pages_complete (\<lambda>_. True) sample_pages 1 (Suc 0)"
  by (simp add: sample_pages_def linkHasNext_def trim_space_def strip_all.simps strip_one_def space_runes_def)

theorem latest_release_is_highest_witness:
  "case snd (GetLatestComponentRelease (\<lambda>_. True) sample_pages 0 ComponentAgent True
       \<lparr>rc_repo = [], rc_downloadBaseURL = [], rc_mirrorPrefix = [], rc_cacheTTL = 0, rc_componentCache = []\<rparr>) of
      Inl e \<Rightarrow> stable_on sample_pages ComponentAgent 1 (Suc 0) = {}
    | Inr rel \<Rightarrow> (\<exists>r \<in> stable_on sample_pages ComponentAgent 1 (Suc 0). rel = r\<lparr>rl_Version := release_version ComponentAgent r\<rparr>)
        \<and> (\<forall>r \<in> stable_on sample_pages ComponentAgent 1 (Suc 0).
              CompareVersions (release_version ComponentAgent r) (rl_Version rel) \<le> 0)"
  using latest_release_is_highest [of ComponentAgent "\<lambda>_. True" sample_pages "Suc 0" 0
      "\<lparr>rc_repo = [], rc_downloadBaseURL = [], rc_mirrorPrefix = [], rc_cacheTTL = 0, rc_componentCache = []\<rparr>"]
    sample_pages_complete by simp

section \<open>What is offered\<close>

text \<open>A version or an available status always comes from a fetch that succeeded.\<close>

definition fetched_ok :: "Snapshot \<Rightarrow> bool" where
  "fetched_ok sn \<longleftrightarrow> (sn_Status sn = VStatusAvailable \<or> sn_LatestVersion sn \<noteq> [] \<longrightarrow> \<not> is_zero_time (sn_LastSuccessAt sn))"

definition versions_ok :: "version_service \<Rightarrow> bool" where
  "versions_ok s \<longleftrightarrow> (\<forall>c sn. gget (vs_channels s) c = Some sn \<longrightarrow> fetched_ok sn)"

type_synonym refresh_op = "refresh_env \<times> Component \<times> bool"

definition refresh_run :: "refresh_op list \<Rightarrow> version_service \<Rightarrow> version_service" where
  "refresh_run ops s = fold (\<lambda>(env, c, force) s. fst (Refresh env c force s)) ops s"

lemma failed_fetch_ok: "fetched_ok sn \<Longrightarrow> fetched_ok (failed_fetch now e sn)"
  by (auto simp: fetched_ok_def failed_fetch_def Let_def)

lemma good_fetch_ok: "\<not> is_zero_time now \<Longrightarrow> fetched_ok (good_fetch now v c rel sn)"
  by (simp add: fetched_ok_def good_fetch_def Let_def)

text \<open>A refresh changes nothing, or stores one snapshot of its component.\<close>

lemma Refresh_store:
  "fst (Refresh env c force s) = s \<or> (rf_Saved env \<and> fst (Refresh env c force s) = s\<lparr>vs_channels := gput c
     (case fetched_release env c of
        Inl e \<Rightarrow> failed_fetch (rf_Now env) e (checked_snapshot (rf_Now env) c s)
      | Inr rel \<Rightarrow> good_fetch (rf_Now env) (vs_serverVersion s) c rel (checked_snapshot (rf_Now env) c s)) (vs_channels s)\<rparr>)"
  by (simp add: Refresh_def Let_def split: sum.split)

lemma checked_ok: "versions_ok s \<Longrightarrow> fetched_ok (checked_snapshot now c s)"
  by (auto simp: checked_snapshot_def Let_def versions_ok_def fetched_ok_def zero_snapshot_def split: option.splits)

lemma Refresh_ok:
  assumes "versions_ok s" and "\<not> is_zero_time (rf_Now env)"
  shows "versions_ok (fst (Refresh env c force s))"
proof -
  have "fetched_ok (case fetched_release env c of
        Inl e \<Rightarrow> failed_fetch (rf_Now env) e (checked_snapshot (rf_Now env) c s)
      | Inr rel \<Rightarrow> good_fetch (rf_Now env) (vs_serverVersion s) c rel (checked_snapshot (rf_Now env) c s))"
    using checked_ok [OF assms(1)] assms(2) by (auto simp: failed_fetch_ok good_fetch_ok split: sum.split)
  with Refresh_store [of env c force s] assms(1) show ?thesis
    by (auto simp: versions_ok_def split: if_splits)
qed

lemma Refresh_frame:
  "\<not> rf_Saved env \<or> c \<noteq> c' \<Longrightarrow> snapshot_of now c (fst (Refresh env c' force s)) = snapshot_of now c s"
  using Refresh_store [of env c' force s] by (auto simp: snapshot_of_def)

lemma refresh_run_ok:
  "versions_ok s \<Longrightarrow> list_all (\<lambda>(env, _, _). \<not> is_zero_time (rf_Now env)) ops \<Longrightarrow> versions_ok (refresh_run ops s)"
  by (induction ops arbitrary: s) (auto simp: refresh_run_def Refresh_ok)

lemma aged_snapshot:
  assumes "fetched_ok sn"
  shows "sn_Status (withAge now sn) = VStatusAvailable \<Longrightarrow>
      \<not> is_zero_time (sn_LastSuccessAt sn) \<and> time_sub now (sn_LastSuccessAt sn) \<le> hours 6"
    and "sn_LatestVersion (withAge now sn) \<noteq> [] \<Longrightarrow>
      \<not> is_zero_time (sn_LastSuccessAt sn) \<and> time_sub now (sn_LastSuccessAt sn) \<le> hours 24"
    and "sn_LastSuccessAt (withAge now sn) = sn_LastSuccessAt sn"
  using assms by (auto simp: withAge_def fetched_ok_def Let_def hours_def split: if_splits)

text \<open>
  Whatever refreshes have run since the start, of either component, with answers, failures
  and failed writes in any order: a snapshot reads as available only if a fetch succeeded at most
  six hours ago, and names a latest version only if one succeeded at most a day ago; and a
  refresh that cannot be saved, or is of another component, changes no snapshot that is read.
\<close>

theorem offered_version_is_fresh:
  assumes "NewVersionService VersionsAbsent v = Inr s0"
    and "list_all (\<lambda>(env, _, _). \<not> is_zero_time (rf_Now env)) ops"
  shows "let s = refresh_run ops s0; sn = snapshot_of now c s in
      (sn_Status sn = VStatusAvailable \<longrightarrow> time_sub now (sn_LastSuccessAt sn) \<le> hours 6)
      \<and> (sn_LatestVersion sn \<noteq> [] \<longrightarrow> time_sub now (sn_LastSuccessAt sn) \<le> hours 24)
      \<and> (\<not> rf_Saved env \<or> c \<noteq> c' \<longrightarrow> snapshot_of now c (fst (Refresh env c' force s)) = sn)"
proof -
  have "versions_ok s0" using assms(1) by (auto simp: NewVersionService_def load_versions_def versions_ok_def)
  then have ok: "versions_ok (refresh_run ops s0)" by (rule refresh_run_ok [OF _ assms(2)])
  show ?thesis
  proof (cases "gget (vs_channels (refresh_run ops s0)) c")
    case None
    then have "snapshot_of now c (refresh_run ops s0)
        = zero_snapshot\<lparr>sn_Component := c, sn_Status := VStatusUnknown, sn_UpdateState := UpdateUnknown\<rparr>"
      by (simp add: snapshot_of_def)
    then show ?thesis by (simp add: Let_def Refresh_frame zero_snapshot_def)
  next
    case (Some sn)
    with ok have "fetched_ok sn" by (auto simp: versions_ok_def)
    note aged = aged_snapshot [OF this, of now]
    have "snapshot_of now c (refresh_run ops s0) = withAge now sn" using Some by (simp add: snapshot_of_def)
    then show ?thesis using aged by (simp add: Let_def Refresh_frame)
  qed
qed

definition sample_refresh :: "time \<Rightarrow> string + Release option \<Rightarrow> refresh_op" where
  "sample_refresh t f = (\<lparr>rf_Now = t, rf_Fetched = f, rf_Saved = True, rf_GOOS = ''linux'', rf_GOARCH = ''amd64''\<rparr>, ComponentServer, True)"

definition server_release :: Release where
  "server_release = (sample_release ''server-v0.7.0'')\<lparr>rl_Version := ''v0.7.0'', rl_Assets :=
     [\<lparr>as_ID = 1, as_Name = ''homeagent-server-linux-amd64'', as_Size = 9, as_Digest = [], as_BrowserDownloadURL = ''u''\<rparr>,
      \<lparr>as_ID = 2, as_Name = ''homeagent-server-linux-amd64.sha256'', as_Size = 9, as_Digest = [], as_BrowserDownloadURL = ''u''\<rparr>]\<rparr>"

theorem offered_version_is_fresh_witness:
  "let s = refresh_run [sample_refresh (hours 1) (Inr (Some server_release)), sample_refresh (hours 2) (Inl ''status 403'')]
        \<lparr>vs_serverVersion = ''v0.6.0'', vs_channels = []\<rparr>;
       sn = snapshot_of (hours 8) ComponentServer s in
     (sn_Status sn = VStatusAvailable \<longrightarrow> time_sub (hours 8) (sn_LastSuccessAt sn) \<le> hours 6)
      \<and> (sn_LatestVersion sn \<noteq> [] \<longrightarrow> time_sub (hours 8) (sn_LastSuccessAt sn) \<le> hours 24)
      \<and> (\<not> rf_Saved (fst (sample_refresh 1 (Inl []))) \<or> ComponentServer \<noteq> ComponentAgent \<longrightarrow>
          snapshot_of (hours 8) ComponentServer (fst (Refresh (fst (sample_refresh 1 (Inl []))) ComponentAgent True s)) = sn)"
  by (rule offered_version_is_fresh [of "''v0.6.0''"])
    (simp_all add: NewVersionService_def load_versions_def sample_refresh_def is_zero_time_def hours_def)

lemma retryDelay_bounds:
  assumes "unix_epoch \<le> now"
  shows "minutes 5 \<le> retryDelay n now \<and> retryDelay n now < minutes 72"
proof -
  have "0 \<le> go_rem a b \<and> go_rem a b < b" if "0 \<le> a" "0 < b" for a b
    using that by (auto simp: go_rem_def sgn_if)
  then have rem: "0 \<le> go_rem (now - unix_epoch) b \<and> go_rem (now - unix_epoch) b < b" if "0 < b" for b
    using assms that by simp
  define i where "i = (let i0 = (if n - 1 < 0 then 0 else n - 1) in if i0 \<ge> 4 then 3 else i0 :: int)"
  have "i = 0 \<or> i = 1 \<or> i = 2 \<or> i = 3" by (auto simp: i_def Let_def)
  then show ?thesis
    unfolding retryDelay_def Let_def
    using rem [of "minutes 5 div 5"] rem [of "minutes 15 div 5"] rem [of "minutes 30 div 5"] rem [of "hours 1 div 5"]
    by (auto simp: i_def Let_def minutes_def hours_def split: if_splits)
qed

text \<open>
  After a refresh that failed and was saved, the component is not due again before its retry
  time, which is between five and seventy-two minutes later.
\<close>

theorem failed_refresh_backs_off:
  assumes "Refresh env c True s = (s', sn, Some e)" and "rf_Saved env" and "c = ComponentServer \<or> c = ComponentAgent"
    and "unix_epoch \<le> rf_Now env"
  shows "minutes 5 \<le> sn_RetryAt sn - rf_Now env \<and> sn_RetryAt sn - rf_Now env < minutes 72
    \<and> (\<forall>t. Due t c s' \<longleftrightarrow> t \<ge> sn_RetryAt sn)"
proof -
  let ?old = "checked_snapshot (rf_Now env) c s"
  have sn: "sn = failed_fetch (rf_Now env) e ?old" and s': "gget (vs_channels s') c = Some sn"
    using assms(1,2,3) by (auto simp: Refresh_def Let_def split: sum.splits)
  have r: "sn_RetryAt sn = rf_Now env + retryDelay (sn_ConsecutiveFailures ?old + 1) (rf_Now env)"
    by (simp add: sn failed_fetch_def Let_def)
  have b: "minutes 5 \<le> sn_RetryAt sn - rf_Now env \<and> sn_RetryAt sn - rf_Now env < minutes 72"
    using retryDelay_bounds [OF assms(4)] by (simp add: r)
  have aged: "sn_RetryAt (withAge t sn) = sn_RetryAt sn" "sn_CheckedAt (withAge t sn) = rf_Now env" for t
    by (simp_all add: withAge_def Let_def sn failed_fetch_def checked_snapshot_def)
  have "\<not> is_zero_time (rf_Now env)" "\<not> is_zero_time (sn_RetryAt sn)"
    using b assms(4) by (auto simp: is_zero_time_def unix_epoch_def seconds_def minutes_def)
  then show ?thesis using b by (simp add: Due_def Let_def snapshot_of_def s' aged)
qed

theorem failed_refresh_backs_off_witness:
  "let (s', sn, e) = Refresh (fst (sample_refresh unix_epoch (Inl ''status 403''))) ComponentServer True
        \<lparr>vs_serverVersion = ''v0.6.0'', vs_channels = []\<rparr> in
     minutes 5 \<le> sn_RetryAt sn - unix_epoch \<and> \<not> Due (unix_epoch + minutes 4) ComponentServer s'"
proof -
  let ?env = "fst (sample_refresh unix_epoch (Inl ''status 403''))"
  let ?s = "\<lparr>vs_serverVersion = ''v0.6.0'', vs_channels = []\<rparr>"
  obtain s' sn where r: "Refresh ?env ComponentServer True ?s = (s', sn, Some ''status 403'')"
    by (cases "Refresh ?env ComponentServer True ?s") (simp add: Refresh_def sample_refresh_def fetched_release_def Let_def)
  from failed_refresh_backs_off [OF r] have "minutes 5 \<le> sn_RetryAt sn - unix_epoch"
    "\<forall>t. Due t ComponentServer s' \<longleftrightarrow> t \<ge> sn_RetryAt sn"
    by (simp_all add: sample_refresh_def)
  then show ?thesis unfolding r by (simp add: minutes_def)
qed

end
