(* ===== verification/Agent.thy ===== *)
theory Agent
  imports Prelude
begin

text \<open>
  The agent's command ledger and the handler that consults it,
  \<open>internal/daemon/ledger.go\<close> and the event part of \<open>client.go\<close>: which commands an agent carries
  out, which it suppresses as duplicates, what it acknowledges and what it recovers after a
  restart. The ledger's file is replaced atomically; whether a replacement succeeds is an
  argument, one answer per place that writes and command. The server's answer to a posted
  acknowledgement, the decoding of a payload and the outcome of the side effect are arguments
  as well. An acknowledgement is a record in place of its JSON text.
\<close>

section \<open>Data\<close>

datatype stage = Prepared | SideEffectStarted | ResultCommitted | AckConfirmed | StageOther string

record ack =
  ak_CommandID :: string
  ak_Module :: string
  ak_Status :: string
  ak_Version :: int
  ak_Hash :: string
  ak_Fingerprint :: string
  ak_Error :: string

record ledgerRecord =
  lr_CommandID :: string
  lr_Kind :: string
  lr_Stage :: stage
  lr_Ack :: "ack option"
  lr_Payload :: string
  lr_UpdatedAt :: time

text \<open>What \<open>json.Unmarshal\<close> finds in the file; an absent field keeps its default.\<close>

record ledger_data =
  ldt_SchemaVersion :: "int option"
  ldt_Records :: "(string, ledgerRecord) gomap option"
  ldt_LastEventID :: string

record commandLedger =
  ld_path :: string
  ld_SchemaVersion :: int
  ld_Records :: "(string, ledgerRecord) gomap"
  ld_LastEventID :: string

datatype ledger_file = LedgerAbsent | LedgerUnreadable | LedgerUnsafe | LedgerMalformed | LedgerData ledger_data

datatype ledger_error = ErrLedgerRead | ErrLedgerPermissions | ErrLedgerDecode | ErrLedgerSchema

definition zero_record :: ledgerRecord where
  "zero_record = \<lparr>lr_CommandID = [], lr_Kind = [], lr_Stage = StageOther [], lr_Ack = None,
     lr_Payload = [], lr_UpdatedAt = 0\<rparr>"

section \<open>The ledger\<close>

text \<open>
  The ledger and its file change together: \<open>ledger_store\<close> has the ledger in memory and the file
  at its path. \<open>writeLocked\<close> answers whether the write succeeded.
\<close>

record ledger_store =
  ls_ledger :: commandLedger
  ls_file :: ledger_file

definition writeLocked :: "bool \<Rightarrow> ledger_store \<Rightarrow> ledger_store \<times> bool" where
  "writeLocked ok s =
     (let l = ls_ledger s in
      if ld_path l = [] then (s, True)
      else if ok then
        (s\<lparr>ls_file := LedgerData \<lparr>ldt_SchemaVersion = Some (ld_SchemaVersion l),
             ldt_Records = Some (ld_Records l), ldt_LastEventID = ld_LastEventID l\<rparr>\<rparr>, True)
      else (s, False))"

definition openCommandLedger :: "string \<Rightarrow> ledger_file \<Rightarrow> ledger_error + commandLedger" where
  "openCommandLedger path fl =
     (let l = \<lparr>ld_path = path, ld_SchemaVersion = 1, ld_Records = [], ld_LastEventID = []\<rparr> in
      if path = [] then Inr l
      else (case fl of
        LedgerAbsent \<Rightarrow> Inr l
      | LedgerUnreadable \<Rightarrow> Inl ErrLedgerRead
      | LedgerUnsafe \<Rightarrow> Inl ErrLedgerPermissions
      | LedgerMalformed \<Rightarrow> Inl ErrLedgerDecode
      | LedgerData d \<Rightarrow>
          (let v = (case ldt_SchemaVersion d of None \<Rightarrow> 1 | Some v \<Rightarrow> v) in
           if v \<noteq> 1 then Inl ErrLedgerSchema
           else Inr (l\<lparr>ld_Records := (case ldt_Records d of None \<Rightarrow> [] | Some m \<Rightarrow> m),
                        ld_LastEventID := ldt_LastEventID d\<rparr>))))"

definition put_record :: "string \<Rightarrow> ledgerRecord \<Rightarrow> ledger_store \<Rightarrow> ledger_store" where
  "put_record i r s = s\<lparr>ls_ledger := (ls_ledger s)\<lparr>ld_Records := gput i r (ld_Records (ls_ledger s))\<rparr>\<rparr>"

definition lookup_record :: "ledger_store \<Rightarrow> string \<Rightarrow> ledgerRecord option" where
  "lookup_record s i = gget (ld_Records (ls_ledger s)) i"

text \<open>Go's \<open>l.Records[id]\<close> without the second result: a missing entry reads as the zero value.\<close>

definition record_or_zero :: "ledger_store \<Rightarrow> string \<Rightarrow> ledgerRecord" where
  "record_or_zero s i = (case lookup_record s i of None \<Rightarrow> zero_record | Some r \<Rightarrow> r)"

definition lastEventID :: "ledger_store \<Rightarrow> string" where
  "lastEventID s = ld_LastEventID (ls_ledger s)"

definition recordEventID :: "bool \<Rightarrow> string \<Rightarrow> ledger_store \<Rightarrow> ledger_store \<times> bool" where
  "recordEventID ok i s =
     (if i = [] then (s, True)
      else if ld_LastEventID (ls_ledger s) = i then (s, True)
      else writeLocked ok (s\<lparr>ls_ledger := (ls_ledger s)\<lparr>ld_LastEventID := i\<rparr>\<rparr>))"

definition ledger_begin ::
  "time \<Rightarrow> bool \<Rightarrow> string \<Rightarrow> string \<Rightarrow> string \<Rightarrow> ledger_store \<Rightarrow> ledger_store \<times> ledgerRecord \<times> bool \<times> bool"
where
  "ledger_begin now ok i kind payload s =
     (case lookup_record s i of
        Some r \<Rightarrow> (s, r, False, True)
      | None \<Rightarrow>
          (let r = \<lparr>lr_CommandID = i, lr_Kind = kind, lr_Stage = Prepared, lr_Ack = None,
                 lr_Payload = payload, lr_UpdatedAt = now\<rparr>;
               (s', saved) = writeLocked ok (put_record i r s) in
           (s', r, True, saved)))"

definition resetPrepared :: "time \<Rightarrow> bool \<Rightarrow> string \<Rightarrow> ledger_store \<Rightarrow> ledger_store \<times> bool" where
  "resetPrepared now ok i s =
     writeLocked ok (put_record i ((record_or_zero s i)\<lparr>lr_Stage := Prepared, lr_UpdatedAt := now\<rparr>) s)"

definition interrupted :: "ledger_store \<Rightarrow> ledgerRecord list" where
  "interrupted s = filter (\<lambda>r. lr_Stage r = SideEffectStarted) (gvals (ld_Records (ls_ledger s)))"

definition ledger_start :: "time \<Rightarrow> bool \<Rightarrow> string \<Rightarrow> ledger_store \<Rightarrow> ledger_store \<times> bool \<times> bool" where
  "ledger_start now ok i s =
     (case lookup_record s i of
        None \<Rightarrow> (s, False, True)
      | Some r \<Rightarrow>
          if lr_Stage r \<noteq> Prepared then (s, False, True)
          else (let (s', saved) = writeLocked ok
                      (put_record i (r\<lparr>lr_Stage := SideEffectStarted, lr_UpdatedAt := now\<rparr>) s) in
                (s', True, saved)))"

definition ledger_commit :: "time \<Rightarrow> bool \<Rightarrow> string \<Rightarrow> ack \<Rightarrow> ledger_store \<Rightarrow> ledger_store \<times> bool" where
  "ledger_commit now ok i a s =
     writeLocked ok (put_record i ((record_or_zero s i)\<lparr>lr_CommandID := i, lr_Stage := ResultCommitted,
       lr_Ack := Some a, lr_UpdatedAt := now\<rparr>) s)"

definition ledger_confirm :: "time \<Rightarrow> bool \<Rightarrow> string \<Rightarrow> ledger_store \<Rightarrow> ledger_store \<times> bool" where
  "ledger_confirm now ok i s =
     writeLocked ok (put_record i ((record_or_zero s i)\<lparr>lr_Stage := AckConfirmed, lr_UpdatedAt := now\<rparr>) s)"

definition pendingAcks :: "ledger_store \<Rightarrow> ack list" where
  "pendingAcks s = List.map_filter
     (\<lambda>r. if lr_Stage r = ResultCommitted then lr_Ack r else None) (gvals (ld_Records (ls_ledger s)))"

section \<open>The daemon\<close>

text \<open>
  \<open>dm_effects\<close> records, in order, the side effects carried out (command, event type), and
  \<open>dm_acks\<close> the acknowledgements the server has answered. \<open>dm_up\<close> tells whether the process
  runs: it stops when it crashes during a side effect and after an upgrade. The side effect of a
  shutdown, which the code delays in a goroutine of its own, takes its place in the order of the
  events.
\<close>

datatype effect =
    EffectCrash | EffectFailed string string | EffectSkipped string | EffectDone string string

datatype write_site = WEventID | WBegin | WReset | WStart | WCommit | WConfirm string

record agent_env =
  ag_Now :: time
  ag_WriteOK :: "write_site \<Rightarrow> string \<Rightarrow> bool"
  ag_Posted :: "ack \<Rightarrow> bool"
  ag_Decode :: "string \<Rightarrow> string \<Rightarrow> string + (int \<times> string)"
  ag_Effect :: "string \<Rightarrow> effect"

record Daemon =
  dm_store :: ledger_store
  dm_up :: bool
  dm_effects :: "(string \<times> string) list"
  dm_acks :: "ack list"

definition wire_status :: "string \<Rightarrow> string \<Rightarrow> string" where
  "wire_status commandID status =
     (if commandID = [] then status
      else if status = ''error'' then ''failed''
      else if status \<in> set [''synced'', ''upgraded'', ''revoked'', ''shutting_down''] then ''succeeded''
      else status)"

definition postAck :: "agent_env \<Rightarrow> ack \<Rightarrow> Daemon \<Rightarrow> Daemon \<times> bool" where
  "postAck env a d =
     (if \<not> ag_Posted env a then (d, False)
      else (let d1 = d\<lparr>dm_acks := dm_acks d @ [a]\<rparr> in
        (if ak_CommandID a = [] then d1
         else d1\<lparr>dm_store := fst (ledger_confirm (ag_Now env)
                (ag_WriteOK env (WConfirm (ak_Status a)) (ak_CommandID a)) (ak_CommandID a) (dm_store d1))\<rparr>,
         True)))"

definition sendAckWithFingerprintResult ::
  "agent_env \<Rightarrow> string \<Rightarrow> string \<Rightarrow> string \<Rightarrow> int \<Rightarrow> string \<Rightarrow> string \<Rightarrow> string \<Rightarrow> Daemon \<Rightarrow> Daemon \<times> bool"
where
  "sendAckWithFingerprintResult env commandID modu status versionVal hash fingerprint errMsg d =
     (let a = \<lparr>ak_CommandID = commandID, ak_Module = modu, ak_Status = wire_status commandID status,
            ak_Version = versionVal, ak_Hash = hash, ak_Fingerprint = fingerprint, ak_Error = errMsg\<rparr> in
      if commandID \<noteq> [] \<and> status \<noteq> ''accepted'' then
        (let (s, saved) = ledger_commit (ag_Now env) (ag_WriteOK env WCommit commandID) commandID a
               (dm_store d);
             d1 = d\<lparr>dm_store := s\<rparr> in
         if \<not> saved then (d1, False) else postAck env a d1)
      else postAck env a d)"

definition sendAck ::
  "agent_env \<Rightarrow> string \<Rightarrow> string \<Rightarrow> string \<Rightarrow> int \<Rightarrow> string \<Rightarrow> string \<Rightarrow> Daemon \<Rightarrow> Daemon" where
  "sendAck env commandID modu status versionVal hash errMsg d =
     fst (sendAckWithFingerprintResult env commandID modu status versionVal hash [] errMsg d)"

definition sendAccepted :: "agent_env \<Rightarrow> string \<Rightarrow> string \<Rightarrow> Daemon \<Rightarrow> Daemon" where
  "sendAccepted env commandID modu d =
     (if commandID = [] then d else sendAck env commandID modu ''accepted'' 0 [] [] d)"

definition startCommand :: "agent_env \<Rightarrow> string \<Rightarrow> Daemon \<Rightarrow> Daemon \<times> bool" where
  "startCommand env i d =
     (if i = [] then (d, True)
      else (let (s, started, saved) = ledger_start (ag_Now env) (ag_WriteOK env WStart i) i (dm_store d) in
            (d\<lparr>dm_store := s\<rparr>, saved \<and> started)))"

text \<open>The events that carry commands, with the module their acknowledgements name.\<close>

definition event_module :: "string \<Rightarrow> string option" where
  "event_module eventType =
     (if eventType = ''key_sync'' then Some ''ssh_keys''
      else if eventType = ''upgrade'' then Some ''upgrade''
      else if eventType = ''github_credentials_sync'' then Some ''github_credentials''
      else if eventType = ''github_credentials_revoke'' then Some ''github_credentials''
      else if eventType = ''shutdown'' then Some ''shutdown''
      else None)"

fun report_status :: "string \<Rightarrow> effect \<Rightarrow> string" where
  "report_status eventType (EffectFailed _ _) =
     (if eventType = ''github_credentials_revoke'' \<or> eventType = ''shutdown'' then ''failed'' else ''error'')"
| "report_status eventType (EffectSkipped _) = ''synced''"
| "report_status eventType _ =
     (if eventType = ''upgrade'' then ''upgraded''
      else if eventType = ''github_credentials_revoke'' then ''revoked''
      else if eventType = ''shutdown'' then ''succeeded''
      else ''synced'')"

text \<open>
  The acknowledgement of a finished side effect: only the key and credential synchronisation
  name the version and hash of their payload. After an upgrade the process exits.
\<close>

definition report_effect ::
  "agent_env \<Rightarrow> string \<Rightarrow> string \<Rightarrow> string \<Rightarrow> int \<times> string \<Rightarrow> Daemon \<Rightarrow> Daemon" where
  "report_effect env commandID eventType modu vh d =
     (let eff = ag_Effect env commandID;
          (v, h) = (if eventType = ''key_sync'' \<or> eventType = ''github_credentials_sync'' then vh else (0, []));
          send = (\<lambda>fp msg. fst (sendAckWithFingerprintResult env commandID modu
                   (report_status eventType eff) v h fp msg d)) in
      (case eff of
         EffectCrash \<Rightarrow> d\<lparr>dm_up := False\<rparr>
       | EffectFailed msg fp \<Rightarrow> send fp msg
       | EffectSkipped msg \<Rightarrow> send [] msg
       | EffectDone msg fp \<Rightarrow>
           (if eventType = ''upgrade'' then (send fp msg)\<lparr>dm_up := False\<rparr> else send fp msg)))"

definition run_command :: "agent_env \<Rightarrow> string \<Rightarrow> string \<Rightarrow> string \<Rightarrow> string \<Rightarrow> Daemon \<Rightarrow> Daemon" where
  "run_command env commandID eventType modu data d =
     (case (case ag_Decode env eventType data of
              Inl err \<Rightarrow> if eventType = ''shutdown'' then Inr (0, []) else Inl err
            | Inr vh \<Rightarrow> Inr vh) of
        Inl err \<Rightarrow> sendAck env commandID modu ''error'' 0 [] (''invalid payload: '' @ err) d
      | Inr vh \<Rightarrow>
          (let (d1, started) = startCommand env commandID d in
           if \<not> started then d1
           else
             (let d2 = sendAccepted env commandID modu d1;
                  d3 = d2\<lparr>dm_effects := dm_effects d2 @ [(commandID, eventType)]\<rparr> in
              report_effect env commandID eventType modu vh d3)))"

definition dispatch_event :: "agent_env \<Rightarrow> string \<Rightarrow> string \<Rightarrow> string \<Rightarrow> Daemon \<Rightarrow> Daemon" where
  "dispatch_event env commandID eventType data d =
     (case event_module eventType of
        None \<Rightarrow> d
      | Some modu \<Rightarrow> run_command env commandID eventType modu data d)"

definition handleEvent :: "agent_env \<Rightarrow> string \<Rightarrow> string \<Rightarrow> string \<Rightarrow> Daemon \<Rightarrow> Daemon" where
  "handleEvent env commandID eventType data d =
     (if \<not> dm_up d then d
      else if commandID \<noteq> [] \<and> eventType \<noteq> ''ping'' then
        (let (s1, rcd, execute, saved) = ledger_begin (ag_Now env) (ag_WriteOK env WBegin commandID)
               commandID eventType data (dm_store d);
             d1 = d\<lparr>dm_store := s1\<rparr> in
         if \<not> saved then d1
         else if \<not> execute \<and> lr_Stage rcd = SideEffectStarted then
           (if eventType = ''shutdown'' then
              sendAck env commandID ''shutdown'' ''failed'' 0 [] ''outcome_uncertain'' d1
            else
              (let (s2, wrote) = resetPrepared (ag_Now env) (ag_WriteOK env WReset commandID) commandID s1;
                   d2 = d1\<lparr>dm_store := s2\<rparr> in
               if \<not> wrote then d2 else dispatch_event env commandID eventType data d2))
         else if \<not> execute \<and> lr_Stage rcd \<noteq> Prepared then
           (case (lr_Stage rcd, lr_Ack rcd) of
              (ResultCommitted, Some a) \<Rightarrow> fst (postAck env a d1)
            | _ \<Rightarrow> d1)
         else dispatch_event env commandID eventType data d1)
      else dispatch_event env commandID eventType data d)"

definition recover_one :: "agent_env \<Rightarrow> ledgerRecord \<Rightarrow> Daemon \<Rightarrow> Daemon" where
  "recover_one env rcd d =
     (if \<not> dm_up d then d
      else if lr_Kind rcd = ''shutdown'' then
        sendAck env (lr_CommandID rcd) ''shutdown'' ''failed'' 0 [] ''outcome_uncertain'' d
      else handleEvent env (lr_CommandID rcd) (lr_Kind rcd) (lr_Payload rcd) d)"

definition recoverInterruptedCommands :: "agent_env \<Rightarrow> Daemon \<Rightarrow> Daemon" where
  "recoverInterruptedCommands env d = fold (recover_one env) (interrupted (dm_store d)) d"

text \<open>One round of \<open>retryCommittedAcks\<close>.\<close>

definition retry_round :: "agent_env \<Rightarrow> Daemon \<Rightarrow> Daemon" where
  "retry_round env d =
     (if dm_up d then fold (\<lambda>a d. fst (postAck env a d)) (pendingAcks (dm_store d)) d else d)"

text \<open>
  The start of the process: the ledger is read from its file and, when it opens, the
  interrupted commands are recovered.
\<close>

definition boot :: "agent_env \<Rightarrow> Daemon \<Rightarrow> Daemon" where
  "boot env d =
     (case openCommandLedger (ld_path (ls_ledger (dm_store d))) (ls_file (dm_store d)) of
        Inl e \<Rightarrow> d\<lparr>dm_up := False\<rparr>
      | Inr l \<Rightarrow> recoverInterruptedCommands env
          (d\<lparr>dm_store := (dm_store d)\<lparr>ls_ledger := l\<rparr>, dm_up := True\<rparr>))"

datatype agent_op =
    AgentEvent agent_env string string string
  | AgentCursor bool string
  | AgentRetry agent_env
  | AgentCrash
  | AgentBoot agent_env

fun agent_step :: "agent_op \<Rightarrow> Daemon \<Rightarrow> Daemon" where
  "agent_step (AgentEvent env i eventType data) d = handleEvent env i eventType data d"
| "agent_step (AgentCursor ok i) d =
     (if dm_up d then d\<lparr>dm_store := fst (recordEventID ok i (dm_store d))\<rparr> else d)"
| "agent_step (AgentRetry env) d = retry_round env d"
| "agent_step AgentCrash d = d\<lparr>dm_up := False\<rparr>"
| "agent_step (AgentBoot env) d = boot env d"

definition agent_run :: "agent_op list \<Rightarrow> Daemon \<Rightarrow> Daemon" where
  "agent_run ops d = fold agent_step ops d"

definition new_daemon :: "string \<Rightarrow> Daemon" where
  "new_daemon path =
     \<lparr>dm_store = \<lparr>ls_ledger = \<lparr>ld_path = path, ld_SchemaVersion = 1, ld_Records = [], ld_LastEventID = []\<rparr>,
        ls_file = LedgerAbsent\<rparr>, dm_up = True, dm_effects = [], dm_acks = []\<rparr>"

end
