(* ===== verification/AgentInv.thy ===== *)
theory AgentInv
  imports Agent
begin

text \<open>
  What the ledger guarantees. The invariant: each record of the ledger and of its file that is
  prepared or started names its own key, with a kind the history allows for it, and each
  committed record has an acknowledgement of its key. It holds through every sequence of events,
  crashes, restarts and retries. A record may moreover be pinned, in memory and in the file,
  to stages that no operation leaves.
\<close>

section \<open>The invariant of the records\<close>

definition record_ok :: "(string \<Rightarrow> string \<Rightarrow> bool) \<Rightarrow> string \<Rightarrow> ledgerRecord \<Rightarrow> bool" where
  "record_ok K k r \<longleftrightarrow>
     (lr_Stage r \<in> {Prepared, SideEffectStarted} \<longrightarrow> lr_CommandID r = k \<and> K k (lr_Kind r))
     \<and> (lr_Stage r = ResultCommitted \<longrightarrow> k \<noteq> [] \<and> (\<exists>a. lr_Ack r = Some a \<and> ak_CommandID a = k))"

definition records_ok :: "(string \<Rightarrow> string \<Rightarrow> bool) \<Rightarrow> (string, ledgerRecord) gomap \<Rightarrow> bool" where
  "records_ok K m \<longleftrightarrow> wf_map m \<and> (\<forall>(k, r) \<in> set m. record_ok K k r)"

definition file_records :: "ledger_file \<Rightarrow> (string, ledgerRecord) gomap" where
  "file_records fl = (case fl of LedgerData d \<Rightarrow>
     (case ldt_Records d of None \<Rightarrow> [] | Some m \<Rightarrow> m) | _ \<Rightarrow> [])"

abbreviation mem_records :: "ledger_store \<Rightarrow> (string, ledgerRecord) gomap" where
  "mem_records s \<equiv> ld_Records (ls_ledger s)"

abbreviation store_path :: "ledger_store \<Rightarrow> string" where
  "store_path s \<equiv> ld_path (ls_ledger s)"

text \<open>A file the agent wrote: absent, or a record map with the schema version the agent reads.\<close>

definition own_file :: "ledger_file \<Rightarrow> bool" where
  "own_file fl \<longleftrightarrow> fl = LedgerAbsent
     \<or> (\<exists>m i. fl = LedgerData \<lparr>ldt_SchemaVersion = Some 1, ldt_Records = Some m, ldt_LastEventID = i\<rparr>)"

definition store_ok :: "(string \<Rightarrow> string \<Rightarrow> bool) \<Rightarrow> ledger_store \<Rightarrow> bool" where
  "store_ok K s \<longleftrightarrow> store_path s \<noteq> [] \<and> ld_SchemaVersion (ls_ledger s) = 1 \<and> own_file (ls_file s)
     \<and> records_ok K (mem_records s) \<and> records_ok K (file_records (ls_file s))"

text \<open>The record of a command is there and its stage satisfies a predicate, in memory and in the file.\<close>

definition stage_in :: "(stage \<Rightarrow> bool) \<Rightarrow> string \<Rightarrow> (string, ledgerRecord) gomap \<Rightarrow> bool" where
  "stage_in P i m \<longleftrightarrow> (case gget m i of None \<Rightarrow> False | Some r \<Rightarrow> P (lr_Stage r))"

definition pinned :: "(stage \<Rightarrow> bool) \<Rightarrow> string \<Rightarrow> ledger_store \<Rightarrow> bool" where
  "pinned P i s \<longleftrightarrow> stage_in P i (mem_records s) \<and> stage_in P i (file_records (ls_file s))"

lemma records_ok_gput:
  "records_ok K m \<Longrightarrow> record_ok K k r \<Longrightarrow> records_ok K (gput k r m)"
  by (auto simp: records_ok_def set_gput)

lemma records_ok_get: "records_ok K m \<Longrightarrow> gget m k = Some r \<Longrightarrow> record_ok K k r"
  by (auto simp: records_ok_def dest: gget_in_set)

lemma stage_in_gput:
  "stage_in P i (gput k r m) = (if i = k then P (lr_Stage r) else stage_in P i m)"
  by (simp add: stage_in_def)

lemma writeLocked_ok: "store_ok K s \<Longrightarrow> store_ok K (fst (writeLocked ok s))"
  by (auto simp: store_ok_def writeLocked_def own_file_def file_records_def Let_def)

lemma writeLocked_mem [simp]: "ls_ledger (fst (writeLocked ok s)) = ls_ledger s"
  by (simp add: writeLocked_def Let_def)

lemma writeLocked_pinned: "pinned P i s \<Longrightarrow> pinned P i (fst (writeLocked ok s))"
  by (auto simp: pinned_def writeLocked_def file_records_def Let_def)

lemma writeLocked_result: "snd (writeLocked ok s) \<longleftrightarrow> store_path s = [] \<or> ok"
  by (simp add: writeLocked_def Let_def)

lemma writeLocked_saves:
  "store_path s \<noteq> [] \<Longrightarrow> snd (writeLocked ok s) \<Longrightarrow> stage_in P i (mem_records s)
    \<Longrightarrow> pinned P i (fst (writeLocked ok s))"
  by (auto simp: pinned_def writeLocked_def file_records_def Let_def split: if_splits)

lemma put_record_mem [simp]: "mem_records (put_record k r s) = gput k r (mem_records s)"
  and put_record_file [simp]: "ls_file (put_record k r s) = ls_file s"
  and put_record_path [simp]: "store_path (put_record k r s) = store_path s"
  and put_record_schema [simp]: "ld_SchemaVersion (ls_ledger (put_record k r s)) = ld_SchemaVersion (ls_ledger s)"
  by (simp_all add: put_record_def)

text \<open>One preservation rule carries every operation that stores a record and writes the file.\<close>

lemma store_step_ok:
  "store_ok K s \<Longrightarrow> record_ok K k r \<Longrightarrow> store_ok K (fst (writeLocked ok (put_record k r s)))"
  by (rule writeLocked_ok) (simp add: store_ok_def records_ok_gput)

lemma store_step_pinned:
  assumes "pinned P i s" and "k = i \<Longrightarrow> P (lr_Stage r)"
  shows "pinned P i (fst (writeLocked ok (put_record k r s)))"
  using assms by (intro writeLocked_pinned) (auto simp: pinned_def stage_in_gput)

lemma lookup_ok: "store_ok K s \<Longrightarrow> lookup_record s k = Some r \<Longrightarrow> record_ok K k r"
  by (auto simp: lookup_record_def store_ok_def dest: records_ok_get)

section \<open>The operations of the ledger\<close>

lemma cursor_keeps [simp]:
  "store_ok K (s\<lparr>ls_ledger := (ls_ledger s)\<lparr>ld_LastEventID := i\<rparr>\<rparr>) = store_ok K s"
  "pinned P j (s\<lparr>ls_ledger := (ls_ledger s)\<lparr>ld_LastEventID := i\<rparr>\<rparr>) = pinned P j s"
  by (simp_all add: store_ok_def pinned_def)

lemma recordEventID_ok: "store_ok K s \<Longrightarrow> store_ok K (fst (recordEventID ok i s))"
  by (auto simp: recordEventID_def intro!: writeLocked_ok)

lemma recordEventID_pinned: "pinned P i s \<Longrightarrow> pinned P i (fst (recordEventID ok j s))"
  by (auto simp: recordEventID_def intro!: writeLocked_pinned)

lemma ledger_begin_ok:
  assumes "store_ok K s" and "K i kind"
  shows "store_ok K (fst (ledger_begin now ok i kind payload s))"
  using assms
  by (auto simp: ledger_begin_def Let_def case_prod_beta record_ok_def split: option.splits
      intro!: store_step_ok)

lemma ledger_begin_pinned:
  "pinned P i s \<Longrightarrow> pinned P i (fst (ledger_begin now ok j kind payload s))"
  by (auto simp: ledger_begin_def Let_def case_prod_beta split: option.splits intro!: store_step_pinned)
    (auto simp: pinned_def stage_in_def lookup_record_def)

lemma ledger_start_ok:
  assumes "store_ok K s"
  shows "store_ok K (fst (ledger_start now ok i s))"
  using assms
  by (auto simp: ledger_start_def Let_def case_prod_beta record_ok_def split: option.splits
      dest!: lookup_ok intro!: store_step_ok)

lemma ledger_start_pinned:
  assumes "pinned P i s" and "P SideEffectStarted"
  shows "pinned P i (fst (ledger_start now ok j s))"
  using assms
  by (auto simp: ledger_start_def Let_def case_prod_beta split: option.splits intro!: store_step_pinned)

lemma ledger_start_other:
  "pinned P i s \<Longrightarrow> j \<noteq> i \<Longrightarrow> pinned P i (fst (ledger_start now ok j s))"
  by (auto simp: ledger_start_def Let_def case_prod_beta split: option.splits intro!: store_step_pinned)

lemma ledger_commit_ok:
  "store_ok K s \<Longrightarrow> ak_CommandID a = i \<Longrightarrow> i \<noteq> [] \<Longrightarrow> store_ok K (fst (ledger_commit now ok i a s))"
  by (auto simp: ledger_commit_def record_ok_def intro!: store_step_ok)

lemma ledger_commit_pinned:
  "pinned P i s \<Longrightarrow> (j = i \<Longrightarrow> P ResultCommitted) \<Longrightarrow> pinned P i (fst (ledger_commit now ok j a s))"
  by (auto simp: ledger_commit_def intro!: store_step_pinned)

lemma ledger_confirm_ok: "store_ok K s \<Longrightarrow> store_ok K (fst (ledger_confirm now ok i s))"
  by (auto simp: ledger_confirm_def record_ok_def intro!: store_step_ok)

lemma ledger_confirm_pinned:
  "pinned P i s \<Longrightarrow> P AckConfirmed \<Longrightarrow> pinned P i (fst (ledger_confirm now ok j s))"
  by (auto simp: ledger_confirm_def intro!: store_step_pinned)

lemma resetPrepared_ok:
  assumes "store_ok K s" and "lookup_record s i = Some r" and "lr_Stage r = SideEffectStarted"
  shows "store_ok K (fst (resetPrepared now ok i s))"
  using lookup_ok [OF assms(1,2)] assms
  by (auto simp: resetPrepared_def record_or_zero_def record_ok_def intro!: store_step_ok)

lemma resetPrepared_pinned:
  "pinned P i s \<Longrightarrow> j \<noteq> i \<Longrightarrow> pinned P i (fst (resetPrepared now ok j s))"
  by (auto simp: resetPrepared_def intro!: store_step_pinned)

section \<open>A shutdown is carried out once\<close>

definition carried :: "string \<Rightarrow> Daemon \<Rightarrow> nat" where
  "carried i d = length (filter (\<lambda>e. fst e = i) (dm_effects d))"

definition only_shutdown :: "string \<Rightarrow> string \<Rightarrow> string \<Rightarrow> bool" where
  "only_shutdown i k kind \<longleftrightarrow> (k = i \<longrightarrow> kind = ''shutdown'')"

definition once_inv :: "string \<Rightarrow> Daemon \<Rightarrow> bool" where
  "once_inv i d \<longleftrightarrow> store_ok (only_shutdown i) (dm_store d) \<and> carried i d \<le> 1
     \<and> (carried i d > 0 \<longrightarrow> pinned (\<lambda>st. st \<noteq> Prepared) i (dm_store d))"

lemma once_store:
  assumes "once_inv i d" and "store_ok (only_shutdown i) s"
    and "pinned (\<lambda>st. st \<noteq> Prepared) i (dm_store d) \<Longrightarrow> pinned (\<lambda>st. st \<noteq> Prepared) i s"
  shows "once_inv i (d\<lparr>dm_store := s\<rparr>)"
  using assms by (auto simp: once_inv_def carried_def)

lemma once_flags [simp]:
  "once_inv i (d\<lparr>dm_up := b\<rparr>) = once_inv i d" "once_inv i (d\<lparr>dm_acks := as\<rparr>) = once_inv i d"
  by (simp_all add: once_inv_def carried_def)

lemma once_ok: "once_inv i d \<Longrightarrow> store_ok (only_shutdown i) (dm_store d)"
  by (simp add: once_inv_def)

lemma postAck_once: "once_inv i d \<Longrightarrow> once_inv i (fst (postAck env a d))"
  by (auto simp: postAck_def Let_def intro!: once_store ledger_confirm_ok ledger_confirm_pinned dest: once_ok)

lemma sendAckResult_once:
  assumes "once_inv i d"
  shows "once_inv i (fst (sendAckWithFingerprintResult env c m st v h fp e d))"
proof -
  have "once_inv i (d\<lparr>dm_store := fst (ledger_commit now ok c a (dm_store d))\<rparr>)"
    if "ak_CommandID a = c" "c \<noteq> []" for now ok a
    using assms that by (intro once_store) (auto intro: ledger_commit_ok ledger_commit_pinned dest: once_ok)
  then show ?thesis
    using assms by (auto simp: sendAckWithFingerprintResult_def Let_def case_prod_beta intro!: postAck_once)
qed

lemma sendAck_once: "once_inv i d \<Longrightarrow> once_inv i (sendAck env c m st v h e d)"
  by (simp add: sendAck_def sendAckResult_once)

lemma sendAccepted_once: "once_inv i d \<Longrightarrow> once_inv i (sendAccepted env c m d)"
  by (simp add: sendAccepted_def sendAck_once)

lemma report_effect_once:
  "once_inv i d \<Longrightarrow> once_inv i (report_effect env c et m vh d)"
  by (auto simp: report_effect_def Let_def case_prod_beta split: effect.splits intro!: sendAckResult_once)

lemma startCommand_once: "once_inv i d \<Longrightarrow> once_inv i (fst (startCommand env c d))"
  by (auto simp: startCommand_def case_prod_beta
      intro!: once_store ledger_start_ok ledger_start_pinned dest: once_ok)

lemma startCommand_first:
  assumes "once_inv i d" and "i \<noteq> []" and "snd (startCommand env i d)"
  shows "carried i (fst (startCommand env i d)) = 0
    \<and> pinned (\<lambda>st. st \<noteq> Prepared) i (dm_store (fst (startCommand env i d)))"
proof -
  let ?s = "dm_store d"
  from assms obtain r where r: "lookup_record ?s i = Some r" "lr_Stage r = Prepared"
    by (auto simp: startCommand_def ledger_start_def case_prod_beta split: option.splits if_splits)
  have "\<not> pinned (\<lambda>st. st \<noteq> Prepared) i ?s"
    using r by (simp add: pinned_def stage_in_def lookup_record_def)
  with assms(1) have "carried i d = 0" by (auto simp: once_inv_def)
  moreover have "store_path ?s \<noteq> []" using assms(1) by (simp add: once_inv_def store_ok_def)
  ultimately show ?thesis
    using assms r by (auto simp: startCommand_def ledger_start_def case_prod_beta Let_def carried_def
        stage_in_gput intro!: writeLocked_saves)
qed

lemma sendAck_effects [simp]:
  "dm_effects (fst (postAck env a d)) = dm_effects d"
  "dm_effects (fst (sendAckWithFingerprintResult env c m st v h fp e d)) = dm_effects d"
  "dm_effects (sendAck env c m st v h e d) = dm_effects d"
  "dm_effects (sendAccepted env c m d) = dm_effects d"
  "dm_effects (fst (startCommand env c d)) = dm_effects d"
  by (auto simp: postAck_def sendAckWithFingerprintResult_def sendAck_def sendAccepted_def
      startCommand_def Let_def case_prod_beta)

lemma once_pinned_keep:
  "once_inv i d \<Longrightarrow> carried i d = 0 \<Longrightarrow> pinned (\<lambda>st. st \<noteq> Prepared) i (dm_store d)
    \<Longrightarrow> once_inv i (d\<lparr>dm_effects := dm_effects d @ [(i, et)]\<rparr>)"
  by (simp add: once_inv_def carried_def)

lemma once_other_effect:
  "once_inv i d \<Longrightarrow> c \<noteq> i \<Longrightarrow> once_inv i (d\<lparr>dm_effects := dm_effects d @ [(c, et)]\<rparr>)"
  by (simp add: once_inv_def carried_def)

lemma postAck_pinned:
  "pinned P i (dm_store d) \<Longrightarrow> P AckConfirmed \<Longrightarrow> pinned P i (dm_store (fst (postAck env a d)))"
  by (auto simp: postAck_def Let_def intro!: ledger_confirm_pinned)

lemma sendAccepted_pinned:
  "pinned P i (dm_store d) \<Longrightarrow> P AckConfirmed \<Longrightarrow> pinned P i (dm_store (sendAccepted env c m d))"
  by (auto simp: sendAccepted_def sendAck_def sendAckWithFingerprintResult_def intro!: postAck_pinned)

lemma carried_sendAccepted [simp]: "carried i (sendAccepted env c m d) = carried i d"
  by (simp add: carried_def)

lemma run_command_once:
  assumes "once_inv i d" and "i \<noteq> []"
  shows "once_inv i (run_command env c et m data d)"
proof -
  let ?d1 = "fst (startCommand env c d)" and ?d2 = "sendAccepted env c m (fst (startCommand env c d))"
  have d2: "once_inv i ?d2"
    using assms by (intro sendAccepted_once startCommand_once)
  have "once_inv i (?d2\<lparr>dm_effects := dm_effects ?d2 @ [(c, et)]\<rparr>)" if "snd (startCommand env c d)"
  proof (cases "c = i")
    case True
    with startCommand_first [OF assms, of env] that d2 show ?thesis
      unfolding True by (intro once_pinned_keep) (auto intro: sendAccepted_pinned)
  qed (use d2 once_other_effect in blast)
  then show ?thesis
    using assms startCommand_once [of i d env c]
    by (auto simp: run_command_def Let_def case_prod_beta split: sum.splits
        intro!: sendAck_once report_effect_once)
qed

lemma dispatch_event_once:
  "once_inv i d \<Longrightarrow> i \<noteq> [] \<Longrightarrow> once_inv i (dispatch_event env c et data d)"
  by (auto simp: dispatch_event_def run_command_once split: option.splits)

lemma handleEvent_once:
  assumes inv: "once_inv i d" and i: "i \<noteq> []" and et: "only_shutdown i c et"
  shows "once_inv i (handleEvent env c et data d)"
proof (cases "dm_up d \<and> c \<noteq> [] \<and> et \<noteq> ''ping''")
  case True
  let ?b = "ledger_begin (ag_Now env) (ag_WriteOK env WBegin c) c et data (dm_store d)"
  let ?d1 = "d\<lparr>dm_store := fst ?b\<rparr>"
  have d1: "once_inv i ?d1"
    using inv et by (intro once_store) (auto intro: ledger_begin_ok ledger_begin_pinned dest: once_ok)
  let ?w = "resetPrepared (ag_Now env) (ag_WriteOK env WReset c) c (fst ?b)"
  have d2: "once_inv i (?d1\<lparr>dm_store := fst ?w\<rparr>)"
    if "\<not> fst (snd (snd ?b))" "lr_Stage (fst (snd ?b)) = SideEffectStarted" "et \<noteq> ''shutdown''"
  proof (rule once_store [OF d1])
    from that have rcd: "fst ?b = dm_store d"
      "lookup_record (dm_store d) c = Some (fst (snd ?b))"
      by (auto simp: ledger_begin_def Let_def case_prod_beta split: option.splits)
    with that inv show "store_ok (only_shutdown i) (fst ?w)"
      by (auto intro: resetPrepared_ok dest: once_ok)
    from that et have "c \<noteq> i" by (auto simp: only_shutdown_def)
    then show "pinned (\<lambda>st. st \<noteq> Prepared) i (fst ?w)"
      if "pinned (\<lambda>st. st \<noteq> Prepared) i (dm_store ?d1)"
      using that by (intro resetPrepared_pinned) auto
  qed
  from True d1 d2 i show ?thesis
    by (auto simp: handleEvent_def Let_def case_prod_beta
        intro!: sendAck_once dispatch_event_once postAck_once split: stage.splits option.splits)
qed (auto simp: handleEvent_def inv i dispatch_event_once)

lemma recover_one_once:
  "once_inv i d \<Longrightarrow> i \<noteq> [] \<Longrightarrow> only_shutdown i (lr_CommandID r) (lr_Kind r)
    \<Longrightarrow> once_inv i (recover_one env r d)"
  by (simp add: recover_one_def sendAck_once handleEvent_once)

lemma interrupted_names:
  assumes "store_ok K s" and "r \<in> set (interrupted s)"
  shows "K (lr_CommandID r) (lr_Kind r)"
proof -
  from assms(2) obtain k where "(k, r) \<in> set (mem_records s)" and "lr_Stage r = SideEffectStarted"
    by (auto simp: interrupted_def)
  with assms(1) have "record_ok K k r" by (auto simp: store_ok_def records_ok_def)
  with \<open>lr_Stage r = _\<close> show ?thesis by (auto simp: record_ok_def)
qed

lemma fold_inv:
  assumes "P d" and "\<And>x d. x \<in> set xs \<Longrightarrow> P d \<Longrightarrow> P (f x d)"
  shows "P (fold f xs d)"
  using assms by (induction xs arbitrary: d) auto

lemma recover_once:
  assumes "once_inv i d" and "i \<noteq> []"
  shows "once_inv i (recoverInterruptedCommands env d)"
  unfolding recoverInterruptedCommands_def
proof (rule fold_inv [where P = "once_inv i"])
  show "once_inv i d" by (rule assms)
  fix r d' assume "r \<in> set (interrupted (dm_store d))" "once_inv i d'"
  with assms interrupted_names [OF once_ok, of i d r] show "once_inv i (recover_one env r d')"
    by (auto intro: recover_one_once)
qed

lemma retry_once: "once_inv i d \<Longrightarrow> once_inv i (retry_round env d)"
  by (auto simp: retry_round_def intro!: fold_inv [where P = "once_inv i"] postAck_once)

text \<open>The agent reads back every file it wrote.\<close>

lemma own_file_opens:
  "own_file fl \<Longrightarrow> path \<noteq> [] \<Longrightarrow> \<exists>l. openCommandLedger path fl = Inr l
    \<and> ld_path l = path \<and> ld_SchemaVersion l = 1 \<and> ld_Records l = file_records fl"
  by (auto simp: own_file_def openCommandLedger_def file_records_def)

lemma reopened:
  assumes "store_ok K s" and "openCommandLedger (store_path s) (ls_file s) = Inr l"
  shows "store_ok K (s\<lparr>ls_ledger := l\<rparr>)"
    and "pinned P i s \<Longrightarrow> pinned P i (s\<lparr>ls_ledger := l\<rparr>)"
  using assms own_file_opens [of "ls_file s" "store_path s"]
  by (auto simp: store_ok_def pinned_def)

lemma boot_once: "once_inv i d \<Longrightarrow> i \<noteq> [] \<Longrightarrow> once_inv i (boot env d)"
  using once_store [of i d] reopened [of "only_shutdown i" "dm_store d"]
  by (auto simp: boot_def split: sum.splits intro!: recover_once dest: once_ok)

fun op_allowed :: "(string \<Rightarrow> string \<Rightarrow> bool) \<Rightarrow> agent_op \<Rightarrow> bool" where
  "op_allowed K (AgentEvent env c et data) = K c et"
| "op_allowed K _ = True"

lemma agent_step_once:
  assumes "once_inv i d" and "i \<noteq> []" and "op_allowed (only_shutdown i) p"
  shows "once_inv i (agent_step p d)"
  using assms
  by (cases p) (auto simp: handleEvent_once retry_once boot_once
      intro!: once_store recordEventID_ok recordEventID_pinned dest: once_ok)

lemma new_daemon_ok: "path \<noteq> [] \<Longrightarrow> store_ok K (dm_store (new_daemon path))"
  by (simp add: store_ok_def new_daemon_def own_file_def records_ok_def file_records_def)

lemma agent_run_once:
  assumes "path \<noteq> []" and "i \<noteq> []" and "list_all (op_allowed (only_shutdown i)) ops"
  shows "once_inv i (agent_run ops (new_daemon path))"
  unfolding agent_run_def
proof (rule fold_inv [where P = "once_inv i"])
  show "once_inv i (new_daemon path)"
    using new_daemon_ok [OF assms(1)] by (simp add: once_inv_def carried_def new_daemon_def)
qed (use assms in \<open>auto simp: list_all_iff agent_step_once\<close>)

section \<open>Reachable daemons\<close>

abbreviation any_kind :: "string \<Rightarrow> string \<Rightarrow> bool" where
  "any_kind \<equiv> \<lambda>_ _. True"

lemma records_ok_mono:
  assumes "records_ok K m" and "\<And>k kind. K k kind \<Longrightarrow> K' k kind"
  shows "records_ok K' m"
  using assms by (auto simp: records_ok_def record_ok_def)

lemma store_ok_any: "store_ok K s \<Longrightarrow> store_ok any_kind s"
  by (auto simp: store_ok_def intro: records_ok_mono [where K = K])

fun op_command :: "agent_op \<Rightarrow> string" where
  "op_command (AgentEvent env c et data) = c"
| "op_command _ = []"

lemma reachable_ok:
  assumes "path \<noteq> []"
  shows "store_ok any_kind (dm_store (agent_run ops (new_daemon path)))"
proof -
  have "infinite (UNIV :: string set)" by (rule infinite_UNIV_listI)
  then obtain i :: string where i: "i \<notin> set ([] # map op_command ops)"
    using ex_new_if_finite [OF _ finite_set] by metis
  then have "list_all (op_allowed (only_shutdown i)) ops"
    unfolding list_all_iff
  proof (intro ballI)
    fix p assume "p \<in> set ops"
    with i show "op_allowed (only_shutdown i) p" by (cases p) (force simp: only_shutdown_def)+
  qed
  with agent_run_once [OF assms, of i ops] i show ?thesis
    by (auto intro: store_ok_any once_ok)
qed

lemma agent_run_append: "agent_run (ops1 @ ops2) d = agent_run ops2 (agent_run ops1 d)"
  by (simp add: agent_run_def)

end
