(* ===== verification/AgentProps.thy ===== *)
theory AgentProps
  imports AgentInv
begin

text \<open>
  The properties of the agent: what one event does, that a shutdown is carried out once, what a
  confirmed or committed record means for the rest of the agent's life, and the retries.
\<close>

section \<open>Settled commands\<close>

text \<open>
  A command is settled when its record is, in memory and in the file, at a stage from which it is
  never carried out again: confirmed, or (for a weaker notion) committed or confirmed. \<open>es\<close> are its
  side effects up to now; a predicate \<open>A\<close> on its acknowledgements is kept too, where the stages
  allow no further ones.
\<close>

definition settled ::
  "(stage \<Rightarrow> bool) \<Rightarrow> (ack list \<Rightarrow> bool) \<Rightarrow> string \<Rightarrow> (string \<times> string) list \<Rightarrow> Daemon \<Rightarrow> bool" where
  "settled P A c es d \<longleftrightarrow> store_ok any_kind (dm_store d) \<and> pinned P c (dm_store d)
     \<and> filter (\<lambda>e. fst e = c) (dm_effects d) = es \<and> A (filter (\<lambda>a. ak_CommandID a = c) (dm_acks d))"

locale settled_stage =
  fixes P :: "stage \<Rightarrow> bool" and A :: "ack list \<Rightarrow> bool"
  assumes confirmed: "P AckConfirmed"
    and final: "P st \<Longrightarrow> st = ResultCommitted \<or> st = AckConfirmed"
    and acks: "P ResultCommitted \<Longrightarrow> A as"
begin

lemma settled_ok: "settled P A c es d \<Longrightarrow> store_ok any_kind (dm_store d)"
  by (simp add: settled_def)

lemma settled_store:
  assumes "settled P A c es d" and "store_ok any_kind s"
    and "pinned P c (dm_store d) \<Longrightarrow> pinned P c s"
  shows "settled P A c es (d\<lparr>dm_store := s\<rparr>)"
  using assms by (simp add: settled_def)

lemma settled_up [simp]: "settled P A c es (d\<lparr>dm_up := b\<rparr>) = settled P A c es d"
  by (simp add: settled_def)

lemma settled_postAck:
  assumes "settled P A c es d" and "ak_CommandID a \<noteq> c \<or> P ResultCommitted"
  shows "settled P A c es (fst (postAck env a d))"
proof -
  from assms acks have "settled P A c es (d\<lparr>dm_acks := dm_acks d @ [a]\<rparr>)" by (auto simp: settled_def)
  then show ?thesis
    using assms(1) confirmed
    by (auto simp: postAck_def Let_def
        intro!: settled_store ledger_confirm_ok ledger_confirm_pinned dest: settled_ok)
qed

lemma settled_sendAckResult:
  assumes "settled P A c es d" and "j \<noteq> c"
  shows "settled P A c es (fst (sendAckWithFingerprintResult env j m st v h fp e d))"
proof -
  have "settled P A c es (d\<lparr>dm_store := fst (ledger_commit now ok j a (dm_store d))\<rparr>)"
    if "ak_CommandID a = j" "j \<noteq> []" for now ok a
    using assms that
    by (intro settled_store) (auto intro: ledger_commit_ok ledger_commit_pinned dest: settled_ok)
  then show ?thesis
    using assms by (auto simp: sendAckWithFingerprintResult_def Let_def case_prod_beta
        intro!: settled_postAck)
qed

lemma settled_sendAck:
  "settled P A c es d \<Longrightarrow> j \<noteq> c \<Longrightarrow> settled P A c es (sendAck env j m st v h e d)"
  by (simp add: sendAck_def settled_sendAckResult)

lemma settled_run_command:
  assumes "settled P A c es d" and "j \<noteq> c"
  shows "settled P A c es (run_command env j et m data d)"
proof -
  let ?d1 = "fst (startCommand env j d)"
  have d1: "settled P A c es ?d1"
    using assms
    by (auto simp: startCommand_def case_prod_beta
        intro!: settled_store ledger_start_ok ledger_start_other dest: settled_ok)
  then have "settled P A c es (sendAccepted env j m ?d1)"
    using assms(2) settled_sendAck by (cases "j = []") (simp_all add: sendAccepted_def)
  then have "settled P A c es ((sendAccepted env j m ?d1)
      \<lparr>dm_effects := dm_effects (sendAccepted env j m ?d1) @ [(j, et)]\<rparr>)"
    using assms(2) by (simp add: settled_def)
  then show ?thesis
    using assms d1
    by (auto simp: run_command_def report_effect_def Let_def case_prod_beta
        split: sum.splits effect.splits intro!: settled_sendAck settled_sendAckResult)
qed

lemma settled_dispatch:
  "settled P A c es d \<Longrightarrow> j \<noteq> c \<Longrightarrow> settled P A c es (dispatch_event env j et data d)"
  by (auto simp: dispatch_event_def settled_run_command split: option.splits)

lemma settled_record:
  assumes "settled P A c es d"
  obtains r where "lookup_record (dm_store d) c = Some r" "P (lr_Stage r)"
  using assms by (auto simp: settled_def pinned_def stage_in_def lookup_record_def split: option.splits)

lemma settled_self:
  assumes inv: "settled P A c es d" and c: "c \<noteq> []"
  shows "settled P A c es (handleEvent env c et data d)"
proof -
  obtain r where r: "lookup_record (dm_store d) c = Some r" "P (lr_Stage r)" using settled_record [OF inv] .
  from final [OF r(2)] show ?thesis
  proof
    assume "lr_Stage r = AckConfirmed"
    with r c inv show ?thesis
      by (auto simp: handleEvent_def ledger_begin_def dispatch_event_def event_module_def)
  next
    assume st: "lr_Stage r = ResultCommitted"
    with r c inv show ?thesis
      by (auto simp: handleEvent_def ledger_begin_def dispatch_event_def event_module_def
          intro!: settled_postAck split: option.splits)
  qed
qed

lemma settled_handleEvent:
  assumes inv: "settled P A c es d" and c: "c \<noteq> []"
  shows "settled P A c es (handleEvent env j et data d)"
proof (cases "j = c")
  case True
  with settled_self [OF assms] show ?thesis by simp
next
  case False
  show ?thesis
  proof (cases "dm_up d \<and> j \<noteq> [] \<and> et \<noteq> ''ping''")
    case True
    let ?b = "ledger_begin (ag_Now env) (ag_WriteOK env WBegin j) j et data (dm_store d)"
    let ?d1 = "d\<lparr>dm_store := fst ?b\<rparr>"
    have d1: "settled P A c es ?d1"
      using inv by (intro settled_store) (auto intro: ledger_begin_ok ledger_begin_pinned dest: settled_ok)
    let ?w = "resetPrepared (ag_Now env) (ag_WriteOK env WReset j) j (fst ?b)"
    have rcd: "fst ?b = dm_store d \<and> lookup_record (dm_store d) j = Some (fst (snd ?b))"
      if "\<not> fst (snd (snd ?b))"
      using that by (auto simp: ledger_begin_def Let_def case_prod_beta split: option.splits)
    have d2: "settled P A c es (?d1\<lparr>dm_store := fst ?w\<rparr>)"
      if "\<not> fst (snd (snd ?b))" "lr_Stage (fst (snd ?b)) = SideEffectStarted"
      using rcd that inv False
      by (intro settled_store [OF d1]) (auto intro: resetPrepared_ok resetPrepared_pinned dest: settled_ok)
    have ack: "ak_CommandID a \<noteq> c"
      if "\<not> fst (snd (snd ?b))" "lr_Stage (fst (snd ?b)) = ResultCommitted" "lr_Ack (fst (snd ?b)) = Some a" for a
      using rcd that inv False by (auto simp: record_ok_def dest!: settled_ok dest: lookup_ok)
    from True False d1 d2 ack show ?thesis
      by (auto simp: handleEvent_def Let_def case_prod_beta
          intro!: settled_sendAck settled_dispatch settled_postAck split: stage.splits option.splits)
  qed (use False inv settled_dispatch in \<open>auto simp: handleEvent_def\<close>)
qed

text \<open>The recovery does not look at a settled record, and a retry of it changes nothing that matters.\<close>

lemma settled_records:
  assumes "settled P A c es d" and "(k, r) \<in> set (mem_records (dm_store d))"
  shows "record_ok any_kind k r" and "\<not> P (lr_Stage r) \<Longrightarrow> k \<noteq> c"
proof -
  from assms have ok: "records_ok any_kind (mem_records (dm_store d))"
    by (simp add: settled_def store_ok_def)
  with assms(2) show "record_ok any_kind k r" by (auto simp: records_ok_def)
  have "gget (mem_records (dm_store d)) k = Some r"
    using ok assms(2) by (simp add: records_ok_def gget_iff_in_set)
  with assms(1) show "\<not> P (lr_Stage r) \<Longrightarrow> k \<noteq> c"
    by (auto simp: settled_def pinned_def stage_in_def)
qed

lemma settled_interrupted:
  assumes "settled P A c es d" and "r \<in> set (interrupted (dm_store d))"
  shows "lr_CommandID r \<noteq> c"
proof -
  from assms(2) obtain k where "(k, r) \<in> set (mem_records (dm_store d))" "lr_Stage r = SideEffectStarted"
    by (auto simp: interrupted_def)
  with settled_records [OF assms(1) this(1)] final show ?thesis by (auto simp: record_ok_def)
qed

lemma settled_pending:
  assumes "settled P A c es d" and "a \<in> set (pendingAcks (dm_store d))"
  shows "ak_CommandID a \<noteq> c \<or> P ResultCommitted"
proof -
  from assms(2) obtain k r where "(k, r) \<in> set (mem_records (dm_store d))"
    "lr_Stage r = ResultCommitted" "lr_Ack r = Some a"
    by (auto simp: pendingAcks_def map_filter_def split: if_splits)
  with settled_records [OF assms(1) this(1)] show ?thesis by (auto simp: record_ok_def)
qed

lemma settled_recover:
  assumes "settled P A c es d" and "c \<noteq> []"
  shows "settled P A c es (recoverInterruptedCommands env d)"
  unfolding recoverInterruptedCommands_def
  by (rule fold_inv [where P = "settled P A c es"])
    (use assms settled_interrupted in \<open>auto simp: recover_one_def settled_sendAck settled_handleEvent\<close>)

lemma settled_step:
  assumes "settled P A c es d" and "c \<noteq> []"
  shows "settled P A c es (agent_step p d)"
proof (cases p)
  case (AgentRetry env)
  with assms(1) settled_pending [OF assms(1)] show ?thesis
    by (auto simp: retry_round_def intro!: fold_inv [where P = "settled P A c es"] settled_postAck)
next
  case (AgentBoot env)
  have "settled P A c es (d\<lparr>dm_store := (dm_store d)\<lparr>ls_ledger := l\<rparr>\<rparr>)"
    if "openCommandLedger (store_path (dm_store d)) (ls_file (dm_store d)) = Inr l" for l
    using assms(1) reopened [OF settled_ok [OF assms(1)] that] by (intro settled_store) auto
  with AgentBoot assms show ?thesis
    by (auto simp: boot_def split: sum.splits intro!: settled_recover)
qed (use assms in \<open>auto simp: settled_handleEvent intro!: settled_store recordEventID_ok
    recordEventID_pinned dest: settled_ok\<close>)

lemma settled_run:
  "settled P A c es d \<Longrightarrow> c \<noteq> [] \<Longrightarrow> settled P A c es (agent_run ops d)"
  unfolding agent_run_def by (rule fold_inv [where P = "settled P A c es"]) (auto simp: settled_step)

end

text \<open>The two notions of the agent's own stages.\<close>

definition reported :: "stage \<Rightarrow> bool" where
  "reported st \<longleftrightarrow> st = ResultCommitted \<or> st = AckConfirmed"

interpretation confirmed: settled_stage "\<lambda>st. st = AckConfirmed" "\<lambda>as'. as' = as" for as
  by unfold_locales auto

interpretation reported: settled_stage reported "\<lambda>_. True"
  by unfold_locales (auto simp: reported_def)

section \<open>Retries\<close>

definition confirm_in :: "string set \<Rightarrow> ledger_store \<Rightarrow> ledger_store \<Rightarrow> bool" where
  "confirm_in ids s s' \<longleftrightarrow> wf_map (mem_records s') \<and>
     (\<forall>k. k \<notin> ids \<longrightarrow> lookup_record s' k = lookup_record s k)
     \<and> (\<forall>k r. k \<in> ids \<longrightarrow> lookup_record s' k = Some r \<longrightarrow> lr_Stage r = AckConfirmed)"

lemma pending_iff:
  "a \<in> set (pendingAcks s) \<longleftrightarrow>
     (\<exists>k r. (k, r) \<in> set (mem_records s) \<and> lr_Stage r = ResultCommitted \<and> lr_Ack r = Some a)"
proof -
  have "a \<in> set (List.map_filter f xs) \<longleftrightarrow> (\<exists>x \<in> set xs. f x = Some a)" for f and xs :: "ledgerRecord list"
    by (induction xs) (auto split: option.splits)
  then show ?thesis by (force simp: pendingAcks_def split: if_splits)
qed

lemma postAck_confirms:
  assumes "confirm_in ids s (dm_store d)" and "ag_Posted env a" and "ak_CommandID a \<noteq> []"
  shows "confirm_in (insert (ak_CommandID a) ids) s (dm_store (fst (postAck env a d)))"
  using assms
  by (auto simp: confirm_in_def postAck_def Let_def ledger_confirm_def lookup_record_def)

lemma retry_confirms:
  assumes "\<forall>a \<in> set as. ag_Posted env a \<and> ak_CommandID a \<noteq> []" and "confirm_in ids s (dm_store d)"
  shows "confirm_in (ids \<union> ak_CommandID ` set as) s (dm_store (fold (\<lambda>a d. fst (postAck env a d)) as d))
    \<and> set as \<subseteq> set (dm_acks (fold (\<lambda>a d. fst (postAck env a d)) as d))
    \<and> set (dm_acks d) \<subseteq> set (dm_acks (fold (\<lambda>a d. fst (postAck env a d)) as d))"
  using assms
proof (induction as arbitrary: ids d)
  case (Cons a as)
  then have a: "ag_Posted env a" "ak_CommandID a \<noteq> []" by simp_all
  then have acks: "dm_acks (fst (postAck env a d)) = dm_acks d @ [a]" by (simp add: postAck_def Let_def)
  from Cons.IH [OF _ postAck_confirms [OF Cons.prems(2) a]] Cons.prems(1) acks
  show ?case by (simp add: insert_absorb Un_commute)
qed simp

section \<open>What one event does\<close>

lemma report_effect_effects [simp]: "dm_effects (report_effect env c et m vh d) = dm_effects d"
  by (auto simp: report_effect_def Let_def case_prod_beta split: effect.splits)




lemma lookup_after_put [simp]:
  "lookup_record (fst (writeLocked ok (put_record k r s))) k = Some r"
  "store_path (fst (writeLocked ok s)) = store_path s"
  by (simp_all add: lookup_record_def)


definition sample_agent_env :: agent_env where
  "sample_agent_env = \<lparr>ag_Now = 7, ag_WriteOK = (\<lambda>_ _. True), ag_Posted = (\<lambda>_. True),
     ag_Decode = (\<lambda>_ _. Inr (3, ''h'')), ag_Effect = (\<lambda>_. EffectDone [] [])\<rparr>"


text \<open>
  C3: A shutdown is carried out at most once: over every sequence of events, crashes at any
  point between them or during a side effect, restarts, failed writes and repeated deliveries,
  an agent with a ledger file carries out the side effect of a command that is only ever
  delivered as a shutdown at most once.
\<close>

theorem shutdown_carried_out_once:
  assumes "path \<noteq> []" and "i \<noteq> []" and "list_all (op_allowed (only_shutdown i)) ops"
  shows "length (filter (\<lambda>e. fst e = i) (dm_effects (agent_run ops (new_daemon path)))) \<le> 1"
  using agent_run_once [OF assms] by (simp add: once_inv_def carried_def)

theorem shutdown_carried_out_once_witness:
  "length (filter (\<lambda>e. fst e = ''s'') (dm_effects (agent_run
     [AgentEvent (sample_agent_env\<lparr>ag_Effect := (\<lambda>_. EffectCrash)\<rparr>) ''s'' ''shutdown'' [],
      AgentBoot sample_agent_env, AgentEvent sample_agent_env ''s'' ''shutdown'' []] (new_daemon ''/l'')))) \<le> 1"
  by (rule shutdown_carried_out_once) (simp_all add: only_shutdown_def)

text \<open>
  One retry round against a server that answers delivers every outcome still unacknowledged,
  and leaves nothing to retry.
\<close>

theorem retry_round_drains:
  assumes "path \<noteq> []" and d: "d = agent_run ops (new_daemon path)" and up: "dm_up d"
    and posted: "\<forall>a \<in> set (pendingAcks (dm_store d)). ag_Posted env a"
  shows "set (pendingAcks (dm_store d)) \<subseteq> set (dm_acks (retry_round env d))
    \<and> pendingAcks (dm_store (retry_round env d)) = []"
proof -
  let ?s = "dm_store d" and ?d' = "retry_round env d"
  let ?ids = "ak_CommandID ` set (pendingAcks ?s)"
  have ok: "records_ok any_kind (mem_records ?s)"
    using reachable_ok [OF assms(1)] d by (simp add: store_ok_def)
  have named: "ak_CommandID a = k \<and> k \<noteq> []"
    if "(k, r) \<in> set (mem_records ?s)" "lr_Stage r = ResultCommitted" "lr_Ack r = Some a" for k r a
    using ok that by (auto simp: records_ok_def record_ok_def)
  have "\<forall>a \<in> set (pendingAcks ?s). ag_Posted env a \<and> ak_CommandID a \<noteq> []"
    using posted named by (auto simp: pending_iff)
  moreover have "confirm_in {} ?s ?s" using ok by (simp add: confirm_in_def records_ok_def)
  ultimately have drained: "confirm_in ?ids ?s (dm_store ?d')" "set (pendingAcks ?s) \<subseteq> set (dm_acks ?d')"
    using retry_confirms [of "pendingAcks ?s" env "{}" ?s d] up by (simp_all add: retry_round_def)
  have "a \<notin> set (pendingAcks (dm_store ?d'))" for a
  proof
    assume "a \<in> set (pendingAcks (dm_store ?d'))"
    then obtain k r where r: "(k, r) \<in> set (mem_records (dm_store ?d'))" "lr_Stage r = ResultCommitted"
      "lr_Ack r = Some a" by (auto simp: pending_iff)
    then have look: "lookup_record (dm_store ?d') k = Some r"
      using drained(1) by (simp add: lookup_record_def confirm_in_def gget_iff_in_set)
    with drained(1) r(2) have "k \<notin> ?ids" by (auto simp: confirm_in_def)
    with drained(1) look have "(k, r) \<in> set (mem_records ?s)"
      by (auto simp: confirm_in_def lookup_record_def dest: gget_in_set)
    with r named \<open>k \<notin> ?ids\<close> show False by (force simp: pending_iff)
  qed
  with drained(2) show ?thesis by (metis ex_in_conv set_empty)
qed

theorem retry_round_drains_witness:
  "pendingAcks (dm_store (retry_round sample_agent_env (agent_run
     [AgentEvent (sample_agent_env\<lparr>ag_Posted := (\<lambda>_. False)\<rparr>) ''c'' ''key_sync'' []] (new_daemon ''/l'')))) = []"
proof -
  let ?ops = "[AgentEvent (sample_agent_env\<lparr>ag_Posted := (\<lambda>_. False)\<rparr>) ''c'' ''key_sync'' []]"
  have "dm_up (agent_run ?ops (new_daemon ''/l''))"
    by (simp add: agent_run_def new_daemon_def handleEvent_def ledger_begin_def Let_def case_prod_beta
        sendAck_def lookup_record_def sample_agent_env_def dispatch_event_def event_module_def run_command_def
        startCommand_def sendAccepted_def sendAckWithFingerprintResult_def postAck_def report_effect_def
        ledger_start_def writeLocked_def put_record_def)
  then show ?thesis
    using retry_round_drains [of "''/l''" "agent_run ?ops (new_daemon ''/l'')" ?ops sample_agent_env]
    by (simp add: sample_agent_env_def)
qed

text \<open>The acknowledgement \<open>sendAccepted\<close> posts before the side effect.\<close>

definition accepted_ack :: "string \<Rightarrow> string \<Rightarrow> ack" where
  "accepted_ack c m = \<lparr>ak_CommandID = c, ak_Module = m, ak_Status = ''accepted'', ak_Version = 0,
     ak_Hash = [], ak_Fingerprint = [], ak_Error = []\<rparr>"

lemma crash_settles:
  assumes up: "dm_up d" and ok: "store_ok any_kind (dm_store d)" and c: "c \<noteq> []"
    and new: "lookup_record (dm_store d) c = None"
    and et: "event_module et = Some m" "et = ''shutdown'' \<or> (\<exists>vh. ag_Decode env et data = Inr vh)"
    and writes: "\<forall>site. ag_WriteOK env site c" and posted: "ag_Posted env (accepted_ack c m)"
    and crash: "ag_Effect env c = EffectCrash"
  shows "\<not> dm_up (handleEvent env c et data d)
    \<and> settled (\<lambda>st. st = AckConfirmed)
        (\<lambda>as'. as' = filter (\<lambda>a. ak_CommandID a = c) (dm_acks d) @ [accepted_ack c m])
        c (filter (\<lambda>e. fst e = c) (dm_effects d) @ [(c, et)]) (handleEvent env c et data d)"
proof -
  let ?now = "ag_Now env"
  let ?s1 = "fst (ledger_begin ?now True c et data (dm_store d))"
  let ?s2 = "fst (ledger_start ?now True c ?s1)"
  let ?s3 = "fst (ledger_confirm ?now True c ?s2)"
  have noping: "et \<noteq> ''ping''" using et(1) by (auto simp: event_module_def)
  have began: "snd (ledger_begin ?now True c et data (dm_store d)) =
      (\<lparr>lr_CommandID = c, lr_Kind = et, lr_Stage = Prepared, lr_Ack = None, lr_Payload = data,
        lr_UpdatedAt = ?now\<rparr>, True, True)"
    using new by (simp add: ledger_begin_def Let_def case_prod_beta writeLocked_result)
  have start: "snd (ledger_start ?now True c ?s1) = (True, True)"
    using new by (simp add: ledger_begin_def ledger_start_def Let_def case_prod_beta writeLocked_result)
  have accept: "sendAccepted env c m d1 = d1\<lparr>dm_acks := dm_acks d1 @ [accepted_ack c m],
      dm_store := fst (ledger_confirm ?now True c (dm_store d1))\<rparr>" for d1
    using c writes posted by (simp add: sendAccepted_def sendAck_def sendAckWithFingerprintResult_def
        wire_status_def postAck_def accepted_ack_def Let_def)
  have handled: "handleEvent env c et data d = d\<lparr>dm_store := ?s3, dm_up := False,
      dm_effects := dm_effects d @ [(c, et)], dm_acks := dm_acks d @ [accepted_ack c m]\<rparr>"
    using up c noping et writes crash began start
    by (auto simp: handleEvent_def dispatch_event_def run_command_def startCommand_def accept
        report_effect_def Let_def case_prod_beta split: sum.splits)
  have "store_ok any_kind ?s3"
    using ok by (intro ledger_confirm_ok ledger_start_ok ledger_begin_ok) auto
  moreover have "pinned (\<lambda>st. st = AckConfirmed) c ?s3"
    unfolding ledger_confirm_def using calculation
    by (intro writeLocked_saves) (auto simp: writeLocked_result stage_in_gput store_ok_def ledger_confirm_def)
  ultimately show ?thesis by (simp add: handled settled_def accepted_ack_def)
qed

text \<open>
  A command that is interrupted after its acceptance was acknowledged is lost. Posting the
  acknowledgement marks the record confirmed before the side effect has run; when the agent
  crashes during the side effect, then over every later sequence of restarts, deliveries and
  retries it neither carries the command out again nor acknowledges any outcome of it.
\<close>

theorem interrupted_after_acceptance_lost:
  assumes path: "path \<noteq> []" and d: "d = agent_run ops (new_daemon path)" and up: "dm_up d"
    and c: "c \<noteq> []" and new: "lookup_record (dm_store d) c = None"
    and et: "event_module et = Some m" "et = ''shutdown'' \<or> (\<exists>vh. ag_Decode env et data = Inr vh)"
    and writes: "\<forall>site. ag_WriteOK env site c" and posted: "ag_Posted env (accepted_ack c m)"
    and crash: "ag_Effect env c = EffectCrash"
    and later: "d' = agent_run (ops @ AgentEvent env c et data # ops') (new_daemon path)"
  shows "filter (\<lambda>e. fst e = c) (dm_effects d') = filter (\<lambda>e. fst e = c) (dm_effects d) @ [(c, et)]
    \<and> filter (\<lambda>a. ak_CommandID a = c) (dm_acks d') =
        filter (\<lambda>a. ak_CommandID a = c) (dm_acks d) @ [accepted_ack c m]"
proof -
  have "d' = agent_run ops' (handleEvent env c et data d)"
    by (simp add: later d agent_run_append) (simp add: agent_run_def)
  moreover have "store_ok any_kind (dm_store d)" using path d by (simp add: reachable_ok)
  ultimately show ?thesis
    using confirmed.settled_run [OF conjunct2 [OF crash_settles [OF up _ c new et writes posted crash]] c, of ops']
    by (simp add: settled_def)
qed

theorem interrupted_after_acceptance_lost_witness:
  "filter (\<lambda>a. ak_CommandID a = ''c'') (dm_acks (agent_run
     [AgentEvent (sample_agent_env\<lparr>ag_Effect := (\<lambda>_. EffectCrash)\<rparr>) ''c'' ''key_sync'' [],
      AgentBoot sample_agent_env, AgentEvent sample_agent_env ''c'' ''key_sync'' [], AgentRetry sample_agent_env]
      (new_daemon ''/l''))) = [accepted_ack ''c'' ''ssh_keys'']"
proof -
  let ?env = "sample_agent_env\<lparr>ag_Effect := (\<lambda>_. EffectCrash)\<rparr>"
  have start: "agent_run [] d = d" for d by (simp add: agent_run_def)
  show ?thesis
    using interrupted_after_acceptance_lost [of "''/l''" "new_daemon ''/l''" "[]" "''c''" "''key_sync''"
        "''ssh_keys''" ?env "[]" _ "[AgentBoot sample_agent_env, AgentEvent sample_agent_env ''c'' ''key_sync'' [],
          AgentRetry sample_agent_env]", OF _ _ _ _ _ _ _ _ _ _ refl]
    by (simp add: start) (simp add: new_daemon_def lookup_record_def event_module_def sample_agent_env_def)
qed

end
