(* ===== verification/Broker.thy ===== *)
theory Broker
  imports Prelude
begin

text \<open>
  The broker of server-sent events, \<open>internal/broker/broker.go\<close>: the subscriptions of each device,
  the bounded history a reconnecting agent is served from, and the numbering of the events.

  A channel is an entry of a heap of channels, with its buffer of sixteen events and whether it
  was closed; \<open>br_unsub\<close> has, for each channel, its device and whether the \<open>sync.Once\<close> of its
  unsubscribe function has run. Closing a closed channel and sending on one panic: every operation
  that may do so also answers whether it panicked (the HTTP server recovers, so the broker goes on
  in the state the panic left).
\<close>

record Event =
  ev_Type :: string
  ev_Data :: string
  ev_ID :: string
  ev_Timestamp :: int

record channel =
  ch_queue :: "Event list"
  ch_closed :: bool

record Broker =
  br_subscribers :: "(string, nat list) gomap"
  br_history :: "(string, Event list) gomap"
  br_sequence :: "(string, u64) gomap"
  br_historySize :: nat
  br_chans :: "(nat, channel) gomap"
  br_unsub :: "(nat, string \<times> bool) gomap"
  br_next :: nat

definition New :: Broker where
  "New = \<lparr>br_subscribers = [], br_history = [], br_sequence = [], br_historySize = 64,
     br_chans = [], br_unsub = [], br_next = 0\<rparr>"

definition channel_cap :: nat where "channel_cap = 16"

text \<open>\<open>fmt.Sprintf("%020d", n)\<close>.\<close>

definition pad20 :: "nat \<Rightarrow> string" where
  "pad20 n = replicate (20 - length (nat_digits n)) CHR ''0'' @ nat_digits n"

definition history_of :: "Broker \<Rightarrow> string \<Rightarrow> Event list" where
  "history_of b dev = (case gget (br_history b) dev of None \<Rightarrow> [] | Some h \<Rightarrow> h)"

definition sequence_of :: "Broker \<Rightarrow> string \<Rightarrow> u64" where
  "sequence_of b dev = (case gget (br_sequence b) dev of None \<Rightarrow> 0 | Some n \<Rightarrow> n)"

definition subscribers_of :: "Broker \<Rightarrow> string \<Rightarrow> nat list" where
  "subscribers_of b dev = (case gget (br_subscribers b) dev of None \<Rightarrow> [] | Some cs \<Rightarrow> cs)"

definition Subscribe :: "string \<Rightarrow> Broker \<Rightarrow> Broker \<times> nat" where
  "Subscribe dev b =
     (let ch = br_next b in
      (b\<lparr>br_next := ch + 1,
         br_chans := gput ch \<lparr>ch_queue = [], ch_closed = False\<rparr> (br_chans b),
         br_unsub := gput ch (dev, False) (br_unsub b),
         br_subscribers := gput dev (subscribers_of b dev @ [ch]) (br_subscribers b)\<rparr>, ch))"

definition close_chan :: "nat \<Rightarrow> Broker \<Rightarrow> Broker \<times> bool" where
  "close_chan ch b = (case gget (br_chans b) ch of
      None \<Rightarrow> (b, True)
    | Some c \<Rightarrow> if ch_closed c then (b, True)
        else (b\<lparr>br_chans := gput ch (c\<lparr>ch_closed := True\<rparr>) (br_chans b)\<rparr>, False))"

text \<open>The unsubscribe function \<open>Subscribe\<close> returned with the channel.\<close>

definition unsubscribe :: "nat \<Rightarrow> Broker \<Rightarrow> Broker \<times> bool" where
  "unsubscribe ch b = (case gget (br_unsub b) ch of
      None \<Rightarrow> (b, False)
    | Some (dev, used) \<Rightarrow>
        if used then (b, False)
        else
          (let b0 = b\<lparr>br_unsub := gput ch (dev, True) (br_unsub b)\<rparr> in
           (case gget (br_subscribers b0) dev of
              None \<Rightarrow> (b0, False)
            | Some subs \<Rightarrow>
                (let subs' = filter (\<lambda>c. c \<noteq> ch) subs;
                     (b1, panic) = close_chan ch (b0\<lparr>br_subscribers := gput dev subs' (br_subscribers b0)\<rparr>) in
                 if panic then (b1, True)
                 else if subs' = [] then (b1\<lparr>br_subscribers := gdel dev (br_subscribers b1)\<rparr>, False)
                 else (b1, False)))))"

text \<open>
  One send of the loop: delivered, dropped because the buffer is full, or a panic, which ends
  the loop.
\<close>

fun send_all :: "Event \<Rightarrow> nat list \<Rightarrow> Broker \<Rightarrow> Broker \<times> nat \<times> bool" where
  "send_all ev [] b = (b, 0, False)"
| "send_all ev (ch # chs) b = (case gget (br_chans b) ch of
      None \<Rightarrow> send_all ev chs b
    | Some c \<Rightarrow>
        if ch_closed c then (b, 0, True)
        else if length (ch_queue c) < channel_cap then
          (let (b', n, panic) = send_all ev chs
                 (b\<lparr>br_chans := gput ch (c\<lparr>ch_queue := ch_queue c @ [ev]\<rparr>) (br_chans b)\<rparr>) in
           (b', n + 1, panic))
        else send_all ev chs b)"

text \<open>The event as it is recorded: with a timestamp and an identifier.\<close>

definition stamp_event :: "int \<Rightarrow> string \<Rightarrow> Event \<Rightarrow> Broker \<Rightarrow> Event" where
  "stamp_event now dev ev b =
     (let ev1 = (if ev_Timestamp ev = 0 then ev\<lparr>ev_Timestamp := now\<rparr> else ev) in
      if ev_ID ev1 = [] then ev1\<lparr>ev_ID := dev @ '':'' @ pad20 (unat (sequence_of b dev + 1))\<rparr> else ev1)"

text \<open>The event appended to the bounded history of its device.\<close>

definition record_event :: "int \<Rightarrow> string \<Rightarrow> Event \<Rightarrow> Broker \<Rightarrow> Broker" where
  "record_event now dev ev0 b =
     (let b1 = (if ev_ID ev0 = [] then b\<lparr>br_sequence := gput dev (sequence_of b dev + 1) (br_sequence b)\<rparr> else b);
          h = history_of b1 dev @ [stamp_event now dev ev0 b];
          h' = (if length h > br_historySize b1 then drop (length h - br_historySize b1) h else h) in
      b1\<lparr>br_history := gput dev h' (br_history b1)\<rparr>)"

definition Publish :: "int \<Rightarrow> string \<Rightarrow> Event \<Rightarrow> Broker \<Rightarrow> Broker \<times> nat \<times> bool" where
  "Publish now dev ev b =
     (let b1 = record_event now dev ev b in
      send_all (stamp_event now dev ev b) (subscribers_of b1 dev) b1)"

text \<open>The events after the first one with the given identifier; \<open>None\<close> when there is none.\<close>

fun after_id :: "string \<Rightarrow> Event list \<Rightarrow> Event list option" where
  "after_id i [] = None"
| "after_id i (ev # evs) = (if ev_ID ev = i then Some evs else after_id i evs)"

definition Replay :: "string \<Rightarrow> string \<Rightarrow> Broker \<Rightarrow> Event list option" where
  "Replay dev lastID b = (if lastID = [] then None else after_id lastID (history_of b dev))"

definition Broadcast :: "int \<Rightarrow> Event \<Rightarrow> Broker \<Rightarrow> Broker \<times> nat \<times> bool" where
  "Broadcast now ev0 b =
     (let ev = (if ev_Timestamp ev0 = 0 then ev0\<lparr>ev_Timestamp := now\<rparr> else ev0) in
      send_all ev (concat (gvals (br_subscribers b))) b)"

definition ActiveDevices :: "Broker \<Rightarrow> string list" where
  "ActiveDevices b = go_sort (<) (map fst (filter (\<lambda>(_, subs). subs \<noteq> []) (br_subscribers b)))"

definition IsConnected :: "string \<Rightarrow> Broker \<Rightarrow> bool" where
  "IsConnected dev b \<longleftrightarrow> (case gget (br_subscribers b) dev of None \<Rightarrow> False | Some subs \<Rightarrow> subs \<noteq> [])"

definition SubscribersCount :: "string \<Rightarrow> Broker \<Rightarrow> nat" where
  "SubscribersCount dev b = length (subscribers_of b dev)"

fun close_all :: "nat list \<Rightarrow> Broker \<Rightarrow> Broker \<times> bool" where
  "close_all [] b = (b, False)"
| "close_all (ch # chs) b =
     (let (b1, panic) = close_chan ch b in if panic then (b1, True) else close_all chs b1)"

definition CloseClient :: "string \<Rightarrow> Broker \<Rightarrow> Broker \<times> bool" where
  "CloseClient dev b = (case gget (br_subscribers b) dev of
      None \<Rightarrow> (b, False)
    | Some subs \<Rightarrow>
        (let (b1, panic) = close_all subs b in
         if panic then (b1, True) else (b1\<lparr>br_subscribers := gdel dev (br_subscribers b1)\<rparr>, False)))"

text \<open>A receive by the reader of a channel.\<close>

definition receive :: "nat \<Rightarrow> Broker \<Rightarrow> Broker \<times> Event option" where
  "receive ch b = (case gget (br_chans b) ch of
      None \<Rightarrow> (b, None)
    | Some c \<Rightarrow> (case ch_queue c of
        [] \<Rightarrow> (b, None)
      | ev # evs \<Rightarrow> (b\<lparr>br_chans := gput ch (c\<lparr>ch_queue := evs\<rparr>) (br_chans b)\<rparr>, Some ev)))"

section \<open>Runs\<close>

datatype broker_op =
    OpSubscribe string | OpUnsubscribe nat | OpPublish int string Event | OpBroadcast int Event
  | OpClose string | OpReceive nat

text \<open>The state after an operation, and whether it panicked.\<close>

fun broker_step :: "broker_op \<Rightarrow> Broker \<Rightarrow> Broker \<times> bool" where
  "broker_step (OpSubscribe dev) b = (fst (Subscribe dev b), False)"
| "broker_step (OpUnsubscribe ch) b = unsubscribe ch b"
| "broker_step (OpPublish now dev ev) b = (let (b', _, panic) = Publish now dev ev b in (b', panic))"
| "broker_step (OpBroadcast now ev) b = (let (b', _, panic) = Broadcast now ev b in (b', panic))"
| "broker_step (OpClose dev) b = CloseClient dev b"
| "broker_step (OpReceive ch) b = (fst (receive ch b), False)"

definition broker_run :: "broker_op list \<Rightarrow> Broker \<Rightarrow> Broker" where
  "broker_run ops b = fold (\<lambda>p b. fst (broker_step p b)) ops b"

text \<open>Everything a run publishes to a device, oldest first, as recorded.\<close>

fun published :: "string \<Rightarrow> broker_op list \<Rightarrow> Broker \<Rightarrow> Event list" where
  "published dev [] b = []"
| "published dev (p # ps) b =
     (case p of OpPublish now d ev \<Rightarrow> if d = dev then [stamp_event now d ev b] else [] | _ \<Rightarrow> [])
     @ published dev ps (fst (broker_step p b))"

end
