(* ===== verification/BrokerProps.thy ===== *)
theory BrokerProps
  imports Broker
begin

text \<open>
  What the broker guarantees: the history of a device is the end of everything published to it,
  so that a replay loses nothing; subscribed channels are open, belong to one device and hold at
  most sixteen events; and the only operation that can panic is an unsubscribe that comes after
  the subscription was closed from outside.
\<close>

section \<open>History\<close>

lemma send_all_frame:
  "br_history (fst (send_all ev chs b)) = br_history b"
  "br_subscribers (fst (send_all ev chs b)) = br_subscribers b"
  "br_sequence (fst (send_all ev chs b)) = br_sequence b"
  "br_historySize (fst (send_all ev chs b)) = br_historySize b"
  "br_unsub (fst (send_all ev chs b)) = br_unsub b"
  "br_next (fst (send_all ev chs b)) = br_next b"
  by (induction ev chs b rule: send_all.induct)
    (simp_all add: Let_def case_prod_beta split: option.splits)

lemma close_chan_frame:
  "br_history (fst (close_chan ch b)) = br_history b"
  "br_subscribers (fst (close_chan ch b)) = br_subscribers b"
  "br_historySize (fst (close_chan ch b)) = br_historySize b"
  "br_unsub (fst (close_chan ch b)) = br_unsub b"
  "br_next (fst (close_chan ch b)) = br_next b"
  by (auto simp: close_chan_def split: option.splits)

lemma close_all_frame:
  "br_history (fst (close_all chs b)) = br_history b"
  "br_subscribers (fst (close_all chs b)) = br_subscribers b"
  "br_historySize (fst (close_all chs b)) = br_historySize b"
  "br_unsub (fst (close_all chs b)) = br_unsub b"
  "br_next (fst (close_all chs b)) = br_next b"
  by (induction chs arbitrary: b) (simp_all add: Let_def case_prod_beta close_chan_frame)

lemma unsubscribe_frame:
  "br_history (fst (unsubscribe ch b)) = br_history b"
  "br_historySize (fst (unsubscribe ch b)) = br_historySize b"
  by (auto simp: unsubscribe_def Let_def case_prod_beta close_chan_frame split: option.splits)

lemma Publish_history:
  assumes "br_historySize b = n" and "0 < n" and "history_of b d = last_n n old"
  shows "history_of (fst (Publish now dev ev b)) d =
      last_n n (old @ (if dev = d then [stamp_event now dev ev b] else []))"
    and "br_historySize (fst (Publish now dev ev b)) = n"
  using assms
  by (auto simp: Publish_def record_event_def Let_def send_all_frame history_of_def last_n_snoc)
    (auto simp: last_n_def drop_Suc tl_drop)

lemma broker_step_history:
  assumes "br_historySize b = n" and "0 < n" and "history_of b d = last_n n old"
  shows "history_of (fst (broker_step p b)) d = last_n n (old @ published d [p] b)
    \<and> br_historySize (fst (broker_step p b)) = n"
proof (cases p)
  case (OpPublish now dev ev)
  with Publish_history [OF assms] show ?thesis by (simp add: case_prod_beta)
qed (use assms in \<open>auto simp: Subscribe_def Let_def case_prod_beta Broadcast_def receive_def CloseClient_def
    send_all_frame close_all_frame unsubscribe_frame history_of_def split: option.splits list.splits\<close>)

lemma broker_run_history:
  assumes "br_historySize b = n" and "0 < n" and "history_of b d = last_n n old"
  shows "history_of (broker_run ops b) d = last_n n (old @ published d ops b)"
  using assms
proof (induction ops arbitrary: b old)
  case (Cons p ops)
  from Cons.IH [of "fst (broker_step p b)" "old @ published d [p] b"] broker_step_history [OF Cons.prems]
    Cons.prems(2)
  show ?case by (simp add: broker_run_def)
qed (simp add: broker_run_def)

lemma history_is_tail: "history_of (broker_run ops New) d = last_n 64 (published d ops New)"
  using broker_run_history [of New 64 d "[]" ops] by (simp add: New_def history_of_def last_n_def)

section \<open>Replay\<close>

lemma after_id_Some:
  "after_id i evs = Some out \<longleftrightarrow>
     (\<exists>pre e. evs = pre @ e # out \<and> ev_ID e = i \<and> (\<forall>x \<in> set pre. ev_ID x \<noteq> i))"
proof (induction evs)
  case (Cons x evs)
  show ?case
  proof (cases "ev_ID x = i")
    case True
    then show ?thesis by (auto simp: Cons_eq_append_conv)
  next
    case False
    have "x # evs = pre @ e # out \<and> ev_ID e = i \<and> (\<forall>y \<in> set pre. ev_ID y \<noteq> i)
        \<longleftrightarrow> (\<exists>pre'. pre = x # pre' \<and> evs = pre' @ e # out \<and> ev_ID e = i \<and> (\<forall>y \<in> set pre'. ev_ID y \<noteq> i))"
      for pre e using False by (cases pre) auto
    with Cons.IH False show ?thesis by simp blast
  qed
qed simp

lemma replay_tail:
  assumes "b = broker_run ops New" and "sent = published dev ops New" and s: "sent = pre @ e # out"
    and e: "ev_ID e = i" "i \<noteq> []" "i \<notin> ev_ID ` set pre" "length out < 64"
  shows "Replay dev i b = Some out"
proof -
  have h: "history_of b dev = last_n 64 sent" using assms(1,2) history_is_tail by simp
  have "length (e # out) \<le> 64" using e by simp
  then have "last_n 64 sent = drop (length pre - (63 - length out)) pre @ e # out"
    using s by (simp add: last_n_def)
  moreover have "ev_ID x \<noteq> i" if "x \<in> set (drop (length pre - (63 - length out)) pre)" for x
    using e in_set_dropD [OF that] by (metis imageI)
  ultimately have "after_id i (last_n 64 sent) = Some out" using e by (auto simp: after_id_Some)
  with e h show ?thesis by (simp add: Replay_def)
qed

text \<open>
  C8: A replay loses nothing: what \<open>Replay\<close> returns is everything published to the device after an
  event with the agent's last identifier, and for an identifier that occurs once among the
  events it does return it whenever fewer than 64 events followed. Otherwise the caller is told
  to synchronise in full.
\<close>

theorem replay_loses_nothing:
  assumes "b = broker_run ops New" and "sent = published dev ops New"
  shows "(Replay dev i b = Some out \<longrightarrow> (\<exists>pre e. sent = pre @ e # out \<and> ev_ID e = i))
    \<and> (sent = pre @ e # out \<and> ev_ID e = i \<and> i \<noteq> [] \<and> i \<notin> ev_ID ` set pre \<and> length out < 64
        \<longrightarrow> Replay dev i b = Some out)
    \<and> (i \<notin> ev_ID ` set sent \<longrightarrow> Replay dev i b = None)"
proof (intro conjI impI)
  have h: "history_of b dev = last_n 64 sent" using assms history_is_tail by simp
  obtain zs where zs: "sent = zs @ last_n 64 sent" using last_n_suffix by blast
  show "\<exists>pre e. sent = pre @ e # out \<and> ev_ID e = i" if "Replay dev i b = Some out"
  proof -
    from that h obtain pre e where "last_n 64 sent = pre @ e # out" "ev_ID e = i"
      by (auto simp: Replay_def after_id_Some split: if_splits)
    then have "sent = (zs @ pre) @ e # out \<and> ev_ID e = i" using zs by simp
    then show ?thesis by blast
  qed
  show "Replay dev i b = None" if "i \<notin> ev_ID ` set sent"
  proof (rule ccontr)
    assume "Replay dev i b \<noteq> None"
    then obtain out' where "Replay dev i b = Some out'" by blast
    then have "\<exists>x \<in> set (last_n 64 sent). ev_ID x = i"
      using h by (auto simp: Replay_def after_id_Some split: if_splits)
    moreover have "set (last_n 64 sent) \<subseteq> set sent" by (subst (2) zs) auto
    ultimately show False using that by auto
  qed
  show "Replay dev i b = Some out"
    if "sent = pre @ e # out \<and> ev_ID e = i \<and> i \<noteq> [] \<and> i \<notin> ev_ID ` set pre \<and> length out < 64"
    using that assms by (intro replay_tail [OF assms(1) refl, of dev pre e]) auto
qed

definition sample_event :: Event where
  "sample_event = \<lparr>ev_Type = ''key_sync'', ev_Data = ''{}'', ev_ID = ''c1'', ev_Timestamp = 5\<rparr>"

theorem replay_loses_nothing_witness:
  "Replay ''d'' ''c1'' (broker_run [OpPublish 1 ''d'' sample_event,
      OpPublish 2 ''d'' (sample_event\<lparr>ev_ID := ''c2''\<rparr>)] New) = Some [sample_event\<lparr>ev_ID := ''c2''\<rparr>]"
proof -
  let ?ops = "[OpPublish 1 ''d'' sample_event, OpPublish 2 ''d'' (sample_event\<lparr>ev_ID := ''c2''\<rparr>)]"
  have "published ''d'' ?ops New = [] @ sample_event # [sample_event\<lparr>ev_ID := ''c2''\<rparr>]"
    by (simp add: stamp_event_def sample_event_def)
  then show ?thesis
    using replay_loses_nothing [OF refl refl, of "''d''" "''c1''" ?ops "[sample_event\<lparr>ev_ID := ''c2''\<rparr>]" "[]" sample_event]
    by (simp add: sample_event_def)
qed

section \<open>Subscriptions\<close>

definition live :: "Broker \<Rightarrow> string \<Rightarrow> nat \<Rightarrow> bool" where
  "live b dev ch \<longleftrightarrow> (\<exists>c. gget (br_chans b) ch = Some c \<and> \<not> ch_closed c) \<and> gget (br_unsub b) ch = Some (dev, False)"

definition chans_ok :: "Broker \<Rightarrow> bool" where
  "chans_ok b \<longleftrightarrow> (\<forall>ch c. gget (br_chans b) ch = Some c \<longrightarrow> ch < br_next b \<and> length (ch_queue c) \<le> channel_cap)
     \<and> (\<forall>ch. gget (br_unsub b) ch \<noteq> None \<longleftrightarrow> gget (br_chans b) ch \<noteq> None)"

definition subs_ok :: "Broker \<Rightarrow> bool" where
  "subs_ok b \<longleftrightarrow> wf_map (br_subscribers b) \<and> (\<forall>dev subs. gget (br_subscribers b) dev = Some subs \<longrightarrow>
     subs \<noteq> [] \<and> distinct subs \<and> (\<forall>ch \<in> set subs. live b dev ch))"

definition broker_inv :: "Broker \<Rightarrow> bool" where
  "broker_inv b \<longleftrightarrow> chans_ok b \<and> subs_ok b"

lemma live_device: "live b dev ch \<Longrightarrow> live b dev' ch \<Longrightarrow> dev = dev'"
  by (auto simp: live_def)

lemma subscribers_live:
  assumes "broker_inv b"
  shows "distinct (subscribers_of b dev)" and "ch \<in> set (subscribers_of b dev) \<Longrightarrow> live b dev ch"
  using assms by (cases "gget (br_subscribers b) dev"; auto simp: subscribers_of_def broker_inv_def subs_ok_def)+

lemma Subscribe_inv:
  assumes "broker_inv b"
  shows "broker_inv (fst (Subscribe dev b))"
proof -
  have fresh: "gget (br_chans b) (br_next b) = None"
    using assms by (force simp: broker_inv_def chans_ok_def)
  with assms have chs: "chans_ok (fst (Subscribe dev b))"
    by (auto simp: broker_inv_def chans_ok_def Subscribe_def Let_def less_Suc_eq)
  have old: "live (fst (Subscribe dev b)) d ch" if "live b d ch" for d ch
    using that fresh by (auto simp: live_def Subscribe_def Let_def)
  have notin: "br_next b \<notin> set subs" if "gget (br_subscribers b) d = Some subs" for d subs
    using assms that fresh by (fastforce simp: broker_inv_def subs_ok_def live_def)
  have "subs_ok (fst (Subscribe dev b))"
    unfolding subs_ok_def
  proof (intro conjI allI impI)
    show "wf_map (br_subscribers (fst (Subscribe dev b)))"
      using assms by (simp add: broker_inv_def subs_ok_def Subscribe_def Let_def)
    fix d subs assume d: "gget (br_subscribers (fst (Subscribe dev b))) d = Some subs"
    have new: "live (fst (Subscribe dev b)) dev (br_next b)"
      by (simp add: live_def Subscribe_def Let_def)
    have subs: "subs = (if d = dev then subscribers_of b dev @ [br_next b] else subscribers_of b d)"
      "d \<noteq> dev \<Longrightarrow> gget (br_subscribers b) d = Some subs"
      using d by (auto simp: Subscribe_def Let_def subscribers_of_def split: if_splits)
    have prev: "distinct (subscribers_of b d')" "\<forall>ch \<in> set (subscribers_of b d'). live b d' ch"
      "br_next b \<notin> set (subscribers_of b d')" for d'
      using subscribers_live [OF assms] notin [of d'] by (auto simp: subscribers_of_def split: option.splits)
    show "subs \<noteq> []" using subs assms by (cases "d = dev") (auto simp: broker_inv_def subs_ok_def)
    show "distinct subs" using subs prev by auto
    show "\<forall>ch \<in> set subs. live (fst (Subscribe dev b)) d ch" using subs prev old new by auto
  qed
  with chs show ?thesis by (simp add: broker_inv_def)
qed

text \<open>Sending to open channels never panics and keeps every channel open and bounded.\<close>

definition all_open :: "nat list \<Rightarrow> Broker \<Rightarrow> bool" where
  "all_open chs b \<longleftrightarrow> (\<forall>ch \<in> set chs. \<exists>c. gget (br_chans b) ch = Some c \<and> \<not> ch_closed c)"

definition same_chans :: "Broker \<Rightarrow> Broker \<Rightarrow> bool" where
  "same_chans b b' \<longleftrightarrow> (\<forall>k. (gget (br_chans b') k = None \<longleftrightarrow> gget (br_chans b) k = None)
     \<and> (\<forall>c c'. gget (br_chans b) k = Some c \<longrightarrow> gget (br_chans b') k = Some c' \<longrightarrow>
          ch_closed c' = ch_closed c \<and> (length (ch_queue c) \<le> channel_cap \<longrightarrow> length (ch_queue c') \<le> channel_cap)))"

lemma same_chans_refl [simp]: "same_chans b b"
  by (simp add: same_chans_def)

lemma same_chans_trans:
  assumes "same_chans b b'" and "same_chans b' b''"
  shows "same_chans b b''"
  unfolding same_chans_def
proof (intro allI conjI)
  fix k
  show "(gget (br_chans b'') k = None) = (gget (br_chans b) k = None)"
    using assms by (simp add: same_chans_def)
  show "gget (br_chans b) k = Some c \<longrightarrow> gget (br_chans b'') k = Some c' \<longrightarrow>
      ch_closed c' = ch_closed c \<and> (length (ch_queue c) \<le> channel_cap \<longrightarrow> length (ch_queue c') \<le> channel_cap)"
    for c c'
  proof (cases "gget (br_chans b') k")
    case None
    with assms show ?thesis by (auto simp: same_chans_def)
  next
    case (Some d)
    with assms show ?thesis unfolding same_chans_def by metis
  qed
qed

lemma same_chans_put:
  "gget (br_chans b) ch = Some c \<Longrightarrow> ch_closed c' = ch_closed c
    \<Longrightarrow> (length (ch_queue c) \<le> channel_cap \<Longrightarrow> length (ch_queue c') \<le> channel_cap)
    \<Longrightarrow> same_chans b (b\<lparr>br_chans := gput ch c' (br_chans b)\<rparr>)"
  by (auto simp: same_chans_def)

lemma all_open_same: "all_open chs b \<Longrightarrow> same_chans b b' \<Longrightarrow> all_open chs b'"
  unfolding all_open_def same_chans_def by (metis not_None_eq)

lemma send_all_open:
  "all_open chs b \<Longrightarrow> \<not> snd (snd (send_all ev chs b)) \<and> same_chans b (fst (send_all ev chs b))"
proof (induction chs arbitrary: b)
  case (Cons ch chs)
  then obtain c where c: "gget (br_chans b) ch = Some c" "\<not> ch_closed c"
    by (auto simp: all_open_def)
  let ?b = "b\<lparr>br_chans := gput ch (c\<lparr>ch_queue := ch_queue c @ [ev]\<rparr>) (br_chans b)\<rparr>"
  have chs: "all_open chs b" using Cons.prems by (simp add: all_open_def)
  show ?case
  proof (cases "length (ch_queue c) < channel_cap")
    case True
    then have step: "same_chans b ?b" using c by (intro same_chans_put) auto
    from Cons.IH [OF all_open_same [OF chs step]] step c True show ?thesis
      by (auto simp: Let_def case_prod_beta intro: same_chans_trans)
  next
    case False
    with c Cons.IH [OF chs] show ?thesis by simp
  qed
qed simp

lemma same_chans_inv:
  assumes "broker_inv b" and "same_chans b b'" and "br_subscribers b' = br_subscribers b"
    and "br_unsub b' = br_unsub b" and "br_next b' = br_next b"
  shows "broker_inv b'"
proof -
  have "live b' dev ch" if "live b dev ch" for dev ch
    using that assms(2,4) unfolding live_def same_chans_def by (metis not_None_eq)
  then have "subs_ok b'" using assms by (simp add: broker_inv_def subs_ok_def)
  moreover have "chans_ok b'"
    unfolding chans_ok_def
  proof (intro conjI allI impI)
    fix ch c' assume c': "gget (br_chans b') ch = Some c'"
    with assms(2) have "gget (br_chans b) ch \<noteq> None" unfolding same_chans_def by (metis option.distinct(1))
    then obtain c where "gget (br_chans b) ch = Some c" by blast
    with c' assms show "ch < br_next b'" "length (ch_queue c') \<le> channel_cap"
      unfolding same_chans_def broker_inv_def chans_ok_def by metis+
  next
    fix ch show "(gget (br_unsub b') ch \<noteq> None) = (gget (br_chans b') ch \<noteq> None)"
      using assms unfolding same_chans_def broker_inv_def chans_ok_def by metis
  qed
  ultimately show ?thesis by (simp add: broker_inv_def)
qed

lemma subscribers_open:
  "broker_inv b \<Longrightarrow> gget (br_subscribers b) dev = Some subs \<Longrightarrow> all_open subs b"
  by (auto simp: broker_inv_def subs_ok_def all_open_def live_def)

lemma record_event_frame:
  "br_chans (record_event now dev ev b) = br_chans b"
  "br_subscribers (record_event now dev ev b) = br_subscribers b"
  "br_unsub (record_event now dev ev b) = br_unsub b"
  "br_next (record_event now dev ev b) = br_next b"
  by (simp_all add: record_event_def Let_def)

lemma Publish_inv:
  assumes "broker_inv b"
  shows "broker_inv (fst (Publish now dev ev b)) \<and> \<not> snd (snd (Publish now dev ev b))"
proof -
  let ?b1 = "record_event now dev ev b"
  have inv: "broker_inv ?b1"
    by (rule same_chans_inv [OF assms]) (simp_all add: same_chans_def record_event_frame)
  then have "all_open (subscribers_of ?b1 dev) ?b1"
    using subscribers_live(2) by (auto simp: all_open_def live_def)
  from send_all_open [OF this] inv show ?thesis
    by (auto simp: Publish_def Let_def send_all_frame intro: same_chans_inv [of ?b1])
qed

lemma Broadcast_inv:
  assumes "broker_inv b"
  shows "broker_inv (fst (Broadcast now ev b)) \<and> \<not> snd (snd (Broadcast now ev b))"
proof -
  have "live b dev ch" if "(dev, subs) \<in> set (br_subscribers b)" "ch \<in> set subs" for dev subs ch
    using assms that by (auto simp: broker_inv_def subs_ok_def simp flip: gget_iff_in_set)
  then have "all_open (concat (gvals (br_subscribers b))) b"
    by (fastforce simp: all_open_def live_def)
  from send_all_open [OF this] show ?thesis
    by (auto simp: Broadcast_def Let_def send_all_frame intro!: same_chans_inv [OF assms])
qed

lemma receive_inv: "broker_inv b \<Longrightarrow> broker_inv (fst (receive ch b))"
  by (rule same_chans_inv, assumption)
    (auto simp: receive_def split: option.splits list.splits intro!: same_chans_put)

section \<open>Closing\<close>

lemma close_all_closes:
  assumes "all_open chs b" and "distinct chs"
  shows "\<not> snd (close_all chs b)
    \<and> (\<forall>k. gget (br_chans (fst (close_all chs b))) k =
          (if k \<in> set chs then map_option (\<lambda>c. c\<lparr>ch_closed := True\<rparr>) (gget (br_chans b) k)
           else gget (br_chans b) k))"
  using assms
proof (induction chs arbitrary: b)
  case (Cons ch chs)
  then obtain c where c: "gget (br_chans b) ch = Some c" "\<not> ch_closed c"
    by (auto simp: all_open_def)
  let ?b = "b\<lparr>br_chans := gput ch (c\<lparr>ch_closed := True\<rparr>) (br_chans b)\<rparr>"
  have "all_open chs ?b" using Cons.prems by (auto simp: all_open_def)
  with Cons.IH [of ?b] Cons.prems(2) c show ?case by (auto simp: close_chan_def)
qed simp

text \<open>Channels (of a set \<open>A\<close>) that no device is subscribed with any more may be closed and used up.\<close>

lemma closed_inv:
  assumes inv: "broker_inv b"
    and chans: "\<And>k. k \<notin> A \<Longrightarrow> gget (br_chans b') k = gget (br_chans b) k"
    and queues: "\<And>k. map_option ch_queue (gget (br_chans b') k) = map_option ch_queue (gget (br_chans b) k)"
    and unsub: "\<And>k. k \<notin> A \<Longrightarrow> gget (br_unsub b') k = gget (br_unsub b) k"
    and dom: "\<And>k. (gget (br_unsub b') k = None) = (gget (br_unsub b) k = None)"
    and subs: "wf_map (br_subscribers b')"
      "\<And>d s. gget (br_subscribers b') d = Some s \<Longrightarrow>
        \<exists>s0. gget (br_subscribers b) d = Some s0 \<and> s \<noteq> [] \<and> distinct s \<and> set s \<subseteq> set s0 - A"
    and "next": "br_next b' = br_next b"
  shows "broker_inv b'"
proof -
  have "live b' d ch" if "live b d ch" "ch \<notin> A" for d ch
    using that chans unsub by (auto simp: live_def)
  moreover have "live b d ch" if "gget (br_subscribers b) d = Some s0" "ch \<in> set s0" for d s0 ch
    using inv that by (auto simp: broker_inv_def subs_ok_def)
  ultimately have "subs_ok b'" using subs unfolding subs_ok_def by (metis DiffD1 DiffD2 subset_iff)
  moreover have "\<exists>c0. gget (br_chans b) k = Some c0 \<and> ch_queue c = ch_queue c0"
    if "gget (br_chans b') k = Some c" for k c
    using queues [of k] that by (cases "gget (br_chans b) k") auto
  moreover have "gget (br_chans b') k = None \<longleftrightarrow> gget (br_chans b) k = None" for k
    using queues [of k] by (cases "gget (br_chans b) k"; cases "gget (br_chans b') k") auto
  ultimately have "subs_ok b' \<and> chans_ok b'"
    using inv dom "next" unfolding broker_inv_def chans_ok_def by metis
  then show ?thesis by (simp add: broker_inv_def)
qed

lemma CloseClient_inv:
  assumes inv: "broker_inv b"
  shows "broker_inv (fst (CloseClient dev b)) \<and> \<not> snd (CloseClient dev b)"
proof (cases "gget (br_subscribers b) dev")
  case None
  with inv show ?thesis by (simp add: CloseClient_def)
next
  case (Some subs)
  let ?b1 = "fst (close_all subs b)"
  have cl: "\<not> snd (close_all subs b)" and chans: "gget (br_chans ?b1) k =
      (if k \<in> set subs then map_option (\<lambda>c. c\<lparr>ch_closed := True\<rparr>) (gget (br_chans b) k)
       else gget (br_chans b) k)" for k
    using close_all_closes [OF subscribers_open [OF inv Some]] subscribers_live(1) [OF inv, of dev] Some
    by (simp_all add: subscribers_of_def)
  have sub: "\<exists>s0. gget (br_subscribers b) d = Some s0 \<and> s \<noteq> [] \<and> distinct s \<and> set s \<subseteq> set s0 - set subs"
    if d: "d \<noteq> dev" "gget (br_subscribers b) d = Some s" for d s
  proof -
    have "ch \<notin> set subs" if "ch \<in> set s" for ch
      using subscribers_live(2) [OF inv, of ch] that d Some live_device [of b d ch dev]
      by (auto simp: subscribers_of_def)
    with inv d show ?thesis by (auto simp: broker_inv_def subs_ok_def)
  qed
  have "broker_inv (?b1\<lparr>br_subscribers := gdel dev (br_subscribers ?b1)\<rparr>)"
    by (rule closed_inv [OF inv, where A = "set subs"])
      (use chans sub inv in \<open>auto simp: close_all_frame broker_inv_def subs_ok_def option.map_comp comp_def
        split: if_splits\<close>)
  with Some cl show ?thesis by (simp add: CloseClient_def Let_def case_prod_beta)
qed

lemma other_subscribers:
  assumes inv: "broker_inv b" and d: "gget (br_subscribers b) d = Some s"
    and ch: "gget (br_unsub b) ch = Some (dev, u)" and "d \<noteq> dev"
  shows "ch \<notin> set s"
  using subscribers_live(2) [OF inv, of ch d] d ch \<open>d \<noteq> dev\<close> by (auto simp: live_def subscribers_of_def)

lemma unsubscribe_inv:
  assumes inv: "broker_inv b"
  shows "broker_inv (fst (unsubscribe ch b))
    \<and> (snd (unsubscribe ch b) \<longleftrightarrow> (\<exists>dev c. gget (br_unsub b) ch = Some (dev, False) \<and> IsConnected dev b
         \<and> gget (br_chans b) ch = Some c \<and> ch_closed c))"
proof (cases "\<exists>dev. gget (br_unsub b) ch = Some (dev, False)")
  case False
  with inv show ?thesis by (auto simp: unsubscribe_def split: option.splits)
next
  case True
  then obtain dev where u: "gget (br_unsub b) ch = Some (dev, False)" by blast
  then obtain c where c: "gget (br_chans b) ch = Some c"
    using inv unfolding broker_inv_def chans_ok_def by (metis option.exhaust option.distinct(1))
  have old: "s \<noteq> [] \<and> distinct s" if "gget (br_subscribers b) d = Some s" for d s
    using inv that by (auto simp: broker_inv_def subs_ok_def)
  show ?thesis
  proof (cases "gget (br_subscribers b) dev")
    case None
    have "broker_inv (b\<lparr>br_unsub := gput ch (dev, True) (br_unsub b)\<rparr>)"
    proof (rule closed_inv [OF inv, where A = "{ch}"])
      show "\<exists>s0. gget (br_subscribers b) d = Some s0 \<and> s \<noteq> [] \<and> distinct s \<and> set s \<subseteq> set s0 - {ch}"
        if "gget (br_subscribers (b\<lparr>br_unsub := gput ch (dev, True) (br_unsub b)\<rparr>)) d = Some s" for d s
        using that old None other_subscribers [OF inv _ u, of d s] by fastforce
    qed (use inv u in \<open>auto simp: broker_inv_def subs_ok_def\<close>)
    with None u show ?thesis by (simp add: unsubscribe_def IsConnected_def)
  next
    case (Some subs)
    let ?subs = "filter (\<lambda>k. k \<noteq> ch) subs"
    let ?put = "if ch_closed c \<or> ?subs \<noteq> [] then gput dev ?subs (br_subscribers b) else gdel dev (gput dev ?subs (br_subscribers b))"
    let ?b = "b\<lparr>br_unsub := gput ch (dev, True) (br_unsub b), br_subscribers := ?put,
      br_chans := (if ch_closed c then br_chans b else gput ch (c\<lparr>ch_closed := True\<rparr>) (br_chans b))\<rparr>"
    have closed: "?subs = subs" if "ch_closed c"
      using subscribers_live(2) [OF inv, of ch dev] that c Some
      by (auto simp: live_def subscribers_of_def filter_id_conv)
    have "broker_inv ?b"
    proof (rule closed_inv [OF inv, where A = "{ch}"])
      show "\<exists>s0. gget (br_subscribers b) d = Some s0 \<and> s \<noteq> [] \<and> distinct s \<and> set s \<subseteq> set s0 - {ch}"
        if "gget (br_subscribers ?b) d = Some s" for d s
      proof (cases "d = dev")
        case True
        with that have "s = ?subs" "ch_closed c \<or> ?subs \<noteq> []" by (auto split: if_splits)
        moreover from this have "s \<noteq> []" using closed old [OF Some] by auto
        moreover have "distinct s" using \<open>s = ?subs\<close> old [OF Some] by auto
        ultimately show ?thesis using True Some by auto
      next
        case False
        with that have "gget (br_subscribers b) d = Some s" by (auto split: if_splits)
        with old other_subscribers [OF inv this u] False show ?thesis by blast
      qed
    qed (use inv u c in \<open>auto simp: broker_inv_def subs_ok_def\<close>)
    moreover have "unsubscribe ch b = (?b, ch_closed c)"
      using u c Some by (auto simp: unsubscribe_def close_chan_def Let_def)
    moreover have "IsConnected dev b" using Some old by (auto simp: IsConnected_def)
    ultimately show ?thesis using u c by auto
  qed
qed

lemma New_inv: "broker_inv New"
  by (simp add: broker_inv_def chans_ok_def subs_ok_def New_def)

lemma broker_step_inv: "broker_inv b \<Longrightarrow> broker_inv (fst (broker_step p b))"
  using Publish_inv Broadcast_inv CloseClient_inv unsubscribe_inv Subscribe_inv receive_inv
  by (cases p) (simp_all add: case_prod_beta)

lemma broker_run_inv: "broker_inv (broker_run ops New)"
proof -
  have "broker_inv (broker_run ops b)" if "broker_inv b" for b
    using that by (induction ops arbitrary: b) (simp_all add: broker_run_def broker_step_inv)
  then show ?thesis using New_inv by blast
qed

text \<open>
  Over every sequence of operations the broker panics in one case only: the unsubscribe of a
  channel that \<open>CloseClient\<close> had closed already, while its device is subscribed again. No publish
  or broadcast ever sends on a closed channel, and no buffer holds more than sixteen events.
\<close>

theorem broker_panics_iff:
  "(snd (broker_step p (broker_run ops New)) \<longleftrightarrow>
     (\<exists>ch dev c. p = OpUnsubscribe ch \<and> gget (br_unsub (broker_run ops New)) ch = Some (dev, False)
        \<and> IsConnected dev (broker_run ops New)
        \<and> gget (br_chans (broker_run ops New)) ch = Some c \<and> ch_closed c))
   \<and> (\<forall>ch. case gget (br_chans (fst (broker_step p (broker_run ops New)))) ch of
        None \<Rightarrow> True | Some c \<Rightarrow> length (ch_queue c) \<le> 16)"
proof
  let ?b = "broker_run ops New"
  have inv: "broker_inv ?b" by (rule broker_run_inv)
  show "snd (broker_step p ?b) \<longleftrightarrow> (\<exists>ch dev c. p = OpUnsubscribe ch \<and> gget (br_unsub ?b) ch = Some (dev, False)
      \<and> IsConnected dev ?b \<and> gget (br_chans ?b) ch = Some c \<and> ch_closed c)"
    using Publish_inv [OF inv] Broadcast_inv [OF inv] CloseClient_inv [OF inv] unsubscribe_inv [OF inv]
    by (cases p) (simp_all add: case_prod_beta)
  show "\<forall>ch. case gget (br_chans (fst (broker_step p ?b))) ch of
      None \<Rightarrow> True | Some c \<Rightarrow> length (ch_queue c) \<le> 16"
    using broker_step_inv [OF inv, of p]
    by (auto simp: broker_inv_def chans_ok_def channel_cap_def split: option.splits)
qed

lemma late_unsubscribe_panics:
  "snd (broker_step (OpUnsubscribe 0) (broker_run [OpSubscribe ''d'', OpClose ''d'', OpSubscribe ''d''] New))"
  by (simp add: broker_run_def New_def Subscribe_def CloseClient_def close_chan_def unsubscribe_def
      subscribers_of_def Let_def)

end
