(* ===== verification/EventStream.thy ===== *)
theory EventStream
  imports AgentProps BrokerProps
begin

text \<open>
  The stream that joins the broker and the agent: the text the server writes for an event
  (\<open>handleDeviceEvents\<close> in \<open>internal/api/api.go\<close>), the agent's reader of that text (\<open>readStream\<close>
  in \<open>internal/daemon/client.go\<close>), and what a reconnecting agent therefore receives.
\<close>

section \<open>The server's side\<close>

definition write_event :: "Event \<Rightarrow> string" where
  "write_event ev =
     (if ev_Type ev \<noteq> [] then ''event: '' @ ev_Type ev @ [newline] else [])
     @ (if ev_ID ev \<noteq> [] then ''id: '' @ ev_ID ev @ [newline] else [])
     @ ''data: '' @ ev_Data ev @ [newline, newline]"

text \<open>The events a connection gets first, when its last identifier is still in the history.\<close>

definition replay_text :: "string \<Rightarrow> string \<Rightarrow> Broker \<Rightarrow> string option" where
  "replay_text dev lastID b = map_option (\<lambda>evs. concat (map write_event evs)) (Replay dev lastID b)"

section \<open>The agent's side\<close>

record sse_state =
  ss_Event :: string
  ss_Data :: string
  ss_ID :: string

definition sse_empty :: sse_state where
  "sse_empty = \<lparr>ss_Event = [], ss_Data = [], ss_ID = []\<rparr>"

definition trim_right_crlf :: "string \<Rightarrow> string" where
  "trim_right_crlf s = rev (dropWhile (\<lambda>c. c = newline \<or> c = carriage_return) (rev s))"

text \<open>One line: the state of the reader after it, and the event it dispatches, if any.\<close>

definition sse_line :: "string \<Rightarrow> sse_state \<Rightarrow> sse_state \<times> (string \<times> string \<times> string) option" where
  "sse_line raw st =
     (let line = trim_right_crlf raw in
      if line = [] then
        (if ss_Event st \<noteq> [] \<or> ss_Data st \<noteq> [] then
           (sse_empty, Some (ss_Event st, ss_Data st, ss_ID st))
         else (st, None))
      else if has_prefix line '':'' then (st, None)
      else if has_prefix line ''event:'' then
        (st\<lparr>ss_Event := trim_space (trim_prefix line ''event:'')\<rparr>, None)
      else if has_prefix line ''id:'' then
        (st\<lparr>ss_ID := trim_space (trim_prefix line ''id:'')\<rparr>, None)
      else if has_prefix line ''data:'' then
        (let dataVal = trim_space (trim_prefix line ''data:'') in
         (st\<lparr>ss_Data := (if ss_Data st = [] then dataVal else ss_Data st @ [newline] @ dataVal)\<rparr>, None))
      else (st, None))"

text \<open>The complete lines of the body; a last line without a newline ends the stream.\<close>

definition body_lines :: "string \<Rightarrow> string list" where
  "body_lines body = butlast (split_at newline body)"

text \<open>What a dispatched event does: the cursor is recorded, then the event is handled.\<close>

definition dispatch_sse :: "agent_env \<Rightarrow> string \<times> string \<times> string \<Rightarrow> Daemon \<Rightarrow> Daemon" where
  "dispatch_sse env e d =
     (let (ev, dat, i) = e;
          d1 = (if i = [] then d
                else agent_step (AgentCursor (ag_WriteOK env WEventID i) i) d) in
      handleEvent env i ev dat d1)"

fun read_lines :: "agent_env \<Rightarrow> string list \<Rightarrow> sse_state \<Rightarrow> Daemon \<Rightarrow> sse_state \<times> Daemon" where
  "read_lines env [] st d = (st, d)"
| "read_lines env (line # ls) st d =
     (let (st', out) = sse_line line st in
      read_lines env ls st' (case out of None \<Rightarrow> d | Some e \<Rightarrow> dispatch_sse env e d))"

definition readStream :: "agent_env \<Rightarrow> string \<Rightarrow> Daemon \<Rightarrow> Daemon" where
  "readStream env body d = snd (read_lines env (body_lines body) sse_empty d)"

section \<open>Reading back what was written\<close>

text \<open>A text that survives the stream: on one line and with nothing to trim.\<close>

definition clean :: "string \<Rightarrow> bool" where
  "clean s \<longleftrightarrow> newline \<notin> set s \<and> carriage_return \<notin> set s \<and> trim_space s = s"

definition clean_event :: "Event \<Rightarrow> bool" where
  "clean_event ev \<longleftrightarrow> clean (ev_Type ev) \<and> clean (ev_ID ev) \<and> clean (ev_Data ev)
     \<and> (ev_Type ev \<noteq> [] \<or> ev_Data ev \<noteq> [])"

lemma body_lines_Cons:
  "newline \<notin> set xs \<Longrightarrow> body_lines (xs @ newline # ys) = xs # body_lines ys"
  by (simp add: body_lines_def split_at_append)

lemma body_lines_Nil: "body_lines [] = []"
  by (simp add: body_lines_def)

lemma trim_right_keep:
  "s = [] \<or> last s \<notin> {newline, carriage_return} \<Longrightarrow> trim_right_crlf s = s"
  by (cases s rule: rev_cases) (auto simp: trim_right_crlf_def)

lemma trim_right_clean:
  assumes "newline \<notin> set s" and "carriage_return \<notin> set s"
  shows "trim_right_crlf s = s"
  using assms by (intro trim_right_keep) (metis insertE last_in_set singletonD)

definition event_lines :: "Event \<Rightarrow> string list" where
  "event_lines ev = (if ev_Type ev \<noteq> [] then [''event: '' @ ev_Type ev] else [])
     @ (if ev_ID ev \<noteq> [] then [''id: '' @ ev_ID ev] else []) @ [''data: '' @ ev_Data ev, []]"

lemma write_event_lines:
  assumes "clean_event ev"
  shows "body_lines (write_event ev @ rest) = event_lines ev @ body_lines rest"
proof -
  have line: "body_lines (p @ s @ newline # r) = (p @ s) # body_lines r"
    if "clean s" "newline \<notin> set p" for p s r
    using body_lines_Cons [of "p @ s" r] that by (simp add: clean_def)
  have nl: "body_lines (newline # r) = [] # body_lines r" for r
    using body_lines_Cons [of "[]" r] by simp
  have tags: "newline \<notin> set ''event: ''" "newline \<notin> set ''id: ''" "newline \<notin> set ''data: ''"
    by (simp_all add: newline_def)
  from assms have "clean (ev_Type ev)" "clean (ev_ID ev)" "clean (ev_Data ev)"
    by (simp_all add: clean_event_def)
  then show ?thesis
    using line [OF _ tags(1), of "ev_Type ev"] line [OF _ tags(2), of "ev_ID ev"]
      line [OF _ tags(3), of "ev_Data ev"] nl
    by (auto simp: write_event_def event_lines_def)
qed

lemma sse_line_tags:
  assumes "clean t"
  shows "sse_line (''event: '' @ t) st = (st\<lparr>ss_Event := t\<rparr>, None)"
    and "sse_line (''id: '' @ t) st = (st\<lparr>ss_ID := t\<rparr>, None)"
    and "ss_Data st = [] \<Longrightarrow> sse_line (''data: '' @ t) st = (st\<lparr>ss_Data := t\<rparr>, None)"
proof -
  have keep: "trim_right_crlf (p @ t) = p @ t" if "newline \<notin> set p" "carriage_return \<notin> set p" for p
    using assms that by (intro trim_right_clean) (auto simp: clean_def)
  have "trim_space t = t" using assms by (simp add: clean_def)
  then show "sse_line (''event: '' @ t) st = (st\<lparr>ss_Event := t\<rparr>, None)"
    "sse_line (''id: '' @ t) st = (st\<lparr>ss_ID := t\<rparr>, None)"
    "ss_Data st = [] \<Longrightarrow> sse_line (''data: '' @ t) st = (st\<lparr>ss_Data := t\<rparr>, None)"
    using keep [of "''event: ''"] keep [of "''id: ''"] keep [of "''data: ''"]
    by (simp_all add: sse_line_def trim_prefix_def newline_def carriage_return_def)
qed

lemma sse_blank: "sse_line [] st =
    (if ss_Event st \<noteq> [] \<or> ss_Data st \<noteq> [] then (sse_empty, Some (ss_Event st, ss_Data st, ss_ID st))
     else (st, None))"
  by (simp add: sse_line_def trim_right_crlf_def)

lemma read_event:
  assumes "clean_event ev"
  shows "read_lines env (event_lines ev @ ls) sse_empty d =
    read_lines env ls sse_empty (dispatch_sse env (ev_Type ev, ev_Data ev, ev_ID ev) d)"
  using assms
  by (auto simp: event_lines_def clean_event_def sse_line_tags [simplified] sse_blank sse_empty_def Let_def)

lemma stream_roundtrip_text:
  assumes "list_all clean_event evs"
  shows "readStream env (concat (map write_event evs)) d =
    fold (\<lambda>ev. dispatch_sse env (ev_Type ev, ev_Data ev, ev_ID ev)) evs d"
proof -
  have "read_lines env (body_lines (concat (map write_event evs))) sse_empty d =
      (sse_empty, fold (\<lambda>ev. dispatch_sse env (ev_Type ev, ev_Data ev, ev_ID ev)) evs d)"
    using assms
    by (induction evs arbitrary: d) (simp_all add: body_lines_Nil write_event_lines read_event)
  then show ?thesis by (simp add: readStream_def)
qed

text \<open>
  C16: The agent reads from the stream exactly the events the server wrote, in order and one by
  one, and handles each with its type, data and identifier, when their fields are single lines
  without surrounding white space and none is both untyped and empty.
\<close>

theorem stream_roundtrip:
  assumes "list_all clean_event evs"
  shows "readStream env (concat (map write_event evs)) d =
    fold (\<lambda>ev. dispatch_sse env (ev_Type ev, ev_Data ev, ev_ID ev)) evs d"
  using assms by (rule stream_roundtrip_text)

definition wire_event :: Event where
  "wire_event = \<lparr>ev_Type = ''key_sync'', ev_Data = ''{}'', ev_ID = ''c1'', ev_Timestamp = 5\<rparr>"

lemma clean_graphic:
  "s \<noteq> [] \<Longrightarrow> list_all graphic s \<Longrightarrow> clean s"
  unfolding clean_def
  by (auto simp: list_all_iff newline_def carriage_return_def intro!: trim_space_graphic)
    (auto simp: graphic_def)

lemma wire_event_clean: "clean_event wire_event" "clean_event (wire_event\<lparr>ev_ID := ''c2''\<rparr>)"
  by (simp_all add: clean_event_def wire_event_def clean_graphic graphic_def)

theorem stream_roundtrip_witness:
  "dm_effects (readStream sample_agent_env (concat (map write_event [wire_event])) (new_daemon ''/l''))
     = dm_effects (dispatch_sse sample_agent_env (''key_sync'', ''{}'', ''c1'') (new_daemon ''/l''))"
  using stream_roundtrip [of "[wire_event]" sample_agent_env "new_daemon ''/l''"] wire_event_clean
  by (simp add: wire_event_def)

section \<open>Reconnecting\<close>

text \<open>
  A reconnecting agent loses no event: when fewer than 64 events were published after the one
  whose identifier it recorded, the text the server replays makes the agent handle exactly those
  events, in the order they were published.
\<close>

theorem reconnect_handles_missed:
  assumes b: "b = broker_run ops New" and sent: "published dev ops New = seen @ e # missed"
    and cursor: "ld_LastEventID (ls_ledger (dm_store d)) = ev_ID e" and known: "ev_ID e \<noteq> []"
    and once: "ev_ID e \<notin> ev_ID ` set seen" and few: "length missed < 64"
    and clean: "list_all clean_event missed"
  shows "\<exists>txt. replay_text dev (lastEventID (dm_store d)) b = Some txt
    \<and> readStream env txt d = fold (\<lambda>ev. dispatch_sse env (ev_Type ev, ev_Data ev, ev_ID ev)) missed d"
proof -
  have "Replay dev (ev_ID e) b = Some missed"
    using replay_tail [OF b refl sent refl known once few] .
  then show ?thesis
    using stream_roundtrip_text [OF clean, of env d] cursor by (simp add: replay_text_def lastEventID_def)
qed

theorem reconnect_handles_missed_witness:
  "\<exists>txt. replay_text ''d'' ''c1'' (broker_run [OpPublish 1 ''d'' wire_event,
      OpPublish 2 ''d'' (wire_event\<lparr>ev_ID := ''c2''\<rparr>)] New) = Some txt
    \<and> readStream sample_agent_env txt ((new_daemon ''/l'')\<lparr>dm_store := fst (recordEventID True ''c1'' (dm_store (new_daemon ''/l'')))\<rparr>)
      = dispatch_sse sample_agent_env (''key_sync'', ''{}'', ''c2'')
          ((new_daemon ''/l'')\<lparr>dm_store := fst (recordEventID True ''c1'' (dm_store (new_daemon ''/l'')))\<rparr>)"
proof -
  let ?ops = "[OpPublish 1 ''d'' wire_event, OpPublish 2 ''d'' (wire_event\<lparr>ev_ID := ''c2''\<rparr>)]"
  let ?d = "(new_daemon ''/l'')\<lparr>dm_store := fst (recordEventID True ''c1'' (dm_store (new_daemon ''/l'')))\<rparr>"
  have "published ''d'' ?ops New = [] @ wire_event # [wire_event\<lparr>ev_ID := ''c2''\<rparr>]"
    by (simp add: stamp_event_def wire_event_def)
  moreover have cur: "ld_LastEventID (ls_ledger (dm_store ?d)) = ''c1''"
    by (simp add: recordEventID_def new_daemon_def)
  ultimately show ?thesis
    using reconnect_handles_missed [of _ ?ops "''d''" "[]" wire_event "[wire_event\<lparr>ev_ID := ''c2''\<rparr>]" ?d sample_agent_env]
      wire_event_clean
    by (simp add: lastEventID_def) (simp add: wire_event_def)
qed

end
