(* ===== verification/Deliveries.thy ===== *)
theory Deliveries
  imports Commands
begin

text \<open>
  The store of delivery attempts, \<open>internal/command/file/delivery_repository.go\<close>: creation,
  compare-and-set updates, and the list of pending deliveries of a device. As in the command
  repository, a write replaces the file or leaves it.
\<close>

record delivery_repo =
  dr_deliveries :: "(string, Delivery) gomap"
  dr_file :: "Delivery list option"

datatype delivery_file = DlvNoFile | DlvUnreadable | DlvUnsafeMode | DlvMalformed | DlvFile int "Delivery list"

definition identified :: "Delivery \<Rightarrow> bool" where
  "identified d \<longleftrightarrow> dl_ID d \<noteq> [] \<and> dl_CommandID d \<noteq> [] \<and> dl_DeviceID d \<noteq> []"

definition OpenDeliveryRepository :: "delivery_file \<Rightarrow> command_error + delivery_repo" where
  "OpenDeliveryRepository f = (case f of
      DlvNoFile \<Rightarrow> Inr \<lparr>dr_deliveries = [], dr_file = None\<rparr>
    | DlvUnreadable \<Rightarrow> Inl ErrCmdWrite
    | DlvUnsafeMode \<Rightarrow> Inl ErrUnsafeStore
    | DlvMalformed \<Rightarrow> Inl ErrDecodeStore
    | DlvFile schema ds \<Rightarrow>
        if schema \<noteq> 1 then Inl ErrUnsupportedSchema
        else if \<not> list_all identified ds then Inl ErrDeliveryIdentity
        else Inr \<lparr>dr_deliveries = fold (\<lambda>d. gput (dl_ID d) d) ds [], dr_file = Some ds\<rparr>)"

definition dr_write :: "bool \<Rightarrow> delivery_repo \<Rightarrow> delivery_repo \<times> bool" where
  "dr_write ok r =
     (if ok then (r\<lparr>dr_file := Some (go_sort (\<lambda>x y. dl_ID x < dl_ID y) (gvals (dr_deliveries r)))\<rparr>, True)
      else (r, False))"

text \<open>The assignment, the write, and the rollback both updates end with.\<close>

definition store_delivery :: "bool \<Rightarrow> Delivery \<Rightarrow> delivery_repo \<Rightarrow> delivery_repo \<times> command_error option" where
  "store_delivery ok d r =
     (let k = dl_ID d; old = gget (dr_deliveries r) k in
      case dr_write ok (r\<lparr>dr_deliveries := gput k d (dr_deliveries r)\<rparr>) of
        (r1, True) \<Rightarrow> (r1, None)
      | (r1, False) \<Rightarrow> (r1\<lparr>dr_deliveries := gm.rollback k old (dr_deliveries r1)\<rparr>, Some ErrCmdWrite))"

definition dr_Create :: "bool \<Rightarrow> Delivery \<Rightarrow> delivery_repo \<Rightarrow> delivery_repo \<times> command_error option" where
  "dr_Create ok d r =
     (if \<not> identified d then (r, Some ErrDeliveryIdentity)
      else (case gget (dr_deliveries r) (dl_ID d) of
        Some _ \<Rightarrow> (r, Some ErrDeliveryExists)
      | None \<Rightarrow> store_delivery ok (if dl_Revision d = 0 then d\<lparr>dl_Revision := 1\<rparr> else d) r))"

definition dr_Get :: "string \<Rightarrow> delivery_repo \<Rightarrow> command_error + Delivery" where
  "dr_Get k r = (case gget (dr_deliveries r) k of None \<Rightarrow> Inl ErrCmdNotFound | Some d \<Rightarrow> Inr d)"

definition dr_Save :: "bool \<Rightarrow> Delivery \<Rightarrow> u64 \<Rightarrow> delivery_repo \<Rightarrow> delivery_repo \<times> command_error option" where
  "dr_Save ok d expectedRevision r =
     (case gget (dr_deliveries r) (dl_ID d) of
        None \<Rightarrow> (r, Some ErrCmdNotFound)
      | Some old \<Rightarrow>
          if dl_Revision old \<noteq> expectedRevision then (r, Some ErrConflict)
          else store_delivery ok (d\<lparr>dl_Revision := expectedRevision + 1\<rparr>) r)"

definition delivery_before :: "Delivery \<Rightarrow> Delivery \<Rightarrow> bool" where
  "delivery_before x y \<longleftrightarrow> dl_Attempt x < dl_Attempt y \<or> (dl_Attempt x = dl_Attempt y \<and> dl_ID x < dl_ID y)"

definition dr_ListPending :: "string \<Rightarrow> time \<Rightarrow> int \<Rightarrow> delivery_repo \<Rightarrow> Delivery list" where
  "dr_ListPending deviceID now limit r =
     (let items = go_sort delivery_before (filter
            (\<lambda>d. dl_DeviceID d = deviceID \<and> \<not> dl_Terminal d \<and> \<not> (dl_Status d = DeliveryLeased \<and> \<not> Lease now d))
            (gvals (dr_deliveries r))) in
      if limit > 0 then take (nat limit) items else items)"

section \<open>Lemmas\<close>

lemma store_delivery_result:
  "store_delivery ok d r = (if ok then (\<lparr>dr_deliveries = gput (dl_ID d) d (dr_deliveries r),
       dr_file = Some (go_sort (\<lambda>x y. dl_ID x < dl_ID y) (gvals (gput (dl_ID d) d (dr_deliveries r))))\<rparr>, None)
     else (r, Some ErrCmdWrite))"
  by (simp add: store_delivery_def dr_write_def gm.rollback_restores Let_def)

text \<open>What one update does: it succeeds on the expected revision and moves it on, or changes nothing.\<close>

lemma dr_Save_cases:
  "dr_Save ok d v r =
     (case gget (dr_deliveries r) (dl_ID d) of
        None \<Rightarrow> (r, Some ErrCmdNotFound)
      | Some old \<Rightarrow> if dl_Revision old \<noteq> v then (r, Some ErrConflict)
          else if \<not> ok then (r, Some ErrCmdWrite)
          else (fst (store_delivery True (d\<lparr>dl_Revision := v + 1\<rparr>) r), None))"
  by (auto simp: dr_Save_def store_delivery_result split: option.splits)

lemma dr_Save_get:
  assumes "snd (dr_Save ok d v r) = None"
  shows "dr_Get (dl_ID d) (fst (dr_Save ok d v r)) = Inr (d\<lparr>dl_Revision := v + 1\<rparr>)"
    and "k \<noteq> dl_ID d \<Longrightarrow> dr_Get k (fst (dr_Save ok d v r)) = dr_Get k r"
  using assms by (auto simp: dr_Save_cases store_delivery_result dr_Get_def split: option.splits if_splits)

text \<open>Of two updates made against the same revision only one succeeds.\<close>

lemma stale_save_refused:
  assumes "snd (dr_Save ok d v r) = None" and "dl_ID d' = dl_ID d"
  shows "dr_Save ok' d' v (fst (dr_Save ok d v r)) = (fst (dr_Save ok d v r), Some ErrConflict)"
proof -
  have "dr_Get (dl_ID d') (fst (dr_Save ok d v r)) = Inr (d\<lparr>dl_Revision := v + 1\<rparr>)"
    using dr_Save_get(1) [OF assms(1)] assms(2) by simp
  then have "gget (dr_deliveries (fst (dr_Save ok d v r))) (dl_ID d') = Some (d\<lparr>dl_Revision := v + 1\<rparr>)"
    by (simp add: dr_Get_def split: option.splits)
  then show ?thesis by (simp add: dr_Save_cases [of ok' d'])
qed

end
