(* ===== verification/UpgradePlans.thy ===== *)
theory UpgradePlans
  imports Commands
begin

text \<open>
  Upgrade plans, \<open>internal/upgradeplan\<close>: at most one unfinished plan per device, idempotent
  creation, and transitions that compare the revision. The identifier of a new plan, a hash of
  the clock, is an argument.
\<close>

datatype PlanStage =
    StageBridgePending | StageBridgeRunning | StageCapabilityWait | StageTargetPending | StageTargetRunning
  | StageSucceeded | StageFailed | StageCanceled | PlanStageOther string

fun stage_Terminal :: "PlanStage \<Rightarrow> bool" where
  "stage_Terminal StageSucceeded = True"
| "stage_Terminal StageFailed = True"
| "stage_Terminal StageCanceled = True"
| "stage_Terminal _ = False"

datatype plan_error = ErrPlanNotFound | ErrPlanConflict | ErrPlanInProgress | ErrPlanIdempotency | ErrInvalidPlanTransition

record PlanSnapshot =
  ps_TargetVersion :: string
  ps_ReleaseID :: int
  ps_ReleaseTag :: string
  ps_AssetID :: int
  ps_TargetURL :: string
  ps_TargetSHA256 :: string
  ps_TargetManifestDigest :: string
  ps_BridgeVersion :: string
  ps_BridgeURL :: string
  ps_BridgeSHA256 :: string
  ps_InitialSecurityMode :: string
  ps_InitialProtocols :: "int list"
  ps_RequestDigest :: string

record UpgradePlan =
  pl_PlanID :: string
  pl_DeviceID :: string
  pl_RequestedBy :: CmdActor
  pl_IdempotencyKey :: string
  pl_TargetVersion :: string
  pl_TargetManifestDigest :: "string option"
  pl_BridgeVersion :: "string option"
  pl_BridgeCommandID :: "string option"
  pl_TargetCommandID :: "string option"
  pl_Stage :: PlanStage
  pl_FailureReason :: string
  pl_CreatedAt :: time
  pl_UpdatedAt :: time
  pl_Revision :: u64
  pl_Snapshot :: PlanSnapshot

record CreatePlanRequest =
  pr_DeviceID :: string
  pr_RequestedBy :: CmdActor
  pr_IdempotencyKey :: string
  pr_TargetVersion :: string
  pr_TargetManifestDigest :: "string option"
  pr_BridgeVersion :: "string option"
  pr_BridgeCommandID :: "string option"
  pr_TargetCommandID :: "string option"
  pr_InitialStage :: "PlanStage option"
  pr_Snapshot :: PlanSnapshot

type_synonym plan_store = "(string, UpgradePlan) gomap"

definition plan_request_matches :: "CreatePlanRequest \<Rightarrow> UpgradePlan \<Rightarrow> bool" where
  "plan_request_matches q p \<longleftrightarrow> pr_IdempotencyKey q \<noteq> [] \<and> pl_DeviceID p = pr_DeviceID q
     \<and> pl_IdempotencyKey p = pr_IdempotencyKey q \<and> ca_ID (pl_RequestedBy p) = ca_ID (pr_RequestedBy q)"

definition plan_active :: "string \<Rightarrow> UpgradePlan \<Rightarrow> bool" where
  "plan_active dev p \<longleftrightarrow> pl_DeviceID p = dev \<and> \<not> stage_Terminal (pl_Stage p)"

definition new_plan :: "string \<Rightarrow> time \<Rightarrow> CreatePlanRequest \<Rightarrow> UpgradePlan" where
  "new_plan planID now q =
     \<lparr>pl_PlanID = planID, pl_DeviceID = pr_DeviceID q, pl_RequestedBy = pr_RequestedBy q,
      pl_IdempotencyKey = pr_IdempotencyKey q, pl_TargetVersion = pr_TargetVersion q,
      pl_TargetManifestDigest = pr_TargetManifestDigest q, pl_BridgeVersion = pr_BridgeVersion q,
      pl_BridgeCommandID = (case pr_BridgeCommandID q of
          None \<Rightarrow> if pr_BridgeVersion q \<noteq> None then Some (planID @ '':bridge'') else None
        | Some i \<Rightarrow> Some i),
      pl_TargetCommandID = Some (case pr_TargetCommandID q of None \<Rightarrow> planID @ '':target'' | Some i \<Rightarrow> i),
      pl_Stage = (case pr_InitialStage q of Some st \<Rightarrow> st
        | None \<Rightarrow> if pr_BridgeVersion q \<noteq> None then StageBridgePending else StageTargetPending),
      pl_FailureReason = [], pl_CreatedAt = now, pl_UpdatedAt = now, pl_Revision = 1,
      pl_Snapshot = pr_Snapshot q\<rparr>"

definition CreatePlan ::
  "string \<Rightarrow> time \<Rightarrow> CreatePlanRequest \<Rightarrow> plan_store \<Rightarrow> plan_store \<times> (plan_error + UpgradePlan \<times> bool)" where
  "CreatePlan planID now q ps =
     (case find (plan_request_matches q) (gvals ps) of
        Some p \<Rightarrow>
          if ps_RequestDigest (pl_Snapshot p) \<noteq> ps_RequestDigest (pr_Snapshot q) then (ps, Inl ErrPlanIdempotency)
          else (ps, Inr (p, False))
      | None \<Rightarrow>
          if list_ex (plan_active (pr_DeviceID q)) (gvals ps) then (ps, Inl ErrPlanInProgress)
          else (let p = new_plan planID now q in (gput planID p ps, Inr (p, True))))"

definition GetPlan :: "string \<Rightarrow> plan_store \<Rightarrow> plan_error + UpgradePlan" where
  "GetPlan planID ps = (case gget ps planID of None \<Rightarrow> Inl ErrPlanNotFound | Some p \<Rightarrow> Inr p)"

definition GetActivePlanByDevice :: "string \<Rightarrow> plan_store \<Rightarrow> plan_error + UpgradePlan" where
  "GetActivePlanByDevice dev ps =
     (case find (plan_active dev) (gvals ps) of None \<Rightarrow> Inl ErrPlanNotFound | Some p \<Rightarrow> Inr p)"

definition ListPlans :: "string \<Rightarrow> PlanStage option \<Rightarrow> int \<Rightarrow> plan_store \<Rightarrow> UpgradePlan list" where
  "ListPlans dev st limit ps =
     (let out = go_sort (\<lambda>x y. pl_CreatedAt x > pl_CreatedAt y)
            (filter (\<lambda>p. (dev = [] \<or> pl_DeviceID p = dev) \<and> (case st of None \<Rightarrow> True | Some s \<Rightarrow> pl_Stage p = s))
              (gvals ps)) in
      if limit > 0 then take (nat limit) out else out)"

definition TransitionStage ::
  "time \<Rightarrow> string \<Rightarrow> u64 \<Rightarrow> PlanStage \<Rightarrow> string \<Rightarrow> plan_store \<Rightarrow> plan_store \<times> (plan_error + UpgradePlan)" where
  "TransitionStage now planID expectedRev newStage failureReason ps =
     (case gget ps planID of
        None \<Rightarrow> (ps, Inl ErrPlanNotFound)
      | Some p \<Rightarrow>
          if pl_Revision p \<noteq> expectedRev then (ps, Inl ErrPlanConflict)
          else if stage_Terminal (pl_Stage p) then (ps, Inl ErrInvalidPlanTransition)
          else (let p' = p\<lparr>pl_Stage := newStage,
                  pl_FailureReason := (if failureReason \<noteq> [] then failureReason else pl_FailureReason p),
                  pl_UpdatedAt := now, pl_Revision := pl_Revision p + 1\<rparr> in
                (gput planID p' ps, Inr p')))"

definition CancelPlan :: "time \<Rightarrow> string \<Rightarrow> plan_store \<Rightarrow> plan_store \<times> (plan_error + UpgradePlan)" where
  "CancelPlan now planID ps =
     (case gget ps planID of
        None \<Rightarrow> (ps, Inl ErrPlanNotFound)
      | Some p \<Rightarrow>
          if stage_Terminal (pl_Stage p) then (ps, Inl ErrInvalidPlanTransition)
          else (let p' = p\<lparr>pl_Stage := StageCanceled, pl_UpdatedAt := now, pl_Revision := pl_Revision p + 1\<rparr> in
                (gput planID p' ps, Inr p')))"

section \<open>One unfinished plan per device\<close>

definition plans_ok :: "plan_store \<Rightarrow> bool" where
  "plans_ok ps \<longleftrightarrow> wf_map ps \<and> (\<forall>k p. gget ps k = Some p \<longrightarrow> pl_PlanID p = k)
     \<and> (\<forall>k p k' p'. gget ps k = Some p \<longrightarrow> gget ps k' = Some p' \<longrightarrow> pl_DeviceID p = pl_DeviceID p' \<longrightarrow>
          \<not> stage_Terminal (pl_Stage p) \<longrightarrow> \<not> stage_Terminal (pl_Stage p') \<longrightarrow> k = k')"

lemma plans_ok_update:
  assumes "plans_ok ps" and "gget ps k = Some p" and "pl_PlanID p' = k" and "pl_DeviceID p' = pl_DeviceID p"
    and "\<not> stage_Terminal (pl_Stage p)"
  shows "plans_ok (gput k p' ps)"
  using assms unfolding plans_ok_def by (auto split: if_splits)

lemma CreatePlan_ok:
  assumes ok: "plans_ok ps" and fresh: "gget ps i = None"
  shows "plans_ok (fst (CreatePlan i now q ps))"
proof -
  let ?p = "new_plan i now q"
  have "plans_ok (gput i ?p ps)" if "\<not> list_ex (plan_active (pr_DeviceID q)) (gvals ps)"
  proof -
    have old: "pl_DeviceID p = pr_DeviceID q \<Longrightarrow> stage_Terminal (pl_Stage p)" if "gget ps k = Some p" for k p
      using \<open>\<not> list_ex _ _\<close> gget_in_vals [OF that] by (auto simp: list_ex_iff plan_active_def simp del: set_map)
    have "pl_PlanID ?p = i" "pl_DeviceID ?p = pr_DeviceID q" by (simp_all add: new_plan_def)
    with ok old show ?thesis unfolding plans_ok_def by (auto split: if_splits)
  qed
  with ok show ?thesis by (auto simp: CreatePlan_def Let_def split: option.splits)
qed

lemma TransitionStage_ok: "plans_ok ps \<Longrightarrow> plans_ok (fst (TransitionStage now i v st why ps))"
  by (auto simp: TransitionStage_def Let_def plans_ok_def [of ps] split: option.splits
      intro!: plans_ok_update [of ps])

lemma CancelPlan_ok: "plans_ok ps \<Longrightarrow> plans_ok (fst (CancelPlan now i ps))"
  by (auto simp: CancelPlan_def Let_def plans_ok_def [of ps] split: option.splits
      intro!: plans_ok_update [of ps])

datatype plan_op =
    PlanCreate string time CreatePlanRequest | PlanTransition time string u64 PlanStage string | PlanCancel time string

fun plan_step :: "plan_op \<Rightarrow> plan_store \<Rightarrow> plan_store" where
  "plan_step (PlanCreate i now q) ps = fst (CreatePlan i now q ps)"
| "plan_step (PlanTransition now i v st why) ps = fst (TransitionStage now i v st why ps)"
| "plan_step (PlanCancel now i) ps = fst (CancelPlan now i ps)"

text \<open>A run whose new plans get identifiers no plan has.\<close>

fun fresh_plans :: "plan_op list \<Rightarrow> plan_store \<Rightarrow> bool" where
  "fresh_plans [] ps = True"
| "fresh_plans (p # ops) ps =
     ((case p of PlanCreate i _ _ \<Rightarrow> gget ps i = None | _ \<Rightarrow> True) \<and> fresh_plans ops (plan_step p ps))"

lemma plan_run_ok:
  "plans_ok ps \<Longrightarrow> fresh_plans ops ps \<Longrightarrow> plans_ok (fold plan_step ops ps)"
proof (induction ops arbitrary: ps)
  case (Cons p ops)
  then have "plans_ok (plan_step p ps)"
    by (cases p) (auto intro: CreatePlan_ok TransitionStage_ok CancelPlan_ok)
  with Cons show ?case by simp
qed simp

text \<open>
  C34: However plans are created, moved between stages and cancelled, a device never has two
  unfinished upgrade plans, when every new plan gets an identifier no plan has.
\<close>

theorem one_unfinished_plan:
  assumes "fresh_plans ops []"
    and "gget (fold plan_step ops []) k = Some p" and "gget (fold plan_step ops []) k' = Some p'"
    and "pl_DeviceID p = pl_DeviceID p'"
    and "\<not> stage_Terminal (pl_Stage p)" and "\<not> stage_Terminal (pl_Stage p')"
  shows "k = k' \<and> p = p'"
proof -
  have "plans_ok []" by (simp add: plans_ok_def)
  then have "plans_ok (fold plan_step ops [])" using assms(1) by (rule plan_run_ok)
  with assms show ?thesis unfolding plans_ok_def by fastforce
qed

definition some_plan_request :: "string \<Rightarrow> string \<Rightarrow> CreatePlanRequest" where
  "some_plan_request dev version =
     \<lparr>pr_DeviceID = dev, pr_RequestedBy = \<lparr>ca_Type = ''user'', ca_ID = ''u1'', ca_DisplayName = []\<rparr>,
      pr_IdempotencyKey = [], pr_TargetVersion = version, pr_TargetManifestDigest = None, pr_BridgeVersion = None,
      pr_BridgeCommandID = None, pr_TargetCommandID = None, pr_InitialStage = None,
      pr_Snapshot = \<lparr>ps_TargetVersion = version, ps_ReleaseID = 1, ps_ReleaseTag = [], ps_AssetID = 1, ps_TargetURL = [],
        ps_TargetSHA256 = [], ps_TargetManifestDigest = [], ps_BridgeVersion = [], ps_BridgeURL = [],
        ps_BridgeSHA256 = [], ps_InitialSecurityMode = [], ps_InitialProtocols = [], ps_RequestDigest = []\<rparr>\<rparr>"

text \<open>A plan, a refused second one, the cancellation of the first and a plan that may then start.\<close>

definition some_plan_run :: "plan_op list" where
  "some_plan_run = [PlanCreate ''p1'' 10 (some_plan_request ''d1'' ''v1''), PlanCreate ''p2'' 20 (some_plan_request ''d1'' ''v2''),
     PlanCancel 30 ''p1'', PlanCreate ''p3'' 40 (some_plan_request ''d1'' ''v2'')]"

lemma one_unfinished_plan_witness:
  "map pl_Stage (gvals (fold plan_step some_plan_run [])) = [StageCanceled, StageTargetPending]
   \<and> (\<forall>k. (case gget (fold plan_step some_plan_run []) k of
          None \<Rightarrow> True | Some p \<Rightarrow> stage_Terminal (pl_Stage p) \<or> k = ''p3''))"
proof -
  let ?ps = "fold plan_step some_plan_run []"
  have fresh: "fresh_plans some_plan_run []"
    and stages: "map pl_Stage (gvals ?ps) = [StageCanceled, StageTargetPending]"
    and p3: "map_option pl_Stage (gget ?ps ''p3'') = Some StageTargetPending"
    and devs: "\<forall>p \<in> set (gvals ?ps). pl_DeviceID p = ''d1''"
    by code_simp+
  from p3 obtain q where q: "gget ?ps ''p3'' = Some q" "pl_Stage q = StageTargetPending" by auto
  have "stage_Terminal (pl_Stage p) \<or> k = ''p3''" if "gget ?ps k = Some p" for k p
  proof -
    from devs gget_in_vals [OF that] gget_in_vals [OF q(1)]
    have "pl_DeviceID p = pl_DeviceID q" by (metis)
    then show ?thesis using one_unfinished_plan [OF fresh that q(1)] q(2) by auto
  qed
  then show ?thesis using stages by (auto split: option.splits)
qed

end
