(* ===== verification/Acl.thy ===== *)
theory Acl
  imports Registry
begin

text \<open>
  The access policy between devices, \<open>internal/acl/acl.go\<close>: the reader of the policy file, line by
  line, and the devices whose keys a target accepts. A file that does not exist allows everything.
  \<open>Load\<close> returns the policy read so far beside the error.
\<close>

record Policy =
  pol_DefaultAllow :: bool
  pol_Devices :: "(string, string list) gomap"

datatype acl_error = ErrAclOpen | ErrInvalidDefaultPolicy string | ErrAclScan

datatype policy_file = PolicyAbsent | PolicyUnreadable | PolicyText string

definition allow_all_policy :: Policy where
  "allow_all_policy = \<lparr>pol_DefaultAllow = True, pol_Devices = []\<rparr>"

text \<open>\<open>strings.TrimRight(s, " \t\r")\<close>, \<open>strings.TrimLeft(s, " ")\<close> and the part before the first \<open>#\<close>.\<close>

definition trim_right_blank :: "string \<Rightarrow> string" where
  "trim_right_blank s = rev (dropWhile (\<lambda>c. c \<in> {CHR '' '', CHR 0x09, CHR 0x0D}) (rev s))"

definition indent_of :: "string \<Rightarrow> nat" where
  "indent_of line = length (takeWhile (\<lambda>c. c = CHR '' '') line)"

definition strip_comment :: "string \<Rightarrow> string" where
  "strip_comment line = takeWhile (\<lambda>c. c \<noteq> CHR ''#'') line"

record load_state =
  lo_policy :: Policy
  lo_target :: string
  lo_inAllow :: bool

definition allowed_of :: "Policy \<Rightarrow> string \<Rightarrow> string list" where
  "allowed_of p t = (case gget (pol_Devices p) t of None \<Rightarrow> [] | Some ids \<Rightarrow> ids)"

definition load_line :: "string \<Rightarrow> load_state \<Rightarrow> load_state \<times> acl_error option" where
  "load_line txt st =
     (let line = trim_right_blank txt; trim = trim_space (strip_comment line);
          indent = indent_of line; p = lo_policy st in
      if trim = [] then (st, None)
      else if has_prefix trim ''default_policy:'' then
        (let v = trim_space (trim_prefix trim ''default_policy:'') in
         if v \<noteq> ''allow_all'' \<and> v \<noteq> ''deny'' then (st, Some (ErrInvalidDefaultPolicy v))
         else (st\<lparr>lo_policy := p\<lparr>pol_DefaultAllow := (v = ''allow_all'')\<rparr>\<rparr>, None))
      else if indent = 2 \<and> has_suffix trim '':'' \<and> trim \<noteq> ''devices:'' then
        (let t = trim_suffix trim '':'' in
         (st\<lparr>lo_target := t, lo_policy := p\<lparr>pol_Devices := gput t [] (pol_Devices p)\<rparr>, lo_inAllow := False\<rparr>, None))
      else if indent = 4 \<and> trim = ''allow:'' then (st\<lparr>lo_inAllow := True\<rparr>, None)
      else if indent \<ge> 6 \<and> lo_inAllow st \<and> has_prefix trim ''-'' then
        (st\<lparr>lo_policy := p\<lparr>pol_Devices := gput (lo_target st)
               (allowed_of p (lo_target st) @ [trim_space (trim_prefix trim ''-'')]) (pol_Devices p)\<rparr>\<rparr>, None)
      else (st, None))"

fun load_lines :: "string list \<Rightarrow> load_state \<Rightarrow> load_state \<times> acl_error option" where
  "load_lines [] st = (st, None)"
| "load_lines (l # ls) st =
     (case load_line l st of (st', Some e) \<Rightarrow> (st', Some e) | (st', None) \<Rightarrow> load_lines ls st')"

definition Load :: "policy_file \<Rightarrow> Policy \<times> acl_error option" where
  "Load fl = (case fl of
      PolicyAbsent \<Rightarrow> (allow_all_policy, None)
    | PolicyUnreadable \<Rightarrow> (allow_all_policy, Some ErrAclOpen)
    | PolicyText txt \<Rightarrow>
        (let (ls, complete) = scan_lines txt;
             (st, err) = load_lines ls \<lparr>lo_policy = allow_all_policy, lo_target = [], lo_inAllow = False\<rparr> in
         (lo_policy st, case err of Some e \<Rightarrow> Some e | None \<Rightarrow> if complete then None else Some ErrAclScan)))"

definition Resolve :: "Policy \<Rightarrow> string \<Rightarrow> Device list \<Rightarrow> Device list" where
  "Resolve p target devs =
     (let explicit = (gget (pol_Devices p) target \<noteq> None); allowed = allowed_of p target in
      filter (\<lambda>d. d_ID d = target \<or> (explicit \<and> d_ID d \<in> set allowed)
                 \<or> (\<not> explicit \<and> pol_DefaultAllow p)) devs)"

end
