(* ===== verification/KeySync.thy ===== *)
theory KeySync
  imports Acl
begin

text \<open>
  The public keys of the devices: the managed block an agent keeps in its \<open>authorized_keys\<close> file
  (\<open>internal/sshsync/managed.go\<close>, \<open>file.go\<close>), the hash of a key set, and the payload the server
  sends a device (\<open>resolveDeviceKeySyncPayload\<close> in \<open>internal/api/api.go\<close>). SHA-256 is an argument;
  a private key is recognised by its marker as in the code. A file's text is read as lines.
\<close>

record Key =
  k_DeviceID :: string
  k_PublicKey :: string

record KeySyncPayload =
  ks_Version :: int
  ks_Hash :: string
  ks_Keys :: "Key list"

definition BeginMark :: string where "BeginMark = ''# BEGIN HOMEAGENT MANAGED''"
definition EndMark :: string where "EndMark = ''# END HOMEAGENT MANAGED''"

datatype block_error =
    ErrPrivateKey | ErrMissingBody | ErrUnsupportedAlgorithm | ErrInvalidBody
  | ErrMultipleBlocks | ErrMalformedBlock

section \<open>Fields of a key\<close>

text \<open>\<open>strings.Fields\<close>: the maximal pieces without white space.\<close>

definition starts_space :: "string \<Rightarrow> bool" where
  "starts_space s \<longleftrightarrow> strip_one space_runes s \<noteq> s"

fun word_of :: "string \<Rightarrow> string" where
  "word_of [] = []"
| "word_of (c # cs) = (if starts_space (c # cs) then [] else c # word_of cs)"

lemma word_of_length: "length (word_of s) \<le> length s"
  by (induction s) auto

lemma strip_all_length: "length (strip_all ps s) \<le> length s"
proof (induction ps s rule: strip_all.induct)
  case (1 ps s)
  then show ?case using strip_one_length [of ps s] by (subst strip_all.simps) auto
qed

lemma strip_all_fix: "strip_one ps (strip_all ps s) = strip_all ps s"
proof (induction ps s rule: strip_all.induct)
  case (1 ps s)
  then show ?case
    by (cases "strip_one ps s = s") (simp_all add: strip_all.simps [of ps s])
qed

function fields :: "string \<Rightarrow> string list" where
  "fields s = (let t = strip_all space_runes s in
     if t = [] then [] else word_of t # fields (drop (length (word_of t)) t))"
  by pat_completeness auto
termination
proof (relation "measure length")
  fix s t assume t: "t = strip_all space_runes s" "t \<noteq> []"
  from t(2) obtain c cs where c: "t = c # cs" by (cases t) simp_all
  moreover have "\<not> starts_space t" using strip_all_fix t by (simp add: starts_space_def)
  ultimately have "word_of t \<noteq> []" by simp
  then have "0 < length (word_of t)" by simp
  moreover have "0 < length t" "length t \<le> length s"
    using t strip_all_length [of space_runes s] by simp_all
  ultimately have "length t - length (word_of t) < length s" by linarith
  then show "(drop (length (word_of t)) t, s) \<in> measure length" by simp
qed simp

declare fields.simps [simp del]

definition allowedAlgorithms :: "string list" where
  "allowedAlgorithms = [''ssh-ed25519'', ''ssh-rsa'', ''ecdsa-sha2-nistp256'', ''ecdsa-sha2-nistp384'',
     ''ecdsa-sha2-nistp521'']"

text \<open>What \<open>base64.StdEncoding\<close> decodes (the text has no line breaks): quadruples, the last one padded.\<close>

definition base64_char :: "char \<Rightarrow> bool" where
  "base64_char c \<longleftrightarrow> (CHR ''A'' \<le> c \<and> c \<le> CHR ''Z'') \<or> (CHR ''a'' \<le> c \<and> c \<le> CHR ''z'')
     \<or> (CHR ''0'' \<le> c \<and> c \<le> CHR ''9'') \<or> c = CHR ''+'' \<or> c = CHR ''/''"

definition base64_std_ok :: "string \<Rightarrow> bool" where
  "base64_std_ok s \<longleftrightarrow> length s mod 4 = 0
     \<and> (let body = takeWhile (\<lambda>c. c \<noteq> CHR ''='') s; pad = drop (length body) s in
        list_all base64_char body \<and> length pad \<le> 2 \<and> list_all (\<lambda>c. c = CHR ''='') pad)"

definition validatePublicKey :: "string \<Rightarrow> block_error + string list" where
  "validatePublicKey raw =
     (if contains raw ''-----BEGIN'' \<or> contains raw ''PRIVATE KEY-----''
         \<or> list_ex (\<lambda>c. c \<in> {carriage_return, newline, CHR 0x00}) raw then Inl ErrPrivateKey
      else
        (let fs = fields raw in
         if length fs < 2 then Inl ErrMissingBody
         else
           (let rest = dropWhile (\<lambda>f. f \<notin> set allowedAlgorithms) fs in
            if length rest < 2 then Inl ErrUnsupportedAlgorithm
            else if \<not> base64_std_ok (rest ! 1) then Inl ErrInvalidBody
            else Inr rest)))"

definition sanitizeComment :: "string \<Rightarrow> string" where
  "sanitizeComment s = map (\<lambda>c. if c \<in> {CHR '' '', CHR 0x09, carriage_return, newline} then CHR ''-'' else c) s"

text \<open>The lines of a key set: one per identity, in the order of the keys.\<close>

fun block_lines :: "Key list \<Rightarrow> string list \<Rightarrow> block_error + string list" where
  "block_lines [] seen = Inr []"
| "block_lines (k # ks) seen =
     (case validatePublicKey (k_PublicKey k) of
        Inl e \<Rightarrow> Inl e
      | Inr fs \<Rightarrow>
          (let ident = fs ! 0 @ '' '' @ fs ! 1 in
           if ident \<in> set seen then block_lines ks seen
           else (case block_lines ks (ident # seen) of
                   Inl e \<Rightarrow> Inl e
                 | Inr ls \<Rightarrow> Inr ((ident @ '' '' @ sanitizeComment (k_DeviceID k)) # ls))))"

fun hash_lines :: "Key list \<Rightarrow> string list \<Rightarrow> string list" where
  "hash_lines [] seen = []"
| "hash_lines (k # ks) seen =
     (let fs = fields (k_PublicKey k) in
      if length fs < 2 then hash_lines ks seen
      else
        (let ident = fs ! 0 @ '' '' @ fs ! 1 in
         if ident \<in> set seen then hash_lines ks seen
         else (ident @ '' '' @ sanitizeComment (k_DeviceID k)) # hash_lines ks (ident # seen)))"

fun join_lines :: "string list \<Rightarrow> string" where
  "join_lines [] = []"
| "join_lines [l] = l"
| "join_lines (l # ls) = l @ [newline] @ join_lines ls"

definition ComputeKeySetHash :: "(string \<Rightarrow> string) \<Rightarrow> Key list \<Rightarrow> string" where
  "ComputeKeySetHash sha256hex ks = sha256hex (join_lines (go_sort (<) (hash_lines ks [])))"

section \<open>The managed block\<close>

text \<open>
  The positions of the two marks: the loop over the lines, with the first one still to come at
  index \<open>i\<close>.
\<close>

fun find_marks :: "string list \<Rightarrow> nat \<Rightarrow> nat option \<Rightarrow> nat option \<Rightarrow> block_error + (nat option \<times> nat option)" where
  "find_marks [] i st en = Inr (st, en)"
| "find_marks (l # ls) i st en =
     (if l = BeginMark \<and> st \<noteq> None then Inl ErrMultipleBlocks
      else
        (let st1 = (if l = BeginMark then Some i else st) in
         if l = EndMark then
           (if st1 = None \<or> en \<noteq> None then Inl ErrMalformedBlock else find_marks ls (Suc i) st1 (Some i))
         else find_marks ls (Suc i) st1 en))"

text \<open>\<open>scanLines\<close> drops a final newline and one more carriage return per line than the scanner.\<close>

definition scanLines :: "string \<Rightarrow> string list" where
  "scanLines b =
     (let b1 = trim_suffix b [newline] in
      if b1 = [] then [] else map drop_cr (fst (scan_lines b1)))"

definition UpdateManagedBlock :: "string \<Rightarrow> Key list \<Rightarrow> block_error + string" where
  "UpdateManagedBlock existing ks =
     (case block_lines ks [] of
        Inl e \<Rightarrow> Inl e
      | Inr block \<Rightarrow>
          (let lines = scanLines existing in
           (case find_marks lines 0 None None of
              Inl e \<Rightarrow> Inl e
            | Inr (st, en) \<Rightarrow>
                (if (st \<noteq> None) \<noteq> (en \<noteq> None) then Inl ErrMalformedBlock
                 else
                   (let replacement = [BeginMark] @ block @ [EndMark] in
                    (case (st, en) of
                       (Some s, Some e) \<Rightarrow>
                         (if e < s then Inl ErrMalformedBlock
                          else Inr (unlines (take s lines @ replacement @ drop (Suc e) lines)))
                     | _ \<Rightarrow>
                         (let lines' = (if lines \<noteq> [] \<and> last lines \<noteq> [] then lines @ [[]] else lines) in
                          Inr (unlines (lines' @ replacement)))))))))"

section \<open>The managed file\<close>

text \<open>
  \<open>ApplyManagedFile\<close>: the file (absent, a symbolic link, unreadable, or its text), and whether the
  replacement of the file succeeds. It answers whether the file changed, or an error.
\<close>

datatype key_file = KeysAbsent | KeysSymlink | KeysUnreadable | KeysText string

datatype apply_error = ErrSymlink | ErrReadKeys | ErrBlock block_error | ErrReplace

definition ApplyManagedFile :: "bool \<Rightarrow> key_file \<Rightarrow> Key list \<Rightarrow> key_file \<times> (apply_error + bool)" where
  "ApplyManagedFile ok fl ks =
     (case fl of
        KeysSymlink \<Rightarrow> (fl, Inl ErrSymlink)
      | KeysUnreadable \<Rightarrow> (fl, Inl ErrReadKeys)
      | _ \<Rightarrow>
          (let original = (case fl of KeysText t \<Rightarrow> t | _ \<Rightarrow> []) in
           (case UpdateManagedBlock original ks of
              Inl e \<Rightarrow> (fl, Inl (ErrBlock e))
            | Inr updated \<Rightarrow>
                if updated = original then (fl, Inr False)
                else if ok then (KeysText updated, Inr True)
                else (fl, Inl ErrReplace))))"

section \<open>The payload of a device\<close>

definition payload_keys :: "string \<Rightarrow> Policy \<Rightarrow> string \<Rightarrow> Registry \<Rightarrow> Key list" where
  "payload_keys adminKey policy targetID r =
     (if adminKey \<noteq> [] then [\<lparr>k_DeviceID = ''homeagent-admin'', k_PublicKey = adminKey\<rparr>] else [])
     @ map (\<lambda>d. \<lparr>k_DeviceID = d_ID d, k_PublicKey = d_PublicKey d\<rparr>) (Resolve policy targetID (List r))"

definition resolveDeviceKeySyncPayload ::
  "(string \<Rightarrow> string) \<Rightarrow> policy_file \<Rightarrow> string \<Rightarrow> int \<Rightarrow> string \<Rightarrow> Registry \<Rightarrow> reg_error + KeySyncPayload"
where
  "resolveDeviceKeySyncPayload sha256hex fl adminKey version targetID r =
     (case Get targetID r of
        Inl e \<Rightarrow> Inl e
      | Inr _ \<Rightarrow>
          (let policy = fst (Load fl); ks = payload_keys adminKey policy targetID r in
           Inr \<lparr>ks_Version = (if version = 0 then 1 else version),
                ks_Hash = ComputeKeySetHash sha256hex ks, ks_Keys = ks\<rparr>))"

text \<open>The keys the SSH controller sends (\<open>SyncDevice\<close> in \<open>ssh.go\<close>, up to the connection): an error of the policy stops it.\<close>

definition sync_keys :: "policy_file \<Rightarrow> string \<Rightarrow> string \<Rightarrow> Registry \<Rightarrow> string + Key list" where
  "sync_keys fl adminKey targetID r =
     (case Get targetID r of
        Inl e \<Rightarrow> Inl ''device not found''
      | Inr _ \<Rightarrow>
          (case Load fl of
             (_, Some e) \<Rightarrow> Inl ''invalid policy''
           | (policy, None) \<Rightarrow> Inr (payload_keys adminKey policy targetID r)))"

end
