(* ===== verification/Dispatch.thy ===== *)
theory Dispatch
  imports CommandRepoInv EventStream Deliveries UpgradePlans KeySync
begin

text \<open>
  The server's handling of commands on their way to a device and back, from \<open>internal/api/api.go\<close>:
  the dispatch of a command over the broker, the recovery of queued commands when a device
  reconnects, and the acknowledgement handler with the projection of outcomes to the registry.

  It composes the command service (over any repository), the delivery store, the broker, the
  registry and the upgrade plans, all of them configured. The encoding and decoding of JSON texts
  are arguments. A publish never panics here: \<open>broker_panics_iff\<close> leaves the late unsubscribe as
  the broker's only panic, so \<open>publish\<close> keeps the broker and the number of listeners alone.
\<close>

record 's server =
  sv_commands :: 's
  sv_deliveries :: "delivery_repo option"
  sv_broker :: Broker
  sv_registry :: Registry
  sv_plans :: "plan_store option"
  sv_version :: int
  sv_CommandTimeouts :: "(Kind, TimeoutPolicy) gomap"

record AckRequest =
  aq_CommandID :: string
  aq_Module :: string
  aq_Status :: string
  aq_AppliedVersion :: int
  aq_AppliedHash :: string
  aq_ErrorMessage :: string
  aq_SSHFingerprint :: string
  aq_GitHubVersion :: int
  aq_Result :: string
  aq_ErrorCode :: string
  aq_Sequence :: "u64 option"
  aq_Phase :: string
  aq_OccurredAt :: "time option"
  aq_PhaseResult :: string

text \<open>
  What a handler meets. \<open>de_Cmd\<close> is the environment of each call of the command service, by a
  label of the call; \<open>de_DeliveryOK\<close> whether each write of a delivery succeeds. The texts:
  \<open>de_Envelope raw i protocol mode\<close> adds the command's fields to the JSON object \<open>raw\<close> (\<open>None\<close>
  when \<open>raw\<close> is no object), \<open>de_AckResult\<close> is the text of \<open>resultForAck\<close>, the others read or
  write the fields their names say. \<open>de_GitHub\<close> is the GitHub service: \<open>None\<close> when it is missing
  or not connected, else the payload it resolves, as its version, hash and text.
\<close>

record dispatch_env =
  de_Cmd :: "string \<Rightarrow> cmd_env"
  de_DeliveryOK :: "nat \<Rightarrow> bool"
  de_Now :: time
  de_Unix :: int
  de_Reg :: reg_env
  de_Envelope :: "string \<Rightarrow> string \<Rightarrow> int \<Rightarrow> string \<Rightarrow> string option"
  de_Sha256 :: "string \<Rightarrow> string"
  de_Policy :: policy_file
  de_AdminKey :: string
  de_PayloadJSON :: "KeySyncPayload \<Rightarrow> string"
  de_GitHub :: "(string + int \<times> string \<times> string) option"
  de_SyncJSON :: "int \<Rightarrow> string \<Rightarrow> string"
  de_ReasonJSON :: "string \<Rightarrow> string"
  de_RevokeJSON :: "string \<Rightarrow> string"
  de_AckResult :: "Kind \<Rightarrow> AckRequest \<Rightarrow> Status \<Rightarrow> string"
  de_PhaseDigests :: "string \<Rightarrow> string \<times> string \<times> string"
  de_KeyResult :: "string \<Rightarrow> string + int \<times> string"
  de_SyncResult :: "string \<Rightarrow> string + string"
  de_RegText :: "reg_error \<Rightarrow> string"

section \<open>Dispatching\<close>

definition supportsControlProtocol :: "Device \<Rightarrow> int \<Rightarrow> bool" where
  "supportsControlProtocol d want = (case d_ControlProtocols d of None \<Rightarrow> False | Some vs \<Rightarrow> want \<in> set vs)"

text \<open>The delivery record of a dispatched command: created, leased and marked as sent.\<close>

definition record_delivery ::
  "dispatch_env \<Rightarrow> Command \<Rightarrow> delivery_repo \<Rightarrow> delivery_repo \<times> command_error option" where
  "record_delivery env c dr =
     (let now = de_Now env;
          d = \<lparr>dl_ID = c_ID c @ '':1'', dl_CommandID = c_ID c, dl_DeviceID = c_DeviceID c, dl_Attempt = 0,
               dl_Status = DeliveryPending, dl_LeaseUntil = None, dl_SentAt = None, dl_AcceptedAt = None,
               dl_CompletedAt = None, dl_LastEventID = [], dl_ErrorCode = [], dl_Revision = 0\<rparr> in
      case dr_Create (de_DeliveryOK env 0) d dr of
        (dr1, Some e) \<Rightarrow> (dr1, Some e)
      | (dr1, None) \<Rightarrow>
          (case dr_Get (dl_ID d) dr1 of
             Inl e \<Rightarrow> (dr1, Some e)
           | Inr stored \<Rightarrow>
               (case RenewLease now (tp_Accept (c_TimeoutPolicy c)) stored of
                  Inl e \<Rightarrow> (dr1, Some e)
                | Inr leased \<Rightarrow>
                    (case dr_Save (de_DeliveryOK env 1) leased (dl_Revision stored) dr1 of
                       (dr2, Some e) \<Rightarrow> (dr2, Some e)
                     | (dr2, None) \<Rightarrow>
                         (let leased' = leased\<lparr>dl_Revision := dl_Revision stored + 1\<rparr> in
                          (case MarkSent now (c_ID c) leased' of
                             Inl e \<Rightarrow> (dr2, Some e)
                           | Inr sent \<Rightarrow> dr_Save (de_DeliveryOK env 2) sent (dl_Revision leased') dr2))))))"

definition finishDispatch ::
  "'s cmd_repository \<Rightarrow> dispatch_env \<Rightarrow> Command \<Rightarrow> nat \<Rightarrow> 's server
     \<Rightarrow> 's server \<times> (Command option \<times> command_error option)" where
  "finishDispatch rp env c listeners sv =
     (if listeners = 0 then
        (let (s, res) = Requeue rp (de_Cmd env ''requeue'') (c_ID c) (sv_commands sv) in
         (sv\<lparr>sv_commands := s\<rparr>, as_pair res))
      else
        (let (sv1, derr) = (case sv_deliveries sv of
               None \<Rightarrow> (sv, None)
             | Some dr \<Rightarrow> (let (dr', e) = record_delivery env c dr in (sv\<lparr>sv_deliveries := Some dr'\<rparr>, e))) in
         case derr of
           Some e \<Rightarrow> (sv1, (Some c, Some e))
         | None \<Rightarrow>
             (let (s, res) = DispatchResult rp (de_Cmd env ''result'') (c_ID c) True (sv_commands sv1);
                  sv2 = sv1\<lparr>sv_commands := s\<rparr> in
              case res of
                Inl e \<Rightarrow> (sv2, (None, Some e))
              | Inr updated \<Rightarrow>
                  (case Get (c_DeviceID c) (sv_registry sv2) of
                     Inr d \<Rightarrow>
                       if \<not> supportsControlProtocol d 1 then
                         (let (s', res') = MarkLegacy rp (de_Cmd env ''legacy'') (c_ID c) (sv_commands sv2) in
                          (sv2\<lparr>sv_commands := s'\<rparr>, as_pair res'))
                       else (sv2, (Some updated, None))
                   | Inl _ \<Rightarrow> (sv2, (Some updated, None))))))"

text \<open>The event a command is published as; its identifier is the command's.\<close>

definition command_event :: "string \<Rightarrow> Command \<Rightarrow> string \<Rightarrow> Event" where
  "command_event eventType c payload =
     \<lparr>ev_Type = eventType, ev_Data = payload, ev_ID = c_ID c, ev_Timestamp = 0\<rparr>"

definition publish :: "dispatch_env \<Rightarrow> string \<Rightarrow> Event \<Rightarrow> 's server \<Rightarrow> 's server \<times> nat" where
  "publish env dev ev sv =
     (let (b, n, _) = Publish (de_Unix env) dev ev (sv_broker sv) in (sv\<lparr>sv_broker := b\<rparr>, n))"

definition requeue_quietly :: "'s cmd_repository \<Rightarrow> dispatch_env \<Rightarrow> string \<Rightarrow> 's server \<Rightarrow> 's server" where
  "requeue_quietly rp env i sv =
     sv\<lparr>sv_commands := fst (Requeue rp (de_Cmd env ''requeue'') i (sv_commands sv))\<rparr>"

text \<open>
  One queued command of a device that has reconnected, and all of them: \<open>envs\<close> is what the handling
  of each command meets, by its identifier.
\<close>

definition recover_command :: "'s cmd_repository \<Rightarrow> dispatch_env \<Rightarrow> string \<Rightarrow> Command \<Rightarrow> 's server \<Rightarrow> 's server" where
  "recover_command rp env dev item sv =
     (let (s, res) = StartDispatch rp (de_Cmd env ''start'') (c_ID item) (sv_commands sv);
          sv1 = sv\<lparr>sv_commands := s\<rparr> in
      case res of
        Inl _ \<Rightarrow> sv1
      | Inr started \<Rightarrow>
          (case de_Envelope env (c_Request started) (c_ID started) (c_Protocol started) ''two_phase'' of
             None \<Rightarrow> requeue_quietly rp env (c_ID started) sv1
           | Some payload \<Rightarrow>
               (let (sv2, listeners) =
                      publish env dev (command_event (kind_string (c_Kind started)) started payload) sv1;
                    (sv3, _, err) = finishDispatch rp env started listeners sv2 in
                if err \<noteq> None \<and> listeners = 0 then requeue_quietly rp env (c_ID started) sv3 else sv3)))"

definition recoverQueuedCommands ::
  "'s cmd_repository \<Rightarrow> (string \<Rightarrow> dispatch_env) \<Rightarrow> string \<Rightarrow> 's server \<Rightarrow> 's server" where
  "recoverQueuedCommands rp envs dev sv =
     (if \<not> IsConnected dev (sv_broker sv) then sv
      else (case QueuedForDevice rp dev 32 (sv_commands sv) of
              Inl _ \<Rightarrow> sv
            | Inr items \<Rightarrow> fold (\<lambda>c. recover_command rp (envs (c_ID c)) dev c) items sv))"

text \<open>
  \<open>prepareCommand\<close>: a command is created and moved to dispatching, and its wire payload gets the
  command's fields; \<open>None\<close> for a command that existed already, which is not sent again. The stored
  request is that of \<open>q\<close>. \<open>ack_mode\<close> is that of the device's protocols.
\<close>

definition ack_mode :: "string \<Rightarrow> 's server \<Rightarrow> string" where
  "ack_mode dev sv = (case Get dev (sv_registry sv) of
      Inr d \<Rightarrow> if supportsControlProtocol d 1 then ''two_phase'' else ''legacy''
    | Inl _ \<Rightarrow> ''legacy'')"

definition prepareCommand ::
  "'s cmd_repository \<Rightarrow> dispatch_env \<Rightarrow> CreateRequest \<Rightarrow> string \<Rightarrow> 's server
     \<Rightarrow> 's server \<times> (command_error + Command \<times> string option)" where
  "prepareCommand rp env q wirePayload sv =
     (let (s, res) = svc_Create rp (de_Cmd env ''create'') q (sv_commands sv);
          sv1 = sv\<lparr>sv_commands := s\<rparr> in
      case res of
        Inl e \<Rightarrow> (sv1, Inl e)
      | Inr (c, created) \<Rightarrow>
          if \<not> created then (sv1, Inr (c, None))
          else
            (let (s2, res2) = StartDispatch rp (de_Cmd env ''start'') (c_ID c) (sv_commands sv1);
                 sv2 = sv1\<lparr>sv_commands := s2\<rparr> in
             case res2 of
               Inl e \<Rightarrow> (sv2, Inl e)
             | Inr c2 \<Rightarrow>
                 (case de_Envelope env wirePayload (c_ID c2) 1 (ack_mode (cq_DeviceID q) sv2) of
                    None \<Rightarrow> (sv2, Inl ErrCmdWrite)
                  | Some wire \<Rightarrow> (sv2, Inr (c2, Some wire)))))"

text \<open>
  The publication of a prepared command, with the number of connections that took it: none and no
  change for a command that existed already. The last part is the answer of \<open>finishDispatch\<close>.
\<close>

definition publish_prepared ::
  "'s cmd_repository \<Rightarrow> dispatch_env \<Rightarrow> string \<Rightarrow> string \<Rightarrow> Command \<Rightarrow> string option \<Rightarrow> 's server
     \<Rightarrow> 's server \<times> nat \<times> (Command option \<times> command_error option)" where
  "publish_prepared rp env dev eventType c wire sv =
     (case wire of
        None \<Rightarrow> (sv, 0, (Some c, None))
      | Some payload \<Rightarrow>
          (let (sv1, listeners) = publish env dev (command_event eventType c payload) sv;
               (sv2, res) = finishDispatch rp env c listeners sv1 in
           (sv2, listeners, res)))"

text \<open>A command the server issues itself: the same steps, with the kind as the event's type.\<close>

definition dispatchSystemCommand ::
  "'s cmd_repository \<Rightarrow> dispatch_env \<Rightarrow> Kind \<Rightarrow> string \<Rightarrow> string \<Rightarrow> string \<Rightarrow> string \<Rightarrow> TimeoutPolicy
     \<Rightarrow> 's server \<Rightarrow> 's server \<times> (Command option \<times> command_error option)" where
  "dispatchSystemCommand rp env kind deviceID wirePayload safeRequest idempotencyKey policy sv =
     (case prepareCommand rp env
         \<lparr>cq_Kind = kind, cq_DeviceID = deviceID,
          cq_RequestedBy = \<lparr>ca_Type = ''system'', ca_ID = ''homeagent-server'', ca_DisplayName = []\<rparr>,
          cq_IdempotencyKey = idempotencyKey, cq_Request = safeRequest, cq_TimeoutPolicy = policy, cq_Protocol = 1\<rparr>
         wirePayload sv of
        (sv1, Inl e) \<Rightarrow> (sv1, (None, Some e))
      | (sv1, Inr (c, wire)) \<Rightarrow>
          (let (sv2, _, res) = publish_prepared rp env deviceID (kind_string kind) c wire sv1 in (sv2, res)))"

definition commandTimeout :: "'s server \<Rightarrow> Kind \<Rightarrow> duration \<Rightarrow> TimeoutPolicy" where
  "commandTimeout sv kind finish = (case gget (sv_CommandTimeouts sv) kind of
      Some configured \<Rightarrow>
        if tp_Accept configured > 0 \<and> tp_Finish configured > 0 then configured
        else \<lparr>tp_Accept = seconds 15, tp_Finish = finish\<rparr>
    | None \<Rightarrow> \<lparr>tp_Accept = seconds 15, tp_Finish = finish\<rparr>)"

text \<open>The synchronisation and the removal of GitHub credentials, as commands of the server.\<close>

definition pushGitHubSync :: "'s cmd_repository \<Rightarrow> dispatch_env \<Rightarrow> string \<Rightarrow> 's server \<Rightarrow> 's server" where
  "pushGitHubSync rp env deviceID sv = (case de_GitHub env of
      None \<Rightarrow> sv
    | Some (Inl _) \<Rightarrow> sv
    | Some (Inr (version, hash, payload)) \<Rightarrow>
        fst (dispatchSystemCommand rp env KindGitHubSync deviceID payload (de_SyncJSON env version hash)
               (''github-sync-'' @ int_text version @ ''-'' @ hash) (commandTimeout sv KindGitHubSync (minutes 2)) sv))"

definition pushGitHubRevoke :: "'s cmd_repository \<Rightarrow> dispatch_env \<Rightarrow> string \<Rightarrow> string \<Rightarrow> 's server \<Rightarrow> 's server" where
  "pushGitHubRevoke rp env deviceID reason sv =
     fst (dispatchSystemCommand rp env KindGitHubRevoke deviceID (de_RevokeJSON env reason)
            (de_ReasonJSON env reason) (''github-revoke-'' @ reason) (commandTimeout sv KindGitHubRevoke (minutes 2)) sv)"

text \<open>A push of the current keys that is no command: the event has no identifier of its own.\<close>

definition pushKeySync :: "dispatch_env \<Rightarrow> string \<Rightarrow> 's server \<Rightarrow> 's server \<times> reg_error option" where
  "pushKeySync env dev sv =
     (case resolveDeviceKeySyncPayload (de_Sha256 env) (de_Policy env) (de_AdminKey env) (sv_version sv) dev (sv_registry sv) of
        Inl e \<Rightarrow> (sv, Some e)
      | Inr p \<Rightarrow>
          (let v = sv_version sv + 1;
               ev = \<lparr>ev_Type = ''key_sync'', ev_Data = de_PayloadJSON env (p\<lparr>ks_Version := v\<rparr>), ev_ID = [], ev_Timestamp = 0\<rparr> in
           (fst (publish env dev ev (sv\<lparr>sv_version := v\<rparr>)), None)))"

text \<open>One push to every connected device, all with the same version (\<open>broadcastKeySync\<close>).\<close>

definition broadcastKeySync :: "dispatch_env \<Rightarrow> 's server \<Rightarrow> 's server" where
  "broadcastKeySync env sv =
     (let v = sv_version sv + 1 in
      fold (\<lambda>dev sv. case resolveDeviceKeySyncPayload (de_Sha256 env) (de_Policy env) (de_AdminKey env) v dev (sv_registry sv) of
          Inl _ \<Rightarrow> sv
        | Inr p \<Rightarrow> fst (publish env dev \<lparr>ev_Type = ''key_sync'', ev_Data = de_PayloadJSON env (p\<lparr>ks_Version := v\<rparr>),
            ev_ID = [], ev_Timestamp = 0\<rparr> sv))
        (ActiveDevices (sv_broker sv)) (sv\<lparr>sv_version := v\<rparr>))"

text \<open>The pushes to every device; \<open>envs\<close> is what the push to each device meets.\<close>

definition broadcastGitHubSync :: "'s cmd_repository \<Rightarrow> (string \<Rightarrow> dispatch_env) \<Rightarrow> 's server \<Rightarrow> 's server" where
  "broadcastGitHubSync rp envs sv =
     fold (\<lambda>d sv. if d_GitHubSyncEnabled d \<and> IsConnected (d_ID d) (sv_broker sv)
                   then pushGitHubSync rp (envs (d_ID d)) (d_ID d) sv else sv)
       (List (sv_registry sv)) sv"

definition broadcastGitHubRevoke ::
  "'s cmd_repository \<Rightarrow> (string \<Rightarrow> dispatch_env) \<Rightarrow> string \<Rightarrow> 's server \<Rightarrow> 's server" where
  "broadcastGitHubRevoke rp envs reason sv =
     fold (\<lambda>d sv. if IsConnected (d_ID d) (sv_broker sv)
                   then pushGitHubRevoke rp (envs (d_ID d)) (d_ID d) reason sv else sv)
       (List (sv_registry sv)) sv"

end
