(* ===== verification/Handlers.thy ===== *)
theory Handlers
  imports Dispatch
begin

text \<open>
  The request handlers of \<open>internal/api/api.go\<close> that send commands: the change of a device's
  properties, shutdown, key synchronisation and upgrade, with the resolution of an upgrade's
  artifact, and the opening of a device's event stream. A handler's reply is a value: its HTTP
  error, or what it reports. The decoding of the request's body, the session's actor and the
  \<open>Idempotency-Key\<close> header are arguments.
\<close>

datatype reply =
    ReplyError nat | ReplyDone | ReplyDevice Device | ReplyCommand "Command option" | ReplyCommands "Command option list"
  | ReplyAudit | ReplyConfirmation string string string

definition statusError :: "reg_error \<Rightarrow> reply" where
  "statusError e = (if e = ErrNotFound then ReplyError 404 else ReplyError 500)"

definition commandHTTPError :: "command_error \<Rightarrow> reply" where
  "commandHTTPError e =
     (if e = ErrCommandInProgress \<or> e = ErrIdempotencyConflict then ReplyError 409 else ReplyError 500)"

text \<open>The actor of a session, or the administrator of the legacy token.\<close>

definition requestedActor :: "string option \<Rightarrow> CmdActor" where
  "requestedActor session = (case session of
      Some user \<Rightarrow> \<lparr>ca_Type = ''admin'', ca_ID = user, ca_DisplayName = user\<rparr>
    | None \<Rightarrow> \<lparr>ca_Type = ''admin'', ca_ID = ''legacy-admin'', ca_DisplayName = ''admin''\<rparr>)"

definition command_request ::
  "Kind \<Rightarrow> string \<Rightarrow> string option \<Rightarrow> string \<Rightarrow> string \<Rightarrow> TimeoutPolicy \<Rightarrow> CreateRequest" where
  "command_request kind dev session key safe policy =
     \<lparr>cq_Kind = kind, cq_DeviceID = dev, cq_RequestedBy = requestedActor session, cq_IdempotencyKey = key,
      cq_Request = safe, cq_TimeoutPolicy = policy, cq_Protocol = 1\<rparr>"

section \<open>Keys, properties and shutdown\<close>

definition syncDevice ::
  "'s cmd_repository \<Rightarrow> dispatch_env \<Rightarrow> string option \<Rightarrow> string \<Rightarrow> string \<Rightarrow> 's server \<Rightarrow> 's server \<times> reply" where
  "syncDevice rp env session key devID sv =
     (case resolveDeviceKeySyncPayload (de_Sha256 env) (de_Policy env) (de_AdminKey env) (sv_version sv) devID (sv_registry sv) of
        Inl e \<Rightarrow> (sv, statusError e)
      | Inr p \<Rightarrow>
          (let v = sv_version sv + 1;
               text = de_PayloadJSON env (p\<lparr>ks_Version := v\<rparr>);
               sv0 = sv\<lparr>sv_version := v\<rparr> in
           case prepareCommand rp env
               (command_request KindSSHKeys devID session key text (commandTimeout sv0 KindSSHKeys (minutes 1))) text sv0 of
             (sv1, Inl e) \<Rightarrow> (sv1, commandHTTPError e)
           | (sv1, Inr (c, wire)) \<Rightarrow>
               (let (sv2, _, res) = publish_prepared rp env devID ''key_sync'' c wire sv1 in
                (sv2, ReplyCommand (fst res)))))"

text \<open>One device of \<open>syncAll\<close>, which stays in the loop on every error.\<close>

definition sync_one ::
  "'s cmd_repository \<Rightarrow> (string \<Rightarrow> dispatch_env) \<Rightarrow> string option \<Rightarrow> string \<Rightarrow> int \<Rightarrow> Device
     \<Rightarrow> 's server \<times> Command option list \<Rightarrow> 's server \<times> Command option list" where
  "sync_one rp envs session key v d st =
     (let (sv, cs) = st; env = envs (d_ID d) in
      case resolveDeviceKeySyncPayload (de_Sha256 env) (de_Policy env) (de_AdminKey env) v (d_ID d) (sv_registry sv) of
        Inl _ \<Rightarrow> (sv, cs)
      | Inr p \<Rightarrow>
          (let text = de_PayloadJSON env (p\<lparr>ks_Version := v\<rparr>) in
           case prepareCommand rp env
               (command_request KindSSHKeys (d_ID d) session key text (commandTimeout sv KindSSHKeys (minutes 1))) text sv of
             (sv1, Inl _) \<Rightarrow> (sv1, cs)
           | (sv1, Inr (c, wire)) \<Rightarrow>
               (let (sv2, _, res) = publish_prepared rp env (d_ID d) ''key_sync'' c wire sv1 in
                (sv2, cs @ [fst res]))))"

definition syncAll ::
  "'s cmd_repository \<Rightarrow> (string \<Rightarrow> dispatch_env) \<Rightarrow> string option \<Rightarrow> string \<Rightarrow> string \<Rightarrow> bool
     \<Rightarrow> 's server \<Rightarrow> 's server \<times> reply" where
  "syncAll rp envs session key userID isOwner sv =
     (let v = sv_version sv + 1;
          (sv', cs) = fold (sync_one rp envs session key v) (FilterDevicesForUser userID isOwner (sv_registry sv))
                        (sv\<lparr>sv_version := v\<rparr>, []) in
      (sv', ReplyCommands cs))"

text \<open>
  \<open>patchDevice\<close>: the override is absent, no integer of the range (\<open>Some None\<close>), or a port. The
  deletion of the device's key at GitHub is a call whose error is ignored.
\<close>

record patch_req =
  pq_Alias :: "string option"
  pq_MAC :: "string option"
  pq_GitHubSyncEnabled :: "bool option"
  pq_Port :: "int option option"

definition patchDevice ::
  "'s cmd_repository \<Rightarrow> dispatch_env \<Rightarrow> bool \<Rightarrow> patch_req \<Rightarrow> string \<Rightarrow> 's server \<Rightarrow> 's server \<times> reply" where
  "patchDevice rp env github req devID sv =
     (case pq_Port req of
        Some None \<Rightarrow> (sv, ReplyError 400)
      | _ \<Rightarrow>
          (let port = (case pq_Port req of Some p \<Rightarrow> p | None \<Rightarrow> None) in
           if (case port of None \<Rightarrow> False | Some v \<Rightarrow> v < 0 \<or> v > 65535) then (sv, ReplyError 400)
           else if (case pq_MAC req of None \<Rightarrow> False
                    | Some m \<Rightarrow> trim_space m \<noteq> [] \<and> (case ParseAndValidateMAC m of Inl _ \<Rightarrow> True | Inr _ \<Rightarrow> False))
           then (sv, ReplyError 400)
           else
             (let (r, res) = UpdateDeviceWithSSHPort (de_Reg env) devID (pq_Alias req) (pq_MAC req)
                               (pq_GitHubSyncEnabled req) port (sv_registry sv);
                  sv1 = sv\<lparr>sv_registry := r\<rparr> in
              case res of
                Inl e \<Rightarrow> (sv1, statusError e)
              | Inr updated \<Rightarrow>
                  ((case pq_GitHubSyncEnabled req of
                      None \<Rightarrow> sv1
                    | Some True \<Rightarrow> pushGitHubSync rp env devID sv1
                    | Some False \<Rightarrow>
                        pushGitHubRevoke rp env devID ''sync_disabled''
                          (if github then sv1\<lparr>sv_registry :=
                             fst (UpdateGitHubStatus (de_Reg env) devID ''disabled'' 0 [] (sv_registry sv1))\<rparr> else sv1)),
                   ReplyDevice updated))))"

text \<open>\<open>shutdownDevice\<close>: \<open>text\<close> writes the payload's reason, delay and flag.\<close>

definition shutdownDevice ::
  "'s cmd_repository \<Rightarrow> dispatch_env \<Rightarrow> string option \<Rightarrow> string \<Rightarrow> (string \<Rightarrow> string) \<Rightarrow> string \<Rightarrow> string
     \<Rightarrow> 's server \<Rightarrow> 's server \<times> reply" where
  "shutdownDevice rp env session key text reason0 devID sv =
     (case Get devID (sv_registry sv) of
        Inl e \<Rightarrow> (sv, statusError e)
      | Inr d \<Rightarrow>
          (let reason = (if reason0 = [] then ''api_request'' else reason0) in
           if \<not> IsConnected devID (sv_broker sv) then (sv, ReplyError 400)
           else
             (case prepareCommand rp env
                 (command_request KindShutdown devID session key (text reason) (commandTimeout sv KindShutdown (seconds 30)))
                 (text reason) sv of
                (sv1, Inl e) \<Rightarrow> (sv1, commandHTTPError e)
              | (sv1, Inr (c, wire)) \<Rightarrow>
                  (let (sv2, _, res) = publish_prepared rp env devID ''shutdown'' c wire sv1 in
                   (sv2, ReplyCommand (fst res))))))"

text \<open>The disconnection of the GitHub account, once the service has deleted its credentials.\<close>

definition githubDisconnect :: "'s cmd_repository \<Rightarrow> (string \<Rightarrow> dispatch_env) \<Rightarrow> 's server \<Rightarrow> 's server" where
  "githubDisconnect rp envs sv =
     (let sv1 = fold (\<lambda>d sv. if d_GitHubSyncEnabled d \<or> d_GitHubStatus d \<noteq> []
                  then sv\<lparr>sv_registry := fst (UpdateGitHubStatus (de_Reg (envs (d_ID d))) (d_ID d) ''revoked'' 0 [] (sv_registry sv))\<rparr>
                  else sv) (List (sv_registry sv)) sv in
      broadcastGitHubRevoke rp envs ''account_disconnected'' sv1)"

end
