(* ===== verification/AckHandler.thy ===== *)
theory AckHandler
  imports Handlers
begin

text \<open>
  The acknowledgements of devices and the opening of their event streams, from
  \<open>internal/api/api.go\<close>: \<open>deviceAck\<close> with the outcomes it projects to the registry, the recovery of
  projections after a restart, and the start of \<open>deviceEvents\<close>.
\<close>

definition commandKindForModule :: "string \<Rightarrow> Kind option" where
  "commandKindForModule m =
     (if m = ''ssh_keys'' then Some KindSSHKeys
      else if m = ''upgrade'' then Some KindUpgrade
      else if m = ''shutdown'' then Some KindShutdown
      else if m = ''github_credentials'' \<or> m = ''github_credentials_sync'' then Some KindGitHubSync
      else if m = ''github_credentials_revoke'' then Some KindGitHubRevoke
      else None)"

definition ack_statuses :: "string list" where
  "ack_statuses = [''accepted'', ''succeeded'', ''failed'', ''error'', ''progress'', ''synced'', ''upgraded'']"

section \<open>The parts of the handler\<close>

text \<open>A report of progress: \<open>commit_ready\<close> also finishes the command and the plan of its device.\<close>

definition ack_progress ::
  "'s cmd_repository \<Rightarrow> dispatch_env \<Rightarrow> string \<Rightarrow> AckRequest \<Rightarrow> 's server \<Rightarrow> 's server \<times> reply" where
  "ack_progress rp env deviceID req sv =
     (if aq_Module req \<noteq> ''upgrade'' then (sv, ReplyError 400)
      else
        (let p = \<lparr>up_Phase = aq_Phase req, up_Sequence = (case aq_Sequence req of None \<Rightarrow> 0 | Some n \<Rightarrow> n),
               up_OccurredAt = (case aq_OccurredAt req of None \<Rightarrow> de_Now env | Some t \<Rightarrow> t),
               up_DetailCode = [], up_ConfirmedDigest = [], up_ErrorMessage = aq_ErrorMessage req\<rparr>;
             sv1 = sv\<lparr>sv_commands := fst (svc_UpdateProgress rp (de_Cmd env ''progress'') (aq_CommandID req) p (sv_commands sv))\<rparr> in
         if aq_Phase req \<noteq> ''commit_ready'' then (sv1, ReplyDone)
         else
           (let sv2 = sv1\<lparr>sv_commands := fst (Finish rp (de_Cmd env ''finish'') (aq_CommandID req) StatusSucceeded
                  ([CHR 0x7B, CHR 0x22] @ ''status'' @ [CHR 0x22, CHR 0x3A, CHR 0x22] @ ''converged'' @ [CHR 0x22, CHR 0x7D]) [] []
                  (sv_commands sv1))\<rparr>;
                sv3 = (case sv_plans sv2 of
                    None \<Rightarrow> sv2
                  | Some ps \<Rightarrow>
                      (case GetActivePlanByDevice deviceID ps of
                         Inl _ \<Rightarrow> sv2
                       | Inr plan \<Rightarrow> sv2\<lparr>sv_plans := Some (fst (TransitionStage (de_Now env) (pl_PlanID plan)
                             (pl_Revision plan) StageSucceeded [] ps))\<rparr>));
                (fence, facts, nonce) = de_PhaseDigests env (aq_PhaseResult req) in
            (sv3, ReplyConfirmation fence facts nonce))))"

text \<open>
  What the acknowledgement of a module writes to the registry: the new registry, the error, and
  whether that error is kept for the projection (otherwise it ends the handler).
\<close>

definition project_ack :: "dispatch_env \<Rightarrow> string \<Rightarrow> AckRequest \<Rightarrow> Registry \<Rightarrow> Registry \<times> reg_error option \<times> bool" where
  "project_ack env deviceID req r =
     (let st = (if aq_Status req = ''succeeded'' then ''synced'' else aq_Status req) in
      if aq_Module req = ''github_credentials'' then
        (let (r', e) = UpdateGitHubStatus (de_Reg env) deviceID st 0 (aq_SSHFingerprint req) r in (r', e, True))
      else if aq_Module req = ''upgrade'' \<or> aq_Module req = ''shutdown'' then
        (let (r', e) = TouchLastSeen (de_Reg env) deviceID r in (r', e, True))
      else
        (let (r', e) = UpdateSyncStatus (de_Reg env) deviceID st (aq_AppliedVersion req) (aq_AppliedHash req)
               (aq_ErrorMessage req) r in (r', e, False)))"

text \<open>The push that heals a device whose hash is not the expected one.\<close>

definition heal ::
  "'s cmd_repository \<Rightarrow> dispatch_env \<Rightarrow> string \<Rightarrow> AckRequest \<Rightarrow> 's server \<Rightarrow> 's server" where
  "heal rp env deviceID req sv =
     (if aq_Status req = ''synced'' \<and> aq_AppliedHash req \<noteq> [] then
        (if aq_Module req = ''ssh_keys'' then
           (case resolveDeviceKeySyncPayload (de_Sha256 env) (de_Policy env) (de_AdminKey env) (sv_version sv) deviceID (sv_registry sv) of
              Inl _ \<Rightarrow> sv
            | Inr expected \<Rightarrow>
                if aq_AppliedHash req = ks_Hash expected then sv
                else fst (publish env deviceID \<lparr>ev_Type = ''key_sync'', ev_Data = de_PayloadJSON env expected,
                            ev_ID = [], ev_Timestamp = 0\<rparr> sv))
         else if aq_Module req = ''github_credentials'' then
           (case de_GitHub env of
              Some (Inr (_, hash, _)) \<Rightarrow>
                if aq_AppliedHash req = hash then sv else pushGitHubSync rp env deviceID sv
            | _ \<Rightarrow> sv)
         else sv)
      else sv)"

text \<open>The end of the handler: \<open>c\<close> is the command the acknowledgement finished, if it names one.\<close>

definition ack_applied ::
  "'s cmd_repository \<Rightarrow> dispatch_env \<Rightarrow> string \<Rightarrow> AckRequest \<Rightarrow> Command option \<Rightarrow> 's server \<Rightarrow> 's server \<times> reply" where
  "ack_applied rp env deviceID req c sv =
     (let (r, err, kept) = project_ack env deviceID req (sv_registry sv);
          sv1 = sv\<lparr>sv_registry := r\<rparr> in
      if err \<noteq> None \<and> \<not> kept then (sv1, statusError (the err))
      else
        (let sv2 = (case c of
               None \<Rightarrow> sv1
             | Some x \<Rightarrow>
                 if pj_Status (c_Projection x) \<noteq> ''pending'' then sv1
                 else sv1\<lparr>sv_commands := fst (case err of
                     Some e \<Rightarrow> MarkProjection rp (de_Cmd env ''project'') (aq_CommandID req) ''failed'' (de_RegText env e) (sv_commands sv1)
                   | None \<Rightarrow> MarkProjection rp (de_Cmd env ''project'') (aq_CommandID req) ''applied'' [] (sv_commands sv1))\<rparr>) in
         (heal rp env deviceID req sv2, ReplyDone)))"

section \<open>The handler\<close>

definition deviceAck ::
  "'s cmd_repository \<Rightarrow> dispatch_env \<Rightarrow> string \<Rightarrow> AckRequest \<Rightarrow> 's server \<Rightarrow> 's server \<times> reply" where
  "deviceAck rp env deviceID req sv =
     (if aq_CommandID req = [] then ack_applied rp env deviceID req None sv
      else if aq_Status req \<notin> set ack_statuses then (sv, ReplyError 400)
      else (case rp_Get rp (aq_CommandID req) (sv_commands sv) of
        Inl _ \<Rightarrow> (sv, ReplyError 404)
      | Inr c \<Rightarrow>
          if c_DeviceID c \<noteq> deviceID then (sv, ReplyError 404)
          else if (case commandKindForModule (aq_Module req) of
              None \<Rightarrow> True
            | Some k \<Rightarrow> k \<noteq> c_Kind c \<and> \<not> (aq_Module req = ''github_credentials'' \<and> c_Kind c \<in> {KindGitHubSync, KindGitHubRevoke}))
          then (sv, ReplyError 409)
          else if aq_Status req = ''accepted'' then
            (let (s, res) = Accept rp (de_Cmd env ''accept'') (aq_CommandID req) (sv_commands sv) in
             (sv\<lparr>sv_commands := s\<rparr>, (case res of Inl _ \<Rightarrow> ReplyError 409 | Inr _ \<Rightarrow> ReplyDone)))
          else if aq_Status req = ''progress'' then ack_progress rp env deviceID req sv
          else
            (let status = (if aq_Status req = ''failed'' \<or> aq_Status req = ''error'' then StatusFailed else StatusSucceeded);
                 (s, fin, err) = Finish rp (de_Cmd env ''finish'') (aq_CommandID req) status
                    (de_AckResult env (c_Kind c) req status) (aq_ErrorCode req) (aq_ErrorMessage req) (sv_commands sv);
                 sv1 = sv\<lparr>sv_commands := s\<rparr> in
             (case err of
                Some e \<Rightarrow> if e = ErrLateAckAccepted then (sv1, ReplyAudit) else (sv1, ReplyError 409)
              | None \<Rightarrow> ack_applied rp env deviceID req fin sv1))))"

section \<open>Projections after a restart\<close>

definition applyCommandProjection :: "dispatch_env \<Rightarrow> Command \<Rightarrow> Registry \<Rightarrow> Registry \<times> string option" where
  "applyCommandProjection env c r =
     (let status = (if c_Status c = StatusFailed then ''error'' else ''synced'');
          told = (\<lambda>(r', e). (r', map_option (de_RegText env) e)) in
      case c_Kind c of
        KindSSHKeys \<Rightarrow>
          (case de_KeyResult env (c_Result c) of
             Inl e \<Rightarrow> (r, Some e)
           | Inr (v, h) \<Rightarrow> told (UpdateSyncStatus (de_Reg env) (c_DeviceID c) status v h (c_ErrorMessage c) r))
      | KindUpgrade \<Rightarrow> told (TouchLastSeen (de_Reg env) (c_DeviceID c) r)
      | KindShutdown \<Rightarrow> told (TouchLastSeen (de_Reg env) (c_DeviceID c) r)
      | KindGitHubSync \<Rightarrow>
          (case de_SyncResult env (c_Result c) of
             Inl e \<Rightarrow> (r, Some e)
           | Inr fp \<Rightarrow> told (UpdateGitHubStatus (de_Reg env) (c_DeviceID c) status 0 fp r))
      | KindGitHubRevoke \<Rightarrow> told (UpdateGitHubStatus (de_Reg env) (c_DeviceID c) status 0 [] r)
      | KindOther _ \<Rightarrow> (r, None))"

definition recover_projection ::
  "'s cmd_repository \<Rightarrow> dispatch_env \<Rightarrow> Command \<Rightarrow> 's server \<Rightarrow> 's server" where
  "recover_projection rp env c sv =
     (let (r, err) = applyCommandProjection env c (sv_registry sv);
          sv1 = sv\<lparr>sv_registry := r\<rparr> in
      sv1\<lparr>sv_commands := fst (case err of
          Some e \<Rightarrow> MarkProjection rp (de_Cmd env ''project'') (c_ID c) ''failed'' e (sv_commands sv1)
        | None \<Rightarrow> MarkProjection rp (de_Cmd env ''project'') (c_ID c) ''applied'' [] (sv_commands sv1))\<rparr>)"

definition recoverCommandProjections :: "'s cmd_repository \<Rightarrow> (string \<Rightarrow> dispatch_env) \<Rightarrow> 's server \<Rightarrow> 's server" where
  "recoverCommandProjections rp envs sv =
     fold (\<lambda>c. recover_projection rp (envs (c_ID c)) c) (rp_ListProjectionPending rp 1000 (sv_commands sv)) sv"

section \<open>The start of an event stream\<close>

text \<open>
  The stream of a device up to its loop: the subscription, the recovery of queued commands, and
  the text written first. The text is what was missed since the last identifier, or the current
  keys when that identifier is not in the history, and then the GitHub credentials.
\<close>

definition stream_start ::
  "'s cmd_repository \<Rightarrow> (string \<Rightarrow> dispatch_env) \<Rightarrow> string \<Rightarrow> string \<Rightarrow> 's server
     \<Rightarrow> 's server \<times> (reply + nat \<times> string)" where
  "stream_start rp envs deviceID lastID sv =
     (case Get deviceID (sv_registry sv) of
        Inl e \<Rightarrow> (sv, Inl (statusError e))
      | Inr _ \<Rightarrow>
          (let env = envs [];
               (b, ch) = Subscribe deviceID (sv_broker sv);
               sv1 = recoverQueuedCommands rp envs deviceID (sv\<lparr>sv_broker := b\<rparr>);
               first = (case replay_text deviceID lastID (sv_broker sv1) of
                   Some txt \<Rightarrow> txt
                 | None \<Rightarrow>
                     (case resolveDeviceKeySyncPayload (de_Sha256 env) (de_Policy env) (de_AdminKey env) (sv_version sv1) deviceID (sv_registry sv1) of
                        Inl _ \<Rightarrow> []
                      | Inr p \<Rightarrow> write_event \<lparr>ev_Type = ''key_sync'', ev_Data = de_PayloadJSON env p, ev_ID = [], ev_Timestamp = 0\<rparr>));
               second = (case (de_GitHub env, Get deviceID (sv_registry sv1)) of
                   (Some (Inr (_, _, payload)), Inr d) \<Rightarrow>
                     if d_GitHubSyncEnabled d then
                       write_event \<lparr>ev_Type = ''github_credentials_sync'', ev_Data = payload, ev_ID = [], ev_Timestamp = 0\<rparr>
                     else []
                 | _ \<Rightarrow> []) in
           (sv1, Inr (ch, first @ second))))"

text \<open>What an agent's acknowledgement is as a request, and which replies it takes for an answer.\<close>

definition ack_request :: "ack \<Rightarrow> AckRequest" where
  "ack_request a = \<lparr>aq_CommandID = ak_CommandID a, aq_Module = ak_Module a, aq_Status = ak_Status a,
     aq_AppliedVersion = ak_Version a, aq_AppliedHash = ak_Hash a, aq_ErrorMessage = ak_Error a,
     aq_SSHFingerprint = ak_Fingerprint a,
     aq_GitHubVersion = (if ak_Module a = ''github_credentials'' then ak_Version a else 0),
     aq_Result = [], aq_ErrorCode = [], aq_Sequence = None, aq_Phase = [], aq_OccurredAt = None, aq_PhaseResult = []\<rparr>"

definition ack_answered :: "reply \<Rightarrow> bool" where
  "ack_answered r = (case r of ReplyError _ \<Rightarrow> False | _ \<Rightarrow> True)"

end
