(* ===== verification/UpgradeHandlers.thy ===== *)
theory UpgradeHandlers
  imports Handlers VersionStatus
begin

text \<open>
  The upgrade requests of \<open>internal/api/api.go\<close>: the artifact a device is upgraded to
  (\<open>ResolveUpgradePayload\<close>), and the requests that upgrade one device or several. Local files,
  their hashes, the replies to checksum requests and the JSON writers are arguments.
\<close>

record UpgradeRequest =
  uq_TargetVersion :: string
  uq_Version :: string
  uq_URL :: string
  uq_SHA256 :: string
  uq_Force :: bool
  uq_Source :: string
  uq_SnapshotID :: string

record UpgradePayload =
  pay_Version :: string
  pay_TargetVersion :: string
  pay_ReleaseID :: int
  pay_ReleaseTag :: string
  pay_AssetID :: int
  pay_URL :: string
  pay_SHA256 :: string
  pay_Force :: bool

text \<open>
  \<open>ae_LocalFile dir name\<close> tells whether the file is there and \<open>ae_FileSHA256\<close> its hash, \<open>None\<close> when
  it cannot be read; \<open>ae_Scheme\<close> and \<open>ae_Host\<close> are those of the request.
\<close>

record artifact_env =
  ae_Now :: time
  ae_AgentVersion :: string
  ae_Versions :: "version_service option"
  ae_UpgradeSource :: string
  ae_DownloadsDir :: string
  ae_LocalFile :: "string \<Rightarrow> string \<Rightarrow> bool"
  ae_FileSHA256 :: "string \<Rightarrow> string \<Rightarrow> string option"
  ae_Scheme :: string
  ae_Host :: string
  ae_Client :: release_client
  ae_Fetch :: "string \<Rightarrow> string + int \<times> (string + string)"
  ae_V2Enabled :: bool
  ae_PayloadJSON :: "UpgradePayload \<Rightarrow> string"
  ae_SafeJSON :: "UpgradePayload \<Rightarrow> string"
  ae_PlanID :: "string \<Rightarrow> string"

section \<open>The artifact\<close>

definition or_default :: "string \<Rightarrow> string \<Rightarrow> string" where
  "or_default s d = (if s = [] then d else s)"

definition agent_snapshot :: "artifact_env \<Rightarrow> Snapshot option" where
  "agent_snapshot ae = map_option (snapshot_of (ae_Now ae) ComponentAgent) (ae_Versions ae)"

text \<open>The release the request is about and its version: the first half of the function.\<close>

definition target_release :: "artifact_env \<Rightarrow> UpgradeRequest \<Rightarrow> string + Snapshot \<times> string" where
  "target_release ae req =
     (let asked = or_default (trim_space (uq_TargetVersion req)) (trim_space (uq_Version req)) in
      case (if uq_SnapshotID req \<noteq> [] then agent_snapshot ae else None) of
        Some sn \<Rightarrow>
          if sn_Status sn \<noteq> VStatusAvailable \<or> sn_SnapshotID sn \<noteq> uq_SnapshotID req then
            Inl ''agent release snapshot expired or unknown''
          else if asked \<noteq> [] then Inr (sn, asked)
          else if sn_LatestVersion sn = [] then Inl ''agent release snapshot is not available''
          else Inr (sn, sn_LatestVersion sn)
      | None \<Rightarrow>
          if asked \<noteq> [] then Inr (zero_snapshot, asked)
          else (case agent_snapshot ae of
              Some sn \<Rightarrow>
                if sn_Status sn \<noteq> VStatusAvailable \<or> sn_LatestVersion sn = [] then
                  Inl ''agent release snapshot is not available''
                else Inr (sn, sn_LatestVersion sn)
            | None \<Rightarrow> Inr (zero_snapshot, ae_AgentVersion ae)))"

definition binary_name :: "Device \<Rightarrow> string" where
  "binary_name d =
     (let osName = or_default (to_lower (trim_space (d_OS d))) ''linux'';
          archName = or_default (to_lower (trim_space (d_Arch d))) ''amd64'' in
      if osName = ''windows'' then ''homeagent-agent-windows-'' @ archName @ ''.exe''
      else ''homeagent-agent-'' @ osName @ ''-'' @ archName)"

text \<open>The assets narrowed to the one of the device's binary.\<close>

definition frozen_assets :: "string \<Rightarrow> Asset list \<Rightarrow> Asset list" where
  "frozen_assets name assets = (case find (\<lambda>a. as_Name a = name) assets of None \<Rightarrow> assets | Some a \<Rightarrow> [a])"

text \<open>The address and checksum from a local file: \<open>u\<close> and \<open>h\<close> are those known so far.\<close>

definition local_artifact :: "artifact_env \<Rightarrow> string \<Rightarrow> string \<times> string \<Rightarrow> string \<times> string" where
  "local_artifact ae name uh =
     (let (u, h) = uh;
          dirs = (if ae_DownloadsDir ae \<noteq> [] then [ae_DownloadsDir ae] else []) @ [''dist'', ''bin''] in
      case find (\<lambda>dir. ae_LocalFile ae dir name) dirs of
        None \<Rightarrow> (u, h)
      | Some dir \<Rightarrow>
          (or_default u (ae_Scheme ae @ ''://'' @ ae_Host ae @ ''/downloads/'' @ name),
           (if h = [] then (case ae_FileSHA256 ae dir name of None \<Rightarrow> [] | Some x \<Rightarrow> x) else h)))"

definition github_artifact :: "artifact_env \<Rightarrow> string \<Rightarrow> string \<Rightarrow> string \<times> string \<Rightarrow> string + string \<times> string" where
  "github_artifact ae targetVer name uh =
     (let (u, h) = uh; releaseTag = ''agent-'' @ targetVer;
          u' = or_default u (BuildAssetDownloadURL (ae_Client ae) releaseTag name) in
      if h \<noteq> [] then Inr (u', h)
      else (case FetchAssetSHA256 (ae_Client ae) (ae_Fetch ae) releaseTag name of
          Inl e \<Rightarrow> Inl (''failed to fetch sha256 for '' @ name @ '' ('' @ targetVer @ '') from github: '' @ e)
        | Inr digest \<Rightarrow> Inr (u', digest)))"

definition ResolveUpgradePayload :: "artifact_env \<Rightarrow> Device \<Rightarrow> UpgradeRequest \<Rightarrow> string + UpgradePayload" where
  "ResolveUpgradePayload ae d req =
     (case target_release ae req of
        Inl e \<Rightarrow> Inl e
      | Inr (frozen, targetVer) \<Rightarrow>
          (let source = or_default (or_default (to_lower (trim_space (uq_Source req)))
                          (to_lower (trim_space (ae_UpgradeSource ae)))) ''auto'';
               url = trim_space (uq_URL req); sha = to_lower (trim_space (uq_SHA256 req));
               name = binary_name d;
               payload = (\<lambda>assets u h. if u = [] then Inl ''could not determine download URL''
                 else Inr \<lparr>pay_Version = targetVer, pay_TargetVersion = targetVer, pay_ReleaseID = sn_ReleaseID frozen,
                        pay_ReleaseTag = sn_Tag frozen,
                        pay_AssetID = (case assets of [a] \<Rightarrow> as_ID a | _ \<Rightarrow> 0),
                        pay_URL = u, pay_SHA256 = h, pay_Force = uq_Force req\<rparr>) in
           if url \<noteq> [] \<and> sha \<noteq> [] then payload (sn_Assets frozen) url sha
           else
             (let assets = (if sn_LatestVersion frozen \<noteq> [] then frozen_assets name (sn_Assets frozen) else sn_Assets frozen) in
              if sn_LatestVersion frozen \<noteq> [] \<and> (case assets of [a] \<Rightarrow> as_Name a \<noteq> name | _ \<Rightarrow> True) then
                Inl (''agent asset '' @ name @ '' is unavailable in frozen release'')
              else
                (let (u, h) = (if source = ''local'' \<or> source = ''auto'' then local_artifact ae name (url, sha) else (url, sha)) in
                 if (u = [] \<or> h = []) \<and> source \<noteq> ''local'' then
                   (case github_artifact ae targetVer name (u, h) of Inl e \<Rightarrow> Inl e | Inr (u', h') \<Rightarrow> payload assets u' h')
                 else payload assets u h))))"

section \<open>One device\<close>

definition bool_text :: "bool \<Rightarrow> string" where
  "bool_text b = (if b then ''true'' else ''false'')"

definition request_digest :: "dispatch_env \<Rightarrow> UpgradePayload \<Rightarrow> string" where
  "request_digest env p = de_Sha256 env
     (pay_TargetVersion p @ ''|'' @ pay_URL p @ ''|'' @ pay_SHA256 p @ ''|'' @ bool_text (pay_Force p))"

definition plan_actor :: "(string \<times> string) option \<Rightarrow> CmdActor" where
  "plan_actor actor = (case actor of
      Some (userID, name) \<Rightarrow> \<lparr>ca_Type = ''user'', ca_ID = userID, ca_DisplayName = name\<rparr>
    | None \<Rightarrow> \<lparr>ca_Type = ''anonymous'', ca_ID = ''anonymous'', ca_DisplayName = []\<rparr>)"

definition plan_snapshot :: "UpgradePayload \<Rightarrow> string \<Rightarrow> int list \<Rightarrow> string \<Rightarrow> PlanSnapshot" where
  "plan_snapshot p securityMode protocols digest =
     \<lparr>ps_TargetVersion = pay_TargetVersion p, ps_ReleaseID = pay_ReleaseID p, ps_ReleaseTag = pay_ReleaseTag p,
      ps_AssetID = pay_AssetID p, ps_TargetURL = pay_URL p, ps_TargetSHA256 = pay_SHA256 p,
      ps_TargetManifestDigest = [], ps_BridgeVersion = [], ps_BridgeURL = [], ps_BridgeSHA256 = [],
      ps_InitialSecurityMode = securityMode, ps_InitialProtocols = protocols, ps_RequestDigest = digest\<rparr>"

definition device_plan_request ::
  "dispatch_env \<Rightarrow> (string \<times> string) option \<Rightarrow> string \<Rightarrow> Device \<Rightarrow> UpgradePayload \<Rightarrow> string \<Rightarrow> CreatePlanRequest" where
  "device_plan_request env actor key d p deviceID =
     (let protocols = (case d_ControlProtocols d of None \<Rightarrow> [] | Some vs \<Rightarrow> vs) in
      \<lparr>pr_DeviceID = deviceID, pr_RequestedBy = plan_actor actor, pr_IdempotencyKey = key,
       pr_TargetVersion = pay_TargetVersion p, pr_TargetManifestDigest = None,
       pr_BridgeVersion = (if length protocols < 2 then Some (pay_TargetVersion p) else None),
       pr_BridgeCommandID = None, pr_TargetCommandID = None, pr_InitialStage = None,
       pr_Snapshot = plan_snapshot p (d_UpgradeSecurityMode d) protocols (request_digest env p)\<rparr>)"

datatype upgrade_reply = UpgradeError nat | UpgradeCommandError reply | UpgradeSent "Command option" "UpgradePlan option"

definition fail_plan :: "dispatch_env \<Rightarrow> string \<Rightarrow> u64 \<Rightarrow> string \<Rightarrow> 's server \<Rightarrow> 's server" where
  "fail_plan env planID revision why sv = sv\<lparr>sv_plans :=
     map_option (\<lambda>ps. fst (TransitionStage (de_Now env) planID revision StageFailed why ps)) (sv_plans sv)\<rparr>"

text \<open>What becomes of the plan once the command has been published: \<open>c\<close> is the command after that.\<close>

definition settle_plan ::
  "'s cmd_repository \<Rightarrow> dispatch_env \<Rightarrow> nat \<Rightarrow> Command option \<Rightarrow> UpgradePlan option \<Rightarrow> 's server \<Rightarrow> 's server" where
  "settle_plan rp env listeners c plan sv = (case plan of
      None \<Rightarrow> sv
    | Some p \<Rightarrow>
        if listeners = 0 then
          fail_plan env (pl_PlanID p) (pl_Revision p) ''delivery_unavailable''
            (sv\<lparr>sv_commands := fst (Cancel rp (de_Cmd env ''cancel'') (case c of None \<Rightarrow> [] | Some x \<Rightarrow> c_ID x) (sv_commands sv))\<rparr>)
        else (case c of
            Some x \<Rightarrow> if c_Status x = StatusFailed then fail_plan env (pl_PlanID p) (pl_Revision p) (c_ErrorCode x) sv else sv
          | None \<Rightarrow> sv))"

definition upgradeDevice ::
  "'s cmd_repository \<Rightarrow> dispatch_env \<Rightarrow> artifact_env \<Rightarrow> (string \<times> string) option \<Rightarrow> string option \<Rightarrow> string
     \<Rightarrow> UpgradeRequest \<Rightarrow> string \<Rightarrow> 's server \<Rightarrow> 's server \<times> upgrade_reply" where
  "upgradeDevice rp env ae actor session key req deviceID sv =
     (case Get deviceID (sv_registry sv) of
        Inl e \<Rightarrow> (sv, UpgradeCommandError (statusError e))
      | Inr d \<Rightarrow>
          if d_UpgradeSecurityMode d = ''v2_locked'' \<and> \<not> ae_V2Enabled ae then (sv, UpgradeError 400)
          else (case ResolveUpgradePayload ae d req of
            Inl e \<Rightarrow> (sv, UpgradeError 400)
          | Inr payload \<Rightarrow>
              (case (case sv_plans sv of
                  None \<Rightarrow> Inr (sv, None)
                | Some ps \<Rightarrow>
                    (case CreatePlan (ae_PlanID ae deviceID) (de_Now env) (device_plan_request env actor key d payload deviceID) ps of
                       (ps', Inl e) \<Rightarrow> Inl e
                     | (ps', Inr (p, _)) \<Rightarrow> Inr (sv\<lparr>sv_plans := Some ps'\<rparr>, Some p))) of
                 Inl e \<Rightarrow> (sv, UpgradeError 409)
               | Inr (sv0, plan) \<Rightarrow>
                   (case prepareCommand rp env
                       (command_request KindUpgrade deviceID session key (ae_SafeJSON ae payload)
                          (commandTimeout sv0 KindUpgrade (minutes 10)))
                       (ae_PayloadJSON ae payload) sv0 of
                      (sv1, Inl e) \<Rightarrow> (sv1, UpgradeCommandError (commandHTTPError e))
                    | (sv1, Inr (c, wire)) \<Rightarrow>
                        (let (sv2, listeners, res) = publish_prepared rp env deviceID ''upgrade'' c wire sv1 in
                         (if wire = None then sv2 else settle_plan rp env listeners (fst res) plan sv2,
                          UpgradeSent (fst res) plan))))))"

section \<open>Several devices\<close>

text \<open>
  \<open>upgradeAll\<close>: the requests of the first API version name no devices; those of the second name a
  release snapshot and devices, and plan every upgrade. \<open>envs\<close> is what the handling of each device
  meets.
\<close>

datatype batch_request = BatchV1 UpgradeRequest | BatchV2 string "string list"

datatype batch_outcome =
    BatchSkipped string | BatchFailed string "string option" | BatchDispatched "Command option" "string option"

text \<open>The devices a request of the second version selects: no duplicates, all of them visible.\<close>

fun select_devices :: "Device list \<Rightarrow> string list \<Rightarrow> string list \<Rightarrow> (string + Device list)" where
  "select_devices visible seen [] = Inr []"
| "select_devices visible seen (i # ids) =
     (if i \<in> set seen then Inl ''duplicate_device_id''
      else (case find (\<lambda>d. d_ID d = i) visible of
          None \<Rightarrow> Inl ''device_not_found_or_forbidden''
        | Some d \<Rightarrow> (case select_devices visible (i # seen) ids of Inl e \<Rightarrow> Inl e | Inr ds \<Rightarrow> Inr (d # ds))))"

definition batch_plan_request :: "Device \<Rightarrow> UpgradePayload \<Rightarrow> CreatePlanRequest" where
  "batch_plan_request d p =
     \<lparr>pr_DeviceID = d_ID d, pr_RequestedBy = \<lparr>ca_Type = [], ca_ID = [], ca_DisplayName = []\<rparr>, pr_IdempotencyKey = [],
      pr_TargetVersion = pay_TargetVersion p, pr_TargetManifestDigest = None, pr_BridgeVersion = None,
      pr_BridgeCommandID = None, pr_TargetCommandID = None, pr_InitialStage = None,
      pr_Snapshot = plan_snapshot p [] [] []\<rparr>"

text \<open>The plan of a request that failed, looked up again for its revision.\<close>

definition fail_batch_plan :: "dispatch_env \<Rightarrow> string option \<Rightarrow> string \<Rightarrow> 's server \<Rightarrow> 's server" where
  "fail_batch_plan env planID why sv = (case planID of
      None \<Rightarrow> sv
    | Some i \<Rightarrow>
        (case sv_plans sv of
           None \<Rightarrow> sv
         | Some ps \<Rightarrow> (case GetPlan i ps of Inl _ \<Rightarrow> sv | Inr p \<Rightarrow> fail_plan env i (pl_Revision p) why sv)))"

definition upgrade_one ::
  "'s cmd_repository \<Rightarrow> dispatch_env \<Rightarrow> artifact_env \<Rightarrow> bool \<Rightarrow> string option \<Rightarrow> string \<Rightarrow> UpgradeRequest
     \<Rightarrow> Device \<Rightarrow> 's server \<Rightarrow> 's server \<times> batch_outcome" where
  "upgrade_one rp env ae isV2 session key req d sv =
     (if isV2 \<and> sv_plans sv = None then (sv, BatchFailed ''upgrade_service_unavailable'' None)
      else if \<not> IsConnected (d_ID d) (sv_broker sv) then (sv, BatchSkipped ''device_offline'')
      else (case ResolveUpgradePayload ae d req of
        Inl e \<Rightarrow> (sv, BatchFailed ''artifact_unavailable'' None)
      | Inr payload \<Rightarrow>
          (case (case (if isV2 then sv_plans sv else None) of
              None \<Rightarrow> Inr (sv, None)
            | Some ps \<Rightarrow>
                (case CreatePlan (ae_PlanID ae (d_ID d)) (de_Now env) (batch_plan_request d payload) ps of
                   (ps', Inl e) \<Rightarrow> Inl e
                 | (ps', Inr (p, _)) \<Rightarrow> Inr (sv\<lparr>sv_plans := Some ps'\<rparr>, Some (pl_PlanID p)))) of
             Inl e \<Rightarrow> (sv, BatchFailed ''upgrade_in_progress'' None)
           | Inr (sv0, planID) \<Rightarrow>
               (case prepareCommand rp env
                   (command_request KindUpgrade (d_ID d) session key (ae_SafeJSON ae payload)
                      (commandTimeout sv0 KindUpgrade (minutes 10)))
                   (ae_PayloadJSON ae payload) sv0 of
                  (sv1, Inl e) \<Rightarrow> (fail_batch_plan env planID ''command_rejected'' sv1, BatchFailed ''command_rejected'' planID)
                | (sv1, Inr (c, wire)) \<Rightarrow>
                    (let (sv2, listeners, res) = publish_prepared rp env (d_ID d) ''upgrade'' c wire sv1 in
                     if listeners = 0 then
                       (fail_batch_plan env planID ''no_active_listener'' sv2, BatchFailed ''no_active_listener'' planID)
                     else (sv2, BatchDispatched (fst res) planID))))))"

text \<open>The request resolved against the snapshot, and then the loop over the devices.\<close>

definition batch_target ::
  "artifact_env \<Rightarrow> Device list \<Rightarrow> batch_request \<Rightarrow> (string + UpgradeRequest \<times> Device list)" where
  "batch_target ae visible q = (case q of
      BatchV1 req \<Rightarrow> Inr (req, visible)
    | BatchV2 snapshotID ids \<Rightarrow>
        if snapshotID = [] \<or> ids = [] then Inl ''invalid_request''
        else (case agent_snapshot ae of
            None \<Rightarrow> Inl ''agent_release_not_available''
          | Some sn \<Rightarrow>
              if sn_Status sn \<noteq> VStatusAvailable \<or> sn_SnapshotID sn \<noteq> snapshotID then Inl ''snapshot_expired_or_unknown''
              else (case select_devices visible [] ids of
                  Inl e \<Rightarrow> Inl e
                | Inr ds \<Rightarrow> Inr (\<lparr>uq_TargetVersion = sn_LatestVersion sn, uq_Version = [], uq_URL = [], uq_SHA256 = [],
                    uq_Force = False, uq_Source = [], uq_SnapshotID = snapshotID\<rparr>, ds))))"

definition upgradeAll ::
  "'s cmd_repository \<Rightarrow> (string \<Rightarrow> dispatch_env) \<Rightarrow> artifact_env \<Rightarrow> string option \<Rightarrow> string \<Rightarrow> string \<Rightarrow> bool
     \<Rightarrow> batch_request \<Rightarrow> 's server \<Rightarrow> 's server \<times> (string + batch_outcome list)" where
  "upgradeAll rp envs ae session key userID isOwner q sv =
     (case batch_target ae (FilterDevicesForUser userID isOwner (sv_registry sv)) q of
        Inl e \<Rightarrow> (sv, Inl e)
      | Inr (req, ds) \<Rightarrow>
          (let (sv', outs) = fold (\<lambda>d (sv, outs).
                 let (sv1, out) = upgrade_one rp (envs (d_ID d)) ae (case q of BatchV2 _ _ \<Rightarrow> True | BatchV1 _ \<Rightarrow> False)
                       session key req d sv in (sv1, outs @ [out])) ds (sv, []) in
           (sv', Inr outs)))"

end
