(* ===== verification/DispatchInv.thy ===== *)
theory DispatchInv
  imports AckHandler UpgradeHandlers
begin

text \<open>
  The life of a command between the handlers and a device: lemmas of the client side of the
  repository's interface, extended by what a successful write stores, for the steps a dispatch is
  made of, and the composition of \<open>finishDispatch\<close> from them.
\<close>

section \<open>The contract with successful writes\<close>

text \<open>The part of a command no transition changes.\<close>

definition same_command :: "Command \<Rightarrow> Command \<Rightarrow> bool" where
  "same_command c c' \<longleftrightarrow> c_ID c' = c_ID c \<and> c_Kind c' = c_Kind c \<and> c_DeviceID c' = c_DeviceID c
     \<and> c_Request c' = c_Request c \<and> c_Protocol c' = c_Protocol c \<and> c_TimeoutPolicy c' = c_TimeoutPolicy c"

lemma same_command_refl [simp]: "same_command c c"
  by (simp add: same_command_def)

lemma same_command_trans: "same_command a b \<Longrightarrow> same_command b c \<Longrightarrow> same_command a c"
  by (simp add: same_command_def)

lemma same_command_transition [simp]: "same_command c (apply_transition now t c)"
  by (simp add: same_command_def) (simp add: apply_transition_def Let_def)

text \<open>
  Whether the outcome of a command is tracked: all but a known device that does not speak the
  protocol. What a dispatch needs besides: that its writes succeed.
\<close>

definition speaks_protocol :: "string \<Rightarrow> 's server \<Rightarrow> bool" where
  "speaks_protocol dev sv \<longleftrightarrow> (case Get dev (sv_registry sv) of Inr d \<Rightarrow> supportsControlProtocol d 1 | Inl _ \<Rightarrow> True)"

definition dispatch_writes :: "dispatch_env \<Rightarrow> bool" where
  "dispatch_writes env \<longleftrightarrow> ce_NewID (de_Cmd env ''start'') \<noteq> None
     \<and> list_all (\<lambda>l. ce_WriteOK (de_Cmd env l)) [''start'', ''result'', ''legacy'', ''requeue'', ''cancel'']"

definition delivery_writes :: "dispatch_env \<Rightarrow> Command \<Rightarrow> 's server \<Rightarrow> bool" where
  "delivery_writes env c sv \<longleftrightarrow> (case sv_deliveries sv of None \<Rightarrow> True
     | Some dr \<Rightarrow> snd (record_delivery env c dr) = None)"

lemma record_delivery_same:
  assumes "same_command c c'"
  shows "record_delivery env c' dr = record_delivery env c dr"
proof -
  have same: "c_ID c' = c_ID c" "c_DeviceID c' = c_DeviceID c" "c_TimeoutPolicy c' = c_TimeoutPolicy c"
    using assms by (simp_all add: same_command_def)
  show ?thesis unfolding record_delivery_def same ..
qed

section \<open>Publishing to one connection\<close>

text \<open>The device has exactly one connection, the channel \<open>ch\<close>, which is open.\<close>

definition one_connection :: "string \<Rightarrow> nat \<Rightarrow> Broker \<Rightarrow> bool" where
  "one_connection dev ch b \<longleftrightarrow> subscribers_of b dev = [ch]
     \<and> (case gget (br_chans b) ch of None \<Rightarrow> False | Some q \<Rightarrow> \<not> ch_closed q)"

definition queue_of :: "nat \<Rightarrow> Broker \<Rightarrow> Event list" where
  "queue_of ch b = (case gget (br_chans b) ch of None \<Rightarrow> [] | Some q \<Rightarrow> ch_queue q)"

lemma publish_one:
  assumes "one_connection dev ch (sv_broker sv)" and "publish env dev ev sv = (sv', n)"
  shows "n = (if length (queue_of ch (sv_broker sv)) < 16 then 1 else 0)"
    and "queue_of ch (sv_broker sv') = queue_of ch (sv_broker sv)
      @ (if n = 0 then [] else [stamp_event (de_Unix env) dev ev (sv_broker sv)])"
  using assms record_event_frame [of "de_Unix env" dev ev "sv_broker sv"]
  by (auto simp: one_connection_def queue_of_def publish_def Publish_def subscribers_of_def channel_cap_def Let_def
      split: option.splits if_splits)

lemma publish_frame:
  assumes "publish env dev ev sv = (sv', n)"
  shows "sv_commands sv' = sv_commands sv" "sv_deliveries sv' = sv_deliveries sv" "sv_registry sv' = sv_registry sv"
    "sv_plans sv' = sv_plans sv"
  using assms by (auto simp: publish_def case_prod_beta Let_def)

lemma publish_deaf:
  "subscribers_of (sv_broker sv) dev = [] \<Longrightarrow> publish env dev ev sv
    = (sv\<lparr>sv_broker := record_event (de_Unix env) dev ev (sv_broker sv)\<rparr>, 0)"
  using record_event_frame [of "de_Unix env" dev ev "sv_broker sv"]
  by (simp add: publish_def Publish_def subscribers_of_def)

locale dispatch_store = command_store rp inv for rp :: "'s cmd_repository" and inv +
  assumes transition_writes: "inv s \<Longrightarrow> rp_Get rp k s = Inr c \<Longrightarrow> valid (c_Status c) (t_Status t) \<Longrightarrow>
      c_Status c \<noteq> t_Status t \<Longrightarrow> ce_WriteOK env \<Longrightarrow> t_At t = ce_Now env \<Longrightarrow>
      \<exists>s'. rp_Transition rp env k (c_Revision c) t s = (s', Inr (apply_transition (ce_Now env) t c))"
    and transition_refused: "rp_Get rp k s = Inr c \<Longrightarrow> c_Status c \<noteq> t_Status t \<Longrightarrow> \<not> ce_WriteOK env \<Longrightarrow>
      \<exists>e. rp_Transition rp env k v t s = (s, Inl e)"
    and transition_applies: "inv s \<Longrightarrow> rp_Get rp k s = Inr c \<Longrightarrow> c_Status c \<noteq> t_Status t \<Longrightarrow> t_At t = ce_Now env \<Longrightarrow>
      rp_Transition rp env k v t s = (s', Inr c') \<Longrightarrow> c' = apply_transition (ce_Now env) t c"
    and create_new: "inv s \<Longrightarrow> rp_CreateOrGet rp env q s = (s', Inr (c, True)) \<Longrightarrow>
      inv s' \<and> rp_Get rp (c_ID c) s' = Inr c \<and> c = new_command env q (c_ID c)"
    and create_keeps: "rp_CreateOrGet rp env q s = (s', Inr (c, False)) \<Longrightarrow> s' = s"
begin

text \<open>One step of the state machine that is written: the command afterwards.\<close>

definition moved :: "string \<Rightarrow> Command \<Rightarrow> Status \<Rightarrow> 's \<Rightarrow> Command \<Rightarrow> bool" where
  "moved k c st s' c' \<longleftrightarrow> inv s' \<and> rp_Get rp k s' = Inr c' \<and> c_Status c' = st \<and> same_command c c'"

lemma move:
  assumes "inv s" and "rp_Get rp k s = Inr c" and "valid (c_Status c) (t_Status t)" and "c_Status c \<noteq> t_Status t"
    and "ce_WriteOK env" and "t_At t = ce_Now env"
  shows "\<exists>s' c'. rp_Transition rp env k (c_Revision c) t s = (s', Inr c') \<and> moved k c (t_Status t) s' c'"
proof -
  obtain s' where s': "rp_Transition rp env k (c_Revision c) t s = (s', Inr (apply_transition (ce_Now env) t c))"
    using transition_writes [OF assms] by blast
  then have "rp_Get rp k s' = Inr (apply_transition (ce_Now env) t c)"
    using transition_done [OF assms(1,2,4,6)] by blast
  moreover have "inv s'" using transition_inv [OF assms(1), of env k "c_Revision c" t] s' by simp
  ultimately show ?thesis using s' by (auto simp: moved_def)
qed

lemma start_moves:
  assumes "inv s" and "rp_Get rp k s = Inr c" and "c_Status c = StatusQueued" and "ce_WriteOK env"
    and "ce_NewID env \<noteq> None"
  shows "\<exists>s' c'. StartDispatch rp env k s = (s', Inr c') \<and> moved k c StatusDispatching s' c'"
proof -
  obtain a where a: "ce_NewID env = Some a" using assms(5) by blast
  show ?thesis
    using move [OF assms(1,2), of "(plain_transition StatusDispatching (ce_Now env))\<lparr>t_AttemptID := a\<rparr>" env] assms(3,4)
    by (simp add: StartDispatch_def assms(2) a valid_def)
qed

lemma plain_moves:
  assumes "inv s" and "rp_Get rp k s = Inr c" and "valid (c_Status c) st" and "c_Status c \<noteq> st" and "ce_WriteOK env"
  shows "\<exists>s' c'. rp_Transition rp env k (c_Revision c) (plain_transition st (ce_Now env)) s = (s', Inr c')
    \<and> moved k c st s' c'"
  using move [OF assms(1,2), of "plain_transition st (ce_Now env)" env] assms(3-5) by simp

lemma sent_moves:
  assumes "inv s" and "rp_Get rp k s = Inr c" and "c_Status c = StatusDispatching" and "ce_WriteOK env"
  shows "\<exists>s' c'. DispatchResult rp env k True s = (s', Inr c') \<and> moved k c StatusDispatched s' c'"
  using plain_moves [OF assms(1,2), of StatusDispatched env] assms(3,4)
  by (simp add: DispatchResult_def assms(2) valid_def)

lemma requeue_moves:
  assumes "inv s" and "rp_Get rp k s = Inr c" and "c_Status c = StatusDispatching" and "ce_WriteOK env"
  shows "\<exists>s' c'. Requeue rp env k s = (s', Inr c') \<and> moved k c StatusQueued s' c'"
  using plain_moves [OF assms(1,2), of StatusQueued env] assms(3,4)
  by (simp add: Requeue_def assms(2) valid_def)

lemma legacy_moves:
  assumes "inv s" and "rp_Get rp k s = Inr c" and "c_Status c = StatusDispatched" and "ce_WriteOK env"
  shows "\<exists>s' c'. MarkLegacy rp env k s = (s', Inr c') \<and> moved k c StatusLegacyUntracked s' c'"
  using plain_moves [OF assms(1,2), of StatusLegacyUntracked env] assms(3,4)
  by (simp add: MarkLegacy_def assms(2) valid_def)

lemma cancel_moves:
  assumes "inv s" and "rp_Get rp k s = Inr c" and "c_Status c = StatusQueued" and "ce_WriteOK env"
  shows "\<exists>s' c'. Cancel rp env k s = (s', Inr c') \<and> moved k c StatusCanceled s' c'"
  using plain_moves [OF assms(1,2), of StatusCanceled env] assms(3,4)
  by (simp add: Cancel_def assms(2) valid_def)

lemma moved_trans: "moved k c st s1 c1 \<Longrightarrow> moved k c1 st' s2 c2 \<Longrightarrow> moved k c st' s2 c2"
  unfolding moved_def using same_command_trans by blast

lemma movedD:
  assumes "moved k c st s' c'"
  shows "inv s'" "rp_Get rp k s' = Inr c'" "c_Status c' = st" "same_command c c'" "c_ID c' = c_ID c"
    "c_DeviceID c' = c_DeviceID c"
  using assms by (simp_all add: moved_def same_command_def)

text \<open>The two ends of a dispatch: nobody listened, or the event was taken.\<close>

lemma finish_unheard:
  assumes "inv (sv_commands sv)" and "rp_Get rp (c_ID c) (sv_commands sv) = Inr c" and "c_Status c = StatusDispatching"
    and "ce_WriteOK (de_Cmd env ''requeue'')"
  shows "\<exists>s' c'. finishDispatch rp env c 0 sv = (sv\<lparr>sv_commands := s'\<rparr>, (Some c', None))
    \<and> moved (c_ID c) c StatusQueued s' c'"
proof -
  obtain s' c' where "Requeue rp (de_Cmd env ''requeue'') (c_ID c) (sv_commands sv) = (s', Inr c')"
    "moved (c_ID c) c StatusQueued s' c'"
    using requeue_moves [OF assms] by blast
  then show ?thesis by (intro exI [of _ s'] exI [of _ c']) (simp add: finishDispatch_def as_pair_def)
qed

lemma finish_heard:
  assumes "inv (sv_commands sv)" and "rp_Get rp (c_ID c) (sv_commands sv) = Inr c" and "c_Status c = StatusDispatching"
    and ok: "ce_WriteOK (de_Cmd env ''result'')" "ce_WriteOK (de_Cmd env ''legacy'')" and n: "0 < n"
    and dl: "delivery_writes env c sv"
  shows "\<exists>sv' c'. finishDispatch rp env c n sv = (sv', (Some c', None))
    \<and> moved (c_ID c) c (if speaks_protocol (c_DeviceID c) sv then StatusDispatched else StatusLegacyUntracked)
        (sv_commands sv') c'
    \<and> sv_broker sv' = sv_broker sv \<and> sv_registry sv' = sv_registry sv \<and> sv_plans sv' = sv_plans sv"
proof -
  obtain drs where drs: "(case sv_deliveries sv of None \<Rightarrow> (sv, None)
      | Some dr \<Rightarrow> (let (dr', e) = record_delivery env c dr in (sv\<lparr>sv_deliveries := Some dr'\<rparr>, e)))
      = (sv\<lparr>sv_deliveries := drs\<rparr>, None)"
  proof (cases "sv_deliveries sv")
    case None
    then have "sv\<lparr>sv_deliveries := None\<rparr> = sv" by (metis server.surjective server.update_convs(2))
    with None that [of None] show ?thesis by simp
  next
    case (Some dr)
    with dl [unfolded delivery_writes_def] that [of "Some (fst (record_delivery env c dr))"] show ?thesis by (simp add: case_prod_beta Let_def)
  qed
  obtain s1 c1 where r: "DispatchResult rp (de_Cmd env ''result'') (c_ID c) True (sv_commands sv) = (s1, Inr c1)"
    and m1: "moved (c_ID c) c StatusDispatched s1 c1"
    using sent_moves [OF assms(1-3) ok(1)] by blast
  obtain s2 c2 where l: "MarkLegacy rp (de_Cmd env ''legacy'') (c_ID c) s1 = (s2, Inr c2)"
    and m2: "moved (c_ID c) c StatusLegacyUntracked s2 c2"
    using legacy_moves [OF movedD(1-3) [OF m1] ok(2)] moved_trans [OF m1] by blast
  show ?thesis
  proof (cases "speaks_protocol (c_DeviceID c) sv")
    case True
    then have "finishDispatch rp env c n sv = (sv\<lparr>sv_deliveries := drs, sv_commands := s1\<rparr>, (Some c1, None))"
      using n r by (auto simp: finishDispatch_def drs speaks_protocol_def split: sum.splits)
    with True m1 show ?thesis by auto
  next
    case False
    then have "finishDispatch rp env c n sv = (sv\<lparr>sv_deliveries := drs, sv_commands := s2\<rparr>, (Some c2, None))"
      using n r l by (auto simp: finishDispatch_def drs speaks_protocol_def as_pair_def split: sum.splits)
    with False m2 show ?thesis by auto
  qed
qed

lemma recover_moves:
  assumes inv: "inv (sv_commands sv)" and c: "rp_Get rp (c_ID c) (sv_commands sv) = Inr c" "c_Status c = StatusQueued"
    and w: "dispatch_writes env" "delivery_writes env c sv"
    and env: "de_Envelope env (c_Request c) (c_ID c) (c_Protocol c) ''two_phase'' = Some payload"
    and one: "one_connection dev ch (sv_broker sv)"
  shows "\<exists>c'. moved (c_ID c) c
      (if length (queue_of ch (sv_broker sv)) < 16
       then (if speaks_protocol (c_DeviceID c) sv then StatusDispatched else StatusLegacyUntracked) else StatusQueued)
      (sv_commands (recover_command rp env dev c sv)) c'"
    and "queue_of ch (sv_broker (recover_command rp env dev c sv)) = queue_of ch (sv_broker sv)
      @ (if length (queue_of ch (sv_broker sv)) < 16
         then [stamp_event (de_Unix env) dev (command_event (kind_string (c_Kind c)) c payload) (sv_broker sv)] else [])"
proof -
  let ?room = "length (queue_of ch (sv_broker sv)) < 16"
  let ?ev = "command_event (kind_string (c_Kind c)) c payload"
  have wr: "ce_WriteOK (de_Cmd env ''start'')" "ce_WriteOK (de_Cmd env ''result'')" "ce_WriteOK (de_Cmd env ''legacy'')"
    "ce_WriteOK (de_Cmd env ''requeue'')" "ce_NewID (de_Cmd env ''start'') \<noteq> None"
    using w(1) by (simp_all add: dispatch_writes_def)
  obtain s1 c1 where st: "StartDispatch rp (de_Cmd env ''start'') (c_ID c) (sv_commands sv) = (s1, Inr c1)"
    and m1: "moved (c_ID c) c StatusDispatching s1 c1"
    using start_moves [OF inv c wr(1,5)] by blast
  have same: "c_ID c1 = c_ID c" "c_Kind c1 = c_Kind c" "c_DeviceID c1 = c_DeviceID c" "c_Request c1 = c_Request c"
    "c_Protocol c1 = c_Protocol c" "c_TimeoutPolicy c1 = c_TimeoutPolicy c"
    using movedD(4) [OF m1] by (simp_all add: same_command_def)
  obtain sv2 n where p: "publish env dev ?ev (sv\<lparr>sv_commands := s1\<rparr>) = (sv2, n)" by fastforce
  have n: "n = (if ?room then 1 else 0)"
    and q: "queue_of ch (sv_broker sv2) = queue_of ch (sv_broker sv)
      @ (if n = 0 then [] else [stamp_event (de_Unix env) dev ?ev (sv_broker sv)])"
    using publish_one [of dev ch "sv\<lparr>sv_commands := s1\<rparr>", OF _ p] one by simp_all
  note fr = publish_frame [OF p, simplified]
  have ev: "command_event t c1 payload = command_event t c payload" for t by (simp add: command_event_def same)
  have pre: "inv (sv_commands sv2)" "rp_Get rp (c_ID c1) (sv_commands sv2) = Inr c1" "c_Status c1 = StatusDispatching"
    using movedD [OF m1] fr by simp_all
  have dw: "delivery_writes env c1 sv2"
    using w(2) record_delivery_same [OF movedD(4) [OF m1]] 
    unfolding delivery_writes_def fr by (simp split: option.splits)
  have sp: "speaks_protocol (c_DeviceID c1) sv2 = speaks_protocol (c_DeviceID c) sv"
    by (simp add: speaks_protocol_def fr same)
  have rec: "recover_command rp env dev c sv = (let (sv3, _, err) = finishDispatch rp env c1 n sv2 in
      if err \<noteq> None \<and> n = 0 then requeue_quietly rp env (c_ID c1) sv3 else sv3)"
    by (simp add: recover_command_def st same env ev p)
  have "(\<exists>c'. moved (c_ID c) c
      (if ?room then (if speaks_protocol (c_DeviceID c) sv then StatusDispatched else StatusLegacyUntracked) else StatusQueued)
      (sv_commands (recover_command rp env dev c sv)) c')
    \<and> sv_broker (recover_command rp env dev c sv) = sv_broker sv2"
  proof (cases ?room)
    case True
    with n have "0 < n" by simp
    from finish_heard [OF pre wr(2,3) this dw] obtain sv' c' where f: "finishDispatch rp env c1 n sv2 = (sv', Some c', None)"
      and m: "moved (c_ID c1) c1 (if speaks_protocol (c_DeviceID c1) sv2 then StatusDispatched else StatusLegacyUntracked)
        (sv_commands sv') c'" "sv_broker sv' = sv_broker sv2" by auto
    have "moved (c_ID c) c (if speaks_protocol (c_DeviceID c) sv then StatusDispatched else StatusLegacyUntracked) (sv_commands sv') c'"
      using moved_trans [OF m1 m(1) [unfolded same(1) sp]] .
    with True m(2) show ?thesis by (auto simp: rec f)
  next
    case False
    with n have n0: "n = 0" by simp
    from finish_unheard [OF pre wr(4)] obtain s' c' where f: "finishDispatch rp env c1 0 sv2 = (sv2\<lparr>sv_commands := s'\<rparr>, Some c', None)"
      and m: "moved (c_ID c1) c1 StatusQueued s' c'" by blast
    have "moved (c_ID c) c StatusQueued s' c'" using moved_trans [OF m1 m [unfolded same(1)]] .
    with False show ?thesis by (auto simp: rec n0 f)
  qed
  then show "\<exists>c'. moved (c_ID c) c
      (if ?room then (if speaks_protocol (c_DeviceID c) sv then StatusDispatched else StatusLegacyUntracked) else StatusQueued)
      (sv_commands (recover_command rp env dev c sv)) c'"
    and "queue_of ch (sv_broker (recover_command rp env dev c sv)) = queue_of ch (sv_broker sv)
      @ (if ?room then [stamp_event (de_Unix env) dev ?ev (sv_broker sv)] else [])"
    using q n by auto
qed

text \<open>A prepared command that is to be sent: new, stored and dispatching.\<close>

lemma start_started:
  assumes "inv s" and "rp_Get rp k s = Inr c" and "c_Status c = StatusQueued"
    and "StartDispatch rp env k s = (s', Inr c')"
  shows "moved k c StatusDispatching s' c'"
proof -
  obtain a where a: "ce_NewID env = Some a" using assms(2,4) by (cases "ce_NewID env") (auto simp: StartDispatch_def)
  let ?t = "(plain_transition StatusDispatching (ce_Now env))\<lparr>t_AttemptID := a\<rparr>"
  have tr: "rp_Transition rp env k (c_Revision c) ?t s = (s', Inr c')"
    using assms(2,4) a by (simp add: StartDispatch_def)
  have "c' = apply_transition (ce_Now env) ?t c" using transition_applies [OF assms(1,2) _ _ tr] assms(3) by simp
  moreover have "rp_Get rp k s' = Inr c'" using transition_done [OF assms(1,2) _ _ tr] assms(3) by simp
  moreover have "inv s'" using transition_inv [OF assms(1), of env k "c_Revision c" ?t] tr by simp
  ultimately show ?thesis by (simp add: moved_def)
qed

lemma prepare_sends:
  assumes "inv (sv_commands sv)" and "prepareCommand rp env q raw sv = (sv', Inr (c, Some wire))"
  shows "\<exists>s. sv' = sv\<lparr>sv_commands := s\<rparr> \<and> inv s \<and> rp_Get rp (c_ID c) s = Inr c \<and> c_Status c = StatusDispatching
    \<and> c_Kind c = cq_Kind q \<and> c_DeviceID c = cq_DeviceID q \<and> c_Request c = cq_Request q"
proof -
  obtain s1 c0 where cr: "svc_Create rp (de_Cmd env ''create'') q (sv_commands sv) = (s1, Inr (c0, True))"
    using assms(2) by (fastforce simp: prepareCommand_def Let_def split: prod.splits sum.splits if_splits)
  then obtain s2 where st: "StartDispatch rp (de_Cmd env ''start'') (c_ID c0) s1 = (s2, Inr c)"
    and sv': "sv' = sv\<lparr>sv_commands := s2\<rparr>"
    using assms(2) by (auto simp: prepareCommand_def Let_def split: prod.splits sum.splits option.splits)
  have c0: "inv s1" "rp_Get rp (c_ID c0) s1 = Inr c0" "c0 = new_command (de_Cmd env ''create'') q (c_ID c0)"
    using create_new [OF assms(1)] cr by (auto simp: svc_Create_def)
  have q: "c_Status c0 = StatusQueued" "c_Kind c0 = cq_Kind q" "c_DeviceID c0 = cq_DeviceID q" "c_Request c0 = cq_Request q"
    using c0(3) by (metis new_command_fields, metis new_command_fields, metis new_command_fields,
      metis (no_types, lifting) Command.select_convs(7) new_command_def)
  have m: "moved (c_ID c0) c0 StatusDispatching s2 c" by (rule start_started [OF c0(1,2) q(1) st])
  then have "c_ID c = c_ID c0" by (rule movedD)
  with m sv' q show ?thesis by (auto simp: moved_def same_command_def)
qed

lemma prepare_keeps:
  "\<exists>s. fst (prepareCommand rp env q raw sv) = sv\<lparr>sv_commands := s\<rparr>"
proof -
  have "sv = sv\<lparr>sv_commands := sv_commands sv\<rparr>" by simp
  then show ?thesis
    by (auto simp: prepareCommand_def Let_def split: prod.splits sum.splits option.splits)
qed

end

lemma CreateOrGet_result:
  assumes "CreateOrGet env q r = (r', Inr (c, b))"
  shows "if b then c = new_command env q (c_ID c)
      \<and> cr_write env (r\<lparr>cr_commands := gput (c_ID c) c (cr_commands r)\<rparr>) = (r', None) else r' = r"
  using assms by (auto simp: CreateOrGet_def split: option.splits sum.splits prod.splits)

lemma new_not_pruned: "\<not> prune_candidate now (new_command env q k)"
  by (simp add: prune_candidate_def Terminal_def)

interpretation file_dispatch: dispatch_store "file_repository enc dec" cr_inv for enc dec
proof unfold_locales
  show "\<exists>s'. rp_Transition (file_repository enc dec) env k (c_Revision c) t s
      = (s', Inr (apply_transition (ce_Now env) t c))"
    if "cr_inv s" "rp_Get (file_repository enc dec) k s = Inr c" "valid (c_Status c) (t_Status t)"
      "c_Status c \<noteq> t_Status t" "ce_WriteOK env" "t_At t = ce_Now env" for s k c t env
    using that transition_cases [of s k c env "c_Revision c" t]
    by (auto simp: file_repository_def cr_Get_iff Let_def is_zero_time_def)
  show "\<exists>e. rp_Transition (file_repository enc dec) env k v t s = (s, Inl e)"
    if "rp_Get (file_repository enc dec) k s = Inr c" "c_Status c \<noteq> t_Status t" "\<not> ce_WriteOK env" for s k c t env v
    using that transition_cases [of s k c env v t] by (auto simp: file_repository_def cr_Get_iff)
  show "c' = apply_transition (ce_Now env) t c"
    if "cr_inv s" "rp_Get (file_repository enc dec) k s = Inr c" "c_Status c \<noteq> t_Status t" "t_At t = ce_Now env"
      "rp_Transition (file_repository enc dec) env k v t s = (s', Inr c')" for s k c t env v s' c'
    using that transition_stored [of s k c t env v s' c'] by (simp add: file_repository_def cr_Get_iff)
  show "cr_inv s' \<and> rp_Get (file_repository enc dec) (c_ID c) s' = Inr c \<and> c = new_command env q (c_ID c)"
    if "cr_inv s" "rp_CreateOrGet (file_repository enc dec) env q s = (s', Inr (c, True))" for s env q s' c
  proof -
    have c: "c = new_command env q (c_ID c)"
      and w: "cr_write env (s\<lparr>cr_commands := gput (c_ID c) c (cr_commands s)\<rparr>) = (s', None)"
      using CreateOrGet_result [of env q s s' c True] that(2) by (simp_all add: file_repository_def)
    let ?s1 = "s\<lparr>cr_commands := gput (c_ID c) c (cr_commands s)\<rparr>"
    have inv: "cr_inv ?s1" using that(1) by (simp add: cr_inv_put)
    have ok: "ce_WriteOK env" using w by (simp add: cr_write_eq split: if_splits)
    have "c_ID c \<notin> set (pruneIDsLocked (ce_Now env) ?s1)"
      using pruned_candidate [OF inv, of "c_ID c" "ce_Now env"]
        new_not_pruned [of "ce_Now env" env q "c_ID c", folded c] by auto
    then have "gget (cr_commands s') (c_ID c) = Some c"
      using written_gget [OF inv ok, of "c_ID c"] w by simp
    moreover have "cr_inv s'" using written_inv [OF inv, of env] w by simp
    ultimately show ?thesis using c by (simp add: file_repository_def cr_Get_iff)
  qed
  show "s' = s" if "rp_CreateOrGet (file_repository enc dec) env q s = (s', Inr (c, False))" for env q s s' c
    using CreateOrGet_result [of env q s s' c False] that by (simp add: file_repository_def)
qed

end
