(* ===== verification/KeySyncProps.thy ===== *)
theory KeySyncProps
  imports KeySync RegistryProps
begin

text \<open>
  What the key synchronisation guarantees: the managed block of \<open>authorized_keys\<close> is replaced and
  nothing else is touched, a second run changes nothing, and a device is sent the keys its policy
  allows. Two weak points: a policy that cannot be read allows every device, and a line too long
  for the scanner takes everything after it along.
\<close>

section \<open>The lines of the block\<close>

lemma fields_chars: "f \<in> set (fields s) \<Longrightarrow> set f \<subseteq> set s"
proof (induction s rule: fields.induct)
  case (1 s)
  let ?t = "strip_all space_runes s"
  have sub: "set ?t \<subseteq> set s" if "s' = s" for s'
  proof -
    have "\<exists>n. strip_all ps u = drop n u" for ps u
    proof (induction ps u rule: strip_all.induct)
      case (1 ps u)
      have "\<exists>n. strip_one ps u = drop n u"
        by (auto simp: strip_one_def split: option.splits intro: exI [of _ 0])
      with 1 show ?case
        by (subst strip_all.simps) (metis drop_drop drop_0)
    qed
    then show ?thesis by (metis set_drop_subset)
  qed
  have word: "set (word_of u) \<subseteq> set u" for u by (induction u) auto
  from 1 show ?case
    using sub [OF refl] word [of ?t] set_drop_subset [of "length (word_of ?t)" ?t]
    by (auto simp: fields.simps [of s] Let_def split: if_splits)
qed

definition plain_line :: "string \<Rightarrow> bool" where
  "plain_line l \<longleftrightarrow> newline \<notin> set l \<and> carriage_return \<notin> set l \<and> l \<noteq> BeginMark \<and> l \<noteq> EndMark"

lemma validatePublicKey_line:
  assumes "validatePublicKey raw = Inr fs"
  shows "plain_line (fs ! 0 @ '' '' @ fs ! 1 @ '' '' @ sanitizeComment dev)"
proof -
  let ?rest = "dropWhile (\<lambda>f. f \<notin> set allowedAlgorithms) (fields raw)"
  from assms have fs: "fs = ?rest" "2 \<le> length ?rest" and clean: "newline \<notin> set raw" "carriage_return \<notin> set raw"
    by (auto simp: validatePublicKey_def Let_def list_ex_iff split: if_splits)
  then obtain f g gs where f: "?rest = f # g # gs" by (cases ?rest; cases "tl ?rest") auto
  have "f \<in> set allowedAlgorithms" using hd_dropWhile [of "\<lambda>f. f \<notin> set allowedAlgorithms" "fields raw"] f by simp
  then have "hd f \<noteq> CHR ''#'' \<and> f \<noteq> []" by (auto simp: allowedAlgorithms_def)
  moreover have "f \<in> set (fields raw)" "g \<in> set (fields raw)"
    using set_dropWhileD [of _ "\<lambda>f. f \<notin> set allowedAlgorithms" "fields raw"] f by auto
  then have "set f \<subseteq> set raw" "set g \<subseteq> set raw" using fields_chars by blast+
  moreover have "newline \<notin> set (sanitizeComment dev)" "carriage_return \<notin> set (sanitizeComment dev)"
    by (auto simp: sanitizeComment_def newline_def carriage_return_def)
  ultimately show ?thesis
    using clean fs f
    by (cases f) (auto simp: plain_line_def BeginMark_def EndMark_def newline_def carriage_return_def)
qed

lemma block_lines_plain: "block_lines ks seen = Inr ls \<Longrightarrow> list_all plain_line ls"
proof (induction ks arbitrary: seen ls)
  case (Cons k ks)
  then obtain fs where "validatePublicKey (k_PublicKey k) = Inr fs" by (auto split: sum.splits)
  with Cons validatePublicKey_line [OF this, of "k_DeviceID k"] show ?case
    by (auto simp: Let_def split: sum.splits if_splits)
qed simp

section \<open>The marks\<close>

definition unmarked :: "string list \<Rightarrow> bool" where
  "unmarked ls \<longleftrightarrow> BeginMark \<notin> set ls \<and> EndMark \<notin> set ls"

lemma marks_differ [simp]: "BeginMark \<noteq> EndMark" "EndMark \<noteq> BeginMark" "BeginMark \<noteq> []" "EndMark \<noteq> []"
    "[] \<noteq> BeginMark" "[] \<noteq> EndMark"
  by (simp_all add: BeginMark_def EndMark_def)

lemma unmarked_simps [simp]:
  "unmarked []" "unmarked (l # ls) \<longleftrightarrow> l \<noteq> BeginMark \<and> l \<noteq> EndMark \<and> unmarked ls"
  "unmarked (xs @ ys) \<longleftrightarrow> unmarked xs \<and> unmarked ys"
  by (auto simp: unmarked_def)

lemma find_marks_unmarked:
  "unmarked xs \<Longrightarrow> find_marks (xs @ ls) i st en = find_marks ls (i + length xs) st en"
  by (induction xs arbitrary: i) (simp_all add: Let_def)

lemma find_marks_both:
  "find_marks ls i (Some s) (Some e) = Inr r \<longleftrightarrow> unmarked ls \<and> r = (Some s, Some e)"
  by (induction ls arbitrary: i) (auto simp: Let_def)

lemma first_mark:
  obtains "unmarked ls"
    | pre x post where "ls = pre @ x # post" "unmarked pre" "x = BeginMark \<or> x = EndMark"
proof (cases "unmarked ls")
  case False
  then have "\<exists>x \<in> set ls. x = BeginMark \<or> x = EndMark" by (auto simp: unmarked_def)
  from split_list_first_prop [OF this] that(2) show thesis by (auto simp: unmarked_def)
qed

lemma find_marks_begun:
  assumes "find_marks ls i (Some s) None = Inr r"
  shows "(unmarked ls \<and> r = (Some s, None))
     \<or> (\<exists>mid post. ls = mid @ EndMark # post \<and> unmarked mid \<and> unmarked post
          \<and> r = (Some s, Some (i + length mid)))"
proof (cases ls rule: first_mark)
  case 1
  with assms find_marks_unmarked [OF 1, of "[]" i "Some s" None] show ?thesis by simp
next
  case (2 pre x post)
  with assms have "x = EndMark \<and> unmarked post \<and> r = (Some s, Some (i + length pre))"
    by (auto simp: find_marks_unmarked find_marks_both)
  with 2 show ?thesis by blast
qed

lemma find_marks_start:
  assumes "find_marks ls i None None = Inr r"
  shows "(unmarked ls \<and> r = (None, None))
     \<or> (\<exists>pre rest. ls = pre @ BeginMark # rest \<and> unmarked pre
          \<and> find_marks rest (Suc (i + length pre)) (Some (i + length pre)) None = Inr r)"
proof (cases ls rule: first_mark)
  case 1
  with assms find_marks_unmarked [OF 1, of "[]" i None None] show ?thesis by simp
next
  case (2 pre x post)
  with assms have "x = BeginMark \<and> find_marks post (Suc (i + length pre)) (Some (i + length pre)) None = Inr r"
    by (auto simp: find_marks_unmarked)
  with 2 show ?thesis by blast
qed

text \<open>When a block is found, and when none is.\<close>

lemma UpdateManagedBlock_cases:
  assumes "UpdateManagedBlock existing ks = Inr out"
  obtains block pre old post where "block_lines ks [] = Inr block"
      "scanLines existing = pre @ [BeginMark] @ old @ [EndMark] @ post" "unmarked pre" "unmarked old" "unmarked post"
      "out = unlines (pre @ [BeginMark] @ block @ [EndMark] @ post)"
    | block where "block_lines ks [] = Inr block" "unmarked (scanLines existing)"
      "out = unlines ((if scanLines existing \<noteq> [] \<and> last (scanLines existing) \<noteq> []
                       then scanLines existing @ [[]] else scanLines existing)
                      @ [BeginMark] @ block @ [EndMark])"
proof -
  let ?ls = "scanLines existing"
  from assms obtain block st en where b: "block_lines ks [] = Inr block"
    and m: "find_marks ?ls 0 None None = Inr (st, en)"
    by (auto simp: UpdateManagedBlock_def Let_def split: sum.splits)
  from m consider "unmarked ?ls" "st = None" "en = None"
    | pre rest where "?ls = pre @ BeginMark # rest" "unmarked pre"
        "find_marks rest (Suc (length pre)) (Some (length pre)) None = Inr (st, en)"
    using find_marks_start by fastforce
  then show thesis
  proof cases
    case 1
    with assms b m that(2) show thesis by (simp add: UpdateManagedBlock_def Let_def)
  next
    case (2 pre rest)
    from 2(3) assms b m obtain mid post where r: "rest = mid @ EndMark # post" "unmarked mid" "unmarked post"
      "st = Some (length pre)" "en = Some (Suc (length pre) + length mid)"
      using find_marks_begun [OF 2(3)] by (auto simp: UpdateManagedBlock_def Let_def)
    with 2(1) have ls: "?ls = pre @ [BeginMark] @ mid @ [EndMark] @ post" by simp
    have "out = unlines (pre @ [BeginMark] @ block @ [EndMark] @ post)"
      using assms b m r unfolding ls by (simp add: UpdateManagedBlock_def Let_def ls)
    with that(1) b ls 2(2) r show thesis by blast
  qed
qed

section \<open>Reading back what was written\<close>

lemma trim_suffix_snoc: "trim_suffix (s @ [c]) [c] = s"
  by (simp add: trim_suffix_def has_suffix_def)

lemma unlines_snoc: "unlines (xs @ [x]) = (unlines xs @ x) @ [newline]"
  by (simp add: unlines_def)

lemma unlines_append: "unlines (xs @ ys) = unlines xs @ unlines ys"
  by (simp add: unlines_def)

lemma split_at_unlines_rest:
  "list_all (\<lambda>l. newline \<notin> set l) xs \<Longrightarrow> split_at newline (unlines xs @ r) = xs @ split_at newline r"
  by (induction xs) (simp_all add: unlines_def split_at_append)

lemma text_lines_open:
  "list_all (\<lambda>l. newline \<notin> set l) xs \<Longrightarrow> newline \<notin> set x \<Longrightarrow> x \<noteq> [] \<Longrightarrow>
    text_lines (unlines xs @ x) = xs @ [x]"
  by (simp add: text_lines_def split_at_unlines_rest split_at_no_sep)

definition tidy :: "string \<Rightarrow> bool" where
  "tidy l \<longleftrightarrow> newline \<notin> set l \<and> carriage_return \<notin> set l"

lemma drop_cr_tidy: "tidy l \<Longrightarrow> drop_cr l = l"
  by (auto simp: drop_cr_def tidy_def dest: last_in_set)

lemma scanLines_unlines:
  assumes "list_all tidy L" and "list_all (\<lambda>l. length l < scan_limit) L" and "L \<noteq> []" and "last L \<noteq> []"
  shows "scanLines (unlines L) = L"
proof -
  obtain xs x where L: "L = xs @ [x]" using assms(3) by (cases L rule: rev_cases) auto
  have nl: "list_all (\<lambda>l. newline \<notin> set l) xs" "newline \<notin> set x"
    using assms(1) L by (auto simp: tidy_def list_all_iff)
  have ts: "trim_suffix (unlines L) [newline] = unlines xs @ x" by (simp add: L unlines_snoc trim_suffix_snoc del: append_assoc)
  have tl: "text_lines (unlines xs @ x) = L" using nl assms(4) L by (simp add: text_lines_open)
  have tw: "takeWhile (\<lambda>l. length l < scan_limit) L = L"
    using assms(2) by (simp add: takeWhile_eq_all_conv list_all_iff)
  have mp: "map drop_cr L = L" using assms(1) by (intro map_idI) (simp add: drop_cr_tidy list_all_iff)
  have ne: "(unlines xs @ x = []) = False" using assms(4) L by simp
  show ?thesis unfolding scanLines_def Let_def ts scan_lines_def tl tw fst_conv mp ne by simp
qed

lemma scanLines_tidy:
  assumes "carriage_return \<notin> set existing"
  shows "list_all tidy (scanLines existing)"
proof -
  let ?b = "trim_suffix existing [newline]"
  have b: "set ?b \<subseteq> set existing" by (auto simp: trim_suffix_def dest: in_set_takeD)
  have piece: "tidy l" if "l \<in> set (text_lines ?b)" for l
  proof -
    from that have "l \<in> set (split_at newline ?b)"
      by (auto simp: text_lines_def Let_def dest: in_set_butlastD split: if_splits)
    then show ?thesis using split_at_pieces split_at_chars [of l newline ?b] b assms
      by (auto simp: tidy_def)
  qed
  have "tidy l" if "l \<in> set (scanLines existing)" for l
  proof -
    from that obtain l0 where "l0 \<in> set (text_lines ?b)" "l = drop_cr (drop_cr l0)"
      by (auto simp: scanLines_def scan_lines_def Let_def dest: set_takeWhileD split: if_splits)
    with piece show ?thesis by (simp add: drop_cr_tidy)
  qed
  then show ?thesis by (simp add: list_all_iff)
qed

lemma UpdateManagedBlock_again:
  assumes b: "block_lines ks [] = Inr block" and ls: "scanLines t = pre @ [BeginMark] @ old @ [EndMark] @ post"
    and um: "unmarked pre" "unmarked old" "unmarked post"
  shows "UpdateManagedBlock t ks = Inr (unlines (pre @ [BeginMark] @ block @ [EndMark] @ post))"
proof -
  have "find_marks (scanLines t) 0 None None = Inr (Some (length pre), Some (Suc (length pre + length old)))"
    using find_marks_unmarked [OF um(3), of "[]"] by (simp add: ls find_marks_unmarked um Let_def)
  then show ?thesis by (simp add: UpdateManagedBlock_def b Let_def ls)
qed

lemma managed_block:
  assumes "UpdateManagedBlock existing ks = Inr out"
  shows "\<exists>block pre post. block_lines ks [] = Inr block
    \<and> out = unlines (pre @ [BeginMark] @ block @ [EndMark] @ post) \<and> unmarked (pre @ post)
    \<and> ((\<exists>old. scanLines existing = pre @ [BeginMark] @ old @ [EndMark] @ post)
       \<or> (post = [] \<and> unmarked (scanLines existing)
          \<and> (pre = scanLines existing \<or> pre = scanLines existing @ [[]])))"
  using assms
proof (cases rule: UpdateManagedBlock_cases)
  case (1 block pre old post)
  then show ?thesis by (metis unmarked_simps(3))
next
  case (2 block)
  let ?pre = "if scanLines existing \<noteq> [] \<and> last (scanLines existing) \<noteq> []
    then scanLines existing @ [[]] else scanLines existing"
  from 2 have "unmarked (?pre @ [])" "?pre = scanLines existing \<or> ?pre = scanLines existing @ [[]]" by auto
  moreover have "out = unlines (?pre @ [BeginMark] @ block @ [EndMark] @ [])" using 2(3) by simp
  ultimately show ?thesis using 2(1,2) by blast
qed


definition sample_key :: Key where
  "sample_key = \<lparr>k_DeviceID = ''nas'', k_PublicKey = ''ssh-rsa AAAA x''\<rparr>"

lemma fields_sample: "fields ''ssh-rsa AAAA x'' = [''ssh-rsa'', ''AAAA'', ''x'']"
proof -
  have g: "\<not> starts_space (c # cs)" if "graphic c" for c cs
    using strip_one_graphic [of space_runes "c # cs"] space_runes_not_graphic that
    by (auto simp: starts_space_def list_all_iff)
  have sp: "starts_space (CHR '' '' # cs)" for cs
    by (simp add: starts_space_def strip_one_space)
  have sa: "strip_all space_runes (c # cs) = c # cs" if "graphic c" for c cs
    using g [OF that] by (simp add: starts_space_def strip_all_same)
  have st: "strip_all space_runes (CHR '' '' # c # cs) = c # cs" if "graphic c" for c cs
    using sa [OF that] by (subst strip_all.simps) (simp add: strip_one_space)
  have e: "strip_all space_runes [] = []" by (simp add: strip_all.simps strip_one_def space_runes_def)
  show ?thesis
    by (subst fields.simps, simp add: sa graphic_def Let_def g sp,
        subst fields.simps, simp add: st graphic_def Let_def g sp,
        subst fields.simps, simp add: st graphic_def Let_def g sp,
        subst fields.simps, simp add: e)
qed

lemma sample_key_valid: "validatePublicKey (k_PublicKey sample_key) = Inr [''ssh-rsa'', ''AAAA'', ''x'']"
  by (simp add: validatePublicKey_def sample_key_def fields_sample contains_def allowedAlgorithms_def
      base64_std_ok_def base64_char_def newline_def carriage_return_def upt_rec Let_def)

lemma sample_block: "block_lines [sample_key] [] = Inr [''ssh-rsa AAAA nas'']"
  by (simp add: sample_key_valid Let_def)
    (simp add: sample_key_def sanitizeComment_def newline_def carriage_return_def)

definition sample_keys_file :: string where
  "sample_keys_file = unlines [''ssh-rsa BBBB me'', BeginMark, EndMark]"

lemma sample_file_lines: "scanLines sample_keys_file = [''ssh-rsa BBBB me'', BeginMark, EndMark]"
  unfolding sample_keys_file_def
  by (rule scanLines_unlines)
    (simp_all add: tidy_def newline_def carriage_return_def scan_limit_def BeginMark_def EndMark_def)

lemma sample_update: "UpdateManagedBlock sample_keys_file [sample_key] =
    Inr (unlines [''ssh-rsa BBBB me'', BeginMark, ''ssh-rsa AAAA nas'', EndMark])"
  using UpdateManagedBlock_again [OF sample_block, of sample_keys_file "[''ssh-rsa BBBB me'']" "[]" "[]"]
  by (simp add: sample_file_lines) (simp add: BeginMark_def EndMark_def)


text \<open>
  Updating the managed block twice with the same keys is updating it once: the second run
  produces the same text and so leaves the file alone (for a file without carriage returns, not
  ending in a blank line, whose lines fit the scanner).
\<close>

theorem managed_block_idempotent:
  assumes up: "UpdateManagedBlock existing ks = Inr out"
    and cr: "carriage_return \<notin> set existing" and blank: "scanLines existing \<noteq> [] \<longrightarrow> last (scanLines existing) \<noteq> []"
    and short: "list_all (\<lambda>l. length l < scan_limit) (text_lines out)"
  shows "UpdateManagedBlock out ks = Inr out
    \<and> ApplyManagedFile ok (KeysText out) ks = (KeysText out, Inr False)"
proof -
  have tidy: "list_all tidy (scanLines existing)" using cr by (rule scanLines_tidy)
  have mk: "tidy BeginMark" "tidy EndMark"
    by (simp_all add: tidy_def BeginMark_def EndMark_def newline_def carriage_return_def)
  from managed_block [OF up] obtain block pre post where b: "block_lines ks [] = Inr block"
    and out: "out = unlines (pre @ [BeginMark] @ block @ [EndMark] @ post)" and um: "unmarked (pre @ post)"
    and old: "(\<exists>old. scanLines existing = pre @ [BeginMark] @ old @ [EndMark] @ post)
       \<or> (post = [] \<and> (pre = scanLines existing \<or> pre = scanLines existing @ [[]]))" by blast
  let ?L = "pre @ [BeginMark] @ block @ [EndMark] @ post"
  have block: "list_all tidy block" "unmarked block"
    using block_lines_plain [OF b] by (auto simp: plain_line_def tidy_def list_all_iff unmarked_def)
  have "tidy []" by (simp add: tidy_def)
  then have L: "list_all tidy ?L" using tidy old mk block by auto
  then have "text_lines out = ?L"
    unfolding out by (intro text_lines_unlines) (auto simp: list_all_iff tidy_def)
  moreover have "last ?L \<noteq> []" using old blank by (cases "post = []") auto
  ultimately have "scanLines out = ?L"
    unfolding out using L short out by (intro scanLines_unlines) auto
  from UpdateManagedBlock_again [OF b this] um block show ?thesis
    by (simp add: out ApplyManagedFile_def)
qed

theorem managed_block_idempotent_witness:
  "UpdateManagedBlock (unlines [''ssh-rsa BBBB me'', BeginMark, ''ssh-rsa AAAA nas'', EndMark]) [sample_key]
    = Inr (unlines [''ssh-rsa BBBB me'', BeginMark, ''ssh-rsa AAAA nas'', EndMark])"
proof -
  have "carriage_return \<notin> set sample_keys_file"
    by (simp add: sample_keys_file_def unlines_def BeginMark_def EndMark_def newline_def carriage_return_def)
  moreover have "text_lines (unlines [''ssh-rsa BBBB me'', BeginMark, ''ssh-rsa AAAA nas'', EndMark])
      = [''ssh-rsa BBBB me'', BeginMark, ''ssh-rsa AAAA nas'', EndMark]"
    by (rule text_lines_unlines) (simp add: BeginMark_def EndMark_def newline_def)
  ultimately show ?thesis
    using managed_block_idempotent [OF sample_update, of True] sample_file_lines
    by (simp add: scan_limit_def BeginMark_def EndMark_def)
qed

section \<open>Lines that do not fit the scanner\<close>

lemma takeWhile_stop: "list_all P xs \<Longrightarrow> \<not> P x \<Longrightarrow> takeWhile P (xs @ x # ys) = xs"
  by (induction xs) auto

lemma scanLines_long:
  assumes tidy: "list_all tidy (pre @ long # rest)" and short: "list_all (\<lambda>l. length l < scan_limit) pre"
    and long: "scan_limit \<le> length long"
  shows "scanLines (unlines (pre @ long # rest)) = pre"
proof -
  obtain ys y where L: "pre @ long # rest = ys @ [y]" by (metis append_is_Nil_conv list.distinct(1) rev_exhaust)
  have nl: "list_all (\<lambda>l. newline \<notin> set l) ys" "newline \<notin> set y"
    using tidy unfolding L by (auto simp: tidy_def list_all_iff)
  have ts: "trim_suffix (unlines (pre @ long # rest)) [newline] = unlines ys @ y"
    by (simp add: L unlines_snoc trim_suffix_snoc del: append_assoc)
  have tl: "text_lines (unlines ys @ y) = (if y = [] then ys else ys @ [y])"
    using nl text_lines_unlines [of ys] by (simp add: text_lines_open)
  have "\<exists>zs. (if y = [] then ys else ys @ [y]) = pre @ long # zs"
  proof (cases "y = []")
    case True
    with long L have "rest \<noteq> []" by (auto simp: scan_limit_def)
    then have "ys = pre @ long # butlast rest" using arg_cong [OF L, of butlast] by (simp add: butlast_append)
    with True show ?thesis by simp
  next
    case False
    then show ?thesis unfolding L [symmetric] by simp
  qed
  then obtain zs where zs: "text_lines (unlines ys @ y) = pre @ long # zs" using tl by auto
  have tw: "takeWhile (\<lambda>l. length l < scan_limit) (pre @ long # zs) = pre"
    using short long by (intro takeWhile_stop) auto
  have "list_all tidy pre" using tidy by simp
  then have mp: "map drop_cr pre = pre" by (intro map_idI) (simp add: drop_cr_tidy list_all_iff)
  have "unlines ys @ y \<noteq> []"
    using zs by (auto simp: text_lines_def)
  then have ne: "(unlines ys @ y = []) = False" by simp
  show ?thesis unfolding scanLines_def Let_def ts scan_lines_def zs tw fst_conv mp ne by simp
qed

text \<open>
  A line of 65536 bytes or more ends the scan without an error, so an update writes the file
  back without that line and without everything after it: keys of the user are lost.
\<close>

theorem long_line_loses_keys:
  assumes tidy: "list_all tidy (pre @ long # rest)" and short: "list_all (\<lambda>l. length l < scan_limit) pre"
    and long: "scan_limit \<le> length long" and pre: "unmarked pre" "pre \<noteq> []" "last pre \<noteq> []"
    and block: "block_lines ks [] = Inr block"
  shows "UpdateManagedBlock (unlines (pre @ long # rest)) ks =
    Inr (unlines (pre @ [[]] @ [BeginMark] @ block @ [EndMark]))"
proof -
  have ls: "scanLines (unlines (pre @ long # rest)) = pre" by (rule scanLines_long [OF tidy short long])
  have "find_marks pre 0 None None = Inr (None, None)"
    using find_marks_unmarked [OF pre(1), of "[]"] by simp
  with pre block show ?thesis by (simp add: UpdateManagedBlock_def ls Let_def)
qed

theorem long_line_loses_keys_witness:
  "UpdateManagedBlock (unlines ([''ssh-rsa BBBB me''] @ replicate 65536 CHR ''x'' # [''ssh-rsa CCCC you''])) [sample_key]
    = Inr (unlines ([''ssh-rsa BBBB me''] @ [[]] @ [BeginMark] @ [''ssh-rsa AAAA nas''] @ [EndMark]))"
  by (rule long_line_loses_keys [OF _ _ _ _ _ _ sample_block])
    (simp_all add: tidy_def scan_limit_def newline_def carriage_return_def BeginMark_def EndMark_def)

section \<open>The keys a device is sent\<close>

text \<open>The rule of the policy: a device always has its own key; a listed target takes the keys it names.\<close>

definition key_allowed :: "Policy \<Rightarrow> string \<Rightarrow> string \<Rightarrow> bool" where
  "key_allowed p target src \<longleftrightarrow> src = target
     \<or> (case gget (pol_Devices p) target of Some ids \<Rightarrow> src \<in> set ids | None \<Rightarrow> pol_DefaultAllow p)"

lemma Resolve_allowed: "Resolve p t devs = filter (\<lambda>d. key_allowed p t (d_ID d)) devs"
  by (auto simp: Resolve_def key_allowed_def allowed_of_def Let_def intro!: filter_cong split: option.splits)

lemma set_List: "set (List r) = set (gvals (reg_devices r))"
  by (simp add: List_def del: set_map)

lemma set_map_filter_image: "set (map g (filter P xs)) = g ` {x \<in> set xs. P x}"
  by (induction xs) auto

lemma set_payload_keys:
  "set (payload_keys adminKey pol t r) =
    (if adminKey \<noteq> [] then {\<lparr>k_DeviceID = ''homeagent-admin'', k_PublicKey = adminKey\<rparr>} else {})
    \<union> (\<lambda>d. \<lparr>k_DeviceID = d_ID d, k_PublicKey = d_PublicKey d\<rparr>)
        ` {d \<in> set (gvals (reg_devices r)). key_allowed pol t (d_ID d)}"
  unfolding payload_keys_def Resolve_allowed set_append set_map_filter_image set_List by simp

text \<open>
  C9: A known device is sent the administrator's key, if there is one, and exactly the keys of the
  devices its policy allows, its own among them; with a policy that loads, the SSH controller
  sends the same keys.
\<close>

theorem key_payload_follows_policy:
  assumes "resolveDeviceKeySyncPayload sha fl adminKey version t r = Inr p" and "snd (Load fl) = None"
  shows "set (ks_Keys p) =
      (if adminKey \<noteq> [] then {\<lparr>k_DeviceID = ''homeagent-admin'', k_PublicKey = adminKey\<rparr>} else {})
      \<union> {\<lparr>k_DeviceID = d_ID d, k_PublicKey = d_PublicKey d\<rparr> | d.
           d \<in> set (gvals (reg_devices r)) \<and> key_allowed (fst (Load fl)) t (d_ID d)}
    \<and> sync_keys fl adminKey t r = Inr (ks_Keys p)"
proof -
  obtain pol where pol: "Load fl = (pol, None)" using assms(2) by (cases "Load fl") auto
  from assms(1) have p: "ks_Keys p = payload_keys adminKey pol t r" and g: "\<exists>d. Get t r = Inr d"
    by (auto simp: resolveDeviceKeySyncPayload_def Let_def pol split: sum.splits)
  note keys = set_payload_keys [of adminKey pol t r, folded p]
  have "sync_keys fl adminKey t r = Inr (ks_Keys p)"
    using g by (auto simp: sync_keys_def pol p)
  then show ?thesis unfolding keys pol fst_conv by blast
qed

definition other_device :: Device where
  "other_device = sample_device\<lparr>d_ID := ''pi-1'', d_PublicKey := ''ssh-ed25519 BBBB''\<rparr>"

definition key_reg :: Registry where
  "key_reg = ApplyCommittedDevice other_device sample_reg"

lemma key_reg_facts [simp]:
  "reg_devices key_reg = [(''nas-1'', sample_device), (''pi-1'', other_device)]"
  by (simp add: key_reg_def ApplyCommittedDevice_def) (simp add: other_device_def)

lemma Load_absent [simp]: "Load PolicyAbsent = (allow_all_policy, None)"
  by (simp add: Load_def)

theorem key_payload_follows_policy_witness:
  "\<exists>p. resolveDeviceKeySyncPayload (\<lambda>_. ''h'') PolicyAbsent [] 4 ''nas-1'' key_reg = Inr p
    \<and> sync_keys PolicyAbsent [] ''nas-1'' key_reg = Inr (ks_Keys p)"
proof -
  obtain p where p: "resolveDeviceKeySyncPayload (\<lambda>_. ''h'') PolicyAbsent [] 4 ''nas-1'' key_reg = Inr p"
    by (simp add: resolveDeviceKeySyncPayload_def Get_def Let_def)
  from p key_payload_follows_policy [OF this] show ?thesis by simp
qed

definition plain_text :: "string \<Rightarrow> bool" where
  "plain_text v \<longleftrightarrow> v \<noteq> [] \<and> list_all graphic v \<and> CHR ''#'' \<notin> set v"

lemma load_line_invalid:
  assumes "plain_text v" and "v \<noteq> ''allow_all''" and "v \<noteq> ''deny''"
  shows "load_line (''default_policy: '' @ v) st = (st, Some (ErrInvalidDefaultPolicy v))"
proof -
  let ?l = "''default_policy: '' @ v"
  have v: "graphic (hd v)" "graphic (last v)" "v \<noteq> []" "CHR ''#'' \<notin> set v"
    using assms(1) by (auto simp: plain_text_def list_all_iff)
  have "graphic (CHR ''d'')" by (simp add: graphic_def)
  then have ts: "trim_space ?l = ?l" using v by (intro trim_space_graphic) auto
  have sc: "strip_comment ?l = ?l" using v by (auto simp: strip_comment_def takeWhile_eq_all_conv)
  have "\<not> graphic (CHR '' '')" "\<not> graphic (CHR 0x09)" "\<not> graphic (CHR 0x0D)" by (simp_all add: graphic_def)
  then have "last v \<notin> {CHR '' '', CHR 0x09, CHR 0x0D}" using v(2) by auto
  then have tr: "trim_right_blank ?l = ?l" using v(3) by (cases v rule: rev_cases) (auto simp: trim_right_blank_def)
  have "trim_prefix ?l ''default_policy:'' = CHR '' '' # v" by (simp add: trim_prefix_def)
  then have tp: "trim_space (trim_prefix ?l ''default_policy:'') = v"
    using trim_space_graphic [OF v(3) v(1,2)] by simp
  show ?thesis using assms(2,3) unfolding load_line_def Let_def tr sc ts tp by simp
qed

text \<open>
  A policy that cannot be read allows everything: when the policy file cannot be opened, or
  its first line sets an unknown default, the payload of every device has the keys of all
  devices, although the SSH controller refuses to send any.
\<close>

theorem policy_error_fails_open:
  assumes known: "gget (reg_devices r) t = Some d"
    and bad: "fl = PolicyUnreadable \<or> (\<exists>txt v ls. fl = PolicyText txt
      \<and> fst (scan_lines txt) = (''default_policy: '' @ v) # ls
      \<and> plain_text v \<and> v \<noteq> ''allow_all'' \<and> v \<noteq> ''deny'')"
  shows "\<exists>p. resolveDeviceKeySyncPayload sha fl adminKey version t r = Inr p
    \<and> (\<forall>e \<in> set (gvals (reg_devices r)).
         \<lparr>k_DeviceID = d_ID e, k_PublicKey = d_PublicKey e\<rparr> \<in> set (ks_Keys p))
    \<and> sync_keys fl adminKey t r = Inl ''invalid policy''"
proof -
  have "\<exists>e. Load fl = (allow_all_policy, Some e)"
    using bad load_line_invalid by (auto simp: Load_def case_prod_beta Let_def)
  then obtain e where l: "Load fl = (allow_all_policy, Some e)" ..
  have "\<lparr>k_DeviceID = d_ID e', k_PublicKey = d_PublicKey e'\<rparr> \<in> set (payload_keys adminKey allow_all_policy t r)"
    if "e' \<in> set (gvals (reg_devices r))" for e'
    unfolding set_payload_keys using that by (auto simp: key_allowed_def allow_all_policy_def simp del: set_map split: option.splits)
  moreover have "Get t r = Inr d" using known by (simp add: Get_def)
  ultimately show ?thesis
    by (simp add: resolveDeviceKeySyncPayload_def sync_keys_def l Let_def del: set_map)
qed

theorem policy_error_fails_open_witness:
  "\<exists>p. resolveDeviceKeySyncPayload (\<lambda>_. ''h'') (PolicyText (unlines [''default_policy: denied''])) [] 4 ''nas-1'' key_reg = Inr p
    \<and> \<lparr>k_DeviceID = ''pi-1'', k_PublicKey = ''ssh-ed25519 BBBB''\<rparr> \<in> set (ks_Keys p)"
proof -
  have "scan_lines (unlines [''default_policy: denied'']) = ([''default_policy: denied''], True)"
    by (rule scan_unlines) (simp add: newline_def carriage_return_def scan_limit_def)
  moreover have "plain_text ''denied''" by (simp add: plain_text_def graphic_def)
  ultimately show ?thesis
    using policy_error_fails_open [of key_reg "''nas-1''" sample_device
        "PolicyText (unlines [''default_policy: denied''])" "\<lambda>_. ''h''" "[]" 4]
    by (auto simp: other_device_def)
qed

end
