(* ===== verification/DispatchProps.thy ===== *)
theory DispatchProps
  imports DispatchInv CommandProps KeySyncProps
begin

text \<open>
  What happens to a command on its way: the delivery of queued commands at a reconnect, and the
  cases in which a command, a push or an acknowledgement goes wrong between the components.
\<close>

section \<open>Queued commands\<close>

definition queued_in :: "Command \<Rightarrow> command_repo server \<Rightarrow> bool" where
  "queued_in c sv \<longleftrightarrow> cr_inv (sv_commands sv) \<and> cr_Get (c_ID c) (sv_commands sv) = Inr c \<and> c_Status c = StatusQueued"

lemma command_recovered:
  assumes "queued_in c sv" and "c_ID c \<noteq> []"
    and "dispatch_writes env" and "delivery_writes env c sv"
    and "de_Envelope env (c_Request c) (c_ID c) (c_Protocol c) ''two_phase'' = Some payload"
    and "one_connection dev ch (sv_broker sv)"
  shows "let sv' = recover_command (file_repository enc dec) env dev c sv in
    \<exists>c' ev. cr_Get (c_ID c) (sv_commands sv') = Inr c' \<and> same_command c c'
      \<and> ev_Type ev = kind_string (c_Kind c) \<and> ev_ID ev = c_ID c \<and> ev_Data ev = payload
      \<and> (if length (queue_of ch (sv_broker sv)) < 16
         then queue_of ch (sv_broker sv') = queue_of ch (sv_broker sv) @ [ev]
           \<and> c_Status c' = (if speaks_protocol (c_DeviceID c) sv then StatusDispatched else StatusLegacyUntracked)
         else queue_of ch (sv_broker sv') = queue_of ch (sv_broker sv) \<and> c_Status c' = StatusQueued)"
proof -
  let ?rp = "file_repository enc dec"
  let ?ev = "stamp_event (de_Unix env) dev (command_event (kind_string (c_Kind c)) c payload) (sv_broker sv)"
  have get: "rp_Get ?rp k s = cr_Get k s" for k s by (simp add: file_repository_def)
  have pre: "cr_inv (sv_commands sv)" "rp_Get ?rp (c_ID c) (sv_commands sv) = Inr c" "c_Status c = StatusQueued"
    using assms(1) by (simp_all add: queued_in_def get)
  obtain c' where c': "file_dispatch.moved enc dec (c_ID c) c
      (if length (queue_of ch (sv_broker sv)) < 16
       then (if speaks_protocol (c_DeviceID c) sv then StatusDispatched else StatusLegacyUntracked) else StatusQueued)
      (sv_commands (recover_command ?rp env dev c sv)) c'"
    using file_dispatch.recover_moves(1) [OF pre assms(3-6)] by blast
  have ev: "ev_Type ?ev = kind_string (c_Kind c)" "ev_ID ?ev = c_ID c" "ev_Data ?ev = payload"
    using assms(2) by (simp_all add: stamp_event_def command_event_def Let_def)
  show ?thesis
    unfolding Let_def
    using file_dispatch.movedD [OF c'] file_dispatch.recover_moves(2) [OF pre assms(3-6)] ev
    by (intro exI [of _ c'] exI [of _ ?ev]) (simp add: get)
qed

definition sample_dispatch_env :: dispatch_env where
  "sample_dispatch_env = \<lparr>de_Cmd = (\<lambda>_. sample_cmd_env), de_DeliveryOK = (\<lambda>_. True), de_Now = seconds 100,
     de_Unix = 5, de_Reg = sample_reg_env, de_Envelope = (\<lambda>raw i p m. Some (raw @ i)), de_Sha256 = (\<lambda>s. s),
     de_Policy = PolicyAbsent, de_AdminKey = [], de_PayloadJSON = (\<lambda>_. ''{}''),
     de_GitHub = Some (Inr (3, ''h'', ''secret'')), de_SyncJSON = (\<lambda>_ h. h), de_ReasonJSON = (\<lambda>r. r),
     de_RevokeJSON = (\<lambda>r. r), de_AckResult = (\<lambda>_ _ _. ''{}''), de_PhaseDigests = (\<lambda>_. ([], [], [])),
     de_KeyResult = (\<lambda>_. Inr (0, [])), de_SyncResult = (\<lambda>_. Inr []), de_RegText = (\<lambda>_. ''e'')\<rparr>"

text \<open>A server with one device, which speaks the protocol, and one command.\<close>

definition modern_device :: Device where
  "modern_device = sample_device\<lparr>d_ControlProtocols := Some [1]\<rparr>"

definition modern_reg :: Registry where
  "modern_reg = ApplyCommittedDevice modern_device (empty_registry None)"

definition sample_server :: "Command \<Rightarrow> Broker \<Rightarrow> command_repo server" where
  "sample_server c b = \<lparr>sv_commands = \<lparr>cr_commands = [(c_ID c, c)], cr_file = Some [c]\<rparr>, sv_deliveries = None,
     sv_broker = b, sv_registry = modern_reg, sv_plans = None, sv_version = 0, sv_CommandTimeouts = []\<rparr>"

definition connected :: Broker where
  "connected = fst (Subscribe ''nas-1'' New)"

lemma sample_dispatch_facts [simp]:
  "dispatch_writes sample_dispatch_env" "delivery_writes sample_dispatch_env c (sample_server c' b)"
  "one_connection ''nas-1'' 0 connected" "queue_of 0 connected = []"
  "c_Status c = StatusQueued \<Longrightarrow> queued_in c (sample_server c b)"
  "de_Envelope sample_dispatch_env raw i p m = Some (raw @ i)" "sv_broker (sample_server c b) = b"
  "Get ''nas-1'' modern_reg = Inr modern_device" "sv_registry (sample_server c b) = modern_reg"
  by (simp_all add: sample_dispatch_env_def dispatch_writes_def delivery_writes_def sample_server_def connected_def
      one_connection_def queue_of_def Subscribe_def New_def subscribers_of_def queued_in_def cr_inv_def cr_Get_def Let_def
      modern_reg_def ApplyCommittedDevice_def empty_registry_def modern_device_def Get_def)



text \<open>
  Finding. A queued command for SSH keys that is recovered at a reconnect is published with the
  type \<open>ssh_keys\<close>, the name of its kind, while agents know the event as \<open>key_sync\<close>: the agent
  neither synchronises the keys nor acknowledges anything, and the server waits for an
  acknowledgement of a dispatched command.
\<close>

theorem recovered_key_command_ignored:
  assumes "queued_in c sv" and "c_ID c \<noteq> []" and "c_Kind c = KindSSHKeys"
    and "dispatch_writes env" and "delivery_writes env c sv"
    and "de_Envelope env (c_Request c) (c_ID c) (c_Protocol c) ''two_phase'' = Some payload"
    and "one_connection dev ch (sv_broker sv)" and "length (queue_of ch (sv_broker sv)) < 16"
    and "speaks_protocol (c_DeviceID c) sv"
  shows "let sv' = recover_command (file_repository enc dec) env dev c sv in
    \<exists>c' ev. cr_Get (c_ID c) (sv_commands sv') = Inr c' \<and> c_Status c' = StatusDispatched
      \<and> queue_of ch (sv_broker sv') = queue_of ch (sv_broker sv) @ [ev] \<and> ev_ID ev = c_ID c
      \<and> (\<forall>aenv d. lookup_record (dm_store d) (c_ID c) = None \<longrightarrow>
            dm_effects (handleEvent aenv (ev_ID ev) (ev_Type ev) (ev_Data ev) d) = dm_effects d
            \<and> dm_acks (handleEvent aenv (ev_ID ev) (ev_Type ev) (ev_Data ev) d) = dm_acks d)"
proof -
  have silent: "dm_effects (handleEvent aenv i ''ssh_keys'' dat d) = dm_effects d
      \<and> dm_acks (handleEvent aenv i ''ssh_keys'' dat d) = dm_acks d"
    if "lookup_record (dm_store d) i = None" for aenv i dat d
    using that
    by (auto simp: handleEvent_def ledger_begin_def dispatch_event_def event_module_def Let_def split: prod.splits)
  from command_recovered [OF assms(1,2,4-7), of enc dec] assms(3,8,9) silent show ?thesis
    unfolding Let_def by (fastforce simp: kind_string_def)
qed

theorem recovered_key_command_ignored_witness:
  "let c = sample_cmd\<lparr>c_Kind := KindSSHKeys\<rparr>;
       sv' = recover_command any_repo sample_dispatch_env ''nas-1'' c (sample_server c connected) in
    \<exists>c' ev. cr_Get ''cmd_1'' (sv_commands sv') = Inr c' \<and> c_Status c' = StatusDispatched \<and> queue_of 0 (sv_broker sv') = [ev]
      \<and> dm_effects (handleEvent sample_agent_env (ev_ID ev) (ev_Type ev) (ev_Data ev) (new_daemon ''/l'')) = []"
proof -
  have "c_DeviceID sample_cmd = ''nas-1''" by (simp add: sample_cmd_def new_command_def sample_q_def)
  then have "speaks_protocol (c_DeviceID (sample_cmd\<lparr>c_Kind := KindSSHKeys\<rparr>)) (sample_server c b)" for c b
    by (simp add: speaks_protocol_def) (simp add: supportsControlProtocol_def modern_device_def)
  then show ?thesis
    using recovered_key_command_ignored [of "sample_cmd\<lparr>c_Kind := KindSSHKeys\<rparr>"
        "sample_server (sample_cmd\<lparr>c_Kind := KindSSHKeys\<rparr>) connected" sample_dispatch_env
        "c_Request sample_cmd @ ''cmd_1''" "''nas-1''" 0 "\<lambda>_. ''c''" "\<lambda>_. None"]
    by (fastforce simp: Let_def new_daemon_def lookup_record_def)
qed

section \<open>Repeated pushes\<close>

definition system_request :: "Kind \<Rightarrow> string \<Rightarrow> string \<Rightarrow> Command \<Rightarrow> bool" where
  "system_request kind dev key c \<longleftrightarrow> c_Kind c = kind \<and> c_DeviceID c = dev \<and> c_IdempotencyKey c = key
     \<and> c_RequestedBy c = \<lparr>ca_Type = ''system'', ca_ID = ''homeagent-server'', ca_DisplayName = []\<rparr>"

lemma prepare_refused:
  assumes "same_request q c" and "cr_Get k (sv_commands sv) = Inr c"
  shows "\<exists>res. prepareCommand (file_repository enc dec) env q raw sv = (sv, res) \<and> (\<forall>c' w. res = Inr (c', w) \<longrightarrow> w = None)"
proof -
  let ?ce = "de_Cmd env ''create''" and ?r = "sv_commands sv"
  have "c \<in> set (gvals (cr_commands ?r))" using assms(2) by (auto simp: cr_Get_iff dest: gget_in_vals)
  then obtain x where "create_scan q (ce_Sha256 ?ce (cq_Request q)) (gvals (cr_commands ?r)) = Some x"
    using create_scan_None [of q "ce_Sha256 ?ce (cq_Request q)"] assms(1) by fastforce
  then show ?thesis
    by (cases x) (simp_all add: prepareCommand_def svc_Create_def file_repository_def CreateOrGet_def)
qed

lemma system_push_refused:
  assumes "cr_Get k (sv_commands sv) = Inr c" and "system_request kind dev key c" and "key \<noteq> []"
  shows "fst (dispatchSystemCommand (file_repository enc dec) env kind dev raw safe key policy sv) = sv"
proof -
  have "same_request \<lparr>cq_Kind = kind, cq_DeviceID = dev,
      cq_RequestedBy = \<lparr>ca_Type = ''system'', ca_ID = ''homeagent-server'', ca_DisplayName = []\<rparr>,
      cq_IdempotencyKey = key, cq_Request = safe, cq_TimeoutPolicy = policy, cq_Protocol = 1\<rparr> c"
    using assms(2,3) by (simp add: same_request_def system_request_def idem_def)
  from prepare_refused [OF this assms(1), of enc dec env raw] show ?thesis
    by (fastforce simp: dispatchSystemCommand_def publish_prepared_def split: sum.splits)
qed

text \<open>
  Finding. A revocation of GitHub credentials with a reason that was used for the device
  before does nothing, whatever became of the first one (finished long ago, failed or cancelled),
  as long as its record is kept: the command is looked up by the reason alone. The same holds of a
  synchronisation of the same version and hash, also when it is the repair of a device that
  reported another hash.
\<close>

theorem repeated_github_push_not_sent:
  assumes "cr_Get k (sv_commands sv) = Inr c"
  shows "(system_request KindGitHubRevoke dev (''github-revoke-'' @ reason) c \<longrightarrow>
      pushGitHubRevoke (file_repository enc dec) env dev reason sv = sv)
    \<and> (de_GitHub env = Some (Inr (v, h, payload)) \<longrightarrow>
      system_request KindGitHubSync dev (''github-sync-'' @ int_text v @ ''-'' @ h) c \<longrightarrow>
      pushGitHubSync (file_repository enc dec) env dev sv = sv)"
  using system_push_refused [OF assms]
  by (simp add: pushGitHubRevoke_def pushGitHubSync_def)

text \<open>The first revocation is sent, the device reports success, and the second one is not sent.\<close>

definition revoked_server :: "command_repo server" where
  "revoked_server = fst (deviceAck any_repo sample_dispatch_env ''nas-1''
     (ack_request \<lparr>ak_CommandID = ''cmd_1'', ak_Module = ''github_credentials'', ak_Status = ''succeeded'',
        ak_Version = 0, ak_Hash = [], ak_Fingerprint = [], ak_Error = []\<rparr>)
     (pushGitHubRevoke any_repo sample_dispatch_env ''nas-1'' ''sync_disabled''
       ((sample_server sample_cmd connected)\<lparr>sv_commands := empty_repo\<rparr>)))"

lemma revoked_server_commands:
  "case cr_Get ''cmd_1'' (sv_commands revoked_server) of Inl _ \<Rightarrow> False
    | Inr c \<Rightarrow> c_Status c = StatusSucceeded \<and> system_request KindGitHubRevoke ''nas-1'' ''github-revoke-sync_disabled'' c
        \<and> map ev_ID (queue_of 0 (sv_broker revoked_server)) = [''cmd_1'']"
  by code_simp

theorem repeated_github_push_not_sent_witness:
  "map ev_ID (queue_of 0 (sv_broker revoked_server)) = [''cmd_1'']
    \<and> pushGitHubRevoke any_repo sample_dispatch_env ''nas-1'' ''sync_disabled'' revoked_server = revoked_server"
proof -
  obtain c where c: "cr_Get ''cmd_1'' (sv_commands revoked_server) = Inr c"
    "system_request KindGitHubRevoke ''nas-1'' ''github-revoke-sync_disabled'' c"
    "map ev_ID (queue_of 0 (sv_broker revoked_server)) = [''cmd_1'']"
    using revoked_server_commands by (auto split: sum.splits)
  then show ?thesis
    using repeated_github_push_not_sent [OF c(1), of "''nas-1''" "''sync_disabled''" "\<lambda>_. ''c''" "\<lambda>_. None" sample_dispatch_env]
    by simp
qed

section \<open>Upgrades\<close>

lemma stamped:
  "ev_ID ev \<noteq> [] \<Longrightarrow> ev_ID (stamp_event t dev ev b) = ev_ID ev" "ev_Type (stamp_event t dev ev b) = ev_Type ev"
  "ev_Data (stamp_event t dev ev b) = ev_Data ev"
  by (simp_all add: stamp_event_def Let_def)

lemma recorded_history:
  "\<exists>old. history_of (record_event t dev ev b) dev = old @ [stamp_event t dev ev b]" if "0 < br_historySize b"
  using that by (auto simp: record_event_def history_of_def Let_def)

lemma after_id_snoc: "after_id i h = Some evs \<Longrightarrow> after_id i (h @ [e]) = Some (evs @ [e])"
  by (induction h) (auto split: if_splits)

lemma replay_recorded:
  assumes "Replay dev i b = Some evs" and "length (history_of b dev) < br_historySize b"
  shows "Replay dev i (record_event t dev ev b) = Some (evs @ [stamp_event t dev ev b])"
proof -
  have "history_of (record_event t dev ev b) dev = history_of b dev @ [stamp_event t dev ev b]"
    using assms(2) by (auto simp: record_event_def history_of_def Let_def)
  then show ?thesis using assms(1) after_id_snoc by (auto simp: Replay_def split: if_splits)
qed

lemma keyless_is_new:
  assumes "prepareCommand (file_repository enc dec) env q raw sv = (sv', Inr (c, w))" and "cq_IdempotencyKey q = []"
  shows "w \<noteq> None"
proof
  have "\<not> same_request q x" for x using assms(2) by (simp add: same_request_def)
  then have "create_scan q dg cs \<noteq> Some (Inr x)" for dg cs x using create_scan_Inr by blast
  then have "b" if "CreateOrGet e q r = (r', Inr (x, b))" for e r r' x b
    using that by (auto simp: CreateOrGet_def split: option.splits sum.splits prod.splits)
  moreover assume "w = None"
  ultimately show False
    using assms(1)
    by (auto simp: prepareCommand_def svc_Create_def file_repository_def Let_def
        split: prod.splits sum.splits if_splits option.splits)
qed

text \<open>What an upgrade nobody listened to leaves: the event in the history, the command cancelled.\<close>

lemma unheard_upgrade:
  assumes prep: "prepareCommand (file_repository enc dec) env q raw sv = (sv1, Inr (c, Some wire))"
    and inv: "cr_inv (sv_commands sv)" and w: "dispatch_writes env"
    and deaf: "subscribers_of (sv_broker sv) dev = []"
    and pub: "publish_prepared (file_repository enc dec) env dev ty c (Some wire) sv1 = (sv2, n, (Some x, e))"
  shows "n = 0 \<and> c_ID x = c_ID c \<and> sv_broker sv2 = record_event (de_Unix env) dev (command_event ty c wire) (sv_broker sv)
    \<and> (\<exists>y. cr_Get (c_ID x) (sv_commands (settle_plan (file_repository enc dec) env 0 (Some x) (Some p) sv2)) = Inr y
          \<and> c_Status y = StatusCanceled)"
proof -
  let ?rp = "file_repository enc dec"
  have wr: "ce_WriteOK (de_Cmd env ''requeue'')" "ce_WriteOK (de_Cmd env ''cancel'')"
    using w by (simp_all add: dispatch_writes_def)
  have get: "rp_Get ?rp k s = cr_Get k s" for k s by (simp add: file_repository_def)
  obtain s where sv1: "sv1 = sv\<lparr>sv_commands := s\<rparr>" and c: "cr_inv s" "rp_Get ?rp (c_ID c) s = Inr c" "c_Status c = StatusDispatching"
    using file_dispatch.prepare_sends [OF inv prep] by auto
  let ?svp = "sv1\<lparr>sv_broker := record_event (de_Unix env) dev (command_event ty c wire) (sv_broker sv)\<rparr>"
  have p: "publish env dev (command_event ty c wire) sv1 = (?svp, 0)"
    using publish_deaf [of sv1 dev env] deaf by (simp add: sv1)
  have pre: "cr_inv (sv_commands ?svp)" "rp_Get ?rp (c_ID c) (sv_commands ?svp) = Inr c" using c by (simp_all add: sv1)
  obtain s' c' where f: "finishDispatch ?rp env c 0 ?svp = (?svp\<lparr>sv_commands := s'\<rparr>, Some c', None)"
    and m: "file_dispatch.moved enc dec (c_ID c) c StatusQueued s' c'"
    using file_dispatch.finish_unheard [OF pre c(3) wr(1)] by blast
  from pub f p have sv2: "n = 0" "x = c'" "sv2 = ?svp\<lparr>sv_commands := s'\<rparr>" by (simp_all add: publish_prepared_def)
  note md = file_dispatch.movedD [OF m]
  obtain s'' y where "Cancel ?rp (de_Cmd env ''cancel'') (c_ID c) s' = (s'', Inr y)"
    and m2: "file_dispatch.moved enc dec (c_ID c) c' StatusCanceled s'' y"
    using file_dispatch.cancel_moves [OF md(1,2,3) wr(2)] by blast
  then have "cr_Get (c_ID x) (sv_commands (settle_plan ?rp env 0 (Some x) (Some p) sv2)) = Inr y" "c_Status y = StatusCanceled"
    using md(5) file_dispatch.movedD(2,3) [OF m2] by (simp_all add: settle_plan_def fail_plan_def sv2 get)
  with sv2 md(5) sv1 show ?thesis by auto
qed

text \<open>
  Finding. When an upgrade is requested for a device that is not connected, the reply reports no
  active listener, the command is cancelled and its plan fails; but the event stays in the device's
  history, and when the device reconnects with the last event it knows, the cancelled upgrade is
  sent to it after what it missed.
\<close>

theorem cancelled_upgrade_still_delivered:
  assumes "upgradeDevice (file_repository enc dec) env ae actor session [] req dev sv = (sv', UpgradeSent (Some x) (Some p))"
    and "cr_inv (sv_commands sv)" and "dispatch_writes env" and "\<not> IsConnected dev (sv_broker sv)" and "c_ID x \<noteq> []"
    and "Replay dev lastID (sv_broker sv) = Some missed"
    and "length (history_of (sv_broker sv) dev) < br_historySize (sv_broker sv)"
  shows "(\<exists>y. cr_Get (c_ID x) (sv_commands sv') = Inr y \<and> c_Status y = StatusCanceled)
    \<and> (\<exists>ev. ev_Type ev = ''upgrade'' \<and> ev_ID ev = c_ID x \<and> Replay dev lastID (sv_broker sv') = Some (missed @ [ev]))"
proof -
  let ?rp = "file_repository enc dec"
  have deaf: "subscribers_of (sv_broker sv) dev = []"
    using assms(4) by (auto simp: IsConnected_def subscribers_of_def split: option.splits)
  obtain ps q raw sv1 c w where prep: "prepareCommand ?rp env q raw (sv\<lparr>sv_plans := Some ps\<rparr>) = (sv1, Inr (c, w))"
    and key: "cq_IdempotencyKey q = []"
    and rest: "(let (sv2, n, res) = publish_prepared ?rp env dev ''upgrade'' c w sv1 in
        (if w = None then sv2 else settle_plan ?rp env n (fst res) (Some p) sv2, UpgradeSent (fst res) (Some p)))
      = (sv', UpgradeSent (Some x) (Some p))"
    using assms(1)
    by (auto simp: upgradeDevice_def command_request_def split: sum.splits if_splits option.splits prod.splits)
  obtain wire where w: "w = Some wire" using keyless_is_new [OF prep key] by blast
  obtain sv2 n e where pub: "publish_prepared ?rp env dev ''upgrade'' c w sv1 = (sv2, n, Some x, e)"
    and sv': "sv' = settle_plan ?rp env n (Some x) (Some p) sv2"
    using rest w by (auto simp: Let_def split: prod.splits)
  have un: "n = 0 \<and> c_ID x = c_ID c
      \<and> sv_broker sv2 = record_event (de_Unix env) dev (command_event ''upgrade'' c wire) (sv_broker sv)
      \<and> (\<exists>y. cr_Get (c_ID x) (sv_commands (settle_plan ?rp env 0 (Some x) (Some p) sv2)) = Inr y \<and> c_Status y = StatusCanceled)"
    using unheard_upgrade [OF prep [unfolded w] _ assms(3) _ pub [unfolded w], of p] assms(2) deaf by auto
  let ?ev = "stamp_event (de_Unix env) dev (command_event ''upgrade'' c wire) (sv_broker sv)"
  have "sv_broker sv' = sv_broker sv2" by (simp add: sv' settle_plan_def fail_plan_def split: option.split)
  then have "Replay dev lastID (sv_broker sv') = Some (missed @ [?ev])"
    using un replay_recorded [OF assms(6,7)] by simp
  moreover have "ev_Type ?ev = ''upgrade''" "ev_ID ?ev = c_ID x"
    using un assms(5) by (simp_all add: stamped command_event_def)
  ultimately show ?thesis using un sv' by auto
qed

definition sample_artifacts :: artifact_env where
  "sample_artifacts = \<lparr>ae_Now = seconds 100, ae_AgentVersion = ''v0.7.0'', ae_Versions = None, ae_UpgradeSource = [],
     ae_DownloadsDir = [], ae_LocalFile = (\<lambda>_ _. False), ae_FileSHA256 = (\<lambda>_ _. None), ae_Scheme = ''http'',
     ae_Host = ''h'', ae_Client = \<lparr>rc_repo = ''r'', rc_downloadBaseURL = ''https:'', rc_mirrorPrefix = [], rc_cacheTTL = 0,
       rc_componentCache = []\<rparr>, ae_Fetch = (\<lambda>_. Inl ''down''), ae_V2Enabled = False, ae_PayloadJSON = pay_URL,
     ae_SafeJSON = pay_URL, ae_PlanID = (\<lambda>d. d @ ''-plan'')\<rparr>"

definition sample_upgrade :: UpgradeRequest where
  "sample_upgrade = \<lparr>uq_TargetVersion = ''v0.7.0'', uq_Version = [], uq_URL = ''https:x'', uq_SHA256 = ''ab'',
     uq_Force = False, uq_Source = [], uq_SnapshotID = []\<rparr>"

text \<open>The device has seen the event \<open>e0\<close> and is not connected any more.\<close>

definition away_server :: "command_repo server" where
  "away_server = (sample_server sample_cmd (fst (Publish 1 ''nas-1''
       \<lparr>ev_Type = ''key_sync'', ev_Data = [], ev_ID = ''e0'', ev_Timestamp = 0\<rparr> New)))
     \<lparr>sv_commands := empty_repo, sv_plans := Some []\<rparr>"

definition sample_payload :: UpgradePayload where
  "sample_payload = \<lparr>pay_Version = ''v0.7.0'', pay_TargetVersion = ''v0.7.0'', pay_ReleaseID = 0, pay_ReleaseTag = [],
     pay_AssetID = 0, pay_URL = ''https:x'', pay_SHA256 = ''ab'', pay_Force = False\<rparr>"

lemma sample_resolved: "ResolveUpgradePayload sample_artifacts d sample_upgrade = Inr sample_payload"
  by (simp add: ResolveUpgradePayload_def target_release_def sample_artifacts_def sample_upgrade_def or_default_def
      trim_space_graphic graphic_def to_lower_def lower_char_def Let_def zero_snapshot_def sample_payload_def)

lemma away_facts:
  "Get ''nas-1'' (sv_registry away_server) = Inr modern_device" "sv_plans away_server = Some []"
  "d_UpgradeSecurityMode modern_device = []"
  by (simp_all add: away_server_def) (simp add: modern_device_def sample_device_def)

lemma away_upgrade:
  "case upgradeDevice any_repo sample_dispatch_env sample_artifacts None None [] sample_upgrade ''nas-1'' away_server of
     (sv', UpgradeSent (Some x) (Some p)) \<Rightarrow> c_ID x = ''cmd_1'' | _ \<Rightarrow> False"
  by (simp add: upgradeDevice_def sample_resolved away_facts CreatePlan_def Let_def) code_simp
theorem cancelled_upgrade_still_delivered_witness:
  "let sv' = fst (upgradeDevice any_repo sample_dispatch_env sample_artifacts None None [] sample_upgrade ''nas-1'' away_server) in
     (\<exists>y. cr_Get ''cmd_1'' (sv_commands sv') = Inr y \<and> c_Status y = StatusCanceled)
     \<and> (\<exists>ev. ev_Type ev = ''upgrade'' \<and> ev_ID ev = ''cmd_1'' \<and> Replay ''nas-1'' ''e0'' (sv_broker sv') = Some [ev])"
proof -
  obtain sv' x p where u: "upgradeDevice any_repo sample_dispatch_env sample_artifacts None None [] sample_upgrade ''nas-1'' away_server
      = (sv', UpgradeSent (Some x) (Some p))" "c_ID x = ''cmd_1''"
    using away_upgrade by (auto split: prod.splits upgrade_reply.splits option.splits)
  have b: "Replay ''nas-1'' ''e0'' (sv_broker away_server) = Some []" "\<not> IsConnected ''nas-1'' (sv_broker away_server)"
    "length (history_of (sv_broker away_server) ''nas-1'') < br_historySize (sv_broker away_server)"
    "cr_inv (sv_commands away_server)"
    by (simp_all add: away_server_def sample_server_def Publish_def record_event_def New_def stamp_event_def Let_def
        subscribers_of_def IsConnected_def Replay_def history_of_def cr_inv_def empty_repo_def)
  from cancelled_upgrade_still_delivered [OF u(1) b(4) _ b(2) _ b(1,3)] u(2) show ?thesis by (simp add: u(1))
qed

text \<open>The handlers that leave the plans alone.\<close>

lemma publish_plans [simp]: "sv_plans (fst (publish env dev ev sv)) = sv_plans sv"
  by (simp add: publish_def case_prod_beta Let_def)

lemma finish_plans [simp]: "sv_plans (fst (finishDispatch rp env c n sv)) = sv_plans sv"
  by (auto simp: finishDispatch_def case_prod_beta Let_def split: option.splits sum.splits)

lemma prepared_plans [simp]: "sv_plans (fst (publish_prepared rp env dev ty c wire sv)) = sv_plans sv"
  by (auto simp: publish_prepared_def case_prod_beta Let_def split: option.splits)

lemma prepare_plans [simp]: "sv_plans (fst (prepareCommand rp env q raw sv)) = sv_plans sv"
  by (auto simp: prepareCommand_def case_prod_beta Let_def split: option.splits sum.splits)

lemma system_plans [simp]: "sv_plans (fst (dispatchSystemCommand rp env kind dev raw safe key policy sv)) = sv_plans sv"
  unfolding dispatchSystemCommand_def
  by (auto simp: case_prod_beta Let_def split: sum.splits)

lemma ack_plans:
  assumes "aq_Status req \<noteq> ''progress''"
  shows "sv_plans (fst (deviceAck rp env dev req sv)) = sv_plans sv"
proof -
  have h: "sv_plans (heal rp env dev req sv) = sv_plans sv" for sv
    by (auto simp: heal_def pushGitHubSync_def split: sum.splits option.splits prod.splits)
  have a: "sv_plans (fst (ack_applied rp env dev req c sv)) = sv_plans sv" for c sv
    by (auto simp: ack_applied_def h Let_def split: prod.splits option.splits)
  show ?thesis using assms by (auto simp: deviceAck_def a Let_def split: prod.splits option.splits sum.splits)
qed

text \<open>
  Finding. A device's upgrade plan ends only when the device reports the phase \<open>commit_ready\<close>:
  an acknowledgement that the upgrade succeeded or failed leaves the plan unfinished, and every
  later upgrade of the device (without the key of the first) is refused as already in progress.
\<close>

theorem acknowledged_upgrade_blocks_next:
  assumes "aq_Status ackReq \<noteq> ''progress''" and "sv' = fst (deviceAck rp env dev ackReq sv)"
    and "sv_plans sv = Some ps" and "list_ex (plan_active dev) (gvals ps)"
    and "Get dev (sv_registry sv') = Inr d" and "d_UpgradeSecurityMode d \<noteq> ''v2_locked''"
    and "ResolveUpgradePayload ae d req = Inr payload"
  shows "upgradeDevice rp env' ae actor session [] req dev sv' = (sv', UpgradeError 409)"
proof -
  have ps: "sv_plans sv' = Some ps" using ack_plans [OF assms(1), of rp env dev sv] assms(2,3) by simp
  have "find (plan_request_matches (device_plan_request env' actor [] d payload dev)) (gvals ps) = None"
    by (simp add: find_None_iff plan_request_matches_def device_plan_request_def Let_def)
  moreover have "pr_DeviceID (device_plan_request env' actor [] d payload dev) = dev"
    by (simp add: device_plan_request_def Let_def)
  ultimately have "CreatePlan i now (device_plan_request env' actor [] d payload dev) ps = (ps, Inl ErrPlanInProgress)" for i now
    using assms(4) by (simp add: CreatePlan_def)
  then show ?thesis using assms(5-7) by (simp add: upgradeDevice_def ps)
qed

text \<open>An upgrade that was sent to a connected device, and its success acknowledged.\<close>

definition upgraded_server :: "command_repo server" where
  "upgraded_server = fst (upgradeDevice any_repo sample_dispatch_env sample_artifacts None None [] sample_upgrade ''nas-1''
     ((sample_server sample_cmd connected)\<lparr>sv_commands := empty_repo, sv_plans := Some []\<rparr>))"

definition upgrade_ack :: AckRequest where
  "upgrade_ack = ack_request \<lparr>ak_CommandID = ''cmd_1'', ak_Module = ''upgrade'', ak_Status = ''succeeded'',
     ak_Version = 0, ak_Hash = [], ak_Fingerprint = [], ak_Error = []\<rparr>"

definition upgrade_blocked :: "command_repo server \<Rightarrow> bool" where
  "upgrade_blocked sv \<longleftrightarrow> (case sv_plans sv of None \<Rightarrow> False | Some ps \<Rightarrow> list_ex (plan_active ''nas-1'') (gvals ps))
     \<and> (case deviceAck any_repo sample_dispatch_env ''nas-1'' upgrade_ack sv of
          (sv', rep) \<Rightarrow> rep = ReplyDone \<and> (case Get ''nas-1'' (sv_registry sv') of
             Inr d \<Rightarrow> d_UpgradeSecurityMode d = [] | Inl _ \<Rightarrow> False))"

lemma upgraded_blocked: "upgrade_blocked upgraded_server"
  by (simp add: upgraded_server_def upgradeDevice_def sample_resolved CreatePlan_def Let_def modern_device_def
      sample_device_def) code_simp

theorem acknowledged_upgrade_blocks_next_witness:
  "let (sv', rep) = deviceAck any_repo sample_dispatch_env ''nas-1'' upgrade_ack upgraded_server in
     rep = ReplyDone \<and> upgradeDevice any_repo sample_dispatch_env sample_artifacts None None [] sample_upgrade ''nas-1'' sv'
       = (sv', UpgradeError 409)"
proof -
  obtain ps sv' d where ps: "sv_plans upgraded_server = Some ps" "list_ex (plan_active ''nas-1'') (gvals ps)"
    and d: "deviceAck any_repo sample_dispatch_env ''nas-1'' upgrade_ack upgraded_server = (sv', ReplyDone)"
      "Get ''nas-1'' (sv_registry sv') = Inr d" "d_UpgradeSecurityMode d = []"
    using upgraded_blocked by (auto simp: upgrade_blocked_def split: option.splits sum.splits prod.splits)
  have "aq_Status upgrade_ack \<noteq> ''progress''" by (simp add: upgrade_ack_def ack_request_def)
  from acknowledged_upgrade_blocks_next [OF this _ ps d(2) _ sample_resolved, of any_repo sample_dispatch_env] d
  show ?thesis by simp
qed

section \<open>Pushed keys\<close>

text \<open>An agent none of whose acknowledgements of an event is answered gets nothing acknowledged.\<close>

definition unanswered :: "agent_env \<Rightarrow> string \<Rightarrow> bool" where
  "unanswered aenv i \<longleftrightarrow> (\<forall>a. ak_CommandID a = i \<longrightarrow> \<not> ag_Posted aenv a)"

lemma unanswered_acks:
  assumes "unanswered aenv i"
  shows "dm_acks (fst (sendAckWithFingerprintResult aenv i m st v h fp e d)) = dm_acks d"
    and "dm_acks (sendAck aenv i m st v h e d) = dm_acks d"
    and "dm_acks (sendAccepted aenv i m d) = dm_acks d"
  using assms
  by (auto simp: unanswered_def sendAckWithFingerprintResult_def sendAck_def sendAccepted_def postAck_def Let_def
      case_prod_beta)

lemma unanswered_event:
  assumes "unanswered aenv i" and "lookup_record (dm_store d) i = None"
  shows "dm_acks (handleEvent aenv i et dat d) = dm_acks d"
proof -
  have r: "dm_acks (report_effect aenv i et m vh d) = dm_acks d" for et m vh d
    using unanswered_acks [OF assms(1)]
    by (auto simp: report_effect_def Let_def case_prod_beta split: effect.splits)
  have s: "dm_acks (fst (startCommand aenv i d)) = dm_acks d" for d
    by (simp add: startCommand_def case_prod_beta Let_def)
  have "dm_acks (dispatch_event aenv i et dat d) = dm_acks d" for d
    using unanswered_acks [OF assms(1)]
    by (auto simp: dispatch_event_def run_command_def r s Let_def case_prod_beta split: option.splits sum.splits)
  then show ?thesis using assms(2)
    by (auto simp: handleEvent_def ledger_begin_def Let_def case_prod_beta)
qed

text \<open>The event of a push.\<close>

lemma pushed_event:
  assumes "pushKeySync env dev sv = (sv', None)" and "0 < br_historySize (sv_broker sv)"
    and "ev = last (history_of (sv_broker sv') dev)"
  shows "ev_ID ev = dev @ '':'' @ pad20 (unat (sequence_of (sv_broker sv) dev + 1))" and "ev_Type ev = ''key_sync''"
proof -
  obtain ev0 where e0: "ev_Type ev0 = ''key_sync''" "ev_ID ev0 = []"
    and b: "sv_broker sv' = fst (Publish (de_Unix env) dev ev0 (sv_broker sv))"
  proof (cases "resolveDeviceKeySyncPayload (de_Sha256 env) (de_Policy env) (de_AdminKey env) (sv_version sv) dev (sv_registry sv)")
    case (Inr p)
    with assms(1) that [of "\<lparr>ev_Type = ''key_sync'', ev_Data = de_PayloadJSON env (p\<lparr>ks_Version := sv_version sv + 1\<rparr>),
        ev_ID = [], ev_Timestamp = 0\<rparr>"] show ?thesis
      by (auto simp: pushKeySync_def publish_def case_prod_beta Let_def)
  qed (use assms(1) in \<open>simp add: pushKeySync_def\<close>)
  obtain old where "history_of (sv_broker sv') dev = old @ [stamp_event (de_Unix env) dev ev0 (sv_broker sv)]"
    using recorded_history [OF assms(2), of "de_Unix env" dev ev0] send_all_frame
    by (auto simp: b Publish_def history_of_def Let_def)
  then have "ev = stamp_event (de_Unix env) dev ev0 (sv_broker sv)" using assms(3) by simp
  then show "ev_ID ev = dev @ '':'' @ pad20 (unat (sequence_of (sv_broker sv) dev + 1))" "ev_Type ev = ''key_sync''"
    using e0 by (simp_all add: stamp_event_def Let_def)
qed

text \<open>
  Finding. The keys pushed to a device without a command are numbered by the broker, and the
  agent takes the number for a command: every acknowledgement it posts for the event is answered
  with 404 by a server that has no such command, so the registry never learns of the
  synchronisation and the agent's outcome is never confirmed.
\<close>

theorem pushed_keys_never_acknowledged:
  assumes "pushKeySync env dev sv = (sv', None)" and "0 < br_historySize (sv_broker sv)"
    and "ev = last (history_of (sv_broker sv') dev)" and "rp_Get rp (ev_ID ev) (sv_commands s) = Inl x"
    and "lookup_record (dm_store d) (ev_ID ev) = None"
    and "\<And>a. ag_Posted aenv a = ack_answered (snd (deviceAck rp env' dev (ack_request a) s))"
  shows "ev_Type ev = ''key_sync'' \<and> ev_ID ev = dev @ '':'' @ pad20 (unat (sequence_of (sv_broker sv) dev + 1))
    \<and> (\<forall>a. ak_CommandID a = ev_ID ev \<longrightarrow> fst (deviceAck rp env' dev (ack_request a) s) = s)
    \<and> dm_acks (handleEvent aenv (ev_ID ev) (ev_Type ev) (ev_Data ev) d) = dm_acks d"
proof -
  note i = pushed_event [OF assms(1-3)]
  then have "ev_ID ev \<noteq> []" by simp
  then have ack: "fst (deviceAck rp env' dev (ack_request a) s) = s
      \<and> \<not> ack_answered (snd (deviceAck rp env' dev (ack_request a) s))" if "ak_CommandID a = ev_ID ev" for a
    using that assms(4) by (simp add: deviceAck_def ack_request_def ack_answered_def)
  then have "unanswered aenv (ev_ID ev)" using assms(6) by (simp add: unanswered_def)
  from unanswered_event [OF this assms(5)] ack i show ?thesis by blast
qed

definition pushed_server :: "command_repo server" where
  "pushed_server = fst (pushKeySync sample_dispatch_env ''nas-1'' (sample_server sample_cmd connected))"

definition pushed :: Event where
  "pushed = last (history_of (sv_broker pushed_server) ''nas-1'')"

lemma pushed_facts:
  "pushKeySync sample_dispatch_env ''nas-1'' (sample_server sample_cmd connected) = (pushed_server, None)"
  "ev_ID pushed = ''nas-1:'' @ pad20 1" "cr_Get (ev_ID pushed) (sv_commands pushed_server) = Inl ErrCmdNotFound"
proof -
  have "snd (pushKeySync sample_dispatch_env ''nas-1'' (sample_server sample_cmd connected)) = None"
    by (simp add: pushKeySync_def resolveDeviceKeySyncPayload_def Let_def)
  then show p: "pushKeySync sample_dispatch_env ''nas-1'' (sample_server sample_cmd connected) = (pushed_server, None)"
    by (simp add: pushed_server_def prod_eq_iff)
  show i: "ev_ID pushed = ''nas-1:'' @ pad20 1"
    using pushed_event(1) [OF p _ pushed_def]
    by (simp add: connected_def Subscribe_def New_def sequence_of_def Let_def)
  have cmds: "sv_commands pushed_server = sv_commands (sample_server sample_cmd connected)"
    by (simp add: pushed_server_def pushKeySync_def publish_def case_prod_beta Let_def split: sum.split)
  show "cr_Get (ev_ID pushed) (sv_commands pushed_server) = Inl ErrCmdNotFound"
    unfolding cmds by (simp add: i cr_Get_def sample_server_def)
qed

definition refused_env :: agent_env where
  "refused_env = sample_agent_env\<lparr>ag_Posted :=
     (\<lambda>a. ack_answered (snd (deviceAck any_repo sample_dispatch_env ''nas-1'' (ack_request a) pushed_server)))\<rparr>"

theorem pushed_keys_never_acknowledged_witness:
  "ev_Type pushed = ''key_sync'' \<and> ev_ID pushed = ''nas-1:'' @ pad20 1
    \<and> dm_acks (handleEvent refused_env (ev_ID pushed) (ev_Type pushed) (ev_Data pushed) (new_daemon ''/l'')) = []"
proof -
  have n: "lookup_record (dm_store (new_daemon ''/l'')) i = None" "dm_acks (new_daemon ''/l'') = []" for i
    by (simp_all add: new_daemon_def lookup_record_def)
  have b: "0 < br_historySize (sv_broker (sample_server sample_cmd connected))"
    by (simp add: connected_def Subscribe_def New_def Let_def)
  have g: "rp_Get any_repo (ev_ID pushed) (sv_commands pushed_server) = Inl ErrCmdNotFound"
    by (simp add: file_repository_def pushed_facts(3))
  have "ag_Posted refused_env a
      = ack_answered (snd (deviceAck any_repo sample_dispatch_env ''nas-1'' (ack_request a) pushed_server))" for a
    by (simp add: refused_env_def)
  from pushed_keys_never_acknowledged [OF pushed_facts(1) b pushed_def g n(1) this]
  show ?thesis by (elim conjE) (intro conjI pushed_facts(2), assumption, erule trans [OF _ n(2)])
qed

text \<open>
  Finding. The numbering starts again with the server: a push that gets a number which the
  agent has reported an outcome for, as the first push after a restart does, is suppressed as a
  duplicate, so the new keys are not synchronised.
\<close>

theorem push_after_restart_suppressed:
  assumes "pushKeySync env1 dev sv1 = (sv1', None)" and "0 < br_historySize (sv_broker sv1)"
    and "ev1 = last (history_of (sv_broker sv1') dev)"
    and "pushKeySync env2 dev sv2 = (sv2', None)" and "0 < br_historySize (sv_broker sv2)"
    and "ev2 = last (history_of (sv_broker sv2') dev)"
    and "sequence_of (sv_broker sv2) dev = sequence_of (sv_broker sv1) dev"
    and "lookup_record (dm_store d) (ev_ID ev1) = Some r" and "reported (lr_Stage r)"
  shows "ev_ID ev2 = ev_ID ev1
    \<and> dm_effects (handleEvent aenv (ev_ID ev2) (ev_Type ev2) (ev_Data ev2) d) = dm_effects d"
proof -
  have i: "ev_ID ev2 = ev_ID ev1" using pushed_event(1) [OF assms(1-3)] pushed_event(1) [OF assms(4-6)] assms(7) by simp
  have "dm_effects (fst (postAck e a d)) = dm_effects d" for e a d by (simp add: postAck_def Let_def)
  then show ?thesis
    using assms(8,9) i pushed_event(1) [OF assms(4-6)] pushed_event(2) [OF assms(4-6)]
    by (auto simp: handleEvent_def ledger_begin_def reported_def Let_def split: option.splits)
qed

theorem push_after_restart_suppressed_witness:
  "let d = handleEvent sample_agent_env (ev_ID pushed) ''key_sync'' ''old keys'' (new_daemon ''/l'') in
     dm_effects d = [(ev_ID pushed, ''key_sync'')]
     \<and> dm_effects (handleEvent sample_agent_env (ev_ID pushed) (ev_Type pushed) (ev_Data pushed) d) = dm_effects d"
proof -
  let ?d = "handleEvent sample_agent_env (ev_ID pushed) ''key_sync'' ''old keys'' (new_daemon ''/l'')"
  have b: "0 < br_historySize (sv_broker (sample_server sample_cmd connected))"
    by (simp add: connected_def Subscribe_def New_def Let_def)
  have i: "ev_ID pushed \<noteq> []" by (simp add: pushed_facts(2))
  have "dm_effects ?d = [(ev_ID pushed, ''key_sync'')]
      \<and> (\<exists>r. lookup_record (dm_store ?d) (ev_ID pushed) = Some r \<and> lr_Stage r = AckConfirmed)"
    using i
    by (simp add: handleEvent_def ledger_begin_def new_daemon_def lookup_record_def Agent.writeLocked_def put_record_def
        dispatch_event_def event_module_def run_command_def sample_agent_env_def startCommand_def ledger_start_def
        sendAccepted_def sendAck_def sendAckWithFingerprintResult_def postAck_def ledger_confirm_def ledger_commit_def
        report_effect_def wire_status_def record_or_zero_def Let_def)
  then obtain r where d: "dm_effects ?d = [(ev_ID pushed, ''key_sync'')]"
    "lookup_record (dm_store ?d) (ev_ID pushed) = Some r" "lr_Stage r = AckConfirmed" by blast
  from push_after_restart_suppressed [OF pushed_facts(1) b pushed_def pushed_facts(1) b pushed_def refl d(2), of sample_agent_env] d
  show ?thesis by (simp add: reported_def)
qed

section \<open>Projections\<close>








end
