(* ===== verification/Health.thy ===== *)
theory Health
  imports Prelude
begin

text \<open>
  The health of devices, \<open>internal/health\<close>: the evaluator, a pure function from the facts about a
  device and its previous snapshot to a new snapshot and the events of what changed
  (\<open>evaluator.go\<close>), its file repository (\<open>repository.go\<close>) and the service that evaluates, stores and
  notifies (\<open>service.go\<close>). The texts of a reason for people (summary, suggested action) are left out;
  its evidence is kept. The range over a map takes the entries in the order of the list.
\<close>

section \<open>Data\<close>

datatype health_status = HealthHealthy | HealthDegraded | HealthOffline | HealthUnknown | HealthOther string

datatype Severity = SeverityInfo | SeverityWarning | SeverityCritical | SeverityOther string

datatype RuleState = RuleOK | RuleFiring | RuleUnknown | RuleDisabled | RuleOther string

text \<open>
  The values of an evidence map. A count is \<open>AnyInt\<close> when the evaluator has just made it and
  \<open>AnyFloat\<close> once it was read back from JSON; \<open>AnySeconds\<close> and \<open>AnyMinutes\<close> are a duration in those
  units, \<open>AnyTime\<close> a formatted time, \<open>AnyRatio a b\<close> the quotient of two floating point numbers.
\<close>

datatype any_value =
    AnyText string | AnyInt int | AnyFloat int | AnySeconds duration | AnyMinutes duration | AnyTime time
  | AnyRatio u64 u64

type_synonym evidence = "(string, any_value) gomap"

record HealthFacts =
  hf_ObservedAt :: time
  hf_UptimeSeconds :: int
  hf_LogicalCPUCount :: int
  hf_MemoryTotalBytes :: u64
  hf_MemoryAvailableBytes :: u64
  hf_DiskTotalBytes :: u64
  hf_DiskAvailableBytes :: u64
  hf_DiskMount :: string

record Reason =
  rs_Code :: string
  rs_State :: RuleState
  rs_Severity :: Severity
  rs_FirstObservedAt :: time
  rs_LastObservedAt :: time
  rs_Evidence :: evidence

record HealthSnapshot =
  hs_DeviceID :: string
  hs_Status :: health_status
  hs_Connected :: bool
  hs_EvaluatedAt :: time
  hs_LastSeenAt :: "time option"
  hs_Since :: time
  hs_RuleVersion :: int
  hs_Reasons :: "Reason list"
  hs_Facts :: "HealthFacts option"
  hs_Revision :: u64

record HealthEvent =
  he_ID :: string
  he_DeviceID :: string
  he_Type :: string
  he_ReasonCode :: string
  he_FromState :: RuleState
  he_ToState :: RuleState
  he_Severity :: Severity
  he_OccurredAt :: time
  he_RuleVersion :: int
  he_Evidence :: evidence
  he_SnapshotRevision :: u64

record EvaluatorConfig =
  cf_StaleAfter :: duration
  cf_OfflineAfter :: duration
  cf_OfflinePendingFor :: duration
  cf_SSHDriftAfter :: duration
  cf_UpgradeConvergenceTimeout :: duration
  cf_RuleVersion :: int

definition DefaultEvaluatorConfig :: EvaluatorConfig where
  "DefaultEvaluatorConfig = \<lparr>cf_StaleAfter = minutes 15, cf_OfflineAfter = minutes 30,
     cf_OfflinePendingFor = minutes 5, cf_SSHDriftAfter = minutes 10,
     cf_UpgradeConvergenceTimeout = minutes 15, cf_RuleVersion = 1\<rparr>"

record DeviceFactSummary =
  df_ID :: string
  df_AgentVersion :: string
  df_LastSeenAt :: time
  df_Connected :: bool
  df_SyncStatus :: string
  df_AppliedVersion :: int
  df_AppliedHash :: string
  df_SyncError :: string
  df_SyncUpdatedAt :: time
  df_RuntimeFacts :: "HealthFacts option"

record SSHDesiredInfo =
  sd_Version :: int
  sd_Hash :: string
  sd_Enabled :: bool

record DDNSDeviceState =
  dd_Enabled :: bool
  dd_SyncStatus :: string
  dd_SyncError :: string
  dd_DesiredIPv6 :: string
  dd_AppliedIPv6 :: string
  dd_InGracePeriod :: bool
  dd_PrefixStale :: bool

record CommandSummary =
  cs_CommandID :: string
  cs_Status :: string
  cs_CreatedAt :: time
  cs_FinishedAt :: "time option"
  cs_ErrorCode :: string

record VersionPolicyInfo =
  vp_RecommendedVersion :: string
  vp_MinimumSupportedVersion :: string

record EvaluationInput =
  in_Device :: "DeviceFactSummary option"
  in_SSHDesired :: "SSHDesiredInfo option"
  in_DDNSState :: "DDNSDeviceState option"
  in_UpgradeCmd :: "CommandSummary option"
  in_SSHCmd :: "CommandSummary option"
  in_VersionPolicy :: "VersionPolicyInfo option"
  in_Previous :: "HealthSnapshot option"
  in_Now :: time

section \<open>Version numbers\<close>

definition clean_version :: "string \<Rightarrow> string" where
  "clean_version s = takeWhile (\<lambda>c. c \<noteq> CHR ''-'') (trim_prefix (trim_space s) ''v'')"

text \<open>\<open>strconv.Atoi\<close> with its error ignored: a number out of range is the nearest one of the type.\<close>

definition atoi_value :: "string \<Rightarrow> int" where
  "atoi_value s =
     (let neg = has_prefix s ''-'';
          ds = (if neg \<or> has_prefix s ''+'' then tl s else s);
          v = (if neg then - int (digits_val ds) else int (digits_val ds)) in
      if ds = [] \<or> \<not> list_all is_digit ds then 0 else max (- (2 ^ 63)) (min (2 ^ 63 - 1) v))"

fun compare_numbers :: "string list \<Rightarrow> string list \<Rightarrow> int" where
  "compare_numbers [] [] = 0"
| "compare_numbers (p # ps) [] =
     (if atoi_value p < 0 then -1 else if atoi_value p > 0 then 1 else compare_numbers ps [])"
| "compare_numbers [] (q # qs) =
     (if 0 < atoi_value q then -1 else if 0 > atoi_value q then 1 else compare_numbers [] qs)"
| "compare_numbers (p # ps) (q # qs) =
     (if atoi_value p < atoi_value q then -1 else if atoi_value p > atoi_value q then 1
      else compare_numbers ps qs)"

definition semverCompare :: "string \<Rightarrow> string \<Rightarrow> int" where
  "semverCompare a b =
     (let ca = clean_version a; cb = clean_version b in
      if ca = cb then 0 else compare_numbers (split_at CHR ''.'' ca) (split_at CHR ''.'' cb))"

definition isValidSemVer :: "string \<Rightarrow> bool" where
  "isValidSemVer s \<longleftrightarrow> trim_prefix (trim_space s) ''v'' \<noteq> []
     \<and> list_all (\<lambda>p. p \<noteq> [] \<and> atoi p \<noteq> None) (split_at CHR ''.'' (clean_version s))"

section \<open>Quotients of bytes\<close>

text \<open>
  \<open>float64(x)\<close> for an unsigned \<open>x\<close>: 53 significant bits, rounded to nearest, ties to even.
\<close>

fun bit_length :: "nat \<Rightarrow> nat" where
  "bit_length n = (if n = 0 then 0 else Suc (bit_length (n div 2)))"

declare bit_length.simps [simp del]

definition f64_of_nat :: "nat \<Rightarrow> nat" where
  "f64_of_nat n =
     (let k = bit_length n - 53 in
      if k = 0 then n
      else (let q = n div 2 ^ k; r = 2 * (n mod 2 ^ k) in
        (if r > 2 ^ k \<or> (r = 2 ^ k \<and> odd q) then q + 1 else q) * 2 ^ k))"

text \<open>
  \<open>float64(a) / float64(b) >= c\<close>, for \<open>c\<close> the floating point number \<open>m / 2 ^ e\<close> with \<open>m\<close> of 53 bits:
  the exact quotient is at least half a unit below \<open>c\<close>, and at the half the even neighbour decides.
\<close>

definition quotient_ge :: "nat \<Rightarrow> nat \<Rightarrow> nat \<Rightarrow> nat \<Rightarrow> bool" where
  "quotient_ge m e a b \<longleftrightarrow>
     (if even m then (2 * m - 1) * f64_of_nat b \<le> 2 ^ (e + 1) * f64_of_nat a
      else (2 * m - 1) * f64_of_nat b < 2 ^ (e + 1) * f64_of_nat a)"

text \<open>The literals \<open>0.10\<close>, \<open>0.15\<close> and \<open>0.20\<close>.\<close>

definition ratio_ge_10 :: "u64 \<Rightarrow> u64 \<Rightarrow> bool" where
  "ratio_ge_10 a b = quotient_ge 7205759403792794 56 (unat a) (unat b)"

definition ratio_ge_15 :: "u64 \<Rightarrow> u64 \<Rightarrow> bool" where
  "ratio_ge_15 a b = quotient_ge 5404319552844595 55 (unat a) (unat b)"

definition ratio_ge_20 :: "u64 \<Rightarrow> u64 \<Rightarrow> bool" where
  "ratio_ge_20 a b = quotient_ge 7205759403792794 55 (unat a) (unat b)"

section \<open>The rules\<close>

definition new_reason :: "string \<Rightarrow> RuleState \<Rightarrow> Severity \<Rightarrow> time \<Rightarrow> evidence \<Rightarrow> Reason" where
  "new_reason code st sev now ev = \<lparr>rs_Code = code, rs_State = st, rs_Severity = sev,
     rs_FirstObservedAt = now, rs_LastObservedAt = now, rs_Evidence = ev\<rparr>"

definition previous_reasons :: "HealthSnapshot option \<Rightarrow> Reason list" where
  "previous_reasons prev = (case prev of None \<Rightarrow> [] | Some p \<Rightarrow> hs_Reasons p)"

definition last_seen :: "EvaluationInput \<Rightarrow> time option" where
  "last_seen inp = (case in_Device inp of
      None \<Rightarrow> None | Some d \<Rightarrow> if is_zero_time (df_LastSeenAt d) then None else Some (df_LastSeenAt d))"

text \<open>Since when the device has been reported stale or offline; \<open>now\<close> when it has not.\<close>

definition first_stale :: "time \<Rightarrow> HealthSnapshot option \<Rightarrow> time" where
  "first_stale now prev =
     (case find (\<lambda>r. rs_Code r = ''heartbeat_stale'' \<or> rs_Code r = ''device_offline'') (previous_reasons prev) of
        None \<Rightarrow> now | Some r \<Rightarrow> rs_FirstObservedAt r)"

definition offline_eligible :: "EvaluatorConfig \<Rightarrow> time \<Rightarrow> duration \<Rightarrow> HealthSnapshot option \<Rightarrow> bool" where
  "offline_eligible cfg now age prev \<longleftrightarrow>
     (case prev of None \<Rightarrow> False | Some p \<Rightarrow> hs_Status p = HealthOffline)
     \<or> time_sub now (first_stale now prev) \<ge> cf_OfflinePendingFor cfg
     \<or> age \<ge> cf_OfflineAfter cfg + cf_OfflinePendingFor cfg"

definition liveness_rule :: "EvaluatorConfig \<Rightarrow> time \<Rightarrow> EvaluationInput \<Rightarrow> Reason list" where
  "liveness_rule cfg now inp = (case last_seen inp of
      None \<Rightarrow> [new_reason ''device_never_seen'' RuleUnknown SeverityInfo now []]
    | Some seen \<Rightarrow>
        (let age = time_sub now seen;
             seen_ev = [(''age_seconds'', AnySeconds age), (''last_seen_at'', AnyTime seen)] in
         if age \<ge> cf_OfflineAfter cfg then
           (if offline_eligible cfg now age (in_Previous inp) then
              [new_reason ''device_offline'' RuleFiring SeverityCritical now
                 (seen_ev @ [(''threshold_min'', AnyMinutes (cf_OfflineAfter cfg))])]
            else [new_reason ''heartbeat_stale'' RuleFiring SeverityWarning now seen_ev])
         else if age \<ge> cf_StaleAfter cfg then
           [new_reason ''heartbeat_stale'' RuleFiring SeverityWarning now seen_ev]
         else []))"

definition version_rule :: "time \<Rightarrow> EvaluationInput \<Rightarrow> Reason list" where
  "version_rule now inp = (case (in_Device inp, in_VersionPolicy inp) of
      (Some d, Some vp) \<Rightarrow>
        (let v = df_AgentVersion d in
         if v = [] then []
         else if \<not> isValidSemVer v then
           [new_reason ''agent_version_invalid'' RuleUnknown SeverityInfo now [(''raw_version'', AnyText v)]]
         else if vp_MinimumSupportedVersion vp \<noteq> [] \<and> semverCompare v (vp_MinimumSupportedVersion vp) < 0 then
           [new_reason ''agent_version_outdated'' RuleFiring SeverityCritical now
              [(''current_version'', AnyText v), (''min_supported'', AnyText (vp_MinimumSupportedVersion vp))]]
         else if vp_RecommendedVersion vp \<noteq> [] \<and> semverCompare v (vp_RecommendedVersion vp) < 0 then
           [new_reason ''agent_version_outdated'' RuleFiring SeverityWarning now
              [(''current_version'', AnyText v), (''recommended_version'', AnyText (vp_RecommendedVersion vp))]]
         else [])
    | _ \<Rightarrow> [])"

definition ssh_rule :: "EvaluatorConfig \<Rightarrow> time \<Rightarrow> EvaluationInput \<Rightarrow> Reason list" where
  "ssh_rule cfg now inp = (case (in_SSHDesired inp, in_Device inp) of
      (Some want, Some d) \<Rightarrow>
        (if \<not> sd_Enabled want then []
         else if df_SyncStatus d = ''failed''
              \<or> (case in_SSHCmd inp of None \<Rightarrow> False | Some c \<Rightarrow> cs_Status c = ''failed'' \<or> cs_Status c = ''timed_out'') then
           (let errMsg = (if df_SyncError d = [] then (case in_SSHCmd inp of None \<Rightarrow> [] | Some c \<Rightarrow> cs_ErrorCode c)
                          else df_SyncError d) in
            [new_reason ''ssh_sync_failed'' RuleFiring SeverityWarning now [(''sync_error'', AnyText errMsg)]])
         else if sd_Hash want \<noteq> [] \<and> (df_AppliedHash d \<noteq> sd_Hash want \<or> df_AppliedVersion d \<noteq> sd_Version want) then
           (if is_zero_time (df_SyncUpdatedAt d) \<or> time_sub now (df_SyncUpdatedAt d) \<ge> cf_SSHDriftAfter cfg then
              [new_reason ''ssh_key_drift'' RuleFiring SeverityWarning now
                 [(''desired_version'', AnyInt (sd_Version want)), (''applied_version'', AnyInt (df_AppliedVersion d)),
                  (''desired_hash'', AnyText (sd_Hash want)), (''applied_hash'', AnyText (df_AppliedHash d))]]
            else [])
         else [])
    | _ \<Rightarrow> [])"

definition ddns_rule :: "time \<Rightarrow> EvaluationInput \<Rightarrow> Reason list" where
  "ddns_rule now inp = (case in_DDNSState inp of
      None \<Rightarrow> []
    | Some d \<Rightarrow>
        if \<not> dd_Enabled d then []
        else if dd_SyncStatus d = ''failed'' then
          [new_reason ''ddns_sync_failed'' RuleFiring SeverityWarning now [(''error'', AnyText (dd_SyncError d))]]
        else if dd_DesiredIPv6 d = [] \<and> \<not> dd_InGracePeriod d then
          [new_reason ''ddns_no_valid_address'' RuleFiring SeverityWarning now []]
        else if dd_DesiredIPv6 d \<noteq> [] \<and> dd_AppliedIPv6 d \<noteq> [] \<and> dd_DesiredIPv6 d \<noteq> dd_AppliedIPv6 d
            \<and> \<not> dd_InGracePeriod d then
          [new_reason ''ddns_address_drift'' RuleFiring SeverityWarning now
             [(''desired_ip'', AnyText (dd_DesiredIPv6 d)), (''applied_ip'', AnyText (dd_AppliedIPv6 d))]]
        else if dd_PrefixStale d then [new_reason ''ddns_prefix_stale'' RuleFiring SeverityWarning now []]
        else [])"

definition upgrade_rule :: "EvaluatorConfig \<Rightarrow> time \<Rightarrow> EvaluationInput \<Rightarrow> Reason list" where
  "upgrade_rule cfg now inp = (case in_UpgradeCmd inp of
      None \<Rightarrow> []
    | Some c \<Rightarrow>
        if cs_Status c = ''failed'' \<or> cs_Status c = ''timed_out'' \<or> cs_Status c = ''interrupted'' then
          [new_reason ''upgrade_failed'' RuleFiring SeverityWarning now
             [(''command_id'', AnyText (cs_CommandID c)), (''status'', AnyText (cs_Status c)),
              (''error_code'', AnyText (cs_ErrorCode c))]]
        else if cs_Status c = ''succeeded'' then
          (case (in_Device inp, in_VersionPolicy inp) of
             (Some d, Some vp) \<Rightarrow>
               (let since = (case cs_FinishedAt c of None \<Rightarrow> cs_CreatedAt c
                      | Some t \<Rightarrow> if is_zero_time t then cs_CreatedAt c else t) in
                if vp_RecommendedVersion vp \<noteq> [] \<and> df_AgentVersion d \<noteq> vp_RecommendedVersion vp
                    \<and> time_sub now since \<ge> cf_UpgradeConvergenceTimeout cfg then
                  [new_reason ''upgrade_not_converged'' RuleFiring SeverityWarning now
                     [(''current_version'', AnyText (df_AgentVersion d)),
                      (''target_version'', AnyText (vp_RecommendedVersion vp)), (''command_id'', AnyText (cs_CommandID c))]]
                else [])
           | _ \<Rightarrow> [])
        else [])"

text \<open>
  The samples of a resource. \<open>previous_count\<close> is what the last reason of the code has counted:
  \<open>dflt\<close> when it fires and its evidence has no count.
\<close>

definition previous_firing :: "Reason option \<Rightarrow> bool" where
  "previous_firing prev = (case prev of None \<Rightarrow> False | Some r \<Rightarrow> rs_State r = RuleFiring)"

definition previous_count :: "int \<Rightarrow> Reason option \<Rightarrow> int" where
  "previous_count dflt prev = (case prev of
      None \<Rightarrow> 0
    | Some r \<Rightarrow>
        (case gget (rs_Evidence r) ''consecutive_count'' of
           Some (AnyInt n) \<Rightarrow> n
         | Some (AnyFloat n) \<Rightarrow> n
         | _ \<Rightarrow> if rs_State r = RuleFiring then dflt else 0))"

definition debounce :: "int \<Rightarrow> Reason option \<Rightarrow> bool \<Rightarrow> bool \<Rightarrow> RuleState \<times> int" where
  "debounce n prev exceeded recovered =
     (let count = previous_count n prev in
      if previous_firing prev then (if recovered then (RuleOK, 0) else (RuleFiring, count + 1))
      else if exceeded then (if count + 1 \<ge> n then RuleFiring else RuleOK, count + 1)
      else (RuleOK, 0))"

definition last_reason :: "string \<Rightarrow> HealthSnapshot option \<Rightarrow> Reason option" where
  "last_reason code prev = find (\<lambda>r. rs_Code r = code) (rev (previous_reasons prev))"

definition five_GiB :: u64 where "five_GiB = 5 * 1024 * 1024 * 1024"
definition eight_GiB :: u64 where "eight_GiB = 8 * 1024 * 1024 * 1024"

definition disk_exceeded :: "HealthFacts \<Rightarrow> bool" where
  "disk_exceeded f \<longleftrightarrow> \<not> ratio_ge_10 (hf_DiskAvailableBytes f) (hf_DiskTotalBytes f)
     \<or> (hf_DiskTotalBytes f \<ge> eight_GiB \<and> hf_DiskAvailableBytes f < five_GiB)"

definition disk_recovered :: "HealthFacts \<Rightarrow> bool" where
  "disk_recovered f \<longleftrightarrow> ratio_ge_15 (hf_DiskAvailableBytes f) (hf_DiskTotalBytes f)
     \<and> (\<not> hf_DiskTotalBytes f \<ge> eight_GiB \<or> hf_DiskAvailableBytes f \<ge> eight_GiB)"

definition disk_rule :: "time \<Rightarrow> HealthSnapshot option \<Rightarrow> HealthFacts \<Rightarrow> Reason list" where
  "disk_rule now prev f =
     (if \<not> hf_DiskTotalBytes f > 0 then []
      else
        (let (st, n) = debounce 2 (last_reason ''disk_space_low'' prev) (disk_exceeded f) (disk_recovered f) in
         if st = RuleFiring \<or> n > 0 then
           [new_reason ''disk_space_low'' st SeverityWarning now
              [(''mount'', AnyText (hf_DiskMount f)), (''available_bytes'', AnyInt (uint (hf_DiskAvailableBytes f))),
               (''total_bytes'', AnyInt (uint (hf_DiskTotalBytes f))),
               (''avail_ratio'', AnyRatio (hf_DiskAvailableBytes f) (hf_DiskTotalBytes f)),
               (''consecutive_count'', AnyInt n)]]
         else []))"

definition memory_rule :: "time \<Rightarrow> HealthSnapshot option \<Rightarrow> HealthFacts \<Rightarrow> Reason list" where
  "memory_rule now prev f =
     (if \<not> hf_MemoryTotalBytes f > 0 then []
      else
        (let (st, n) = debounce 3 (last_reason ''memory_pressure'' prev)
               (\<not> ratio_ge_10 (hf_MemoryAvailableBytes f) (hf_MemoryTotalBytes f))
               (ratio_ge_20 (hf_MemoryAvailableBytes f) (hf_MemoryTotalBytes f)) in
         if st = RuleFiring \<or> n > 0 then
           [new_reason ''memory_pressure'' st SeverityWarning now
              [(''available_bytes'', AnyInt (uint (hf_MemoryAvailableBytes f))),
               (''total_bytes'', AnyInt (uint (hf_MemoryTotalBytes f))),
               (''avail_ratio'', AnyRatio (hf_MemoryAvailableBytes f) (hf_MemoryTotalBytes f)),
               (''consecutive_count'', AnyInt n)]]
         else []))"

section \<open>The evaluation\<close>

text \<open>The reasons by code; of several with one code the last counts.\<close>

definition reason_map :: "Reason list \<Rightarrow> (string, Reason) gomap" where
  "reason_map rs = fold (\<lambda>r. gput (rs_Code r) r) rs []"

definition keep_first_observed :: "HealthSnapshot option \<Rightarrow> Reason \<Rightarrow> Reason" where
  "keep_first_observed prev r = (case gget (reason_map (previous_reasons prev)) (rs_Code r) of
      None \<Rightarrow> r
    | Some pr \<Rightarrow> if rs_State pr = RuleFiring \<and> rs_State r = RuleFiring
               then r\<lparr>rs_FirstObservedAt := rs_FirstObservedAt pr\<rparr> else r)"

fun severityWeight :: "Severity \<Rightarrow> int" where
  "severityWeight SeverityCritical = 3"
| "severityWeight SeverityWarning = 2"
| "severityWeight SeverityInfo = 1"
| "severityWeight (SeverityOther _) = 0"

definition reason_before :: "Reason \<Rightarrow> Reason \<Rightarrow> bool" where
  "reason_before x y \<longleftrightarrow>
     (if severityWeight (rs_Severity x) \<noteq> severityWeight (rs_Severity y)
      then severityWeight (rs_Severity x) > severityWeight (rs_Severity y) else rs_Code x < rs_Code y)"

definition overall_status :: "Reason list \<Rightarrow> health_status" where
  "overall_status rs =
     (if list_ex (\<lambda>r. rs_Code r = ''device_offline'' \<and> rs_State r = RuleFiring) rs then HealthOffline
      else if list_ex (\<lambda>r. rs_Code r = ''device_never_seen'') rs then HealthUnknown
      else if list_ex (\<lambda>r. rs_State r = RuleFiring \<and> (rs_Severity r = SeverityCritical \<or> rs_Severity r = SeverityWarning)) rs
      then HealthDegraded else HealthHealthy)"

definition health_event :: "string \<Rightarrow> RuleState \<Rightarrow> RuleState \<Rightarrow> time \<Rightarrow> HealthSnapshot \<Rightarrow> Reason \<Rightarrow> HealthEvent" where
  "health_event type from to now cur r =
     \<lparr>he_ID = ''hevt_'' @ hs_DeviceID cur @ ''_'' @ rs_Code r @ ''_'' @ int_text (unix_nano now),
      he_DeviceID = hs_DeviceID cur, he_Type = type, he_ReasonCode = rs_Code r, he_FromState = from,
      he_ToState = to, he_Severity = rs_Severity r, he_OccurredAt = now, he_RuleVersion = hs_RuleVersion cur,
      he_Evidence = rs_Evidence r, he_SnapshotRevision = hs_Revision cur\<rparr>"

definition opened_event :: "(string, Reason) gomap \<Rightarrow> time \<Rightarrow> HealthSnapshot \<Rightarrow> Reason \<Rightarrow> HealthEvent option" where
  "opened_event prevMap now snap cur =
     (if rs_State cur \<noteq> RuleFiring then None
      else (case gget prevMap (rs_Code cur) of
          None \<Rightarrow> Some (health_event ''opened'' RuleOK (rs_State cur) now snap cur)
        | Some old \<Rightarrow>
            if rs_State old \<noteq> RuleFiring then Some (health_event ''opened'' RuleOK (rs_State cur) now snap cur)
            else if rs_Severity old \<noteq> rs_Severity cur then
              Some (health_event ''changed'' (rs_State old) (rs_State cur) now snap cur)
            else None))"

definition resolved_event :: "(string, Reason) gomap \<Rightarrow> time \<Rightarrow> HealthSnapshot \<Rightarrow> Reason \<Rightarrow> HealthEvent option" where
  "resolved_event curMap now snap old =
     (if rs_State old \<noteq> RuleFiring then None
      else (case gget curMap (rs_Code old) of
          None \<Rightarrow> Some (health_event ''resolved'' (rs_State old) RuleOK now snap old)
        | Some cur \<Rightarrow> if rs_State cur \<noteq> RuleFiring
            then Some (health_event ''resolved'' (rs_State old) RuleOK now snap old) else None))"

definition generateEvents :: "HealthSnapshot option \<Rightarrow> HealthSnapshot \<Rightarrow> time \<Rightarrow> HealthEvent list" where
  "generateEvents prev cur now =
     (let currentMap = reason_map (hs_Reasons cur); prevMap = reason_map (previous_reasons prev) in
      List.map_filter (opened_event prevMap now cur) (gvals currentMap)
      @ List.map_filter (resolved_event currentMap now cur) (gvals prevMap))"

definition all_reasons :: "EvaluatorConfig \<Rightarrow> time \<Rightarrow> EvaluationInput \<Rightarrow> Reason list" where
  "all_reasons cfg now inp =
     liveness_rule cfg now inp @ version_rule now inp @ ssh_rule cfg now inp @ ddns_rule now inp
     @ upgrade_rule cfg now inp
     @ (case Option.bind (in_Device inp) df_RuntimeFacts of
          None \<Rightarrow> []
        | Some f \<Rightarrow> disk_rule now (in_Previous inp) f @ memory_rule now (in_Previous inp) f)"

text \<open>\<open>clock\<close> is read when the input has no time.\<close>

definition Evaluate :: "EvaluatorConfig \<Rightarrow> time \<Rightarrow> EvaluationInput \<Rightarrow> HealthSnapshot \<times> HealthEvent list" where
  "Evaluate cfg clock inp =
     (let now = (if is_zero_time (in_Now inp) then clock else in_Now inp);
          reasons = go_sort reason_before (map (keep_first_observed (in_Previous inp)) (all_reasons cfg now inp));
          overall = overall_status reasons;
          snap = \<lparr>hs_DeviceID = (case in_Device inp of None \<Rightarrow> [] | Some d \<Rightarrow> df_ID d),
            hs_Status = overall,
            hs_Connected = (case in_Device inp of None \<Rightarrow> False | Some d \<Rightarrow> df_Connected d),
            hs_EvaluatedAt = now, hs_LastSeenAt = last_seen inp,
            hs_Since = (case in_Previous inp of None \<Rightarrow> now | Some p \<Rightarrow> if hs_Status p = overall then hs_Since p else now),
            hs_RuleVersion = cf_RuleVersion cfg, hs_Reasons = reasons,
            hs_Facts = Option.bind (in_Device inp) df_RuntimeFacts,
            hs_Revision = (case in_Previous inp of None \<Rightarrow> 1 | Some p \<Rightarrow> hs_Revision p + 1)\<rparr> in
      (snap, generateEvents (in_Previous inp) snap now))"

end
