(* ===== verification/HealthService.thy ===== *)
theory HealthService
  imports Health
begin

text \<open>
  The store of health snapshots and events (\<open>internal/health/repository.go\<close>) and the service that
  evaluates a device, stores the result and tells the listeners (\<open>service.go\<close>). A file is replaced as
  a whole: \<open>ok\<close> tells whether a replacement succeeds. The memory is changed before the file is written
  and not restored when that fails. A cursor is the position in the list it was made from.
\<close>

section \<open>The repository\<close>

record health_repo =
  hr_snapshots :: "(string, HealthSnapshot) gomap"
  hr_events :: "HealthEvent list"
  hr_snapshotFile :: "HealthSnapshot list option"
  hr_eventFile :: "HealthEvent list option"

datatype 'a data_file = FileAbsent | FileUnreadable | FileBlank | FileCorrupt | FileData int "'a list"

text \<open>What opening reads from one file: nothing when it is absent or blank.\<close>

definition read_data :: "'a data_file \<Rightarrow> string + 'a list" where
  "read_data f = (case f of
      FileAbsent \<Rightarrow> Inr []
    | FileBlank \<Rightarrow> Inr []
    | FileUnreadable \<Rightarrow> Inl ''read file''
    | FileCorrupt \<Rightarrow> Inl ''corrupted file''
    | FileData schema xs \<Rightarrow> if schema \<noteq> 1 then Inl ''unsupported schema version'' else Inr xs)"

definition NewHealthRepository ::
  "HealthSnapshot data_file \<Rightarrow> HealthEvent data_file \<Rightarrow> string + health_repo" where
  "NewHealthRepository sf ef = (case read_data sf of
      Inl e \<Rightarrow> Inl e
    | Inr ss \<Rightarrow>
        (case read_data ef of
           Inl e \<Rightarrow> Inl e
         | Inr es \<Rightarrow> Inr \<lparr>hr_snapshots = fold (\<lambda>s. gput (hs_DeviceID s) s) ss [], hr_events = es,
             hr_snapshotFile = Some ss, hr_eventFile = Some es\<rparr>))"

definition SaveSnapshot :: "bool \<Rightarrow> HealthSnapshot \<Rightarrow> health_repo \<Rightarrow> health_repo \<times> bool" where
  "SaveSnapshot ok s r =
     (let r1 = r\<lparr>hr_snapshots := gput (hs_DeviceID s) s (hr_snapshots r)\<rparr> in
      if ok then (r1\<lparr>hr_snapshotFile := Some (gvals (hr_snapshots r1))\<rparr>, True) else (r1, False))"

definition GetSnapshot :: "string \<Rightarrow> health_repo \<Rightarrow> HealthSnapshot option" where
  "GetSnapshot deviceID r = gget (hr_snapshots r) deviceID"

definition ListSnapshots :: "health_repo \<Rightarrow> HealthSnapshot list" where
  "ListSnapshots r = go_sort (\<lambda>x y. hs_DeviceID x < hs_DeviceID y) (gvals (hr_snapshots r))"

definition AppendEvents :: "bool \<Rightarrow> HealthEvent list \<Rightarrow> health_repo \<Rightarrow> health_repo \<times> bool" where
  "AppendEvents ok evs r =
     (if evs = [] then (r, True)
      else
        (let all = hr_events r @ evs;
             kept = (if length all > 5000 then drop (length all - 5000) all else all);
             r1 = r\<lparr>hr_events := kept\<rparr> in
         if ok then (r1\<lparr>hr_eventFile := Some kept\<rparr>, True) else (r1, False)))"

text \<open>
  A page of a list: the entries from the cursor on, \<open>limit\<close> of them, and the cursor of the next page.
  The repositories of alerts and deliveries page in the same way.
\<close>

definition page_limit :: "int \<Rightarrow> int" where
  "page_limit limit = (if limit \<le> 0 \<or> limit > 200 then 50 else limit)"

definition page_start :: "string \<Rightarrow> 'a list \<Rightarrow> nat" where
  "page_start cursor xs =
     (if cursor = [] then 0
      else (case atoi cursor of None \<Rightarrow> 0 | Some i \<Rightarrow> if i \<ge> 0 \<and> i < int (length xs) then nat i else 0))"

definition page_of :: "string \<Rightarrow> int \<Rightarrow> 'a list \<Rightarrow> 'a list \<times> string" where
  "page_of cursor limit xs =
     (let start = page_start cursor xs;
          end0 = start + nat (page_limit limit);
          stop = (if end0 > length xs then length xs else end0) in
      (take (stop - start) (drop start xs), if stop < length xs then int_text (int stop) else []))"

definition ListEvents :: "string \<Rightarrow> string \<Rightarrow> int \<Rightarrow> health_repo \<Rightarrow> HealthEvent list \<times> string" where
  "ListEvents deviceID cursor limit r =
     page_of cursor limit (filter (\<lambda>ev. deviceID = [] \<or> he_DeviceID ev = deviceID) (rev (hr_events r)))"

record HealthSummary =
  su_Total :: nat
  su_Healthy :: nat
  su_Degraded :: nat
  su_Offline :: nat
  su_Unknown :: nat
  su_UnhealthyCount :: nat

definition add_status :: "health_status \<Rightarrow> HealthSummary \<Rightarrow> HealthSummary" where
  "add_status st s = (case st of
      HealthHealthy \<Rightarrow> s\<lparr>su_Healthy := su_Healthy s + 1\<rparr>
    | HealthDegraded \<Rightarrow> s\<lparr>su_Degraded := su_Degraded s + 1, su_UnhealthyCount := su_UnhealthyCount s + 1\<rparr>
    | HealthOffline \<Rightarrow> s\<lparr>su_Offline := su_Offline s + 1, su_UnhealthyCount := su_UnhealthyCount s + 1\<rparr>
    | HealthUnknown \<Rightarrow> s\<lparr>su_Unknown := su_Unknown s + 1\<rparr>
    | HealthOther _ \<Rightarrow> s)"

definition GetSummary :: "health_repo \<Rightarrow> HealthSummary" where
  "GetSummary r = fold (\<lambda>s. add_status (hs_Status s)) (gvals (hr_snapshots r))
     \<lparr>su_Total = length (hr_snapshots r), su_Healthy = 0, su_Degraded = 0, su_Offline = 0, su_Unknown = 0,
      su_UnhealthyCount = 0\<rparr>"

section \<open>The service\<close>

text \<open>
  What one evaluation meets: the clock, the answers of the ports (\<open>None\<close> for an error, a missing port
  or nothing to tell) and whether the two files can be written.
\<close>

record health_env =
  hn_Now :: time
  hn_Facts :: "DeviceFactSummary option"
  hn_SSH :: "SSHDesiredInfo option"
  hn_DDNS :: "DDNSDeviceState option"
  hn_Upgrade :: "CommandSummary option"
  hn_SSHCmd :: "CommandSummary option"
  hn_Policy :: "VersionPolicyInfo option"
  hn_SnapshotOK :: bool
  hn_EventsOK :: bool

datatype health_error = ErrEmptyDeviceID | ErrSaveSnapshot | ErrAppendEvents

definition evaluation_input :: "health_env \<Rightarrow> string \<Rightarrow> health_repo \<Rightarrow> EvaluationInput" where
  "evaluation_input env deviceID r =
     \<lparr>in_Device = hn_Facts env, in_SSHDesired = hn_SSH env, in_DDNSState = hn_DDNS env,
      in_UpgradeCmd = hn_Upgrade env, in_SSHCmd = hn_SSHCmd env, in_VersionPolicy = hn_Policy env,
      in_Previous = GetSnapshot deviceID r, in_Now = hn_Now env\<rparr>"

text \<open>The repository afterwards, the answer, and the events the listeners are told.\<close>

definition EvaluateDevice ::
  "EvaluatorConfig \<Rightarrow> health_env \<Rightarrow> string \<Rightarrow> health_repo
     \<Rightarrow> health_repo \<times> (health_error + HealthSnapshot) \<times> HealthEvent list" where
  "EvaluateDevice cfg env deviceID r =
     (if deviceID = [] then (r, Inl ErrEmptyDeviceID, [])
      else
        (let (snap, evs) = Evaluate cfg (hn_Now env) (evaluation_input env deviceID r);
             (r1, saved) = SaveSnapshot (hn_SnapshotOK env) snap r in
         if \<not> saved then (r1, Inl ErrSaveSnapshot, [])
         else if evs = [] then (r1, Inr snap, [])
         else
           (let (r2, appended) = AppendEvents (hn_EventsOK env) evs r1 in
            if \<not> appended then (r2, Inl ErrAppendEvents, []) else (r2, Inr snap, evs))))"

text \<open>The sweep over all devices; an error of one does not stop it.\<close>

definition EvaluateAll ::
  "EvaluatorConfig \<Rightarrow> (string \<Rightarrow> health_env) \<Rightarrow> string list \<Rightarrow> health_repo \<Rightarrow> health_repo \<times> HealthEvent list" where
  "EvaluateAll cfg envs ids r =
     fold (\<lambda>i (r, evs). let (r1, _, evs1) = EvaluateDevice cfg (envs i) i r in (r1, evs @ evs1)) ids (r, [])"

end
