(* ===== verification/HealthProps.thy ===== *)
theory HealthProps
  imports HealthService
begin

text \<open>
  What the evaluator promises: reasons with distinct codes, a status that says what fires, events
  that lead from the firing rules of the previous snapshot to those of the new one, and samples that
  fire only when they repeat. The comparison of floating point quotients is exact for the sizes of
  real disks.
\<close>

section \<open>Reasons by code\<close>

lemma reason_map_snoc: "reason_map (rs @ [r]) = gput (rs_Code r) r (reason_map rs)"
  by (simp add: reason_map_def)

lemma wf_reason_map [simp]: "wf_map (reason_map rs)"
  by (induction rs rule: rev_induct) (simp_all add: reason_map_snoc reason_map_def [of "[]"])

lemma gget_reason_map:
  "gget (reason_map rs) c = find (\<lambda>r. rs_Code r = c) (rev rs)"
  by (induction rs rule: rev_induct) (auto simp: reason_map_snoc reason_map_def [of "[]"])

lemma reason_map_code: "gget (reason_map rs) c = Some r \<Longrightarrow> rs_Code r = c"
  by (auto simp: gget_reason_map find_Some_iff)

text \<open>The codes that fire, with their severities.\<close>

definition firing :: "Reason list \<Rightarrow> string \<Rightarrow> Severity option" where
  "firing rs c = (case gget (reason_map rs) c of
      None \<Rightarrow> None | Some r \<Rightarrow> if rs_State r = RuleFiring then Some (rs_Severity r) else None)"

definition firing_codes :: "Reason list \<Rightarrow> string set" where
  "firing_codes rs = {c. firing rs c \<noteq> None}"

section \<open>Codes\<close>

definition rule_codes :: "string list" where
  "rule_codes = [''device_never_seen'', ''device_offline'', ''heartbeat_stale'', ''agent_version_invalid'',
     ''agent_version_outdated'', ''ssh_sync_failed'', ''ssh_key_drift'', ''ddns_sync_failed'',
     ''ddns_no_valid_address'', ''ddns_address_drift'', ''ddns_prefix_stale'', ''upgrade_failed'',
     ''upgrade_not_converged'', ''disk_space_low'', ''memory_pressure'']"

lemma rs_Code_new_reason [simp]: "rs_Code (new_reason c st sev now ev) = c"
  and rs_State_new_reason [simp]: "rs_State (new_reason c st sev now ev) = st"
  and rs_Severity_new_reason [simp]: "rs_Severity (new_reason c st sev now ev) = sev"
  and rs_First_new_reason [simp]: "rs_FirstObservedAt (new_reason c st sev now ev) = now"
  and rs_Evidence_new_reason [simp]: "rs_Evidence (new_reason c st sev now ev) = ev"
  by (simp_all add: new_reason_def)

definition rule_code_groups :: "string list list" where
  "rule_code_groups = [[''device_never_seen'', ''device_offline'', ''heartbeat_stale''],
     [''agent_version_invalid'', ''agent_version_outdated''], [''ssh_sync_failed'', ''ssh_key_drift''],
     [''ddns_sync_failed'', ''ddns_no_valid_address'', ''ddns_address_drift'', ''ddns_prefix_stale''],
     [''upgrade_failed'', ''upgrade_not_converged''], [''disk_space_low''], [''memory_pressure'']]"

definition coded :: "Reason list \<Rightarrow> string list \<Rightarrow> bool" where
  "coded rs cs \<longleftrightarrow> (\<forall>r \<in> set rs. rs_Code r \<in> set cs) \<and> length rs \<le> 1"

lemma coded_one [simp]: "coded [new_reason c st sev now ev] cs \<longleftrightarrow> c \<in> set cs"
  and coded_none [simp]: "coded [] cs"
  by (simp_all add: coded_def)

lemma coded_if [simp]: "coded (if b then xs else ys) cs \<longleftrightarrow> (if b then coded xs cs else coded ys cs)"
  by simp

lemma liveness_coded: "coded (liveness_rule cfg now inp) (rule_code_groups ! 0)"
  by (simp add: liveness_rule_def rule_code_groups_def Let_def split: option.split prod.split)

lemma version_coded: "coded (version_rule now inp) (rule_code_groups ! 1)"
  by (simp add: version_rule_def rule_code_groups_def Let_def split: option.split prod.split)

lemma ssh_coded: "coded (ssh_rule cfg now inp) (rule_code_groups ! 2)"
  by (simp add: ssh_rule_def rule_code_groups_def Let_def split: option.split prod.split)

lemma ddns_coded: "coded (ddns_rule now inp) (rule_code_groups ! 3)"
  by (simp add: ddns_rule_def rule_code_groups_def Let_def split: option.split prod.split)

lemma upgrade_coded: "coded (upgrade_rule cfg now inp) (rule_code_groups ! 4)"
  by (simp add: upgrade_rule_def rule_code_groups_def Let_def split: option.split prod.split)

lemma disk_coded: "coded (disk_rule now prev f) (rule_code_groups ! 5)"
  by (simp add: disk_rule_def rule_code_groups_def Let_def split: option.split prod.split)

lemma memory_coded: "coded (memory_rule now prev f) (rule_code_groups ! 6)"
  by (simp add: memory_rule_def rule_code_groups_def Let_def split: option.split prod.split)

lemmas rule_coded = liveness_coded version_coded ssh_coded ddns_coded upgrade_coded disk_coded memory_coded

lemma coded_parts:
  "list_all2 coded Rs Cs \<Longrightarrow> distinct (concat Cs) \<Longrightarrow>
    distinct (map rs_Code (concat Rs)) \<and> set (map rs_Code (concat Rs)) \<subseteq> set (concat Cs)"
proof (induction rule: list_all2_induct)
  case (Cons R Rs C Cs)
  then have C: "distinct (map rs_Code R)" "rs_Code ` set R \<subseteq> set C"
    by (auto simp: coded_def) (cases R; simp)
  have "distinct (concat Cs)" "set C \<inter> set (concat Cs) = {}" using Cons.prems by simp_all
  with Cons.IH C show ?case by (simp add: image_Un image_UN) blast
qed simp

lemma all_reasons_codes:
  "distinct (map rs_Code (all_reasons cfg now inp)) \<and> set (map rs_Code (all_reasons cfg now inp)) \<subseteq> set rule_codes"
proof -
  have d: "distinct (concat rule_code_groups)" "concat rule_code_groups = rule_codes"
    by code_simp+
  obtain D M where D: "coded D (rule_code_groups ! 5)" "coded M (rule_code_groups ! 6)"
    and tail: "(case Option.bind (in_Device inp) df_RuntimeFacts of None \<Rightarrow> []
        | Some f \<Rightarrow> disk_rule now (in_Previous inp) f @ memory_rule now (in_Previous inp) f) = D @ M"
    by (cases "Option.bind (in_Device inp) df_RuntimeFacts") (auto intro: rule_coded coded_none)
  let ?Rs = "[liveness_rule cfg now inp, version_rule now inp, ssh_rule cfg now inp, ddns_rule now inp,
      upgrade_rule cfg now inp, D, M]"
  have "list_all2 coded ?Rs rule_code_groups"
    using liveness_coded [of cfg now inp] version_coded [of now inp] ssh_coded [of cfg now inp]
      ddns_coded [of now inp] upgrade_coded [of cfg now inp] D by (simp add: rule_code_groups_def)
  from coded_parts [OF this d(1)] tail show ?thesis by (simp add: all_reasons_def d(2))
qed

section \<open>Events\<close>

text \<open>What an event says of the rules that fire.\<close>

definition event_effect :: "HealthEvent \<Rightarrow> Severity option" where
  "event_effect e = (if he_Type e = ''resolved'' then None else Some (he_Severity e))"

definition apply_event :: "HealthEvent \<Rightarrow> (string \<Rightarrow> Severity option) \<Rightarrow> string \<Rightarrow> Severity option" where
  "apply_event e f = f(he_ReasonCode e := event_effect e)"

lemma apply_event_code [simp]: "apply_event e f (he_ReasonCode e) = event_effect e"
  and apply_event_other: "c \<noteq> he_ReasonCode e \<Longrightarrow> apply_event e f c = f c"
  by (simp_all add: apply_event_def)

lemma fold_apply_other:
  "c \<notin> he_ReasonCode ` set evs \<Longrightarrow> fold apply_event evs f c = f c"
  by (induction evs arbitrary: f) (auto simp: apply_event_other)

lemma fold_apply_event:
  "distinct (map he_ReasonCode evs) \<Longrightarrow> e \<in> set evs \<Longrightarrow>
    fold apply_event evs f (he_ReasonCode e) = event_effect e"
proof (induction evs arbitrary: f)
  case (Cons x evs)
  then show ?case
    by (cases "x = e") (simp_all add: fold_apply_other)
qed simp

lemma in_map_filter: "e \<in> set (List.map_filter f xs) \<longleftrightarrow> (\<exists>x \<in> set xs. f x = Some e)"
  by (auto simp: List.map_filter_def) force

text \<open>The two kinds of events, each for a reason and with its code.\<close>

lemma opened_eventD:
  assumes "opened_event m now snap r = Some e"
  shows "he_ReasonCode e = rs_Code r \<and> rs_State r = RuleFiring \<and> he_Severity e = rs_Severity r
    \<and> (he_Type e = ''opened'' \<or> he_Type e = ''changed'') \<and> he_DeviceID e = hs_DeviceID snap \<and> he_OccurredAt e = now
    \<and> (case gget m (rs_Code r) of None \<Rightarrow> True | Some old \<Rightarrow> rs_State old = RuleFiring \<longrightarrow> rs_Severity old \<noteq> rs_Severity r)"
  using assms by (auto simp: opened_event_def health_event_def split: option.splits if_splits)

lemma resolved_eventD:
  assumes "resolved_event m now snap r = Some e"
  shows "he_ReasonCode e = rs_Code r \<and> rs_State r = RuleFiring \<and> he_Type e = ''resolved''
    \<and> he_DeviceID e = hs_DeviceID snap \<and> he_OccurredAt e = now
    \<and> (case gget m (rs_Code r) of None \<Rightarrow> True | Some cur \<Rightarrow> rs_State cur \<noteq> RuleFiring)"
  using assms by (auto simp: resolved_event_def health_event_def split: option.splits if_splits)

lemma distinct_event_codes:
  assumes "\<And>r e. f r = Some e \<Longrightarrow> he_ReasonCode e = rs_Code r" and "distinct (map rs_Code rs)"
  shows "distinct (map he_ReasonCode (List.map_filter f rs))"
  using assms(2)
proof (induction rs)
  case (Cons r rs)
  have "he_ReasonCode ` set (List.map_filter f rs) \<subseteq> rs_Code ` set rs"
    using assms(1) by (auto simp: in_map_filter simp del: set_map)
  with Cons show ?case
    by (cases "f r") (auto simp: List.map_filter_simps assms(1))
qed (simp add: List.map_filter_simps)

lemma reason_map_vals:
  "r \<in> set (gvals (reason_map rs)) \<longleftrightarrow> gget (reason_map rs) (rs_Code r) = Some r"
  using in_vals_gget [OF wf_reason_map, of r rs] reason_map_code [of rs] gget_in_vals [of "reason_map rs"]
  by metis

lemma distinct_map_codes: "distinct (map rs_Code (gvals (reason_map rs)))"
proof -
  have "rs_Code v = k" if "(k, v) \<in> set (reason_map rs)" for k v
    using that reason_map_code [of rs k v] gget_iff_in_set [OF wf_reason_map, of rs k v] by blast
  then have "map rs_Code (gvals (reason_map rs)) = gkeys (reason_map rs)"
    by (auto simp: comp_def)
  then show ?thesis using wf_reason_map [of rs] unfolding wf_map_def by metis
qed

lemma generated_iff:
  "e \<in> set (generateEvents prev cur now) \<longleftrightarrow>
    (\<exists>r. gget (reason_map (hs_Reasons cur)) (rs_Code r) = Some r
       \<and> opened_event (reason_map (previous_reasons prev)) now cur r = Some e)
    \<or> (\<exists>r. gget (reason_map (previous_reasons prev)) (rs_Code r) = Some r
       \<and> resolved_event (reason_map (hs_Reasons cur)) now cur r = Some e)"
  unfolding generateEvents_def Let_def set_append in_map_filter Un_iff Bex_def reason_map_vals ..

lemma generated_event:
  assumes "e \<in> set (generateEvents prev cur now)"
  shows "event_effect e = firing (hs_Reasons cur) (he_ReasonCode e)"
    and "firing (previous_reasons prev) (he_ReasonCode e) \<noteq> firing (hs_Reasons cur) (he_ReasonCode e)"
    and "he_DeviceID e = hs_DeviceID cur" and "he_OccurredAt e = now"
    and "he_Type e = ''opened'' \<or> he_Type e = ''changed'' \<or> he_Type e = ''resolved''"
proof -
  consider (o) r where "gget (reason_map (hs_Reasons cur)) (rs_Code r) = Some r"
      "opened_event (reason_map (previous_reasons prev)) now cur r = Some e"
    | (r) r where "gget (reason_map (previous_reasons prev)) (rs_Code r) = Some r"
      "resolved_event (reason_map (hs_Reasons cur)) now cur r = Some e"
    using assms unfolding generated_iff by blast
  then have "event_effect e = firing (hs_Reasons cur) (he_ReasonCode e)
    \<and> firing (previous_reasons prev) (he_ReasonCode e) \<noteq> firing (hs_Reasons cur) (he_ReasonCode e)
    \<and> he_DeviceID e = hs_DeviceID cur \<and> he_OccurredAt e = now
    \<and> (he_Type e = ''opened'' \<or> he_Type e = ''changed'' \<or> he_Type e = ''resolved'')"
  proof cases
    case o
    with opened_eventD [OF o(2)] show ?thesis
      by (auto simp: event_effect_def firing_def split: option.splits)
  next
    case r
    with resolved_eventD [OF r(2)] show ?thesis
      by (auto simp: event_effect_def firing_def split: option.splits)
  qed
  then show "event_effect e = firing (hs_Reasons cur) (he_ReasonCode e)"
    "firing (previous_reasons prev) (he_ReasonCode e) \<noteq> firing (hs_Reasons cur) (he_ReasonCode e)"
    "he_DeviceID e = hs_DeviceID cur" "he_OccurredAt e = now"
    "he_Type e = ''opened'' \<or> he_Type e = ''changed'' \<or> he_Type e = ''resolved''"
    by simp_all
qed

lemma event_codes_distinct: "distinct (map he_ReasonCode (generateEvents prev cur now))"
proof -
  let ?C = "reason_map (hs_Reasons cur)" and ?P = "reason_map (previous_reasons prev)"
  let ?o = "List.map_filter (opened_event ?P now cur) (gvals ?C)"
    and ?r = "List.map_filter (resolved_event ?C now cur) (gvals ?P)"
  have "distinct (map he_ReasonCode ?o)"
    by (rule distinct_event_codes [OF _ distinct_map_codes]) (simp add: opened_eventD)
  moreover have "distinct (map he_ReasonCode ?r)"
    by (rule distinct_event_codes [OF _ distinct_map_codes]) (simp add: resolved_eventD)
  moreover have False if "x \<in> set ?o" "y \<in> set ?r" "he_ReasonCode x = he_ReasonCode y" for x y
  proof -
    from that(1) obtain r where "gget ?C (rs_Code r) = Some r" "opened_event ?P now cur r = Some x"
      unfolding in_map_filter Bex_def reason_map_vals by blast
    moreover from that(2) obtain r' where "resolved_event ?C now cur r' = Some y"
      unfolding in_map_filter Bex_def by blast
    ultimately show False using opened_eventD [of ?P now cur r x] resolved_eventD [of ?C now cur r' y] that(3) by simp
  qed
  ultimately show ?thesis unfolding generateEvents_def Let_def map_append distinct_append set_map by blast
qed

lemma no_event_same:
  assumes "c \<notin> he_ReasonCode ` set (generateEvents prev cur now)"
  shows "firing (previous_reasons prev) c = firing (hs_Reasons cur) c"
proof (rule ccontr)
  let ?C = "reason_map (hs_Reasons cur)" and ?P = "reason_map (previous_reasons prev)"
  assume ne: "firing (previous_reasons prev) c \<noteq> firing (hs_Reasons cur) c"
  show False
  proof (cases "firing (hs_Reasons cur) c")
    case None
    with ne obtain r where r: "gget ?P c = Some r" "rs_State r = RuleFiring"
      by (auto simp: firing_def split: option.splits if_splits)
    then have "rs_Code r = c" by (simp add: reason_map_code)
    with r None have "resolved_event ?C now cur r = Some (health_event ''resolved'' (rs_State r) RuleOK now cur r)"
      by (auto simp: resolved_event_def firing_def split: option.splits if_splits)
    with r(1) \<open>rs_Code r = c\<close> have "health_event ''resolved'' (rs_State r) RuleOK now cur r \<in> set (generateEvents prev cur now)"
      unfolding generated_iff by blast
    then show False using assms \<open>rs_Code r = c\<close> by (force simp: health_event_def)
  next
    case (Some sev)
    then obtain r where r: "gget ?C c = Some r" "rs_State r = RuleFiring" "rs_Severity r = sev"
      by (auto simp: firing_def split: option.splits if_splits)
    then have "rs_Code r = c" by (simp add: reason_map_code)
    with r ne Some obtain e where e: "opened_event ?P now cur r = Some e" "he_ReasonCode e = c"
      by (auto simp: opened_event_def firing_def health_event_def split: option.splits if_splits)
    with r(1) \<open>rs_Code r = c\<close> have "e \<in> set (generateEvents prev cur now)"
      unfolding generated_iff by blast
    with e assms show False by blast
  qed
qed

lemma events_lead:
  "fold apply_event (generateEvents prev cur now) (firing (previous_reasons prev)) = firing (hs_Reasons cur)"
proof
  fix c
  show "fold apply_event (generateEvents prev cur now) (firing (previous_reasons prev)) c = firing (hs_Reasons cur) c"
  proof (cases "c \<in> he_ReasonCode ` set (generateEvents prev cur now)")
    case True
    then obtain e where "e \<in> set (generateEvents prev cur now)" "he_ReasonCode e = c" by blast
    then show ?thesis using fold_apply_event [OF event_codes_distinct] generated_event(1) by metis
  qed (simp add: fold_apply_other no_event_same)
qed

lemma no_events_iff:
  "generateEvents prev cur now = [] \<longleftrightarrow> firing (previous_reasons prev) = firing (hs_Reasons cur)"
proof
  assume "generateEvents prev cur now = []"
  then show "firing (previous_reasons prev) = firing (hs_Reasons cur)"
    using events_lead [of prev cur now] by simp
next
  assume eq: "firing (previous_reasons prev) = firing (hs_Reasons cur)"
  show "generateEvents prev cur now = []"
  proof (rule ccontr)
    assume "generateEvents prev cur now \<noteq> []"
    then obtain e where "e \<in> set (generateEvents prev cur now)" by (cases "generateEvents prev cur now") auto
    from generated_event(2) [OF this] eq show False by simp
  qed
qed

section \<open>The status\<close>

lemma keep_first_observed_fields [simp]:
  "rs_Code (keep_first_observed prev r) = rs_Code r" "rs_State (keep_first_observed prev r) = rs_State r"
  "rs_Severity (keep_first_observed prev r) = rs_Severity r" "rs_Evidence (keep_first_observed prev r) = rs_Evidence r"
  by (simp_all add: keep_first_observed_def split: option.split)

definition input_time :: "time \<Rightarrow> EvaluationInput \<Rightarrow> time" where
  "input_time clock inp = (if is_zero_time (in_Now inp) then clock else in_Now inp)"

lemma Evaluate_reasons:
  "hs_Reasons (fst (Evaluate cfg clock inp))
     = go_sort reason_before (map (keep_first_observed (in_Previous inp)) (all_reasons cfg (input_time clock inp) inp))"
  by (simp add: Evaluate_def Let_def input_time_def)

lemma Evaluate_codes:
  "distinct (map rs_Code (hs_Reasons (fst (Evaluate cfg clock inp))))"
  "r \<in> set (hs_Reasons (fst (Evaluate cfg clock inp))) \<Longrightarrow> rs_Code r \<in> set rule_codes"
proof -
  let ?rs = "all_reasons cfg (input_time clock inp) inp" and ?s = "hs_Reasons (fst (Evaluate cfg clock inp))"
  have "mset (map rs_Code ?s) = mset (map rs_Code ?rs)"
    by (simp add: Evaluate_reasons multiset.map_comp comp_def)
  then have "distinct (map rs_Code ?s) = distinct (map rs_Code ?rs)"
    by (rule mset_eq_imp_distinct_iff)
  with all_reasons_codes show "distinct (map rs_Code ?s)" by blast
  show "r \<in> set ?s \<Longrightarrow> rs_Code r \<in> set rule_codes"
    using all_reasons_codes [of cfg "input_time clock inp" inp] by (auto simp: Evaluate_reasons)
qed

lemma find_unique:
  "distinct (map f xs) \<Longrightarrow> x \<in> set xs \<Longrightarrow> find (\<lambda>y. f y = f x) xs = Some x"
  by (induction xs) (auto simp: rev_image_eqI)

lemma find_in_set: "find P xs = Some x \<Longrightarrow> x \<in> set xs \<and> P x"
  by (auto simp: find_Some_iff)

lemma reason_map_distinct:
  assumes "distinct (map rs_Code rs)"
  shows "gget (reason_map rs) c = Some r \<longleftrightarrow> r \<in> set rs \<and> rs_Code r = c"
  using find_unique [of rs_Code "rev rs" r] find_in_set [of "\<lambda>r. rs_Code r = c" "rev rs" r] assms
  by (auto simp: gget_reason_map rev_map [symmetric] simp del: find_Some_iff)

lemma firing_distinct:
  assumes "distinct (map rs_Code rs)"
  shows "firing rs c = Some sev \<longleftrightarrow> (\<exists>r \<in> set rs. rs_Code r = c \<and> rs_State r = RuleFiring \<and> rs_Severity r = sev)"
proof (cases "gget (reason_map rs) c")
  case None
  then show ?thesis using reason_map_distinct [OF assms, of c] by (auto simp: firing_def)
next
  case (Some r)
  then have "x \<in> set rs \<and> rs_Code x = c \<longleftrightarrow> x = r" for x
    using reason_map_distinct [OF assms, of c x] by auto
  then have "(\<exists>x \<in> set rs. rs_Code x = c \<and> rs_State x = RuleFiring \<and> rs_Severity x = sev)
      \<longleftrightarrow> rs_State r = RuleFiring \<and> rs_Severity r = sev" by metis
  with Some show ?thesis by (simp add: firing_def)
qed

text \<open>The reasons that fire are warnings or critical, and the liveness rule speaks for the two special states.\<close>

definition severe :: "Reason \<Rightarrow> bool" where
  "severe r \<longleftrightarrow> rs_State r = RuleFiring \<longrightarrow> rs_Severity r = SeverityCritical \<or> rs_Severity r = SeverityWarning"

lemma severe_new_reason [simp]:
  "severe (new_reason c st sev now ev) \<longleftrightarrow>
    (st = RuleFiring \<longrightarrow> sev = SeverityCritical \<or> sev = SeverityWarning)"
  by (simp add: severe_def)

lemma rules_severe:
  "list_all severe (liveness_rule cfg now inp)" "list_all severe (version_rule now inp)"
  "list_all severe (ssh_rule cfg now inp)" "list_all severe (ddns_rule now inp)"
  "list_all severe (upgrade_rule cfg now inp)" "list_all severe (disk_rule now prev f)"
  "list_all severe (memory_rule now prev f)"
proof -
  show "list_all severe (liveness_rule cfg now inp)" by (simp add: liveness_rule_def Let_def split: option.split)
  show "list_all severe (version_rule now inp)" by (simp add: version_rule_def Let_def split: option.split)
  show "list_all severe (ssh_rule cfg now inp)" by (simp add: ssh_rule_def Let_def split: option.split)
  show "list_all severe (ddns_rule now inp)" by (simp add: ddns_rule_def split: option.split)
  show "list_all severe (upgrade_rule cfg now inp)" by (simp add: upgrade_rule_def Let_def split: option.split)
  show "list_all severe (disk_rule now prev f)" by (simp add: disk_rule_def split: prod.split)
  show "list_all severe (memory_rule now prev f)" by (simp add: memory_rule_def split: prod.split)
qed

lemma all_reasons_severe: "list_all severe (all_reasons cfg now inp)"
  by (simp add: all_reasons_def rules_severe split: option.split)

lemma all_reasons_severity:
  "r \<in> set (all_reasons cfg now inp) \<Longrightarrow> rs_State r = RuleFiring \<Longrightarrow>
    rs_Severity r = SeverityCritical \<or> rs_Severity r = SeverityWarning"
  using all_reasons_severe [of cfg now inp] by (auto simp: list_all_iff severe_def)

lemma code_only_in_liveness:
  assumes "r \<in> set (all_reasons cfg now inp)"
    and "rs_Code r \<in> {''device_never_seen'', ''device_offline'', ''heartbeat_stale''}"
  shows "r \<in> set (liveness_rule cfg now inp)"
proof -
  have other: "rs_Code r \<notin> {''device_never_seen'', ''device_offline'', ''heartbeat_stale''}"
    if "coded rs (rule_code_groups ! k)" "0 < k" "k < 7" "r \<in> set rs" for rs k
  proof -
    have "list_all (\<lambda>k. list_all (\<lambda>c. c \<notin> {''device_never_seen'', ''device_offline'', ''heartbeat_stale''})
        (rule_code_groups ! k)) [1,2,3,4,5,6]" by code_simp
    moreover have "k \<in> set [1,2,3,4,5,6]" using that(2,3) by auto
    ultimately show ?thesis using that(1,4) unfolding list_all_iff coded_def by blast
  qed
  from assms(1) show ?thesis
    unfolding all_reasons_def set_append
    using assms(2) other [OF version_coded [of now inp]] other [OF ssh_coded [of cfg now inp]] other [OF ddns_coded [of now inp]]
      other [OF upgrade_coded [of cfg now inp]] other [OF disk_coded [of now "in_Previous inp"]]
      other [OF memory_coded [of now "in_Previous inp"]]
    by (auto split: option.splits)
qed

definition silent_for :: "EvaluatorConfig \<Rightarrow> time \<Rightarrow> EvaluationInput \<Rightarrow> bool" where
  "silent_for cfg now inp \<longleftrightarrow> (case last_seen inp of
      None \<Rightarrow> False
    | Some seen \<Rightarrow> time_sub now seen \<ge> cf_OfflineAfter cfg
        \<and> offline_eligible cfg now (time_sub now seen) (in_Previous inp))"

lemma liveness_members:
  "(\<exists>r \<in> set (liveness_rule cfg now inp). rs_Code r = ''device_offline'' \<and> rs_State r = RuleFiring) \<longleftrightarrow> silent_for cfg now inp"
  "(\<exists>r \<in> set (liveness_rule cfg now inp). rs_Code r = ''device_never_seen'') \<longleftrightarrow> last_seen inp = None"
  by (auto simp: liveness_rule_def silent_for_def Let_def split: option.splits)

lemma Evaluate_status:
  "hs_Status (fst (Evaluate cfg clock inp)) =
    (let now = input_time clock inp; rs = hs_Reasons (fst (Evaluate cfg clock inp)) in
     if silent_for cfg now inp then HealthOffline
     else if last_seen inp = None then HealthUnknown
     else if firing_codes rs \<noteq> {} then HealthDegraded else HealthHealthy)"
proof -
  define now where "now = input_time clock inp"
  define rs where "rs = hs_Reasons (fst (Evaluate cfg clock inp))"
  let ?all = "all_reasons cfg now inp"
  have rs: "rs = go_sort reason_before (map (keep_first_observed (in_Previous inp)) ?all)"
    by (simp add: rs_def Evaluate_reasons now_def)
  have st: "hs_Status (fst (Evaluate cfg clock inp)) = overall_status rs"
    by (simp add: Evaluate_def Let_def rs now_def input_time_def)
  have any: "(\<exists>r \<in> set rs. Q (rs_Code r) (rs_State r) (rs_Severity r)) \<longleftrightarrow>
      (\<exists>r \<in> set ?all. Q (rs_Code r) (rs_State r) (rs_Severity r))" for Q
    by (auto simp: rs)
  have live: "set (liveness_rule cfg now inp) \<subseteq> set ?all" by (auto simp: all_reasons_def)
  have off: "(\<exists>r \<in> set rs. rs_Code r = ''device_offline'' \<and> rs_State r = RuleFiring) \<longleftrightarrow> silent_for cfg now inp"
    unfolding any [of "\<lambda>c s _. c = ''device_offline'' \<and> s = RuleFiring"]
    using liveness_members(1) [of cfg now inp] live code_only_in_liveness [of _ cfg now inp] by fastforce
  have never: "(\<exists>r \<in> set rs. rs_Code r = ''device_never_seen'') \<longleftrightarrow> last_seen inp = None"
    unfolding any [of "\<lambda>c _ _. c = ''device_never_seen''"]
    using liveness_members(2) [of cfg now inp] live code_only_in_liveness [of _ cfg now inp] by fastforce
  have "distinct (map rs_Code rs)" by (simp add: rs_def Evaluate_codes)
  then have fire: "firing_codes rs \<noteq> {} \<longleftrightarrow> (\<exists>r \<in> set rs. rs_State r = RuleFiring)"
    using firing_distinct [of rs] by (auto simp: firing_codes_def)
  have sev: "rs_Severity r = SeverityCritical \<or> rs_Severity r = SeverityWarning"
    if "r \<in> set rs" "rs_State r = RuleFiring" for r
    using that all_reasons_severity [of _ cfg now inp] by (fastforce simp: rs)
  show ?thesis
    unfolding st overall_status_def list_ex_iff Let_def now_def [symmetric] rs_def [symmetric]
    using off never fire sev by auto
qed


text \<open>
  The status of a device says exactly what its snapshot shows. It is offline when the device was
  seen and has been silent for the offline time with the silence confirmed, unknown when it was never
  seen, and otherwise degraded or healthy as some rule fires or none does, whatever the previous
  snapshot said.
\<close>

theorem status_exact:
  "let (snap, evs) = Evaluate cfg clock inp; now = input_time clock inp in
     (hs_Status snap = HealthOffline \<longleftrightarrow> silent_for cfg now inp)
     \<and> (hs_Status snap = HealthUnknown \<longleftrightarrow> last_seen inp = None)
     \<and> (hs_Status snap = HealthHealthy \<longleftrightarrow> last_seen inp \<noteq> None \<and> firing_codes (hs_Reasons snap) = {})
     \<and> (hs_Status snap = HealthDegraded \<longleftrightarrow> last_seen inp \<noteq> None \<and> \<not> silent_for cfg now inp
          \<and> firing_codes (hs_Reasons snap) \<noteq> {})"
proof -
  let ?rs = "hs_Reasons (fst (Evaluate cfg clock inp))" and ?now = "input_time clock inp"
  have "firing_codes ?rs \<noteq> {}" if "silent_for cfg ?now inp"
  proof -
    from that obtain r where r: "r \<in> set (liveness_rule cfg ?now inp)" "rs_State r = RuleFiring"
      using liveness_members(1) by blast
    then have "keep_first_observed (in_Previous inp) r \<in> set ?rs"
      by (auto simp: Evaluate_reasons all_reasons_def)
    with r(2) show ?thesis
      using firing_distinct [OF Evaluate_codes(1) [of cfg clock inp], of "rs_Code r"]
      by (force simp: firing_codes_def)
  qed
  moreover have "last_seen inp \<noteq> None" if "silent_for cfg ?now inp"
    using that by (auto simp: silent_for_def split: option.splits)
  ultimately show ?thesis
    using Evaluate_status [of cfg clock inp] by (auto simp: Let_def split: prod.split if_splits)
qed

section \<open>Quotients\<close>

lemma bit_length_le: "bit_length n \<le> k \<longleftrightarrow> n < 2 ^ k"
proof (induction n arbitrary: k rule: bit_length.induct)
  case (1 n)
  show ?case
  proof (cases "n = 0")
    case False
    show ?thesis
    proof (cases k)
      case (Suc j)
      then have "bit_length n \<le> k \<longleftrightarrow> n div 2 < 2 ^ j"
        using "1.IH" [OF False, of j] False by (subst bit_length.simps) simp
      also have "\<dots> \<longleftrightarrow> n < 2 ^ k" using Suc by (simp add: div_less_iff_less_mult mult.commute)
      finally show ?thesis .
    qed (use False in \<open>subst bit_length.simps, simp\<close>)
  qed (subst bit_length.simps, simp)
qed

lemma f64_exact: "n < 2 ^ 53 \<Longrightarrow> f64_of_nat n = n"
  using bit_length_le [of n 53] by (simp add: f64_of_nat_def Let_def)

lemma ratio_small:
  assumes "unat a < 2 ^ 53" and "unat b < 2 ^ 53"
  shows "ratio_ge_10 a b \<longleftrightarrow> 14411518807585587 * unat b \<le> 144115188075855872 * unat a"
    and "ratio_ge_15 a b \<longleftrightarrow> 10808639105689189 * unat b < 72057594037927936 * unat a"
    and "ratio_ge_20 a b \<longleftrightarrow> 14411518807585587 * unat b \<le> 72057594037927936 * unat a"
  using assms by (simp_all add: ratio_ge_10_def ratio_ge_15_def ratio_ge_20_def quotient_ge_def f64_exact)

text \<open>
  For sizes below two pebibytes the comparisons of the floating point quotients with 0.10, 0.15
  and 0.20 are those of the exact fractions: rounding never makes a disk or a memory look emptier or
  fuller than it is.
\<close>

theorem quotients_exact:
  assumes "unat a < 2 ^ 51" and "0 < unat b" and "unat b < 2 ^ 51"
  shows "(ratio_ge_10 a b \<longleftrightarrow> unat b \<le> 10 * unat a)
    \<and> (ratio_ge_15 a b \<longleftrightarrow> 3 * unat b \<le> 20 * unat a)
    \<and> (ratio_ge_20 a b \<longleftrightarrow> unat b \<le> 5 * unat a)"
proof -
  define m n where "m = unat a" and "n = unat b"
  have mn: "m < 2251799813685248" "0 < n" "n < 2251799813685248" using assms by (simp_all add: m_def n_def)
  have f: "unat a < 2 ^ 53" "unat b < 2 ^ 53" using assms by simp_all
  have "14411518807585587 * n \<le> 144115188075855872 * m \<longleftrightarrow> n \<le> 10 * m" using mn by linarith
  moreover have "10808639105689189 * n < 72057594037927936 * m \<longleftrightarrow> 3 * n \<le> 20 * m"
    using mn by linarith
  moreover have "14411518807585587 * n \<le> 72057594037927936 * m \<longleftrightarrow> n \<le> 5 * m" using mn by linarith
  ultimately show ?thesis
    unfolding ratio_small [OF f] m_def [symmetric] n_def [symmetric] by simp
qed

theorem quotients_exact_witness:
  "unat (10 :: u64) < 2 ^ 51 \<and> ratio_ge_10 10 (100 :: u64) \<and> \<not> ratio_ge_10 9 (100 :: u64)
   \<and> ratio_ge_15 15 (100 :: u64) \<and> \<not> ratio_ge_20 19 (100 :: u64)"
  using quotients_exact [of 10 100] quotients_exact [of 9 100] quotients_exact [of 15 100] quotients_exact [of 19 100]
  by simp

section \<open>Samples\<close>

text \<open>
  A run of evaluations, each with the snapshot of the one before, and what its memory samples are.
\<close>

fun evaluate_run :: "EvaluatorConfig \<Rightarrow> EvaluationInput list \<Rightarrow> HealthSnapshot option \<Rightarrow> HealthSnapshot option" where
  "evaluate_run cfg [] prev = prev"
| "evaluate_run cfg (inp # inps) prev =
     evaluate_run cfg inps (Some (fst (Evaluate cfg 0 (inp\<lparr>in_Previous := prev\<rparr>))))"

definition memory_low :: "HealthFacts \<Rightarrow> bool" where
  "memory_low f \<longleftrightarrow> \<not> ratio_ge_10 (hf_MemoryAvailableBytes f) (hf_MemoryTotalBytes f)"

definition memory_high :: "HealthFacts \<Rightarrow> bool" where
  "memory_high f \<longleftrightarrow> ratio_ge_20 (hf_MemoryAvailableBytes f) (hf_MemoryTotalBytes f)"

definition memory_sample :: "EvaluationInput \<Rightarrow> HealthFacts option" where
  "memory_sample inp = (case Option.bind (in_Device inp) df_RuntimeFacts of
      None \<Rightarrow> None | Some f \<Rightarrow> if hf_MemoryTotalBytes f > 0 then Some f else None)"

text \<open>Some three samples in a row were low, and none since was high.\<close>

definition alarmed :: "HealthFacts list \<Rightarrow> bool" where
  "alarmed fs \<longleftrightarrow> (\<exists>us vs ws. fs = us @ vs @ ws \<and> length vs = 3 \<and> list_all memory_low vs
     \<and> \<not> list_ex memory_high ws)"

definition low_streak :: "HealthFacts list \<Rightarrow> nat" where
  "low_streak fs = length (takeWhile memory_low (rev fs))"

lemma low_not_high: "memory_low f \<Longrightarrow> \<not> memory_high f"
  unfolding memory_low_def memory_high_def ratio_ge_10_def ratio_ge_20_def quotient_ge_def
  by (simp add: not_le)

lemma low_streak_snoc [simp]: "low_streak (fs @ [f]) = (if memory_low f then Suc (low_streak fs) else 0)"
  by (simp add: low_streak_def)

lemma le_streak: "n \<le> length (takeWhile P xs) \<longleftrightarrow> n \<le> length xs \<and> list_all P (take n xs)"
proof (induction n arbitrary: xs)
  case (Suc n)
  then show ?case by (cases xs) auto
qed simp

lemma low_streak_split:
  "n \<le> low_streak fs \<longleftrightarrow> (\<exists>us vs. fs = us @ vs \<and> length vs = n \<and> list_all memory_low vs)"
proof -
  have "n \<le> length fs \<and> list_all memory_low (take n (rev fs))
      \<longleftrightarrow> (\<exists>us vs. rev fs = vs @ us \<and> length vs = n \<and> list_all memory_low vs)"
    by (metis append_eq_conv_conj append_take_drop_id length_append length_rev length_take le_add1 min.absorb2)
  also have "\<dots> \<longleftrightarrow> (\<exists>us vs. fs = us @ vs \<and> length vs = n \<and> list_all memory_low vs)"
  proof
    assume "\<exists>us vs. rev fs = vs @ us \<and> length vs = n \<and> list_all memory_low vs"
    then obtain us vs where "rev fs = vs @ us" "length vs = n" "list_all memory_low vs" by blast
    then show "\<exists>us vs. fs = us @ vs \<and> length vs = n \<and> list_all memory_low vs"
      by (intro exI [of _ "rev us"] exI [of _ "rev vs"]) (simp add: rev_swap)
  next
    assume "\<exists>us vs. fs = us @ vs \<and> length vs = n \<and> list_all memory_low vs"
    then obtain us vs where "fs = us @ vs" "length vs = n" "list_all memory_low vs" by blast
    then show "\<exists>us vs. rev fs = vs @ us \<and> length vs = n \<and> list_all memory_low vs"
      by (intro exI [of _ "rev us"] exI [of _ "rev vs"]) simp
  qed
  finally show ?thesis by (simp add: low_streak_def le_streak)
qed

lemma alarmed_snoc:
  "alarmed (fs @ [f]) \<longleftrightarrow> (alarmed fs \<and> \<not> memory_high f) \<or> (memory_low f \<and> low_streak fs \<ge> 2)"
proof
  assume "alarmed (fs @ [f])"
  then obtain us vs ws where s: "fs @ [f] = us @ vs @ ws" "length vs = 3" "list_all memory_low vs"
    "\<not> list_ex memory_high ws" unfolding alarmed_def by blast
  show "(alarmed fs \<and> \<not> memory_high f) \<or> (memory_low f \<and> low_streak fs \<ge> 2)"
  proof (cases ws rule: rev_cases)
    case Nil
    with s have "3 \<le> low_streak (fs @ [f])" by (auto simp: low_streak_split)
    then show ?thesis by (simp split: if_splits)
  next
    case (snoc ws' x)
    with s show ?thesis unfolding alarmed_def by (auto simp flip: append_assoc)
  qed
next
  assume "(alarmed fs \<and> \<not> memory_high f) \<or> (memory_low f \<and> low_streak fs \<ge> 2)"
  then show "alarmed (fs @ [f])"
  proof
    assume "alarmed fs \<and> \<not> memory_high f"
    then obtain us vs ws where "fs = us @ vs @ ws" "length vs = 3" "list_all memory_low vs"
      "\<not> list_ex memory_high (ws @ [f])" unfolding alarmed_def by auto
    then have "fs @ [f] = us @ vs @ (ws @ [f]) \<and> length vs = 3 \<and> list_all memory_low vs
        \<and> \<not> list_ex memory_high (ws @ [f])" by simp
    then show ?thesis unfolding alarmed_def by blast
  next
    assume "memory_low f \<and> low_streak fs \<ge> 2"
    then have "3 \<le> low_streak (fs @ [f])" by simp
    then obtain us vs where "fs @ [f] = us @ vs" "length vs = 3" "list_all memory_low vs"
      unfolding low_streak_split by blast
    then have "fs @ [f] = us @ vs @ []" "length vs = 3" "list_all memory_low vs" "\<not> list_ex memory_high []" by simp_all
    then show ?thesis unfolding alarmed_def by blast
  qed
qed

lemma last_reason_map: "last_reason code prev = gget (reason_map (previous_reasons prev)) code"
  by (simp add: last_reason_def gget_reason_map)

lemma memory_code_only:
  assumes "r \<in> set (all_reasons cfg now inp)" and "rs_Code r = ''memory_pressure''"
    and "memory_sample inp = Some f"
  shows "r \<in> set (memory_rule now (in_Previous inp) f)"
proof -
  have other: "rs_Code r \<noteq> ''memory_pressure''"
    if "coded rs (rule_code_groups ! k)" "k < 6" "r \<in> set rs" for rs k
  proof -
    have "list_all (\<lambda>k. list_all (\<lambda>c. c \<noteq> ''memory_pressure'') (rule_code_groups ! k)) [0,1,2,3,4,5]" by code_simp
    moreover have "k \<in> set [0,1,2,3,4,5]" using that(2) by auto
    ultimately show ?thesis using that(1,3) unfolding list_all_iff coded_def by blast
  qed
  from assms(3) have f: "Option.bind (in_Device inp) df_RuntimeFacts = Some f"
    by (auto simp: memory_sample_def split: option.splits if_splits)
  from assms(1) show ?thesis
    unfolding all_reasons_def set_append f
    using assms(2) other [OF liveness_coded [of cfg now inp]] other [OF version_coded [of now inp]]
      other [OF ssh_coded [of cfg now inp]] other [OF ddns_coded [of now inp]] other [OF upgrade_coded [of cfg now inp]]
      other [OF disk_coded [of now "in_Previous inp" f]]
    by auto
qed

lemma memory_rule_in:
  "memory_sample inp = Some f \<Longrightarrow>
    set (memory_rule now (in_Previous inp) f) \<subseteq> set (all_reasons cfg now inp)"
  by (auto simp: memory_sample_def all_reasons_def split: option.splits if_splits)

lemma memory_reasons:
  assumes f: "memory_sample inp = Some f"
  shows "x \<in> set (hs_Reasons (fst (Evaluate cfg clock inp))) \<and> rs_Code x = ''memory_pressure''
    \<longleftrightarrow> (\<exists>r \<in> set (memory_rule (input_time clock inp) (in_Previous inp) f). x = keep_first_observed (in_Previous inp) r)"
    (is "?l \<longleftrightarrow> ?r")
proof
  assume ?l
  then obtain r where "r \<in> set (all_reasons cfg (input_time clock inp) inp)" "x = keep_first_observed (in_Previous inp) r"
    "rs_Code r = ''memory_pressure''" by (auto simp: Evaluate_reasons)
  with memory_code_only [OF _ _ f] show ?r by blast
next
  assume ?r
  then obtain r where r: "r \<in> set (memory_rule (input_time clock inp) (in_Previous inp) f)"
    "x = keep_first_observed (in_Previous inp) r" by blast
  from r(1) memory_coded have "rs_Code r = ''memory_pressure''"
    unfolding coded_def rule_code_groups_def by fastforce
  moreover from r(1) memory_rule_in [OF f] have "r \<in> set (all_reasons cfg (input_time clock inp) inp)" by blast
  ultimately show ?l using r(2) by (simp add: Evaluate_reasons)
qed

lemma memory_after:
  assumes f: "memory_sample inp = Some f"
  shows "last_reason ''memory_pressure'' (Some (fst (Evaluate cfg clock inp))) =
    (case memory_rule (input_time clock inp) (in_Previous inp) f of
       [] \<Rightarrow> None | r # _ \<Rightarrow> Some (keep_first_observed (in_Previous inp) r))"
proof -
  let ?rs = "hs_Reasons (fst (Evaluate cfg clock inp))"
  let ?m = "memory_rule (input_time clock inp) (in_Previous inp) f"
  have g: "gget (reason_map ?rs) ''memory_pressure'' = Some x
      \<longleftrightarrow> (\<exists>r \<in> set ?m. x = keep_first_observed (in_Previous inp) r)" for x
    unfolding reason_map_distinct [OF Evaluate_codes(1)] by (rule memory_reasons [OF f])
  have "length ?m \<le> 1" using memory_coded unfolding coded_def by blast
  then consider "?m = []" | r where "?m = [r]" by (cases ?m) auto
  then have "gget (reason_map ?rs) ''memory_pressure'' = (case ?m of
       [] \<Rightarrow> None | r # _ \<Rightarrow> Some (keep_first_observed (in_Previous inp) r))"
  proof cases
    case 1
    with g show ?thesis by (cases "gget (reason_map ?rs) ''memory_pressure''") auto
  next
    case (2 r)
    with g show ?thesis by simp
  qed
  then show ?thesis by (simp add: last_reason_map previous_reasons_def)
qed

definition counted :: "Reason option \<Rightarrow> HealthFacts list \<Rightarrow> bool" where
  "counted r fs \<longleftrightarrow> (previous_firing r \<longleftrightarrow> alarmed fs)
     \<and> (\<not> alarmed fs \<longrightarrow> previous_count 3 r = int (low_streak fs))"

lemma previous_count_keep [simp]: "previous_count d (Some (keep_first_observed p r)) = previous_count d (Some r)"
  and previous_firing_keep [simp]: "previous_firing (Some (keep_first_observed p r)) = previous_firing (Some r)"
  by (simp_all add: previous_count_def previous_firing_def)

lemma debounce_memory:
  assumes c: "counted r fs" and d: "debounce 3 r (memory_low f) (memory_high f) = (st, n)"
  shows "st = RuleFiring \<longleftrightarrow> alarmed (fs @ [f])"
    and "\<not> alarmed (fs @ [f]) \<Longrightarrow> n = int (low_streak (fs @ [f]))"
proof -
  have few: "low_streak fs < 3" if "\<not> alarmed fs"
  proof (rule ccontr)
    assume "\<not> low_streak fs < 3"
    then obtain us vs where "fs = us @ vs @ []" "length vs = 3" "list_all memory_low vs" "\<not> list_ex memory_high []"
      using low_streak_split [of 3 fs] by (auto simp: not_less)
    with that show False unfolding alarmed_def by blast
  qed
  show "st = RuleFiring \<longleftrightarrow> alarmed (fs @ [f])"
    using d c few low_not_high [of f]
    by (cases "alarmed fs") (auto simp: counted_def debounce_def Let_def alarmed_snoc split: if_splits)
  show "n = int (low_streak (fs @ [f]))" if "\<not> alarmed (fs @ [f])"
    using d c few low_not_high [of f] that
    by (cases "alarmed fs") (auto simp: counted_def debounce_def Let_def alarmed_snoc split: if_splits)
qed

lemma memory_step:
  assumes f: "memory_sample inp = Some f" and c: "counted (last_reason ''memory_pressure'' (in_Previous inp)) fs"
  shows "counted (last_reason ''memory_pressure'' (Some (fst (Evaluate cfg clock inp)))) (fs @ [f])"
proof -
  have pos: "hf_MemoryTotalBytes f > 0" using f by (auto simp: memory_sample_def split: option.splits if_splits)
  obtain st n where d: "debounce 3 (last_reason ''memory_pressure'' (in_Previous inp)) (memory_low f) (memory_high f)
      = (st, n)" by fastforce
  note m = debounce_memory [OF c d]
  have rule: "memory_rule now (in_Previous inp) f = (if st = RuleFiring \<or> n > 0 then
      [new_reason ''memory_pressure'' st SeverityWarning now
        [(''available_bytes'', AnyInt (uint (hf_MemoryAvailableBytes f))),
         (''total_bytes'', AnyInt (uint (hf_MemoryTotalBytes f))),
         (''avail_ratio'', AnyRatio (hf_MemoryAvailableBytes f) (hf_MemoryTotalBytes f)),
         (''consecutive_count'', AnyInt n)]] else [])" for now
    using pos d by (simp add: memory_rule_def memory_low_def memory_high_def)
  show ?thesis
  proof (cases "st = RuleFiring \<or> n > 0")
    case True
    with m show ?thesis
      unfolding memory_after [OF f] rule by (simp add: counted_def) (simp add: previous_firing_def previous_count_def)
  next
    case False
    with m show ?thesis
      unfolding memory_after [OF f] rule by (simp add: counted_def previous_firing_def previous_count_def)
  qed
qed

lemma memory_run:
  assumes "list_all (\<lambda>inp. memory_sample inp \<noteq> None) inps"
    and "counted (last_reason ''memory_pressure'' prev) fs"
  shows "counted (last_reason ''memory_pressure'' (evaluate_run cfg inps prev)) (fs @ map (the \<circ> memory_sample) inps)"
  using assms
proof (induction inps arbitrary: prev fs)
  case (Cons inp inps)
  then obtain f where f: "memory_sample inp = Some f" by auto
  have s: "memory_sample (inp\<lparr>in_Previous := p\<rparr>) = memory_sample inp" for p
    by (simp add: memory_sample_def)
  from memory_step [of "inp\<lparr>in_Previous := prev\<rparr>" f fs cfg 0] f Cons.prems(2)
  have "counted (last_reason ''memory_pressure'' (Some (fst (Evaluate cfg 0 (inp\<lparr>in_Previous := prev\<rparr>))))) (fs @ [f])"
    by (simp add: s)
  from Cons.IH [OF _ this] Cons.prems(1) f show ?case by simp
qed simp

lemma previous_firing_iff:
  "previous_firing (last_reason code prev) \<longleftrightarrow> code \<in> firing_codes (previous_reasons prev)"
  by (auto simp: previous_firing_def last_reason_map firing_codes_def firing_def split: option.split)

text \<open>An input with a sample of \<open>a\<close> available bytes of \<open>t\<close>.\<close>

definition sampled_input :: "u64 \<Rightarrow> u64 \<Rightarrow> EvaluationInput" where
  "sampled_input a t =
     \<lparr>in_Device = Some \<lparr>df_ID = ''d'', df_AgentVersion = ''v1.2.0'', df_LastSeenAt = 1, df_Connected = True,
        df_SyncStatus = [], df_AppliedVersion = 0, df_AppliedHash = [], df_SyncError = [], df_SyncUpdatedAt = 0,
        df_RuntimeFacts = Some \<lparr>hf_ObservedAt = 1, hf_UptimeSeconds = 0, hf_LogicalCPUCount = 1, hf_MemoryTotalBytes = t,
          hf_MemoryAvailableBytes = a, hf_DiskTotalBytes = 0, hf_DiskAvailableBytes = 0, hf_DiskMount = []\<rparr>\<rparr>,
      in_SSHDesired = None, in_DDNSState = None, in_UpgradeCmd = None, in_SSHCmd = None,
      in_VersionPolicy = None, in_Previous = None, in_Now = 1\<rparr>"

lemma memory_sample_input [simp]:
  "t > 0 \<Longrightarrow> hf_MemoryAvailableBytes (the (memory_sample (sampled_input a t))) = a"
  "t > 0 \<Longrightarrow> hf_MemoryTotalBytes (the (memory_sample (sampled_input a t))) = t"
  by (simp_all add: memory_sample_def sampled_input_def)

lemma evaluate_run_some: "inps \<noteq> [] \<Longrightarrow> evaluate_run cfg inps prev = Some (the (evaluate_run cfg inps prev))"
  by (induction cfg inps prev rule: evaluate_run.induct) (case_tac inps; simp)+

text \<open>
  C22: The memory alarm is exactly its specification: starting from no snapshot and with a sample in
  every evaluation, \<open>memory_pressure\<close> fires in the last snapshot exactly when some three samples in a
  row were below ten percent and no sample after them was at twenty percent or more.
\<close>

theorem memory_alarm_exact:
  assumes "inps \<noteq> []" and "list_all (\<lambda>inp. memory_sample inp \<noteq> None) inps"
    and "evaluate_run cfg inps None = Some snap"
  shows "''memory_pressure'' \<in> firing_codes (hs_Reasons snap) \<longleftrightarrow> alarmed (map (the \<circ> memory_sample) inps)"
proof -
  have "counted (last_reason ''memory_pressure'' None) []"
    by (simp add: counted_def last_reason_def previous_reasons_def previous_firing_def previous_count_def alarmed_def
        low_streak_def)
  from memory_run [OF assms(2) this, of cfg]
  have "previous_firing (last_reason ''memory_pressure'' (Some snap)) \<longleftrightarrow> alarmed (map (the \<circ> memory_sample) inps)"
    unfolding assms(3) by (simp add: counted_def)
  then show ?thesis by (simp add: previous_firing_iff previous_reasons_def)
qed

theorem memory_alarm_exact_witness:
  "''memory_pressure'' \<in> firing_codes (hs_Reasons (the
     (evaluate_run DefaultEvaluatorConfig (replicate 3 (sampled_input 5 100) @ [sampled_input 19 100]) None)))
   \<and> ''memory_pressure'' \<notin> firing_codes (hs_Reasons (the
     (evaluate_run DefaultEvaluatorConfig (replicate 3 (sampled_input 5 100) @ [sampled_input 20 100]) None)))"
proof -
  let ?f = "\<lambda>n. the (memory_sample (sampled_input n 100))"
  let ?inps = "\<lambda>n. replicate 3 (sampled_input 5 100) @ [sampled_input n 100]"
  have vals: "memory_low (?f 5)" "\<not> memory_high (?f 19)" "memory_high (?f 20)"
    by (simp_all add: memory_low_def memory_high_def ratio_small)
  have eq: "map (the \<circ> memory_sample) (?inps n) = [] @ replicate 3 (?f 5) @ [?f n]" for n by simp
  have ll: "list_all memory_low (replicate 3 (?f 5))" "\<not> list_ex memory_high [?f 19]"
    using vals by (simp_all add: list_all_iff)
  have on: "alarmed (map (the \<circ> memory_sample) (?inps 19))"
    unfolding alarmed_def eq
    by (rule exI, rule exI, rule exI, rule conjI, rule refl) (simp only: length_replicate ll, simp)
  have off: "\<not> alarmed (map (the \<circ> memory_sample) (?inps 20))"
    unfolding eq append_assoc [symmetric] alarmed_snoc using vals(3) low_not_high by blast
  have ready: "?inps n \<noteq> []" "list_all (\<lambda>inp. memory_sample inp \<noteq> None) (?inps n)" for n
    by (simp, simp add: list_all_iff memory_sample_def sampled_input_def)
  show ?thesis
    using memory_alarm_exact [OF ready [of 19] evaluate_run_some [OF ready(1)]]
      memory_alarm_exact [OF ready [of 20] evaluate_run_some [OF ready(1)]] on off
    by (simp only: not_False_eq_True)
qed

end
