(* ===== verification/Alerting.thy ===== *)
theory Alerting
  imports HealthService
begin

text \<open>
  Alerts, \<open>internal/alerting\<close>: the alerts, silences and delivery attempts (\<open>model.go\<close>,
  \<open>repository.go\<close>), the service that turns health events into alerts and notifications
  (\<open>service.go\<close>), and how the webhook channel classifies an answer (\<open>webhook/webhook.go\<close>).
  The texts of an alert for people are left out. A retry is a worker of its own: it starts
  (\<open>worker_begin\<close>, where it reads its alert) and ends (\<open>worker_end\<close>, with the channel's answer) at any
  time, and whatever happens in between may interleave; \<open>al_active\<close> is the map of the running ones.
\<close>

section \<open>Data\<close>

datatype AlertState = AlertFiring | AlertResolved | AlertStateOther string

record Alert =
  al_ID :: string
  al_Fingerprint :: string
  al_DeviceID :: string
  al_ReasonCode :: string
  al_Severity :: Severity
  al_State :: AlertState
  al_OpenedAt :: time
  al_LastObservedAt :: time
  al_ResolvedAt :: "time option"
  al_Evidence :: evidence
  al_FiringNotified :: bool
  al_NotificationRevision :: u64

text \<open>\<open>sha\<close> is the hexadecimal text of the first twelve bytes of SHA-256.\<close>

definition ComputeFingerprint :: "(string \<Rightarrow> string) \<Rightarrow> string \<Rightarrow> string \<Rightarrow> string" where
  "ComputeFingerprint sha deviceID reasonCode = ''fp_'' @ sha (deviceID @ '':'' @ reasonCode)"

record Silence =
  si_ID :: string
  si_DeviceID :: string
  si_ReasonCode :: string
  si_StartsAt :: time
  si_EndsAt :: time
  si_CreatedBy :: string
  si_CreatedAt :: time

definition silence_Matches :: "Silence \<Rightarrow> string \<Rightarrow> string \<Rightarrow> time \<Rightarrow> bool" where
  "silence_Matches s deviceID reasonCode tm \<longleftrightarrow>
     \<not> (tm < si_StartsAt s \<or> tm > si_EndsAt s)
     \<and> \<not> (si_DeviceID s \<noteq> [] \<and> si_DeviceID s \<noteq> deviceID)
     \<and> \<not> (si_ReasonCode s \<noteq> [] \<and> si_ReasonCode s \<noteq> reasonCode)"

record DeliveryResult =
  rt_Retryable :: bool
  rt_RetryAfter :: duration
  rt_StatusCode :: int
  rt_ErrorCode :: string
  rt_ErrorMessage :: string

record DeliveryAttempt =
  da_ID :: string
  da_AlertID :: string
  da_ChannelID :: string
  da_Event :: string
  da_DeliveryID :: string
  da_AttemptNumber :: int
  da_StartedAt :: time
  da_FinishedAt :: time
  da_StatusCode :: int
  da_ErrorCode :: string
  da_ErrorMessage :: string
  da_NextRetryAt :: "time option"
  da_Delivered :: bool

record Notification =
  no_Event :: string
  no_DeliveryID :: string
  no_SentAt :: time
  no_AlertID :: string
  no_Status :: AlertState
  no_Severity :: Severity
  no_ReasonCode :: string
  no_OpenedAt :: time
  no_ResolvedAt :: "time option"
  no_DeviceID :: string
  no_DisplayName :: string
  no_HealthStatus :: health_status

section \<open>The repository\<close>

text \<open>The three files each hold what was last written. As in the store of health, memory changes first.\<close>

record alert_repo =
  ar_alerts :: "(string, Alert) gomap"
  ar_silences :: "(string, Silence) gomap"
  ar_deliveries :: "DeliveryAttempt list"
  ar_alertFile :: "Alert list option"
  ar_silenceFile :: "Silence list option"
  ar_deliveryFile :: "DeliveryAttempt list option"

definition NewAlertRepository ::
  "Alert data_file \<Rightarrow> Silence data_file \<Rightarrow> DeliveryAttempt data_file \<Rightarrow> string + alert_repo" where
  "NewAlertRepository af sf df = (case read_data af of
      Inl e \<Rightarrow> Inl e
    | Inr as \<Rightarrow>
        (case read_data sf of
           Inl e \<Rightarrow> Inl e
         | Inr ss \<Rightarrow>
             (case read_data df of
                Inl e \<Rightarrow> Inl e
              | Inr ds \<Rightarrow> Inr \<lparr>ar_alerts = fold (\<lambda>a. gput (al_ID a) a) as [],
                  ar_silences = fold (\<lambda>s. gput (si_ID s) s) ss [], ar_deliveries = ds,
                  ar_alertFile = Some as, ar_silenceFile = Some ss, ar_deliveryFile = Some ds\<rparr>)))"

definition SaveAlert :: "bool \<Rightarrow> Alert \<Rightarrow> alert_repo \<Rightarrow> alert_repo \<times> bool" where
  "SaveAlert ok a r =
     (let r1 = r\<lparr>ar_alerts := gput (al_ID a) a (ar_alerts r)\<rparr> in
      if ok then (r1\<lparr>ar_alertFile := Some (gvals (ar_alerts r1))\<rparr>, True) else (r1, False))"

definition GetAlert :: "string \<Rightarrow> alert_repo \<Rightarrow> Alert option" where
  "GetAlert i r = gget (ar_alerts r) i"

definition FindActiveAlertByFingerprint :: "string \<Rightarrow> alert_repo \<Rightarrow> Alert option" where
  "FindActiveAlertByFingerprint fp r =
     find (\<lambda>a. al_Fingerprint a = fp \<and> al_State a = AlertFiring) (gvals (ar_alerts r))"

definition alert_state_text :: "AlertState \<Rightarrow> string" where
  "alert_state_text st = (case st of AlertFiring \<Rightarrow> ''firing'' | AlertResolved \<Rightarrow> ''resolved'' | AlertStateOther t \<Rightarrow> t)"

definition severity_text :: "Severity \<Rightarrow> string" where
  "severity_text s = (case s of SeverityInfo \<Rightarrow> ''info'' | SeverityWarning \<Rightarrow> ''warning''
     | SeverityCritical \<Rightarrow> ''critical'' | SeverityOther t \<Rightarrow> t)"

definition alert_before :: "Alert \<Rightarrow> Alert \<Rightarrow> bool" where
  "alert_before x y \<longleftrightarrow> (if al_State x \<noteq> al_State y then al_State x = AlertFiring else al_OpenedAt x > al_OpenedAt y)"

definition ListAlerts ::
  "string \<Rightarrow> string \<Rightarrow> string \<Rightarrow> string \<Rightarrow> int \<Rightarrow> alert_repo \<Rightarrow> Alert list \<times> string" where
  "ListAlerts deviceID st sev cursor limit r =
     page_of cursor limit (go_sort alert_before (filter
        (\<lambda>a. (deviceID = [] \<or> al_DeviceID a = deviceID) \<and> (st = [] \<or> alert_state_text (al_State a) = st)
           \<and> (sev = [] \<or> severity_text (al_Severity a) = sev)) (gvals (ar_alerts r))))"

definition SaveSilence :: "bool \<Rightarrow> Silence \<Rightarrow> alert_repo \<Rightarrow> alert_repo \<times> bool" where
  "SaveSilence ok s r =
     (let r1 = r\<lparr>ar_silences := gput (si_ID s) s (ar_silences r)\<rparr> in
      if ok then (r1\<lparr>ar_silenceFile := Some (gvals (ar_silences r1))\<rparr>, True) else (r1, False))"

definition repo_DeleteSilence :: "bool \<Rightarrow> string \<Rightarrow> alert_repo \<Rightarrow> alert_repo \<times> bool" where
  "repo_DeleteSilence ok i r = (case gget (ar_silences r) i of
      None \<Rightarrow> (r, False)
    | Some _ \<Rightarrow>
        (let r1 = r\<lparr>ar_silences := gdel i (ar_silences r)\<rparr> in
         if ok then (r1\<lparr>ar_silenceFile := Some (gvals (ar_silences r1))\<rparr>, True) else (r1, False)))"

definition ListSilences :: "alert_repo \<Rightarrow> Silence list" where
  "ListSilences r = go_sort (\<lambda>x y. si_CreatedAt x > si_CreatedAt y) (gvals (ar_silences r))"

definition RecordDeliveryAttempt :: "bool \<Rightarrow> DeliveryAttempt \<Rightarrow> alert_repo \<Rightarrow> alert_repo" where
  "RecordDeliveryAttempt ok d r =
     (let all = ar_deliveries r @ [d];
          kept = (if length all > 3000 then drop (length all - 3000) all else all);
          r1 = r\<lparr>ar_deliveries := kept\<rparr> in
      if ok then r1\<lparr>ar_deliveryFile := Some kept\<rparr> else r1)"

definition ListDeliveryAttempts ::
  "string \<Rightarrow> string \<Rightarrow> string \<Rightarrow> int \<Rightarrow> alert_repo \<Rightarrow> DeliveryAttempt list \<times> string" where
  "ListDeliveryAttempts alertID channelID cursor limit r =
     page_of cursor limit (filter
        (\<lambda>d. (alertID = [] \<or> da_AlertID d = alertID) \<and> (channelID = [] \<or> da_ChannelID d = channelID))
        (rev (ar_deliveries r)))"

text \<open>The newest attempt of every notification; those still to be repeated.\<close>

definition attempt_key :: "DeliveryAttempt \<Rightarrow> string" where
  "attempt_key d = da_AlertID d @ '':'' @ da_ChannelID d @ '':'' @ da_Event d @ '':'' @ da_DeliveryID d"

definition latest_attempts :: "DeliveryAttempt list \<Rightarrow> (string, DeliveryAttempt) gomap" where
  "latest_attempts ds = fold (\<lambda>d m. case gget m (attempt_key d) of
      None \<Rightarrow> gput (attempt_key d) d m
    | Some cur \<Rightarrow> if da_AttemptNumber d > da_AttemptNumber cur then gput (attempt_key d) d m else m) ds []"

definition ListPendingRetries :: "alert_repo \<Rightarrow> DeliveryAttempt list" where
  "ListPendingRetries r =
     filter (\<lambda>d. \<not> da_Delivered d \<and> da_NextRetryAt d \<noteq> None \<and> da_AttemptNumber d < 6)
       (gvals (latest_attempts (ar_deliveries r)))"

section \<open>The service\<close>

record retry_worker =
  wk_key :: string
  wk_AlertID :: string
  wk_ChannelID :: string
  wk_Notif :: Notification
  wk_Attempt :: int
  wk_Cancelled :: bool
  wk_Alert :: "Alert option"

record alert_service =
  as_repo :: alert_repo
  as_channels :: "string list"
  as_workers :: "(nat, retry_worker) gomap"
  as_active :: "(string, nat \<times> string) gomap"
  as_next :: nat

text \<open>
  What a call meets: the times around a delivery, the answer of each channel, the outcome of each
  write, the identifiers made from the clock and the generator, the delay after an attempt (the
  backoff schedule with its jitter) and the name of the device.
\<close>

record alert_env =
  an_Start :: time
  an_End :: time
  an_Deliver :: "string \<Rightarrow> Notification \<Rightarrow> DeliveryResult"
  an_SaveOK :: bool
  an_NotifiedOK :: bool
  an_RecordOK :: bool
  an_DeliveryID :: string
  an_Backoff :: "int \<Rightarrow> duration \<Rightarrow> duration"
  an_DeviceName :: "string \<Rightarrow> string"
  an_Sha :: "string \<Rightarrow> string"

definition buildNotification :: "alert_env \<Rightarrow> string \<Rightarrow> Alert \<Rightarrow> string \<Rightarrow> Notification" where
  "buildNotification env event a deliveryID =
     \<lparr>no_Event = event, no_DeliveryID = (if deliveryID = [] then an_DeliveryID env else deliveryID),
      no_SentAt = an_Start env, no_AlertID = al_ID a, no_Status = al_State a, no_Severity = al_Severity a,
      no_ReasonCode = al_ReasonCode a, no_OpenedAt = al_OpenedAt a, no_ResolvedAt = al_ResolvedAt a,
      no_DeviceID = al_DeviceID a,
      no_DisplayName = (let n = an_DeviceName env (al_DeviceID a) in if n \<noteq> [] then n else al_DeviceID a),
      no_HealthStatus = (if event = ''alert.resolved'' then HealthHealthy
        else if al_ReasonCode a = ''device_offline'' then HealthOffline
        else if al_ReasonCode a = ''device_never_seen'' then HealthUnknown else HealthDegraded)\<rparr>"

definition result_delivered :: "DeliveryResult \<Rightarrow> bool" where
  "result_delivered res \<longleftrightarrow> \<not> rt_Retryable res \<and> rt_StatusCode res \<ge> 200 \<and> rt_StatusCode res < 300"

definition new_attempt ::
  "alert_env \<Rightarrow> string \<Rightarrow> string \<Rightarrow> Notification \<Rightarrow> int \<Rightarrow> DeliveryResult \<Rightarrow> DeliveryAttempt" where
  "new_attempt env alertID channelID notif n res =
     \<lparr>da_ID = ''dlv_'' @ channelID @ ''_'' @ int_text (unix_nano (an_Start env)) @ ''_'' @ int_text n,
      da_AlertID = alertID, da_ChannelID = channelID, da_Event = no_Event notif,
      da_DeliveryID = no_DeliveryID notif, da_AttemptNumber = n, da_StartedAt = an_Start env,
      da_FinishedAt = an_End env, da_StatusCode = rt_StatusCode res, da_ErrorCode = rt_ErrorCode res,
      da_ErrorMessage = rt_ErrorMessage res, da_NextRetryAt = None, da_Delivered = result_delivered res\<rparr>"

definition cancel_worker :: "nat \<Rightarrow> alert_service \<Rightarrow> alert_service" where
  "cancel_worker i s = (case gget (as_workers s) i of
      None \<Rightarrow> s | Some w \<Rightarrow> s\<lparr>as_workers := gput i (w\<lparr>wk_Cancelled := True\<rparr>) (as_workers s)\<rparr>)"

definition cancelRetry :: "string \<Rightarrow> alert_service \<Rightarrow> alert_service" where
  "cancelRetry key s = (case gget (as_active s) key of
      None \<Rightarrow> s
    | Some (i, _) \<Rightarrow> (cancel_worker i s)\<lparr>as_active := gdel key (as_active s)\<rparr>)"

definition cancelFiringRetriesForAlert :: "string \<Rightarrow> alert_service \<Rightarrow> alert_service" where
  "cancelFiringRetriesForAlert alertID s =
     fold (\<lambda>(k, i, event) s. if has_prefix k (alertID @ '':'') \<and> event = ''alert.firing''
             then (cancel_worker i s)\<lparr>as_active := gdel k (as_active s)\<rparr> else s) (as_active s) s"

definition startAsyncRetry :: "string \<Rightarrow> string \<Rightarrow> Notification \<Rightarrow> int \<Rightarrow> alert_service \<Rightarrow> alert_service" where
  "startAsyncRetry alertID channelID notif n s =
     (let key = alertID @ '':'' @ channelID; s1 = cancelRetry key s; i = as_next s1 in
      s1\<lparr>as_next := i + 1, as_active := gput key (i, no_Event notif) (as_active s1),
         as_workers := gput i \<lparr>wk_key = key, wk_AlertID = alertID, wk_ChannelID = channelID, wk_Notif = notif,
           wk_Attempt = n, wk_Cancelled = False, wk_Alert = None\<rparr> (as_workers s1)\<rparr>)"

definition record_attempt :: "alert_env \<Rightarrow> DeliveryAttempt \<Rightarrow> alert_service \<Rightarrow> alert_service" where
  "record_attempt env d s = s\<lparr>as_repo := RecordDeliveryAttempt (an_RecordOK env) d (as_repo s)\<rparr>"

definition deliver_first ::
  "alert_env \<Rightarrow> Notification \<Rightarrow> string \<Rightarrow> string \<Rightarrow> alert_service \<times> bool \<Rightarrow> alert_service \<times> bool" where
  "deliver_first env notif alertID ch st =
     (let (s, anyDelivered) = st; res = an_Deliver env ch notif; d = new_attempt env alertID ch notif 1 res in
      if result_delivered res then (record_attempt env d s, True)
      else if rt_Retryable res then
        (startAsyncRetry alertID ch notif 2 (record_attempt env
           (d\<lparr>da_NextRetryAt := Some (an_End env + an_Backoff env 1 (rt_RetryAfter res))\<rparr>) s), anyDelivered)
      else (record_attempt env d s, anyDelivered))"

definition dispatchNotification :: "alert_env \<Rightarrow> Notification \<Rightarrow> string \<Rightarrow> alert_service \<Rightarrow> alert_service \<times> bool" where
  "dispatchNotification env notif alertID s = fold (deliver_first env notif alertID) (as_channels s) (s, False)"

definition isSilenced :: "string \<Rightarrow> string \<Rightarrow> time \<Rightarrow> alert_repo \<Rightarrow> bool" where
  "isSilenced deviceID reasonCode tm r = list_ex (\<lambda>s. silence_Matches s deviceID reasonCode tm) (ListSilences r)"

definition opened_alert :: "alert_env \<Rightarrow> HealthEvent \<Rightarrow> Alert option \<Rightarrow> Alert" where
  "opened_alert env ev active = (case active of
      Some a \<Rightarrow> a\<lparr>al_LastObservedAt := he_OccurredAt ev, al_Severity := he_Severity ev, al_Evidence := he_Evidence ev,
                al_NotificationRevision := al_NotificationRevision a + 1\<rparr>
    | None \<Rightarrow> \<lparr>al_ID = ''alt_'' @ he_DeviceID ev @ ''_'' @ he_ReasonCode ev @ ''_'' @ int_text (unix_nano (he_OccurredAt ev)),
        al_Fingerprint = ComputeFingerprint (an_Sha env) (he_DeviceID ev) (he_ReasonCode ev),
        al_DeviceID = he_DeviceID ev, al_ReasonCode = he_ReasonCode ev, al_Severity = he_Severity ev,
        al_State = AlertFiring, al_OpenedAt = he_OccurredAt ev, al_LastObservedAt = he_OccurredAt ev,
        al_ResolvedAt = None, al_Evidence = he_Evidence ev, al_FiringNotified = False, al_NotificationRevision = 1\<rparr>)"

definition save_alert :: "bool \<Rightarrow> Alert \<Rightarrow> alert_service \<Rightarrow> alert_service \<times> bool" where
  "save_alert ok a s = (let (r, saved) = SaveAlert ok a (as_repo s) in (s\<lparr>as_repo := r\<rparr>, saved))"

definition handleSingleEvent :: "alert_env \<Rightarrow> HealthEvent \<Rightarrow> alert_service \<Rightarrow> alert_service" where
  "handleSingleEvent env ev s =
     (let active = FindActiveAlertByFingerprint
            (ComputeFingerprint (an_Sha env) (he_DeviceID ev) (he_ReasonCode ev)) (as_repo s) in
      if he_Type ev = ''opened'' \<or> he_Type ev = ''changed'' then
        (let a = opened_alert env ev active; (s1, saved) = save_alert (an_SaveOK env) a s in
         if \<not> saved then s1
         else if \<not> isSilenced (he_DeviceID ev) (he_ReasonCode ev) (he_OccurredAt ev) (as_repo s1)
             \<and> \<not> al_FiringNotified a then
           (let (s2, anyDelivered) = dispatchNotification env (buildNotification env ''alert.firing'' a []) (al_ID a) s1 in
            if anyDelivered then fst (save_alert (an_NotifiedOK env) (a\<lparr>al_FiringNotified := True\<rparr>) s2) else s2)
         else s1)
      else if he_Type ev = ''resolved'' then
        (case active of
           None \<Rightarrow> s
         | Some a0 \<Rightarrow>
             (let a = a0\<lparr>al_State := AlertResolved, al_ResolvedAt := Some (he_OccurredAt ev),
                         al_LastObservedAt := he_OccurredAt ev\<rparr>;
                  (s1, saved) = save_alert (an_SaveOK env) a (cancelFiringRetriesForAlert (al_ID a) s) in
              if \<not> saved then s1
              else if \<not> isSilenced (he_DeviceID ev) (he_ReasonCode ev) (he_OccurredAt ev) (as_repo s1)
                  \<and> al_FiringNotified a then
                fst (dispatchNotification env (buildNotification env ''alert.resolved'' a []) (al_ID a) s1)
              else s1))
      else s)"

definition HandleHealthEvents :: "(HealthEvent \<Rightarrow> alert_env) \<Rightarrow> HealthEvent list \<Rightarrow> alert_service \<Rightarrow> alert_service" where
  "HandleHealthEvents envs evs s = fold (\<lambda>ev. handleSingleEvent (envs ev) ev) evs s"

section \<open>Retries\<close>

definition stale_event :: "string \<Rightarrow> Alert \<Rightarrow> bool" where
  "stale_event event a \<longleftrightarrow> (event = ''alert.firing'' \<and> al_State a \<noteq> AlertFiring)
     \<or> (event = ''alert.resolved'' \<and> al_State a \<noteq> AlertResolved)"

definition drop_worker :: "nat \<Rightarrow> alert_service \<Rightarrow> alert_service" where
  "drop_worker i s = s\<lparr>as_workers := gdel i (as_workers s)\<rparr>"

text \<open>The delay is over: a cancelled worker ends, another looks at its channel and its alert.\<close>

definition worker_begin :: "nat \<Rightarrow> alert_service \<Rightarrow> alert_service" where
  "worker_begin i s = (case gget (as_workers s) i of
      None \<Rightarrow> s
    | Some w \<Rightarrow>
        if wk_Alert w \<noteq> None then s
        else if wk_Cancelled w then drop_worker i s
        else if wk_ChannelID w \<notin> set (as_channels s) then drop_worker i (cancelRetry (wk_key w) s)
        else (case GetAlert (wk_AlertID w) (as_repo s) of
            None \<Rightarrow> drop_worker i (cancelRetry (wk_key w) s)
          | Some a \<Rightarrow>
              if stale_event (no_Event (wk_Notif w)) a then drop_worker i (cancelRetry (wk_key w) s)
              else s\<lparr>as_workers := gput i (w\<lparr>wk_Alert := Some a\<rparr>) (as_workers s)\<rparr>))"

text \<open>The channel has answered: the worker's goroutine ends, and a new one follows for the next attempt.\<close>

definition worker_end :: "alert_env \<Rightarrow> nat \<Rightarrow> alert_service \<Rightarrow> alert_service" where
  "worker_end env i s = (case gget (as_workers s) i of
      None \<Rightarrow> s
    | Some w \<Rightarrow>
        (case wk_Alert w of
           None \<Rightarrow> s
         | Some a \<Rightarrow>
             (let s1 = drop_worker i s; notif = wk_Notif w; n = wk_Attempt w;
                  res = an_Deliver env (wk_ChannelID w) notif;
                  d = new_attempt env (wk_AlertID w) (wk_ChannelID w) notif n res in
              if result_delivered res then
                (let s2 = record_attempt env d s1;
                     s3 = (if no_Event notif = ''alert.firing''
                       then fst (save_alert (an_NotifiedOK env) (a\<lparr>al_FiringNotified := True\<rparr>) s2) else s2) in
                 cancelRetry (wk_key w) s3)
              else if \<not> rt_Retryable res \<or> n \<ge> 6 then cancelRetry (wk_key w) (record_attempt env d s1)
              else startAsyncRetry (wk_AlertID w) (wk_ChannelID w) notif (n + 1)
                     (record_attempt env (d\<lparr>da_NextRetryAt := Some (an_End env + an_Backoff env n (rt_RetryAfter res))\<rparr>) s1))))"

text \<open>The restart of the retries from the repository; the delay left until a retry is not modelled.\<close>

definition recover_retry :: "alert_env \<Rightarrow> DeliveryAttempt \<Rightarrow> alert_service \<Rightarrow> alert_service" where
  "recover_retry env att s = (case GetAlert (da_AlertID att) (as_repo s) of
      None \<Rightarrow> s
    | Some a \<Rightarrow>
        if stale_event (da_Event att) a then s
        else startAsyncRetry (da_AlertID att) (da_ChannelID att)
               (buildNotification env (da_Event att) a (da_DeliveryID att)) (da_AttemptNumber att + 1) s)"

definition RecoverPendingRetries :: "alert_env \<Rightarrow> alert_service \<Rightarrow> alert_service" where
  "RecoverPendingRetries env s = fold (recover_retry env) (ListPendingRetries (as_repo s)) s"

section \<open>Silences and tests\<close>

definition CreateSilence ::
  "bool \<Rightarrow> time \<Rightarrow> Silence \<Rightarrow> alert_service \<Rightarrow> alert_service \<times> (string + Silence)" where
  "CreateSilence ok now sil s =
     (if si_EndsAt sil < si_StartsAt sil then (s, Inl ''ends_at must be after starts_at'')
      else
        (let sil1 = (if si_ID sil = [] then sil\<lparr>si_ID := ''sil_'' @ int_text (unix_nano now)\<rparr> else sil);
             sil2 = (if is_zero_time (si_CreatedAt sil1) then sil1\<lparr>si_CreatedAt := now\<rparr> else sil1);
             (r, saved) = SaveSilence ok sil2 (as_repo s) in
         (s\<lparr>as_repo := r\<rparr>, if saved then Inr sil2 else Inl ''save silence'')))"

definition DeleteSilence :: "bool \<Rightarrow> string \<Rightarrow> alert_service \<Rightarrow> alert_service \<times> bool" where
  "DeleteSilence ok i s = (let (r, done1) = repo_DeleteSilence ok i (as_repo s) in (s\<lparr>as_repo := r\<rparr>, done1))"

definition test_alert :: "time \<Rightarrow> Alert" where
  "test_alert now = \<lparr>al_ID = ''alt_test'', al_Fingerprint = [], al_DeviceID = ''dev-test'',
     al_ReasonCode = ''channel_test'', al_Severity = SeverityInfo, al_State = AlertFiring, al_OpenedAt = now,
     al_LastObservedAt = 0, al_ResolvedAt = None, al_Evidence = [], al_FiringNotified = False,
     al_NotificationRevision = 0\<rparr>"

definition TestChannel :: "alert_env \<Rightarrow> string \<Rightarrow> alert_service \<Rightarrow> alert_service \<times> DeliveryResult option" where
  "TestChannel env channelID s =
     (if channelID \<notin> set (as_channels s) then (s, None)
      else
        (let notif = buildNotification env ''alert.test'' (test_alert (an_Start env)) [];
             res = an_Deliver env channelID notif;
             d = (new_attempt env ''alt_test'' channelID notif 1 res)
                   \<lparr>da_ID := ''dlv_test_'' @ int_text (unix_nano (an_Start env)),
                    da_Delivered := rt_StatusCode res \<ge> 200 \<and> rt_StatusCode res < 300\<rparr> in
         (record_attempt env d s, Some res)))"

section \<open>Delays\<close>

text \<open>\<open>defaultBackoffSchedule\<close>, with the multiplication by the random factor as \<open>jitter\<close>.\<close>

definition backoff_base :: "int \<Rightarrow> duration \<Rightarrow> duration" where
  "backoff_base attemptNum retryAfter =
     (let base = (if attemptNum = 1 then seconds 30 else if attemptNum = 2 then minutes 2
            else if attemptNum = 3 then minutes 10 else if attemptNum = 4 then minutes 30 else hours 2);
          base1 = (if retryAfter > 0 \<and> retryAfter > base then retryAfter else base) in
      if base1 > hours 2 then hours 2 else base1)"

definition defaultBackoffSchedule :: "(duration \<Rightarrow> duration) \<Rightarrow> int \<Rightarrow> duration \<Rightarrow> duration" where
  "defaultBackoffSchedule jitter attemptNum retryAfter = jitter (backoff_base attemptNum retryAfter)"

text \<open>
  \<open>parseRetryAfter\<close>: the product of the seconds wraps around at 64 bits; \<open>parseTime\<close> is
  \<open>http.ParseTime\<close>.
\<close>

definition parseRetryAfter :: "(string \<Rightarrow> time option) \<Rightarrow> string \<Rightarrow> time \<Rightarrow> duration" where
  "parseRetryAfter parseTime header now =
     (let h = trim_space header in
      if h = [] then 0
      else (case atoi h of
          Some n \<Rightarrow> if n \<le> 0 then 0 else (let d = wrap64 (seconds n) in if d > hours 1 then hours 1 else d)
        | None \<Rightarrow>
            (case parseTime h of
               None \<Rightarrow> 0
             | Some t \<Rightarrow> (let d = time_sub t now in if d \<le> 0 then 0 else if d > hours 1 then hours 1 else d))))"

text \<open>The answer of the webhook: no response, or its status, the \<open>Retry-After\<close> header and the body.\<close>

datatype http_answer = NoResponse string | Response int string string

definition classify_response :: "(string \<Rightarrow> time option) \<Rightarrow> time \<Rightarrow> http_answer \<Rightarrow> DeliveryResult" where
  "classify_response parseTime now ans =
     (let result = (\<lambda>retry after code err msg. \<lparr>rt_Retryable = retry, rt_RetryAfter = after, rt_StatusCode = code,
            rt_ErrorCode = err, rt_ErrorMessage = msg\<rparr>) in
      (case ans of
         NoResponse e \<Rightarrow> result True 0 0 ''transport_error'' e
       | Response code retryAfter body \<Rightarrow>
           if code \<ge> 200 \<and> code < 300 then result False 0 code [] []
           else if code \<ge> 300 \<and> code < 400 then
             result False 0 code ''redirect_rejected'' (''server returned redirect status '' @ int_text code
               @ '', webhook redirects are disallowed'')
           else if code = 408 \<or> code = 425 \<or> code = 429 \<or> code \<ge> 500 then
             result True (parseRetryAfter parseTime retryAfter now) code (''http_'' @ int_text code) (trim_space body)
           else result False 0 code (''http_'' @ int_text code) (trim_space body)))"

end
