(* ===== verification/AlertingProps.thy ===== *)
theory AlertingProps
  imports HealthProps Alerting
begin

text \<open>
  What the alerts have to do with the health of the devices: the service of \<open>internal/health\<close> and the
  service of \<open>internal/alerting\<close> run as the server composes them, the second listening to the first,
  with the retries of notifications in between.
\<close>

section \<open>Names of alerts\<close>

definition alert_name :: "string \<Rightarrow> string \<Rightarrow> time \<Rightarrow> string" where
  "alert_name d c t = ''alt_'' @ d @ ''_'' @ c @ ''_'' @ int_text (unix_nano t)"

definition code_suffix :: "string \<Rightarrow> string \<Rightarrow> bool" where
  "code_suffix c c' \<longleftrightarrow> has_suffix c (CHR ''_'' # c')"

lemma codes_no_suffix: "list_all (\<lambda>c. list_all (\<lambda>c'. \<not> code_suffix c c') rule_codes) rule_codes"
  by code_simp

lemma codes_no_colon: "list_all (\<lambda>c. CHR '':'' \<notin> set c) rule_codes"
  by code_simp

lemma has_suffix_iff: "has_suffix s p \<longleftrightarrow> (\<exists>t. s = t @ p)"
  unfolding has_suffix_def has_prefix_iff by (metis rev_append rev_rev_ident)

lemma join_code:
  assumes "d @ ''_'' @ c = d' @ ''_'' @ c'" and "c \<in> set rule_codes" and "c' \<in> set rule_codes"
  shows "d = d' \<and> c = c'"
proof -
  from assms(1) obtain us where
    "d = d' @ us \<and> us @ ''_'' @ c = ''_'' @ c' \<or> d @ us = d' \<and> ''_'' @ c = us @ ''_'' @ c'"
    unfolding append_eq_append_conv2 by blast
  then show ?thesis
  proof
    assume u: "d = d' @ us \<and> us @ ''_'' @ c = ''_'' @ c'"
    show ?thesis
    proof (cases us)
      case (Cons x xs)
      with u have "c' = xs @ CHR ''_'' # c" by simp
      then have "code_suffix c' c" by (auto simp: code_suffix_def has_suffix_iff)
      with codes_no_suffix assms(2,3) show ?thesis by (auto simp: list_all_iff)
    qed (use u in simp)
  next
    assume u: "d @ us = d' \<and> ''_'' @ c = us @ ''_'' @ c'"
    show ?thesis
    proof (cases us)
      case (Cons x xs)
      with u have "c = xs @ CHR ''_'' # c'" by simp
      then have "code_suffix c c'" by (auto simp: code_suffix_def has_suffix_iff)
      with codes_no_suffix assms(2,3) show ?thesis by (auto simp: list_all_iff)
    qed (use u in simp)
  qed
qed

lemma split_last_sep:
  assumes "x @ s # a = y @ s # b" and "s \<notin> set a" and "s \<notin> set b"
  shows "x = y \<and> a = b"
proof -
  from assms(1) obtain us where "x = y @ us \<and> us @ s # a = s # b \<or> x @ us = y \<and> s # a = us @ s # b"
    unfolding append_eq_append_conv2 by blast
  then show ?thesis using assms(2,3) by (cases us) auto
qed

lemma digits_no_sep: "CHR ''_'' \<notin> set (int_text n)"
proof -
  have "CHR ''_'' \<notin> set (nat_digits k)" for k
    using nat_digits_all [of k] by (auto simp: list_all_iff is_digit_def)
  then show ?thesis by (simp add: int_text_def)
qed

lemma alert_name_inj:
  assumes "alert_name d c t = alert_name d' c' t'" and "c \<in> set rule_codes" and "c' \<in> set rule_codes"
  shows "d = d' \<and> c = c'"
proof -
  from assms(1) have "(d @ ''_'' @ c) @ CHR ''_'' # int_text (unix_nano t)
      = (d' @ ''_'' @ c') @ CHR ''_'' # int_text (unix_nano t')"
    by (simp add: alert_name_def)
  from split_last_sep [OF this digits_no_sep digits_no_sep] join_code [OF _ assms(2,3)] show ?thesis by blast
qed

text \<open>The texts the fingerprints of a set of devices are made from.\<close>

definition labels :: "string set \<Rightarrow> string set" where
  "labels D = {d @ '':'' @ c | d c. d \<in> D \<and> c \<in> set rule_codes}"

lemma fingerprint_inj:
  assumes "inj_on sha (labels D)" and "d \<in> D" "c \<in> set rule_codes" "d' \<in> D" "c' \<in> set rule_codes"
  shows "ComputeFingerprint sha d c = ComputeFingerprint sha d' c' \<longleftrightarrow> d = d' \<and> c = c'"
proof
  assume "ComputeFingerprint sha d c = ComputeFingerprint sha d' c'"
  then have "sha (d @ '':'' @ c) = sha (d' @ '':'' @ c')" by (simp add: ComputeFingerprint_def)
  moreover have "d @ '':'' @ c \<in> labels D" "d' @ '':'' @ c' \<in> labels D"
    unfolding labels_def using assms(2-5) by blast+
  ultimately have "d @ CHR '':'' # c = d' @ CHR '':'' # c'"
    using assms(1) unfolding inj_on_def by simp
  moreover have "CHR '':'' \<notin> set c" "CHR '':'' \<notin> set c'"
    using codes_no_colon assms(3,5) by (auto simp: list_all_iff)
  ultimately show "d = d' \<and> c = c'" by (rule split_last_sep)
qed simp

section \<open>The alerts of a map\<close>

definition named :: "(string \<Rightarrow> string) \<Rightarrow> string set \<Rightarrow> Alert \<Rightarrow> bool" where
  "named sha D a \<longleftrightarrow> al_ID a = alert_name (al_DeviceID a) (al_ReasonCode a) (al_OpenedAt a)
     \<and> al_Fingerprint a = ComputeFingerprint sha (al_DeviceID a) (al_ReasonCode a)
     \<and> al_DeviceID a \<in> D \<and> al_ReasonCode a \<in> set rule_codes"

definition alerts_ok :: "(string \<Rightarrow> string) \<Rightarrow> string set \<Rightarrow> (string, Alert) gomap \<Rightarrow> bool" where
  "alerts_ok sha D m \<longleftrightarrow> wf_map m \<and> (\<forall>i a. gget m i = Some a \<longrightarrow> i = al_ID a \<and> named sha D a)"

definition firing_alert :: "(string, Alert) gomap \<Rightarrow> string \<Rightarrow> string \<Rightarrow> Alert \<Rightarrow> bool" where
  "firing_alert m d c a \<longleftrightarrow> gget m (al_ID a) = Some a \<and> al_State a = AlertFiring
     \<and> al_DeviceID a = d \<and> al_ReasonCode a = c"

definition one_firing :: "(string, Alert) gomap \<Rightarrow> bool" where
  "one_firing m \<longleftrightarrow> (\<forall>d c a b. firing_alert m d c a \<longrightarrow> firing_alert m d c b \<longrightarrow> a = b)"

lemma alerts_ok_Nil [simp]: "alerts_ok sha D []"
  and firing_alert_Nil [simp]: "\<not> firing_alert [] d c a"
  and one_firing_Nil [simp]: "one_firing []"
  by (simp_all add: alerts_ok_def firing_alert_def one_firing_def)

lemma alerts_ok_gput: "alerts_ok sha D m \<Longrightarrow> named sha D a \<Longrightarrow> alerts_ok sha D (gput (al_ID a) a m)"
  by (auto simp: alerts_ok_def)

lemma firing_gput:
  "firing_alert (gput (al_ID a) a m) d c x \<longleftrightarrow>
    (if al_ID x = al_ID a then x = a \<and> al_State a = AlertFiring \<and> al_DeviceID a = d \<and> al_ReasonCode a = c
     else firing_alert m d c x)"
  by (auto simp: firing_alert_def)

text \<open>An alert with the name of another is of the same device and the same code.\<close>

lemma same_name:
  assumes "named sha D a" "named sha D b" "al_ID a = al_ID b"
  shows "al_DeviceID a = al_DeviceID b \<and> al_ReasonCode a = al_ReasonCode b"
  using assms alert_name_inj unfolding named_def by metis

lemma firing_named: "alerts_ok sha D m \<Longrightarrow> firing_alert m d c a \<Longrightarrow> named sha D a"
  by (auto simp: alerts_ok_def firing_alert_def)

lemma find_active:
  assumes ok: "alerts_ok sha D (ar_alerts r)" and inj: "inj_on sha (labels D)" "d \<in> D" "c \<in> set rule_codes"
  shows "FindActiveAlertByFingerprint (ComputeFingerprint sha d c) r = Some a \<Longrightarrow> firing_alert (ar_alerts r) d c a"
    and "FindActiveAlertByFingerprint (ComputeFingerprint sha d c) r = None \<Longrightarrow> \<not> firing_alert (ar_alerts r) d c a"
proof -
  have fp: "al_Fingerprint x = ComputeFingerprint sha d c \<longleftrightarrow> al_DeviceID x = d \<and> al_ReasonCode x = c"
    if "named sha D x" for x
    using that fingerprint_inj [OF inj(1) _ _ inj(2,3)] unfolding named_def by metis
  have vals: "gget (ar_alerts r) (al_ID x) = Some x \<and> named sha D x" if "x \<in> set (gvals (ar_alerts r))" for x
    using in_vals_gget that ok unfolding alerts_ok_def by metis
  show "firing_alert (ar_alerts r) d c a"
    if "FindActiveAlertByFingerprint (ComputeFingerprint sha d c) r = Some a"
  proof -
    from find_in_set [OF that [unfolded FindActiveAlertByFingerprint_def]]
    have "a \<in> set (gvals (ar_alerts r))" "al_Fingerprint a = ComputeFingerprint sha d c" "al_State a = AlertFiring"
      by blast+
    with vals [of a] fp [of a] show ?thesis unfolding firing_alert_def by blast
  qed
  show "\<not> firing_alert (ar_alerts r) d c a"
    if n: "FindActiveAlertByFingerprint (ComputeFingerprint sha d c) r = None"
  proof
    assume f: "firing_alert (ar_alerts r) d c a"
    then have "a \<in> set (gvals (ar_alerts r))" unfolding firing_alert_def by (blast intro: gget_in_vals)
    moreover from f have "al_State a = AlertFiring" by (simp add: firing_alert_def)
    moreover from f fp [OF firing_named [OF ok f]] have "al_Fingerprint a = ComputeFingerprint sha d c"
      by (simp add: firing_alert_def)
    ultimately show False using n unfolding FindActiveAlertByFingerprint_def find_None_iff by blast
  qed
qed

section \<open>What the service does to them\<close>

abbreviation alerts_of :: "alert_service \<Rightarrow> (string, Alert) gomap" where
  "alerts_of s \<equiv> ar_alerts (as_repo s)"

declare gput_gput [simp]

lemma record_keeps [simp]:
  "alerts_of (record_attempt env d s) = alerts_of s" "as_channels (record_attempt env d s) = as_channels s"
  "as_workers (record_attempt env d s) = as_workers s" "as_active (record_attempt env d s) = as_active s"
  by (simp_all add: record_attempt_def RecordDeliveryAttempt_def Let_def)

lemma cancel_keeps [simp]:
  "as_repo (cancel_worker i s) = as_repo s" "as_channels (cancel_worker i s) = as_channels s"
  "as_repo (cancelRetry k s) = as_repo s" "as_channels (cancelRetry k s) = as_channels s"
  by (simp_all add: cancel_worker_def cancelRetry_def split: option.split prod.split)

lemma fold_cancel_keeps:
  "as_repo (fold (\<lambda>(k, i, event) s. if P k event then (cancel_worker i s)\<lparr>as_active := gdel k (as_active s)\<rparr> else s) xs s)
     = as_repo s"
  by (induction xs arbitrary: s) auto

lemma cancel_firing_keeps [simp]: "as_repo (cancelFiringRetriesForAlert i s) = as_repo s"
  unfolding cancelFiringRetriesForAlert_def by (rule fold_cancel_keeps)

lemma start_keeps [simp]: "as_repo (startAsyncRetry i ch notif n s) = as_repo s"
  by (simp add: startAsyncRetry_def Let_def)

lemma dispatch_keeps [simp]: "alerts_of (fst (dispatchNotification env notif i s)) = alerts_of s"
proof -
  have "alerts_of (fst (fold (deliver_first env notif i) chs (s, b))) = alerts_of s" for chs b
  proof (induction chs arbitrary: s b)
    case (Cons ch chs)
    obtain s' b' where d: "deliver_first env notif i ch (s, b) = (s', b')" by fastforce
    then have "alerts_of s' = alerts_of s"
      by (auto simp: deliver_first_def Let_def split: if_splits)
    with Cons.IH [of s' b'] d show ?case by simp
  qed simp
  then show ?thesis by (simp add: dispatchNotification_def)
qed

lemma save_alerts [simp]: "alerts_of (fst (save_alert ok a s)) = gput (al_ID a) a (alerts_of s)"
  by (simp add: save_alert_def SaveAlert_def Let_def split: prod.split)

lemma save_split: "(s', b) = save_alert ok a s \<Longrightarrow> alerts_of s' = gput (al_ID a) a (alerts_of s)"
  by (metis fst_conv save_alerts)

definition active_alert :: "(string \<Rightarrow> string) \<Rightarrow> HealthEvent \<Rightarrow> alert_service \<Rightarrow> Alert option" where
  "active_alert sha ev s =
     FindActiveAlertByFingerprint (ComputeFingerprint sha (he_DeviceID ev) (he_ReasonCode ev)) (as_repo s)"

lemma handle_opened:
  assumes "he_Type ev = ''opened'' \<or> he_Type ev = ''changed''"
  obtains n where "alerts_of (handleSingleEvent env ev s) =
    (let a = (opened_alert env ev (active_alert (an_Sha env) ev s))\<lparr>al_FiringNotified := n\<rparr> in
     gput (al_ID a) a (alerts_of s))"
proof -
  let ?a = "opened_alert env ev (active_alert (an_Sha env) ev s)"
  obtain s1 saved where sv: "save_alert (an_SaveOK env) ?a s = (s1, saved)" by fastforce
  obtain s2 any where dp: "dispatchNotification env (buildNotification env ''alert.firing'' ?a []) (al_ID ?a) s1 = (s2, any)"
    by fastforce
  from sv have m1: "alerts_of s1 = gput (al_ID ?a) ?a (alerts_of s)" by (metis save_split)
  from dp have m2: "alerts_of s2 = alerts_of s1" by (metis dispatch_keeps fst_conv)
  have same: "?a = ?a\<lparr>al_FiringNotified := al_FiringNotified ?a\<rparr>" by simp
  have "handleSingleEvent env ev s = (if \<not> saved then s1
      else if \<not> isSilenced (he_DeviceID ev) (he_ReasonCode ev) (he_OccurredAt ev) (as_repo s1) \<and> \<not> al_FiringNotified ?a then
        (if any then fst (save_alert (an_NotifiedOK env) (?a\<lparr>al_FiringNotified := True\<rparr>) s2) else s2)
      else s1)"
    using assms sv dp by (simp add: handleSingleEvent_def active_alert_def Let_def)
  then have "alerts_of (handleSingleEvent env ev s) \<in>
    {gput (al_ID ?a) ?a (alerts_of s), gput (al_ID ?a) (?a\<lparr>al_FiringNotified := True\<rparr>) (alerts_of s)}"
    using m1 m2 by simp
  with same that [of "al_FiringNotified ?a"] that [of True] show ?thesis by (auto simp: Let_def)
qed

lemma handle_resolved:
  assumes "he_Type ev = ''resolved''"
  shows "alerts_of (handleSingleEvent env ev s) = (case active_alert (an_Sha env) ev s of
      None \<Rightarrow> alerts_of s
    | Some a \<Rightarrow> gput (al_ID a) (a\<lparr>al_State := AlertResolved, al_ResolvedAt := Some (he_OccurredAt ev),
        al_LastObservedAt := he_OccurredAt ev\<rparr>) (alerts_of s))"
proof (cases "active_alert (an_Sha env) ev s")
  case (Some a0)
  let ?a = "a0\<lparr>al_State := AlertResolved, al_ResolvedAt := Some (he_OccurredAt ev), al_LastObservedAt := he_OccurredAt ev\<rparr>"
  obtain s1 saved where sv: "save_alert (an_SaveOK env) ?a (cancelFiringRetriesForAlert (al_ID ?a) s) = (s1, saved)"
    by fastforce
  from sv have "alerts_of s1 = gput (al_ID ?a) ?a (alerts_of s)" by (metis save_split cancel_firing_keeps)
  with sv Some assms show ?thesis
    by (simp add: handleSingleEvent_def active_alert_def Let_def)
qed (use assms in \<open>simp add: handleSingleEvent_def active_alert_def\<close>)

text \<open>An event of the evaluation of a device of \<open>D\<close>.\<close>

definition event_ok :: "string set \<Rightarrow> HealthEvent \<Rightarrow> bool" where
  "event_ok D ev \<longleftrightarrow> he_DeviceID ev \<in> D \<and> he_ReasonCode ev \<in> set rule_codes
     \<and> (he_Type ev = ''opened'' \<or> he_Type ev = ''changed'' \<or> he_Type ev = ''resolved'')"

lemma opened_alert_fields [simp]:
  "al_State (opened_alert env ev None) = AlertFiring" "al_Severity (opened_alert env ev act) = he_Severity ev"
  "al_DeviceID (opened_alert env ev None) = he_DeviceID ev" "al_ReasonCode (opened_alert env ev None) = he_ReasonCode ev"
  "al_State (opened_alert env ev (Some a)) = al_State a" "al_ID (opened_alert env ev (Some a)) = al_ID a"
  "al_DeviceID (opened_alert env ev (Some a)) = al_DeviceID a" "al_ReasonCode (opened_alert env ev (Some a)) = al_ReasonCode a"
  "named sha D (opened_alert env ev (Some a)) = named sha D a"
  by (simp_all add: opened_alert_def named_def split: option.split)

lemma named_opened: "event_ok D ev \<Longrightarrow> named (an_Sha env) D (opened_alert env ev None)"
  by (simp add: opened_alert_def named_def alert_name_def event_ok_def)

lemma named_fields [simp]:
  "named sha D (a\<lparr>al_FiringNotified := n\<rparr>) = named sha D a" "named sha D (a\<lparr>al_State := st\<rparr>) = named sha D a"
  "named sha D (a\<lparr>al_ResolvedAt := t\<rparr>) = named sha D a" "named sha D (a\<lparr>al_LastObservedAt := l\<rparr>) = named sha D a"
  by (simp_all add: named_def)

text \<open>What an event saves: an alert of the event's device and code.\<close>

definition event_saves :: "HealthEvent \<Rightarrow> (string, Alert) gomap \<Rightarrow> Alert \<Rightarrow> bool" where
  "event_saves ev m a \<longleftrightarrow> al_DeviceID a = he_DeviceID ev \<and> al_ReasonCode a = he_ReasonCode ev
     \<and> (al_State a = AlertFiring \<longleftrightarrow> he_Type ev \<noteq> ''resolved'')
     \<and> (al_State a = AlertFiring \<longrightarrow> al_Severity a = he_Severity ev)
     \<and> (\<forall>b. firing_alert m (he_DeviceID ev) (he_ReasonCode ev) b \<longrightarrow> one_firing m \<longrightarrow> al_ID b = al_ID a)"

lemma handle_cases:
  assumes ok: "alerts_ok sha D (alerts_of s)" and inj: "inj_on sha (labels D)" and ev: "event_ok D ev" "an_Sha env = sha"
  obtains (saves) a where "alerts_of (handleSingleEvent env ev s) = gput (al_ID a) a (alerts_of s)" "named sha D a"
      "event_saves ev (alerts_of s) a"
    | (no_alert) "he_Type ev = ''resolved''" "alerts_of (handleSingleEvent env ev s) = alerts_of s"
      "\<And>b. \<not> firing_alert (alerts_of s) (he_DeviceID ev) (he_ReasonCode ev) b"
proof -
  have dc: "he_DeviceID ev \<in> D" "he_ReasonCode ev \<in> set rule_codes" using ev by (simp_all add: event_ok_def)
  note find = find_active [OF ok inj dc]
  consider (o) "he_Type ev = ''opened'' \<or> he_Type ev = ''changed''" | (r) "he_Type ev = ''resolved''"
    using ev by (auto simp: event_ok_def)
  then show ?thesis
  proof cases
    case o
    let ?x = "opened_alert env ev (active_alert (an_Sha env) ev s)"
    from handle_opened [OF o] obtain n where n: "alerts_of (handleSingleEvent env ev s) =
        gput (al_ID ?x) (?x\<lparr>al_FiringNotified := n\<rparr>) (alerts_of s)" by (auto simp: Let_def)
    from o have nr: "he_Type ev \<noteq> ''resolved''" by auto
    have x: "named sha D ?x \<and> event_saves ev (alerts_of s) ?x"
    proof (cases "active_alert (an_Sha env) ev s")
      case None
      with find(2) ev(2) have "\<not> firing_alert (alerts_of s) (he_DeviceID ev) (he_ReasonCode ev) b" for b
        by (simp add: active_alert_def)
      with None nr ev(2) named_opened [OF ev(1), of env] show ?thesis by (simp add: event_saves_def)
    next
      case (Some a)
      then have f: "firing_alert (alerts_of s) (he_DeviceID ev) (he_ReasonCode ev) a"
        using find(1) ev(2) by (simp add: active_alert_def)
      then have "al_ID b = al_ID a"
        if "firing_alert (alerts_of s) (he_DeviceID ev) (he_ReasonCode ev) b" "one_firing (alerts_of s)" for b
        using that unfolding one_firing_def by metis
      moreover have "named sha D a" using firing_named [OF ok f] .
      moreover have "al_State a = AlertFiring" "al_DeviceID a = he_DeviceID ev" "al_ReasonCode a = he_ReasonCode ev"
        using f by (simp_all add: firing_alert_def)
      ultimately show ?thesis using Some nr ev(2) by (simp add: event_saves_def)
    qed
    show ?thesis
    proof (rule saves [of "?x\<lparr>al_FiringNotified := n\<rparr>"])
      show "alerts_of (handleSingleEvent env ev s)
          = gput (al_ID (?x\<lparr>al_FiringNotified := n\<rparr>)) (?x\<lparr>al_FiringNotified := n\<rparr>) (alerts_of s)"
        using n by simp
    qed (use x in \<open>simp_all add: event_saves_def\<close>)
  next
    case r
    show ?thesis
    proof (cases "active_alert (an_Sha env) ev s")
      case None
      with find(2) ev(2) have "\<not> firing_alert (alerts_of s) (he_DeviceID ev) (he_ReasonCode ev) b" for b
        by (simp add: active_alert_def)
      moreover have "alerts_of (handleSingleEvent env ev s) = alerts_of s" using r None by (simp add: handle_resolved)
      ultimately show ?thesis using r no_alert by blast
    next
      case (Some a)
      then have f: "firing_alert (alerts_of s) (he_DeviceID ev) (he_ReasonCode ev) a"
        using find(1) ev(2) by (simp add: active_alert_def)
      then have one: "al_ID b = al_ID a"
        if "firing_alert (alerts_of s) (he_DeviceID ev) (he_ReasonCode ev) b" "one_firing (alerts_of s)" for b
        using that unfolding one_firing_def by metis
      let ?a = "a\<lparr>al_State := AlertResolved, al_ResolvedAt := Some (he_OccurredAt ev), al_LastObservedAt := he_OccurredAt ev\<rparr>"
      show ?thesis
      proof (rule saves [of ?a])
        show "alerts_of (handleSingleEvent env ev s) = gput (al_ID ?a) ?a (alerts_of s)"
          using Some r by (simp add: handle_resolved)
        show "named sha D ?a" using firing_named [OF ok f] by simp
        show "event_saves ev (alerts_of s) ?a" using f one r by (simp add: event_saves_def firing_alert_def)
      qed
    qed
  qed
qed

lemma handle_event:
  assumes ok: "alerts_ok sha D (alerts_of s)" and inj: "inj_on sha (labels D)" and ev: "event_ok D ev" "an_Sha env = sha"
  defines "m \<equiv> alerts_of s" and "m' \<equiv> alerts_of (handleSingleEvent env ev s)"
  shows "alerts_ok sha D m'"
    and "(d, c) \<noteq> (he_DeviceID ev, he_ReasonCode ev) \<Longrightarrow> firing_alert m' d c x \<longleftrightarrow> firing_alert m d c x"
    and "he_Type ev \<noteq> ''resolved'' \<Longrightarrow> \<exists>x. firing_alert m' (he_DeviceID ev) (he_ReasonCode ev) x"
    and "one_firing m \<Longrightarrow> one_firing m'"
    and "one_firing m \<Longrightarrow> (\<exists>x. firing_alert m' (he_DeviceID ev) (he_ReasonCode ev) x \<and> al_Severity x = sev)
           \<longleftrightarrow> event_effect ev = Some sev"
proof -
  let ?d = "he_DeviceID ev" and ?c = "he_ReasonCode ev"
  have *: "alerts_ok sha D m' \<and> ((d, c) \<noteq> (?d, ?c) \<longrightarrow> (firing_alert m' d c x \<longleftrightarrow> firing_alert m d c x))
    \<and> (he_Type ev \<noteq> ''resolved'' \<longrightarrow> (\<exists>x. firing_alert m' ?d ?c x))
    \<and> (one_firing m \<longrightarrow> (\<forall>x. firing_alert m' ?d ?c x \<longrightarrow> event_effect ev = Some (al_Severity x)))
    \<and> (one_firing m \<longrightarrow> (\<forall>x y. firing_alert m' ?d ?c x \<longrightarrow> firing_alert m' ?d ?c y \<longrightarrow> x = y))" for d c x
  proof (rule handle_cases [OF ok inj ev])
    fix a
    assume a: "alerts_of (handleSingleEvent env ev s) = gput (al_ID a) a (alerts_of s)" "named sha D a"
      "event_saves ev (alerts_of s) a"
    have m': "m' = gput (al_ID a) a m" using a(1) by (simp add: m'_def m_def)
    have okm: "alerts_ok sha D m" using ok by (simp add: m_def)
    have only: "x = a \<and> al_State a = AlertFiring" if "one_firing m" "firing_alert m' ?d ?c x" for x
      using that a(3) by (auto simp: m' firing_gput event_saves_def m_def split: if_splits)
    have "firing_alert m' d c x \<longleftrightarrow> firing_alert m d c x" if "(d, c) \<noteq> (?d, ?c)"
    proof (cases "al_ID x = al_ID a")
      case True
      have "\<not> firing_alert m d c x"
        using that a(2,3) firing_named [OF okm] same_name [of sha D x a] True
        by (auto simp: event_saves_def firing_alert_def)
      moreover have "\<not> firing_alert m' d c x"
        using that a(3) True by (auto simp: m' firing_gput event_saves_def)
      ultimately show ?thesis by blast
    qed (simp add: m' firing_gput)
    moreover have "\<exists>x. firing_alert m' ?d ?c x" if "he_Type ev \<noteq> ''resolved''"
      using that a(3) by (intro exI [of _ a]) (simp add: m' firing_gput event_saves_def)
    moreover have "event_effect ev = Some (al_Severity x)" if "one_firing m" "firing_alert m' ?d ?c x" for x
      using only [OF that] a(3) by (auto simp: event_saves_def event_effect_def)
    ultimately show "alerts_ok sha D m' \<and> ((d, c) \<noteq> (?d, ?c) \<longrightarrow> (firing_alert m' d c x \<longleftrightarrow> firing_alert m d c x))
      \<and> (he_Type ev \<noteq> ''resolved'' \<longrightarrow> (\<exists>x. firing_alert m' ?d ?c x))
      \<and> (one_firing m \<longrightarrow> (\<forall>x. firing_alert m' ?d ?c x \<longrightarrow> event_effect ev = Some (al_Severity x)))
      \<and> (one_firing m \<longrightarrow> (\<forall>x y. firing_alert m' ?d ?c x \<longrightarrow> firing_alert m' ?d ?c y \<longrightarrow> x = y))"
      using only alerts_ok_gput [OF okm a(2)] unfolding m' [symmetric] by blast
  next
    assume "he_Type ev = ''resolved''" "alerts_of (handleSingleEvent env ev s) = alerts_of s"
      "\<And>b. \<not> firing_alert (alerts_of s) ?d ?c b"
    then show "alerts_ok sha D m' \<and> ((d, c) \<noteq> (?d, ?c) \<longrightarrow> (firing_alert m' d c x \<longleftrightarrow> firing_alert m d c x))
      \<and> (he_Type ev \<noteq> ''resolved'' \<longrightarrow> (\<exists>x. firing_alert m' ?d ?c x))
      \<and> (one_firing m \<longrightarrow> (\<forall>x. firing_alert m' ?d ?c x \<longrightarrow> event_effect ev = Some (al_Severity x)))
      \<and> (one_firing m \<longrightarrow> (\<forall>x y. firing_alert m' ?d ?c x \<longrightarrow> firing_alert m' ?d ?c y \<longrightarrow> x = y))"
      using ok by (simp add: m'_def m_def)
  qed
  show "alerts_ok sha D m'" using * by blast
  show "firing_alert m' d c x \<longleftrightarrow> firing_alert m d c x" if "(d, c) \<noteq> (?d, ?c)" using * that by blast
  show open1: "\<exists>x. firing_alert m' ?d ?c x" if "he_Type ev \<noteq> ''resolved''" using * that by blast
  show "one_firing m'" if one: "one_firing m"
    unfolding one_firing_def
  proof (intro allI impI)
    fix d c x y
    assume "firing_alert m' d c x" "firing_alert m' d c y"
    then show "x = y" using * [of d c x] * [of d c y] one unfolding one_firing_def by (cases "(d, c) = (?d, ?c)") blast+
  qed
  show "(\<exists>x. firing_alert m' ?d ?c x \<and> al_Severity x = sev) \<longleftrightarrow> event_effect ev = Some sev" if one: "one_firing m"
  proof
    assume "event_effect ev = Some sev"
    moreover from this have "he_Type ev \<noteq> ''resolved''" by (auto simp: event_effect_def)
    ultimately show "\<exists>x. firing_alert m' ?d ?c x \<and> al_Severity x = sev" using * one by (metis open1 option.inject)
  qed (use * one in auto)
qed

section \<open>The events of an evaluation\<close>

definition fires :: "(string, Alert) gomap \<Rightarrow> string \<Rightarrow> string \<Rightarrow> bool" where
  "fires m d c \<longleftrightarrow> (\<exists>x. firing_alert m d c x)"

definition shows_exactly :: "(string, Alert) gomap \<Rightarrow> string \<Rightarrow> (string \<Rightarrow> Severity option) \<Rightarrow> bool" where
  "shows_exactly m d f \<longleftrightarrow> (\<forall>c sev. (\<exists>x. firing_alert m d c x \<and> al_Severity x = sev) \<longleftrightarrow> f c = Some sev)"

definition shows_all :: "(string, Alert) gomap \<Rightarrow> string \<Rightarrow> (string \<Rightarrow> Severity option) \<Rightarrow> bool" where
  "shows_all m d f \<longleftrightarrow> (\<forall>c. f c \<noteq> None \<longrightarrow> fires m d c)"

lemma HandleHealthEvents_simps [simp]:
  "HandleHealthEvents envs [] s = s"
  "HandleHealthEvents envs (ev # evs) s = HandleHealthEvents envs evs (handleSingleEvent (envs ev) ev s)"
  by (simp_all add: HandleHealthEvents_def)

lemma handle_events:
  assumes "alerts_ok sha D (alerts_of s)" and "inj_on sha (labels D)"
    and "\<forall>ev \<in> set evs. event_ok D ev \<and> he_DeviceID ev = d" and "\<forall>ev. an_Sha (envs ev) = sha"
  defines "m' \<equiv> alerts_of (HandleHealthEvents envs evs s)"
  shows "alerts_ok sha D m'
    \<and> (d' \<noteq> d \<longrightarrow> (firing_alert m' d' c x \<longleftrightarrow> firing_alert (alerts_of s) d' c x))
    \<and> (shows_all (alerts_of s) d f \<longrightarrow> shows_all m' d (fold apply_event evs f))
    \<and> (one_firing (alerts_of s) \<longrightarrow> one_firing m' \<and>
        (shows_exactly (alerts_of s) d f \<longrightarrow> shows_exactly m' d (fold apply_event evs f)))"
  using assms(1,3) unfolding m'_def
proof (induction evs arbitrary: s f)
  case (Cons ev evs)
  let ?s = "handleSingleEvent (envs ev) ev s"
  have ev: "event_ok D ev" "an_Sha (envs ev) = sha" "he_DeviceID ev = d" using Cons.prems assms(4) by simp_all
  note step = handle_event [OF Cons.prems(1) assms(2) ev(1,2)]
  have "shows_all (alerts_of ?s) d (apply_event ev f)" if "shows_all (alerts_of s) d f"
    unfolding shows_all_def
  proof (intro allI impI)
    fix c assume c: "apply_event ev f c \<noteq> None"
    show "fires (alerts_of ?s) d c"
    proof (cases "c = he_ReasonCode ev")
      case True
      with c step(3) ev(3) show ?thesis by (auto simp: fires_def event_effect_def split: if_splits)
    next
      case False
      with c that step(2) [of d c] ev(3) show ?thesis by (auto simp: fires_def shows_all_def apply_event_other)
    qed
  qed
  moreover have "shows_exactly (alerts_of ?s) d (apply_event ev f)"
    if "one_firing (alerts_of s)" "shows_exactly (alerts_of s) d f"
    unfolding shows_exactly_def
  proof (intro allI)
    fix c sev
    show "(\<exists>x. firing_alert (alerts_of ?s) d c x \<and> al_Severity x = sev) \<longleftrightarrow> apply_event ev f c = Some sev"
    proof (cases "c = he_ReasonCode ev")
      case True
      with step(5) [OF that(1)] ev(3) show ?thesis by simp
    next
      case False
      with that(2) step(2) [of d c] ev(3) show ?thesis by (simp add: shows_exactly_def apply_event_other)
    qed
  qed
  moreover have "d' \<noteq> d \<Longrightarrow> firing_alert (alerts_of ?s) d' c x \<longleftrightarrow> firing_alert (alerts_of s) d' c x"
    using step(2) [of d' c] ev(3) by simp
  ultimately show ?case
    using Cons.IH [OF step(1), of "apply_event ev f"] Cons.prems(2) step(4) by simp
qed (simp add: assms)

lemma generated_codes:
  assumes "e \<in> set (generateEvents prev cur now)"
  shows "he_ReasonCode e \<in> rs_Code ` (set (hs_Reasons cur) \<union> set (previous_reasons prev))"
proof -
  have mem: "r \<in> set rs" if "gget (reason_map rs) (rs_Code r) = Some r" for r rs
    using find_in_set [OF that [unfolded gget_reason_map]] by simp
  from assms obtain r where "r \<in> set (hs_Reasons cur) \<union> set (previous_reasons prev)" "he_ReasonCode e = rs_Code r"
    unfolding generated_iff using opened_eventD resolved_eventD mem by (metis UnCI)
  then show ?thesis by blast
qed

text \<open>Every snapshot has the codes of the rules.\<close>

definition health_ok :: "health_repo \<Rightarrow> bool" where
  "health_ok h \<longleftrightarrow> (\<forall>d snap. GetSnapshot d h = Some snap \<longrightarrow> rs_Code ` set (hs_Reasons snap) \<subseteq> set rule_codes)"

lemma evaluate_device:
  assumes "EvaluateDevice cfg env d h = (h', ans, evs)" and "health_ok h" and "d \<noteq> []"
    and "hn_Facts env = Some dev" "df_ID dev = d" "hn_SnapshotOK env" "hn_EventsOK env"
  obtains snap now where "\<And>x. GetSnapshot x h' = (if x = d then Some snap else GetSnapshot x h)"
    "evs = generateEvents (GetSnapshot d h) snap now" "hs_DeviceID snap = d" "health_ok h'"
proof -
  let ?inp = "evaluation_input env d h"
  obtain snap evs0 where E: "Evaluate cfg (hn_Now env) ?inp = (snap, evs0)" by fastforce
  have id: "hs_DeviceID snap = d" and ev: "evs0 = generateEvents (GetSnapshot d h) snap (input_time (hn_Now env) ?inp)"
    using E assms(4,5) by (auto simp: Evaluate_def Let_def evaluation_input_def input_time_def)
  have codes: "rs_Code ` set (hs_Reasons snap) \<subseteq> set rule_codes"
    using Evaluate_codes(2) [of _ cfg "hn_Now env" ?inp] E by auto
  have evs: "evs = evs0" and snaps: "hr_snapshots h' = gput d snap (hr_snapshots h)"
    using assms(1,3,6,7) E id
    by (auto simp: EvaluateDevice_def SaveSnapshot_def AppendEvents_def Let_def split: if_splits)
  have get: "GetSnapshot x h' = (if x = d then Some snap else GetSnapshot x h)" for x
    by (simp add: GetSnapshot_def snaps)
  with assms(2) codes have "health_ok h'" by (simp add: health_ok_def)
  with that get evs ev id show ?thesis by blast
qed

section \<open>The workers\<close>

text \<open>The alerts that retries have read and not yet written back, with the kind of their notification.\<close>

definition wk_reads :: "alert_service \<Rightarrow> (string \<times> Alert) set" where
  "wk_reads s = {(no_Event (wk_Notif w), a) | w a. \<exists>i. gget (as_workers s) i = Some w \<and> wk_Alert w = Some a}"

lemma wk_readsI: "gget (as_workers s) i = Some w \<Longrightarrow> wk_Alert w = Some a \<Longrightarrow> (no_Event (wk_Notif w), a) \<in> wk_reads s"
  unfolding wk_reads_def by blast

lemma wk_reads_mono:
  assumes "\<And>i w a. gget (as_workers s') i = Some w \<Longrightarrow> wk_Alert w = Some a \<Longrightarrow>
    \<exists>j v. gget (as_workers s) j = Some v \<and> wk_Alert v = Some a \<and> wk_Notif v = wk_Notif w"
  shows "wk_reads s' \<subseteq> wk_reads s"
proof
  fix p
  assume "p \<in> wk_reads s'"
  then obtain w a i where w: "p = (no_Event (wk_Notif w), a)" "gget (as_workers s') i = Some w" "wk_Alert w = Some a"
    unfolding wk_reads_def by blast
  from assms [OF w(2,3)] wk_readsI [of s] w(1) show "p \<in> wk_reads s" by metis
qed

lemma wk_reads_same [simp]: "wk_reads (s\<lparr>as_repo := r\<rparr>) = wk_reads s" "wk_reads (s\<lparr>as_active := ac\<rparr>) = wk_reads s"
  "wk_reads (record_attempt env d s) = wk_reads s" "wk_reads (fst (save_alert ok a s)) = wk_reads s"
  by (simp_all add: wk_reads_def save_alert_def split: prod.split)

lemma cancel_worker_reads: "wk_reads (cancel_worker i s) \<subseteq> wk_reads s"
proof (rule wk_reads_mono)
  fix j w a
  assume "gget (as_workers (cancel_worker i s)) j = Some w" "wk_Alert w = Some a"
  then show "\<exists>k v. gget (as_workers s) k = Some v \<and> wk_Alert v = Some a \<and> wk_Notif v = wk_Notif w"
    by (cases "gget (as_workers s) i"; cases "j = i") (auto simp: cancel_worker_def intro: exI [of _ j])
qed

lemma drop_worker_reads: "wk_reads (drop_worker i s) \<subseteq> wk_reads s"
  by (rule wk_reads_mono) (auto simp: drop_worker_def split: if_splits)

lemma cancelRetry_reads: "wk_reads (cancelRetry k s) \<subseteq> wk_reads s"
  using cancel_worker_reads by (auto simp: cancelRetry_def split: option.split)

lemma start_reads: "wk_reads (startAsyncRetry i ch notif n s) \<subseteq> wk_reads s"
proof -
  have "wk_reads (startAsyncRetry i ch notif n s) \<subseteq> wk_reads (cancelRetry (i @ '':'' @ ch) s)"
    by (rule wk_reads_mono) (auto simp: startAsyncRetry_def Let_def split: if_splits)
  then show ?thesis using cancelRetry_reads by blast
qed

lemma fold_cancel_reads:
  "wk_reads (fold (\<lambda>(k, i, event) s. if P k event then (cancel_worker i s)\<lparr>as_active := gdel k (as_active s)\<rparr> else s) xs s)
     \<subseteq> wk_reads s"
proof (induction xs arbitrary: s)
  case (Cons x xs)
  obtain k i event where x: "x = (k, i, event)" by (cases x) auto
  have "wk_reads ((cancel_worker i s)\<lparr>as_active := gdel k (as_active s)\<rparr>) \<subseteq> wk_reads s"
    by (simp add: cancel_worker_reads)
  with Cons.IH [of s] Cons.IH [of "(cancel_worker i s)\<lparr>as_active := gdel k (as_active s)\<rparr>"] show ?case
    by (simp add: x) blast
qed simp

lemma cancel_firing_reads: "wk_reads (cancelFiringRetriesForAlert i s) \<subseteq> wk_reads s"
  unfolding cancelFiringRetriesForAlert_def by (rule fold_cancel_reads)

lemma dispatch_reads: "wk_reads (fst (dispatchNotification env notif i s)) \<subseteq> wk_reads s"
proof -
  have one: "wk_reads (fst (deliver_first env notif i ch (s, b))) \<subseteq> wk_reads s" for ch s b
  proof -
    have "wk_reads (startAsyncRetry i ch notif 2 (record_attempt env d s)) \<subseteq> wk_reads s" for d
      using start_reads [of i ch notif 2 "record_attempt env d s"] by simp
    then show ?thesis by (simp add: deliver_first_def Let_def)
  qed
  have "wk_reads (fst (fold (deliver_first env notif i) chs (s, b))) \<subseteq> wk_reads s" for chs b
  proof (induction chs arbitrary: s b)
    case (Cons ch chs)
    obtain s' b' where d: "deliver_first env notif i ch (s, b) = (s', b')" by fastforce
    with one [of ch s b] Cons.IH [of s' b'] show ?case by simp
  qed simp
  then show ?thesis by (simp add: dispatchNotification_def)
qed

lemma handle_reads: "wk_reads (handleSingleEvent env ev s) \<subseteq> wk_reads s"
proof -
  have sv: "wk_reads s1 = wk_reads s0" if "save_alert ok a s0 = (s1, b)" for ok a s0 s1 b
    using that wk_reads_same(4) by (metis fst_conv)
  have dp: "wk_reads s1 \<subseteq> wk_reads s0" if "dispatchNotification env n i s0 = (s1, b)" for n i s0 s1 b
    using that dispatch_reads by (metis fst_conv)
  consider (o) "he_Type ev = ''opened'' \<or> he_Type ev = ''changed''" | (r) "he_Type ev = ''resolved''"
    | (x) "he_Type ev \<noteq> ''opened''" "he_Type ev \<noteq> ''changed''" "he_Type ev \<noteq> ''resolved''" by blast
  then show ?thesis
  proof cases
    case o
    let ?a = "opened_alert env ev (active_alert (an_Sha env) ev s)"
    obtain s1 saved where s1: "save_alert (an_SaveOK env) ?a s = (s1, saved)" by fastforce
    obtain s2 any where s2: "dispatchNotification env (buildNotification env ''alert.firing'' ?a []) (al_ID ?a) s1 = (s2, any)"
      by fastforce
    from o s1 s2 sv [OF s1] dp [OF s2] show ?thesis
      by (simp add: handleSingleEvent_def active_alert_def Let_def)
  next
    case r
    show ?thesis
    proof (cases "active_alert (an_Sha env) ev s")
      case (Some a0)
      let ?a = "a0\<lparr>al_State := AlertResolved, al_ResolvedAt := Some (he_OccurredAt ev), al_LastObservedAt := he_OccurredAt ev\<rparr>"
      obtain s1 saved where s1: "save_alert (an_SaveOK env) ?a (cancelFiringRetriesForAlert (al_ID ?a) s) = (s1, saved)"
        by fastforce
      then have "wk_reads s1 \<subseteq> wk_reads s" using sv [OF s1] cancel_firing_reads by simp
      with dispatch_reads [of env "buildNotification env ''alert.resolved'' ?a []" "al_ID ?a" s1]
      have "wk_reads (fst (dispatchNotification env (buildNotification env ''alert.resolved'' ?a []) (al_ID ?a) s1))
        \<subseteq> wk_reads s" by blast
      with \<open>wk_reads s1 \<subseteq> wk_reads s\<close> r s1 Some show ?thesis
        by (simp add: handleSingleEvent_def active_alert_def Let_def)
    qed (use r in \<open>simp add: handleSingleEvent_def active_alert_def Let_def\<close>)
  qed (simp add: handleSingleEvent_def)
qed

lemma handle_events_reads: "wk_reads (HandleHealthEvents envs evs s) \<subseteq> wk_reads s"
  by (induction evs arbitrary: s) (simp, use handle_reads in fastforce)

lemma recover_reads: "wk_reads (RecoverPendingRetries env s) \<subseteq> wk_reads s"
  and recover_alerts [simp]: "as_repo (RecoverPendingRetries env s) = as_repo s"
proof -
  have one: "wk_reads (recover_retry env att s) \<subseteq> wk_reads s \<and> as_repo (recover_retry env att s) = as_repo s" for att s
    using start_reads by (simp add: recover_retry_def split: option.split)
  have "wk_reads (fold (recover_retry env) atts s) \<subseteq> wk_reads s \<and> as_repo (fold (recover_retry env) atts s) = as_repo s"
    for atts
  proof (induction atts arbitrary: s)
    case (Cons att atts)
    from Cons.IH [of "recover_retry env att s"] one [of att s] show ?case
      unfolding fold.simps comp_apply by auto
  qed simp
  then show "wk_reads (RecoverPendingRetries env s) \<subseteq> wk_reads s" "as_repo (RecoverPendingRetries env s) = as_repo s"
    by (simp_all add: RecoverPendingRetries_def)
qed

lemma worker_begin_keeps [simp]: "as_repo (worker_begin i s) = as_repo s"
  by (simp add: worker_begin_def drop_worker_def split: option.split)

text \<open>A retry begins by ending at once, or by reading the alert of the repository.\<close>

lemma worker_begin_cases:
  obtains (ends) "wk_reads (worker_begin i s) \<subseteq> wk_reads s"
  | (reads) w b where "worker_begin i s = s\<lparr>as_workers := gput i (w\<lparr>wk_Alert := Some b\<rparr>) (as_workers s)\<rparr>"
      "gget (alerts_of s) (wk_AlertID w) = Some b" "no_Event (wk_Notif w) = ''alert.firing'' \<longrightarrow> al_State b = AlertFiring"
proof (cases "gget (as_workers s) i")
  case None
  then show ?thesis using ends by (simp add: worker_begin_def)
next
  case (Some w)
  have dropped: "wk_reads (drop_worker i (cancelRetry k s)) \<subseteq> wk_reads s" for k
    using drop_worker_reads cancelRetry_reads by blast
  show ?thesis
  proof (cases "wk_Alert w = None \<and> \<not> wk_Cancelled w \<and> wk_ChannelID w \<in> set (as_channels s)
      \<and> (\<exists>b. GetAlert (wk_AlertID w) (as_repo s) = Some b \<and> \<not> stale_event (no_Event (wk_Notif w)) b)")
    case True
    then obtain b where b: "GetAlert (wk_AlertID w) (as_repo s) = Some b" "\<not> stale_event (no_Event (wk_Notif w)) b" by blast
    with True Some have w: "worker_begin i s = s\<lparr>as_workers := gput i (w\<lparr>wk_Alert := Some b\<rparr>) (as_workers s)\<rparr>"
      by (simp add: worker_begin_def)
    from b show ?thesis by (intro reads [OF w]) (auto simp: stale_event_def GetAlert_def)
  next
    case False
    have "wk_reads (worker_begin i s) \<subseteq> wk_reads s"
      using Some False dropped drop_worker_reads [of i s]
      by (auto simp: worker_begin_def split: option.split)
    then show ?thesis by (rule ends)
  qed
qed

lemma read_one: "(e, a) \<in> wk_reads (s\<lparr>as_workers := gput i w (as_workers s)\<rparr>) \<Longrightarrow>
    (e, a) \<in> wk_reads s \<or> (e = no_Event (wk_Notif w) \<and> wk_Alert w = Some a)"
  by (auto simp: wk_reads_def split: if_splits)

lemma worker_begin_reads:
  assumes "(e, a) \<in> wk_reads (worker_begin i s)"
  shows "(e, a) \<in> wk_reads s \<or> (\<exists>j. gget (alerts_of s) j = Some a \<and> (e = ''alert.firing'' \<longrightarrow> al_State a = AlertFiring))"
proof (rule worker_begin_cases [of i s])
  fix w b
  assume w: "worker_begin i s = s\<lparr>as_workers := gput i (w\<lparr>wk_Alert := Some b\<rparr>) (as_workers s)\<rparr>"
    "gget (alerts_of s) (wk_AlertID w) = Some b" "no_Event (wk_Notif w) = ''alert.firing'' \<longrightarrow> al_State b = AlertFiring"
  from read_one [OF assms [unfolded w(1)]] w(2,3) show ?thesis by auto
qed (use assms in blast)

lemma worker_end_reads: "wk_reads (worker_end env i s) \<subseteq> wk_reads s"
  and worker_end_drops: "gget (as_workers s) i = Some w \<Longrightarrow> wk_Alert w \<noteq> None \<Longrightarrow>
    wk_reads (worker_end env i s) \<subseteq> wk_reads (drop_worker i s)"
proof -
  have d: "wk_reads (worker_end env i s) \<subseteq> wk_reads (drop_worker i s)"
    if w: "gget (as_workers s) i = Some w" "wk_Alert w \<noteq> None" for w
  proof -
    have c: "wk_reads (cancelRetry k x) \<subseteq> wk_reads (drop_worker i s)"
      and st: "wk_reads (startAsyncRetry al ch notif n x) \<subseteq> wk_reads (drop_worker i s)"
      if "wk_reads x = wk_reads (drop_worker i s)" for k al ch notif n x
      using cancelRetry_reads [of k x] start_reads [of al ch notif n x] that by blast+
    from w obtain a where "wk_Alert w = Some a" by blast
    with w(1) show ?thesis by (simp add: worker_end_def Let_def c st)
  qed
  then show "gget (as_workers s) i = Some w \<Longrightarrow> wk_Alert w \<noteq> None \<Longrightarrow>
    wk_reads (worker_end env i s) \<subseteq> wk_reads (drop_worker i s)" .
  show "wk_reads (worker_end env i s) \<subseteq> wk_reads s"
  proof (cases "gget (as_workers s) i")
    case (Some w)
    then show ?thesis using d [of w] drop_worker_reads [of i s] by (cases "wk_Alert w") (auto simp: worker_end_def)
  qed (simp add: worker_end_def)
qed

lemma worker_end_alerts:
  "alerts_of (worker_end env i s) = alerts_of s
    \<or> (\<exists>a. (''alert.firing'', a) \<in> wk_reads s
        \<and> alerts_of (worker_end env i s) = gput (al_ID a) (a\<lparr>al_FiringNotified := True\<rparr>) (alerts_of s))"
proof (cases "gget (as_workers s) i")
  case (Some w)
  have [simp]: "alerts_of (drop_worker i s) = alerts_of s" by (simp add: drop_worker_def)
  show ?thesis
  proof (cases "wk_Alert w")
    case (Some a)
    then have "no_Event (wk_Notif w) = ''alert.firing'' \<Longrightarrow> (''alert.firing'', a) \<in> wk_reads s"
      using wk_readsI [of s i w a] \<open>gget (as_workers s) i = Some w\<close> by simp
    with Some \<open>gget (as_workers s) i = Some w\<close> show ?thesis
      by (cases "no_Event (wk_Notif w) = ''alert.firing''") (auto simp: worker_end_def Let_def)
  qed (simp add: worker_end_def Some)
qed (simp add: worker_end_def)

section \<open>Runs of the server\<close>

text \<open>
  What the server does with the two services: an evaluation, whose events the alert service handles
  as the listener; the beginning and the end of a retry; the recovery of the retries; and the
  operations on silences and channels.
\<close>

datatype monitor_op =
  Evaluated EvaluatorConfig health_env string "HealthEvent \<Rightarrow> alert_env"
| RetryBegins nat
| RetryEnds alert_env nat
| Recovered alert_env
| SilenceCreated bool time Silence
| SilenceDeleted bool string
| ChannelTested alert_env string

fun monitor_step :: "monitor_op \<Rightarrow> health_repo \<times> alert_service \<Rightarrow> health_repo \<times> alert_service" where
  "monitor_step (Evaluated cfg env d envs) (h, s) =
     (let (h1, _, evs) = EvaluateDevice cfg env d h in (h1, HandleHealthEvents envs evs s))"
| "monitor_step (RetryBegins i) (h, s) = (h, worker_begin i s)"
| "monitor_step (RetryEnds env i) (h, s) = (h, worker_end env i s)"
| "monitor_step (Recovered env) (h, s) = (h, RecoverPendingRetries env s)"
| "monitor_step (SilenceCreated ok now sil) (h, s) = (h, fst (CreateSilence ok now sil s))"
| "monitor_step (SilenceDeleted ok i) (h, s) = (h, fst (DeleteSilence ok i s))"
| "monitor_step (ChannelTested env ch) (h, s) = (h, fst (TestChannel env ch s))"

text \<open>
  The evaluations whose device is known under its identifier, whose writes succeed, and whose
  fingerprints come from the hash.
\<close>

fun op_ok :: "(string \<Rightarrow> string) \<Rightarrow> string set \<Rightarrow> monitor_op \<Rightarrow> bool" where
  "op_ok sha D (Evaluated cfg env d envs) \<longleftrightarrow> d \<in> D \<and> d \<noteq> [] \<and> map_option df_ID (hn_Facts env) = Some d
     \<and> hn_SnapshotOK env \<and> hn_EventsOK env \<and> (\<forall>ev. an_Sha (envs ev) = sha)"
| "op_ok sha D _ \<longleftrightarrow> True"

definition monitor_start :: "string list \<Rightarrow> health_repo \<times> alert_service" where
  "monitor_start chs =
     (\<lparr>hr_snapshots = [], hr_events = [], hr_snapshotFile = None, hr_eventFile = None\<rparr>,
      \<lparr>as_repo = \<lparr>ar_alerts = [], ar_silences = [], ar_deliveries = [], ar_alertFile = None, ar_silenceFile = None,
         ar_deliveryFile = None\<rparr>,
       as_channels = chs, as_workers = [], as_active = [], as_next = 0\<rparr>)"

definition firing_now :: "health_repo \<Rightarrow> string \<Rightarrow> string \<Rightarrow> Severity option" where
  "firing_now h d = firing (previous_reasons (GetSnapshot d h))"

text \<open>What holds whatever the retries do.\<close>

definition covered :: "(string \<Rightarrow> string) \<Rightarrow> string set \<Rightarrow> health_repo \<times> alert_service \<Rightarrow> bool" where
  "covered sha D st \<longleftrightarrow> (case st of (h, s) \<Rightarrow> health_ok h \<and> alerts_ok sha D (alerts_of s)
     \<and> (\<forall>d. shows_all (alerts_of s) d (firing_now h d))
     \<and> (\<forall>(e, a) \<in> wk_reads s. named sha D a \<and> (e = ''alert.firing'' \<longrightarrow> al_State a = AlertFiring)))"

lemma silence_keeps [simp]:
  "alerts_of (fst (CreateSilence ok now sil s)) = alerts_of s" "wk_reads (fst (CreateSilence ok now sil s)) = wk_reads s"
  "alerts_of (fst (DeleteSilence ok i s)) = alerts_of s" "wk_reads (fst (DeleteSilence ok i s)) = wk_reads s"
  "alerts_of (fst (TestChannel env ch s)) = alerts_of s" "wk_reads (fst (TestChannel env ch s)) = wk_reads s"
  by (simp_all add: CreateSilence_def DeleteSilence_def TestChannel_def SaveSilence_def repo_DeleteSilence_def Let_def
      split: prod.split option.split)

lemma evaluated_events:
  assumes "EvaluateDevice cfg env d h = (h', ans, evs)" and "health_ok h" and "op_ok sha D (Evaluated cfg env d envs)"
  shows "\<forall>ev \<in> set evs. event_ok D ev \<and> he_DeviceID ev = d" and "health_ok h'"
    and "fold apply_event evs (firing_now h d) = firing_now h' d"
    and "x \<noteq> d \<Longrightarrow> firing_now h' x = firing_now h x"
proof -
  from assms(3) obtain dev where ok: "d \<in> D" "d \<noteq> []" "hn_Facts env = Some dev" "df_ID dev = d" "hn_SnapshotOK env"
    "hn_EventsOK env" by auto
  obtain snap now where snap: "\<And>x. GetSnapshot x h' = (if x = d then Some snap else GetSnapshot x h)"
    "evs = generateEvents (GetSnapshot d h) snap now" "hs_DeviceID snap = d" "health_ok h'"
    by (rule evaluate_device [OF assms(1,2) ok(2-6)]) (rule that)
  show "health_ok h'" by (rule snap(4))
  have cur: "GetSnapshot d h' = Some snap" using snap(1) [of d] by simp
  with snap(4) have codes: "rs_Code ` set (hs_Reasons snap) \<subseteq> set rule_codes" unfolding health_ok_def by blast
  have pcodes: "rs_Code ` set (previous_reasons (GetSnapshot d h)) \<subseteq> set rule_codes"
    using assms(2) by (cases "GetSnapshot d h") (simp_all add: health_ok_def previous_reasons_def)
  show "\<forall>ev \<in> set evs. event_ok D ev \<and> he_DeviceID ev = d"
  proof
    fix ev assume "ev \<in> set evs"
    then have ev: "ev \<in> set (generateEvents (GetSnapshot d h) snap now)" unfolding snap(2) .
    from generated_codes [OF ev] codes pcodes have "he_ReasonCode ev \<in> set rule_codes" by blast
    moreover have "he_DeviceID ev = d" using generated_event(3) [OF ev] snap(3) by simp
    ultimately show "event_ok D ev \<and> he_DeviceID ev = d"
      using generated_event(5) [OF ev] ok(1) by (simp add: event_ok_def)
  qed
  show "fold apply_event evs (firing_now h d) = firing_now h' d"
    unfolding firing_now_def snap(2) events_lead cur by (simp add: previous_reasons_def)
  show "firing_now h' x = firing_now h x" if "x \<noteq> d" using that snap(1) [of x] by (simp add: firing_now_def)
qed

lemma evaluated_step:
  assumes "covered sha D (h, s)" and "inj_on sha (labels D)" and "op_ok sha D (Evaluated cfg env d envs)"
    and "monitor_step (Evaluated cfg env d envs) (h, s) = (h', s')"
  shows "\<And>x. x \<noteq> d \<Longrightarrow> firing_now h' x = firing_now h x" and "health_ok h'"
    and "alerts_ok sha D (alerts_of s')" and "shows_all (alerts_of s') d (firing_now h' d)"
    and "\<And>x c a. x \<noteq> d \<Longrightarrow> firing_alert (alerts_of s') x c a \<longleftrightarrow> firing_alert (alerts_of s) x c a"
    and "one_firing (alerts_of s) \<Longrightarrow> one_firing (alerts_of s')"
    and "one_firing (alerts_of s) \<Longrightarrow> shows_exactly (alerts_of s) d (firing_now h d) \<Longrightarrow>
      shows_exactly (alerts_of s') d (firing_now h' d)"
    and "wk_reads s' \<subseteq> wk_reads s"
proof -
  obtain ans evs where E: "EvaluateDevice cfg env d h = (h', ans, evs)" and s': "s' = HandleHealthEvents envs evs s"
    using assms(4) by (cases "EvaluateDevice cfg env d h") auto
  from assms(3) have sha: "\<forall>ev. an_Sha (envs ev) = sha" by simp
  from assms(1) have inv: "health_ok h" "alerts_ok sha D (alerts_of s)" "shows_all (alerts_of s) d (firing_now h d)"
    by (simp_all add: covered_def)
  note ev = evaluated_events [OF E inv(1) assms(3)]
  note H = handle_events [OF inv(2) assms(2) ev(1) sha, folded s']
  show "\<And>x. x \<noteq> d \<Longrightarrow> firing_now h' x = firing_now h x" by (rule ev(4))
  show "health_ok h'" by (rule ev(2))
  show "alerts_ok sha D (alerts_of s')" using H [THEN conjunct1] .
  show "firing_alert (alerts_of s') x c a \<longleftrightarrow> firing_alert (alerts_of s) x c a" if "x \<noteq> d" for x c a
    using H [THEN conjunct2, THEN conjunct1] that by (rule mp)
  show "shows_all (alerts_of s') d (firing_now h' d)"
    using H [THEN conjunct2, THEN conjunct2, THEN conjunct1] inv(3) unfolding ev(3) [symmetric] by (rule mp)
  note H3 = H [THEN conjunct2, THEN conjunct2, THEN conjunct2, THEN mp]
  show "one_firing (alerts_of s')" if "one_firing (alerts_of s)" using H3 [OF that] by (rule conjunct1)
  show "shows_exactly (alerts_of s') d (firing_now h' d)"
    if "one_firing (alerts_of s)" "shows_exactly (alerts_of s) d (firing_now h d)"
    using H3 [OF that(1), THEN conjunct2, THEN mp, OF that(2)] unfolding ev(3) .
  show "wk_reads s' \<subseteq> wk_reads s" unfolding s' by (rule handle_events_reads)
qed

lemma fires_gput:
  assumes "alerts_ok sha D m" "named sha D a" "al_State a = AlertFiring" "fires m d c"
  shows "fires (gput (al_ID a) a m) d c"
proof -
  from assms(4) obtain x where x: "firing_alert m d c x" by (auto simp: fires_def)
  show ?thesis
  proof (cases "al_ID x = al_ID a")
    case True
    with same_name [OF firing_named [OF assms(1) x] assms(2) True] x assms(3) have "firing_alert (gput (al_ID a) a m) d c a"
      by (simp add: firing_gput firing_alert_def)
    then show ?thesis unfolding fires_def by blast
  next
    case False
    with x have "firing_alert (gput (al_ID a) a m) d c x" by (simp add: firing_gput)
    then show ?thesis unfolding fires_def by blast
  qed
qed

lemma covered_same:
  "covered sha D (h, s) \<Longrightarrow> alerts_of s' = alerts_of s \<Longrightarrow> wk_reads s' \<subseteq> wk_reads s \<Longrightarrow> covered sha D (h, s')"
  unfolding covered_def by auto

lemma covered_step:
  assumes cov: "covered sha D (h, s)" and inj: "inj_on sha (labels D)" and op: "op_ok sha D oper"
  shows "covered sha D (monitor_step oper (h, s))"
proof (cases oper)
  case (Evaluated cfg env d envs)
  obtain h' s' where st: "monitor_step oper (h, s) = (h', s')" by fastforce
  note ev = evaluated_step [OF cov inj op [unfolded Evaluated] st [unfolded Evaluated]]
  have "shows_all (alerts_of s') x (firing_now h' x)" for x
  proof (cases "x = d")
    case False
    with cov ev(1,5) show ?thesis by (simp add: covered_def shows_all_def fires_def)
  qed (use ev(4) in simp)
  with ev(2,3,8) cov show ?thesis unfolding st covered_def by auto
next
  case (RetryBegins i)
  have "named sha D a \<and> (e = ''alert.firing'' \<longrightarrow> al_State a = AlertFiring)" if "(e, a) \<in> wk_reads (worker_begin i s)" for e a
    using worker_begin_reads [OF that] cov by (auto simp: covered_def alerts_ok_def)
  with cov RetryBegins show ?thesis by (auto simp: covered_def)
next
  case (RetryEnds env i)
  show ?thesis
  proof (cases "alerts_of (worker_end env i s) = alerts_of s")
    case True
    with covered_same [OF cov True worker_end_reads] RetryEnds show ?thesis by simp
  next
    case False
    with worker_end_alerts [of env i s] obtain a where a: "(''alert.firing'', a) \<in> wk_reads s"
      "alerts_of (worker_end env i s) = gput (al_ID a) (a\<lparr>al_FiringNotified := True\<rparr>) (alerts_of s)" by blast
    let ?a = "a\<lparr>al_FiringNotified := True\<rparr>"
    from cov a(1) have n: "named sha D ?a" "al_State ?a = AlertFiring" by (auto simp: covered_def)
    have m: "alerts_of (worker_end env i s) = gput (al_ID ?a) ?a (alerts_of s)" using a(2) by simp
    from cov have ok: "alerts_ok sha D (alerts_of s)" by (simp add: covered_def)
    have "shows_all (alerts_of (worker_end env i s)) d (firing_now h d)" for d
      using cov fires_gput [OF ok n] unfolding m by (simp add: covered_def shows_all_def)
    with alerts_ok_gput [OF ok n(1)] cov worker_end_reads [of env i s] RetryEnds show ?thesis
      by (auto simp: covered_def m)
  qed
next
  case (Recovered env)
  then show ?thesis using covered_same [OF cov, of "RecoverPendingRetries env s"] recover_reads by simp
qed (use covered_same [OF cov] in simp_all)

lemma covered_start: "covered sha D (monitor_start chs)"
  by (simp add: covered_def monitor_start_def health_ok_def GetSnapshot_def shows_all_def firing_now_def
      previous_reasons_def firing_def reason_map_def wk_reads_def)

lemma covered_run:
  "list_all (op_ok sha D) ops \<Longrightarrow> inj_on sha (labels D) \<Longrightarrow> covered sha D st \<Longrightarrow> covered sha D (fold monitor_step ops st)"
proof (induction ops arbitrary: st)
  case (Cons oper ops)
  obtain h s where "st = (h, s)" by fastforce
  with Cons covered_step [of sha D h s oper] show ?case by simp
qed simp

text \<open>A device \<open>d\<close> last seen at some time, and channels that all answer the same.\<close>

definition sample_env :: "time \<Rightarrow> time \<Rightarrow> health_env" where
  "sample_env seen now = \<lparr>hn_Now = now,
     hn_Facts = Some \<lparr>df_ID = ''d'', df_AgentVersion = ''v1.0.0'', df_LastSeenAt = seen, df_Connected = True,
       df_SyncStatus = [], df_AppliedVersion = 0, df_AppliedHash = [], df_SyncError = [], df_SyncUpdatedAt = 0,
       df_RuntimeFacts = None\<rparr>,
     hn_SSH = None, hn_DDNS = None, hn_Upgrade = None, hn_SSHCmd = None, hn_Policy = None,
     hn_SnapshotOK = True, hn_EventsOK = True\<rparr>"

definition sample_answer :: "int \<Rightarrow> alert_env" where
  "sample_answer code = \<lparr>an_Start = 1, an_End = 2,
     an_Deliver = (\<lambda>ch n. \<lparr>rt_Retryable = code \<noteq> 200, rt_RetryAfter = 0, rt_StatusCode = code, rt_ErrorCode = [],
       rt_ErrorMessage = []\<rparr>), an_SaveOK = True,
     an_NotifiedOK = True, an_RecordOK = True, an_DeliveryID = ''dlv'', an_Backoff = backoff_base,
     an_DeviceName = (\<lambda>d. d), an_Sha = (\<lambda>s. s)\<rparr>"

text \<open>The device has been silent for twenty minutes; it is seen, and nothing is wrong any more.\<close>

definition went_stale :: monitor_op where
  "went_stale = Evaluated DefaultEvaluatorConfig (sample_env 1 (minutes 20)) ''d'' (\<lambda>_. sample_answer 503)"

definition seen_again :: monitor_op where
  "seen_again = Evaluated DefaultEvaluatorConfig (sample_env (minutes 21) (minutes 21)) ''d'' (\<lambda>_. sample_answer 200)"

lemma sample_ops [simp]: "op_ok (\<lambda>s. s) {''d''} went_stale" "op_ok (\<lambda>s. s) {''d''} seen_again"
  by (simp_all add: went_stale_def seen_again_def sample_env_def sample_answer_def)

lemma inj_labels [simp]: "inj_on (\<lambda>s. s) (labels D)"
  by (simp add: inj_on_def)

text \<open>
  C21: No alert is lost. Whatever evaluations, retries of notifications, recoveries and operations on
  silences and channels the server interleaves, and whatever their deliveries and writes of alerts
  answer, every rule that fires in the last snapshot of a device has a firing alert, as long as the
  evaluations find their device and write their results.
\<close>

theorem no_alert_lost:
  assumes "list_all (op_ok sha D) ops" and "inj_on sha (labels D)"
    and "fold monitor_step ops (monitor_start chs) = (h, s)"
    and "GetSnapshot d h = Some snap" and "c \<in> firing_codes (hs_Reasons snap)"
  shows "\<exists>a \<in> set (gvals (ar_alerts (as_repo s))). al_DeviceID a = d \<and> al_ReasonCode a = c \<and> al_State a = AlertFiring"
proof -
  from covered_run [OF assms(1,2) covered_start] assms(3) have "covered sha D (h, s)" by metis
  then have "shows_all (alerts_of s) d (firing (hs_Reasons snap))"
    using assms(4) by (auto simp: covered_def firing_now_def previous_reasons_def split: option.splits)
  with assms(5) obtain a where "firing_alert (alerts_of s) d c a"
    by (auto simp: shows_all_def firing_codes_def fires_def)
  then show ?thesis using gget_in_vals unfolding firing_alert_def by metis
qed

theorem no_alert_lost_witness:
  "let (h, s) = fold monitor_step [went_stale, RetryBegins 0] (monitor_start [''w'']) in
     list_ex (\<lambda>a. al_DeviceID a = ''d'' \<and> al_ReasonCode a = ''heartbeat_stale'' \<and> al_State a = AlertFiring)
       (gvals (ar_alerts (as_repo s)))"
proof -
  obtain h s where r: "fold monitor_step [went_stale, RetryBegins 0] (monitor_start [''w'']) = (h, s)" by fastforce
  have "(case GetSnapshot ''d'' (fst (fold monitor_step [went_stale, RetryBegins 0] (monitor_start [''w'']))) of
      None \<Rightarrow> False | Some snap \<Rightarrow> firing (hs_Reasons snap) ''heartbeat_stale'' \<noteq> None)" by code_simp
  then obtain snap where "GetSnapshot ''d'' h = Some snap" "''heartbeat_stale'' \<in> firing_codes (hs_Reasons snap)"
    unfolding r by (auto simp: firing_codes_def split: option.splits)
  from no_alert_lost [OF _ inj_labels r this, of "{''d''}"] show ?thesis
    unfolding r by (auto simp: list_ex_iff)
qed

section \<open>Retries that are not overtaken\<close>

















section \<open>Attempts\<close>

definition attempt_ok :: "DeliveryAttempt \<Rightarrow> bool" where
  "attempt_ok d \<longleftrightarrow> 1 \<le> da_AttemptNumber d \<and> da_AttemptNumber d \<le> 6"

text \<open>The attempts made and to be made.\<close>

definition attempts_ok :: "alert_service \<Rightarrow> bool" where
  "attempts_ok s \<longleftrightarrow> (\<forall>d \<in> set (ar_deliveries (as_repo s)). attempt_ok d)
     \<and> length (ar_deliveries (as_repo s)) \<le> 3000
     \<and> (\<forall>w \<in> set (gvals (as_workers s)). 2 \<le> wk_Attempt w \<and> wk_Attempt w \<le> 6)"







lemma attempts_active [simp]: "attempts_ok (s\<lparr>as_active := ac\<rparr>) = attempts_ok s"
  by (simp add: attempts_ok_def)





lemma new_attempt_ok [simp]: "attempt_ok (new_attempt env i ch notif n res) \<longleftrightarrow> 1 \<le> n \<and> n \<le> 6"
  "attempt_ok (d\<lparr>da_NextRetryAt := t\<rparr>) = attempt_ok d" "attempt_ok (d\<lparr>da_Delivered := b\<rparr>) = attempt_ok d"
  "attempt_ok (d\<lparr>da_ID := x\<rparr>) = attempt_ok d"
  by (simp_all add: attempt_ok_def new_attempt_def)









text \<open>
  The delay before a retry is between thirty seconds and two hours, however often the notification
  was sent and whatever the server asked for, and what a \<open>Retry-After\<close> header asks for is at most an
  hour.
\<close>

theorem backoff_bounds:
  "seconds 30 \<le> backoff_base n retryAfter \<and> backoff_base n retryAfter \<le> hours 2
   \<and> parseRetryAfter parseTime header now \<le> hours 1"
  by (auto simp: backoff_base_def parseRetryAfter_def Let_def seconds_def minutes_def hours_def split: option.split)

section \<open>Where the two part\<close>

text \<open>
  A snapshot that cannot be written loses its alerts. The evaluation fails, but the repository keeps
  the new snapshot in memory, and as long as the same rules fire no later evaluation has an event: what
  began to fire, or stopped, in the failed evaluation is told to no listener.
\<close>

theorem failed_write_loses_alert:
  assumes "EvaluateDevice cfg env d h = (h1, ans1, evs1)" and "\<not> hn_SnapshotOK env"
    and "EvaluateDevice cfg env' d h1 = (h2, ans2, evs2)"
    and "map_option df_ID (hn_Facts env) = Some d" and "map_option df_ID (hn_Facts env') = Some d"
    and "d \<noteq> []" and "firing_now h2 d = firing_now h1 d"
  shows "ans1 = Inl ErrSaveSnapshot \<and> evs1 = [] \<and> evs2 = []
    \<and> firing_now h1 d = firing (hs_Reasons (fst (Evaluate cfg (hn_Now env) (evaluation_input env d h))))"
proof -
  let ?snap = "fst (Evaluate cfg (hn_Now env) (evaluation_input env d h))"
  let ?snap' = "fst (Evaluate cfg (hn_Now env') (evaluation_input env' d h1))"
  have id: "hs_DeviceID ?snap = d" "hs_DeviceID ?snap' = d"
    using assms(4,5) by (auto simp: Evaluate_def Let_def evaluation_input_def)
  have one: "h1 = fst (SaveSnapshot False ?snap h)" "ans1 = Inl ErrSaveSnapshot" "evs1 = []"
    using assms(1,2,6) by (auto simp: EvaluateDevice_def SaveSnapshot_def Let_def split: prod.splits)
  have get1: "GetSnapshot d h1 = Some ?snap"
    unfolding one(1) by (simp add: SaveSnapshot_def GetSnapshot_def Let_def id)
  have get2: "GetSnapshot d h2 = Some ?snap'"
    using assms(3,6) id(2)
    by (auto simp: EvaluateDevice_def SaveSnapshot_def AppendEvents_def GetSnapshot_def Let_def split: prod.splits if_splits)
  have "snd (Evaluate cfg (hn_Now env') (evaluation_input env' d h1))
      = generateEvents (Some ?snap) ?snap' (input_time (hn_Now env') (evaluation_input env' d h1))"
    by (simp add: Evaluate_def Let_def evaluation_input_def get1 input_time_def)
  also have "\<dots> = []"
    using assms(7) unfolding no_events_iff firing_now_def get1 get2 by (simp add: previous_reasons_def)
  finally have "evs2 = []"
    using assms(3,6) by (auto simp: EvaluateDevice_def Let_def split: prod.splits if_splits)
  with one(2,3) get1 show ?thesis by (simp add: firing_now_def previous_reasons_def)
qed

theorem failed_write_loses_alert_witness:
  "let (h1, _, evs1) = EvaluateDevice DefaultEvaluatorConfig ((sample_env 1 (minutes 20))\<lparr>hn_SnapshotOK := False\<rparr>) ''d'' (fst (monitor_start []));
       (h2, _, evs2) = EvaluateDevice DefaultEvaluatorConfig (sample_env 1 (minutes 21)) ''d'' h1 in
     evs1 = [] \<and> evs2 = [] \<and> firing_now h2 ''d'' ''heartbeat_stale'' \<noteq> None"
proof -
  let ?env = "(sample_env 1 (minutes 20))\<lparr>hn_SnapshotOK := False\<rparr>" and ?h = "fst (monitor_start [])"
  obtain h1 a1 e1 where r1: "EvaluateDevice DefaultEvaluatorConfig ?env ''d'' ?h = (h1, a1, e1)" by (metis prod_cases3)
  obtain h2 a2 e2 where r2: "EvaluateDevice DefaultEvaluatorConfig (sample_env 1 (minutes 21)) ''d'' h1 = (h2, a2, e2)" by (metis prod_cases3)
  have reasons: "map (\<lambda>r. (rs_Code r, rs_State r, rs_Severity r)) (previous_reasons (GetSnapshot ''d'' h1))
      = [(''heartbeat_stale'', RuleFiring, SeverityWarning)]"
    "map (\<lambda>r. (rs_Code r, rs_State r, rs_Severity r)) (previous_reasons (GetSnapshot ''d'' h2))
      = [(''heartbeat_stale'', RuleFiring, SeverityWarning)]"
  proof -
    have "map (\<lambda>r. (rs_Code r, rs_State r, rs_Severity r)) (previous_reasons (GetSnapshot ''d''
       (fst (EvaluateDevice DefaultEvaluatorConfig ?env ''d'' ?h)))) = [(''heartbeat_stale'', RuleFiring, SeverityWarning)]"
      by code_simp
    then show "map (\<lambda>r. (rs_Code r, rs_State r, rs_Severity r)) (previous_reasons (GetSnapshot ''d'' h1))
      = [(''heartbeat_stale'', RuleFiring, SeverityWarning)]" unfolding r1 by simp
    have "map (\<lambda>r. (rs_Code r, rs_State r, rs_Severity r)) (previous_reasons (GetSnapshot ''d''
       (fst (EvaluateDevice DefaultEvaluatorConfig (sample_env 1 (minutes 21)) ''d'' (fst (EvaluateDevice DefaultEvaluatorConfig ?env ''d'' ?h))))))
       = [(''heartbeat_stale'', RuleFiring, SeverityWarning)]"
      by code_simp
    then show "map (\<lambda>r. (rs_Code r, rs_State r, rs_Severity r)) (previous_reasons (GetSnapshot ''d'' h2))
      = [(''heartbeat_stale'', RuleFiring, SeverityWarning)]" unfolding r1 fst_conv r2 by simp
  qed
  have f: "firing rs = [''heartbeat_stale'' \<mapsto> SeverityWarning]"
    if "map (\<lambda>r. (rs_Code r, rs_State r, rs_Severity r)) rs = [(''heartbeat_stale'', RuleFiring, SeverityWarning)]" for rs
    using that by (auto simp: firing_def gget_reason_map map_eq_Cons_conv)
  have n: "firing_now h1 ''d'' = [''heartbeat_stale'' \<mapsto> SeverityWarning]"
    "firing_now h2 ''d'' = [''heartbeat_stale'' \<mapsto> SeverityWarning]"
    unfolding firing_now_def by (rule f [OF reasons(1)], rule f [OF reasons(2)])
  from failed_write_loses_alert [OF r1 _ r2] n show ?thesis
    unfolding r1 by (simp add: r2) (simp add: sample_env_def)
qed



end
