(* ===== verification/FileAccess.thy ===== *)
theory FileAccess
  imports Prelude
begin

text \<open>
  The credentials for file operations, \<open>internal/fileaccess/service.go\<close>: creation, listing,
  revocation and validation of tokens, and their file. SHA-256 as a hexadecimal text (\<open>sha\<close>), the
  bytes of the random generator, the clock and the outcome of a write are arguments; the lookup of a
  user is a function of the state of the accounts at the time of the call.
\<close>

section \<open>Texts\<close>

text \<open>
  \<open>base64.RawURLEncoding\<close>: the encoder, and the decoder, which passes over line breaks and does not
  look at the bits left over in the last character.
\<close>

definition url_alphabet :: string where
  "url_alphabet = ''ABCDEFGHIJKLMNOPQRSTUVWXYZabcdefghijklmnopqrstuvwxyz0123456789-_''"

definition url_char :: "nat \<Rightarrow> char" where
  "url_char n = url_alphabet ! n"

fun index_of :: "'a \<Rightarrow> 'a list \<Rightarrow> nat option" where
  "index_of x [] = None"
| "index_of x (y # ys) = (if x = y then Some 0 else map_option Suc (index_of x ys))"

fun url_encode :: "string \<Rightarrow> string" where
  "url_encode [] = []"
| "url_encode [a] = (let x = of_char a in [url_char (x div 4), url_char (x mod 4 * 16)])"
| "url_encode [a, b] = (let x = of_char a; y = of_char b in
     [url_char (x div 4), url_char (x mod 4 * 16 + y div 16), url_char (y mod 16 * 4)])"
| "url_encode (a # b # c # r) = (let x = of_char a; y = of_char b; z = of_char c in
     url_char (x div 4) # url_char (x mod 4 * 16 + y div 16) # url_char (y mod 16 * 4 + z div 64)
       # url_char (z mod 64) # url_encode r)"

fun url_bytes :: "nat list \<Rightarrow> string option" where
  "url_bytes [] = Some []"
| "url_bytes [a] = None"
| "url_bytes [a, b] = Some [char_of (a * 4 + b div 16)]"
| "url_bytes [a, b, c] = Some [char_of (a * 4 + b div 16), char_of (b mod 16 * 16 + c div 4)]"
| "url_bytes (a # b # c # d # r) = map_option (\<lambda>bs. char_of (a * 4 + b div 16)
     # char_of (b mod 16 * 16 + c div 4) # char_of (c mod 4 * 64 + d) # bs) (url_bytes r)"

definition url_decode :: "string \<Rightarrow> string option" where
  "url_decode s =
     (let cs = filter (\<lambda>c. c \<noteq> carriage_return \<and> c \<noteq> newline) s; vs = map (\<lambda>c. index_of c url_alphabet) cs in
      if None \<in> set vs then None else url_bytes (map the vs))"

text \<open>\<open>hex.DecodeString\<close> accepts a text of 64 digits, that is, of 32 bytes.\<close>

definition hex_32_bytes :: "string \<Rightarrow> bool" where
  "hex_32_bytes s \<longleftrightarrow> length s = 64 \<and> list_all (\<lambda>c. (CHR ''0'' \<le> c \<and> c \<le> CHR ''9'')
     \<or> (CHR ''a'' \<le> c \<and> c \<le> CHR ''f'') \<or> (CHR ''A'' \<le> c \<and> c \<le> CHR ''F'')) s"

text \<open>The number of runes of a text in UTF-8, \<open>None\<close> for a text that is not valid.\<close>

definition in_range :: "nat \<Rightarrow> nat \<Rightarrow> char \<Rightarrow> bool" where
  "in_range lo hi c \<longleftrightarrow> lo \<le> of_char c \<and> of_char c \<le> hi"

abbreviation continuation :: "char \<Rightarrow> bool" where
  "continuation \<equiv> in_range 128 191"

definition utf8_width :: "string \<Rightarrow> nat option" where
  "utf8_width s = (case s of
      [] \<Rightarrow> None
    | a # r \<Rightarrow>
        if in_range 0 127 a then Some 1
        else (case r of
            [] \<Rightarrow> None
          | b # r2 \<Rightarrow>
              if in_range 194 223 a then (if continuation b then Some 2 else None)
              else (case r2 of
                  [] \<Rightarrow> None
                | c # r3 \<Rightarrow>
                    if in_range 224 239 a then
                      (if in_range (if of_char a = (224 :: nat) then 160 else 128) (if of_char a = (237 :: nat) then 159 else 191) b
                          \<and> continuation c then Some 3 else None)
                    else (case r3 of
                        [] \<Rightarrow> None
                      | d # _ \<Rightarrow>
                          if in_range 240 244 a
                             \<and> in_range (if of_char a = (240 :: nat) then 144 else 128) (if of_char a = (244 :: nat) then 143 else 191) b
                             \<and> continuation c \<and> continuation d then Some 4 else None))))"

lemma utf8_width_pos: "utf8_width s = Some n \<Longrightarrow> 0 < n \<and> s \<noteq> []"
  by (auto simp: utf8_width_def split: list.splits if_splits)

function rune_count :: "string \<Rightarrow> nat option" where
  "rune_count s = (if s = [] then Some 0
     else (case utf8_width s of None \<Rightarrow> None | Some n \<Rightarrow> map_option Suc (rune_count (drop n s))))"
  by pat_completeness auto
termination
  by (relation "measure length") (auto dest: utf8_width_pos)

declare rune_count.simps [simp del]

section \<open>Data\<close>

datatype fa_error = FaUnauthorized | FaUnavailable | FaNotFound | FaInvalid | FaLimit

datatype token_status = TokenActive | TokenExpired | TokenRevoked | AccountInvalid | TokenStatusText string

record fa_user =
  fu_ID :: string
  fu_Version :: u64
  fu_Active :: bool

record token_record =
  tr_ID :: string
  tr_Name :: string
  tr_CreatedAt :: time
  tr_ExpiresAt :: "time option"
  tr_Permanent :: bool
  tr_RevokedAt :: "time option"
  tr_Status :: token_status
  tr_Scopes :: "string list"

record stored_token =
  st_Record :: token_record
  st_UserID :: string
  st_Version :: u64
  st_Hash :: string

type_synonym user_lookup = "string \<Rightarrow> fa_error + fa_user"

text \<open>The file as a decoder sees it; the tokens of a service, and what it last wrote.\<close>

datatype token_file = NoTokenFile | TokenFileUnreadable | TokenFileData int "(string, stored_token) gomap option"

record token_service =
  ts_path :: string
  ts_tokens :: "(string, stored_token) gomap"
  ts_file :: token_file

section \<open>Opening\<close>

definition stored_ok :: "int \<Rightarrow> string \<Rightarrow> stored_token \<Rightarrow> bool" where
  "stored_ok schema i r \<longleftrightarrow>
     (let t = st_Record r in
      \<not> (i = [] \<or> i \<noteq> tr_ID t \<or> st_UserID r = [] \<or> st_Version r = 0 \<or> \<not> hex_32_bytes (st_Hash r)
         \<or> is_zero_time (tr_CreatedAt t) \<or> (tr_Permanent t \<and> (schema \<noteq> 2 \<or> tr_ExpiresAt t \<noteq> None))
         \<or> (\<not> tr_Permanent t \<and> (case tr_ExpiresAt t of None \<Rightarrow> True | Some e \<Rightarrow> \<not> e > tr_CreatedAt t))))"

definition fa_Open :: "string \<Rightarrow> token_file \<Rightarrow> fa_error + token_service" where
  "fa_Open path f =
     (if path = [] then Inr \<lparr>ts_path = path, ts_tokens = [], ts_file = f\<rparr>
      else (case f of
          NoTokenFile \<Rightarrow> Inr \<lparr>ts_path = path, ts_tokens = [], ts_file = f\<rparr>
        | TokenFileUnreadable \<Rightarrow> Inl FaUnavailable
        | TokenFileData schema None \<Rightarrow> Inl FaUnavailable
        | TokenFileData schema (Some ts) \<Rightarrow>
            if schema \<noteq> 1 \<and> schema \<noteq> 2 then Inl FaUnavailable
            else if \<not> list_all (\<lambda>(i, r). stored_ok schema i r) ts then Inl FaUnavailable
            else Inr \<lparr>ts_path = path, ts_tokens = ts, ts_file = f\<rparr>))"

section \<open>Operations\<close>

definition scopes :: "string list" where
  "scopes = [''files.upload'', ''files.list'', ''files.download'', ''files.links.create'']"

definition fa_user_of :: "user_lookup \<Rightarrow> string \<Rightarrow> fa_error + fa_user" where
  "fa_user_of lookup i = (case lookup i of
      Inl e \<Rightarrow> Inl (if e = FaNotFound then FaUnauthorized else FaUnavailable)
    | Inr u \<Rightarrow> if \<not> fu_Active u \<or> fu_ID u \<noteq> i then Inl FaUnauthorized else Inr u)"

text \<open>A token that is not permanent has an end, see \<open>token_types\<close>; the code would panic without one.\<close>

definition past_end :: "time \<Rightarrow> stored_token \<Rightarrow> bool" where
  "past_end now r \<longleftrightarrow> \<not> tr_Permanent (st_Record r)
     \<and> (case tr_ExpiresAt (st_Record r) of None \<Rightarrow> True | Some e \<Rightarrow> \<not> now < e)"

definition token_status_of :: "user_lookup \<Rightarrow> time \<Rightarrow> stored_token \<Rightarrow> fa_error + token_status" where
  "token_status_of lookup now r =
     (if tr_RevokedAt (st_Record r) \<noteq> None then Inr TokenRevoked
      else (case fa_user_of lookup (st_UserID r) of
          Inl e \<Rightarrow> if e = FaUnauthorized then Inr AccountInvalid else Inl e
        | Inr u \<Rightarrow>
            if fu_Version u \<noteq> st_Version r then Inr AccountInvalid
            else if past_end now r then Inr TokenExpired
            else Inr TokenActive))"

definition public_token :: "user_lookup \<Rightarrow> time \<Rightarrow> stored_token \<Rightarrow> fa_error + token_record" where
  "public_token lookup now r = (case token_status_of lookup now r of
      Inl e \<Rightarrow> Inl e
    | Inr st \<Rightarrow> Inr ((st_Record r)\<lparr>tr_Status := st, tr_Scopes := scopes\<rparr>))"

text \<open>The replacement of the file succeeds or fails as a whole; without a path nothing is written.\<close>

definition fa_persist :: "bool \<Rightarrow> token_service \<Rightarrow> token_service \<times> bool" where
  "fa_persist ok s =
     (if ts_path s = [] then (s, True)
      else if ok then (s\<lparr>ts_file := TokenFileData 2 (Some (ts_tokens s))\<rparr>, True) else (s, False))"

text \<open>
  What a creation meets: the accounts before and after the write, the clock, the random bytes and the
  outcome of the writes of the token and of its removal.
\<close>

record create_env =
  cn_Lookup :: user_lookup
  cn_Later :: user_lookup
  cn_Now :: time
  cn_RawBytes :: "string option"
  cn_IDBytes :: "string option"
  cn_PersistOK :: bool
  cn_UndoOK :: bool

fun count_active :: "user_lookup \<Rightarrow> time \<Rightarrow> string \<Rightarrow> stored_token list \<Rightarrow> nat \<Rightarrow> fa_error + nat" where
  "count_active lookup now userID [] n = Inr n"
| "count_active lookup now userID (r # rs) n =
     (if st_UserID r = userID then
        (case token_status_of lookup now r of
           Inl e \<Rightarrow> Inl e
         | Inr st \<Rightarrow> count_active lookup now userID rs (if st = TokenActive then n + 1 else n))
      else count_active lookup now userID rs n)"

definition new_token :: "(string \<Rightarrow> string) \<Rightarrow> time \<Rightarrow> string \<Rightarrow> string \<Rightarrow> string \<Rightarrow> string \<Rightarrow> u64 \<Rightarrow> int \<Rightarrow> stored_token" where
  "new_token sha now i raw name userID version days =
     \<lparr>st_Record = \<lparr>tr_ID = i, tr_Name = name, tr_CreatedAt = now,
        tr_ExpiresAt = (if days \<noteq> -1 then Some (now + days * hours 24) else None), tr_Permanent = (days = -1),
        tr_RevokedAt = None, tr_Status = TokenStatusText [], tr_Scopes = []\<rparr>,
      st_UserID = userID, st_Version = version, st_Hash = sha raw\<rparr>"

definition name_ok :: "string \<Rightarrow> bool" where
  "name_ok name \<longleftrightarrow> (case rune_count name of None \<Rightarrow> False | Some n \<Rightarrow> 1 \<le> n \<and> n \<le> 64)"

definition fa_Create ::
  "(string \<Rightarrow> string) \<Rightarrow> create_env \<Rightarrow> string \<Rightarrow> string \<Rightarrow> int \<Rightarrow> token_service
     \<Rightarrow> token_service \<times> (fa_error + token_record \<times> string)" where
  "fa_Create sha env userID name0 days0 s =
     (let name = trim_space name0; days = (if days0 = 0 then 365 else days0) in
      if \<not> name_ok name \<or> (days \<noteq> -1 \<and> days \<noteq> 30 \<and> days \<noteq> 90 \<and> days \<noteq> 365) then (s, Inl FaInvalid)
      else (case fa_user_of (cn_Lookup env) userID of
          Inl e \<Rightarrow> (s, Inl e)
        | Inr u \<Rightarrow>
            (case count_active (cn_Lookup env) (cn_Now env) userID (gvals (ts_tokens s)) 0 of
               Inl e \<Rightarrow> (s, Inl e)
             | Inr n \<Rightarrow>
                 if n \<ge> 20 then (s, Inl FaLimit)
                 else (case (cn_RawBytes env, cn_IDBytes env) of
                     (Some rb, Some ib) \<Rightarrow>
                       (let raw = ''agt_file_'' @ url_encode rb; i = ''ft_'' @ url_encode ib;
                            r = new_token sha (cn_Now env) i raw name userID (fu_Version u) days;
                            (s1, saved) = fa_persist (cn_PersistOK env) (s\<lparr>ts_tokens := gput i r (ts_tokens s)\<rparr>) in
                        if \<not> saved then (s1\<lparr>ts_tokens := gdel i (ts_tokens s1)\<rparr>, Inl FaUnavailable)
                        else
                          (let current = fa_user_of (cn_Later env) userID in
                           if (case current of Inl _ \<Rightarrow> True | Inr v \<Rightarrow> fu_Version v \<noteq> fu_Version u) then
                             (let (s2, undone) = fa_persist (cn_UndoOK env) (s1\<lparr>ts_tokens := gdel i (ts_tokens s1)\<rparr>) in
                              (s2, Inl (if \<not> undone then FaUnavailable
                                        else (case current of Inl e \<Rightarrow> e | Inr _ \<Rightarrow> FaUnauthorized))))
                           else (s1, Inr ((st_Record r)\<lparr>tr_Status := TokenActive, tr_Scopes := scopes\<rparr>, raw))))
                   | _ \<Rightarrow> (s, Inl FaUnavailable)))))"

definition token_before :: "token_record \<Rightarrow> token_record \<Rightarrow> bool" where
  "token_before x y \<longleftrightarrow> (if tr_CreatedAt x = tr_CreatedAt y then tr_ID x > tr_ID y else tr_CreatedAt x > tr_CreatedAt y)"

fun public_tokens :: "user_lookup \<Rightarrow> time \<Rightarrow> string \<Rightarrow> stored_token list \<Rightarrow> fa_error + token_record list" where
  "public_tokens lookup now userID [] = Inr []"
| "public_tokens lookup now userID (r # rs) =
     (if st_UserID r = userID then
        (case public_token lookup now r of
           Inl e \<Rightarrow> Inl e
         | Inr p \<Rightarrow> (case public_tokens lookup now userID rs of Inl e \<Rightarrow> Inl e | Inr ps \<Rightarrow> Inr (p # ps)))
      else public_tokens lookup now userID rs)"

definition fa_List :: "user_lookup \<Rightarrow> time \<Rightarrow> string \<Rightarrow> token_service \<Rightarrow> fa_error + token_record list" where
  "fa_List lookup now userID s = (case public_tokens lookup now userID (gvals (ts_tokens s)) of
      Inl e \<Rightarrow> Inl e | Inr ps \<Rightarrow> Inr (go_sort token_before ps))"

definition fa_Revoke :: "bool \<Rightarrow> time \<Rightarrow> string \<Rightarrow> string \<Rightarrow> token_service \<Rightarrow> token_service \<times> fa_error option" where
  "fa_Revoke ok now userID i s = (case gget (ts_tokens s) i of
      None \<Rightarrow> (s, Some FaNotFound)
    | Some r \<Rightarrow>
        if st_UserID r \<noteq> userID then (s, Some FaNotFound)
        else if tr_RevokedAt (st_Record r) \<noteq> None then (s, None)
        else
          (let r1 = r\<lparr>st_Record := (st_Record r)\<lparr>tr_RevokedAt := Some now\<rparr>\<rparr>;
               (s1, saved) = fa_persist ok (s\<lparr>ts_tokens := gput i r1 (ts_tokens s)\<rparr>) in
           if saved then (s1, None) else (s1\<lparr>ts_tokens := gput i r (ts_tokens s1)\<rparr>, Some FaUnavailable)))"

definition raw_ok :: "string \<Rightarrow> bool" where
  "raw_ok raw \<longleftrightarrow> has_prefix raw ''agt_file_'' \<and> length raw = 52
     \<and> (case url_decode (trim_prefix raw ''agt_file_'') of None \<Rightarrow> False | Some b \<Rightarrow> length b = 32)"

definition fa_validate ::
  "(string \<Rightarrow> string) \<Rightarrow> user_lookup \<Rightarrow> time \<Rightarrow> string \<Rightarrow> token_service \<Rightarrow> fa_error + fa_user" where
  "fa_validate sha lookup now raw s =
     (if \<not> raw_ok raw then Inl FaUnauthorized
      else (case find (\<lambda>r. st_Hash r = sha raw) (gvals (ts_tokens s)) of
          None \<Rightarrow> Inl FaUnauthorized
        | Some r \<Rightarrow>
            (case fa_user_of lookup (st_UserID r) of
               Inl e \<Rightarrow> Inl e
             | Inr u \<Rightarrow>
                 if tr_RevokedAt (st_Record r) \<noteq> None \<or> fu_Version u \<noteq> st_Version r \<or> past_end now r
                 then Inl FaUnauthorized else Inr u)))"

text \<open>The commit runs while the tokens are locked; a missing one is an error.\<close>

definition fa_Guard ::
  "(string \<Rightarrow> string) \<Rightarrow> user_lookup \<Rightarrow> time \<Rightarrow> string \<Rightarrow> token_service \<Rightarrow> ('s \<Rightarrow> 's \<times> 'e option) option
     \<Rightarrow> 's \<Rightarrow> 's \<times> (fa_error + 'e option)" where
  "fa_Guard sha lookup now raw s commit x = (case fa_validate sha lookup now raw s of
      Inl e \<Rightarrow> (x, Inl e)
    | Inr _ \<Rightarrow> (case commit of None \<Rightarrow> (x, Inl FaUnavailable) | Some f \<Rightarrow> (let (x1, e) = f x in (x1, Inr e))))"

end
