(* ===== verification/FileShare.thy ===== *)
theory FileShare
  imports Prelude
begin

text \<open>
  The store of shared files, \<open>internal/fileshare/service.go\<close>: uploads within a quota, files that
  expire, download links and their recovery after a restart. SHA-256 as a hexadecimal text
  (\<open>sha\<close>), the clock, the random identifiers and the outcome of every file operation are arguments. The sums
  of sizes wrap around at 64 bits (\<open>add64\<close>). An upload is a sequence of steps - its beginning, one step
  for each chunk, its end - between which other calls may come.
\<close>

section \<open>Data\<close>

definition wrap_int64 :: "int \<Rightarrow> int" where
  "wrap_int64 n = sint (word_of_int n :: 64 word)"

definition add64 :: "int \<Rightarrow> int \<Rightarrow> int" where
  "add64 a b = wrap_int64 (a + b)"

definition sub64 :: "int \<Rightarrow> int \<Rightarrow> int" where
  "sub64 a b = wrap_int64 (a - b)"

lemma wrap_int64_id: "- (2 ^ 63) \<le> n \<Longrightarrow> n < 2 ^ 63 \<Longrightarrow> wrap_int64 n = n"
  by (simp add: wrap_int64_def signed_take_bit_int_eq_self sint_sbintrunc' flip: signed_take_bit_eq)

definition DefaultQuotaBytes :: int where "DefaultQuotaBytes = 20 * 1024 * 1024 * 1024"
definition DefaultRetentionDays :: int where "DefaultRetentionDays = 7"
definition DiskSafetyBytes :: int where "DiskSafetyBytes = 512 * 1024 * 1024"

datatype share_error = ErrShareNotFound | ErrGone | ErrShareConflict | ErrInvalidName | ErrInvalidSettings
  | ErrInvalidDuration | ErrInsufficientStorage | ErrShareIO

datatype file_status = FileUploading | FileReady | FileDeleting | FileDeleteFailed | FileStatusText string

record FileRecord =
  fr_ID :: string
  fr_Name :: string
  fr_Size :: int
  fr_SHA256 :: string
  fr_ContentType :: string
  fr_UploadedBy :: string
  fr_Status :: file_status
  fr_CreatedAt :: time
  fr_ExpiresAt :: time
  fr_Revision :: u64
  fr_DeleteError :: string

record share_settings =
  se_RetentionDays :: int
  se_Revision :: u64

record DownloadLink =
  dl_ID :: string
  dl_FileID :: string
  dl_TokenHash :: string
  dl_CreatedBy :: string
  dl_CreatedAt :: time
  dl_ExpiresAt :: time
  dl_RevokedAt :: "time option"

record share_state =
  ss_Settings :: share_settings
  ss_Files :: "(string, FileRecord) gomap"
  ss_Links :: "(string, DownloadLink) gomap"

text \<open>
  The directory: the metadata file, the objects by the identifier of their file, and the partial files.
  A metadata file that lacks the maps is one with empty maps.
\<close>

datatype meta_file = NoMeta | MetaUnreadable | MetaCorrupt | MetaData share_state

record share_disk =
  sk_meta :: meta_file
  sk_objects :: "(string, string) gomap"
  sk_partials :: "(string, string) gomap"

record share_service =
  fs_quota :: int
  fs_used :: int
  fs_reserved :: int
  fs_state :: share_state
  fs_disk :: share_disk

definition persist_share :: "bool \<Rightarrow> share_service \<Rightarrow> share_service \<times> bool" where
  "persist_share ok s =
     (if ok then (s\<lparr>fs_disk := (fs_disk s)\<lparr>sk_meta := MetaData (fs_state s)\<rparr>\<rparr>, True) else (s, False))"

abbreviation files_of :: "share_service \<Rightarrow> (string, FileRecord) gomap" where
  "files_of s \<equiv> ss_Files (fs_state s)"

abbreviation links_of :: "share_service \<Rightarrow> (string, DownloadLink) gomap" where
  "links_of s \<equiv> ss_Links (fs_state s)"

definition set_files :: "(string, FileRecord) gomap \<Rightarrow> share_service \<Rightarrow> share_service" where
  "set_files m s = s\<lparr>fs_state := (fs_state s)\<lparr>ss_Files := m\<rparr>\<rparr>"

definition set_links :: "(string, DownloadLink) gomap \<Rightarrow> share_service \<Rightarrow> share_service" where
  "set_links m s = s\<lparr>fs_state := (fs_state s)\<lparr>ss_Links := m\<rparr>\<rparr>"

definition set_object :: "string \<Rightarrow> string option \<Rightarrow> share_service \<Rightarrow> share_service" where
  "set_object i c s = s\<lparr>fs_disk := (fs_disk s)\<lparr>sk_objects := (case c of
      None \<Rightarrow> gdel i (sk_objects (fs_disk s)) | Some b \<Rightarrow> gput i b (sk_objects (fs_disk s)))\<rparr>\<rparr>"

definition set_partial :: "string \<Rightarrow> string option \<Rightarrow> share_service \<Rightarrow> share_service" where
  "set_partial i c s = s\<lparr>fs_disk := (fs_disk s)\<lparr>sk_partials := (case c of
      None \<Rightarrow> gdel i (sk_partials (fs_disk s)) | Some b \<Rightarrow> gput i b (sk_partials (fs_disk s)))\<rparr>\<rparr>"

section \<open>Opening and recovery\<close>

definition load_share :: "bool \<Rightarrow> share_service \<Rightarrow> share_service \<times> share_error option" where
  "load_share ok s = (case sk_meta (fs_disk s) of
      NoMeta \<Rightarrow> (let (s1, saved) = persist_share ok s in (s1, if saved then None else Some ErrShareIO))
    | MetaUnreadable \<Rightarrow> (s, Some ErrShareIO)
    | MetaCorrupt \<Rightarrow> (s, Some ErrShareIO)
    | MetaData st \<Rightarrow>
        (s\<lparr>fs_state := st\<rparr>,
         if se_RetentionDays (ss_Settings st) < 1 \<or> se_RetentionDays (ss_Settings st) > 365
         then Some ErrInvalidSettings else None))"

text \<open>
  One record of the recovery. \<open>stat i\<close> tells whether the object of \<open>i\<close> could be examined: the code
  treats an object it cannot examine like one that is not there.
\<close>

definition recover_file ::
  "(string \<Rightarrow> bool) \<Rightarrow> string \<times> FileRecord \<Rightarrow> share_service \<times> int \<times> bool \<Rightarrow> share_service \<times> int \<times> bool" where
  "recover_file stat e st =
     (let (i, rec) = e; (s, used, changed) = st in
      (case (if stat i then gget (sk_objects (fs_disk s)) i else None) of
         None \<Rightarrow>
           (set_links (gdel_if (\<lambda>_ l. dl_FileID l = i) (links_of s)) (set_files (gdel i (files_of s)) s), used, True)
       | Some content \<Rightarrow>
           (let n = int (length content) in
            (set_files (gput i (rec\<lparr>fr_Size := n, fr_Status := FileReady\<rparr>) (files_of s)) s, add64 used n, changed))))"

definition recover_share :: "(string \<Rightarrow> bool) \<Rightarrow> bool \<Rightarrow> share_service \<Rightarrow> share_service \<times> share_error option" where
  "recover_share stat ok s0 =
     (let s = s0\<lparr>fs_disk := (fs_disk s0)\<lparr>sk_partials := []\<rparr>\<rparr>;
          (s1, used, changed) = fold (recover_file stat) (files_of s) (s, 0, False);
          s2 = s1\<lparr>fs_disk := (fs_disk s1)\<lparr>sk_objects :=
                 gdel_if (\<lambda>i _. gget (files_of s1) i = None) (sk_objects (fs_disk s1))\<rparr>,
               fs_used := used\<rparr> in
      if changed then (let (s3, saved) = persist_share ok s2 in (s3, if saved then None else Some ErrShareIO))
      else (s2, None))"

text \<open>The directories are there and can be read; \<open>load_ok\<close> and \<open>recover_ok\<close> are the outcomes of the writes.\<close>

definition share_Open ::
  "(string \<Rightarrow> bool) \<Rightarrow> bool \<Rightarrow> bool \<Rightarrow> int \<Rightarrow> share_disk \<Rightarrow> share_error + share_service" where
  "share_Open stat load_ok recover_ok quota disk =
     (let q = (if quota \<le> 0 then DefaultQuotaBytes else quota);
          s = \<lparr>fs_quota = q, fs_used = 0, fs_reserved = 0,
               fs_state = \<lparr>ss_Settings = \<lparr>se_RetentionDays = DefaultRetentionDays, se_Revision = 1\<rparr>,
                 ss_Files = [], ss_Links = []\<rparr>,
               fs_disk = disk\<rparr>;
          (s1, e1) = load_share load_ok s in
      (case e1 of
         Some e \<Rightarrow> Inl e
       | None \<Rightarrow> (let (s2, e2) = recover_share stat recover_ok s1 in
                  (case e2 of Some e \<Rightarrow> Inl e | None \<Rightarrow> Inr s2))))"

section \<open>Uploads\<close>

text \<open>
  \<open>validName\<close>: no path separators and no control characters. Besides the control bytes, those are
  the runes written as the byte C2 and one of 80 to 9F.
\<close>

fun has_c1_control :: "string \<Rightarrow> bool" where
  "has_c1_control (a # b # r) \<longleftrightarrow>
     (of_char a = (0xC2 :: nat) \<and> 0x80 \<le> (of_char b :: nat) \<and> (of_char b :: nat) \<le> 0x9F) \<or> has_c1_control (b # r)"
| "has_c1_control _ \<longleftrightarrow> False"

definition validName :: "string \<Rightarrow> bool" where
  "validName name \<longleftrightarrow>
     \<not> (name = [] \<or> name = ''.'' \<or> name = ''..'' \<or> length name > 255
        \<or> list_ex (\<lambda>c. c = CHR ''/'' \<or> c = CHR 0x5C) name)
     \<and> list_all (\<lambda>c. \<not> ((of_char c :: nat) < 0x20 \<or> of_char c = (0x7F :: nat))) name
     \<and> \<not> has_c1_control name"

text \<open>An upload on its way; \<open>up_Data\<close> is what the source has delivered and the hash has seen.\<close>

record upload =
  up_Name :: string
  up_ContentType :: string
  up_UploadedBy :: string
  up_Expected :: int
  up_Reserve :: int
  up_Dynamic :: int
  up_SinceCheck :: int
  up_Data :: string
  up_FileID :: string
  up_PartialID :: string

text \<open>What a beginning meets: the free space, the two random identifiers, whether the partial file is made.\<close>

record begin_env =
  bn_DiskAvailable :: "int option"
  bn_FileID :: "string option"
  bn_PartialID :: "string option"
  bn_CreateOK :: bool

definition release :: "upload \<Rightarrow> share_service \<Rightarrow> share_service" where
  "release u s = s\<lparr>fs_reserved := sub64 (fs_reserved s) (add64 (up_Reserve u) (up_Dynamic u))\<rparr>"

definition upload_begin ::
  "begin_env \<Rightarrow> string \<Rightarrow> string \<Rightarrow> string \<Rightarrow> int \<Rightarrow> share_service \<Rightarrow> share_service \<times> (share_error + upload)" where
  "upload_begin env name contentType by expected s =
     (if \<not> validName name then (s, Inl ErrInvalidName)
      else if expected < 0 \<or> expected > fs_quota s then (s, Inl ErrInsufficientStorage)
      else if add64 (add64 (fs_used s) (fs_reserved s)) expected > fs_quota s then (s, Inl ErrInsufficientStorage)
      else if expected > 0 \<and> (case bn_DiskAvailable env of None \<Rightarrow> False | Some a \<Rightarrow> a < add64 expected DiskSafetyBytes)
      then (s, Inl ErrInsufficientStorage)
      else
        (let s1 = s\<lparr>fs_reserved := add64 (fs_reserved s) expected\<rparr>;
             u = \<lparr>up_Name = name, up_ContentType = contentType, up_UploadedBy = by, up_Expected = expected,
               up_Reserve = expected, up_Dynamic = 0, up_SinceCheck = 0, up_Data = [], up_FileID = [], up_PartialID = []\<rparr> in
         (case (bn_FileID env, bn_PartialID env) of
            (Some i, Some p) \<Rightarrow>
              if bn_CreateOK env
              then (set_partial p (Some []) s1, Inr (u\<lparr>up_FileID := i, up_PartialID := p\<rparr>))
              else (release u s1, Inl ErrShareIO)
          | _ \<Rightarrow> (release u s1, Inl ErrShareIO))))"

text \<open>A failed upload gives back its reservation and its partial file is removed.\<close>

definition upload_abort :: "upload \<Rightarrow> share_service \<Rightarrow> share_service" where
  "upload_abort u s = release u (set_partial (up_PartialID u) None s)"

text \<open>
  A chunk: \<open>take\<close> of its bytes reach the file. \<open>quota_chunk\<close> is the writer of an upload of unknown
  size, which reserves what it writes and looks at the disk again after sixteen megabytes.
\<close>

definition quota_chunk :: "int option \<Rightarrow> nat \<Rightarrow> string \<Rightarrow> upload \<Rightarrow> share_service \<Rightarrow> share_service \<times> upload \<times> nat \<times> bool" where
  "quota_chunk avail written p u s =
     (let need = int (length p) in
      if add64 (add64 (fs_used s) (fs_reserved s)) need > fs_quota s then (s, u, 0, False)
      else
        (let since = add64 (up_SinceCheck u) need; check = up_Dynamic u = 0 \<or> since \<ge> 16 * 1024 * 1024 in
         if check \<and> (case avail of None \<Rightarrow> False | Some a \<Rightarrow> a < add64 need DiskSafetyBytes)
         then (s, u\<lparr>up_SinceCheck := since\<rparr>, 0, False)
         else
           (let n = min written (length p); unused = int (length p) - int n in
            (s\<lparr>fs_reserved := sub64 (add64 (fs_reserved s) need) unused\<rparr>,
             u\<lparr>up_SinceCheck := (if check then 0 else since),
               up_Dynamic := sub64 (add64 (up_Dynamic u) need) unused\<rparr>,
             n, n = length p))))"

definition upload_chunk :: "int option \<Rightarrow> nat \<Rightarrow> string \<Rightarrow> upload \<Rightarrow> share_service \<Rightarrow> share_service \<times> upload option" where
  "upload_chunk avail written p0 u s =
     (let p = take (nat (add64 (fs_quota s) 1) - length (up_Data u)) p0;
          (s1, u1, n, good) = (if up_Expected u = 0 then quota_chunk avail written p u s
             else (s, u, min written (length p), min written (length p) = length p));
          part = take n p;
          s2 = set_partial (up_PartialID u)
                 (map_option (\<lambda>b. b @ part) (gget (sk_partials (fs_disk s1)) (up_PartialID u))) s1 in
      if p = [] then (s, Some u)
      else if good then (s2, Some (u1\<lparr>up_Data := up_Data u @ p\<rparr>)) else (upload_abort u1 s2, None))"

text \<open>What the end of an upload meets.\<close>

record end_env =
  ee_Now :: time
  ee_SyncOK :: bool
  ee_RenameOK :: bool
  ee_PersistOK :: bool

text \<open>The commit, which a guard may run or not, and which gives the record its end. It returns the error of the rename or of the write.\<close>

definition commit_upload :: "end_env \<Rightarrow> upload \<Rightarrow> FileRecord \<Rightarrow> share_service \<Rightarrow> share_service \<times> share_error option" where
  "commit_upload env u rec0 s =
     (let rec = rec0\<lparr>fr_ExpiresAt := ee_Now env + se_RetentionDays (ss_Settings (fs_state s)) * hours 24\<rparr>;
          i = up_FileID u in
      if \<not> ee_RenameOK env then (s, Some ErrShareIO)
      else (case gget (sk_partials (fs_disk s)) (up_PartialID u) of
          None \<Rightarrow> (s, Some ErrShareIO)
        | Some content \<Rightarrow>
            (let s1 = set_object i (Some content) (set_partial (up_PartialID u) None s);
                 s2 = (set_files (gput i rec (files_of s1)) s1)\<lparr>fs_used := add64 (fs_used s1) (fr_Size rec)\<rparr>;
                 (s3, saved) = persist_share (ee_PersistOK env) s2 in
             if saved then (s3, None)
             else (set_object i None ((set_files (gdel i (files_of s3)) s3)\<lparr>fs_used := sub64 (fs_used s3) (fr_Size rec)\<rparr>),
                   Some ErrShareIO))))"

type_synonym commit_guard =
  "(share_service \<Rightarrow> share_service \<times> share_error option) \<Rightarrow> share_service \<Rightarrow> share_service \<times> share_error option"

definition upload_end ::
  "(string \<Rightarrow> string) \<Rightarrow> end_env \<Rightarrow> commit_guard option \<Rightarrow> upload \<Rightarrow> share_service
     \<Rightarrow> share_service \<times> (share_error + FileRecord)" where
  "upload_end sha env guard u s =
     (let written = int (length (up_Data u)) in
      if written > fs_quota s \<or> (up_Expected u > 0 \<and> written \<noteq> up_Expected u)
      then (upload_abort u s, Inl ErrInsufficientStorage)
      else if \<not> ee_SyncOK env then (upload_abort u s, Inl ErrShareIO)
      else
        (let rec = \<lparr>fr_ID = up_FileID u, fr_Name = up_Name u, fr_Size = written, fr_SHA256 = sha (up_Data u),
               fr_ContentType = up_ContentType u, fr_UploadedBy = up_UploadedBy u, fr_Status = FileReady,
               fr_CreatedAt = ee_Now env, fr_ExpiresAt = 0, fr_Revision = 1, fr_DeleteError = []\<rparr>;
             s1 = release u s; gone = set_partial (up_PartialID u) None in
         if add64 (fs_used s1) written > fs_quota s1 then (gone s1, Inl ErrInsufficientStorage)
         else
           (let commit = commit_upload env u rec;
                (s2, e) = (case guard of None \<Rightarrow> commit s1 | Some g \<Rightarrow> g commit s1) in
            (case e of
               Some err \<Rightarrow> (gone s2, Inl err)
             | None \<Rightarrow> (gone s2, Inr (case gget (files_of s2) (up_FileID u) of None \<Rightarrow> rec | Some r \<Rightarrow> r))))))"

section \<open>Files\<close>

definition share_List :: "share_service \<Rightarrow> FileRecord list \<times> int \<times> int \<times> int" where
  "share_List s =
     (go_sort (\<lambda>x y. fr_CreatedAt x > fr_CreatedAt y) (filter (\<lambda>f. fr_Status f = FileReady) (gvals (files_of s))),
      fs_quota s, fs_used s, fs_reserved s)"

definition OpenFile :: "bool \<Rightarrow> time \<Rightarrow> string \<Rightarrow> share_service \<Rightarrow> share_error + string \<times> FileRecord" where
  "OpenFile can_open now i s = (case gget (files_of s) i of
      None \<Rightarrow> Inl ErrShareNotFound
    | Some rec \<Rightarrow>
        if fr_Status rec \<noteq> FileReady then Inl ErrShareNotFound
        else if \<not> now < fr_ExpiresAt rec then Inl ErrGone
        else (case (if can_open then gget (sk_objects (fs_disk s)) i else None) of
            None \<Rightarrow> Inl ErrShareNotFound | Some content \<Rightarrow> Inr (content, rec)))"

text \<open>\<open>removed\<close> is the error of the removal of the object, other than that there is none.\<close>

definition share_Delete :: "string option \<Rightarrow> bool \<Rightarrow> string \<Rightarrow> share_service \<Rightarrow> share_service \<times> share_error option" where
  "share_Delete removed ok i s = (case gget (files_of s) i of
      None \<Rightarrow> (s, None)
    | Some rec0 \<Rightarrow>
        (let rec = rec0\<lparr>fr_Status := FileDeleting, fr_Revision := fr_Revision rec0 + 1\<rparr>;
             s1 = set_links (gdel_if (\<lambda>_ l. dl_FileID l = i) (links_of s)) (set_files (gput i rec (files_of s)) s) in
         (case removed of
            Some msg \<Rightarrow>
              (fst (persist_share ok (set_files (gput i (rec\<lparr>fr_Status := FileDeleteFailed, fr_DeleteError := msg,
                 fr_Revision := fr_Revision rec + 1\<rparr>) (files_of s1)) s1)), Some ErrShareIO)
          | None \<Rightarrow>
              (let s2 = set_object i None (set_files (gdel i (files_of s1)) s1);
                   used = sub64 (fs_used s2) (fr_Size rec);
                   (s3, saved) = persist_share ok (s2\<lparr>fs_used := (if used < 0 then 0 else used)\<rparr>) in
               (s3, if saved then None else Some ErrShareIO)))))"

definition UpdateSettings :: "bool \<Rightarrow> share_settings \<Rightarrow> share_service \<Rightarrow> share_service \<times> (share_error + share_settings)" where
  "UpdateSettings ok nxt s =
     (if se_RetentionDays nxt < 1 \<or> se_RetentionDays nxt > 365 then (s, Inl ErrInvalidSettings)
      else
        (let previous = ss_Settings (fs_state s) in
         if se_Revision nxt \<noteq> se_Revision previous then (s, Inl ErrShareConflict)
         else
           (let nxt1 = nxt\<lparr>se_Revision := se_Revision nxt + 1\<rparr>;
                (s1, saved) = persist_share ok (s\<lparr>fs_state := (fs_state s)\<lparr>ss_Settings := nxt1\<rparr>\<rparr>) in
            if saved then (s1, Inr nxt1)
            else (s1\<lparr>fs_state := (fs_state s1)\<lparr>ss_Settings := previous\<rparr>\<rparr>, Inl ErrShareIO))))"

definition CleanupExpired ::
  "(string \<Rightarrow> string option) \<Rightarrow> (string \<Rightarrow> bool) \<Rightarrow> time \<Rightarrow> share_service \<Rightarrow> share_service \<times> share_error list" where
  "CleanupExpired removed ok now s =
     fold (\<lambda>i (s, errs). let (s1, e) = share_Delete (removed i) (ok i) i s in
             (s1, errs @ (case e of None \<Rightarrow> [] | Some x \<Rightarrow> [x])))
       (map fst (filter (\<lambda>(i, rec). \<not> now < fr_ExpiresAt rec \<or> fr_Status rec = FileDeleteFailed) (files_of s))) (s, [])"

section \<open>Links\<close>

definition tokenDigest :: "(string \<Rightarrow> string) \<Rightarrow> string \<Rightarrow> string \<Rightarrow> string" where
  "tokenDigest sha fileID token =
     sha (''homeagent-fileshare-link-v1'' @ [CHR 0x00] @ fileID @ [CHR 0x00] @ token)"

definition publicLink :: "DownloadLink \<Rightarrow> DownloadLink" where
  "publicLink l = l\<lparr>dl_TokenHash := []\<rparr>"

definition allowed_durations :: "duration list" where
  "allowed_durations = [minutes 10, hours 1, hours 24, hours 168]"

record link_env =
  lv_Now :: time
  lv_Token :: "string option"
  lv_LinkID :: "string option"
  lv_PersistOK :: bool

definition commit_link :: "bool \<Rightarrow> DownloadLink \<Rightarrow> share_service \<Rightarrow> share_service \<times> share_error option" where
  "commit_link ok l s =
     (let (s1, saved) = persist_share ok (set_links (gput (dl_ID l) l (links_of s)) s) in
      if saved then (s1, None) else (set_links (gdel (dl_ID l) (links_of s1)) s1, Some ErrShareIO))"

definition CreateLinkWithCommitGuard ::
  "(string \<Rightarrow> string) \<Rightarrow> link_env \<Rightarrow> commit_guard option \<Rightarrow> string \<Rightarrow> string \<Rightarrow> duration \<Rightarrow> share_service
     \<Rightarrow> share_service \<times> (share_error + DownloadLink \<times> string)" where
  "CreateLinkWithCommitGuard sha env guard fileID createdBy d s =
     (if d \<notin> set allowed_durations then (s, Inl ErrInvalidDuration)
      else (case gget (files_of s) fileID of
          None \<Rightarrow> (s, Inl ErrShareNotFound)
        | Some rec \<Rightarrow>
            if fr_Status rec \<noteq> FileReady then (s, Inl ErrShareNotFound)
            else if \<not> lv_Now env < fr_ExpiresAt rec then (s, Inl ErrGone)
            else (case (lv_Token env, lv_LinkID env) of
                (Some token, Some i) \<Rightarrow>
                  (let expires = lv_Now env + d;
                       l = \<lparr>dl_ID = i, dl_FileID = fileID, dl_TokenHash = tokenDigest sha fileID token,
                            dl_CreatedBy = createdBy, dl_CreatedAt = lv_Now env,
                            dl_ExpiresAt = (if fr_ExpiresAt rec < expires then fr_ExpiresAt rec else expires),
                            dl_RevokedAt = None\<rparr>;
                       commit = commit_link (lv_PersistOK env) l;
                       (s1, e) = (case guard of None \<Rightarrow> commit s | Some g \<Rightarrow> g commit s) in
                   (s1, case e of None \<Rightarrow> Inr (publicLink l, token) | Some err \<Rightarrow> Inl err))
              | _ \<Rightarrow> (s, Inl ErrShareIO))))"

definition ListLinks :: "string \<Rightarrow> share_service \<Rightarrow> share_error + DownloadLink list" where
  "ListLinks fileID s =
     (if gget (files_of s) fileID = None then Inl ErrShareNotFound
      else Inr (go_sort (\<lambda>x y. dl_CreatedAt x > dl_CreatedAt y)
             (map publicLink (filter (\<lambda>l. dl_FileID l = fileID) (gvals (links_of s))))))"

definition RevokeLink :: "bool \<Rightarrow> time \<Rightarrow> string \<Rightarrow> string \<Rightarrow> share_service \<Rightarrow> share_service \<times> share_error option" where
  "RevokeLink ok now fileID linkID s = (case gget (links_of s) linkID of
      None \<Rightarrow> (s, Some ErrShareNotFound)
    | Some l \<Rightarrow>
        if dl_FileID l \<noteq> fileID then (s, Some ErrShareNotFound)
        else
          (let s1 = (if dl_RevokedAt l = None
                     then set_links (gput linkID (l\<lparr>dl_RevokedAt := Some now\<rparr>) (links_of s)) s else s);
               (s2, saved) = persist_share ok s1 in
           (s2, if saved then None else Some ErrShareIO)))"

definition OpenPublicFile ::
  "(string \<Rightarrow> string) \<Rightarrow> bool \<Rightarrow> time \<Rightarrow> string \<Rightarrow> string \<Rightarrow> share_service \<Rightarrow> share_error + string \<times> FileRecord" where
  "OpenPublicFile sha can_open now fileID token s = (case gget (files_of s) fileID of
      None \<Rightarrow> Inl ErrShareNotFound
    | Some rec \<Rightarrow>
        if fr_Status rec \<noteq> FileReady then Inl ErrShareNotFound
        else (case find (\<lambda>l. dl_FileID l = fileID \<and> dl_TokenHash l = tokenDigest sha fileID token) (gvals (links_of s)) of
            None \<Rightarrow> Inl ErrShareNotFound
          | Some l \<Rightarrow>
              if dl_RevokedAt l \<noteq> None \<or> \<not> now < dl_ExpiresAt l \<or> \<not> now < fr_ExpiresAt rec then Inl ErrGone
              else (case (if can_open then gget (sk_objects (fs_disk s)) fileID else None) of
                  None \<Rightarrow> Inl ErrShareNotFound | Some content \<Rightarrow> Inr (content, rec))))"

end
