(* ===== verification/FileShareProps.thy ===== *)
theory FileShareProps
  imports FileShare FileAccess
begin

text \<open>
  The store of shared files over any sequence of calls, with uploads interleaved and the server
  restarted: what is used and reserved never exceeds the quota, and what is downloaded is what was
  uploaded.
\<close>

section \<open>Sums over a map\<close>

definition gsum :: "('v \<Rightarrow> int) \<Rightarrow> ('k, 'v) gomap \<Rightarrow> int" where
  "gsum f m = sum_list (map f (gvals m))"

lemma gsum_Nil [simp]: "gsum f [] = 0"
  by (simp add: gsum_def)

lemma gsum_keys: "wf_map m \<Longrightarrow> gsum f m = (\<Sum>k \<in> set (gkeys m). f (the (gget m k)))"
proof (induction m)
  case (Cons e m)
  obtain k v where e: "e = (k, v)" by fastforce
  from Cons.prems e have k: "k \<notin> set (gkeys m)" and m: "wf_map m" by (auto simp: wf_map_def)
  have "(\<Sum>x \<in> set (gkeys m). f (the (gget ((k, v) # m) x))) = (\<Sum>x \<in> set (gkeys m). f (the (gget m x)))"
    by (rule sum.cong) (use k in auto)
  with Cons.IH [OF m] e k show ?case by (simp add: gsum_def)
qed simp

lemma gkeys_gput: "set (gkeys (gput k v m)) = insert k (set (gkeys m))"
  by (simp add: dom_map_of_conv_image_fst [symmetric])

lemma gkeys_gdel: "set (gkeys (gdel k m)) = set (gkeys m) - {k}"
  by (auto simp: dom_map_of_conv_image_fst [symmetric])

lemma in_gkeys: "k \<in> set (gkeys m) \<longleftrightarrow> gget m k \<noteq> None"
  by (metis domIff dom_map_of_conv_image_fst set_map)

lemma gsum_gdel:
  assumes "wf_map m"
  shows "gsum f (gdel k m) = gsum f m - (case gget m k of None \<Rightarrow> 0 | Some v \<Rightarrow> f v)"
proof -
  have "gsum f (gdel k m) = (\<Sum>x \<in> set (gkeys m) - {k}. f (the (gget (gdel k m) x)))"
    using gsum_keys [OF wf_gdel [OF assms]] by (simp only: gkeys_gdel)
  also have "\<dots> = (\<Sum>x \<in> set (gkeys m) - {k}. f (the (gget m x)))"
    by (rule sum.cong) auto
  also have "\<dots> = gsum f m - (if k \<in> set (gkeys m) then f (the (gget m k)) else 0)"
    unfolding gsum_keys [OF assms] by (simp add: sum_diff1)
  finally show ?thesis unfolding in_gkeys by (auto split: option.split)
qed

lemma gsum_gput:
  assumes "wf_map m"
  shows "gsum f (gput k v m) = gsum f m - (case gget m k of None \<Rightarrow> 0 | Some w \<Rightarrow> f w) + f v"
proof -
  have "gsum f (gput k v m) = (\<Sum>x \<in> insert k (set (gkeys m) - {k}). f (the (gget (gput k v m) x)))"
    using gsum_keys [OF wf_gput [OF assms]] by (simp only: gkeys_gput insert_Diff_single)
  also have "\<dots> = f v + (\<Sum>x \<in> set (gkeys m) - {k}. f (the (gget (gdel k m) x)))"
    by (subst sum.insert) (auto intro: sum.cong)
  also have "\<dots> = f v + gsum f (gdel k m)"
    using gsum_keys [OF wf_gdel [OF assms]] by (simp only: gkeys_gdel)
  finally show ?thesis using gsum_gdel [OF assms] by simp
qed

lemma gsum_mono:
  assumes "wf_map m" "wf_map m'" and "\<And>k v. gget m k = Some v \<Longrightarrow> 0 \<le> f v"
    and "\<And>k v'. gget m' k = Some v' \<Longrightarrow> \<exists>v. gget m k = Some v \<and> f v = f' v'"
  shows "gsum f' m' \<le> gsum f m"
proof -
  have sub: "set (gkeys m') \<subseteq> set (gkeys m)"
  proof
    fix k assume "k \<in> set (gkeys m')"
    then obtain v' where "gget m' k = Some v'" unfolding in_gkeys by blast
    then show "k \<in> set (gkeys m)" using assms(4) unfolding in_gkeys by blast
  qed
  have "gsum f' m' = (\<Sum>k \<in> set (gkeys m'). f (the (gget m k)))"
    unfolding gsum_keys [OF assms(2)]
  proof (rule sum.cong)
    fix k assume "k \<in> set (gkeys m')"
    then obtain v' where "gget m' k = Some v'" unfolding in_gkeys by blast
    with assms(4) show "f' (the (gget m' k)) = f (the (gget m k))" by fastforce
  qed simp
  also have "\<dots> \<le> gsum f m"
    unfolding gsum_keys [OF assms(1)]
  proof (rule sum_mono2)
    fix k assume "k \<in> set (gkeys m) - set (gkeys m')"
    then obtain v where "gget m k = Some v" using in_gkeys [of k m] by blast
    with assms(3) show "0 \<le> f (the (gget m k))" by simp
  qed (use sub in simp_all)
  finally show ?thesis .
qed

lemma gsum_nonneg: "wf_map m \<Longrightarrow> (\<And>k v. gget m k = Some v \<Longrightarrow> 0 \<le> f v) \<Longrightarrow> 0 \<le> gsum f m"
  using gsum_mono [of m "[]" f f] by simp

lemma gsum_member:
  assumes "wf_map m" "gget m k = Some v" and "\<And>k v. gget m k = Some v \<Longrightarrow> 0 \<le> f v"
  shows "f v \<le> gsum f m"
proof -
  have "gsum f [(k, v)] \<le> gsum f m"
    by (rule gsum_mono) (use assms in \<open>auto simp: wf_map_def split: if_splits\<close>)
  then show ?thesis by (simp add: gsum_def)
qed

section \<open>Numbers of 64 bits\<close>

lemma wrap_wrap: "wrap_int64 (wrap_int64 a + b) = wrap_int64 (a + b)"
  by (simp add: wrap_int64_def)

lemma add64_id [simp]: "- (2 ^ 63) \<le> a + b \<Longrightarrow> a + b < 2 ^ 63 \<Longrightarrow> add64 a b = a + b"
  by (simp add: add64_def wrap_int64_id)

lemma sub64_id [simp]: "- (2 ^ 63) \<le> a - b \<Longrightarrow> a - b < 2 ^ 63 \<Longrightarrow> sub64 a b = a - b"
  by (simp add: sub64_def wrap_int64_id)

section \<open>The system\<close>

text \<open>The service and the uploads on their way, and what may happen to them.\<close>

type_synonym share_system = "share_service \<times> (nat, upload) gomap"

datatype share_op =
  UploadBegins nat begin_env string string string int
| UploadReads nat "int option" nat string
| UploadFails nat
| UploadEnds nat end_env "share_error option"
| FileDeleted "string option" bool string
| SettingsUpdated bool share_settings
| LinkCreated link_env "share_error option" string string duration
| LinkRevoked bool time string string
| FilesCleaned "string \<Rightarrow> string option" "string \<Rightarrow> bool" time
| ServerRestarted "string \<Rightarrow> bool" bool bool

definition guard_of :: "share_error option \<Rightarrow> commit_guard" where
  "guard_of refused commit s = (case refused of None \<Rightarrow> commit s | Some e \<Rightarrow> (s, Some e))"

fun share_step :: "(string \<Rightarrow> string) \<Rightarrow> share_op \<Rightarrow> share_system \<Rightarrow> share_system" where
  "share_step sha (UploadBegins k env name ct who expected) (s, ups) =
     (case upload_begin env name ct who expected s of
        (s1, Inl e) \<Rightarrow> (s1, ups) | (s1, Inr u) \<Rightarrow> (s1, gput k u ups))"
| "share_step sha (UploadReads k avail n p) (s, ups) = (case gget ups k of
      None \<Rightarrow> (s, ups)
    | Some u \<Rightarrow> (case upload_chunk avail n p u s of
          (s1, None) \<Rightarrow> (s1, gdel k ups) | (s1, Some u1) \<Rightarrow> (s1, gput k u1 ups)))"
| "share_step sha (UploadFails k) (s, ups) = (case gget ups k of
      None \<Rightarrow> (s, ups) | Some u \<Rightarrow> (upload_abort u s, gdel k ups))"
| "share_step sha (UploadEnds k env refused) (s, ups) = (case gget ups k of
      None \<Rightarrow> (s, ups) | Some u \<Rightarrow> (fst (upload_end sha env (Some (guard_of refused)) u s), gdel k ups))"
| "share_step sha (FileDeleted removed ok i) (s, ups) = (fst (share_Delete removed ok i s), ups)"
| "share_step sha (SettingsUpdated ok nxt) (s, ups) = (fst (UpdateSettings ok nxt s), ups)"
| "share_step sha (LinkCreated env refused i who d) (s, ups) =
     (fst (CreateLinkWithCommitGuard sha env (Some (guard_of refused)) i who d s), ups)"
| "share_step sha (LinkRevoked ok now i l) (s, ups) = (fst (RevokeLink ok now i l s), ups)"
| "share_step sha (FilesCleaned removed ok now) (s, ups) = (fst (CleanupExpired removed ok now s), ups)"
| "share_step sha (ServerRestarted stat load_ok recover_ok) (s, ups) =
     (case share_Open stat load_ok recover_ok (fs_quota s) (fs_disk s) of
        Inl e \<Rightarrow> (s, ups) | Inr s1 \<Rightarrow> (s1, []))"

section \<open>The invariant\<close>

definition held :: "upload \<Rightarrow> int" where
  "held u = up_Reserve u + up_Dynamic u"

definition upload_ok :: "upload \<Rightarrow> bool" where
  "upload_ok u \<longleftrightarrow> 0 \<le> up_Expected u \<and> up_Reserve u = up_Expected u
     \<and> up_Dynamic u = (if up_Expected u = 0 then int (length (up_Data u)) else 0)"

definition counts_ok :: "share_system \<Rightarrow> bool" where
  "counts_ok st \<longleftrightarrow> (case st of (s, ups) \<Rightarrow>
     wf_map (files_of s) \<and> wf_map ups \<and> fs_used s = gsum fr_Size (files_of s) \<and> fs_reserved s = gsum held ups
     \<and> fs_used s + fs_reserved s \<le> fs_quota s \<and> fs_quota s \<le> 2 ^ 61
     \<and> (\<forall>i rec. gget (files_of s) i = Some rec \<longrightarrow> 0 \<le> fr_Size rec) \<and> (\<forall>k u. gget ups k = Some u \<longrightarrow> upload_ok u))"

text \<open>The metadata file may be older than the memory, when a deletion could not write it.\<close>

definition meta_state :: "share_service \<Rightarrow> share_state option" where
  "meta_state s = (case sk_meta (fs_disk s) of MetaData st \<Rightarrow> Some st | _ \<Rightarrow> None)"

definition objects_match :: "(string \<Rightarrow> string) \<Rightarrow> share_service \<Rightarrow> bool" where
  "objects_match sha s \<longleftrightarrow> wf_map (sk_objects (fs_disk s))
     \<and> (\<forall>i. gget (files_of s) i = None \<longleftrightarrow> gget (sk_objects (fs_disk s)) i = None)
     \<and> (\<forall>i rec c. gget (files_of s) i = Some rec \<longrightarrow> gget (sk_objects (fs_disk s)) i = Some c \<longrightarrow>
          fr_Size rec = int (length c) \<and> fr_SHA256 rec = sha c)"

definition meta_match :: "(string \<Rightarrow> string) \<Rightarrow> share_service \<Rightarrow> bool" where
  "meta_match sha s \<longleftrightarrow> (\<exists>st. meta_state s = Some st \<and> wf_map (ss_Files st)
     \<and> (\<forall>i rec c. gget (ss_Files st) i = Some rec \<longrightarrow> gget (sk_objects (fs_disk s)) i = Some c \<longrightarrow>
          fr_SHA256 rec = sha c)
     \<and> (\<forall>l \<in> set (gvals (ss_Links st)). gget (ss_Files st) (dl_FileID l) \<noteq> None))"

definition links_ok :: "share_service \<Rightarrow> bool" where
  "links_ok s \<longleftrightarrow> (\<forall>l \<in> set (gvals (links_of s)). gget (files_of s) (dl_FileID l) \<noteq> None)"

definition unused_id :: "share_service \<Rightarrow> string \<Rightarrow> bool" where
  "unused_id s i \<longleftrightarrow> gget (files_of s) i = None \<and> gget (sk_objects (fs_disk s)) i = None
     \<and> (case meta_state s of None \<Rightarrow> True | Some st \<Rightarrow> gget (ss_Files st) i = None)"

definition staged_ok :: "share_system \<Rightarrow> bool" where
  "staged_ok st \<longleftrightarrow> (case st of (s, ups) \<Rightarrow>
     (\<forall>k u. gget ups k = Some u \<longrightarrow> gget (sk_partials (fs_disk s)) (up_PartialID u) = Some (up_Data u)
        \<and> unused_id s (up_FileID u))
     \<and> (\<forall>k k' u u'. gget ups k = Some u \<longrightarrow> gget ups k' = Some u' \<longrightarrow> k \<noteq> k' \<longrightarrow>
          up_FileID u \<noteq> up_FileID u' \<and> up_PartialID u \<noteq> up_PartialID u'))"

text \<open>The identifiers of a new upload are new.\<close>

fun op_fresh :: "share_op \<Rightarrow> share_system \<Rightarrow> bool" where
  "op_fresh (UploadBegins k env name ct who expected) (s, ups) \<longleftrightarrow> gget ups k = None
     \<and> (case bn_FileID env of None \<Rightarrow> True
        | Some i \<Rightarrow> unused_id s i \<and> list_all (\<lambda>u. up_FileID u \<noteq> i) (gvals ups))
     \<and> (case bn_PartialID env of None \<Rightarrow> True | Some p \<Rightarrow> list_all (\<lambda>u. up_PartialID u \<noteq> p) (gvals ups))"
| "op_fresh _ _ \<longleftrightarrow> True"

fun run_fresh :: "(string \<Rightarrow> string) \<Rightarrow> share_op list \<Rightarrow> share_system \<Rightarrow> bool" where
  "run_fresh sha [] st \<longleftrightarrow> True"
| "run_fresh sha (oper # ops) st \<longleftrightarrow> op_fresh oper st \<and> run_fresh sha ops (share_step sha oper st)"

definition share_inv :: "(string \<Rightarrow> string) \<Rightarrow> share_system \<Rightarrow> bool" where
  "share_inv sha st \<longleftrightarrow> counts_ok st \<and> objects_match sha (fst st) \<and> meta_match sha (fst st) \<and> links_ok (fst st)
     \<and> staged_ok st"

lemma setters [simp]:
  "fs_quota (set_files m s) = fs_quota s" "fs_used (set_files m s) = fs_used s" "fs_reserved (set_files m s) = fs_reserved s"
  "fs_disk (set_files m s) = fs_disk s" "files_of (set_files m s) = m" "links_of (set_files m s) = links_of s"
  "ss_Settings (fs_state (set_files m s)) = ss_Settings (fs_state s)"
  "fs_quota (set_links n s) = fs_quota s" "fs_used (set_links n s) = fs_used s" "fs_reserved (set_links n s) = fs_reserved s"
  "fs_disk (set_links n s) = fs_disk s" "files_of (set_links n s) = files_of s" "links_of (set_links n s) = n"
  "ss_Settings (fs_state (set_links n s)) = ss_Settings (fs_state s)"
  "fs_quota (set_object i c s) = fs_quota s" "fs_used (set_object i c s) = fs_used s" "fs_reserved (set_object i c s) = fs_reserved s"
  "fs_state (set_object i c s) = fs_state s" "sk_meta (fs_disk (set_object i c s)) = sk_meta (fs_disk s)"
  "sk_partials (fs_disk (set_object i c s)) = sk_partials (fs_disk s)"
  "gget (sk_objects (fs_disk (set_object i c s))) = (gget (sk_objects (fs_disk s)))(i := c)"
  "wf_map (sk_objects (fs_disk s)) \<Longrightarrow> wf_map (sk_objects (fs_disk (set_object i c s)))"
  "fs_quota (set_partial p c s) = fs_quota s" "fs_used (set_partial p c s) = fs_used s" "fs_reserved (set_partial p c s) = fs_reserved s"
  "fs_state (set_partial p c s) = fs_state s" "sk_meta (fs_disk (set_partial p c s)) = sk_meta (fs_disk s)"
  "sk_objects (fs_disk (set_partial p c s)) = sk_objects (fs_disk s)"
  "gget (sk_partials (fs_disk (set_partial p c s))) = (gget (sk_partials (fs_disk s)))(p := c)"
  by (auto simp: set_files_def set_links_def set_object_def set_partial_def fun_eq_iff split: option.split)

lemma persist_fields:
  "persist_share ok s = (s', saved) \<Longrightarrow> saved = ok \<and> fs_quota s' = fs_quota s \<and> fs_used s' = fs_used s
     \<and> fs_reserved s' = fs_reserved s \<and> fs_state s' = fs_state s \<and> sk_objects (fs_disk s') = sk_objects (fs_disk s)
     \<and> sk_partials (fs_disk s') = sk_partials (fs_disk s)
     \<and> sk_meta (fs_disk s') = (if ok then MetaData (fs_state s) else sk_meta (fs_disk s))"
  by (auto simp: persist_share_def split: if_splits)

section \<open>What is used and reserved\<close>

lemma upload_held: "upload_ok u \<Longrightarrow> 0 \<le> held u"
  by (auto simp: upload_ok_def held_def)

lemma counts_bounds:
  assumes "counts_ok (s, ups)"
  shows "0 \<le> fs_used s" and "0 \<le> fs_reserved s" and "fs_used s + fs_reserved s \<le> fs_quota s" and "fs_quota s \<le> 2 ^ 61"
    and "gget ups k = Some u \<Longrightarrow> 0 \<le> held u \<and> held u \<le> fs_reserved s \<and> upload_ok u"
    and "gget (files_of s) i = Some rec \<Longrightarrow> 0 \<le> fr_Size rec \<and> fr_Size rec \<le> fs_used s"
proof -
  from assms have c: "wf_map (files_of s)" "wf_map ups" "fs_used s = gsum fr_Size (files_of s)" "fs_reserved s = gsum held ups"
    "fs_used s + fs_reserved s \<le> fs_quota s" "fs_quota s \<le> 2 ^ 61"
    "\<And>i rec. gget (files_of s) i = Some rec \<Longrightarrow> 0 \<le> fr_Size rec" "\<And>k u. gget ups k = Some u \<Longrightarrow> upload_ok u"
    by (auto simp: counts_ok_def)
  have h: "\<And>k u. gget ups k = Some u \<Longrightarrow> 0 \<le> held u" using c(8) upload_held by blast
  show "0 \<le> fs_used s" unfolding c(3) by (rule gsum_nonneg [OF c(1)]) (rule c(7))
  show "0 \<le> fs_reserved s" unfolding c(4) by (rule gsum_nonneg [OF c(2)]) (rule h)
  show "0 \<le> held u \<and> held u \<le> fs_reserved s \<and> upload_ok u" if g: "gget ups k = Some u"
    using h [OF g] c(8) [OF g] gsum_member [of ups k u held] c(2) g h unfolding c(4) by simp
  show "0 \<le> fr_Size rec \<and> fr_Size rec \<le> fs_used s" if g: "gget (files_of s) i = Some rec"
    using c(7) [OF g] gsum_member [of "files_of s" i rec fr_Size] c(1,7) g unfolding c(3) by simp
qed (use assms in \<open>auto simp: counts_ok_def\<close>)

lemma counts_same:
  "counts_ok (s, ups) \<Longrightarrow> fs_quota s' = fs_quota s \<Longrightarrow> fs_used s' = fs_used s \<Longrightarrow> fs_reserved s' = fs_reserved s \<Longrightarrow>
    files_of s' = files_of s \<Longrightarrow> counts_ok (s', ups)"
  by (simp add: counts_ok_def)

text \<open>An upload ends: its reservation is given back.\<close>

lemma release_id:
  assumes "counts_ok (s, ups)" "gget ups k = Some u"
  shows "fs_reserved (release u s) = fs_reserved s - held u"
proof -
  note b = counts_bounds(1-5) [OF assms(1)]
  from b(5) [OF assms(2)] have "add64 (up_Reserve u) (up_Dynamic u) = held u"
    using b(1-4) unfolding held_def by (intro add64_id) simp_all
  with b(5) [OF assms(2)] b(1-4) show ?thesis by (simp add: release_def)
qed

lemma release_fields [simp]:
  "fs_quota (release u s) = fs_quota s" "fs_used (release u s) = fs_used s" "fs_state (release u s) = fs_state s"
  "fs_disk (release u s) = fs_disk s"
  by (simp_all add: release_def)

lemma counts_drop:
  assumes "counts_ok (s, ups)" "gget ups k = Some u" "fs_quota s' = fs_quota s" "fs_used s' = fs_used s"
    "fs_reserved s' = fs_reserved s - held u" "files_of s' = files_of s"
  shows "counts_ok (s', gdel k ups)"
proof -
  have "wf_map ups" using assms(1) by (simp add: counts_ok_def)
  from gsum_gdel [OF this, of held k] assms(2) have "gsum held (gdel k ups) = gsum held ups - held u" by simp
  moreover have "0 \<le> held u" using counts_bounds(5) [OF assms(1,2)] by simp
  ultimately show ?thesis using assms by (auto simp: counts_ok_def split: if_splits)
qed

lemma upload_begin_cases:
  assumes c: "counts_ok (s, ups)" and r: "upload_begin env name ct who expected s = (s', r)"
  obtains (refused) e where "s' = s" "r = Inl e"
  | (begun) u where "r = Inr u" "up_Expected u = expected" "up_Reserve u = expected" "up_Dynamic u = 0" "up_Data u = []"
      "bn_FileID env = Some (up_FileID u)" "bn_PartialID env = Some (up_PartialID u)" "0 \<le> expected"
      "s' = set_partial (up_PartialID u) (Some []) (s\<lparr>fs_reserved := fs_reserved s + expected\<rparr>)"
      "fs_used s + fs_reserved s + expected \<le> fs_quota s"
proof (cases "validName name \<and> 0 \<le> expected \<and> expected \<le> fs_quota s
    \<and> add64 (add64 (fs_used s) (fs_reserved s)) expected \<le> fs_quota s")
  case False
  then have "\<exists>e. upload_begin env name ct who expected s = (s, Inl e)"
    unfolding upload_begin_def by (auto simp: not_le)
  with r refused show ?thesis by auto
next
  case True
  note b = counts_bounds(1-4) [OF c]
  from True have t: "0 \<le> expected" "expected \<le> fs_quota s"
    "add64 (add64 (fs_used s) (fs_reserved s)) expected \<le> fs_quota s" by blast+
  with b have fit: "fs_used s + fs_reserved s + expected \<le> fs_quota s" by simp
  have sums: "add64 (fs_reserved s) expected = fs_reserved s + expected" "add64 expected 0 = expected"
    "sub64 (fs_reserved s + expected) expected = fs_reserved s"
    using t b by simp_all
  have back_to: "release u (s\<lparr>fs_reserved := fs_reserved s + expected\<rparr>) = s"
    if "up_Reserve u = expected" "up_Dynamic u = 0" for u
    unfolding release_def that by (simp add: sums)
  show ?thesis
  proof (cases r)
    case (Inl e)
    with r True have "s' = s"
      by (auto simp: upload_begin_def Let_def sums back_to split: if_splits option.splits)
    then show ?thesis using refused Inl by blast
  next
    case (Inr u)
    with r True have "up_Expected u = expected \<and> up_Reserve u = expected \<and> up_Dynamic u = 0 \<and> up_Data u = []
      \<and> bn_FileID env = Some (up_FileID u) \<and> bn_PartialID env = Some (up_PartialID u)
      \<and> s' = set_partial (up_PartialID u) (Some []) (s\<lparr>fs_reserved := fs_reserved s + expected\<rparr>)"
      by (auto simp: upload_begin_def Let_def sums split: if_splits option.splits)
    with Inr t(1) fit show ?thesis by (intro begun) auto
  qed
qed

lemma counts_begin:
  assumes c: "counts_ok (s, ups)" and "gget ups k = None" and "upload_begin env name ct who expected s = (s', r)"
  shows "case r of Inl _ \<Rightarrow> counts_ok (s', ups) | Inr u \<Rightarrow> counts_ok (s', gput k u ups)"
proof (rule upload_begin_cases [OF c assms(3)])
  fix u
  assume u: "r = Inr u" "up_Expected u = expected" "up_Reserve u = expected" "up_Dynamic u = 0" "up_Data u = []" "0 \<le> expected"
    "s' = set_partial (up_PartialID u) (Some []) (s\<lparr>fs_reserved := fs_reserved s + expected\<rparr>)"
    "fs_used s + fs_reserved s + expected \<le> fs_quota s"
  have "wf_map ups" using c by (simp add: counts_ok_def)
  from gsum_gput [OF this, of held k u] assms(2) u have g: "gsum held (gput k u ups) = gsum held ups + expected"
    by (simp add: held_def)
  have "upload_ok u" using u by (simp add: upload_ok_def)
  then have "counts_ok (s', gput k u ups)"
    using c u(7,8) g by (auto simp: counts_ok_def split: if_splits)
  with u(1) show ?thesis by simp
qed (use c in simp)

text \<open>A chunk.\<close>

lemma quota_chunk_cases:
  assumes c: "counts_ok (s, ups)" and k: "gget ups k = Some u" "up_Expected u = 0"
    and q: "quota_chunk avail n p u s = (s', u', m, good)" and len: "int (length p) \<le> 2 ^ 61 + 1"
  shows "\<exists>got. 0 \<le> got \<and> s' = s\<lparr>fs_reserved := fs_reserved s + got\<rparr> \<and> up_Dynamic u' = up_Dynamic u + got
    \<and> up_Reserve u' = up_Reserve u \<and> up_Expected u' = up_Expected u \<and> up_Data u' = up_Data u
    \<and> up_FileID u' = up_FileID u \<and> up_PartialID u' = up_PartialID u
    \<and> fs_used s + fs_reserved s + got \<le> fs_quota s \<and> (good \<longrightarrow> got = int (length p) \<and> m = length p)"
proof -
  note b = counts_bounds(1-4) [OF c]
  have d: "0 \<le> up_Dynamic u" "up_Dynamic u \<le> fs_reserved s"
    using counts_bounds(5) [OF c k(1)] k(2) by (auto simp: held_def upload_ok_def)
  let ?n = "min n (length p)"
  have n: "0 \<le> int ?n" "int ?n \<le> int (length p)" by simp_all
  have total: "add64 (add64 (fs_used s) (fs_reserved s)) (int (length p)) = fs_used s + fs_reserved s + int (length p)"
    using b len by simp
  have sums: "sub64 (add64 (fs_reserved s) (int (length p))) (int (length p) - int ?n) = fs_reserved s + int ?n"
    "sub64 (add64 (up_Dynamic u) (int (length p))) (int (length p) - int ?n) = up_Dynamic u + int ?n"
    using len b d n by simp_all
  have "(s' = s \<and> \<not> good \<and> up_Dynamic u' = up_Dynamic u)
      \<or> (s' = s\<lparr>fs_reserved := fs_reserved s + int ?n\<rparr> \<and> up_Dynamic u' = up_Dynamic u + int ?n \<and> m = ?n
         \<and> good = (?n = length p) \<and> fs_used s + fs_reserved s + int (length p) \<le> fs_quota s)"
    using q unfolding quota_chunk_def Let_def total sums by (auto split: if_splits)
  moreover have "up_Reserve u' = up_Reserve u \<and> up_Expected u' = up_Expected u \<and> up_Data u' = up_Data u
    \<and> up_FileID u' = up_FileID u \<and> up_PartialID u' = up_PartialID u"
    using q by (auto simp: quota_chunk_def Let_def split: if_splits)
  ultimately show ?thesis
  proof (elim disjE)
    assume "s' = s \<and> \<not> good \<and> up_Dynamic u' = up_Dynamic u"
    with \<open>up_Reserve u' = _ \<and> _\<close> b show ?thesis by (intro exI [of _ 0]) simp
  next
    assume *: "s' = s\<lparr>fs_reserved := fs_reserved s + int ?n\<rparr> \<and> up_Dynamic u' = up_Dynamic u + int ?n \<and> m = ?n
         \<and> good = (?n = length p) \<and> fs_used s + fs_reserved s + int (length p) \<le> fs_quota s"
    then have "fs_used s + fs_reserved s + int ?n \<le> fs_quota s" using n by linarith
    with * \<open>up_Reserve u' = _ \<and> _\<close> show ?thesis by (intro exI [of _ "int ?n"]) simp
  qed
qed

text \<open>What a chunk does to the service and its upload; a failed one gives back what the upload held.\<close>

lemma upload_chunk_cases:
  assumes c: "counts_ok (s, ups)" and k: "gget ups k = Some u" and r: "upload_chunk avail n p0 u s = (s', res)"
  obtains (kept) u' got p where "res = Some u'" "0 \<le> got" "fs_reserved s' = fs_reserved s + got"
      "fs_used s + fs_reserved s + got \<le> fs_quota s" "held u' = held u + got" "upload_ok u'"
      "up_FileID u' = up_FileID u" "up_PartialID u' = up_PartialID u" "up_Data u' = up_Data u @ p"
      "fs_quota s' = fs_quota s" "fs_used s' = fs_used s" "fs_state s' = fs_state s"
      "sk_meta (fs_disk s') = sk_meta (fs_disk s)" "sk_objects (fs_disk s') = sk_objects (fs_disk s)"
      "gget (sk_partials (fs_disk s')) = (gget (sk_partials (fs_disk s)))
         (up_PartialID u := map_option (\<lambda>b. b @ p) (gget (sk_partials (fs_disk s)) (up_PartialID u)))"
  | (failed) "res = None" "fs_reserved s' = fs_reserved s - held u"
      "fs_quota s' = fs_quota s" "fs_used s' = fs_used s" "fs_state s' = fs_state s"
      "sk_meta (fs_disk s') = sk_meta (fs_disk s)" "sk_objects (fs_disk s') = sk_objects (fs_disk s)"
      "gget (sk_partials (fs_disk s')) = (gget (sk_partials (fs_disk s)))(up_PartialID u := None)"
proof -
  note b = counts_bounds(1-4) [OF c]
  have u: "upload_ok u" "0 \<le> held u" "held u \<le> fs_reserved s" using counts_bounds(5) [OF c k] by auto
  define pc where pc: "pc = take (nat (add64 (fs_quota s) 1) - length (up_Data u)) p0"
  have len: "int (length pc) \<le> 2 ^ 61 + 1"
  proof -
    have "add64 (fs_quota s) 1 = fs_quota s + 1" using b by simp
    then have "int (nat (add64 (fs_quota s) 1)) \<le> 2 ^ 61 + 1" using b by simp
    moreover have "length pc \<le> nat (add64 (fs_quota s) 1)" by (simp add: pc)
    ultimately show ?thesis by linarith
  qed
  obtain s1 u1 m good where q: "(if up_Expected u = 0 then quota_chunk avail n pc u s
      else (s, u, min n (length pc), min n (length pc) = length pc)) = (s1, u1, m, good)" by (metis prod_cases4)
  have "\<exists>got. 0 \<le> got \<and> s1 = s\<lparr>fs_reserved := fs_reserved s + got\<rparr> \<and> up_Dynamic u1 = up_Dynamic u + got
    \<and> up_Reserve u1 = up_Reserve u \<and> up_Expected u1 = up_Expected u \<and> up_Data u1 = up_Data u
    \<and> up_FileID u1 = up_FileID u \<and> up_PartialID u1 = up_PartialID u
    \<and> fs_used s + fs_reserved s + got \<le> fs_quota s
    \<and> (good \<longrightarrow> got = (if up_Expected u = 0 then int (length pc) else 0) \<and> m = length pc)"
  proof (cases "up_Expected u = 0")
    case True
    with quota_chunk_cases [OF c k True _ len, of avail n s1 u1 m good] q show ?thesis by simp
  next
    case False
    with q b show ?thesis by (intro exI [of _ 0]) auto
  qed
  then obtain got where g: "0 \<le> got" "s1 = s\<lparr>fs_reserved := fs_reserved s + got\<rparr>" "up_Dynamic u1 = up_Dynamic u + got"
    "up_Reserve u1 = up_Reserve u" "up_Expected u1 = up_Expected u" "up_Data u1 = up_Data u"
    "up_FileID u1 = up_FileID u" "up_PartialID u1 = up_PartialID u" "fs_used s + fs_reserved s + got \<le> fs_quota s"
    "good \<Longrightarrow> got = (if up_Expected u = 0 then int (length pc) else 0) \<and> m = length pc" by blast
  let ?s2 = "set_partial (up_PartialID u)
    (map_option (\<lambda>b. b @ take m pc) (gget (sk_partials (fs_disk s1)) (up_PartialID u))) s1"
  have chunk: "(s', res) = (if pc = [] then (s, Some u) else if good then (?s2, Some (u1\<lparr>up_Data := up_Data u @ pc\<rparr>))
      else (upload_abort u1 ?s2, None))"
    using r q unfolding upload_chunk_def Let_def pc [symmetric] by simp
  consider (e) "pc = []" | (g) "pc \<noteq> []" "good" | (f) "pc \<noteq> []" "\<not> good" by blast
  then show ?thesis
  proof cases
    case e
    with chunk have "s' = s" "res = Some u" by simp_all
    with u b show ?thesis
      by (intro kept [of u 0 "[]"]) (auto simp: fun_upd_idem option.map_id0 fun_eq_iff option.map_ident)
  next
    case g': g
    with chunk have s': "s' = ?s2" and res: "res = Some (u1\<lparr>up_Data := up_Data u @ pc\<rparr>)" by simp_all
    have m: "take m pc = pc" using g(10) [OF g'(2)] by simp
    show ?thesis
    proof (rule kept [OF res g(1)])
      show "upload_ok (u1\<lparr>up_Data := up_Data u @ pc\<rparr>)" using u(1) g g'(2) by (auto simp: upload_ok_def)
      show "held (u1\<lparr>up_Data := up_Data u @ pc\<rparr>) = held u + got" using g by (simp add: held_def)
    qed (auto simp: g s' m fun_eq_iff)
  next
    case f
    with chunk have s': "s' = upload_abort u1 ?s2" and res: "res = None" by simp_all
    have "add64 (up_Reserve u1) (up_Dynamic u1) = held u + got" using g u b by (simp add: held_def)
    moreover have "sub64 (fs_reserved s + got) (held u + got) = fs_reserved s - held u" using g u b by simp
    ultimately have "fs_reserved s' = fs_reserved s - held u" by (simp add: s' upload_abort_def release_def g(2))
    then show ?thesis by (intro failed [OF res]) (auto simp: s' upload_abort_def g fun_eq_iff)
  qed
qed

section \<open>Every step keeps the invariant\<close>

lemma share_inv_iff:
  "share_inv sha (s, ups) \<longleftrightarrow> counts_ok (s, ups) \<and> objects_match sha s \<and> meta_match sha s \<and> links_ok s \<and> staged_ok (s, ups)"
  by (simp add: share_inv_def)

text \<open>Files, objects and metadata are those of another state.\<close>

definition same_store :: "share_service \<Rightarrow> share_service \<Rightarrow> bool" where
  "same_store s s' \<longleftrightarrow> fs_state s' = fs_state s \<and> sk_objects (fs_disk s') = sk_objects (fs_disk s)
     \<and> sk_meta (fs_disk s') = sk_meta (fs_disk s)"

lemma store_facts:
  assumes "same_store s s'"
  shows "objects_match sha s' = objects_match sha s" "meta_match sha s' = meta_match sha s" "links_ok s' = links_ok s"
    "unused_id s' i = unused_id s i"
  using assms by (simp_all add: same_store_def objects_match_def meta_match_def links_ok_def unused_id_def meta_state_def)

lemma stagedD:
  assumes "staged_ok (s, ups)" "gget ups k = Some u"
  shows "gget (sk_partials (fs_disk s)) (up_PartialID u) = Some (up_Data u)" and "unused_id s (up_FileID u)"
    and "gget ups k' = Some u' \<Longrightarrow> k \<noteq> k' \<Longrightarrow> up_FileID u \<noteq> up_FileID u' \<and> up_PartialID u \<noteq> up_PartialID u'"
  using assms unfolding staged_ok_def by blast+

lemma stagedI:
  assumes "\<And>k u. gget ups k = Some u \<Longrightarrow> gget (sk_partials (fs_disk s)) (up_PartialID u) = Some (up_Data u)"
    and "\<And>k u. gget ups k = Some u \<Longrightarrow> unused_id s (up_FileID u)"
    and "\<And>k k' u u'. gget ups k = Some u \<Longrightarrow> gget ups k' = Some u' \<Longrightarrow> k \<noteq> k' \<Longrightarrow>
      up_FileID u \<noteq> up_FileID u' \<and> up_PartialID u \<noteq> up_PartialID u'"
  shows "staged_ok (s, ups)"
  using assms unfolding staged_ok_def by blast

lemma staged_drop:
  assumes st: "staged_ok (s, ups)" and u: "gget ups k = Some u"
    and part: "gget (sk_partials (fs_disk s')) = (gget (sk_partials (fs_disk s)))(up_PartialID u := None)"
    and ids: "\<And>i. unused_id s i \<Longrightarrow> i \<noteq> up_FileID u \<Longrightarrow> unused_id s' i"
  shows "staged_ok (s', gdel k ups)"
proof (rule stagedI)
  fix k' u' assume "gget (gdel k ups) k' = Some u'"
  then have k': "k' \<noteq> k" "gget ups k' = Some u'" by (auto split: if_splits)
  with stagedD(3) [OF st u k'(2)] have "up_FileID u \<noteq> up_FileID u'" "up_PartialID u \<noteq> up_PartialID u'" by auto
  with stagedD(1,2) [OF st k'(2)] show "gget (sk_partials (fs_disk s')) (up_PartialID u') = Some (up_Data u')"
    "unused_id s' (up_FileID u')" unfolding part by (auto intro: ids)
next
  fix k1 k2 u1 u2
  assume "gget (gdel k ups) k1 = Some u1" "gget (gdel k ups) k2 = Some u2" "k1 \<noteq> k2"
  then show "up_FileID u1 \<noteq> up_FileID u2 \<and> up_PartialID u1 \<noteq> up_PartialID u2"
    using stagedD(3) [OF st, of k1 u1 k2 u2] by (auto split: if_splits)
qed

lemma inv_begin:
  assumes inv: "share_inv sha (s, ups)" and fresh: "op_fresh (UploadBegins k env name ct who expected) (s, ups)"
  shows "share_inv sha (share_step sha (UploadBegins k env name ct who expected) (s, ups))"
proof -
  obtain s' r where r: "upload_begin env name ct who expected s = (s', r)" by fastforce
  from inv have c: "counts_ok (s, ups)" and st: "staged_ok (s, ups)" by (simp_all add: share_inv_iff)
  from fresh have k: "gget ups k = None" by simp
  note cnt = counts_begin [OF c k r]
  show ?thesis
  proof (rule upload_begin_cases [OF c r])
    fix e assume "s' = s" "r = Inl e"
    with r inv show ?thesis by simp
  next
    fix u
    assume u: "r = Inr u" "up_Data u = []" "bn_FileID env = Some (up_FileID u)" "bn_PartialID env = Some (up_PartialID u)"
      "s' = set_partial (up_PartialID u) (Some []) (s\<lparr>fs_reserved := fs_reserved s + expected\<rparr>)"
    then have same: "same_store s s'" by (simp add: same_store_def)
    from fresh u have i: "unused_id s (up_FileID u)" by simp
    have others: "up_FileID v \<noteq> up_FileID u \<and> up_PartialID v \<noteq> up_PartialID u" if "gget ups j = Some v" for j v
      using fresh u gget_in_vals [OF that] by (simp add: list_all_iff) blast
    have "staged_ok (s', gput k u ups)"
    proof (rule stagedI)
      fix j v assume *: "gget (gput k u ups) j = Some v"
      then show "gget (sk_partials (fs_disk s')) (up_PartialID v) = Some (up_Data v)"
        using others [of j v] stagedD(1) [OF st, of j v] u by (auto split: if_splits)
      from * show "unused_id s' (up_FileID v)"
        unfolding store_facts(4) [OF same] using stagedD(2) [OF st, of j v] i by (auto split: if_splits)
    next
      fix j j' v v'
      assume "gget (gput k u ups) j = Some v" "gget (gput k u ups) j' = Some v'" "j \<noteq> j'"
      then show "up_FileID v \<noteq> up_FileID v' \<and> up_PartialID v \<noteq> up_PartialID v'"
        using others [of j v] others [of j' v'] stagedD(3) [OF st, of j v j' v'] by (auto split: if_splits)
    qed
    with inv cnt u(1) r same show ?thesis by (simp add: share_inv_iff store_facts)
  qed
qed

lemma inv_chunk:
  assumes inv: "share_inv sha (s, ups)"
  shows "share_inv sha (share_step sha (UploadReads k avail n p) (s, ups))"
proof (cases "gget ups k")
  case (Some u)
  obtain s' res where r: "upload_chunk avail n p u s = (s', res)" by fastforce
  from inv have c: "counts_ok (s, ups)" and st: "staged_ok (s, ups)" by (simp_all add: share_inv_iff)
  show ?thesis
  proof (rule upload_chunk_cases [OF c Some r])
    fix u' got q
    assume res: "res = Some u'" and m: "0 \<le> got" "fs_reserved s' = fs_reserved s + got"
      "fs_used s + fs_reserved s + got \<le> fs_quota s" "held u' = held u + got" "upload_ok u'"
      and i: "up_FileID u' = up_FileID u" "up_PartialID u' = up_PartialID u" "up_Data u' = up_Data u @ q"
      and same: "fs_quota s' = fs_quota s" "fs_used s' = fs_used s" "fs_state s' = fs_state s"
      "sk_meta (fs_disk s') = sk_meta (fs_disk s)" "sk_objects (fs_disk s') = sk_objects (fs_disk s)"
      and part: "gget (sk_partials (fs_disk s')) = (gget (sk_partials (fs_disk s)))
         (up_PartialID u := map_option (\<lambda>b. b @ q) (gget (sk_partials (fs_disk s)) (up_PartialID u)))"
    have store: "same_store s s'" using same by (simp add: same_store_def)
    have "wf_map ups" using c by (simp add: counts_ok_def)
    from gsum_gput [OF this, of held k u'] Some m have "gsum held (gput k u' ups) = gsum held ups + got" by simp
    then have cnt: "counts_ok (s', gput k u' ups)"
      using c m same by (auto simp: counts_ok_def split: if_splits)
    have "staged_ok (s', gput k u' ups)"
    proof (rule stagedI)
      fix j v assume j: "gget (gput k u' ups) j = Some v"
      show "gget (sk_partials (fs_disk s')) (up_PartialID v) = Some (up_Data v)"
      proof (cases "j = k")
        case True
        with j i stagedD(1) [OF st Some] show ?thesis by (simp add: part)
      next
        case False
        with j have "gget ups j = Some v" by simp
        with stagedD(1) [OF st this] stagedD(3) [OF st Some this] False show ?thesis by (auto simp: part)
      qed
      show "unused_id s' (up_FileID v)"
        using j i stagedD(2) [OF st] Some by (auto simp: store_facts [OF store] split: if_splits)
    next
      fix j j' v v'
      assume "gget (gput k u' ups) j = Some v" "gget (gput k u' ups) j' = Some v'" "j \<noteq> j'"
      then show "up_FileID v \<noteq> up_FileID v' \<and> up_PartialID v \<noteq> up_PartialID v'"
        using stagedD(3) [OF st Some, of j v] stagedD(3) [OF st Some, of j' v'] stagedD(3) [OF st, of j v j' v'] i
        by (auto split: if_splits)
    qed
    with cnt inv res r Some store show ?thesis by (simp add: share_inv_iff store_facts)
  next
    assume res: "res = None" and m: "fs_reserved s' = fs_reserved s - held u"
      and same: "fs_quota s' = fs_quota s" "fs_used s' = fs_used s" "fs_state s' = fs_state s"
      "sk_meta (fs_disk s') = sk_meta (fs_disk s)" "sk_objects (fs_disk s') = sk_objects (fs_disk s)"
      and part: "gget (sk_partials (fs_disk s')) = (gget (sk_partials (fs_disk s)))(up_PartialID u := None)"
    have store: "same_store s s'" using same by (simp add: same_store_def)
    have "counts_ok (s', gdel k ups)" by (rule counts_drop [OF c Some]) (use same m in simp_all)
    moreover have "staged_ok (s', gdel k ups)"
      by (rule staged_drop [OF st Some part]) (simp add: store_facts [OF store])
    ultimately show ?thesis using inv res r Some store by (simp add: share_inv_iff store_facts)
  qed
qed (use inv in simp)

lemma inv_fail:
  assumes inv: "share_inv sha (s, ups)"
  shows "share_inv sha (share_step sha (UploadFails k) (s, ups))"
proof (cases "gget ups k")
  case (Some u)
  let ?s = "upload_abort u s"
  from inv have c: "counts_ok (s, ups)" and st: "staged_ok (s, ups)" by (simp_all add: share_inv_iff)
  have store: "same_store s ?s" by (simp add: same_store_def upload_abort_def)
  have "fs_reserved ?s = fs_reserved s - held u"
    using release_id [OF c Some] by (simp add: upload_abort_def release_def)
  then have "counts_ok (?s, gdel k ups)" by (intro counts_drop [OF c Some]) (simp_all add: upload_abort_def)
  moreover have "staged_ok (?s, gdel k ups)"
    by (rule staged_drop [OF st Some]) (simp add: upload_abort_def fun_eq_iff release_def, simp only: store_facts(4) [OF store])
  ultimately show ?thesis using inv Some store by (simp add: share_inv_iff store_facts)
qed (use inv in simp)


text \<open>What the steps are made of: a file is added, changed or dropped, the metadata are written.\<close>

lemma objects_matchD:
  assumes "objects_match sha s"
  shows "wf_map (sk_objects (fs_disk s))"
    and "gget (files_of s) i = None \<longleftrightarrow> gget (sk_objects (fs_disk s)) i = None"
    and "gget (files_of s) i = Some rec \<Longrightarrow> gget (sk_objects (fs_disk s)) i = Some c \<Longrightarrow>
      fr_Size rec = int (length c) \<and> fr_SHA256 rec = sha c"
  using assms unfolding objects_match_def by blast+

lemma meta_matchE:
  assumes "meta_match sha s"
  obtains st where "meta_state s = Some st" "wf_map (ss_Files st)"
    "\<And>i rec c. gget (ss_Files st) i = Some rec \<Longrightarrow> gget (sk_objects (fs_disk s)) i = Some c \<Longrightarrow> fr_SHA256 rec = sha c"
    "\<And>l. l \<in> set (gvals (ss_Links st)) \<Longrightarrow> gget (ss_Files st) (dl_FileID l) \<noteq> None"
  using assms unfolding meta_match_def by blast

lemma meta_match_less:
  assumes "meta_match sha s" "sk_meta (fs_disk s') = sk_meta (fs_disk s)"
    and "\<And>st i rec c. meta_state s = Some st \<Longrightarrow> gget (ss_Files st) i = Some rec \<Longrightarrow>
      gget (sk_objects (fs_disk s')) i = Some c \<Longrightarrow> gget (sk_objects (fs_disk s)) i = Some c"
  shows "meta_match sha s'"
proof (rule meta_matchE [OF assms(1)])
  fix st
  assume st: "meta_state s = Some st" "wf_map (ss_Files st)"
    "\<And>i rec c. gget (ss_Files st) i = Some rec \<Longrightarrow> gget (sk_objects (fs_disk s)) i = Some c \<Longrightarrow> fr_SHA256 rec = sha c"
    "\<And>l. l \<in> set (gvals (ss_Links st)) \<Longrightarrow> gget (ss_Files st) (dl_FileID l) \<noteq> None"
  have "meta_state s' = Some st" using st(1) assms(2) by (simp add: meta_state_def)
  with st assms(3) [OF st(1)] show ?thesis unfolding meta_match_def by blast
qed

lemma unused_more:
  assumes "unused_id s i" "gget (files_of s') i = None" "gget (sk_objects (fs_disk s')) i = None"
    "sk_meta (fs_disk s') = sk_meta (fs_disk s)"
  shows "unused_id s' i"
  using assms by (simp add: unused_id_def meta_state_def)

lemma inv_persist:
  assumes "share_inv sha (s, ups)"
  shows "share_inv sha (fst (persist_share ok s), ups)"
proof (cases ok)
  case True
  from assms have i: "counts_ok (s, ups)" "objects_match sha s" "links_ok s" "staged_ok (s, ups)"
    by (simp_all add: share_inv_iff)
  define s' where "s' = fst (persist_share ok s)"
  then have f: "fs_quota s' = fs_quota s" "fs_used s' = fs_used s" "fs_reserved s' = fs_reserved s" "fs_state s' = fs_state s"
    "sk_objects (fs_disk s') = sk_objects (fs_disk s)" "sk_partials (fs_disk s') = sk_partials (fs_disk s)"
    "meta_state s' = Some (fs_state s)"
    using True by (simp_all add: persist_share_def meta_state_def)
  have "counts_ok (s', ups)" using i(1) f by (simp add: counts_ok_def)
  moreover have "objects_match sha s'" using i(2) f by (simp add: objects_match_def)
  moreover have "links_ok s'" using i(3) f by (simp add: links_ok_def)
  moreover have "meta_match sha s'" unfolding meta_match_def f
  proof (intro exI [of _ "fs_state s"] conjI allI impI)
    show "wf_map (files_of s)" using i(1) by (simp add: counts_ok_def)
  qed (use objects_matchD(3) [OF i(2)] i(3) in \<open>auto simp: links_ok_def\<close>)
  moreover have "staged_ok (s', ups)"
  proof (rule stagedI)
    fix k u assume "gget ups k = Some u"
    with stagedD(2) [OF i(4)] show "unused_id s' (up_FileID u)" by (simp add: unused_id_def f)
  qed (use stagedD(1,3) [OF i(4)] f in simp_all)
  ultimately show ?thesis by (simp add: share_inv_iff s'_def)
qed (use assms in \<open>simp add: persist_share_def\<close>)

lemma inv_drop_file:
  assumes inv: "share_inv sha (s, ups)" and rec: "gget (files_of s) i = Some rec"
    and files: "files_of s' = gdel i (files_of s)"
    and links: "\<And>l. l \<in> set (gvals (links_of s')) \<Longrightarrow> l \<in> set (gvals (links_of s)) \<and> dl_FileID l \<noteq> i"
    and objects: "sk_objects (fs_disk s') = gdel i (sk_objects (fs_disk s))"
    and same: "fs_used s' = fs_used s - fr_Size rec" "fs_reserved s' = fs_reserved s" "fs_quota s' = fs_quota s"
      "sk_meta (fs_disk s') = sk_meta (fs_disk s)" "sk_partials (fs_disk s') = sk_partials (fs_disk s)"
  shows "share_inv sha (s', ups)"
proof -
  from inv have i: "counts_ok (s, ups)" "objects_match sha s" "meta_match sha s" "links_ok s" "staged_ok (s, ups)"
    by (simp_all add: share_inv_iff)
  have "wf_map (files_of s)" using i(1) by (simp add: counts_ok_def)
  from gsum_gdel [OF this, of fr_Size i] rec have "gsum fr_Size (files_of s') = gsum fr_Size (files_of s) - fr_Size rec"
    by (simp add: files)
  then have "counts_ok (s', ups)"
    using i(1) same counts_bounds(6) [OF i(1) rec] by (auto simp: counts_ok_def files split: if_splits)
  moreover have "objects_match sha s'"
    using i(2) by (auto simp: objects_match_def files objects split: if_splits)
  moreover have "meta_match sha s'"
    by (rule meta_match_less [OF i(3) same(4)]) (simp add: objects split: if_splits)
  moreover have "links_ok s'" using i(4) links by (fastforce simp: links_ok_def files)
  moreover have "staged_ok (s', ups)"
  proof (rule stagedI)
    fix k u assume "gget ups k = Some u"
    from stagedD(2) [OF i(5) this] show "unused_id s' (up_FileID u)"
      by (rule unused_more) (use stagedD(2) [OF i(5) \<open>gget ups k = Some u\<close>] in \<open>auto simp: unused_id_def files objects same\<close>)
  qed (use stagedD(1,3) [OF i(5)] same in simp_all)
  ultimately show ?thesis by (simp add: share_inv_iff)
qed

lemma inv_add_file:
  assumes inv: "share_inv sha (s, ups)" and new: "unused_id s i" "\<And>k u. gget ups k = Some u \<Longrightarrow> up_FileID u \<noteq> i"
    and rec: "fr_Size rec = int (length c)" "fr_SHA256 rec = sha c"
    and room: "fs_used s + fs_reserved s + int (length c) \<le> fs_quota s"
    and files: "files_of s' = gput i rec (files_of s)" and links: "links_of s' = links_of s"
    and objects: "sk_objects (fs_disk s') = gput i c (sk_objects (fs_disk s))"
    and same: "fs_used s' = fs_used s + fr_Size rec" "fs_reserved s' = fs_reserved s" "fs_quota s' = fs_quota s"
      "sk_meta (fs_disk s') = sk_meta (fs_disk s)" "sk_partials (fs_disk s') = sk_partials (fs_disk s)"
  shows "share_inv sha (s', ups)"
proof -
  from inv have i: "counts_ok (s, ups)" "objects_match sha s" "meta_match sha s" "links_ok s" "staged_ok (s, ups)"
    by (simp_all add: share_inv_iff)
  have none: "gget (files_of s) i = None" using new(1) by (simp add: unused_id_def)
  have "wf_map (files_of s)" using i(1) by (simp add: counts_ok_def)
  from gsum_gput [OF this, of fr_Size i rec] none have "gsum fr_Size (files_of s') = gsum fr_Size (files_of s) + fr_Size rec"
    by (simp add: files)
  then have "counts_ok (s', ups)"
    using i(1) same room rec by (auto simp: counts_ok_def files split: if_splits)
  moreover have "objects_match sha s'"
    using i(2) rec by (auto simp: objects_match_def files objects split: if_splits)
  moreover have "meta_match sha s'"
  proof (rule meta_match_less [OF i(3) same(4)])
    fix st j r b
    assume "meta_state s = Some st" "gget (ss_Files st) j = Some r" "gget (sk_objects (fs_disk s')) j = Some b"
    then show "gget (sk_objects (fs_disk s)) j = Some b" using new(1) by (auto simp: objects unused_id_def split: if_splits)
  qed
  moreover have "links_ok s'" using i(4) by (auto simp: links_ok_def files links)
  moreover have "staged_ok (s', ups)"
  proof (rule stagedI)
    fix k u assume u: "gget ups k = Some u"
    from stagedD(2) [OF i(5) this] show "unused_id s' (up_FileID u)"
      by (rule unused_more) (use stagedD(2) [OF i(5) u] new(2) [OF u] in \<open>auto simp: unused_id_def files objects same\<close>)
  qed (use stagedD(1,3) [OF i(5)] same in simp_all)
  ultimately show ?thesis by (simp add: share_inv_iff)
qed

lemma inv_edit_file:
  assumes inv: "share_inv sha (s, ups)"
    and files: "files_of s' = files_of s \<or> (\<exists>i rec rec'. gget (files_of s) i = Some rec
      \<and> files_of s' = gput i rec' (files_of s) \<and> fr_Size rec' = fr_Size rec \<and> fr_SHA256 rec' = fr_SHA256 rec)"
    and links: "links_ok s'"
    and same: "fs_used s' = fs_used s" "fs_reserved s' = fs_reserved s" "fs_quota s' = fs_quota s" "fs_disk s' = fs_disk s"
  shows "share_inv sha (s', ups)"
proof -
  from inv have i: "counts_ok (s, ups)" "objects_match sha s" "meta_match sha s" "staged_ok (s, ups)"
    by (simp_all add: share_inv_iff)
  have wf: "wf_map (files_of s)" using i(1) by (simp add: counts_ok_def)
  have sums: "gsum fr_Size (files_of s') = gsum fr_Size (files_of s) \<and> wf_map (files_of s')"
    using files gsum_gput [OF wf, of fr_Size] wf by auto
  have get: "(gget (files_of s') j = None) = (gget (files_of s) j = None)"
    "gget (files_of s') j = Some r' \<Longrightarrow> \<exists>r. gget (files_of s) j = Some r \<and> fr_Size r' = fr_Size r \<and> fr_SHA256 r' = fr_SHA256 r"
    for j r' using files by (auto split: if_splits)
  have "counts_ok (s', ups)"
    using i(1) same sums get(2) by (fastforce simp: counts_ok_def)
  moreover have "objects_match sha s'" using i(2) same get unfolding objects_match_def by metis
  moreover have "meta_match sha s'" by (rule meta_match_less [OF i(3)]) (simp_all add: same)
  moreover have "staged_ok (s', ups)"
  proof (rule stagedI)
    fix k u assume "gget ups k = Some u"
    from stagedD(2) [OF i(4) this] show "unused_id s' (up_FileID u)"
      using get(1) by (simp add: unused_id_def same meta_state_def)
  qed (use stagedD(1,3) [OF i(4)] same in simp_all)
  ultimately show ?thesis using links by (simp add: share_inv_iff)
qed


lemma inv_abort:
  assumes inv: "share_inv sha (s, ups)" and u: "gget ups k = Some u"
  shows "share_inv sha (upload_abort u s, gdel k ups)"
  using inv_fail [OF inv, of k] u by simp

lemma upload_abort_fields:
  "fs_quota (upload_abort u s) = fs_quota s" "fs_used (upload_abort u s) = fs_used s"
  "fs_reserved (upload_abort u s) = fs_reserved (release u s)" "fs_state (upload_abort u s) = fs_state s"
  "sk_meta (fs_disk (upload_abort u s)) = sk_meta (fs_disk s)"
  "sk_objects (fs_disk (upload_abort u s)) = sk_objects (fs_disk s)"
  "set_partial (up_PartialID u) None (release u s) = upload_abort u s"
  by (simp_all add: upload_abort_def release_def set_partial_def)

text \<open>A commit: the file is there and the metadata are written, or nothing has changed.\<close>

lemma commit_cases:
  assumes u: "gget (sk_partials (fs_disk s)) (up_PartialID u) = Some (up_Data u)"
    and r: "commit_upload env u rec0 s = (s', e)"
  obtains (unchanged) "s' = s" "e \<noteq> None"
  | (committed) rec s2 where "rec = rec0\<lparr>fr_ExpiresAt := ee_Now env + se_RetentionDays (ss_Settings (fs_state s)) * hours 24\<rparr>"
      "s2 = (set_files (gput (up_FileID u) rec (files_of s)) (set_object (up_FileID u) (Some (up_Data u))
         (set_partial (up_PartialID u) None s)))\<lparr>fs_used := add64 (fs_used s) (fr_Size rec)\<rparr>"
      "s' = fst (persist_share True s2)" "e = None"
  | (undone) rec s2 where "rec = rec0\<lparr>fr_ExpiresAt := ee_Now env + se_RetentionDays (ss_Settings (fs_state s)) * hours 24\<rparr>"
      "s2 = (set_files (gput (up_FileID u) rec (files_of s)) (set_object (up_FileID u) (Some (up_Data u))
         (set_partial (up_PartialID u) None s)))\<lparr>fs_used := add64 (fs_used s) (fr_Size rec)\<rparr>"
      "s' = set_object (up_FileID u) None ((set_files (gdel (up_FileID u) (files_of s2)) s2)
         \<lparr>fs_used := sub64 (fs_used s2) (fr_Size rec)\<rparr>)" "e \<noteq> None"
proof -
  define rec where "rec = rec0\<lparr>fr_ExpiresAt := ee_Now env + se_RetentionDays (ss_Settings (fs_state s)) * hours 24\<rparr>"
  define s2 where "s2 = (set_files (gput (up_FileID u) rec (files_of s)) (set_object (up_FileID u) (Some (up_Data u))
         (set_partial (up_PartialID u) None s)))\<lparr>fs_used := add64 (fs_used s) (fr_Size rec)\<rparr>"
  have eq: "commit_upload env u rec0 s = (if \<not> ee_RenameOK env then (s, Some ErrShareIO)
      else if ee_PersistOK env then (fst (persist_share True s2), None)
      else (set_object (up_FileID u) None ((set_files (gdel (up_FileID u) (files_of s2)) s2)
         \<lparr>fs_used := sub64 (fs_used s2) (fr_Size rec)\<rparr>), Some ErrShareIO))"
    unfolding commit_upload_def Let_def u rec_def [symmetric]
    by (simp add: s2_def persist_share_def)
  show ?thesis
    using r unfolding eq
    by (auto split: if_splits intro: unchanged committed [OF rec_def s2_def] undone [OF rec_def s2_def])
qed

lemma inv_end:
  assumes inv: "share_inv sha (s, ups)" and u: "gget ups k = Some u"
  shows "share_inv sha (fst (upload_end sha env (Some (guard_of refused)) u s), gdel k ups)"
proof -
  from inv have c: "counts_ok (s, ups)" and st: "staged_ok (s, ups)" by (simp_all add: share_inv_iff)
  note b = counts_bounds(1-4) [OF c] and hu = counts_bounds(5) [OF c u]
  define a where "a = upload_abort u s"
  have a: "share_inv sha (a, gdel k ups)" unfolding a_def by (rule inv_abort [OF inv u])
  let ?n = "int (length (up_Data u))" and ?gone = "set_partial (up_PartialID u) None"
  define s1 where "s1 = release u s"
  have s1: "?gone s1 = a" by (simp add: s1_def a_def upload_abort_fields)
  define rec0 where "rec0 = \<lparr>fr_ID = up_FileID u, fr_Name = up_Name u, fr_Size = ?n, fr_SHA256 = sha (up_Data u),
               fr_ContentType = up_ContentType u, fr_UploadedBy = up_UploadedBy u, fr_Status = FileReady,
               fr_CreatedAt = ee_Now env, fr_ExpiresAt = 0, fr_Revision = 1, fr_DeleteError = []\<rparr>"
  obtain s2 e where guard: "guard_of refused (commit_upload env u rec0) s1 = (s2, e)" by fastforce
  have "fst (upload_end sha env (Some (guard_of refused)) u s) \<in> {a, ?gone s2}" 
    and last: "fst (upload_end sha env (Some (guard_of refused)) u s) = a
      \<or> ((up_Expected u > 0 \<longrightarrow> ?n = up_Expected u) \<and> fst (upload_end sha env (Some (guard_of refused)) u s) = ?gone s2)"
    using guard unfolding upload_end_def Let_def s1_def rec0_def
    by (auto simp: a_def upload_abort_fields(7) not_less split: option.split)
  show ?thesis
  proof (rule disjE [OF last])
    assume "fst (upload_end sha env (Some (guard_of refused)) u s) = a"
    with a show ?thesis by simp
  next
    assume "(up_Expected u > 0 \<longrightarrow> ?n = up_Expected u) \<and> fst (upload_end sha env (Some (guard_of refused)) u s) = ?gone s2"
    then have n: "up_Expected u > 0 \<Longrightarrow> ?n = up_Expected u"
      and fin: "fst (upload_end sha env (Some (guard_of refused)) u s) = ?gone s2" by blast+
    have held: "held u = ?n" using hu n unfolding upload_ok_def held_def by (cases "up_Expected u = 0") auto
    have part: "gget (sk_partials (fs_disk s1)) (up_PartialID u) = Some (up_Data u)"
      using stagedD(1) [OF st u] by (simp add: s1_def)
    have new: "unused_id a (up_FileID u)" unfolding a_def
      using stagedD(2) [OF st u] by (rule unused_more)
        (use stagedD(2) [OF st u] in \<open>auto simp: upload_abort_fields unused_id_def\<close>)
    have other: "up_FileID v \<noteq> up_FileID u" if "gget (gdel k ups) j = Some v" for j v
      using that stagedD(3) [OF st u, of j v] by (auto split: if_splits)
    have res: "fs_reserved a = fs_reserved s - ?n" using release_id [OF c u] held by (simp add: a_def upload_abort_fields)
    have room: "fs_used a + fs_reserved a + ?n \<le> fs_quota a" using b res by (simp add: a_def upload_abort_fields)
    have sums: "add64 (fs_used s) ?n = fs_used s + ?n" "sub64 (fs_used s + ?n) ?n = fs_used s"
      using b hu held by simp_all
    show ?thesis
    proof (cases refused)
      case (Some x)
      with guard a s1 fin show ?thesis by (simp add: guard_of_def)
    next
      case None
      with guard have r: "commit_upload env u rec0 s1 = (s2, e)" by (simp add: guard_of_def)
      have add: "share_inv sha (?gone t, gdel k ups)"
        if t: "t = (set_files (gput (up_FileID u) rec (files_of s1)) (set_object (up_FileID u) (Some (up_Data u))
            (?gone s1)))\<lparr>fs_used := add64 (fs_used s1) (fr_Size rec)\<rparr>"
          and rec: "fr_Size rec = ?n" "fr_SHA256 rec = sha (up_Data u)" for t rec
      proof (rule inv_add_file [OF a new other rec room])
        show "sk_objects (fs_disk (?gone t)) = gput (up_FileID u) (up_Data u) (sk_objects (fs_disk a))"
          by (simp add: t s1 a_def set_object_def upload_abort_fields set_files_def)
        show "sk_partials (fs_disk (?gone t)) = sk_partials (fs_disk a)"
          by (simp add: t s1 [symmetric] set_files_def set_object_def set_partial_def delete_idem)
      qed (simp_all add: t s1 rec a_def upload_abort_fields s1_def sums)
      from part r show ?thesis
      proof (cases rule: commit_cases)
        case unchanged
        with a s1 fin show ?thesis by simp
      next
        case (committed rec t)
        have "share_inv sha (?gone t, gdel k ups)" by (rule add [OF committed(2)]) (simp_all add: committed(1) rec0_def)
        moreover have "?gone s2 = fst (persist_share True (?gone t))"
          by (simp add: committed persist_share_def set_partial_def delete_idem)
        ultimately show ?thesis using inv_persist [of sha "?gone t" _ True] fin by simp
      next
        case (undone rec t)
        have t: "share_inv sha (?gone t, gdel k ups)" by (rule add [OF undone(2)]) (simp_all add: undone(1) rec0_def)
        have no_link: "dl_FileID l \<noteq> up_FileID u" if "l \<in> set (gvals (links_of s))" for l
        proof
          assume "dl_FileID l = up_FileID u"
          moreover have "gget (files_of s) (dl_FileID l) \<noteq> None"
            using inv that unfolding share_inv_iff links_ok_def by blast
          ultimately show False using stagedD(2) [OF st u] by (simp add: unused_id_def)
        qed
        have "share_inv sha (?gone s2, gdel k ups)"
        proof (rule inv_drop_file [OF t])
          show "gget (files_of (?gone t)) (up_FileID u) = Some rec" by (simp add: undone)
          show "sk_objects (fs_disk (?gone s2)) = gdel (up_FileID u) (sk_objects (fs_disk (?gone t)))"
            by (simp add: undone(3) set_object_def set_files_def)
          show "fs_used (?gone s2) = fs_used (?gone t) - fr_Size rec"
            using sums by (simp add: undone rec0_def s1_def)
          show "l \<in> set (gvals (links_of (?gone s2))) \<Longrightarrow>
              l \<in> set (gvals (links_of (?gone t))) \<and> dl_FileID l \<noteq> up_FileID u" for l
            using no_link [of l] by (simp add: undone s1_def del: set_map)
        qed (simp_all add: undone(3) set_partial_def set_object_def set_files_def delete_idem)
        with fin show ?thesis by simp
      qed
    qed
  qed
qed



lemma gvals_gputD: "l \<in> set (gvals (gput k v m)) \<Longrightarrow> l = v \<or> l \<in> set (gvals m)"
  using gvals_gput [of k v m] by blast

lemma gvals_gdelD: "l \<in> set (gvals (gdel k m)) \<Longrightarrow> l \<in> set (gvals m)"
  using gvals_gdel [of k m] by blast

lemma gvals_gdel_if: "set (gvals (gdel_if (\<lambda>_ l. P l) m)) = {l \<in> set (gvals m). \<not> P l}"
  by (auto simp: gdel_if_def)

lemma share_Delete_inv:
  assumes inv: "share_inv sha (s, ups)"
  shows "share_inv sha (fst (share_Delete removed ok i s), ups)"
proof (cases "gget (files_of s) i")
  case (Some rec0)
  from inv have c: "counts_ok (s, ups)" and l: "links_ok s" by (simp_all add: share_inv_iff)
  define ls where "ls = gdel_if (\<lambda>_ l. dl_FileID l = i) (links_of s)"
  have ls: "x \<in> set (gvals ls) \<Longrightarrow> x \<in> set (gvals (links_of s)) \<and> dl_FileID x \<noteq> i" for x
    unfolding ls_def gvals_gdel_if by simp
  define r1 where "r1 = rec0\<lparr>fr_Status := FileDeleting, fr_Revision := fr_Revision rec0 + 1\<rparr>"
  define s1 where "s1 = set_links ls (set_files (gput i r1 (files_of s)) s)"
  show ?thesis
  proof (cases removed)
    case None
    define used where "used = sub64 (fs_used s) (fr_Size rec0)"
    have used: "used = fs_used s - fr_Size rec0" "\<not> used < 0"
      using counts_bounds(1-4) [OF c] counts_bounds(6) [OF c Some] by (simp_all add: used_def)
    define s2 where "s2 = (set_object i None (set_files (gdel i (files_of s1)) s1))\<lparr>fs_used := used\<rparr>"
    have "fst (share_Delete removed ok i s) = fst (persist_share ok s2)"
      using used(2) unfolding share_Delete_def s2_def s1_def r1_def ls_def used_def
      by (simp add: Some None Let_def case_prod_beta)
    moreover have "share_inv sha (s2, ups)"
    proof (rule inv_drop_file [OF inv Some])
      show "files_of s2 = gdel i (files_of s)" by (simp add: s2_def s1_def delete_update_same)
      show "x \<in> set (gvals (links_of s2)) \<Longrightarrow> x \<in> set (gvals (links_of s)) \<and> dl_FileID x \<noteq> i" for x
        using ls [of x] by (simp add: s2_def s1_def del: set_map)
    qed (simp_all add: s2_def s1_def used set_object_def)
    ultimately show ?thesis using inv_persist by simp
  next
    case (Some msg)
    define r2 where "r2 = r1\<lparr>fr_Status := FileDeleteFailed, fr_DeleteError := msg, fr_Revision := fr_Revision r1 + 1\<rparr>"
    define s2 where "s2 = set_files (gput i r2 (files_of s1)) s1"
    have "fst (share_Delete removed ok i s) = fst (persist_share ok s2)"
      unfolding share_Delete_def s2_def s1_def r2_def r1_def ls_def
      by (simp add: Some \<open>gget (files_of s) i = _\<close> Let_def)
    moreover have "share_inv sha (s2, ups)"
    proof (rule inv_edit_file [OF inv])
      have "files_of s2 = gput i r2 (files_of s)" by (simp add: s2_def s1_def)
      then show "files_of s2 = files_of s \<or> (\<exists>i rec rec'. gget (files_of s) i = Some rec
          \<and> files_of s2 = gput i rec' (files_of s) \<and> fr_Size rec' = fr_Size rec \<and> fr_SHA256 rec' = fr_SHA256 rec)"
        using \<open>gget (files_of s) i = _\<close> by (intro disjI2 exI [of _ i] exI [of _ rec0] exI [of _ r2]) (simp add: r2_def r1_def)
      show "links_ok s2" unfolding links_ok_def
        using ls l by (auto simp: s2_def s1_def links_ok_def simp del: set_map)
    qed (simp_all add: s2_def s1_def)
    ultimately show ?thesis using inv_persist by simp
  qed
qed (use inv in \<open>simp add: share_Delete_def\<close>)

lemma share_cleanup_inv:
  assumes "share_inv sha (s, ups)"
  shows "share_inv sha (fst (CleanupExpired removed ok now s), ups)"
proof -
  have "share_inv sha (fst (fold (\<lambda>i (s, errs). let (s1, e) = share_Delete (removed i) (ok i) i s in
             (s1, errs @ (case e of None \<Rightarrow> [] | Some x \<Rightarrow> [x]))) is (s, errs)), ups)" for "is" errs
    using assms
  proof (induction "is" arbitrary: s errs)
    case (Cons i "is")
    show ?case using Cons.IH [OF share_Delete_inv [OF Cons.prems, of "removed i" "ok i" i]]
      by (simp add: case_prod_beta Let_def)
  qed simp
  then show ?thesis by (simp add: CleanupExpired_def)
qed

lemma share_settings_inv:
  assumes inv: "share_inv sha (s, ups)"
  shows "share_inv sha (fst (UpdateSettings ok nxt s), ups)"
proof -
  have set: "share_inv sha (s\<lparr>fs_state := (fs_state s)\<lparr>ss_Settings := x\<rparr>\<rparr>, ups)" for x
    by (rule inv_edit_file [OF inv]) (use inv in \<open>simp_all add: share_inv_iff links_ok_def\<close>)
  let ?n = "nxt\<lparr>se_Revision := se_Revision nxt + 1\<rparr>"
  have "fst (UpdateSettings ok nxt s) = s
      \<or> fst (UpdateSettings ok nxt s) = fst (persist_share True (s\<lparr>fs_state := (fs_state s)\<lparr>ss_Settings := ?n\<rparr>\<rparr>))"
    by (auto simp: UpdateSettings_def Let_def persist_share_def)
  then show ?thesis using inv inv_persist [OF set] by metis
qed

lemma commit_link_inv:
  assumes inv: "share_inv sha (s, ups)" and f: "gget (files_of s) (dl_FileID l) \<noteq> None"
    and r: "fst (commit_link ok l s) = s'"
  shows "share_inv sha (s', ups)"
proof -
  have l: "links_ok s" using inv by (simp add: share_inv_iff)
  let ?t = "set_links (gput (dl_ID l) l (links_of s)) s"
  have "share_inv sha (?t, ups)"
    by (rule inv_edit_file [OF inv])
      (use l f in \<open>auto simp: links_ok_def dest!: gvals_gputD simp del: set_map\<close>)
  note t = this
  have "share_inv sha (set_links (gdel (dl_ID l) (gput (dl_ID l) l (links_of s))) ?t, ups)"
  proof (rule inv_edit_file [OF t])
    show "links_ok (set_links (gdel (dl_ID l) (gput (dl_ID l) l (links_of s))) ?t)"
      using l by (auto simp: links_ok_def delete_update_same simp del: set_map dest!: gvals_gdelD)
  qed simp_all
  with inv_persist [OF t, of True] r show ?thesis
    by (auto simp: commit_link_def persist_share_def split: if_splits)
qed

lemma share_link_inv:
  assumes inv: "share_inv sha (s, ups)"
  shows "share_inv sha (fst (CreateLinkWithCommitGuard sha env (Some (guard_of refused)) i who d s), ups)"
proof -
  have g: "share_inv sha (fst (guard_of refused (commit_link ok l) s), ups)" if "gget (files_of s) (dl_FileID l) \<noteq> None" for ok l
    using inv commit_link_inv [OF inv that] by (auto simp: guard_of_def split: option.split)
  show ?thesis
    unfolding CreateLinkWithCommitGuard_def
    by (auto simp: Let_def case_prod_beta inv split: option.split intro!: g)
qed

lemma share_revoke_inv:
  assumes inv: "share_inv sha (s, ups)"
  shows "share_inv sha (fst (RevokeLink ok now i l s), ups)"
proof (cases "gget (links_of s) l")
  case (Some x)
  have l: "links_ok s" using inv by (simp add: share_inv_iff)
  have x: "gget (files_of s) (dl_FileID x) \<noteq> None"
    using l gget_in_vals [OF Some] unfolding links_ok_def by blast
  have "share_inv sha (set_links (gput l (x\<lparr>dl_RevokedAt := Some now\<rparr>) (links_of s)) s, ups)"
    by (rule inv_edit_file [OF inv])
      (use l x in \<open>auto simp: links_ok_def dest!: gvals_gputD simp del: set_map\<close>)
  with Some inv show ?thesis
    by (auto simp: RevokeLink_def Let_def case_prod_beta intro: inv_persist)
qed (use inv in \<open>simp add: RevokeLink_def\<close>)


section \<open>A restart\<close>

text \<open>The object of a file that can be examined, and what the recovery leaves of its record.\<close>

definition found :: "(string \<Rightarrow> bool) \<Rightarrow> share_service \<Rightarrow> string \<Rightarrow> string option" where
  "found stat s i = (if stat i then gget (sk_objects (fs_disk s)) i else None)"

definition found_size :: "(string \<Rightarrow> bool) \<Rightarrow> share_service \<Rightarrow> string \<Rightarrow> int" where
  "found_size stat s i = (case found stat s i of None \<Rightarrow> 0 | Some c \<Rightarrow> int (length c))"

definition recovered :: "FileRecord \<Rightarrow> string \<Rightarrow> FileRecord" where
  "recovered rec c = rec\<lparr>fr_Size := int (length c), fr_Status := FileReady\<rparr>"

lemma recover_file_cases:
  "recover_file stat (i, rec) (s, used, changed) = (case found stat s i of
      None \<Rightarrow> (set_links (gdel_if (\<lambda>_ l. dl_FileID l = i) (links_of s)) (set_files (gdel i (files_of s)) s), used, True)
    | Some c \<Rightarrow> (set_files (gput i (recovered rec c) (files_of s)) s, add64 used (found_size stat s i), changed))"
  by (auto simp: recover_file_def found_def found_size_def recovered_def Let_def split: option.split)

lemma found_set [simp]: "found stat (set_files m s) = found stat s" "found stat (set_links n s) = found stat s"
  "found_size stat (set_files m s) = found_size stat s" "found_size stat (set_links n s) = found_size stat s"
  by (simp_all add: found_def found_size_def fun_eq_iff)

lemma recover_fold:
  assumes "fold (recover_file stat) es (s, used, changed) = (s', used', changed')" "wf_map es" "wf_map (files_of s)"
    and "0 \<le> used" "used + (\<Sum>i \<in> set (gkeys es). found_size stat s i) < 2 ^ 63"
  shows "gget (files_of s') i = (case gget es i of None \<Rightarrow> gget (files_of s) i
      | Some rec \<Rightarrow> map_option (recovered rec) (found stat s i)) \<and> wf_map (files_of s')
    \<and> set (gvals (links_of s')) = {l \<in> set (gvals (links_of s)). \<not> (gget es (dl_FileID l) \<noteq> None \<and> found stat s (dl_FileID l) = None)}
    \<and> used' = used + (\<Sum>i \<in> set (gkeys es). found_size stat s i)
    \<and> fs_disk s' = fs_disk s \<and> fs_quota s' = fs_quota s \<and> fs_reserved s' = fs_reserved s"
  using assms
proof (induction es arbitrary: s used changed)
  case (Cons e es)
  obtain k rec where e: "e = (k, rec)" by fastforce
  from Cons.prems(2) e have k: "k \<notin> set (gkeys es)" "wf_map es" "gget es k = None"
    by (auto simp: wf_map_def map_of_eq_None_iff)
  have pos: "0 \<le> found_size stat s j" for j by (simp add: found_size_def split: option.split)
  then have rest: "0 \<le> (\<Sum>i \<in> set (gkeys es). found_size stat s i)" by (simp add: sum_nonneg)
  have total: "(\<Sum>i \<in> set (gkeys (e # es)). found_size stat s i)
      = found_size stat s k + (\<Sum>i \<in> set (gkeys es). found_size stat s i)"
    using k(1) by (simp add: e)
  show ?case
  proof (cases "found stat s k")
    case None
    let ?s = "set_links (gdel_if (\<lambda>_ l. dl_FileID l = k) (links_of s)) (set_files (gdel k (files_of s)) s)"
    have z: "found_size stat s k = 0" by (simp add: found_size_def None)
    have "fold (recover_file stat) es (?s, used, True) = (s', used', changed')"
      using Cons.prems(1) by (simp add: e recover_file_cases None)
    from Cons.IH [OF this k(2)] Cons.prems(3-5) total z
    have IH: "gget (files_of s') i = (case gget es i of None \<Rightarrow> gget (files_of ?s) i
        | Some rec \<Rightarrow> map_option (recovered rec) (found stat s i)) \<and> wf_map (files_of s')
      \<and> set (gvals (links_of s')) = {l \<in> set (gvals (links_of ?s)). \<not> (gget es (dl_FileID l) \<noteq> None \<and> found stat s (dl_FileID l) = None)}
      \<and> used' = used + (\<Sum>i \<in> set (gkeys es). found_size stat s i)
      \<and> fs_disk s' = fs_disk s \<and> fs_quota s' = fs_quota s \<and> fs_reserved s' = fs_reserved s"
      by (simp del: set_map cong: option.case_cong)
    have "set (gvals (links_of ?s)) = {l \<in> set (gvals (links_of s)). dl_FileID l \<noteq> k}"
      by (simp only: setters gvals_gdel_if)
    with IH total z k(3) None show ?thesis by (auto simp: e simp del: set_map split: option.split)
  next
    case (Some c)
    let ?s = "set_files (gput k (recovered rec c) (files_of s)) s"
    have add: "add64 used (found_size stat s k) = used + found_size stat s k"
      using Cons.prems(4,5) total rest pos [of k] by (intro add64_id) simp_all
    have "fold (recover_file stat) es (?s, used + found_size stat s k, changed) = (s', used', changed')"
      using Cons.prems(1) by (simp add: e recover_file_cases Some add)
    from Cons.IH [OF this k(2)] Cons.prems(3-5) total pos [of k]
    have IH: "gget (files_of s') i = (case gget es i of None \<Rightarrow> gget (files_of ?s) i
        | Some rec \<Rightarrow> map_option (recovered rec) (found stat s i)) \<and> wf_map (files_of s')
      \<and> set (gvals (links_of s')) = {l \<in> set (gvals (links_of s)). \<not> (gget es (dl_FileID l) \<noteq> None \<and> found stat s (dl_FileID l) = None)}
      \<and> used' = used + found_size stat s k + (\<Sum>i \<in> set (gkeys es). found_size stat s i)
      \<and> fs_disk s' = fs_disk s \<and> fs_quota s' = fs_quota s \<and> fs_reserved s' = fs_reserved s"
      by (simp del: set_map cong: option.case_cong)
    with total k(3) Some show ?thesis by (auto simp: e simp del: set_map split: option.split)
  qed
qed simp


lemma restart_facts:
  assumes inv: "share_inv sha (s, ups)" and r: "share_Open stat load_ok recover_ok (fs_quota s) (fs_disk s) = Inr s'"
  shows "share_inv sha (s', [])" and "\<exists>st. meta_state s = Some st \<and> (\<forall>i. gget (files_of s') i = (case gget (ss_Files st) i of
      None \<Rightarrow> None | Some rec \<Rightarrow> map_option (recovered rec) (if stat i then gget (sk_objects (fs_disk s)) i else None))
      \<and> gget (sk_objects (fs_disk s')) i = (if gget (files_of s') i = None then None else gget (sk_objects (fs_disk s)) i))"
proof -
  from inv have c: "counts_ok (s, ups)" and om: "objects_match sha s" and mm: "meta_match sha s" by (simp_all add: share_inv_iff)
  from mm obtain st where st: "meta_state s = Some st" "wf_map (ss_Files st)"
    and sha: "\<And>i rec c. gget (ss_Files st) i = Some rec \<Longrightarrow> gget (sk_objects (fs_disk s)) i = Some c \<Longrightarrow> fr_SHA256 rec = sha c"
    and ln: "\<And>l. l \<in> set (gvals (ss_Links st)) \<Longrightarrow> gget (ss_Files st) (dl_FileID l) \<noteq> None"
    by (rule meta_matchE) (rule that)
  have meta: "sk_meta (fs_disk s) = MetaData st" using st(1) by (simp add: meta_state_def split: meta_file.splits)
  define q where "q = (if fs_quota s \<le> 0 then DefaultQuotaBytes else fs_quota s)"
  define a where "a = \<lparr>fs_quota = q, fs_used = 0, fs_reserved = 0, fs_state = st,
    fs_disk = (fs_disk s)\<lparr>sk_partials := []\<rparr>\<rparr>"
  obtain b used changed where f: "fold (recover_file stat) (ss_Files st) (a, 0, False) = (b, used, changed)"
    by (metis prod_cases3)
  define d where "d = b\<lparr>fs_disk := (fs_disk b)\<lparr>sk_objects :=
    gdel_if (\<lambda>i _. gget (files_of b) i = None) (sk_objects (fs_disk b))\<rparr>, fs_used := used\<rparr>"
  have s': "s' = d \<or> s' = fst (persist_share True d)"
    using r f unfolding share_Open_def load_share_def recover_share_def meta Let_def
    by (auto simp: a_def q_def d_def persist_share_def meta split: if_splits)
  have fa: "found stat a i = (if stat i then gget (sk_objects (fs_disk s)) i else None)" for i
    by (simp add: found_def a_def)
  have size: "found_size stat a i = fr_Size rec" if "found stat a i \<noteq> None" "gget (files_of s) i = Some rec" for i rec
    using that objects_matchD(3) [OF om that(2)] by (auto simp: found_size_def fa split: if_splits)
  note cb = counts_bounds(1-4) [OF c]
  have wf: "wf_map (files_of s)" "fs_used s = gsum fr_Size (files_of s)" using c by (simp_all add: counts_ok_def)
  let ?sum = "\<Sum>i \<in> set (gkeys (ss_Files st)). found_size stat a i"
  have "?sum = (\<Sum>i \<in> {i \<in> set (gkeys (ss_Files st)). found stat a i \<noteq> None}. found_size stat a i)"
    by (rule sum.mono_neutral_right) (auto simp: found_size_def)
  also have "\<dots> = (\<Sum>i \<in> {i \<in> set (gkeys (ss_Files st)). found stat a i \<noteq> None}. fr_Size (the (gget (files_of s) i)))"
  proof (rule sum.cong)
    fix i assume i: "i \<in> {i \<in> set (gkeys (ss_Files st)). found stat a i \<noteq> None}"
    then have "gget (sk_objects (fs_disk s)) i \<noteq> None" by (auto simp: fa split: if_splits)
    then obtain rec where "gget (files_of s) i = Some rec" using objects_matchD(2) [OF om, of i] by auto
    with size i show "found_size stat a i = fr_Size (the (gget (files_of s) i))" by simp
  qed simp
  also have "\<dots> \<le> gsum fr_Size (files_of s)"
    unfolding gsum_keys [OF wf(1)]
  proof (rule sum_mono2)
    show "{i \<in> set (gkeys (ss_Files st)). found stat a i \<noteq> None} \<subseteq> set (gkeys (files_of s))"
    proof
      fix i assume "i \<in> {i \<in> set (gkeys (ss_Files st)). found stat a i \<noteq> None}"
      then have "gget (sk_objects (fs_disk s)) i \<noteq> None" by (auto simp: fa split: if_splits)
      then show "i \<in> set (gkeys (files_of s))" unfolding in_gkeys using objects_matchD(2) [OF om, of i] by simp
    qed
  next
    fix i assume "i \<in> set (gkeys (files_of s)) - {i \<in> set (gkeys (ss_Files st)). found stat a i \<noteq> None}"
    then obtain rec where "gget (files_of s) i = Some rec" using in_gkeys [of i "files_of s"] by blast
    with counts_bounds(6) [OF c] show "0 \<le> fr_Size (the (gget (files_of s) i))" by simp
  qed simp
  finally have le: "?sum \<le> fs_used s" using wf(2) by simp
  note rf = recover_fold [OF f st(2)]
  have fb: "gget (files_of b) i = (case gget (ss_Files st) i of None \<Rightarrow> None
      | Some rec \<Rightarrow> map_option (recovered rec) (found stat a i))" for i
    using rf [of i] st(2) le cb by (auto simp: a_def split: option.split)
  have b: "wf_map (files_of b)" "used = ?sum" "fs_disk b = fs_disk a" "fs_quota b = q" "fs_reserved b = 0"
    "set (gvals (links_of b)) = {l \<in> set (gvals (ss_Links st)). \<not> (gget (ss_Files st) (dl_FileID l) \<noteq> None \<and> found stat a (dl_FileID l) = None)}"
    using rf st(2) le cb by (simp_all add: a_def del: set_map)
  have some: "\<exists>r c. gget (ss_Files st) i = Some r \<and> found stat a i = Some c \<and> gget (sk_objects (fs_disk s)) i = Some c \<and> rec = recovered r c"
    if "gget (files_of b) i = Some rec" for i rec
    using that unfolding fb by (auto simp: fa split: option.splits if_splits)
  have total: "gsum fr_Size (files_of b) = used"
    unfolding gsum_keys [OF b(1)] b(2)
  proof (rule sum.mono_neutral_cong_left)
    show "set (gkeys (files_of b)) \<subseteq> set (gkeys (ss_Files st))"
    proof
      fix i assume "i \<in> set (gkeys (files_of b))"
      then obtain rec where "gget (files_of b) i = Some rec" unfolding in_gkeys by blast
      from some [OF this] show "i \<in> set (gkeys (ss_Files st))" unfolding in_gkeys by auto
    qed
    show "\<forall>i \<in> set (gkeys (ss_Files st)) - set (gkeys (files_of b)). found_size stat a i = 0"
    proof
      fix i assume "i \<in> set (gkeys (ss_Files st)) - set (gkeys (files_of b))"
      then have "gget (ss_Files st) i \<noteq> None" "gget (files_of b) i = None"
        using in_gkeys [of i "ss_Files st"] in_gkeys [of i "files_of b"] by blast+
      then show "found_size stat a i = 0" by (auto simp: fb found_size_def)
    qed
    fix i assume "i \<in> set (gkeys (files_of b))"
    then obtain rec where "gget (files_of b) i = Some rec" using in_gkeys [of i "files_of b"] by blast
    with some [OF this] show "fr_Size (the (gget (files_of b) i)) = found_size stat a i"
      by (auto simp: found_size_def recovered_def)
  qed simp
  have objects: "gget (sk_objects (fs_disk d)) i = (if gget (files_of b) i = None then None else gget (sk_objects (fs_disk s)) i)" for i
    using objects_matchD(1) [OF om] by (auto simp: d_def b(3) a_def gget_gdel_if split: option.split)
  have "counts_ok (d, [])"
    using b total le cb some q_def by (fastforce simp: counts_ok_def d_def recovered_def DefaultQuotaBytes_def)
  moreover have "objects_match sha d" unfolding objects_match_def
  proof (intro conjI allI impI)
    show "wf_map (sk_objects (fs_disk d))" using objects_matchD(1) [OF om] by (simp add: d_def b(3) a_def wf_gdel_if)
    show "gget (files_of d) i = None \<longleftrightarrow> gget (sk_objects (fs_disk d)) i = None" for i
      unfolding objects using some [of i] by (auto simp: d_def)
    show "fr_Size rec = int (length c)" "fr_SHA256 rec = sha c"
      if "gget (files_of d) i = Some rec" "gget (sk_objects (fs_disk d)) i = Some c" for i rec c
      using that some [of i rec] sha [of i] unfolding objects by (auto simp: d_def recovered_def split: if_splits)
  qed
  moreover have "meta_match sha d" unfolding meta_match_def
  proof (intro exI [of _ st] conjI allI impI ballI)
    show "meta_state d = Some st" by (simp add: meta_state_def d_def b(3) a_def meta)
    show "fr_SHA256 rec = sha c" if "gget (ss_Files st) i = Some rec" "gget (sk_objects (fs_disk d)) i = Some c" for i rec c
      using that sha unfolding objects by (auto split: if_splits)
  qed (use st(2) ln in blast)+
  moreover have "links_ok d" unfolding links_ok_def
  proof
    fix l assume "l \<in> set (gvals (links_of d))"
    then have "l \<in> set (gvals (ss_Links st))" "\<not> (gget (ss_Files st) (dl_FileID l) \<noteq> None \<and> found stat a (dl_FileID l) = None)"
      using b(6) by (simp_all add: d_def del: set_map)
    with ln [of l] show "gget (files_of d) (dl_FileID l) \<noteq> None" by (auto simp: d_def fb split: option.split)
  qed
  moreover have "staged_ok (d, [])" by (rule stagedI) simp_all
  ultimately have "share_inv sha (d, [])" by (simp add: share_inv_iff)
  with inv_persist s' show "share_inv sha (s', [])" by metis
  have same: "files_of s' = files_of b" "sk_objects (fs_disk s') = sk_objects (fs_disk d)"
    using s' by (auto simp: d_def persist_share_def)
  show "\<exists>st. meta_state s = Some st \<and> (\<forall>i. gget (files_of s') i = (case gget (ss_Files st) i of
      None \<Rightarrow> None | Some rec \<Rightarrow> map_option (recovered rec) (if stat i then gget (sk_objects (fs_disk s)) i else None))
      \<and> gget (sk_objects (fs_disk s')) i = (if gget (files_of s') i = None then None else gget (sk_objects (fs_disk s)) i))"
    using st(1) unfolding same objects fb fa by blast
qed

section \<open>Runs\<close>

lemma inv_step:
  assumes "share_inv sha st" "op_fresh oper st"
  shows "share_inv sha (share_step sha oper st)"
proof -
  obtain s ups where st: "st = (s, ups)" by fastforce
  note inv = assms(1) [unfolded st]
  show ?thesis
  proof (cases oper)
    case UploadBegins
    with assms st show ?thesis by (auto intro: inv_begin simp del: share_step.simps)
  next
    case UploadReads
    with inv st show ?thesis by (auto intro: inv_chunk simp del: share_step.simps)
  next
    case UploadFails
    with inv st show ?thesis by (auto intro: inv_fail simp del: share_step.simps)
  next
    case (UploadEnds k env refused)
    with inv st show ?thesis by (auto intro: inv_end split: option.split)
  next
    case FileDeleted
    with inv st show ?thesis by (simp add: share_Delete_inv)
  next
    case SettingsUpdated
    with inv st show ?thesis by (simp add: share_settings_inv)
  next
    case LinkCreated
    with inv st show ?thesis by (simp add: share_link_inv)
  next
    case LinkRevoked
    with inv st show ?thesis by (simp add: share_revoke_inv)
  next
    case FilesCleaned
    with inv st show ?thesis by (simp add: share_cleanup_inv)
  next
    case ServerRestarted
    with inv st show ?thesis by (auto dest: restart_facts(1) split: sum.split)
  qed
qed

lemma inv_run: "share_inv sha st \<Longrightarrow> run_fresh sha ops st \<Longrightarrow> share_inv sha (fold (share_step sha) ops st)"
  by (induction ops arbitrary: st) (simp_all add: inv_step)

text \<open>A new directory.\<close>

definition empty_disk :: share_disk where
  "empty_disk = \<lparr>sk_meta = NoMeta, sk_objects = [], sk_partials = []\<rparr>"

lemma inv_new:
  assumes "share_Open stat load_ok recover_ok quota empty_disk = Inr s" "quota \<le> 2 ^ 61"
  shows "share_inv sha (s, [])"
proof -
  have s: "s = \<lparr>fs_quota = (if quota \<le> 0 then DefaultQuotaBytes else quota), fs_used = 0, fs_reserved = 0,
               fs_state = \<lparr>ss_Settings = \<lparr>se_RetentionDays = DefaultRetentionDays, se_Revision = 1\<rparr>,
                 ss_Files = [], ss_Links = []\<rparr>,
               fs_disk = \<lparr>sk_meta = MetaData \<lparr>ss_Settings = \<lparr>se_RetentionDays = DefaultRetentionDays, se_Revision = 1\<rparr>,
                 ss_Files = [], ss_Links = []\<rparr>, sk_objects = [], sk_partials = []\<rparr>\<rparr>"
    using assms(1) unfolding share_Open_def load_share_def recover_share_def
    by (auto simp: empty_disk_def persist_share_def Let_def gdel_if_def split: if_splits)
  show ?thesis unfolding share_inv_iff
    using assms(2) by (auto simp: s counts_ok_def objects_match_def meta_match_def meta_state_def links_ok_def staged_ok_def
      DefaultQuotaBytes_def)
qed

lemma inv_reached:
  assumes "share_Open stat load_ok recover_ok quota empty_disk = Inr s0" "quota \<le> 2 ^ 61" "run_fresh sha ops (s0, [])"
    and "fold (share_step sha) ops (s0, []) = (s, ups)"
  shows "share_inv sha (s, ups)"
  using inv_run [OF inv_new [OF assms(1,2)] assms(3)] assms(4) by simp

section \<open>Properties\<close>

text \<open>
  C30: The quota is never exceeded. In a directory that began empty, after any sequence of uploads in
  any interleaving, deletions, cleanups and restarts, and with any of their writes failing, what is used is the
  sum of the sizes of the files, what is reserved is the sum of what the uploads on their way hold,
  and the two together are within the quota: no sum has wrapped around.
\<close>

theorem quota_kept:
  assumes "share_Open stat load_ok recover_ok quota empty_disk = Inr s0" "quota \<le> 2 ^ 61" "run_fresh sha ops (s0, [])"
    and "fold (share_step sha) ops (s0, []) = (s, ups)"
  shows "fs_used s = gsum fr_Size (files_of s) \<and> fs_reserved s = gsum held ups
    \<and> 0 \<le> fs_used s \<and> 0 \<le> fs_reserved s \<and> fs_used s + fs_reserved s \<le> fs_quota s"
proof -
  from inv_reached [OF assms] have c: "counts_ok (s, ups)" by (simp add: share_inv_iff)
  then show ?thesis using counts_bounds(1-3) [OF c] by (simp add: counts_ok_def)
qed

text \<open>
  C31: A download is what was uploaded: the bytes that \<open>OpenFile\<close> and \<open>OpenPublicFile\<close> serve have the size and the
  SHA-256 of the record they return, whatever happened to the directory since it was empty, and
  the file has not expired.
\<close>

theorem download_matches_record:
  assumes "share_Open stat load_ok recover_ok quota empty_disk = Inr s0" "quota \<le> 2 ^ 61" "run_fresh sha ops (s0, [])"
    and "fold (share_step sha) ops (s0, []) = (s, ups)"
    and "OpenFile can_open now i s = Inr (content, rec) \<or> OpenPublicFile sha can_open now i token s = Inr (content, rec)"
  shows "fr_Size rec = int (length content) \<and> fr_SHA256 rec = sha content \<and> now < fr_ExpiresAt rec"
proof -
  from inv_reached [OF assms(1-4)] have om: "objects_match sha s" by (simp add: share_inv_iff)
  have "gget (files_of s) i = Some rec \<and> gget (sk_objects (fs_disk s)) i = Some content \<and> now < fr_ExpiresAt rec"
    using assms(5) by (auto simp: OpenFile_def OpenPublicFile_def split: option.splits if_splits)
  with objects_matchD(3) [OF om] show ?thesis by blast
qed

text \<open>
  An upload that succeeds can be read back: \<open>OpenFile\<close> then returns the bytes that were sent and the record
  that the upload returned, until the file expires, which is as many days after the commit as the
  settings in force at the commit say.
\<close>

theorem upload_reads_back:
  assumes "share_Open stat load_ok recover_ok quota empty_disk = Inr s0" "quota \<le> 2 ^ 61" "run_fresh sha ops (s0, [])"
    and "fold (share_step sha) ops (s0, []) = (s, ups)" "gget ups k = Some u"
    and e: "upload_end sha env None u s = (s', Inr rec)" and "now < fr_ExpiresAt rec"
  shows "OpenFile True now (fr_ID rec) s' = Inr (up_Data u, rec)
    \<and> fr_ExpiresAt rec = ee_Now env + se_RetentionDays (ss_Settings (fs_state s)) * hours 24"
proof -
  from inv_reached [OF assms(1-4)] have st: "staged_ok (s, ups)" by (simp add: share_inv_iff)
  have part: "gget (sk_partials (fs_disk s)) (up_PartialID u) = Some (up_Data u)" by (rule stagedD(1) [OF st assms(5)])
  then have part1: "gget (sk_partials (fs_disk (release u s))) (up_PartialID u) = Some (up_Data u)" by simp
  define rec0 where "rec0 = \<lparr>fr_ID = up_FileID u, fr_Name = up_Name u, fr_Size = int (length (up_Data u)), fr_SHA256 = sha (up_Data u),
               fr_ContentType = up_ContentType u, fr_UploadedBy = up_UploadedBy u, fr_Status = FileReady,
               fr_CreatedAt = ee_Now env, fr_ExpiresAt = 0, fr_Revision = 1, fr_DeleteError = []\<rparr>"
  obtain s2 err where r: "commit_upload env u rec0 (release u s) = (s2, err)" by fastforce
  from e r have s': "err = None" "s' = set_partial (up_PartialID u) None s2"
    "rec = (case gget (files_of s2) (up_FileID u) of None \<Rightarrow> rec0 | Some r \<Rightarrow> r)"
    unfolding upload_end_def Let_def rec0_def by (auto split: if_splits option.splits)
  from part1 r show ?thesis
  proof (cases rule: commit_cases)
    case (committed r t)
    then have "rec = r" "gget (files_of s') (up_FileID u) = Some r" "gget (sk_objects (fs_disk s')) (up_FileID u) = Some (up_Data u)"
      by (simp_all add: s' persist_share_def)
    with committed(1) assms(7) show ?thesis by (simp add: OpenFile_def rec0_def)
  qed (use s' in simp_all)
qed

text \<open>
  A deleted file is gone, also when its object could not be removed or the metadata could not be
  written: neither its identifier nor any link finds it any more.
\<close>

theorem deleted_file_unreachable:
  "OpenFile can_open now i (fst (share_Delete removed ok i s)) = Inl ErrShareNotFound
   \<and> OpenPublicFile sha can_open now i token (fst (share_Delete removed ok i s)) = Inl ErrShareNotFound"
  by (auto simp: share_Delete_def OpenFile_def OpenPublicFile_def persist_share_def Let_def split: option.split)


section \<open>Where a restart and the deletions part\<close>

text \<open>
  A file whose object could not be removed is served again after a restart: the recovery marks every
  record that has an object as ready, also the one whose deletion had failed.
\<close>

theorem restart_revives_deleted:
  assumes "share_Open stat0 load_ok recover_ok quota empty_disk = Inr s0" "quota \<le> 2 ^ 61" "run_fresh sha ops (s0, [])"
    and "fold (share_step sha) ops (s0, []) = (s, ups)"
    and rec: "gget (files_of s) i = Some rec" "gget (sk_objects (fs_disk s)) i = Some content" "now < fr_ExpiresAt rec"
    and del: "share_Delete (Some msg) True i s = (s1, e)"
    and r: "share_Open (\<lambda>_. True) lok rok (fs_quota s1) (fs_disk s1) = Inr s2"
  shows "e \<noteq> None \<and> OpenFile True now i s1 = Inl ErrShareNotFound
    \<and> (\<exists>rec2. OpenFile True now i s2 = Inr (content, rec2) \<and> fr_Name rec2 = fr_Name rec)"
proof -
  have "share_inv sha (s1, ups)"
    using share_Delete_inv [OF inv_reached [OF assms(1-4)], of "Some msg" True i] del by simp
  from restart_facts(2) [OF this r] obtain st where st: "meta_state s1 = Some st"
    "\<And>j. gget (files_of s2) j = (case gget (ss_Files st) j of None \<Rightarrow> None
      | Some rec \<Rightarrow> map_option (recovered rec) (gget (sk_objects (fs_disk s1)) j))"
    "\<And>j. gget (sk_objects (fs_disk s2)) j = (if gget (files_of s2) j = None then None else gget (sk_objects (fs_disk s1)) j)"
    by auto
  define r1 where "r1 = rec\<lparr>fr_Status := FileDeleting, fr_Revision := fr_Revision rec + 1\<rparr>"
  define r2 where "r2 = r1\<lparr>fr_Status := FileDeleteFailed, fr_DeleteError := msg, fr_Revision := fr_Revision r1 + 1\<rparr>"
  have s1: "gget (files_of s1) i = Some r2" "st = fs_state s1" "gget (sk_objects (fs_disk s1)) i = Some content" "e \<noteq> None"
    using del st(1) rec by (auto simp: share_Delete_def Let_def persist_share_def meta_state_def r2_def r1_def)
  have "gget (files_of s2) i = Some (recovered r2 content)" "gget (sk_objects (fs_disk s2)) i = Some content"
    using st(2,3) s1 by simp_all
  with rec s1 show ?thesis by (simp add: OpenFile_def recovered_def r2_def r1_def)
qed

text \<open>
  An object that cannot be examined when the server starts is destroyed: its record is dropped as if there
  were no object, and the object, which then has no record, is removed.
\<close>

theorem unreadable_object_destroyed:
  assumes "share_Open stat0 load_ok recover_ok quota empty_disk = Inr s0" "quota \<le> 2 ^ 61" "run_fresh sha ops (s0, [])"
    and "fold (share_step sha) ops (s0, []) = (s, ups)"
    and r: "share_Open stat lok rok (fs_quota s) (fs_disk s) = Inr s1" and "\<not> stat i"
  shows "gget (files_of s1) i = None \<and> gget (sk_objects (fs_disk s1)) i = None"
  using restart_facts(2) [OF inv_reached [OF assms(1-4)] r] assms(6) by (auto split: option.split)

section \<open>Witnesses\<close>

definition demo_sha :: "string \<Rightarrow> string" where
  "demo_sha s = ''sha:'' @ s"

definition demo_begin :: "string \<Rightarrow> begin_env" where
  "demo_begin i = \<lparr>bn_DiskAvailable = None, bn_FileID = Some (''file_'' @ i), bn_PartialID = Some (''upload_'' @ i), bn_CreateOK = True\<rparr>"

definition demo_end :: end_env where
  "demo_end = \<lparr>ee_Now = 1, ee_SyncOK = True, ee_RenameOK = True, ee_PersistOK = True\<rparr>"

text \<open>Two uploads of unknown size; the second is still on its way.\<close>

definition demo_ops :: "share_op list" where
  "demo_ops = [UploadBegins 1 (demo_begin ''1'') ''a.txt'' ''text/plain'' ''ann'' 0, UploadReads 1 None 3 ''abc'',
     UploadBegins 2 (demo_begin ''2'') ''b.txt'' ''text/plain'' ''ann'' 0, UploadEnds 1 demo_end None,
     UploadReads 2 None 2 ''de'']"

definition demo_store :: share_service where
  "demo_store = (case share_Open (\<lambda>_. True) True True 100 empty_disk of Inr s \<Rightarrow> s)"

definition demo_state :: share_service where
  "demo_state = fst (fold (share_step demo_sha) demo_ops (demo_store, []))"

definition demo_uploads :: "(nat, upload) gomap" where
  "demo_uploads = snd (fold (share_step demo_sha) demo_ops (demo_store, []))"

lemma demo_open: "share_Open (\<lambda>_. True) True True 100 empty_disk = Inr demo_store"
  by code_simp

lemma demo_fresh: "run_fresh demo_sha demo_ops (demo_store, [])"
  by code_simp

lemma demo_run: "fold (share_step demo_sha) demo_ops (demo_store, []) = (demo_state, demo_uploads)"
  by (simp add: demo_state_def demo_uploads_def)

lemma demo_values: "fs_used demo_state = 3 \<and> fs_reserved demo_state = 2 \<and> fs_quota demo_state = 100"
  by code_simp

definition demo_record :: FileRecord where
  "demo_record = \<lparr>fr_ID = ''file_1'', fr_Name = ''a.txt'', fr_Size = 3, fr_SHA256 = ''sha:abc'', fr_ContentType = ''text/plain'',
     fr_UploadedBy = ''ann'', fr_Status = FileReady, fr_CreatedAt = 1, fr_ExpiresAt = 1 + 7 * hours 24, fr_Revision = 1,
     fr_DeleteError = []\<rparr>"

lemma demo_file: "gget (files_of demo_state) ''file_1'' = Some demo_record"
  "gget (sk_objects (fs_disk demo_state)) ''file_1'' = Some ''abc''" "2 < fr_ExpiresAt demo_record"
  by code_simp+

definition demo_upload :: upload where
  "demo_upload = the (gget demo_uploads 2)"

lemma demo_staged: "gget demo_uploads 2 = Some demo_upload"
  by code_simp

definition demo_second :: "share_service \<times> FileRecord" where
  "demo_second = (case upload_end demo_sha demo_end None demo_upload demo_state of (s, Inr r) \<Rightarrow> (s, r))"

lemma demo_second: "upload_end demo_sha demo_end None demo_upload demo_state = (fst demo_second, Inr (snd demo_second))"
  "2 < fr_ExpiresAt (snd demo_second)" "fr_ID (snd demo_second) = ''file_2''" "up_Data demo_upload = ''de''"
  by code_simp+

theorem quota_kept_witness:
  "fs_used demo_state = 3 \<and> fs_used demo_state = gsum fr_Size (files_of demo_state) \<and> fs_reserved demo_state = 2
   \<and> fs_used demo_state + fs_reserved demo_state \<le> fs_quota demo_state"
  using quota_kept [OF demo_open _ demo_fresh demo_run] demo_values by simp

theorem download_matches_record_witness:
  "OpenFile True 2 ''file_1'' demo_state = Inr (''abc'', demo_record) \<and> fr_SHA256 demo_record = demo_sha ''abc''"
proof -
  have "OpenFile True 2 ''file_1'' demo_state = Inr (''abc'', demo_record)"
    using demo_file by (simp add: OpenFile_def demo_record_def)
  with download_matches_record [OF demo_open _ demo_fresh demo_run, of True 2 "''file_1''" "''abc''" demo_record] show ?thesis
    by simp
qed

theorem upload_reads_back_witness:
  "OpenFile True 2 ''file_2'' (fst demo_second) = Inr (''de'', snd demo_second)"
  using upload_reads_back [OF demo_open _ demo_fresh demo_run demo_staged demo_second(1,2)] demo_second(3,4) by simp

definition demo_deleted :: "share_service \<times> share_error option" where
  "demo_deleted = share_Delete (Some ''busy'') True ''file_1'' demo_state"

definition demo_restart :: "(string \<Rightarrow> bool) \<Rightarrow> share_service \<Rightarrow> share_service" where
  "demo_restart stat s = (case share_Open stat True True (fs_quota s) (fs_disk s) of Inr s' \<Rightarrow> s')"

lemma demo_restarts:
  "share_Open (\<lambda>_. True) True True (fs_quota (fst demo_deleted)) (fs_disk (fst demo_deleted)) = Inr (demo_restart (\<lambda>_. True) (fst demo_deleted))"
  "share_Open (\<lambda>_. False) True True (fs_quota demo_state) (fs_disk demo_state) = Inr (demo_restart (\<lambda>_. False) demo_state)"
  by code_simp+

theorem restart_revives_deleted_witness:
  "\<exists>rec. OpenFile True 2 ''file_1'' (demo_restart (\<lambda>_. True) (fst demo_deleted)) = Inr (''abc'', rec)"
  using restart_revives_deleted [OF demo_open _ demo_fresh demo_run demo_file _ demo_restarts(1), of "''busy''" "snd demo_deleted"]
  by (auto simp: demo_deleted_def)

theorem unreadable_object_destroyed_witness:
  "gget (sk_objects (fs_disk (demo_restart (\<lambda>_. False) demo_state))) ''file_1'' = None
   \<and> gget (files_of (demo_restart (\<lambda>_. False) demo_state)) ''file_1'' = None"
  using unreadable_object_destroyed [OF demo_open _ demo_fresh demo_run demo_restarts(2), of "''file_1''"] by simp

end
