(* ===== verification/FileAccessProps.thy ===== *)
theory FileAccessProps
  imports FileAccess FileShareProps
begin

text \<open>
  The credentials for file operations: the coding of their texts, what a validation accepts, how long a
  revocation lasts, and the file that holds them.
\<close>

section \<open>Base64\<close>

lemma alphabet_index: "n < 64 \<Longrightarrow> index_of (url_char n) url_alphabet = Some n"
proof -
  have "\<forall>n \<in> set [0..<64]. index_of (url_char n) url_alphabet = Some n" by code_simp
  then show "n < 64 \<Longrightarrow> index_of (url_char n) url_alphabet = Some n" by simp
qed

lemma alphabet_plain: "n < 64 \<Longrightarrow> url_char n \<noteq> carriage_return \<and> url_char n \<noteq> newline"
proof -
  have "\<forall>n \<in> set [0..<64]. url_char n \<noteq> carriage_return \<and> url_char n \<noteq> newline" by code_simp
  then show "n < 64 \<Longrightarrow> url_char n \<noteq> carriage_return \<and> url_char n \<noteq> newline" by simp
qed

fun url_values :: "string \<Rightarrow> nat list" where
  "url_values [] = []"
| "url_values [a] = (let x = of_char a in [x div 4, x mod 4 * 16])"
| "url_values [a, b] = (let x = of_char a; y = of_char b in [x div 4, x mod 4 * 16 + y div 16, y mod 16 * 4])"
| "url_values (a # b # c # r) = (let x = of_char a; y = of_char b; z = of_char c in
     x div 4 # (x mod 4 * 16 + y div 16) # (y mod 16 * 4 + z div 64) # (z mod 64) # url_values r)"

lemma byte_bound: "of_char (c :: char) < (256 :: nat)"
  using nat_of_char_less_256 [of c] by simp

lemma div_parts: fixes a b :: nat assumes "b < k" shows "(a * k + b) div k = a" "(a * k + b) mod k = b"
  using assms by simp_all

lemma sextet:
  fixes x y z :: nat
  assumes "x < 256" "y < 256" "z < 256"
  shows "x div 4 < 64" "x mod 4 * 16 < 64" "x mod 4 * 16 + y div 16 < 64" "y mod 16 * 4 < 64"
    "y mod 16 * 4 + z div 64 < 64" "z mod 64 < 64"
proof -
  have b: "x div 4 < 64" "x mod 4 < 4" "y div 16 < 16" "y mod 16 < 16" "z div 64 < 4" "z mod 64 < 64"
    using assms by (simp_all add: less_mult_imp_div_less)
  then show "x div 4 < 64" "x mod 4 * 16 < 64" "x mod 4 * 16 + y div 16 < 64" "y mod 16 * 4 < 64"
    "y mod 16 * 4 + z div 64 < 64" "z mod 64 < 64" by linarith+
qed

lemma octet:
  fixes x y z :: nat
  assumes "x < 256" "y < 256" "z < 256"
  shows "x div 4 * 4 + x mod 4 * 16 div 16 = x" "x div 4 * 4 + (x mod 4 * 16 + y div 16) div 16 = x"
    "(x mod 4 * 16 + y div 16) mod 16 * 16 + y mod 16 * 4 div 4 = y"
    "(x mod 4 * 16 + y div 16) mod 16 * 16 + (y mod 16 * 4 + z div 64) div 4 = y"
    "(y mod 16 * 4 + z div 64) mod 4 * 64 + z mod 64 = z"
proof -
  have b: "y div 16 < 16" "z div 64 < 4"
    using assms by (simp_all add: less_mult_imp_div_less)
  show "x div 4 * 4 + x mod 4 * 16 div 16 = x" by simp
  show "x div 4 * 4 + (x mod 4 * 16 + y div 16) div 16 = x" unfolding div_parts [OF b(1)] by simp
  show "(x mod 4 * 16 + y div 16) mod 16 * 16 + y mod 16 * 4 div 4 = y" unfolding div_parts [OF b(1)] by simp
  show "(x mod 4 * 16 + y div 16) mod 16 * 16 + (y mod 16 * 4 + z div 64) div 4 = y" unfolding div_parts [OF b(1)] div_parts [OF b(2)] by simp
  show "(y mod 16 * 4 + z div 64) mod 4 * 64 + z mod 64 = z" unfolding div_parts [OF b(2)] by simp
qed

lemma url_values_bound: "n \<in> set (url_values s) \<Longrightarrow> n < 64"
  by (induction s rule: url_values.induct) (auto simp: Let_def intro: sextet byte_bound)

lemma url_encode_values: "url_encode s = map url_char (url_values s)"
  by (induction s rule: url_values.induct) (simp_all add: Let_def)

lemma url_bytes_values: "url_bytes (url_values s) = Some s"
proof (induction s rule: url_values.induct)
  case (2 a)
  show ?case using octet(1) [OF byte_bound byte_bound byte_bound, of a] by (simp only: url_values.simps Let_def url_bytes.simps char_of_char)
next
  case (3 a b)
  note o = octet [OF byte_bound [of a] byte_bound [of b] byte_bound [of b]]
  show ?case using o(2,3) by (simp only: url_values.simps Let_def url_bytes.simps char_of_char)
next
  case (4 a b c r)
  note o = octet [OF byte_bound [of a] byte_bound [of b] byte_bound [of c]]
  show ?case by (simp only: url_values.simps Let_def url_bytes.simps o(2,4,5) 4 option.map char_of_char)
qed simp

lemma url_decode_encode: "url_decode (url_encode s) = Some s"
proof -
  let ?cs = "map url_char (url_values s)"
  have f: "filter (\<lambda>c. c \<noteq> carriage_return \<and> c \<noteq> newline) ?cs = ?cs"
    using alphabet_plain url_values_bound by (force intro: filter_True)
  have "map (\<lambda>c. index_of c url_alphabet) ?cs = map Some (url_values s)"
    using alphabet_index url_values_bound by simp
  then show ?thesis
    unfolding url_decode_def Let_def url_encode_values f by (simp add: url_bytes_values comp_def image_iff map_idI alphabet_index url_values_bound)
qed

lemma url_encode_length: "length (url_encode s) = (4 * length s + 2) div 3"
  by (induction s rule: url_encode.induct) (simp_all add: Let_def)

lemma raw_ok_new: "length b = 32 \<Longrightarrow> raw_ok (''agt_file_'' @ url_encode b)"
  by (simp add: raw_ok_def url_encode_length trim_prefix_def url_decode_encode)


section \<open>Steps\<close>

datatype token_op = TokenCreated create_env string string int | TokenRevokedBy bool time string string | TokensReopened

fun token_step :: "(string \<Rightarrow> string) \<Rightarrow> token_op \<Rightarrow> token_service \<Rightarrow> token_service" where
  "token_step sha (TokenCreated env who name days) s = fst (fa_Create sha env who name days s)"
| "token_step sha (TokenRevokedBy ok now who i) s = fst (fa_Revoke ok now who i s)"
| "token_step sha TokensReopened s = (case fa_Open (ts_path s) (ts_file s) of Inl e \<Rightarrow> s | Inr s1 \<Rightarrow> s1)"

definition file_tokens :: "token_service \<Rightarrow> (string, stored_token) gomap" where
  "file_tokens s = (case ts_file s of TokenFileData schema (Some ts) \<Rightarrow> ts | _ \<Rightarrow> [])"

definition new_id :: "create_env \<Rightarrow> string option" where
  "new_id env = map_option (\<lambda>b. ''ft_'' @ url_encode b) (cn_IDBytes env)"

text \<open>
  The identifier of a new token is new, the clock is past Go's zero time, and the accounts have identifiers
  and a version from one on.
\<close>

fun token_op_ok :: "token_op \<Rightarrow> token_service \<Rightarrow> bool" where
  "token_op_ok (TokenCreated env who name days) s \<longleftrightarrow> cn_Now env \<noteq> 0 \<and> who \<noteq> []
     \<and> (case new_id env of None \<Rightarrow> True | Some i \<Rightarrow> gget (ts_tokens s) i = None \<and> gget (file_tokens s) i = None)
     \<and> (case cn_Lookup env who of Inl _ \<Rightarrow> True | Inr u \<Rightarrow> fu_Version u \<noteq> 0)"
| "token_op_ok _ _ \<longleftrightarrow> True"

fun token_run_ok :: "(string \<Rightarrow> string) \<Rightarrow> token_op list \<Rightarrow> token_service \<Rightarrow> bool" where
  "token_run_ok sha [] s \<longleftrightarrow> True"
| "token_run_ok sha (oper # ops) s \<longleftrightarrow> token_op_ok oper s \<and> token_run_ok sha ops (token_step sha oper s)"

text \<open>A creation, a revocation: nothing, or tokens and file both with the change, or the file alone.\<close>

lemma create_result:
  assumes "fa_user_of (cn_Lookup env) who = Inr u" "days' = (if days = 0 then 365 else days)" "days' \<in> {-1, 30, 90, 365}"
    "count_active (cn_Lookup env) (cn_Now env) who (gvals (ts_tokens s)) 0 = Inr n" "n < 20"
    "cn_RawBytes env = Some rb" "cn_IDBytes env = Some ib" "name_ok (trim_space name)"
    and raw: "raw = ''agt_file_'' @ url_encode rb" and i: "i = ''ft_'' @ url_encode ib"
    and r: "r = new_token sha (cn_Now env) i raw (trim_space name) who (fu_Version u) days'"
    and ts: "ts = gput i r (ts_tokens s)" and fresh: "gget (ts_tokens s) i = None" and p: "ts_path s \<noteq> []"
    and c: "current = fa_user_of (cn_Later env) who" "gone = (case current of Inl _ \<Rightarrow> True | Inr v \<Rightarrow> fu_Version v \<noteq> fu_Version u)"
  shows "fa_Create sha env who name days s =
    (if \<not> cn_PersistOK env then (s, Inl FaUnavailable)
     else if \<not> gone then (s\<lparr>ts_tokens := ts, ts_file := TokenFileData 2 (Some ts)\<rparr>,
       Inr ((st_Record r)\<lparr>tr_Status := TokenActive, tr_Scopes := scopes\<rparr>, raw))
     else if cn_UndoOK env then (s\<lparr>ts_file := TokenFileData 2 (Some (ts_tokens s))\<rparr>,
       Inl (case current of Inl e \<Rightarrow> e | Inr _ \<Rightarrow> FaUnauthorized))
     else (s\<lparr>ts_file := TokenFileData 2 (Some ts)\<rparr>, Inl FaUnavailable))"
proof -
  have undo: "gdel i ts = ts_tokens s" unfolding ts by (rule gdel_gput_fresh [OF fresh])
  have "\<not> (days' \<noteq> -1 \<and> days' \<noteq> 30 \<and> days' \<noteq> 90 \<and> days' \<noteq> 365)" using assms(3) by auto
  with assms(1,4-8) have "fa_Create sha env who name days s =
      (let (s1, saved) = fa_persist (cn_PersistOK env) (s\<lparr>ts_tokens := ts\<rparr>) in
       if \<not> saved then (s1\<lparr>ts_tokens := gdel i (ts_tokens s1)\<rparr>, Inl FaUnavailable)
       else if gone then
         (let (s2, undone) = fa_persist (cn_UndoOK env) (s1\<lparr>ts_tokens := gdel i (ts_tokens s1)\<rparr>) in
          (s2, Inl (if \<not> undone then FaUnavailable else (case current of Inl e \<Rightarrow> e | Inr _ \<Rightarrow> FaUnauthorized))))
       else (s1, Inr ((st_Record r)\<lparr>tr_Status := TokenActive, tr_Scopes := scopes\<rparr>, raw)))"
    unfolding fa_Create_def c ts r i raw assms(2) [symmetric] by (simp only: Let_def) simp
  then show ?thesis by (simp add: fa_persist_def p undo)
qed

lemma create_cases:
  assumes "token_op_ok (TokenCreated env who name days) s" "ts_path s \<noteq> []"
  obtains (same) "fst (fa_Create sha env who name days s) = s"
  | (added) i rb u days' ts where "new_id env = Some i" "fa_user_of (cn_Lookup env) who = Inr u" "days' \<in> {-1, 30, 90, 365}"
      "ts = gput i (new_token sha (cn_Now env) i (''agt_file_'' @ url_encode rb) (trim_space name) who (fu_Version u) days') (ts_tokens s)"
      "fst (fa_Create sha env who name days s) \<in> {s\<lparr>ts_tokens := ts, ts_file := TokenFileData 2 (Some ts)\<rparr>,
         s\<lparr>ts_file := TokenFileData 2 (Some ts)\<rparr>, s\<lparr>ts_file := TokenFileData 2 (Some (ts_tokens s))\<rparr>}"
proof (cases "fst (fa_Create sha env who name days s) = s")
  case False
  define days' where "days' = (if days = 0 then 365 else days)"
  from False obtain u n rb ib where *: "fa_user_of (cn_Lookup env) who = Inr u" "days' \<in> {-1, 30, 90, 365}"
    "count_active (cn_Lookup env) (cn_Now env) who (gvals (ts_tokens s)) 0 = Inr n" "n < 20"
    "cn_RawBytes env = Some rb" "cn_IDBytes env = Some ib" "name_ok (trim_space name)"
    unfolding fa_Create_def Let_def days'_def by (auto split: if_splits sum.splits option.splits)
  define i where "i = ''ft_'' @ url_encode ib"
  have i: "new_id env = Some i" using * by (simp add: new_id_def i_def)
  then have fresh: "gget (ts_tokens s) i = None" using assms(1) by simp
  note res = create_result [OF *(1) days'_def *(2-7) refl i_def refl refl fresh assms(2) refl refl, of sha]
  show ?thesis
    by (rule added [OF i *(1,2) refl, of rb]) (use res False in \<open>auto split: if_splits\<close>)
qed (rule same)

lemma revoke_cases:
  assumes "ts_path s \<noteq> []"
  obtains (same) "fst (fa_Revoke ok now who i s) = s"
  | (revoked) r ts where "gget (ts_tokens s) i = Some r" "tr_RevokedAt (st_Record r) = None"
      "ts = gput i (r\<lparr>st_Record := (st_Record r)\<lparr>tr_RevokedAt := Some now\<rparr>\<rparr>) (ts_tokens s)"
      "fst (fa_Revoke ok now who i s) = s\<lparr>ts_tokens := ts, ts_file := TokenFileData 2 (Some ts)\<rparr>"
proof (cases "fst (fa_Revoke ok now who i s) = s")
  case False
  then obtain r where r: "gget (ts_tokens s) i = Some r" "tr_RevokedAt (st_Record r) = None" "st_UserID r = who"
    by (auto simp: fa_Revoke_def split: option.splits if_splits)
  have ok: ok
  proof (rule ccontr)
    assume "\<not> ok"
    with r False assms show False by (simp add: fa_Revoke_def Let_def fa_persist_def gput_gput gput_same)
  qed
  show ?thesis
    by (rule revoked [OF r(1,2) refl]) (use r ok assms in \<open>simp add: fa_Revoke_def Let_def fa_persist_def\<close>)
qed (rule same)

section \<open>Types\<close>

definition token_inv :: "token_service \<Rightarrow> bool" where
  "token_inv s \<longleftrightarrow> ts_path s \<noteq> [] \<and> list_all (\<lambda>(i, r). stored_ok 2 i r) (ts_tokens s)
     \<and> (ts_file s = NoTokenFile
        \<or> (\<exists>ts. ts_file s = TokenFileData 2 (Some ts) \<and> list_all (\<lambda>(i, r). stored_ok 2 i r) ts))"

lemma list_all_gput: "list_all (\<lambda>(i, r). P i r) m \<Longrightarrow> P k v \<Longrightarrow> list_all (\<lambda>(i, r). P i r) (gput k v m)"
  by (induction m) auto

lemma gget_list_all: "list_all (\<lambda>(i, r). P i r) m \<Longrightarrow> gget m k = Some v \<Longrightarrow> P k v"
  by (induction m) (auto split: if_splits)

lemma token_inv_step:
  assumes inv: "token_inv s" and ok: "token_op_ok oper s" and sha: "\<And>x. hex_32_bytes (sha x)"
  shows "token_inv (token_step sha oper s)"
proof (cases oper)
  case (TokenCreated env who name days)
  have p: "ts_path s \<noteq> []" using inv by (simp add: token_inv_def)
  from ok TokenCreated have op: "token_op_ok (TokenCreated env who name days) s" by simp
  from op p show ?thesis
  proof (cases rule: create_cases [where sha = sha])
    case same
    with inv TokenCreated show ?thesis by simp
  next
    case (added i rb u d ts)
    have "i \<noteq> []" using added(1) by (auto simp: new_id_def)
    moreover have "fu_Version u \<noteq> 0" using added(2) op by (auto simp: fa_user_of_def split: sum.splits if_splits)
    ultimately have "stored_ok 2 i (new_token sha (cn_Now env) i (''agt_file_'' @ url_encode rb) (trim_space name) who (fu_Version u) d)"
      using op sha added(3) by (auto simp: stored_ok_def new_token_def Let_def is_zero_time_def hours_def minutes_def seconds_def)
    with inv have "list_all (\<lambda>(i, r). stored_ok 2 i r) ts"
      unfolding added(4) by (intro list_all_gput) (simp_all add: token_inv_def)
    with inv added(5) TokenCreated show ?thesis by (auto simp: token_inv_def)
  qed
next
  case (TokenRevokedBy ok now who i)
  have "ts_path s \<noteq> []" using inv by (simp add: token_inv_def)
  then show ?thesis
  proof (cases rule: revoke_cases [of s ok now who i])
    case same
    with inv TokenRevokedBy show ?thesis by simp
  next
    case (revoked r ts)
    have "stored_ok 2 i r" using inv revoked(1) gget_list_all [of "stored_ok 2"] by (auto simp: token_inv_def)
    then have "stored_ok 2 i (r\<lparr>st_Record := (st_Record r)\<lparr>tr_RevokedAt := Some now\<rparr>\<rparr>)"
      by (auto simp: stored_ok_def Let_def split: option.splits)
    with inv have "list_all (\<lambda>(i, r). stored_ok 2 i r) ts"
      unfolding revoked(3) by (intro list_all_gput) (simp_all add: token_inv_def)
    with inv revoked(4) TokenRevokedBy show ?thesis by (simp add: token_inv_def)
  qed
next
  case TokensReopened
  with inv show ?thesis by (auto simp: token_inv_def fa_Open_def)
qed

lemma token_inv_run:
  "token_inv s \<Longrightarrow> token_run_ok sha ops s \<Longrightarrow> (\<And>x. hex_32_bytes (sha x)) \<Longrightarrow> token_inv (fold (token_step sha) ops s)"
  by (induction ops arbitrary: s) (simp_all add: token_inv_step)


section \<open>Revocation\<close>

definition revoked_in :: "(string, stored_token) gomap \<Rightarrow> string \<Rightarrow> bool" where
  "revoked_in ts i \<longleftrightarrow> (case gget ts i of None \<Rightarrow> False | Some r \<Rightarrow> tr_RevokedAt (st_Record r) \<noteq> None)"

lemma revoked_gput: "revoked_in (gput k r ts) i \<longleftrightarrow> (if i = k then tr_RevokedAt (st_Record r) \<noteq> None else revoked_in ts i)"
  by (simp add: revoked_in_def)

text \<open>What is revoked in memory is revoked in the file.\<close>

definition synced :: "token_service \<Rightarrow> bool" where
  "synced s \<longleftrightarrow> ts_path s \<noteq> [] \<and> (\<forall>i. revoked_in (ts_tokens s) i \<longrightarrow> revoked_in (file_tokens s) i)"

lemma tokens_reopened:
  "fa_Open p f = Inr s \<Longrightarrow> p \<noteq> [] \<Longrightarrow> ts_path s = p \<and> ts_file s = f \<and> ts_tokens s = file_tokens s"
  by (auto simp: fa_Open_def file_tokens_def split: token_file.splits option.splits if_splits)

lemma revoked_step:
  assumes s: "synced s" and ok: "token_op_ok oper s"
  shows "synced (token_step sha oper s) \<and> (revoked_in (ts_tokens s) i \<longrightarrow> revoked_in (ts_tokens (token_step sha oper s)) i)"
proof (cases oper)
  case (TokenCreated env who name days)
  have p: "ts_path s \<noteq> []" using s by (simp add: synced_def)
  from ok TokenCreated have op: "token_op_ok (TokenCreated env who name days) s" by simp
  from op p show ?thesis
  proof (cases rule: create_cases [where sha = sha])
    case same
    with s TokenCreated show ?thesis by simp
  next
    case (added j rb u d ts)
    have new: "\<not> revoked_in (ts_tokens s) j" using op added(1) by (simp add: revoked_in_def)
    have ts: "revoked_in ts i \<longleftrightarrow> revoked_in (ts_tokens s) i" for i
      unfolding added(4) revoked_gput using new by (simp add: new_token_def)
    define s' where "s' = token_step sha oper s"
    from added(5) have "s' \<in> {s\<lparr>ts_tokens := ts, ts_file := TokenFileData 2 (Some ts)\<rparr>,
         s\<lparr>ts_file := TokenFileData 2 (Some ts)\<rparr>, s\<lparr>ts_file := TokenFileData 2 (Some (ts_tokens s))\<rparr>}"
      by (simp add: s'_def TokenCreated)
    then have "ts_path s' = ts_path s \<and> ts_tokens s' \<in> {ts, ts_tokens s} \<and> file_tokens s' \<in> {ts, ts_tokens s}"
      by (auto simp: file_tokens_def)
    with s ts show ?thesis unfolding s'_def [symmetric] synced_def by (metis insertE singletonD)
  qed
next
  case (TokenRevokedBy ok now who j)
  have "ts_path s \<noteq> []" using s by (simp add: synced_def)
  then show ?thesis
  proof (cases rule: revoke_cases [of s ok now who j])
    case same
    with s TokenRevokedBy show ?thesis by simp
  next
    case (revoked r ts)
    have "revoked_in ts i \<longleftrightarrow> i = j \<or> revoked_in (ts_tokens s) i" for i
      unfolding revoked(3) revoked_gput by simp
    note this [of i] and all = this
    have "token_step sha oper s = s\<lparr>ts_tokens := ts, ts_file := TokenFileData 2 (Some ts)\<rparr>"
      using revoked(4) by (simp add: TokenRevokedBy)
    moreover have "file_tokens (s\<lparr>ts_tokens := ts, ts_file := TokenFileData 2 (Some ts)\<rparr>) = ts" by (simp add: file_tokens_def)
    ultimately show ?thesis using s all by (simp add: synced_def)
  qed
next
  case TokensReopened
  show ?thesis
  proof (cases "fa_Open (ts_path s) (ts_file s)")
    case (Inl e)
    with s TokensReopened show ?thesis by simp
  next
    case (Inr s1)
    have "ts_path s \<noteq> []" using s by (simp add: synced_def)
    from tokens_reopened [OF Inr this] have s1: "ts_path s1 = ts_path s" "ts_tokens s1 = file_tokens s1" "file_tokens s1 = file_tokens s"
      by (auto simp: file_tokens_def)
    have "token_step sha oper s = s1" using Inr TokensReopened by simp
    moreover have "synced s1" unfolding synced_def s1(1,2) using s by (simp add: synced_def)
    moreover have "revoked_in (ts_tokens s) i \<longrightarrow> revoked_in (ts_tokens s1) i"
      unfolding s1(2,3) using s by (simp add: synced_def)
    ultimately show ?thesis by simp
  qed
qed

lemma revoked_run:
  "synced s \<Longrightarrow> token_run_ok sha ops s \<Longrightarrow>
    synced (fold (token_step sha) ops s) \<and> (revoked_in (ts_tokens s) i \<longrightarrow> revoked_in (ts_tokens (fold (token_step sha) ops s)) i)"
  by (induction ops arbitrary: s) (use revoked_step in \<open>auto simp: \<close>)

section \<open>Properties\<close>

text \<open>
  C33: What the tokens file says can always be read. From an empty start, after any creations, revocations and restarts, with
  writes that fail, every token in memory satisfies what \<open>Open\<close> demands of a stored token - its key is its
  identifier, its hash is one of 32 bytes, and either it is permanent and has no end or its end is after its
  creation - and \<open>Open\<close> accepts the file.
\<close>

theorem tokens_reopen:
  assumes "path \<noteq> []" "fa_Open path NoTokenFile = Inr s0" "token_run_ok sha ops s0" "\<And>x. hex_32_bytes (sha x)"
    and "fold (token_step sha) ops s0 = s"
  shows "list_all (\<lambda>(i, r). stored_ok 2 i r) (ts_tokens s) \<and> (\<exists>s1. fa_Open (ts_path s) (ts_file s) = Inr s1)"
proof -
  have "token_inv s0" using assms(1,2) by (auto simp: fa_Open_def token_inv_def)
  from token_inv_run [OF this assms(3)] assms(4,5) have "token_inv s" by blast
  then show ?thesis by (auto simp: token_inv_def fa_Open_def)
qed

text \<open>
  C32: A revocation is final: once \<open>Revoke\<close> has returned without an error, the token is revoked, whatever is created
  or revoked afterwards, and also after restarts.
\<close>

theorem revocation_final:
  assumes "path \<noteq> []" "fa_Open path f = Inr s0" "token_run_ok sha ops s0" "fold (token_step sha) ops s0 = s"
    and r: "fa_Revoke ok now who i s = (s1, None)" and "token_run_ok sha later s1"
  shows "\<exists>r. gget (ts_tokens (fold (token_step sha) later s1)) i = Some r \<and> token_status_of lookup t r = Inr TokenRevoked"
proof -
  have "synced s0" using tokens_reopened [OF assms(2,1)] assms(1) by (simp add: synced_def)
  with revoked_run assms(3,4) have "synced s" by blast
  from revoked_step [OF this, of "TokenRevokedBy ok now who i" sha i] r have s1: "synced s1" by simp
  have "revoked_in (ts_tokens s1) i"
    using r by (auto simp: fa_Revoke_def Let_def fa_persist_def revoked_in_def split: option.splits if_splits)
  with revoked_run [OF s1 assms(6), of i] have "revoked_in (ts_tokens (fold (token_step sha) later s1)) i" by simp
  then obtain r where "gget (ts_tokens (fold (token_step sha) later s1)) i = Some r" "tr_RevokedAt (st_Record r) \<noteq> None"
    unfolding revoked_in_def by (auto split: option.splits)
  then show ?thesis by (intro exI [of _ r]) (simp add: token_status_of_def)
qed

text \<open>
  A credential is accepted if and only if it is well formed and the token of its hash is listed as
  active: the status that \<open>List\<close> shows and what \<open>Validate\<close> enforces agree.
\<close>

theorem validates_iff_active:
  "fa_validate sha lookup now raw s = Inr u \<longleftrightarrow>
     raw_ok raw \<and> (\<exists>r. find (\<lambda>r. st_Hash r = sha raw) (gvals (ts_tokens s)) = Some r
       \<and> token_status_of lookup now r = Inr TokenActive \<and> fa_user_of lookup (st_UserID r) = Inr u)"
proof (cases "find (\<lambda>r. st_Hash r = sha raw) (gvals (ts_tokens s))")
  case (Some r)
  have "token_status_of lookup now r = Inr TokenActive \<longleftrightarrow> tr_RevokedAt (st_Record r) = None
      \<and> (\<exists>v. fa_user_of lookup (st_UserID r) = Inr v \<and> fu_Version v = st_Version r) \<and> \<not> past_end now r"
    by (auto simp: token_status_of_def split: sum.split)
  with Some show ?thesis by (auto simp: fa_validate_def split: sum.split)
qed (simp add: fa_validate_def)

lemma find_last: "list_all (\<lambda>r. st_Hash r \<noteq> h) xs \<Longrightarrow> st_Hash r = h \<Longrightarrow> find (\<lambda>r. st_Hash r = h) (xs @ [r]) = Some r"
  by (induction xs) auto

lemma count_active_append:
  "count_active lookup now who (xs @ ys) n = (case count_active lookup now who xs n of
     Inl e \<Rightarrow> Inl e | Inr m \<Rightarrow> count_active lookup now who ys m)"
  by (induction xs arbitrary: n) (auto split: sum.split)

lemma create_success:
  assumes "fa_Create sha env who name days s = (s', Inr (rec, raw))" "ts_path s \<noteq> []" "new_id env = Some i" "gget (ts_tokens s) i = None"
  obtains u n rb days' r where "fa_user_of (cn_Lookup env) who = Inr u"
    "\<exists>v. fa_user_of (cn_Later env) who = Inr v \<and> fu_Version v = fu_Version u" "cn_RawBytes env = Some rb" "raw = ''agt_file_'' @ url_encode rb"
    "count_active (cn_Lookup env) (cn_Now env) who (gvals (ts_tokens s)) 0 = Inr n" "n < 20"
    "r = new_token sha (cn_Now env) i raw (trim_space name) who (fu_Version u) days'" "ts_tokens s' = ts_tokens s @ [(i, r)]"
    "rec = (st_Record r)\<lparr>tr_Status := TokenActive, tr_Scopes := scopes\<rparr>"
proof -
  define days' where "days' = (if days = 0 then 365 else days)"
  from assms(1) obtain u n rb ib where *: "fa_user_of (cn_Lookup env) who = Inr u" "days' \<in> {-1, 30, 90, 365}"
    "count_active (cn_Lookup env) (cn_Now env) who (gvals (ts_tokens s)) 0 = Inr n" "n < 20"
    "cn_RawBytes env = Some rb" "cn_IDBytes env = Some ib" "name_ok (trim_space name)"
    unfolding fa_Create_def Let_def days'_def by (auto split: if_splits sum.splits option.splits)
  have i: "i = ''ft_'' @ url_encode ib" using assms(3) * by (simp add: new_id_def)
  note res = create_result [OF *(1) days'_def *(2-7) refl i refl refl assms(4,2) refl refl, of sha]
  show ?thesis
    using res assms(1) * by (intro that [OF *(1) _ *(5) _ *(3,4) refl]) (auto simp: gput_fresh assms(4) split: if_splits sum.splits)
qed


text \<open>
  At most twenty: when \<open>Create\<close> has succeeded, the active tokens of the account, counted with the accounts and the
  clock of the call, are between none and twenty, the new one included.
\<close>

theorem active_tokens_bounded:
  assumes "fa_Create sha env who name days s = (s', Inr (rec, raw))" "ts_path s \<noteq> []"
    and "new_id env = Some i" "gget (ts_tokens s) i = None"
  shows "\<exists>n. count_active (cn_Lookup env) (cn_Now env) who (gvals (ts_tokens s')) 0 = Inr n \<and> n \<le> 20"
proof (rule create_success [OF assms])
  fix u n r
  assume *: "fa_user_of (cn_Lookup env) who = Inr u" "ts_tokens s' = ts_tokens s @ [(i, r)]" "n < 20"
    "count_active (cn_Lookup env) (cn_Now env) who (gvals (ts_tokens s)) 0 = Inr n"
  fix rb days' assume "r = new_token sha (cn_Now env) i raw (trim_space name) who (fu_Version u) days'"
  then have "st_UserID r = who" by (simp add: new_token_def)
  moreover have "\<exists>st. token_status_of (cn_Lookup env) (cn_Now env) r = Inr st"
    using *(1) \<open>st_UserID r = who\<close> by (simp add: token_status_of_def)
  ultimately obtain st where "token_status_of (cn_Lookup env) (cn_Now env) r = Inr st" "st_UserID r = who" by blast
  with *(2-4) show ?thesis by (auto simp: count_active_append)
qed

text \<open>
  A credential that \<open>Create\<close> hands out is accepted: \<open>Validate\<close> decodes its text back to the random bytes, finds its
  token and returns the account, as long as the account is as it was when the token was created, the token has not
  expired, and no other token has the same hash.
\<close>

theorem created_token_validates:
  assumes "fa_Create sha env who name days s = (s', Inr (rec, raw))" "ts_path s \<noteq> []"
    and "new_id env = Some i" "gget (ts_tokens s) i = None"
    and "cn_RawBytes env = Some rb" "length rb = 32"
    and "list_all (\<lambda>r. st_Hash r \<noteq> sha raw) (gvals (ts_tokens s))"
    and "case tr_ExpiresAt rec of None \<Rightarrow> True | Some e \<Rightarrow> now < e"
  shows "\<exists>u. fa_validate sha (cn_Later env) now raw s' = Inr u \<and> fu_ID u = who
    \<and> url_decode (drop 9 raw) = Some rb"
proof (rule create_success [OF assms(1-4)])
  fix u n rb' days' r
  assume *: "\<exists>v. fa_user_of (cn_Later env) who = Inr v \<and> fu_Version v = fu_Version u"
    "cn_RawBytes env = Some rb'" "raw = ''agt_file_'' @ url_encode rb'"
    "r = new_token sha (cn_Now env) i raw (trim_space name) who (fu_Version u) days'" "ts_tokens s' = ts_tokens s @ [(i, r)]"
    "rec = (st_Record r)\<lparr>tr_Status := TokenActive, tr_Scopes := scopes\<rparr>"
  from *(1) obtain v where v: "fa_user_of (cn_Later env) who = Inr v" "fu_Version v = fu_Version u" by blast
  have r: "st_UserID r = who" "st_Version r = fu_Version u" "st_Hash r = sha raw" "tr_RevokedAt (st_Record r) = None"
    "tr_Permanent (st_Record r) = (tr_ExpiresAt (st_Record r) = None)"
    using *(4) by (simp_all add: new_token_def)
  have rb: "rb' = rb" using *(2) assms(5) by simp
  have "find (\<lambda>r. st_Hash r = sha raw) (gvals (ts_tokens s) @ [r]) = Some r"
    using assms(7) r(3) by (rule find_last)
  moreover have "raw_ok raw" using raw_ok_new [OF assms(6)] *(3) rb by simp
  moreover have "\<not> past_end now r" using assms(8) *(6) r(5) by (auto simp: past_end_def split: option.split)
  moreover have "fu_ID v = who" using v(1) by (auto simp: fa_user_of_def split: sum.splits if_splits)
  ultimately show ?thesis
    using v r *(3,5) rb by (simp add: fa_validate_def url_decode_encode)
qed


section \<open>Witnesses\<close>

definition demo_lookup :: user_lookup where
  "demo_lookup i = (if i = ''ann'' then Inr \<lparr>fu_ID = ''ann'', fu_Version = 1, fu_Active = True\<rparr> else Inl FaNotFound)"

definition demo_hex :: "string \<Rightarrow> string" where
  "demo_hex s = replicate 64 CHR ''a''"

definition demo_create :: create_env where
  "demo_create = \<lparr>cn_Lookup = demo_lookup, cn_Later = demo_lookup, cn_Now = 1, cn_RawBytes = Some (replicate 32 CHR 0x00),
     cn_IDBytes = Some (replicate 18 CHR 0x00), cn_PersistOK = True, cn_UndoOK = True\<rparr>"

definition demo_tokens :: token_service where
  "demo_tokens = \<lparr>ts_path = ''t'', ts_tokens = [], ts_file = NoTokenFile\<rparr>"

definition demo_raw :: string where
  "demo_raw = ''agt_file_'' @ url_encode (replicate 32 CHR 0x00)"

definition demo_id :: string where
  "demo_id = ''ft_'' @ url_encode (replicate 18 CHR 0x00)"

definition demo_token :: stored_token where
  "demo_token = new_token demo_hex 1 demo_id demo_raw ''laptop'' ''ann'' 1 30"

definition demo_state1 :: token_service where
  "demo_state1 = \<lparr>ts_path = ''t'', ts_tokens = [(demo_id, demo_token)], ts_file = TokenFileData 2 (Some [(demo_id, demo_token)])\<rparr>"

definition demo_revoked :: token_service where
  "demo_revoked = fst (fa_Revoke True 2 ''ann'' demo_id demo_state1)"

lemma demo_tokens_open: "fa_Open ''t'' NoTokenFile = Inr demo_tokens"
  by (simp add: fa_Open_def demo_tokens_def)

lemma demo_hex_ok: "hex_32_bytes (demo_hex x)"
  unfolding demo_hex_def by code_simp

lemma demo_user: "fa_user_of demo_lookup ''ann'' = Inr \<lparr>fu_ID = ''ann'', fu_Version = 1, fu_Active = True\<rparr>"
  by (simp add: fa_user_of_def demo_lookup_def)

lemma demo_name: "trim_space ''laptop'' = ''laptop''" "name_ok ''laptop''"
  by code_simp+

lemma demo_created:
  "fa_Create demo_hex demo_create ''ann'' ''laptop'' 30 demo_tokens =
     (demo_state1, Inr ((st_Record demo_token)\<lparr>tr_Status := TokenActive, tr_Scopes := scopes\<rparr>, demo_raw))"
proof -
  have "fa_Create demo_hex demo_create ''ann'' ''laptop'' 30 demo_tokens =
    (if \<not> cn_PersistOK demo_create then (demo_tokens, Inl FaUnavailable)
     else if \<not> False then (demo_tokens\<lparr>ts_tokens := [(demo_id, demo_token)], ts_file := TokenFileData 2 (Some [(demo_id, demo_token)])\<rparr>,
       Inr ((st_Record demo_token)\<lparr>tr_Status := TokenActive, tr_Scopes := scopes\<rparr>, demo_raw))
     else if cn_UndoOK demo_create then (demo_tokens\<lparr>ts_file := TokenFileData 2 (Some (ts_tokens demo_tokens))\<rparr>,
       Inl (case fa_user_of demo_lookup ''ann'' of Inl e \<Rightarrow> e | Inr _ \<Rightarrow> FaUnauthorized))
     else (demo_tokens\<lparr>ts_file := TokenFileData 2 (Some [(demo_id, demo_token)])\<rparr>, Inl FaUnavailable))"
    by (rule create_result [where n = 0 and days' = 30 and i = demo_id and rb = "replicate 32 CHR 0x00" and ib = "replicate 18 CHR 0x00"
        and u = "\<lparr>fu_ID = ''ann'', fu_Version = 1, fu_Active = True\<rparr>"])
      (simp_all add: demo_create_def demo_user demo_name demo_tokens_def demo_raw_def demo_id_def demo_token_def)
  then show ?thesis by (simp add: demo_create_def demo_state1_def demo_tokens_def)
qed

lemma demo_new_id: "new_id demo_create = Some demo_id" "gget (ts_tokens demo_tokens) demo_id = None" "ts_path demo_tokens \<noteq> []"
  "cn_RawBytes demo_create = Some (replicate 32 CHR 0x00)"
  by (simp_all add: new_id_def demo_create_def demo_id_def demo_tokens_def)

lemma demo_token_run:
  "token_run_ok demo_hex [TokenCreated demo_create ''ann'' ''laptop'' 30] demo_tokens"
  "fold (token_step demo_hex) [TokenCreated demo_create ''ann'' ''laptop'' 30] demo_tokens = demo_state1"
  "fa_Revoke True 2 ''ann'' demo_id demo_state1 = (demo_revoked, None)"
  "token_run_ok demo_hex [TokensReopened] demo_revoked"
proof -
  show "token_run_ok demo_hex [TokenCreated demo_create ''ann'' ''laptop'' 30] demo_tokens"
    using demo_new_id by (simp add: demo_create_def demo_lookup_def demo_tokens_def file_tokens_def)
  show "fa_Revoke True 2 ''ann'' demo_id demo_state1 = (demo_revoked, None)"
    by (simp add: demo_revoked_def fa_Revoke_def demo_state1_def demo_token_def new_token_def Let_def fa_persist_def)
qed (simp_all add: demo_created)

theorem tokens_reopen_witness:
  "\<exists>s1. fa_Open ''t'' (TokenFileData 2 (Some [(demo_id, demo_token)])) = Inr s1"
  using tokens_reopen [OF _ demo_tokens_open demo_token_run(1) demo_hex_ok demo_token_run(2)] by (simp add: demo_state1_def)

theorem revocation_final_witness:
  "\<exists>r. gget (ts_tokens (fold (token_step demo_hex) [TokensReopened] demo_revoked)) demo_id = Some r
     \<and> token_status_of demo_lookup 3 r = Inr TokenRevoked"
  by (rule revocation_final [OF _ demo_tokens_open demo_token_run]) simp

theorem active_tokens_bounded_witness:
  "\<exists>n. count_active demo_lookup 1 ''ann'' [demo_token] 0 = Inr n \<and> n \<le> 20"
  using active_tokens_bounded [OF demo_created demo_new_id(3,1,2)] by (simp add: demo_create_def demo_state1_def)

theorem created_token_validates_witness:
  "\<exists>u. fa_validate demo_hex demo_lookup 2 demo_raw demo_state1 = Inr u \<and> fu_ID u = ''ann''"
proof -
  have "list_all (\<lambda>r. st_Hash r \<noteq> demo_hex demo_raw) (gvals (ts_tokens demo_tokens))" by (simp add: demo_tokens_def)
  from created_token_validates [OF demo_created demo_new_id(3,1,2,4) _ this, of 2] show ?thesis
    by (auto simp: demo_create_def demo_token_def new_token_def hours_def minutes_def seconds_def)
qed

end
