(* ===== verification/NetAddr.thy ===== *)
theory NetAddr
  imports NetIP
begin

text \<open>
  The addresses devices report, \<open>internal/networkaddr/address.go\<close>, with the part of Go's package
  \<open>netip\<close> it uses: the parser, the printed form, the order and the tests on the ranges. Other than in
  package \<open>net\<close>, an IPv4 address is not an IPv6 address here, and an IPv6 address may have a zone.
\<close>

section \<open>Package netip\<close>

datatype addr = Addr4 ip | Addr6 ip string

definition Is4In6_bytes :: "ip \<Rightarrow> bool" where
  "Is4In6_bytes b \<longleftrightarrow> take 12 b = replicate 10 0 @ [0xff, 0xff]"

fun Is6 :: "addr \<Rightarrow> bool" where
  "Is6 (Addr6 b z) = True"
| "Is6 (Addr4 b) = False"

fun Is4In6 :: "addr \<Rightarrow> bool" where
  "Is4In6 (Addr6 b z) = Is4In6_bytes b"
| "Is4In6 (Addr4 b) = False"

fun addr_bytes :: "addr \<Rightarrow> ip" where
  "addr_bytes (Addr6 b z) = b"
| "addr_bytes (Addr4 b) = b"

fun hasZone :: "addr \<Rightarrow> bool" where
  "hasZone (Addr6 b z) = (z \<noteq> [])"
| "hasZone (Addr4 b) = False"

text \<open>\<open>ParseAddr\<close> decides by the first of the three characters; a zone is what follows the first percent sign.\<close>

definition parse_addr6 :: "string \<Rightarrow> addr option" where
  "parse_addr6 s =
     (let a = takeWhile (\<lambda>c. c \<noteq> CHR ''%'') s; rest = drop (length a) s in
      if rest = ''%'' then None
      else map_option (\<lambda>b. Addr6 b (tl rest)) (parse_ip6 a))"

definition ParseAddr :: "string \<Rightarrow> addr option" where
  "ParseAddr s =
     (case find (\<lambda>c. c \<in> {CHR ''.'', CHR '':'', CHR ''%''}) s of
        None \<Rightarrow> None
      | Some c \<Rightarrow>
          if c = CHR ''.'' then map_option Addr4 (parse_ip4 s)
          else if c = CHR '':'' then parse_addr6 s
          else None)"

definition dotted :: "byte list \<Rightarrow> string" where
  "dotted v = nat_digits (unat (v ! 0)) @ ''.'' @ nat_digits (unat (v ! 1)) @ ''.''
        @ nat_digits (unat (v ! 2)) @ ''.'' @ nat_digits (unat (v ! 3))"

fun addr_string :: "addr \<Rightarrow> string" where
  "addr_string (Addr4 b) = dotted b"
| "addr_string (Addr6 b z) =
     (if Is4In6_bytes b then ''::ffff:'' @ dotted (drop 12 b) else ip6_string (ip_groups b))
     @ (if z = [] then [] else CHR ''%'' # z)"

text \<open>The order: the length, the number, the zone.\<close>

fun addr_less :: "addr \<Rightarrow> addr \<Rightarrow> bool" where
  "addr_less (Addr4 a) (Addr4 b) = (a < b)"
| "addr_less (Addr4 a) (Addr6 b z) = True"
| "addr_less (Addr6 a y) (Addr4 b) = False"
| "addr_less (Addr6 a y) (Addr6 b z) = (a < b \<or> (a = b \<and> y < z))"

section \<open>Addresses of an interface\<close>

definition virtual_prefixes :: "string list" where
  "virtual_prefixes = [''utun'', ''bridge'', ''docker'', ''veth'', ''tailscale'', ''wg'', ''tun'', ''tap'',
     ''virbr'', ''vmnet'', ''vboxnet'', ''vethernet'', ''br-'', ''cni0'', ''flannel'']"

definition IsVirtualInterface :: "string \<Rightarrow> bool" where
  "IsVirtualInterface name =
     (let lower = to_lower (trim_space name) in
      if lower = ''br-lan'' then False else list_ex (has_prefix lower) virtual_prefixes)"

record ReportedIPv6Address =
  ra_Address :: string
  ra_Interface :: string
  ra_PrefixLength :: int
  ra_Temporary :: bool
  ra_Deprecated :: bool
  ra_PreferredUntil :: "time option"
  ra_ValidUntil :: "time option"

text \<open>An end that is given, is not Go's zero time and is not after \<open>now\<close>.\<close>

definition ended :: "time \<Rightarrow> time option \<Rightarrow> bool" where
  "ended now t = (case t of None \<Rightarrow> False | Some e \<Rightarrow> \<not> is_zero_time e \<and> \<not> e > now)"

definition isULA :: "ip \<Rightarrow> bool" where
  "isULA b \<longleftrightarrow> and (b ! 0) 0xfe = 0xfc"

definition unusable_range :: "addr \<Rightarrow> bool" where
  "unusable_range a \<longleftrightarrow> (let b = addr_bytes a in
     IsLoopback b \<or> IsLinkLocalUnicast b \<or> IsLinkLocalMulticast b \<or> b ! 0 = 0xff \<or> a = Addr6 (replicate 16 0) [])"

definition IsValidCandidate :: "ReportedIPv6Address \<Rightarrow> time \<Rightarrow> bool" where
  "IsValidCandidate r now \<longleftrightarrow>
     \<not> (ra_Temporary r \<or> ra_Deprecated r) \<and> \<not> ended now (ra_PreferredUntil r) \<and> \<not> ended now (ra_ValidUntil r)
     \<and> (case ParseAddr (trim_space (ra_Address r)) of
          None \<Rightarrow> False
        | Some a \<Rightarrow> \<not> (\<not> Is6 a \<or> Is4In6 a) \<and> \<not> unusable_range a \<and> \<not> isULA (addr_bytes a))"

text \<open>The first report of each address, in order; then sorted by address.\<close>

fun candidate_entries ::
  "ReportedIPv6Address list \<Rightarrow> time \<Rightarrow> addr list \<Rightarrow> (addr \<times> ReportedIPv6Address) list" where
  "candidate_entries [] now seen = []"
| "candidate_entries (r # rs) now seen =
     (if \<not> IsValidCandidate r now then candidate_entries rs now seen
      else (case ParseAddr (trim_space (ra_Address r)) of
          None \<Rightarrow> candidate_entries rs now seen
        | Some a \<Rightarrow>
            if a \<in> set seen then candidate_entries rs now seen
            else (a, r\<lparr>ra_Address := addr_string a\<rparr>) # candidate_entries rs now (a # seen)))"

definition NormalizeAndFilterCandidates :: "ReportedIPv6Address list \<Rightarrow> time \<Rightarrow> ReportedIPv6Address list" where
  "NormalizeAndFilterCandidates rs now =
     map snd (go_sort (\<lambda>x y. addr_less (fst x) (fst y)) (candidate_entries rs now []))"

text \<open>Equality of \<open>time.Time\<close> instants, both or neither given; \<open>ValidUntil\<close> is not compared.\<close>

definition same_report :: "ReportedIPv6Address \<Rightarrow> ReportedIPv6Address \<Rightarrow> bool" where
  "same_report a b \<longleftrightarrow> ra_Address a = ra_Address b \<and> ra_Interface a = ra_Interface b
     \<and> ra_PrefixLength a = ra_PrefixLength b \<and> ra_Temporary a = ra_Temporary b
     \<and> ra_Deprecated a = ra_Deprecated b \<and> ra_PreferredUntil a = ra_PreferredUntil b"

definition AddressesEqual :: "ReportedIPv6Address list \<Rightarrow> ReportedIPv6Address list \<Rightarrow> bool" where
  "AddressesEqual xs ys \<longleftrightarrow> length xs = length ys \<and> list_all2 same_report xs ys"

definition report_less :: "ReportedIPv6Address \<Rightarrow> ReportedIPv6Address \<Rightarrow> bool" where
  "report_less x y = (case (ParseAddr (ra_Address x), ParseAddr (ra_Address y)) of
      (Some a, Some b) \<Rightarrow> addr_less a b | _ \<Rightarrow> ra_Address x < ra_Address y)"

definition SortAddresses :: "ReportedIPv6Address list \<Rightarrow> ReportedIPv6Address list" where
  "SortAddresses = go_sort report_less"

end
