(* ===== verification/NetAddrProps.thy ===== *)
theory NetAddrProps
  imports NetAddr
begin

text \<open>
  The printed form of an IPv6 address is read back by the parser, and what the filter of candidates
  returns: valid addresses, each once, in ascending order.
\<close>

section \<open>Groups of hexadecimal digits\<close>

lemma hex_digits_Cons: "16 \<le> n \<Longrightarrow> hex_digits n = hex_digits (n div 16) @ [hex_digit (n mod 16)]"
  by (subst hex_digits.simps) simp

lemma hex_digits_small: "n < 16 \<Longrightarrow> hex_digits n = [hex_digit n]"
  by (subst hex_digits.simps) simp

lemma hex_digit_val: "n < 16 \<Longrightarrow> hex_val (hex_digit n) = Some (of_nat n)"
  using nibble_facts by blast

lemma unat_nibble: "n < 16 \<Longrightarrow> unat (of_nat n :: byte) = n"
  by (simp add: unsigned_of_nat take_bit_nat_eq_self)

lemma byte_less: "unat (x :: byte) < 256"
  using unsigned_less [of x, where 'a = nat] by simp

lemma hex_digits_value: "foldl (\<lambda>v c. v * 16 + unat (the (hex_val c))) 0 (hex_digits n) = n"
proof (induction n rule: hex_digits.induct)
  case (1 n)
  then show ?case
    by (cases "n < 16") (simp_all add: hex_digits_small hex_digits_Cons hex_digit_val unat_nibble)
qed

lemma hex_digits_hex: "c \<in> set (hex_digits n) \<Longrightarrow> \<exists>k < 16. c = hex_digit k"
proof (induction n rule: hex_digits.induct)
  case (1 n)
  then show ?case
    by (cases "n < 16") (auto simp: hex_digits_small hex_digits_Cons intro: exI [of _ "n mod 16"])
qed

lemma hex_digits_vals: "c \<in> set (hex_digits n) \<Longrightarrow> hex_val c \<noteq> None"
  using hex_digits_hex hex_digit_val by fastforce

lemma hex_digits_nonempty [simp]: "hex_digits n \<noteq> []"
  by (subst hex_digits.simps) simp

lemma hex_digits_length: "n < 16 ^ k \<Longrightarrow> 0 < k \<Longrightarrow> length (hex_digits n) \<le> k"
proof (induction k arbitrary: n)
  case (Suc k)
  show ?case
  proof (cases "n < 16")
    case False
    then have "n div 16 < 16 ^ k" "0 < k"
      using Suc.prems by (auto simp: less_mult_imp_div_less mult.commute intro: gr0I)
    with False Suc.IH [of "n div 16"] show ?thesis by (simp add: hex_digits_Cons)
  qed (simp add: hex_digits_small)
qed simp

lemma hex_run_digits: "(case r of [] \<Rightarrow> True | c # _ \<Rightarrow> hex_val c = None) \<Longrightarrow> hex_run (hex_digits n @ r) = hex_digits n"
  unfolding hex_run_def using hex_digits_vals
  by (subst takeWhile_append2) (auto split: list.splits)

definition group_bytes :: "nat \<Rightarrow> byte list" where
  "group_bytes g = [of_nat (g div 256), of_nat (g mod 256)]"

lemma hex_group_digits: "hex_group (hex_digits g) = group_bytes g"
  by (simp add: hex_group_def group_bytes_def hex_digits_value Let_def)

lemma groups_bytes: "even (length b) \<Longrightarrow> concat (map group_bytes (ip_groups b)) = b"
proof (induction b rule: ip_groups.induct)
  case (1 x y bs)
  have "unat x < 256" "unat y < 256" by (rule byte_less)+
  with 1 show ?case by (simp add: group_bytes_def)
qed auto

lemma groups_bound: "g \<in> set (ip_groups b) \<Longrightarrow> g < 65536"
proof (induction b rule: ip_groups.induct)
  case (1 x y bs)
  have "unat x < 256" "unat y < 256" by (rule byte_less)+
  with 1 show ?case by auto
qed auto

lemma groups_length: "length (ip_groups b) = length b div 2"
  by (induction b rule: ip_groups.induct) auto

section \<open>Joined groups\<close>

fun joined :: "nat list \<Rightarrow> string" where
  "joined [] = []"
| "joined [g] = hex_digits g"
| "joined (g # h # gs) = hex_digits g @ CHR '':'' # joined (h # gs)"

lemma joined_enumerate:
  "concat (map (\<lambda>(i, g). (if i = 0 then [] else '':'') @ hex_digits g) (enumerate 0 xs)) = joined xs"
proof -
  have later: "concat (map (\<lambda>(i, g). (if i = 0 then [] else '':'') @ hex_digits g) (enumerate (Suc n) xs))
      = concat (map (\<lambda>g. CHR '':'' # hex_digits g) xs)" for n xs
    by (induction xs arbitrary: n) simp_all
  have "joined (g # xs) = hex_digits g @ concat (map (\<lambda>g. CHR '':'' # hex_digits g) xs)" for g xs
    by (induction xs arbitrary: g) simp_all
  then show ?thesis by (cases xs) (simp_all add: later)
qed

lemma joined_hd: "gs \<noteq> [] \<Longrightarrow> \<exists>k r. k < 16 \<and> joined gs = hex_digit k # r"
proof (cases gs)
  case (Cons g gs')
  obtain c r where d: "hex_digits g = c # r" by (cases "hex_digits g") simp_all
  then obtain k where "k < 16" "c = hex_digit k" using hex_digits_hex [of c g] by auto
  with d Cons show ?thesis by (cases gs') auto
qed simp

lemma hex_digit_marks: "k < 16 \<Longrightarrow> hex_digit k \<notin> {CHR '':'', CHR ''.'', CHR ''%''}"
proof -
  have "list_all (\<lambda>k. hex_digit k \<notin> {CHR '':'', CHR ''.'', CHR ''%''}) [0..<16]"
    by (simp add: upt_rec hex_digit_def)
  then show "k < 16 \<Longrightarrow> ?thesis" by (simp add: list_all_iff)
qed


lemma colon_not_hex: "hex_val CHR '':'' = None"
  by (simp add: hex_val_def)

text \<open>The parser reads joined groups to the end, and stops at an ellipsis after them.\<close>

lemma loop_groups:
  assumes "gs \<noteq> []" "length gs \<le> n" "\<And>g. g \<in> set gs \<Longrightarrow> g < 65536"
  shows "ip6_loop n (joined gs) b e = Some (b @ concat (map group_bytes gs), e, [])"
  using assms
proof (induction gs arbitrary: n b rule: joined.induct)
  case (2 g)
  then obtain m where n: "n = Suc m" by (cases n) auto
  have "length (hex_digits g) \<le> 4" using 2 by (intro hex_digits_length) simp_all
  then show ?case using hex_run_digits [of "[]" g] by (simp add: n Let_def hex_group_digits)
next
  case (3 g h gs)
  then obtain m where n: "n = Suc m" by (cases n) auto
  have len: "length (hex_digits g) \<le> 4" using 3 by (intro hex_digits_length) simp_all
  have run: "hex_run (hex_digits g @ CHR '':'' # joined (h # gs)) = hex_digits g"
    by (rule hex_run_digits) (simp add: colon_not_hex)
  obtain k r where k: "k < 16" "joined (h # gs) = hex_digit k # r" using joined_hd by blast
  have "hex_digit k \<noteq> CHR '':''" using hex_digit_marks [OF k(1)] by simp
  moreover have "ip6_loop m (joined (h # gs)) (b @ group_bytes g) e = Some ((b @ group_bytes g) @ concat (map group_bytes (h # gs)), e, [])"
    using 3 n by (intro 3) auto
  ultimately show ?case using run len k(2) by (simp add: n Let_def hex_group_digits)
qed simp

lemma loop_ellipsis:
  assumes "gs \<noteq> []" "length gs < n" "\<And>g. g \<in> set gs \<Longrightarrow> g < 65536"
  shows "ip6_loop n (joined gs @ CHR '':'' # CHR '':'' # rest) b None =
    (let b1 = b @ concat (map group_bytes gs) in
     if rest = [] then Some (b1, Some (length b1), []) else ip6_loop (n - length gs) rest b1 (Some (length b1)))"
  using assms
proof (induction gs arbitrary: n b rule: joined.induct)
  case (2 g)
  then obtain m where n: "n = Suc m" by (cases n) auto
  have "length (hex_digits g) \<le> 4" using 2 by (intro hex_digits_length) simp_all
  moreover have "hex_run (hex_digits g @ CHR '':'' # CHR '':'' # rest) = hex_digits g"
    by (rule hex_run_digits) (simp add: colon_not_hex)
  ultimately show ?case by (simp add: n Let_def hex_group_digits)
next
  case (3 g h gs)
  then obtain m where n: "n = Suc m" by (cases n) auto
  have len: "length (hex_digits g) \<le> 4" using 3 by (intro hex_digits_length) simp_all
  let ?r = "joined (h # gs) @ CHR '':'' # CHR '':'' # rest"
  have run: "hex_run (hex_digits g @ CHR '':'' # ?r) = hex_digits g"
    by (rule hex_run_digits) (simp add: colon_not_hex)
  obtain k r where k: "k < 16" "joined (h # gs) = hex_digit k # r" using joined_hd by blast
  have "hex_digit k \<noteq> CHR '':''" using hex_digit_marks [OF k(1)] by simp
  moreover have "ip6_loop m ?r (b @ group_bytes g) None = (let b1 = (b @ group_bytes g) @ concat (map group_bytes (h # gs)) in
     if rest = [] then Some (b1, Some (length b1), []) else ip6_loop (m - length (h # gs)) rest b1 (Some (length b1)))"
    using 3 n by (intro 3) auto
  ultimately show ?case using run len k(2) by (simp add: n Let_def hex_group_digits)
qed simp

section \<open>The round trip\<close>

lemma zero_run_spec:
  assumes "length gs = 8" "zero_run gs = (s, e)"
  shows "(s = 8 \<and> e = 8) \<or> (s + 2 \<le> e \<and> e \<le> 8 \<and> (\<forall>k. s \<le> k \<longrightarrow> k < e \<longrightarrow> gs ! k = 0))"
proof -
  let ?f = "\<lambda>i (s, e). let l = length (takeWhile (\<lambda>g. g = 0) (drop i gs)) in
     if l \<ge> 2 \<and> l > e - s then (i, i + l) else (s, e :: nat)"
  let ?P = "\<lambda>(s, e). (s = 8 \<and> e = 8) \<or> (s + 2 \<le> e \<and> e \<le> 8 \<and> (\<forall>k. s \<le> k \<longrightarrow> k < e \<longrightarrow> gs ! k = 0))"
  have step: "?P (?f i se)" if "?P se" "i \<in> set [0..<8]" for i se
  proof -
    obtain s e where se: "se = (s, e)" by fastforce
    define l where "l = length (takeWhile (\<lambda>g. g = 0) (drop i gs))"
    have le: "l \<le> 8 - i" using length_takeWhile_le [of "\<lambda>g. g = 0" "drop i gs"] assms(1) by (simp add: l_def)
    have zero: "gs ! k = 0" if "i \<le> k" "k < i + l" for k
    proof -
      have "takeWhile (\<lambda>g. g = 0) (drop i gs) ! (k - i) = drop i gs ! (k - i)"
        using that by (intro takeWhile_nth) (simp add: l_def)
      moreover have "takeWhile (\<lambda>g. g = 0) (drop i gs) ! (k - i) = 0"
        using that nth_mem [of "k - i" "takeWhile (\<lambda>g. g = 0) (drop i gs)"] set_takeWhileD by (fastforce simp: l_def)
      ultimately show ?thesis using that assms(1) le by (simp add: nth_drop)
    qed
    show ?thesis using that le zero by (auto simp: se Let_def simp flip: l_def)
  qed
  have "?P (fold ?f is se)" if "set is \<subseteq> set [0..<8]" "?P se" for "is" se
    using that
  proof (induction "is" arbitrary: se)
    case (Cons i "is")
    have "?P (?f i se)" by (rule step) (use Cons.prems in auto)
    with Cons show ?case by simp
  qed simp
  from this [of "[0..<8]" "(8, 8)"] assms(2) show ?thesis by (simp add: zero_run_def)
qed

lemma zeros_bytes: "concat (map group_bytes (replicate k 0)) = replicate (2 * k) 0"
  by (induction k) (simp_all add: group_bytes_def)

lemma group_bytes_length: "length (concat (map group_bytes gs)) = 2 * length gs"
  by (induction gs) (simp_all add: group_bytes_def)


lemma not_ellipsis: "gs \<noteq> [] \<Longrightarrow> \<not> has_prefix (joined gs @ r) ''::''"
  using joined_hd [of gs] hex_digit_marks by auto

lemma parse_ip6_string:
  assumes b: "length b = 16"
  shows "parse_ip6 (ip6_string (ip_groups b)) = Some b"
proof -
  define gs where "gs = ip_groups b"
  have len: "length gs = 8" by (simp add: gs_def groups_length b)
  have bound: "g < 65536" if "g \<in> set gs" for g using that unfolding gs_def by (rule groups_bound)
  have bytes: "concat (map group_bytes gs) = b" unfolding gs_def by (rule groups_bytes) (simp add: b)
  obtain s e where z: "zero_run gs = (s, e)" by fastforce
  from zero_run_spec [OF len z] show ?thesis
  proof (elim disjE)
    assume "s = 8 \<and> e = 8"
    then have str: "ip6_string gs = joined gs" using z by (simp add: ip6_string_def joined_enumerate)
    have "gs \<noteq> []" using len by auto
    then have "ip6_loop 8 (joined gs) [] None = Some (b, None, [])"
      using loop_groups [of gs 8 "[]" None] len bound bytes by simp
    then show ?thesis using not_ellipsis [OF \<open>gs \<noteq> []\<close>, of "[]"] b
      unfolding parse_ip6_def gs_def [symmetric] str by simp
  next
    assume run: "s + 2 \<le> e \<and> e \<le> 8 \<and> (\<forall>k. s \<le> k \<longrightarrow> k < e \<longrightarrow> gs ! k = 0)"
    define hs where "hs = drop e gs"
    have str: "ip6_string gs = joined (take s gs) @ CHR '':'' # CHR '':'' # joined hs"
      using z run by (simp add: ip6_string_def joined_enumerate hs_def)
    have hs: "length hs = 8 - e" "\<And>g. g \<in> set hs \<Longrightarrow> g < 65536"
      using bound by (auto simp: hs_def len dest: in_set_dropD)
    have "gs = take s gs @ replicate (e - s) 0 @ hs"
    proof (rule nth_equalityI)
      show "length gs = length (take s gs @ replicate (e - s) 0 @ hs)" using run hs(1) len by auto
      show "gs ! i = (take s gs @ replicate (e - s) 0 @ hs) ! i" if "i < length gs" for i
        using that run len by (auto simp: nth_append hs_def nth_drop)
    qed
    then have parts: "b = concat (map group_bytes (take s gs)) @ replicate (2 * (e - s)) 0 @ concat (map group_bytes hs)"
      using bytes zeros_bytes by (metis concat_append map_append)
    have lens: "length (concat (map group_bytes (take s gs))) = 2 * s" "length (concat (map group_bytes hs)) = 2 * (8 - e)"
      using run hs(1) len by (simp_all only: group_bytes_length) simp
    have tail: "ip6_loop n (joined hs) b1 (Some (length b1)) = Some (b1 @ concat (map group_bytes hs), Some (length b1), [])"
      if "hs \<noteq> []" "8 - e \<le> n" for n b1
      using loop_groups [OF that(1) _ hs(2), of n b1] that(2) hs(1) by simp
    have fill: "take (2 * s) (concat (map group_bytes (take s gs)) @ concat (map group_bytes hs))
        @ replicate (16 - (2 * s + 2 * (8 - e))) 0
        @ drop (2 * s) (concat (map group_bytes (take s gs)) @ concat (map group_bytes hs)) = b"
    proof -
      have "16 - (2 * s + 2 * (8 - e)) = 2 * (e - s)" using run by auto
      then show ?thesis using lens(1) parts by simp
    qed
    have empty: "joined hs = [] \<longleftrightarrow> hs = []" by (cases hs rule: joined.cases) simp_all
    show ?thesis
    proof (cases "s = 0")
      case True
      then have "ip6_string gs = CHR '':'' # CHR '':'' # joined hs" by (simp add: str)
      moreover have "hs = [] \<Longrightarrow> b = replicate 16 0" using parts True run hs(1) by (simp add: hs(1))
      moreover have "hs \<noteq> [] \<Longrightarrow> ip6_loop 8 (joined hs) [] (Some 0) = Some (concat (map group_bytes hs), Some 0, [])"
        using tail [of 8 "[]"] by simp
      moreover have "length (concat (map group_bytes hs)) < 16" using lens(2) run True by simp
      ultimately show ?thesis
        using fill True lens(2) unfolding parse_ip6_def gs_def [symmetric] by (auto simp: empty Let_def)
    next
      case False
      then have ne: "take s gs \<noteq> []" using len by auto
      let ?b1 = "concat (map group_bytes (take s gs))"
      have "ip6_loop 8 (joined (take s gs) @ CHR '':'' # CHR '':'' # joined hs) [] None = Some (?b1 @ concat (map group_bytes hs), Some (2 * s), [])"
      proof -
        have "ip6_loop 8 (joined (take s gs) @ CHR '':'' # CHR '':'' # joined hs) [] None =
          (let b1 = [] @ ?b1 in if joined hs = [] then Some (b1, Some (length b1), [])
           else ip6_loop (8 - length (take s gs)) (joined hs) b1 (Some (length b1)))"
          by (rule loop_ellipsis [OF ne]) (use run len bound in \<open>auto dest: in_set_takeD\<close>)
        then show ?thesis
          using tail [of "8 - s" ?b1] lens(1) run len by (auto simp: empty Let_def)
      qed
      moreover have "length (?b1 @ concat (map group_bytes hs)) < 16"
        unfolding length_append lens using run by linarith
      ultimately show ?thesis
        using fill not_ellipsis [OF ne, of "CHR '':'' # CHR '':'' # joined hs"] lens
        unfolding parse_ip6_def gs_def [symmetric] str by simp
    qed
  qed
qed

definition ip_char :: "char \<Rightarrow> bool" where
  "ip_char c \<longleftrightarrow> c = CHR '':'' \<or> hex_val c \<noteq> None"

lemma hex_digits_chars: "list_all ip_char (hex_digits g)"
  using hex_digits_vals by (simp add: list_all_iff ip_char_def)

lemma joined_chars: "list_all ip_char (joined gs)"
  by (induction gs rule: joined.induct) (simp_all add: hex_digits_chars, simp add: ip_char_def)

lemma ip6_string_chars: "list_all ip_char (ip6_string gs)"
proof -
  obtain s e where z: "zero_run gs = (s, e)" by fastforce
  show ?thesis unfolding ip6_string_def z Let_def prod.case joined_enumerate
    using joined_chars by (simp add: ip_char_def)
qed

lemma ip6_string_colon:
  assumes "length gs = 8"
  shows "CHR '':'' \<in> set (ip6_string gs)"
proof -
  obtain s e where z: "zero_run gs = (s, e)" by fastforce
  have "gs = gs ! 0 # gs ! 1 # drop 2 gs"
    using assms Cons_nth_drop_Suc [of 0 gs] Cons_nth_drop_Suc [of 1 gs] by (simp add: numeral_2_eq_2)
  then obtain a b cs where "gs = a # b # cs" by blast
  then have "CHR '':'' \<in> set (joined gs)" by simp
  then show ?thesis unfolding ip6_string_def z Let_def prod.case joined_enumerate by simp
qed

lemma find_first: "x \<in> set xs \<Longrightarrow> P x \<Longrightarrow> (\<And>y. y \<in> set xs \<Longrightarrow> P y \<Longrightarrow> y = x) \<Longrightarrow> find P (xs @ ys) = Some x"
proof (induction xs)
  case (Cons y xs)
  show ?case
  proof (cases "P y")
    case True
    then have "y = x" by (rule Cons.prems(3) [OF list.set_intros(1)])
    with True show ?thesis by simp
  next
    case False
    with Cons.prems(1,2) have "x \<in> set xs" by auto
    then have "find P (xs @ ys) = Some x" by (rule Cons.IH [OF _ Cons.prems(2)]) (rule Cons.prems(3); simp)
    with False show ?thesis by simp
  qed
qed simp

text \<open>The printed form of an IPv6 address is read back, with its zone.\<close>

lemma ParseAddr_string:
  assumes b: "length b = 16" "\<not> Is4In6_bytes b"
  shows "ParseAddr (addr_string (Addr6 b z)) = Some (Addr6 b z)"
proof -
  let ?s = "ip6_string (ip_groups b)" and ?z = "if z = [] then [] else CHR ''%'' # z"
  have len: "length (ip_groups b) = 8" by (simp add: groups_length b)
  have marks: "\<not> ip_char CHR ''.''" "\<not> ip_char CHR ''%''" by (simp_all add: ip_char_def hex_val_def)
  have chars: "c \<noteq> CHR ''.'' \<and> c \<noteq> CHR ''%''" if "c \<in> set ?s" for c
  proof -
    have "ip_char c" using ip6_string_chars that unfolding list_all_iff by blast
    then show ?thesis using marks by metis
  qed
  have "find (\<lambda>c. c \<in> {CHR ''.'', CHR '':'', CHR ''%''}) (?s @ ?z) = Some CHR '':''"
  proof (rule find_first)
    show "CHR '':'' \<in> set ?s" by (rule ip6_string_colon [OF len])
    show "y = CHR '':''" if "y \<in> set ?s" "y \<in> {CHR ''.'', CHR '':'', CHR ''%''}" for y using that chars by blast
  qed simp
  moreover have "takeWhile (\<lambda>c. c \<noteq> CHR ''%'') (?s @ ?z) = ?s"
  proof -
    have "takeWhile (\<lambda>c. c \<noteq> CHR ''%'') (?s @ ?z) = ?s @ takeWhile (\<lambda>c. c \<noteq> CHR ''%'') ?z"
      by (rule takeWhile_append2) (use chars in blast)
    then show ?thesis by simp
  qed
  ultimately show ?thesis
    using b(2) unfolding ParseAddr_def parse_addr6_def addr_string.simps Let_def
    by (simp add: parse_ip6_string [OF b(1)])
qed


lemma ip_char_graphic: "ip_char c \<Longrightarrow> graphic c"
  by (auto simp: ip_char_def hex_val_def graphic_def Let_def split: if_splits)

lemma ip6_string_nonempty: "length b = 16 \<Longrightarrow> ip6_string (ip_groups b) \<noteq> []"
  using ip6_string_colon [of "ip_groups b"] by (auto simp: groups_length)

lemma trim_addr_string:
  assumes "length b = 16" "\<not> Is4In6_bytes b"
  shows "trim_space (addr_string (Addr6 b [])) = addr_string (Addr6 b [])"
proof -
  let ?s = "ip6_string (ip_groups b)"
  have g: "c \<in> set ?s \<Longrightarrow> graphic c" for c
    using ip6_string_chars ip_char_graphic unfolding list_all_iff by blast
  have "trim_space ?s = ?s"
    by (rule trim_space_graphic) (use ip6_string_nonempty [OF assms(1)] g in simp_all)
  then show ?thesis using assms(2) by simp
qed

lemma not_zeros: "x \<noteq> 0 \<Longrightarrow> x # xs \<noteq> replicate 16 (0 :: byte)"
  by (metis hd_replicate list.sel(1) zero_neq_numeral)

section \<open>The order of addresses\<close>

lemma addr_less_irrefl [simp]: "\<not> addr_less a a"
  by (cases a) auto

lemma addr_less_trans: "addr_less a b \<Longrightarrow> addr_less b c \<Longrightarrow> addr_less a c"
  by (cases a; cases b; cases c) auto

lemma addr_less_linear: "addr_less a b \<or> a = b \<or> addr_less b a"
  by (cases a; cases b) auto

interpretation by_addr: weak_order "\<lambda>x y. addr_less (fst x) (fst y)"
proof
  fix x y z :: "addr \<times> 'b"
  show "addr_less (fst x) (fst y) \<Longrightarrow> \<not> addr_less (fst y) (fst x)"
    using addr_less_trans addr_less_irrefl by blast
  show "\<not> addr_less (fst y) (fst x) \<Longrightarrow> \<not> addr_less (fst z) (fst y) \<Longrightarrow> \<not> addr_less (fst z) (fst x)"
    using addr_less_trans addr_less_linear by metis
qed

interpretation addr_order: weak_order addr_less
proof
  fix x y z
  show "addr_less x y \<Longrightarrow> \<not> addr_less y x" using addr_less_trans addr_less_irrefl by blast
  show "\<not> addr_less y x \<Longrightarrow> \<not> addr_less z y \<Longrightarrow> \<not> addr_less z x" using addr_less_trans addr_less_linear by metis
qed

section \<open>Candidates\<close>

lemma parse_addr_length: "ParseAddr s = Some (Addr6 b z) \<Longrightarrow> length b = 16"
  by (auto simp: ParseAddr_def parse_addr6_def Let_def dest: parse_ip6_length split: option.splits if_splits)

definition candidate :: "ReportedIPv6Address \<Rightarrow> time \<Rightarrow> addr \<Rightarrow> bool" where
  "candidate r now a \<longleftrightarrow> IsValidCandidate r now \<and> ParseAddr (trim_space (ra_Address r)) = Some a"

lemma candidate_addr:
  assumes "candidate r now a"
  obtains b z where "a = Addr6 b z" "length b = 16" "\<not> Is4In6_bytes b"
proof (cases a)
  case (Addr6 b z)
  with assms have "length b = 16" "\<not> Is4In6_bytes b"
    by (auto simp: candidate_def IsValidCandidate_def dest: parse_addr_length split: option.splits)
  with Addr6 that show thesis by blast
qed (use assms in \<open>auto simp: candidate_def IsValidCandidate_def split: option.splits\<close>)

lemma candidate_string: "candidate r now a \<Longrightarrow> ParseAddr (addr_string a) = Some a"
  by (elim candidate_addr) (simp add: ParseAddr_string del: addr_string.simps)

definition candidate_of :: "ReportedIPv6Address \<Rightarrow> time \<Rightarrow> addr option" where
  "candidate_of r now = (if IsValidCandidate r now then ParseAddr (trim_space (ra_Address r)) else None)"

lemma candidate_of: "candidate r now a \<longleftrightarrow> candidate_of r now = Some a"
  by (simp add: candidate_def candidate_of_def)

lemma candidate_entries_Cons:
  "candidate_entries (r # rs) now seen = (case candidate_of r now of
      None \<Rightarrow> candidate_entries rs now seen
    | Some a \<Rightarrow> if a \<in> set seen then candidate_entries rs now seen
        else (a, r\<lparr>ra_Address := addr_string a\<rparr>) # candidate_entries rs now (a # seen))"
  by (auto simp: candidate_of_def split: option.split)

declare candidate_entries.simps(2) [simp del]

lemma entries_addrs: "fst ` set (candidate_entries rs now seen) = {a. \<exists>r \<in> set rs. candidate r now a} - set seen"
  unfolding candidate_of
proof (induction rs arbitrary: seen)
  case (Cons r rs)
  show ?case
  proof (cases "candidate_of r now")
    case (Some a)
    then show ?thesis by (cases "a \<in> set seen") (auto simp: candidate_entries_Cons Cons.IH)
  qed (simp add: candidate_entries_Cons Cons.IH)
qed simp

lemma entries_distinct: "distinct (map fst (candidate_entries rs now seen))"
proof (induction rs arbitrary: seen)
  case (Cons r rs)
  have "a \<notin> set (map fst (candidate_entries rs now (a # seen)))" for a
    unfolding set_map entries_addrs by simp
  then show ?case by (auto simp: candidate_entries_Cons Cons.IH split: option.split)
qed simp

lemma entries_reports:
  "e \<in> set (candidate_entries rs now seen) \<Longrightarrow>
    \<exists>r \<in> set rs. candidate r now (fst e) \<and> snd e = r\<lparr>ra_Address := addr_string (fst e)\<rparr>"
  unfolding candidate_of
  by (induction rs arbitrary: seen) (fastforce simp: candidate_entries_Cons split: option.splits if_splits)+

text \<open>
  C27: What \<open>NormalizeAndFilterCandidates\<close> returns: read by the parser, its addresses are in strictly
  ascending order - so none occurs twice - and they are exactly those of the valid reports. Whatever order
  reports come in, the addresses returned are the same.
\<close>

theorem normalized_candidates:
  "\<exists>as. map (\<lambda>r. ParseAddr (ra_Address r)) (NormalizeAndFilterCandidates rs now) = map Some as
     \<and> sorted_wrt addr_less as \<and> set as = {a. \<exists>r \<in> set rs. candidate r now a}"
proof -
  define es where "es = go_sort (\<lambda>x y. addr_less (fst x) (fst y)) (candidate_entries rs now [])"
  have set: "set es = set (candidate_entries rs now [])" by (simp add: es_def)
  have "map (\<lambda>r. ParseAddr (ra_Address r)) (NormalizeAndFilterCandidates rs now) = map Some (map fst es)"
    unfolding NormalizeAndFilterCandidates_def es_def [symmetric] map_map comp_def
  proof (rule map_cong [OF refl])
    fix e assume "e \<in> set es"
    then obtain r where "candidate r now (fst e)" "snd e = r\<lparr>ra_Address := addr_string (fst e)\<rparr>"
      using set entries_reports by metis
    then show "ParseAddr (ra_Address (snd e)) = Some (fst e)" by (simp add: candidate_string)
  qed
  moreover have "sorted_wrt addr_less (map fst es)"
  proof -
    have "sorted_wrt (\<lambda>x y. \<not> addr_less (fst y) (fst x)) es" unfolding es_def by (rule by_addr.sorted_go_sort)
    then have "sorted_wrt (\<lambda>x y. \<not> addr_less y x) (map fst es)" by (simp add: sorted_wrt_map)
    moreover have "mset (map fst es) = mset (map fst (candidate_entries rs now []))" by (simp add: es_def)
    then have "distinct (map fst es)" using entries_distinct mset_eq_imp_distinct_iff by blast
    ultimately show ?thesis
      using addr_less_linear by (induction "map fst es" arbitrary: es rule: list.induct) (fastforce, fastforce)
  qed
  moreover have "set (map fst es) = {a. \<exists>r \<in> set rs. candidate r now a}"
    using entries_addrs [of rs now "[]"] set by simp
  ultimately show ?thesis by blast
qed

end
