(* ===== verification/NetStates.thy ===== *)
theory NetStates
  imports NetAddr
begin

text \<open>
  What the server knows of the addresses in its networks: the reports of devices
  (\<open>internal/devicestate/service.go\<close>) and the prefixes that routers announce
  (\<open>internal/prefixstate/prefix.go\<close> and \<open>service.go\<close>), each with a revision that reports may not
  go back behind, over a store in memory or in a file. The services use their stores through an interface,
  here the arguments \<open>get\<close> and \<open>save\<close>.
\<close>

section \<open>Prefixes\<close>

text \<open>\<open>netip.Prefix\<close>: an address without a zone and a number of bits.\<close>

datatype prefix = Prefix addr nat

fun mask_bytes :: "nat \<Rightarrow> ip \<Rightarrow> ip" where
  "mask_bytes b [] = []"
| "mask_bytes b (x # xs) =
     (if b \<ge> 8 then x # mask_bytes (b - 8) xs
      else and x (push_bit (8 - b) 0xff) # replicate (length xs) 0)"

fun map_bytes :: "(ip \<Rightarrow> ip) \<Rightarrow> addr \<Rightarrow> addr" where
  "map_bytes f (Addr4 b) = Addr4 (f b)"
| "map_bytes f (Addr6 b z) = Addr6 (f b) z"

text \<open>\<open>ParsePrefix\<close>: at the last slash; no sign and no leading zero in the bits.\<close>

definition ParsePrefix :: "string \<Rightarrow> prefix option" where
  "ParsePrefix s =
     (if CHR ''/'' \<notin> set s then None
      else
        (let bits = rev (takeWhile (\<lambda>c. c \<noteq> CHR ''/'') (rev s));
             a = take (length s - length bits - 1) s in
         (case ParseAddr a of
            None \<Rightarrow> None
          | Some x \<Rightarrow>
              if hasZone x then None
              else if length bits > 1 \<and> (hd bits < CHR ''1'' \<or> hd bits > CHR ''9'') then None
              else (case atoi bits of
                  None \<Rightarrow> None
                | Some n \<Rightarrow> if n < 0 \<or> n > (if Is6 x then 128 else 32) then None else Some (Prefix x (nat n))))))"

fun Masked :: "prefix \<Rightarrow> prefix" where
  "Masked (Prefix a n) = Prefix (map_bytes (mask_bytes n) a) n"

fun prefix_string :: "prefix \<Rightarrow> string" where
  "prefix_string (Prefix a n) = addr_string a @ ''/'' @ nat_digits n"

fun prefix_Contains :: "prefix \<Rightarrow> addr \<Rightarrow> bool" where
  "prefix_Contains (Prefix p n) a \<longleftrightarrow>
     \<not> hasZone a \<and> Is6 p = Is6 a \<and> mask_bytes n (addr_bytes p) = mask_bytes n (addr_bytes a)"

record ReportedIPv6Prefix =
  rp_Prefix :: string
  rp_PreferredUntil :: "time option"
  rp_ValidUntil :: "time option"

definition IsValidPrefix :: "ReportedIPv6Prefix \<Rightarrow> time \<Rightarrow> bool" where
  "IsValidPrefix p now \<longleftrightarrow>
     \<not> ended now (rp_PreferredUntil p) \<and> \<not> ended now (rp_ValidUntil p)
     \<and> (case ParsePrefix (trim_space (rp_Prefix p)) of
          None \<Rightarrow> False
        | Some (Prefix a n) \<Rightarrow> \<not> (\<not> Is6 a \<or> Is4In6 a \<or> unusable_range a) \<and> \<not> isULA (addr_bytes a))"

fun prefix_entries ::
  "ReportedIPv6Prefix list \<Rightarrow> time \<Rightarrow> prefix list \<Rightarrow> (prefix \<times> ReportedIPv6Prefix) list" where
  "prefix_entries [] now seen = []"
| "prefix_entries (p # ps) now seen =
     (if \<not> IsValidPrefix p now then prefix_entries ps now seen
      else (case ParsePrefix (trim_space (rp_Prefix p)) of
          None \<Rightarrow> prefix_entries ps now seen
        | Some x0 \<Rightarrow>
            (let x = Masked x0 in
             if x \<in> set seen then prefix_entries ps now seen
             else (x, p\<lparr>rp_Prefix := prefix_string x\<rparr>) # prefix_entries ps now (x # seen))))"

definition NormalizePrefixes :: "ReportedIPv6Prefix list \<Rightarrow> time \<Rightarrow> ReportedIPv6Prefix list" where
  "NormalizePrefixes ps now =
     map snd (go_sort (\<lambda>x y. prefix_string (fst x) < prefix_string (fst y)) (prefix_entries ps now []))"

definition same_prefix :: "ReportedIPv6Prefix \<Rightarrow> ReportedIPv6Prefix \<Rightarrow> bool" where
  "same_prefix a b \<longleftrightarrow> rp_Prefix a = rp_Prefix b \<and> rp_PreferredUntil a = rp_PreferredUntil b"

definition PrefixesEqual :: "ReportedIPv6Prefix list \<Rightarrow> ReportedIPv6Prefix list \<Rightarrow> bool" where
  "PrefixesEqual xs ys \<longleftrightarrow> length xs = length ys \<and> list_all2 same_prefix xs ys"

fun matching_addrs :: "ReportedIPv6Address list \<Rightarrow> prefix list \<Rightarrow> addr list \<Rightarrow> addr list" where
  "matching_addrs [] active seen = []"
| "matching_addrs (c # cs) active seen =
     (case ParseAddr (trim_space (ra_Address c)) of
        None \<Rightarrow> matching_addrs cs active seen
      | Some a \<Rightarrow>
          if a \<in> set seen then matching_addrs cs active seen
          else if list_ex (\<lambda>p. prefix_Contains p a) active then a # matching_addrs cs active (a # seen)
          else matching_addrs cs active seen)"

definition Intersect :: "ReportedIPv6Address list \<Rightarrow> prefix list \<Rightarrow> addr list" where
  "Intersect candidates active = go_sort addr_less (matching_addrs candidates active [])"

definition SelectAddress :: "addr list \<Rightarrow> string \<Rightarrow> addr option" where
  "SelectAddress valid applied = (case valid of
      [] \<Rightarrow> None
    | v # _ \<Rightarrow>
        (case (if applied \<noteq> [] then ParseAddr (trim_space applied) else None) of
           Some a \<Rightarrow> if a \<in> set valid then Some a else Some v
         | None \<Rightarrow> Some v))"

section \<open>Stores\<close>

text \<open>A file as the decoder sees it; a store with its file, and the store in memory.\<close>

datatype 'v state_file = NoStateFile | StateUnreadable | StateCorrupt | StateData int "(string, 'v) gomap option"

record 'v file_store =
  sf_states :: "(string, 'v) gomap"
  sf_file :: "'v state_file"

type_synonym 'v memory_store = "(string, 'v) gomap"

definition OpenFileStore :: "'v state_file \<Rightarrow> 'v file_store option" where
  "OpenFileStore f = (case f of
      NoStateFile \<Rightarrow> Some \<lparr>sf_states = [], sf_file = f\<rparr>
    | StateData schema (Some m) \<Rightarrow> if schema \<noteq> 1 then None else Some \<lparr>sf_states = m, sf_file = f\<rparr>
    | _ \<Rightarrow> None)"

definition file_get :: "'v file_store \<Rightarrow> string \<Rightarrow> 'v option" where
  "file_get s k = gget (sf_states s) k"

text \<open>A failed write puts the previous state back.\<close>

definition file_save :: "('v \<Rightarrow> string) \<Rightarrow> bool \<Rightarrow> 'v \<Rightarrow> 'v file_store \<Rightarrow> 'v file_store \<times> bool" where
  "file_save key ok v s =
     (let k = key v; previous = gget (sf_states s) k; m = gput k v (sf_states s) in
      if ok then (\<lparr>sf_states = m, sf_file = StateData 1 (Some m)\<rparr>, True)
      else (s\<lparr>sf_states := (case previous of Some p \<Rightarrow> gput k p m | None \<Rightarrow> gdel k m)\<rparr>, False))"

definition file_list :: "'v file_store \<Rightarrow> 'v list" where
  "file_list s = gvals (sf_states s)"

definition memory_get :: "'v memory_store \<Rightarrow> string \<Rightarrow> 'v option" where
  "memory_get s k = gget s k"

definition memory_save :: "('v \<Rightarrow> string) \<Rightarrow> bool \<Rightarrow> 'v \<Rightarrow> 'v memory_store \<Rightarrow> 'v memory_store \<times> bool" where
  "memory_save key ok v s = (gput (key v) v s, True)"

definition memory_list :: "'v memory_store \<Rightarrow> 'v list" where
  "memory_list s = gvals s"

section \<open>Device states\<close>

datatype sync_status = SyncPending | Syncing | SyncSynced | SyncFailed | SyncGracePeriod | SyncText string

record DeviceIPv6State =
  ds_DeviceID :: string
  ds_NetworkID :: string
  ds_Revision :: u64
  ds_ObservedAt :: time
  ds_Addresses :: "ReportedIPv6Address list"
  ds_Desired :: string
  ds_Applied :: string
  ds_AppliedRevision :: u64
  ds_SyncStatus :: sync_status
  ds_SyncError :: string
  ds_SyncUpdatedAt :: time
  ds_GraceEnd :: "time option"

datatype revision_error = RevisionOlder u64 u64 | RevisionMismatch u64 u64 | StateNotSaved

text \<open>\<open>get\<close> and \<open>save\<close> are the store; \<open>ok\<close> is the outcome of its write.\<close>

definition UpdateReportedAddresses ::
  "('s \<Rightarrow> string \<Rightarrow> DeviceIPv6State option) \<Rightarrow> (bool \<Rightarrow> DeviceIPv6State \<Rightarrow> 's \<Rightarrow> 's \<times> bool) \<Rightarrow> bool \<Rightarrow> time
     \<Rightarrow> string \<Rightarrow> string \<Rightarrow> u64 \<Rightarrow> time \<Rightarrow> ReportedIPv6Address list \<Rightarrow> 's
     \<Rightarrow> 's \<times> (revision_error + DeviceIPv6State \<times> bool)" where
  "UpdateReportedAddresses get save ok now deviceID networkID revision observed raw s =
     (let normalized = NormalizeAndFilterCandidates raw observed in
      case get s deviceID of
        None \<Rightarrow>
          (let st = \<lparr>ds_DeviceID = deviceID, ds_NetworkID = networkID, ds_Revision = revision, ds_ObservedAt = observed,
                 ds_Addresses = normalized, ds_Desired = [], ds_Applied = [], ds_AppliedRevision = 0,
                 ds_SyncStatus = SyncPending, ds_SyncError = [], ds_SyncUpdatedAt = now, ds_GraceEnd = None\<rparr>;
               (s1, saved) = save ok st s in
           (s1, if saved then Inr (st, True) else Inl StateNotSaved))
      | Some existing \<Rightarrow>
          if revision < ds_Revision existing then (s, Inl (RevisionOlder (ds_Revision existing) revision))
          else if revision = ds_Revision existing then
            (if AddressesEqual (ds_Addresses existing) normalized then (s, Inr (existing, False))
             else (s, Inl (RevisionMismatch (ds_Revision existing) revision)))
          else
            (let changed = \<not> AddressesEqual (ds_Addresses existing) normalized;
                 st1 = existing\<lparr>ds_Revision := revision, ds_ObservedAt := observed,
                   ds_NetworkID := (if networkID \<noteq> [] then networkID else ds_NetworkID existing), ds_Addresses := normalized\<rparr>;
                 st = (if changed then st1\<lparr>ds_SyncStatus := SyncPending, ds_SyncUpdatedAt := now\<rparr> else st1);
                 (s1, saved) = save ok st s in
             (s1, if saved then Inr (st, changed) else Inl StateNotSaved)))"

section \<open>Router states\<close>

record RouterPrefixState =
  rs_RouterDeviceID :: string
  rs_NetworkID :: string
  rs_Revision :: u64
  rs_ObservedAt :: time
  rs_LastSeenAt :: time
  rs_Prefixes :: "ReportedIPv6Prefix list"

definition UpdateRouterPrefixes ::
  "('s \<Rightarrow> string \<Rightarrow> RouterPrefixState option) \<Rightarrow> (bool \<Rightarrow> RouterPrefixState \<Rightarrow> 's \<Rightarrow> 's \<times> bool) \<Rightarrow> bool \<Rightarrow> time
     \<Rightarrow> string \<Rightarrow> string \<Rightarrow> u64 \<Rightarrow> time \<Rightarrow> ReportedIPv6Prefix list \<Rightarrow> 's
     \<Rightarrow> 's \<times> (revision_error + RouterPrefixState \<times> bool)" where
  "UpdateRouterPrefixes get save ok now routerID networkID revision observed raw s =
     (let normalized = NormalizePrefixes raw observed in
      case get s networkID of
        None \<Rightarrow>
          (let st = \<lparr>rs_RouterDeviceID = routerID, rs_NetworkID = networkID, rs_Revision = revision,
                 rs_ObservedAt = observed, rs_LastSeenAt = now, rs_Prefixes = normalized\<rparr>;
               (s1, saved) = save ok st s in
           (s1, if saved then Inr (st, True) else Inl StateNotSaved))
      | Some existing \<Rightarrow>
          if revision < rs_Revision existing then (s, Inl (RevisionOlder (rs_Revision existing) revision))
          else if revision = rs_Revision existing then
            (if PrefixesEqual (rs_Prefixes existing) normalized then
               (let st = existing\<lparr>rs_LastSeenAt := now\<rparr> in (fst (save ok st s), Inr (st, False)))
             else (s, Inl (RevisionMismatch (rs_Revision existing) revision)))
          else
            (let changed = \<not> PrefixesEqual (rs_Prefixes existing) normalized;
                 st = existing\<lparr>rs_Revision := revision, rs_RouterDeviceID := routerID, rs_ObservedAt := observed,
                   rs_LastSeenAt := now, rs_Prefixes := normalized\<rparr>;
                 (s1, saved) = save ok st s in
             (s1, if saved then Inr (st, changed) else Inl StateNotSaved)))"

text \<open>\<open>None\<close> when the network is not known. The second result tells whether the router was not heard of for too long.\<close>

definition GetActivePrefixes ::
  "('s \<Rightarrow> string \<Rightarrow> RouterPrefixState option) \<Rightarrow> string \<Rightarrow> time \<Rightarrow> duration \<Rightarrow> 's \<Rightarrow> (prefix list \<times> bool) option" where
  "GetActivePrefixes get networkID now staleTTL s = (case get s networkID of
      None \<Rightarrow> None
    | Some st \<Rightarrow>
        Some (map Masked (List.map_filter (\<lambda>p. ParsePrefix (trim_space (rp_Prefix p)))
                (filter (\<lambda>p. IsValidPrefix p now) (rs_Prefixes st))),
              staleTTL > 0 \<and> time_sub now (rs_LastSeenAt st) > staleTTL))"

end
