(* ===== verification/Ddns.thy ===== *)
theory Ddns
  imports NetStates
begin

text \<open>
  The names of devices, \<open>internal/ddns/service.go\<close>: a reconciliation takes the reported addresses of a
  device that lie in an active prefix of its network and brings the AAAA record of the device in line with
  them, or deletes it when there has been no such address for a grace period. The publisher is a DNS
  provider; what it answers is an argument. The state of the device is read before the provider is called and
  written back after it: the reconciliation has two parts, and reports may come between them.
\<close>

record DeviceConfig =
  dc_NetworkID :: string
  dc_Record :: string

record NetworkConfig =
  nc_PrefixStateTTL :: duration

record ddns_config =
  dd_Enabled :: bool
  dd_Grace :: duration
  dd_TTL :: int
  dd_Networks :: "(string, NetworkConfig) gomap"
  dd_Devices :: "(string, DeviceConfig) gomap"

definition NewDdnsConfig :: "ddns_config \<Rightarrow> ddns_config" where
  "NewDdnsConfig cfg = cfg\<lparr>dd_Grace := (if dd_Grace cfg \<le> 0 then minutes 10 else dd_Grace cfg),
     dd_TTL := (if dd_TTL cfg \<le> 0 then 120 else dd_TTL cfg)\<rparr>"

text \<open>What the first part of a reconciliation leads to: a call of the provider, with the state that was read, or nothing.\<close>

datatype reconcile_work = ReconcileDone | Upserting DeviceIPv6State string addr | Deleting DeviceIPv6State string

definition stale_ttl :: "ddns_config \<Rightarrow> string \<Rightarrow> duration" where
  "stale_ttl cfg networkID = (case gget (dd_Networks cfg) networkID of
      None \<Rightarrow> minutes 15
    | Some n \<Rightarrow> if nc_PrefixStateTTL n \<le> 0 then minutes 15 else nc_PrefixStateTTL n)"

text \<open>\<open>active\<close> is what the prefix service answers for a network; \<open>save\<close> and \<open>get\<close> are the store of device states.\<close>

definition begin_reconcile ::
  "ddns_config \<Rightarrow> ('s \<Rightarrow> string \<Rightarrow> DeviceIPv6State option) \<Rightarrow> (bool \<Rightarrow> DeviceIPv6State \<Rightarrow> 's \<Rightarrow> 's \<times> bool)
     \<Rightarrow> (string \<Rightarrow> duration \<Rightarrow> (prefix list \<times> bool) option) \<Rightarrow> bool \<Rightarrow> time \<Rightarrow> string \<Rightarrow> 's \<Rightarrow> 's \<times> reconcile_work" where
  "begin_reconcile cfg get save active ok now deviceID s =
     (if \<not> dd_Enabled cfg then (s, ReconcileDone)
      else (case gget (dd_Devices cfg) deviceID of
        None \<Rightarrow> (s, ReconcileDone)
      | Some dev \<Rightarrow>
        if dc_Record dev = [] then (s, ReconcileDone)
        else (case get s deviceID of
          None \<Rightarrow> (s, ReconcileDone)
        | Some st \<Rightarrow>
          (let networkID = (if dc_NetworkID dev = [] then ds_NetworkID st else dc_NetworkID dev);
               (prefixes, stale) = (case active networkID (stale_ttl cfg networkID) of None \<Rightarrow> ([], False) | Some a \<Rightarrow> a) in
           if stale then (s, ReconcileDone)
           else (case SelectAddress (Intersect (ds_Addresses st) prefixes) (ds_Applied st) of
             Some ip \<Rightarrow>
               (let desired = addr_string ip; st1 = st\<lparr>ds_GraceEnd := None, ds_Desired := desired\<rparr> in
                if ds_Applied st1 = desired \<and> ds_SyncStatus st1 = SyncSynced then (s, ReconcileDone)
                else (let st2 = st1\<lparr>ds_SyncStatus := Syncing\<rparr> in
                      (fst (save ok st2 s), Upserting st2 (dc_Record dev) ip)))
           | None \<Rightarrow>
               if ds_Applied st = [] then
                 (fst (save ok (st\<lparr>ds_Desired := [], ds_SyncStatus := SyncSynced, ds_SyncUpdatedAt := now\<rparr>) s), ReconcileDone)
               else (case ds_GraceEnd st of
                 None \<Rightarrow>
                   (fst (save ok (st\<lparr>ds_GraceEnd := Some (now + dd_Grace cfg), ds_SyncStatus := SyncGracePeriod,
                      ds_SyncUpdatedAt := now\<rparr>) s), ReconcileDone)
               | Some e \<Rightarrow>
                   if now < e then (s, ReconcileDone)
                   else (let st2 = st\<lparr>ds_SyncStatus := Syncing\<rparr> in
                         (fst (save ok st2 s), Deleting st2 (dc_Record dev)))))))))"

text \<open>The second part: the state read before goes back to the store, with the outcome of the provider (its error, or none).\<close>

definition end_reconcile ::
  "(bool \<Rightarrow> DeviceIPv6State \<Rightarrow> 's \<Rightarrow> 's \<times> bool) \<Rightarrow> bool \<Rightarrow> time \<Rightarrow> string option \<Rightarrow> reconcile_work \<Rightarrow> 's \<Rightarrow> 's" where
  "end_reconcile save ok now failed work s = (case work of
      ReconcileDone \<Rightarrow> s
    | Upserting st _ ip \<Rightarrow>
        (let st1 = st\<lparr>ds_SyncUpdatedAt := now\<rparr> in
         case failed of
           Some e \<Rightarrow> fst (save ok (st1\<lparr>ds_SyncStatus := SyncFailed, ds_SyncError := e\<rparr>) s)
         | None \<Rightarrow> fst (save ok (st1\<lparr>ds_Applied := addr_string ip, ds_AppliedRevision := ds_Revision st1,
                     ds_SyncStatus := SyncSynced, ds_SyncError := []\<rparr>) s))
    | Deleting st _ \<Rightarrow>
        (let st1 = st\<lparr>ds_SyncUpdatedAt := now\<rparr> in
         case failed of
           Some e \<Rightarrow> fst (save ok (st1\<lparr>ds_SyncStatus := SyncFailed, ds_SyncError := e\<rparr>) s)
         | None \<Rightarrow> fst (save ok (st1\<lparr>ds_Applied := [], ds_Desired := [], ds_GraceEnd := None,
                     ds_SyncStatus := SyncSynced, ds_SyncError := []\<rparr>) s)))"

text \<open>What a reconciliation meets from its reading to its last write.\<close>

record reconcile_env =
  rv_Now :: time
  rv_Later :: time
  rv_Failed :: "string option"
  rv_SaveOK :: bool
  rv_LastSaveOK :: bool

definition ReconcileDevice ::
  "ddns_config \<Rightarrow> ('s \<Rightarrow> string \<Rightarrow> DeviceIPv6State option) \<Rightarrow> (bool \<Rightarrow> DeviceIPv6State \<Rightarrow> 's \<Rightarrow> 's \<times> bool)
     \<Rightarrow> (string \<Rightarrow> time \<Rightarrow> duration \<Rightarrow> (prefix list \<times> bool) option) \<Rightarrow> reconcile_env \<Rightarrow> string \<Rightarrow> 's \<Rightarrow> 's \<times> reconcile_work" where
  "ReconcileDevice cfg get save active env deviceID s =
     (let (s1, work) = begin_reconcile cfg get save (\<lambda>n. active n (rv_Now env)) (rv_SaveOK env) (rv_Now env) deviceID s in
      (end_reconcile save (rv_LastSaveOK env) (rv_Later env) (rv_Failed env) work s1, work))"

text \<open>\<open>ReconcileNetwork\<close> and \<open>ReconcileAll\<close>: one device after the other; \<open>env\<close> is what the reconciliation of each meets.\<close>

definition ReconcileDevices ::
  "(DeviceConfig \<Rightarrow> bool) \<Rightarrow> ddns_config \<Rightarrow> ('s \<Rightarrow> string \<Rightarrow> DeviceIPv6State option)
     \<Rightarrow> (bool \<Rightarrow> DeviceIPv6State \<Rightarrow> 's \<Rightarrow> 's \<times> bool) \<Rightarrow> (string \<Rightarrow> time \<Rightarrow> duration \<Rightarrow> (prefix list \<times> bool) option)
     \<Rightarrow> (string \<Rightarrow> reconcile_env) \<Rightarrow> 's \<Rightarrow> 's \<times> reconcile_work list" where
  "ReconcileDevices chosen cfg get save active env s =
     fold (\<lambda>(i, dev) (s, works).
         if chosen dev then (let (s1, w) = ReconcileDevice cfg get save active (env i) i s in (s1, works @ [w])) else (s, works))
       (dd_Devices cfg) (s, [])"

definition ReconcileNetwork where
  "ReconcileNetwork networkID = ReconcileDevices (\<lambda>dev. dc_NetworkID dev = networkID)"

definition ReconcileAll where
  "ReconcileAll = ReconcileDevices (\<lambda>dev. True)"

end
