(* ===== verification/NetHandlers.thy ===== *)
theory NetHandlers
  imports Ddns Registry
begin

text \<open>
  The handlers of \<open>internal/api/api.go\<close> for what devices and routers report of their networks:
  \<open>putDeviceNetworkState\<close>, \<open>putRouterPrefixes\<close> and the choice of a device's desired address they share
  (\<open>selectDeviceDesiredAddress\<close>). Both run under one mutex. The services are configured and keep their states in
  files, as in \<open>cmd/homeagent-server/main.go\<close>; a request is its decoded body. Whether a handler starts a
  reconciliation is part of its answer: the reconciliation then runs beside the handlers.
\<close>

record net_server =
  ns_devices :: "DeviceIPv6State file_store"
  ns_routers :: "RouterPrefixState file_store"
  ns_registry :: Registry

text \<open>What a call meets: the clock, the outcomes of the writes, and the two environment variables.\<close>

record net_env =
  ne_Now :: time
  ne_SaveOK :: bool
  ne_SelectOK :: "string \<Rightarrow> bool"
  ne_Registry :: reg_env
  ne_NetworkVar :: string
  ne_RouterVar :: string

definition store_device :: "bool \<Rightarrow> DeviceIPv6State \<Rightarrow> DeviceIPv6State file_store \<Rightarrow> DeviceIPv6State file_store \<times> bool" where
  "store_device = file_save ds_DeviceID"

definition store_router :: "bool \<Rightarrow> RouterPrefixState \<Rightarrow> RouterPrefixState file_store \<Rightarrow> RouterPrefixState file_store \<times> bool" where
  "store_router = file_save rs_NetworkID"

definition select_candidates :: "net_env \<Rightarrow> RouterPrefixState file_store \<Rightarrow> DeviceIPv6State \<Rightarrow> addr list" where
  "select_candidates env routers st =
     (let var = trim_space (ne_NetworkVar env);
          networkID = (if var = [] then ''home'' else var);
          router = file_get routers (ds_NetworkID st);
          known = (case router of None \<Rightarrow> False | Some r \<Rightarrow> rs_RouterDeviceID r \<noteq> []);
          associated = ((trim_space (ne_RouterVar env) \<noteq> [] \<and> ds_NetworkID st = networkID) \<or> known);
          own = NormalizeAndFilterCandidates (ds_Addresses st) (ne_Now env) in
      if associated then
        (case GetActivePrefixes file_get (ds_NetworkID st) (ne_Now env) (minutes 15) routers of
           None \<Rightarrow> []
         | Some (prefixes, stale) \<Rightarrow> if stale then [] else Intersect own prefixes)
      else go_sort addr_less (List.map_filter (\<lambda>c. ParseAddr (ra_Address c)) own))"

definition selectDeviceDesiredAddress ::
  "net_env \<Rightarrow> RouterPrefixState file_store \<Rightarrow> DeviceIPv6State \<Rightarrow> DeviceIPv6State" where
  "selectDeviceDesiredAddress env routers st =
     (let previous = ds_Desired st;
          desired = (case SelectAddress (select_candidates env routers st) previous of None \<Rightarrow> [] | Some a \<Rightarrow> addr_string a);
          st1 = st\<lparr>ds_Desired := desired\<rparr> in
      if previous \<noteq> desired then st1\<lparr>ds_SyncStatus := SyncPending, ds_SyncUpdatedAt := ne_Now env\<rparr> else st1)"

text \<open>The MAC address a report carries goes to the registry; errors of the registry are ignored.\<close>

definition report_mac :: "net_env \<Rightarrow> string \<Rightarrow> string \<Rightarrow> net_server \<Rightarrow> net_server" where
  "report_mac env devID mac s =
     (if trim_space mac = [] then s
      else (case gget (reg_devices (ns_registry s)) devID of
          None \<Rightarrow> s
        | Some d \<Rightarrow> if d_MAC d \<noteq> mac then s\<lparr>ns_registry := fst (UpdateMAC (ne_Registry env) devID mac (ns_registry s))\<rparr> else s))"

datatype net_answer =
  NetAccepted u64 bool sync_status string
| NetConflict revision_error
| NetStatus int

record device_report =
  dr_NetworkID :: string
  dr_Revision :: u64
  dr_ObservedAt :: time
  dr_Addresses :: "ReportedIPv6Address list"
  dr_MAC :: string

definition observed_at :: "net_env \<Rightarrow> time \<Rightarrow> time" where
  "observed_at env t = (if is_zero_time t then ne_Now env else t)"

definition putDeviceNetworkState ::
  "net_env \<Rightarrow> string \<Rightarrow> device_report \<Rightarrow> net_server \<Rightarrow> net_server \<times> net_answer \<times> bool" where
  "putDeviceNetworkState env devID req s =
     (if trim_space devID = [] then (s, NetStatus 400, False)
      else
        (let (devs, r) = UpdateReportedAddresses file_get store_device (ne_SaveOK env) (ne_Now env) devID (dr_NetworkID req)
               (dr_Revision req) (observed_at env (dr_ObservedAt req)) (dr_Addresses req) (ns_devices s);
             s1 = s\<lparr>ns_devices := devs\<rparr> in
         (case r of
            Inl StateNotSaved \<Rightarrow> (s1, NetStatus 400, False)
          | Inl e \<Rightarrow> (s1, NetConflict e, False)
          | Inr (st0, changed) \<Rightarrow>
              (let s2 = report_mac env devID (dr_MAC req) s1;
                   st = selectDeviceDesiredAddress env (ns_routers s2) st0;
                   (devs2, saved) = store_device (ne_SelectOK env devID) st (ns_devices s2);
                   s3 = s2\<lparr>ns_devices := devs2\<rparr> in
               if saved then (s3, NetAccepted (ds_Revision st) changed (ds_SyncStatus st) (ds_Desired st), changed)
               else (s3, NetStatus 500, False)))))"

record router_report =
  rr_NetworkID :: string
  rr_Revision :: u64
  rr_ObservedAt :: time
  rr_Prefixes :: "ReportedIPv6Prefix list"
  rr_MAC :: string

text \<open>The desired addresses of the network's devices, one after the other; the first that cannot be saved ends it.\<close>

fun reselect :: "net_env \<Rightarrow> RouterPrefixState file_store \<Rightarrow> DeviceIPv6State list \<Rightarrow> DeviceIPv6State file_store
    \<Rightarrow> DeviceIPv6State file_store \<times> bool" where
  "reselect env routers [] devs = (devs, True)"
| "reselect env routers (d # ds) devs =
     (let (devs1, saved) = store_device (ne_SelectOK env (ds_DeviceID d)) (selectDeviceDesiredAddress env routers d) devs in
      if saved then reselect env routers ds devs1 else (devs1, False))"

definition putRouterPrefixes ::
  "net_env \<Rightarrow> string \<Rightarrow> router_report \<Rightarrow> net_server \<Rightarrow> net_server \<times> net_answer \<times> bool" where
  "putRouterPrefixes env routerID req s =
     (if trim_space routerID = [] \<or> rr_NetworkID req = [] then (s, NetStatus 400, False)
      else
        (let (routers, r) = UpdateRouterPrefixes file_get store_router (ne_SaveOK env) (ne_Now env) routerID (rr_NetworkID req)
               (rr_Revision req) (observed_at env (rr_ObservedAt req)) (rr_Prefixes req) (ns_routers s);
             s1 = s\<lparr>ns_routers := routers\<rparr> in
         (case r of
            Inl StateNotSaved \<Rightarrow> (s1, NetStatus 400, False)
          | Inl e \<Rightarrow> (s1, NetConflict e, False)
          | Inr (st, changed) \<Rightarrow>
              (let s2 = report_mac env routerID (rr_MAC req) s1;
                   ds = filter (\<lambda>d. ds_NetworkID d = rr_NetworkID req) (file_list (ns_devices s2));
                   (devs, saved) = reselect env (ns_routers s2) ds (ns_devices s2);
                   s3 = s2\<lparr>ns_devices := devs\<rparr> in
               if saved then (s3, NetAccepted (rs_Revision st) changed SyncPending [], changed)
               else (s3, NetStatus 500, False)))))"

definition getDeviceIPv6Text :: "string \<Rightarrow> net_server \<Rightarrow> int \<times> string" where
  "getDeviceIPv6Text devID s = (case file_get (ns_devices s) devID of
      None \<Rightarrow> (404, [])
    | Some st \<Rightarrow> (let ip = trim_space (ds_Desired st) in if ip = [] then (404, []) else (200, ip @ [newline])))"

definition active_prefixes_of :: "net_server \<Rightarrow> string \<Rightarrow> time \<Rightarrow> duration \<Rightarrow> (prefix list \<times> bool) option" where
  "active_prefixes_of s networkID now ttl = GetActivePrefixes file_get networkID now ttl (ns_routers s)"

end
