(* ===== verification/NetProps.thy ===== *)
theory NetProps
  imports NetAddrProps NetHandlers
begin

text \<open>
  What the reports of devices and routers and the reconciliations of device names guarantee together:
  revisions, the addresses that are published, and when a name is deleted.
\<close>

section \<open>The interface of the stores\<close>

locale state_store =
  fixes get :: "'s \<Rightarrow> string \<Rightarrow> 'v option" and save :: "bool \<Rightarrow> 'v \<Rightarrow> 's \<Rightarrow> 's \<times> bool" and key :: "'v \<Rightarrow> string"
  assumes saved: "save ok v s = (s', True) \<Longrightarrow> get s' = (get s)(key v \<mapsto> v)"
    and not_saved: "save ok v s = (s', False) \<Longrightarrow> get s' = get s"
begin

lemma save_cases:
  obtains "snd (save ok v s) = True" "get (fst (save ok v s)) = (get s)(key v \<mapsto> v)"
  | "snd (save ok v s) = False" "get (fst (save ok v s)) = get s"
proof (cases "save ok v s")
  case (Pair s' b)
  with that saved not_saved show ?thesis by (cases b) auto
qed

text \<open>Records are stored under their keys.\<close>

definition keyed :: "'s \<Rightarrow> bool" where
  "keyed s \<longleftrightarrow> (\<forall>k v. get s k = Some v \<longrightarrow> key v = k)"

lemma keyed_save: "keyed s \<Longrightarrow> keyed (fst (save ok v s))"
  by (rule save_cases [of ok v s]) (auto simp: keyed_def)

end

text \<open>
  What reports may do to the state of a device: its revision does not go back, and what is published stays
  as it is. A new device has nothing published.
\<close>

definition upd :: "DeviceIPv6State \<Rightarrow> DeviceIPv6State \<Rightarrow> bool" where
  "upd st st' \<longleftrightarrow> ds_DeviceID st' = ds_DeviceID st \<and> ds_Revision st \<le> ds_Revision st' \<and> ds_GraceEnd st' = ds_GraceEnd st
     \<and> ds_Applied st' = ds_Applied st \<and> ds_SyncStatus st' \<in> {ds_SyncStatus st, SyncPending}"

definition fresh_state :: "DeviceIPv6State \<Rightarrow> bool" where
  "fresh_state st \<longleftrightarrow> ds_GraceEnd st = None \<and> ds_Applied st = []"

lemma upd_refl [simp]: "upd st st"
  by (simp add: upd_def)

lemma upd_trans: "upd a b \<Longrightarrow> upd b c \<Longrightarrow> upd a c"
  by (auto simp: upd_def)

lemma upd_fresh: "fresh_state a \<Longrightarrow> upd a b \<Longrightarrow> fresh_state b"
  by (simp add: fresh_state_def upd_def)

locale device_store = state_store get save ds_DeviceID
  for get :: "'s \<Rightarrow> string \<Rightarrow> DeviceIPv6State option" and save
begin

text \<open>A report is refused, changes nothing, or is stored with its revision.\<close>

lemma report_cases:
  obtains (refused) e where "UpdateReportedAddresses get save ok now d n rn obs raw s = (s, Inl e)"
  | (same) st where "get s d = Some st" "ds_Revision st = rn"
      "UpdateReportedAddresses get save ok now d n rn obs raw s = (s, Inr (st, False))"
  | (stored) st changed where "ds_Revision st = rn" "ds_Addresses st = NormalizeAndFilterCandidates raw obs"
      "\<And>old. get s d = Some old \<Longrightarrow> ds_Revision old < rn \<and> ds_DeviceID st = ds_DeviceID old \<and> ds_Desired st = ds_Desired old
         \<and> ds_Applied st = ds_Applied old \<and> ds_GraceEnd st = ds_GraceEnd old \<and> ds_SyncStatus st \<in> {ds_SyncStatus old, SyncPending}"
      "get s d = None \<Longrightarrow> ds_DeviceID st = d \<and> ds_GraceEnd st = None \<and> ds_Applied st = []"
      "UpdateReportedAddresses get save ok now d n rn obs raw s =
         (fst (save ok st s), if snd (save ok st s) then Inr (st, changed) else Inl StateNotSaved)"
proof (cases "get s d")
  case None
  show ?thesis
    by (rule stored [of "\<lparr>ds_DeviceID = d, ds_NetworkID = n, ds_Revision = rn, ds_ObservedAt = obs,
                 ds_Addresses = NormalizeAndFilterCandidates raw obs, ds_Desired = [], ds_Applied = [], ds_AppliedRevision = 0,
                 ds_SyncStatus = SyncPending, ds_SyncError = [], ds_SyncUpdatedAt = now, ds_GraceEnd = None\<rparr>" True])
      (use None in \<open>simp_all add: UpdateReportedAddresses_def Let_def case_prod_beta\<close>)
next
  case (Some old)
  define changed where "changed = (\<not> AddressesEqual (ds_Addresses old) (NormalizeAndFilterCandidates raw obs))"
  define st1 where "st1 = old\<lparr>ds_Revision := rn, ds_ObservedAt := obs,
     ds_NetworkID := (if n \<noteq> [] then n else ds_NetworkID old), ds_Addresses := NormalizeAndFilterCandidates raw obs\<rparr>"
  define st where "st = (if changed then st1\<lparr>ds_SyncStatus := SyncPending, ds_SyncUpdatedAt := now\<rparr> else st1)"
  consider "rn < ds_Revision old" | "rn = ds_Revision old" | "ds_Revision old < rn" by fastforce
  then show ?thesis
  proof cases
    case 1
    with Some show ?thesis by (intro refused) (simp add: UpdateReportedAddresses_def Let_def)
  next
    case 2
    with Some show ?thesis using refused same
      by (cases "AddressesEqual (ds_Addresses old) (NormalizeAndFilterCandidates raw obs)")
        (simp_all add: UpdateReportedAddresses_def Let_def)
  next
    case 3
    show ?thesis
    proof (rule stored [of st changed])
      have "UpdateReportedAddresses get save ok now d n rn obs raw s = (let (s1, saved) = save ok st s in
             (s1, if saved then Inr (st, changed) else Inl StateNotSaved))"
      proof -
        have "\<not> rn < ds_Revision old" "rn \<noteq> ds_Revision old" using 3 by auto
        with Some show ?thesis
          unfolding UpdateReportedAddresses_def Let_def st_def st1_def changed_def by (simp only: option.case if_False)
      qed
      then show "UpdateReportedAddresses get save ok now d n rn obs raw s =
         (fst (save ok st s), if snd (save ok st s) then Inr (st, changed) else Inl StateNotSaved)"
        by (simp add: case_prod_beta)
    qed (use Some 3 in \<open>auto simp: st_def st1_def\<close>)
  qed
qed

text \<open>The device states after some reports.\<close>

definition reported :: "'s \<Rightarrow> 's \<Rightarrow> bool" where
  "reported s s' \<longleftrightarrow> (\<forall>k. (get s' k = None \<longrightarrow> get s k = None)
     \<and> (\<forall>st'. get s' k = Some st' \<longrightarrow> (case get s k of None \<Rightarrow> fresh_state st' | Some st \<Rightarrow> upd st st')))"

lemma reported_refl [simp]: "reported s s"
  by (simp add: reported_def)

lemma reportedD:
  assumes "reported s s'"
  shows "get s k = Some st \<Longrightarrow> \<exists>st'. get s' k = Some st' \<and> upd st st'"
    and "get s k = None \<Longrightarrow> get s' k = Some st' \<Longrightarrow> fresh_state st'"
proof -
  note r = assms [unfolded reported_def, rule_format, of k]
  show "\<exists>st'. get s' k = Some st' \<and> upd st st'" if "get s k = Some st"
    using r that by (cases "get s' k") auto
  show "fresh_state st'" if "get s k = None" "get s' k = Some st'" using r that by auto
qed

lemma reported_trans: "reported s t \<Longrightarrow> reported t u \<Longrightarrow> reported s u"
proof -
  assume st: "reported s t" and tu: "reported t u"
  show "reported s u" unfolding reported_def
  proof (intro allI conjI impI)
    fix k assume "get u k = None"
    then show "get s k = None" using reportedD(1) [OF st, of k] reportedD(1) [OF tu, of k] by (cases "get s k") auto
  next
    fix k x assume x: "get u k = Some x"
    show "case get s k of None \<Rightarrow> fresh_state x | Some y \<Rightarrow> upd y x"
    proof (cases "get s k")
      case None
      show ?thesis
      proof (cases "get t k")
        case (Some z)
        then have "fresh_state z" using reportedD(2) [OF st None] by simp
        moreover have "upd z x" using reportedD(1) [OF tu Some] x by simp
        ultimately show ?thesis using None upd_fresh by simp
      qed (use reportedD(2) [OF tu _ x] None in simp)
    next
      case (Some y)
      then obtain z where "get t k = Some z" "upd y z" using reportedD(1) [OF st] by blast
      moreover have "upd z x" using reportedD(1) [OF tu \<open>get t k = Some z\<close>] x by simp
      ultimately show ?thesis using Some upd_trans by simp
    qed
  qed
qed

lemma reported_save:
  assumes "case get s (ds_DeviceID v) of None \<Rightarrow> fresh_state v | Some old \<Rightarrow> upd old v"
  shows "reported s (fst (save ok v s))"
  by (rule save_cases [of ok v s]) (use assms in \<open>auto simp: reported_def split: option.split\<close>)

lemma report_reported:
  assumes "keyed s"
  shows "reported s (fst (UpdateReportedAddresses get save ok now d n rn obs raw s))"
proof (cases rule: report_cases [of ok now d n rn obs raw s])
  case (stored st changed)
  have "reported s (fst (save ok st s))"
  proof (rule reported_save, cases "get s d")
    case None
    then show "case get s (ds_DeviceID st) of None \<Rightarrow> fresh_state st | Some old \<Rightarrow> upd old st"
      using stored(4) by (simp add: fresh_state_def)
  next
    case (Some old)
    then show "case get s (ds_DeviceID st) of None \<Rightarrow> fresh_state st | Some old \<Rightarrow> upd old st"
      using stored(1) stored(3) [OF Some] assms by (auto simp: keyed_def upd_def)
  qed
  then show ?thesis using stored(5) by simp
qed simp_all

lemma report_keyed: "keyed s \<Longrightarrow> keyed (fst (UpdateReportedAddresses get save ok now d n rn obs raw s))"
  by (cases rule: report_cases [of ok now d n rn obs raw s]) (simp_all add: keyed_save)

text \<open>What a report that is accepted returns is what the store has.\<close>

lemma report_result:
  assumes "UpdateReportedAddresses get save ok now d n rn obs raw s = (s', Inr (st, changed))" "keyed s"
  shows "get s' d = Some st \<and> ds_DeviceID st = d \<and> ds_Revision st = rn"
  using assms(1)
proof (cases rule: report_cases [of ok now d n rn obs raw s, case_names refused same stored])
  case (same x)
  with assms show ?thesis by (auto simp: keyed_def)
next
  case (stored x c)
  have "ds_DeviceID x = d" using stored(3,4) assms(2) by (cases "get s d") (auto simp: keyed_def)
  with stored assms(1) show ?thesis by (cases rule: save_cases [of ok x s]) auto
qed simp

end

section \<open>The stores keep the interface\<close>

lemma file_store_laws:
  "file_save key ok v s = (s', True) \<Longrightarrow> file_get s' = (file_get s)(key v \<mapsto> v)"
  "file_save key ok v s = (s', False) \<Longrightarrow> file_get s' = file_get s"
  by (auto simp: file_save_def file_get_def Let_def fun_eq_iff split: if_splits option.splits)

lemma memory_store_laws:
  "memory_save key ok v s = (s', True) \<Longrightarrow> memory_get s' = (memory_get s)(key v \<mapsto> v)"
  "memory_save key ok v s = (s', False) \<Longrightarrow> memory_get s' = memory_get s"
  by (auto simp: memory_save_def memory_get_def fun_eq_iff)

interpretation dev: device_store file_get store_device
  by unfold_locales (auto simp: store_device_def dest: file_store_laws)

interpretation mem_dev: device_store memory_get "memory_save ds_DeviceID"
  by unfold_locales (auto dest: memory_store_laws)

interpretation rtr: state_store file_get store_router rs_NetworkID
  by unfold_locales (auto simp: store_router_def dest: file_store_laws)

interpretation mem_rtr: state_store memory_get "memory_save rs_NetworkID" rs_NetworkID
  by unfold_locales (auto dest: memory_store_laws)


section \<open>Reports\<close>

lemma map_cong_keys: "wf_map m \<Longrightarrow> (\<And>i v. gget m i = Some v \<Longrightarrow> f v = i) \<Longrightarrow> map f (gvals m) = gkeys m"
proof (induction m)
  case (Cons e m)
  obtain k v where e: "e = (k, v)" by fastforce
  have k: "k \<notin> set (gkeys m)" "wf_map m" using Cons.prems(1) by (auto simp: e wf_map_def)
  have "f w = i" if "gget m i = Some w" for i w
  proof -
    have "i \<in> set (gkeys m)" using map_of_SomeD [OF that] by force
    with k(1) have "i \<noteq> k" by blast
    with that Cons.prems(2) [of i w] show ?thesis by (simp add: e)
  qed
  moreover have "f v = k" using Cons.prems(2) [of k v] by (simp add: e)
  ultimately show ?case using Cons.IH [OF k(2)] by (simp add: e)
qed simp

definition net_ok :: "net_server \<Rightarrow> bool" where
  "net_ok s \<longleftrightarrow> wf_map (sf_states (ns_devices s)) \<and> dev.keyed (ns_devices s)"

lemma wf_store_device: "wf_map (sf_states s) \<Longrightarrow> wf_map (sf_states (fst (store_device ok v s)))"
  by (auto simp: store_device_def file_save_def Let_def split: option.split)

lemma wf_report:
  "wf_map (sf_states s) \<Longrightarrow> wf_map (sf_states (fst (UpdateReportedAddresses file_get store_device ok now d n rn obs raw s)))"
  by (cases rule: dev.report_cases [of ok now d n rn obs raw s]) (simp_all add: wf_store_device)

lemma select_upd: "upd st (selectDeviceDesiredAddress env routers st)"
  by (simp add: selectDeviceDesiredAddress_def Let_def upd_def)

lemma report_mac_states [simp]: "ns_devices (report_mac env d mac s) = ns_devices s" "ns_routers (report_mac env d mac s) = ns_routers s"
  by (auto simp: report_mac_def split: option.split)

definition device_reported :: "net_server \<Rightarrow> net_server \<Rightarrow> bool" where
  "device_reported s s' \<longleftrightarrow> net_ok s' \<and> dev.reported (ns_devices s) (ns_devices s')"

lemma put_device_reported:
  assumes "net_ok s"
  shows "device_reported s (fst (putDeviceNetworkState env d req s))"
proof -
  obtain devs r where r: "UpdateReportedAddresses file_get store_device (ne_SaveOK env) (ne_Now env) d (dr_NetworkID req)
       (dr_Revision req) (observed_at env (dr_ObservedAt req)) (dr_Addresses req) (ns_devices s) = (devs, r)" by fastforce
  have k: "dev.keyed (ns_devices s)" "wf_map (sf_states (ns_devices s))" using assms by (simp_all add: net_ok_def)
  have devs: "dev.reported (ns_devices s) devs" "dev.keyed devs" "wf_map (sf_states devs)"
    using dev.report_reported [OF k(1)] dev.report_keyed [OF k(1)] wf_report [OF k(2)] r by (metis fst_conv)+
  have sel: "dev.reported (ns_devices s) (fst (store_device ok (selectDeviceDesiredAddress env rt st) devs))"
    if "r = Inr (st, changed)" for st changed ok rt
  proof -
    have st: "file_get devs d = Some st" "ds_DeviceID st = d" using dev.report_result [OF r [unfolded that] k(1)] by simp_all
    have "ds_DeviceID (selectDeviceDesiredAddress env rt st) = d" using select_upd [of st env rt] st(2) by (simp add: upd_def)
    then have "dev.reported devs (fst (store_device ok (selectDeviceDesiredAddress env rt st) devs))"
      by (intro dev.reported_save) (simp add: st select_upd)
    with devs(1) show ?thesis by (rule dev.reported_trans)
  qed
  show ?thesis
  proof (cases "trim_space d = []")
    case True
    with assms show ?thesis by (simp add: putDeviceNetworkState_def device_reported_def)
  next
    case False
    then consider "ns_devices (fst (putDeviceNetworkState env d req s)) = devs"
      | st changed ok rt where "r = Inr (st, changed)"
        "ns_devices (fst (putDeviceNetworkState env d req s)) = fst (store_device ok (selectDeviceDesiredAddress env rt st) devs)"
      by (cases r) (auto simp: putDeviceNetworkState_def r Let_def case_prod_beta split: revision_error.splits if_splits)
    then show ?thesis
    proof cases
      case 1
      with devs show ?thesis by (simp add: device_reported_def net_ok_def)
    next
      case 2
      with sel devs show ?thesis by (simp add: device_reported_def net_ok_def wf_store_device dev.keyed_save)
    qed
  qed
qed

text \<open>The desired addresses are chosen anew from the states the store had.\<close>

lemma reselect_reported:
  assumes "dev.keyed devs" "wf_map (sf_states devs)"
    and "\<And>d. d \<in> set ds \<Longrightarrow> \<exists>st. file_get devs (ds_DeviceID d) = Some st \<and> upd d st" "distinct (map ds_DeviceID ds)"
    and "\<And>d st. d \<in> set ds \<Longrightarrow> file_get devs (ds_DeviceID d) = Some st \<Longrightarrow> st = d"
  shows "dev.reported devs (fst (reselect env routers ds devs)) \<and> dev.keyed (fst (reselect env routers ds devs))
    \<and> wf_map (sf_states (fst (reselect env routers ds devs)))"
  using assms
proof (induction ds arbitrary: devs)
  case (Cons d ds)
  let ?v = "selectDeviceDesiredAddress env routers d" and ?ok = "ne_SelectOK env (ds_DeviceID d)"
  let ?devs = "fst (store_device ?ok ?v devs)"
  have d: "file_get devs (ds_DeviceID d) = Some d" using Cons.prems(3,5) by (metis list.set_intros(1))
  have key: "ds_DeviceID ?v = ds_DeviceID d" using select_upd [of d env routers] by (simp add: upd_def)
  have step: "dev.reported devs ?devs" by (rule dev.reported_save) (simp add: key d select_upd)
  have ok: "dev.keyed ?devs" "wf_map (sf_states ?devs)"
    using Cons.prems(1,2) by (simp_all add: dev.keyed_save wf_store_device)
  have other: "file_get ?devs (ds_DeviceID x) = file_get devs (ds_DeviceID x)" if "x \<in> set ds" for x
  proof -
    have "ds_DeviceID d \<notin> ds_DeviceID ` set ds" using Cons.prems(4) by simp
    then have "ds_DeviceID x \<noteq> ds_DeviceID d" using that by (metis image_eqI)
    then show ?thesis by (cases rule: dev.save_cases [of ?ok ?v devs]) (simp_all add: key)
  qed
  have "dev.reported ?devs (fst (reselect env routers ds ?devs)) \<and> dev.keyed (fst (reselect env routers ds ?devs))
    \<and> wf_map (sf_states (fst (reselect env routers ds ?devs)))"
    by (rule Cons.IH [OF ok]) (use other Cons.prems(3-5) in auto)
  then show ?case using step ok dev.reported_trans by (auto simp: case_prod_beta)
qed simp

lemma put_router_reported:
  assumes "net_ok s"
  shows "device_reported s (fst (putRouterPrefixes env d req s))"
proof -
  let ?m = "sf_states (ns_devices s)"
  have k: "dev.keyed (ns_devices s)" "wf_map ?m" using assms by (simp_all add: net_ok_def)
  define ds where "ds = filter (\<lambda>d. ds_NetworkID d = rr_NetworkID req) (gvals ?m)"
  have get: "file_get (ns_devices s) (ds_DeviceID d) = Some d" if "d \<in> set ds" for d
  proof -
    have "d \<in> set (gvals ?m)" using that by (simp add: ds_def del: set_map)
    then obtain i where i: "gget ?m i = Some d" using in_vals_gget [OF k(2)] by blast
    with k(1) have "ds_DeviceID d = i" by (auto simp: dev.keyed_def file_get_def)
    with i show ?thesis by (simp add: file_get_def)
  qed
  have dist: "distinct (map ds_DeviceID ds)"
  proof -
    have "map ds_DeviceID (gvals ?m) = gkeys ?m"
    proof (rule map_cong_keys)
      show "wf_map ?m" by (rule k(2))
      show "\<And>i v. gget ?m i = Some v \<Longrightarrow> ds_DeviceID v = i" using k(1) by (auto simp: dev.keyed_def file_get_def)
    qed
    then have "distinct (map ds_DeviceID (gvals ?m))" using k(2) by (simp only: wf_map_def)
    then show ?thesis unfolding ds_def by (rule distinct_map_filter)
  qed
  have re: "dev.reported (ns_devices s) (fst (reselect env rt ds (ns_devices s))) \<and> dev.keyed (fst (reselect env rt ds (ns_devices s)))
    \<and> wf_map (sf_states (fst (reselect env rt ds (ns_devices s))))" for rt
    by (rule reselect_reported [OF k]) (use get dist in auto)
  have "ns_devices (fst (putRouterPrefixes env d req s)) = ns_devices s
      \<or> (\<exists>rt. ns_devices (fst (putRouterPrefixes env d req s)) = fst (reselect env rt ds (ns_devices s)))"
    by (auto simp: putRouterPrefixes_def Let_def case_prod_beta file_list_def ds_def
        split: sum.split revision_error.split)
  then show ?thesis using re k by (auto simp: device_reported_def net_ok_def)
qed


section \<open>Reconciliations\<close>

text \<open>What a reconciliation may do to the state of its device.\<close>

datatype net_op =
  DeviceReports net_env string device_report
| RouterReports net_env string router_report
| DeviceReconciled reconcile_env string

definition reconcile :: "ddns_config \<Rightarrow> reconcile_env \<Rightarrow> string \<Rightarrow> net_server \<Rightarrow> DeviceIPv6State file_store \<times> reconcile_work" where
  "reconcile cfg env d s = ReconcileDevice cfg file_get store_device (active_prefixes_of s) env d (ns_devices s)"

fun net_step :: "ddns_config \<Rightarrow> net_op \<Rightarrow> net_server \<Rightarrow> net_server" where
  "net_step cfg (DeviceReports env d req) s = fst (putDeviceNetworkState env d req s)"
| "net_step cfg (RouterReports env d req) s = fst (putRouterPrefixes env d req s)"
| "net_step cfg (DeviceReconciled env d) s = s\<lparr>ns_devices := fst (reconcile cfg env d s)\<rparr>"

abbreviation net_run :: "ddns_config \<Rightarrow> net_op list \<Rightarrow> net_server \<Rightarrow> net_server" where
  "net_run cfg \<equiv> fold (net_step cfg)"

text \<open>A state saved by a reconciliation of the device that was read.\<close>

definition edited :: "DeviceIPv6State file_store \<Rightarrow> string \<Rightarrow> DeviceIPv6State file_store \<Rightarrow> bool" where
  "edited s d s' \<longleftrightarrow> (\<forall>k. k \<noteq> d \<longrightarrow> file_get s' k = file_get s k)
     \<and> (case file_get s d of None \<Rightarrow> file_get s' d = None
        | Some st \<Rightarrow> (\<exists>st'. file_get s' d = Some st' \<and> ds_DeviceID st' = ds_DeviceID st \<and> ds_Revision st' = ds_Revision st))"

lemma edited_refl [simp]: "edited s d s"
  by (simp add: edited_def split: option.split)

lemma edited_trans: "edited s d t \<Longrightarrow> edited t d u \<Longrightarrow> edited s d u"
  by (auto simp: edited_def split: option.splits)

lemma edited_save:
  assumes "file_get s d = Some st" "ds_DeviceID v = d" "ds_DeviceID st = d" "ds_Revision v = ds_Revision st"
  shows "edited s d (fst (store_device ok v s))"
  by (cases rule: dev.save_cases [of ok v s]) (use assms in \<open>auto simp: edited_def\<close>)

definition work_state :: "reconcile_work \<Rightarrow> DeviceIPv6State option" where
  "work_state w = (case w of ReconcileDone \<Rightarrow> None | Upserting st _ _ \<Rightarrow> Some st | Deleting st _ \<Rightarrow> Some st)"

text \<open>What a reconciliation finds: the state and the configuration of the device, and the address it would publish.\<close>

definition choice ::
  "ddns_config \<Rightarrow> (string \<Rightarrow> duration \<Rightarrow> (prefix list \<times> bool) option) \<Rightarrow> string \<Rightarrow> DeviceIPv6State file_store
     \<Rightarrow> (DeviceIPv6State \<times> string \<times> prefix list \<times> addr option) option" where
  "choice cfg active d s = (case (if dd_Enabled cfg then gget (dd_Devices cfg) d else None) of
      None \<Rightarrow> None
    | Some dev \<Rightarrow> if dc_Record dev = [] then None else (case file_get s d of
        None \<Rightarrow> None
      | Some st \<Rightarrow>
          (let networkID = (if dc_NetworkID dev = [] then ds_NetworkID st else dc_NetworkID dev) in
           case active networkID (stale_ttl cfg networkID) of
             None \<Rightarrow> Some (st, dc_Record dev, [], SelectAddress (Intersect (ds_Addresses st) []) (ds_Applied st))
           | Some (ps, stale) \<Rightarrow> if stale then None
               else Some (st, dc_Record dev, ps, SelectAddress (Intersect (ds_Addresses st) ps) (ds_Applied st)))))"

definition publishing :: "DeviceIPv6State \<Rightarrow> addr \<Rightarrow> DeviceIPv6State" where
  "publishing st ip = st\<lparr>ds_GraceEnd := None, ds_Desired := addr_string ip, ds_SyncStatus := Syncing\<rparr>"

definition unpublished :: "time \<Rightarrow> DeviceIPv6State \<Rightarrow> DeviceIPv6State" where
  "unpublished now st = st\<lparr>ds_Desired := [], ds_SyncStatus := SyncSynced, ds_SyncUpdatedAt := now\<rparr>"

definition in_grace :: "time \<Rightarrow> duration \<Rightarrow> DeviceIPv6State \<Rightarrow> DeviceIPv6State" where
  "in_grace now g st = st\<lparr>ds_GraceEnd := Some (now + g), ds_SyncStatus := SyncGracePeriod, ds_SyncUpdatedAt := now\<rparr>"

lemma begin_choice:
  "begin_reconcile cfg file_get store_device active ok now d s = (case choice cfg active d s of
      None \<Rightarrow> (s, ReconcileDone)
    | Some (st, name, ps, Some ip) \<Rightarrow>
        if ds_Applied st = addr_string ip \<and> ds_SyncStatus st = SyncSynced then (s, ReconcileDone)
        else (fst (store_device ok (publishing st ip) s), Upserting (publishing st ip) name ip)
    | Some (st, name, ps, None) \<Rightarrow>
        if ds_Applied st = [] then (fst (store_device ok (unpublished now st) s), ReconcileDone)
        else (case ds_GraceEnd st of
            None \<Rightarrow> (fst (store_device ok (in_grace now (dd_Grace cfg) st) s), ReconcileDone)
          | Some e \<Rightarrow> if now < e then (s, ReconcileDone)
              else (fst (store_device ok (st\<lparr>ds_SyncStatus := Syncing\<rparr>) s), Deleting (st\<lparr>ds_SyncStatus := Syncing\<rparr>) name)))"
proof (cases "dd_Enabled cfg")
  case True
  show ?thesis
  proof (cases "gget (dd_Devices cfg) d")
    case dev: (Some dev)
    show ?thesis
    proof (cases "dc_Record dev = [] \<or> file_get s d = None")
      case False
      then obtain st where st: "file_get s d = Some st" "dc_Record dev \<noteq> []" by auto
      define n where "n = (if dc_NetworkID dev = [] then ds_NetworkID st else dc_NetworkID dev)"
      define ps where "ps = (case active n (stale_ttl cfg n) of None \<Rightarrow> [] | Some a \<Rightarrow> fst a)"
      define stale where "stale = (case active n (stale_ttl cfg n) of None \<Rightarrow> False | Some a \<Rightarrow> snd a)"
      have act: "(case active n (stale_ttl cfg n) of None \<Rightarrow> ([], False) | Some a \<Rightarrow> a) = (ps, stale)"
        by (simp add: ps_def stale_def split: option.split)
      have c: "choice cfg active d s = (if stale then None
          else Some (st, dc_Record dev, ps, SelectAddress (Intersect (ds_Addresses st) ps) (ds_Applied st)))"
        by (auto simp: choice_def True dev st Let_def ps_def stale_def simp flip: n_def split: option.split)
      show ?thesis
        unfolding begin_reconcile_def c
        by (simp add: True dev st Let_def act publishing_def unpublished_def in_grace_def flip: n_def split: option.split)
    qed (auto simp: begin_reconcile_def choice_def True dev)
  qed (simp add: begin_reconcile_def choice_def)
qed (simp add: begin_reconcile_def choice_def)

lemma choice_state: "choice cfg active d s = Some (st, x) \<Longrightarrow> file_get s d = Some st"
  by (auto simp: choice_def Let_def split: option.splits if_splits)

lemma choice_fields [simp]:
  "ds_DeviceID (publishing st ip) = ds_DeviceID st" "ds_Revision (publishing st ip) = ds_Revision st"
  "ds_DeviceID (unpublished now st) = ds_DeviceID st" "ds_Revision (unpublished now st) = ds_Revision st"
  "ds_DeviceID (in_grace now g st) = ds_DeviceID st" "ds_Revision (in_grace now g st) = ds_Revision st"
  by (simp_all add: publishing_def unpublished_def in_grace_def)

lemma begin_store:
  obtains "fst (begin_reconcile cfg file_get store_device active ok now d s) = s"
      "snd (begin_reconcile cfg file_get store_device active ok now d s) = ReconcileDone"
  | st v where "file_get s d = Some st" "ds_DeviceID v = ds_DeviceID st" "ds_Revision v = ds_Revision st"
      "fst (begin_reconcile cfg file_get store_device active ok now d s) = fst (store_device ok v s)"
      "work_state (snd (begin_reconcile cfg file_get store_device active ok now d s)) \<in> {None, Some v}"
proof (cases "choice cfg active d s")
  case None
  with that(1) show ?thesis by (simp add: begin_choice)
next
  case (Some x)
  obtain st name ps ip where x: "x = (st, name, ps, ip)" by (metis prod_cases4)
  have st: "file_get s d = Some st" using Some x choice_state by simp
  note b = begin_choice [of cfg active ok now d s, unfolded Some x]
  show ?thesis
  proof (cases ip)
    case (Some a)
    show ?thesis
    proof (cases "ds_Applied st = addr_string a \<and> ds_SyncStatus st = SyncSynced")
      case True
      with that(1) b Some show ?thesis by simp
    next
      case False
      show ?thesis by (rule that(2) [OF st, of "publishing st a"]) (use b Some False in \<open>auto simp: work_state_def\<close>)
    qed
  next
    case None
    show ?thesis
    proof (cases "ds_Applied st = []")
      case True
      show ?thesis by (rule that(2) [OF st, of "unpublished now st"]) (use b None True in \<open>simp_all add: work_state_def\<close>)
    next
      case applied: False
      show ?thesis
      proof (cases "ds_GraceEnd st")
        case g: None
        show ?thesis by (rule that(2) [OF st, of "in_grace now (dd_Grace cfg) st"])
            (use b None applied g in \<open>simp_all add: work_state_def\<close>)
      next
        case g: (Some e)
        show ?thesis
        proof (cases "now < e")
          case True
          with that(1) b None applied g show ?thesis by simp
        next
          case False
          show ?thesis by (rule that(2) [OF st, of "st\<lparr>ds_SyncStatus := Syncing\<rparr>"])
              (use b None applied g False in \<open>simp_all add: work_state_def\<close>)
        qed
      qed
    qed
  qed
qed

lemma begin_edited:
  assumes "dev.keyed s"
  shows "edited s d (fst (begin_reconcile cfg file_get store_device active ok now d s))"
    and "work_state (snd (begin_reconcile cfg file_get store_device active ok now d s)) = Some v \<Longrightarrow>
      \<exists>old. file_get s d = Some old \<and> ds_DeviceID v = ds_DeviceID old \<and> ds_Revision v = ds_Revision old"
proof -
  show "edited s d (fst (begin_reconcile cfg file_get store_device active ok now d s))"
  proof (cases rule: begin_store [of cfg active ok now d s])
    case (2 st v)
    moreover have "ds_DeviceID st = d" using 2(1) assms by (simp add: dev.keyed_def)
    ultimately show ?thesis using edited_save [OF 2(1), of v ok] by simp
  qed simp
  show "\<exists>old. file_get s d = Some old \<and> ds_DeviceID v = ds_DeviceID old \<and> ds_Revision v = ds_Revision old"
    if "work_state (snd (begin_reconcile cfg file_get store_device active ok now d s)) = Some v"
    using that by (cases rule: begin_store [of cfg active ok now d s]) (auto simp: work_state_def)
qed

lemma end_edited:
  assumes "dev.keyed s" and "\<And>st. work_state w = Some st \<Longrightarrow>
      \<exists>old. file_get s d = Some old \<and> ds_DeviceID st = ds_DeviceID old \<and> ds_Revision st = ds_Revision old"
  shows "edited s d (end_reconcile store_device ok now failed w s)"
proof (cases "work_state w")
  case None
  then show ?thesis by (simp add: end_reconcile_def work_state_def split: reconcile_work.splits)
next
  case (Some st)
  then obtain old where old: "file_get s d = Some old" "ds_DeviceID st = ds_DeviceID old" "ds_Revision st = ds_Revision old"
    using assms(2) by blast
  moreover have "ds_DeviceID old = d" using old(1) assms(1) by (simp add: dev.keyed_def)
  ultimately show ?thesis using Some
    by (auto simp: end_reconcile_def work_state_def Let_def split: reconcile_work.splits option.split intro!: edited_save)
qed

lemma edited_keyed: "edited s d s' \<Longrightarrow> dev.keyed s \<Longrightarrow> dev.keyed s'"
proof -
  assume e: "edited s d s'" and k: "dev.keyed s"
  have "ds_DeviceID v = i" if "file_get s' i = Some v" for i v
  proof (cases "i = d")
    case False
    with e k that show ?thesis by (simp add: edited_def dev.keyed_def)
  next
    case True
    with e that obtain st where "file_get s d = Some st" "ds_DeviceID v = ds_DeviceID st"
      by (cases "file_get s d") (auto simp: edited_def)
    with k True show ?thesis by (simp add: dev.keyed_def)
  qed
  then show "dev.keyed s'" unfolding dev.keyed_def by blast
qed

lemma reconcile_edited:
  assumes "net_ok s"
  shows "edited (ns_devices s) d (fst (reconcile cfg env d s)) \<and> net_ok (s\<lparr>ns_devices := fst (reconcile cfg env d s)\<rparr>)"
proof -
  have k: "dev.keyed (ns_devices s)" "wf_map (sf_states (ns_devices s))" using assms by (simp_all add: net_ok_def)
  obtain t w where b: "begin_reconcile cfg file_get store_device (\<lambda>n. active_prefixes_of s n (rv_Now env)) (rv_SaveOK env) (rv_Now env) d
      (ns_devices s) = (t, w)" by fastforce
  have t: "edited (ns_devices s) d t" using begin_edited(1) [OF k(1)] b by (metis fst_conv)
  have "edited t d (end_reconcile store_device (rv_LastSaveOK env) (rv_Later env) (rv_Failed env) w t)"
  proof (rule end_edited [OF edited_keyed [OF t k(1)]])
    fix st assume "work_state w = Some st"
    with begin_edited(2) [OF k(1)] b obtain old where
      "file_get (ns_devices s) d = Some old" "ds_DeviceID st = ds_DeviceID old" "ds_Revision st = ds_Revision old" by (metis snd_conv)
    with t show "\<exists>old. file_get t d = Some old \<and> ds_DeviceID st = ds_DeviceID old \<and> ds_Revision st = ds_Revision old"
      by (auto simp: edited_def)
  qed
  with t have e: "edited (ns_devices s) d (fst (reconcile cfg env d s))"
    using edited_trans by (simp add: reconcile_def ReconcileDevice_def b)
  moreover have "wf_map (sf_states t)"
  proof -
    have "wf_map (sf_states (fst (begin_reconcile cfg file_get store_device (\<lambda>n. active_prefixes_of s n (rv_Now env)) (rv_SaveOK env)
        (rv_Now env) d (ns_devices s))))"
      by (cases rule: begin_store [of cfg "\<lambda>n. active_prefixes_of s n (rv_Now env)" "rv_SaveOK env" "rv_Now env" d "ns_devices s"])
        (simp_all add: k(2) wf_store_device)
    then show ?thesis by (simp add: b)
  qed
  then have "wf_map (sf_states (fst (reconcile cfg env d s)))"
    by (auto simp: reconcile_def ReconcileDevice_def b end_reconcile_def Let_def wf_store_device split: reconcile_work.split option.split)
  ultimately show ?thesis using edited_keyed [OF e k(1)] by (simp add: net_ok_def)
qed


section \<open>The grace period\<close>

definition grace_ok :: "DeviceIPv6State \<Rightarrow> bool" where
  "grace_ok st \<longleftrightarrow> (ds_GraceEnd st \<noteq> None \<longrightarrow> ds_Applied st \<noteq> [] \<and> ds_SyncStatus st \<noteq> SyncSynced)"

definition all_grace_ok :: "net_server \<Rightarrow> bool" where
  "all_grace_ok s \<longleftrightarrow> (\<forall>d st. file_get (ns_devices s) d = Some st \<longrightarrow> grace_ok st)"

lemma grace_upd: "grace_ok st \<Longrightarrow> upd st st' \<Longrightarrow> grace_ok st'"
  by (auto simp: grace_ok_def upd_def)

lemma grace_reported:
  assumes "all_grace_ok s" "device_reported s s'"
  shows "all_grace_ok s'"
  unfolding all_grace_ok_def
proof (intro allI impI)
  fix d st' assume st': "file_get (ns_devices s') d = Some st'"
  have r: "dev.reported (ns_devices s) (ns_devices s')" using assms(2) by (simp add: device_reported_def)
  show "grace_ok st'"
  proof (cases "file_get (ns_devices s) d")
    case None
    from dev.reportedD(2) [OF r None st'] show ?thesis by (simp add: fresh_state_def grace_ok_def)
  next
    case (Some st)
    with dev.reportedD(1) [OF r Some] st' assms(1) show ?thesis by (auto simp: all_grace_ok_def intro: grace_upd)
  qed
qed

abbreviation choice_at :: "ddns_config \<Rightarrow> reconcile_env \<Rightarrow> string \<Rightarrow> net_server
    \<Rightarrow> (DeviceIPv6State \<times> string \<times> prefix list \<times> addr option) option" where
  "choice_at cfg env d s \<equiv> choice cfg (\<lambda>n. active_prefixes_of s n (rv_Now env)) d (ns_devices s)"

text \<open>A reconciliation finds an address, and can note it; or it looks and finds none.\<close>

definition finds :: "ddns_config \<Rightarrow> reconcile_env \<Rightarrow> string \<Rightarrow> net_server \<Rightarrow> bool" where
  "finds cfg env d s \<longleftrightarrow> (case choice_at cfg env d s of Some (st, n, ps, Some ip) \<Rightarrow> rv_SaveOK env \<or> rv_LastSaveOK env | _ \<Rightarrow> False)"

definition lacks :: "ddns_config \<Rightarrow> reconcile_env \<Rightarrow> string \<Rightarrow> net_server \<Rightarrow> bool" where
  "lacks cfg env d s \<longleftrightarrow> (case choice_at cfg env d s of Some (st, n, ps, None) \<Rightarrow> True | _ \<Rightarrow> False)"

lemma store_get:
  "file_get (fst (store_device ok v s)) = (if ok then (file_get s)(ds_DeviceID v \<mapsto> v) else file_get s)"
  by (cases ok; cases "store_device ok v s")
    (auto simp: store_device_def file_save_def file_get_def Let_def fun_eq_iff split: option.split)

lemma reconcile_at:
  "reconcile cfg env d s = (case choice_at cfg env d s of
      None \<Rightarrow> (ns_devices s, ReconcileDone)
    | Some (st, name, ps, Some ip) \<Rightarrow>
        if ds_Applied st = addr_string ip \<and> ds_SyncStatus st = SyncSynced then (ns_devices s, ReconcileDone)
        else (let w = Upserting (publishing st ip) name ip in
              (end_reconcile store_device (rv_LastSaveOK env) (rv_Later env) (rv_Failed env) w
                (fst (store_device (rv_SaveOK env) (publishing st ip) (ns_devices s))), w))
    | Some (st, name, ps, None) \<Rightarrow>
        if ds_Applied st = [] then (fst (store_device (rv_SaveOK env) (unpublished (rv_Now env) st) (ns_devices s)), ReconcileDone)
        else (case ds_GraceEnd st of
            None \<Rightarrow> (fst (store_device (rv_SaveOK env) (in_grace (rv_Now env) (dd_Grace cfg) st) (ns_devices s)), ReconcileDone)
          | Some e \<Rightarrow> if rv_Now env < e then (ns_devices s, ReconcileDone)
              else (let v = st\<lparr>ds_SyncStatus := Syncing\<rparr> in
                (end_reconcile store_device (rv_LastSaveOK env) (rv_Later env) (rv_Failed env) (Deleting v name)
                  (fst (store_device (rv_SaveOK env) v (ns_devices s))), Deleting v name))))"
  unfolding reconcile_def ReconcileDevice_def begin_choice
  by (auto simp: Let_def end_reconcile_def split: option.split prod.split)

lemma end_get:
  "file_get (end_reconcile store_device ok now failed (Upserting st name ip) s) = (if ok then (file_get s)(ds_DeviceID st \<mapsto>
     (case failed of Some e \<Rightarrow> st\<lparr>ds_SyncUpdatedAt := now, ds_SyncStatus := SyncFailed, ds_SyncError := e\<rparr>
      | None \<Rightarrow> st\<lparr>ds_SyncUpdatedAt := now, ds_Applied := addr_string ip, ds_AppliedRevision := ds_Revision st,
          ds_SyncStatus := SyncSynced, ds_SyncError := []\<rparr>)) else file_get s)"
  "file_get (end_reconcile store_device ok now failed (Deleting st name) s) = (if ok then (file_get s)(ds_DeviceID st \<mapsto>
     (case failed of Some e \<Rightarrow> st\<lparr>ds_SyncUpdatedAt := now, ds_SyncStatus := SyncFailed, ds_SyncError := e\<rparr>
      | None \<Rightarrow> st\<lparr>ds_SyncUpdatedAt := now, ds_Applied := [], ds_Desired := [], ds_GraceEnd := None,
          ds_SyncStatus := SyncSynced, ds_SyncError := []\<rparr>)) else file_get s)"
  by (simp_all add: end_reconcile_def Let_def store_get split: option.split)

text \<open>The end of the grace period after a reconciliation is the one before, or begins in it.\<close>

lemma reconcile_grace:
  assumes inv: "all_grace_ok s" "net_ok s" and st': "file_get (fst (reconcile cfg env d s)) d = Some st'"
  shows "grace_ok st'"
    and "ds_GraceEnd st' = Some e \<Longrightarrow>
      (\<exists>st. file_get (ns_devices s) d = Some st \<and> ds_GraceEnd st = Some e \<and> \<not> finds cfg env d s)
      \<or> (lacks cfg env d s \<and> e = rv_Now env + dd_Grace cfg)"
proof -
  have "grace_ok st' \<and> (ds_GraceEnd st' = Some e \<longrightarrow>
      (\<exists>st. file_get (ns_devices s) d = Some st \<and> ds_GraceEnd st = Some e \<and> \<not> finds cfg env d s)
      \<or> (lacks cfg env d s \<and> e = rv_Now env + dd_Grace cfg))"
  proof (cases "choice_at cfg env d s")
    case None
    then show ?thesis using inv(1) st' by (auto simp: reconcile_at finds_def all_grace_ok_def)
  next
    case (Some x)
    obtain st name ps ip where x: "x = (st, name, ps, ip)" by (metis prod_cases4)
    have st: "file_get (ns_devices s) d = Some st" using Some x choice_state by simp
    then have g: "grace_ok st" "ds_DeviceID st = d" using inv by (auto simp: all_grace_ok_def net_ok_def dev.keyed_def)
    note r = st' [unfolded reconcile_at Some x]
    show ?thesis
    proof (cases ip)
      case ip: (Some a)
      have f: "finds cfg env d s \<longleftrightarrow> rv_SaveOK env \<or> rv_LastSaveOK env" by (simp add: finds_def Some x ip)
      show ?thesis
      proof (cases "ds_Applied st = addr_string a \<and> ds_SyncStatus st = SyncSynced")
        case True
        with r ip st g show ?thesis by (auto simp: grace_ok_def)
      next
        case False
        with r ip st g f show ?thesis
          by (auto simp: Let_def end_get store_get publishing_def grace_ok_def split: if_splits option.splits)
      qed
    next
      case ip: None
      have l: "lacks cfg env d s" "\<not> finds cfg env d s" by (simp_all add: lacks_def finds_def Some x ip)
      show ?thesis
      proof (cases "ds_Applied st = []")
        case True
        then have "ds_GraceEnd st = None" using g(1) by (auto simp: grace_ok_def)
        with True r ip st g show ?thesis by (auto simp: store_get unpublished_def grace_ok_def split: if_splits)
      next
        case applied: False
        show ?thesis
        proof (cases "ds_GraceEnd st")
          case None
          with applied r ip st g l show ?thesis by (auto simp: store_get in_grace_def grace_ok_def split: if_splits)
        next
          case gr: (Some e0)
          show ?thesis
          proof (cases "rv_Now env < e0")
            case True
            with applied gr r ip st g l show ?thesis by auto
          next
            case False
            with applied gr r ip st g l show ?thesis
              by (auto simp: Let_def end_get store_get grace_ok_def split: if_splits option.splits)
          qed
        qed
      qed
    qed
  qed
  then show "grace_ok st'" and "ds_GraceEnd st' = Some e \<Longrightarrow>
      (\<exists>st. file_get (ns_devices s) d = Some st \<and> ds_GraceEnd st = Some e \<and> \<not> finds cfg env d s)
      \<or> (lacks cfg env d s \<and> e = rv_Now env + dd_Grace cfg)" by blast+
qed


lemma net_step_ok:
  assumes "net_ok s" "all_grace_ok s"
  shows "net_ok (net_step cfg oper s) \<and> all_grace_ok (net_step cfg oper s)"
proof (cases oper)
  case (DeviceReports env d req)
  with put_device_reported [OF assms(1), of env d req] grace_reported [OF assms(2)] show ?thesis
    by (simp add: device_reported_def)
next
  case (RouterReports env d req)
  with put_router_reported [OF assms(1), of env d req] grace_reported [OF assms(2)] show ?thesis
    by (simp add: device_reported_def)
next
  case (DeviceReconciled env d)
  have e: "edited (ns_devices s) d (fst (reconcile cfg env d s))" "net_ok (s\<lparr>ns_devices := fst (reconcile cfg env d s)\<rparr>)"
    using reconcile_edited [OF assms(1)] by blast+
  have "grace_ok st" if "file_get (fst (reconcile cfg env d s)) k = Some st" for k st
  proof (cases "k = d")
    case True
    with reconcile_grace(1) [OF assms(2,1)] that show ?thesis by blast
  next
    case False
    with e(1) that assms(2) show ?thesis by (auto simp: edited_def all_grace_ok_def)
  qed
  with e(2) DeviceReconciled show ?thesis by (simp add: all_grace_ok_def)
qed

lemma net_run_ok: "net_ok s \<Longrightarrow> all_grace_ok s \<Longrightarrow> net_ok (net_run cfg ops s) \<and> all_grace_ok (net_run cfg ops s)"
  by (induction ops arbitrary: s) (simp_all add: net_step_ok)

section \<open>Printed prefixes\<close>

lemma bits_digits: "\<not> (length (nat_digits n) > 1 \<and> (hd (nat_digits n) < CHR ''1'' \<or> hd (nat_digits n) > CHR ''9''))"
proof (cases "n = 0")
  case False
  have "is_digit (hd (nat_digits n))" using nat_digits_all [of n] by (cases "nat_digits n") simp_all
  moreover have "hd (nat_digits n) \<noteq> CHR ''0''" using False nat_digits_head by simp
  then have "(of_char (hd (nat_digits n)) :: nat) \<noteq> 48" by (metis char_of_char zero_digit)
  ultimately show ?thesis by (auto simp: is_digit_def less_char_def)
qed (simp add: nat_digits_0)

lemma no_slash: "CHR ''/'' \<notin> set (nat_digits n)"
  using nat_digits_all [of n] by (auto simp: list_all_iff is_digit_def)

text \<open>The printed form of a prefix of IPv6 addresses is read back.\<close>

lemma ParsePrefix_string:
  assumes b: "length b = 16" "\<not> Is4In6_bytes b" and n: "n \<le> 128"
  shows "ParsePrefix (prefix_string (Prefix (Addr6 b []) n)) = Some (Prefix (Addr6 b []) n)"
proof -
  let ?a = "addr_string (Addr6 b [])" and ?d = "nat_digits n"
  have "takeWhile (\<lambda>c. c \<noteq> CHR ''/'') (rev (?a @ ''/'' @ ?d)) = rev ?d"
    by (subst rev_append) (simp add: takeWhile_append no_slash)
  then show ?thesis
    using n unfolding ParsePrefix_def prefix_string.simps Let_def
    by (simp add: ParseAddr_string [OF b] atoi_digits bits_digits [simplified] del: addr_string.simps)
qed

lemma trim_prefix_string:
  assumes b: "length b = 16" "\<not> Is4In6_bytes b" and n: "n \<le> 128"
  shows "trim_space (prefix_string (Prefix (Addr6 b []) n)) = prefix_string (Prefix (Addr6 b []) n)"
proof (rule trim_space_graphic)
  let ?s = "ip6_string (ip_groups b)"
  have "graphic c" if "c \<in> set ?s" for c
    using ip6_string_chars ip_char_graphic that unfolding list_all_iff by blast
  moreover have "graphic c" if "c \<in> set (nat_digits n)" for c
    using nat_digits_chars that by blast
  moreover have "?s \<noteq> []" by (rule ip6_string_nonempty [OF b(1)])
  ultimately show "prefix_string (Prefix (Addr6 b []) n) \<noteq> []" "graphic (hd (prefix_string (Prefix (Addr6 b []) n)))"
    "graphic (last (prefix_string (Prefix (Addr6 b []) n)))"
    using b(2) by simp_all
qed

section \<open>Properties\<close>

definition not_behind :: "net_server \<Rightarrow> net_server \<Rightarrow> string \<Rightarrow> bool" where
  "not_behind s s' d \<longleftrightarrow> (case file_get (ns_devices s) d of
      None \<Rightarrow> True
    | Some st \<Rightarrow> (case file_get (ns_devices s') d of None \<Rightarrow> False | Some st' \<Rightarrow> ds_Revision st \<le> ds_Revision st'))"

lemma not_behind_step:
  assumes "net_ok s"
  shows "not_behind s (net_step cfg oper s) d"
proof -
  have rep: "not_behind s s' d" if "device_reported s s'" for s'
  proof (cases "file_get (ns_devices s) d")
    case (Some st)
    with dev.reportedD(1) [of "ns_devices s" "ns_devices s'" d st] that show ?thesis
      by (auto simp: not_behind_def device_reported_def upd_def)
  qed (simp add: not_behind_def)
  show ?thesis
  proof (cases oper)
    case (DeviceReconciled env k)
    have "edited (ns_devices s) k (fst (reconcile cfg env k s))" using reconcile_edited [OF assms] by blast
    then show ?thesis using DeviceReconciled
      by (cases "k = d") (auto simp: not_behind_def edited_def split: option.splits)
  qed (use rep put_device_reported [OF assms] put_router_reported [OF assms] in simp_all)
qed

lemma not_behind_trans: "not_behind s t d \<Longrightarrow> not_behind t u d \<Longrightarrow> not_behind s u d"
  by (auto simp: not_behind_def split: option.splits)

text \<open>
  C25: As long as no report comes in while a reconciliation is waiting for its DNS provider, the stored revision of
  a device never goes back, whatever devices and routers report and whatever writes fail.
\<close>

theorem revisions_kept:
  assumes "net_ok s" "all_grace_ok s"
  shows "not_behind s (net_run cfg ops s) d"
  using assms
proof (induction ops arbitrary: s)
  case (Cons oper ops)
  have "not_behind (net_step cfg oper s) (net_run cfg ops (net_step cfg oper s)) d"
    using Cons.IH net_step_ok [OF Cons.prems] by blast
  from not_behind_trans [OF not_behind_step [OF Cons.prems(1)] this] show ?case by simp
qed (simp add: not_behind_def split: option.split)

text \<open>A report that is answered as accepted.\<close>

lemma put_accepted:
  assumes "putDeviceNetworkState env d req s = (s1, NetAccepted rn changed status desired, started)"
    and "UpdateReportedAddresses file_get store_device (ne_SaveOK env) (ne_Now env) d (dr_NetworkID req)
       (dr_Revision req) (observed_at env (dr_ObservedAt req)) (dr_Addresses req) (ns_devices s) = (devs, x)"
  obtains st0 where "x = Inr (st0, changed)" "rn = ds_Revision (selectDeviceDesiredAddress env (ns_routers s) st0)"
    "desired = ds_Desired (selectDeviceDesiredAddress env (ns_routers s) st0)"
    "ns_devices s1 = fst (store_device True (selectDeviceDesiredAddress env (ns_routers s) st0) devs)"
proof (cases x)
  case (Inl e)
  with assms show ?thesis by (cases e) (auto simp: putDeviceNetworkState_def Let_def split: if_splits)
next
  case (Inr y)
  then obtain st0 c where x: "x = Inr (st0, c)" by (cases y) auto
  obtain devs2 saved where sv: "store_device (ne_SelectOK env d) (selectDeviceDesiredAddress env (ns_routers s) st0) devs = (devs2, saved)"
    by fastforce
  then have "saved \<Longrightarrow> devs2 = fst (store_device True (selectDeviceDesiredAddress env (ns_routers s) st0) devs)"
    by (auto simp: store_device_def file_save_def Let_def split: if_splits)
  with assms x sv that show ?thesis by (auto simp: putDeviceNetworkState_def Let_def split: if_splits)
qed

text \<open>
  C26: A report that comes in while a reconciliation waits for its DNS provider is lost: the reconciliation writes
  back the state it read before, with the older revision and the older addresses, although the report was
  answered as accepted.
\<close>

theorem reconcile_overwrites_report:
  assumes "net_ok s"
    and "begin_reconcile cfg file_get store_device active ok now d (ns_devices s) = (devs, Upserting st name ip)"
    and "putDeviceNetworkState env d req (s\<lparr>ns_devices := devs\<rparr>) = (s1, NetAccepted rn changed status desired, started)"
    and "file_get (ns_devices s) d = Some old" "ds_Revision old < rn"
  shows "(\<exists>new. file_get (ns_devices s1) d = Some new \<and> ds_Revision new = rn)
    \<and> (\<exists>back. file_get (end_reconcile store_device True later failed (Upserting st name ip) (ns_devices s1)) d = Some back
         \<and> ds_Revision back = ds_Revision old \<and> ds_Addresses back = ds_Addresses old)"
proof -
  have k: "dev.keyed (ns_devices s)" using assms(1) by (simp add: net_ok_def)
  have dv: "dev.keyed devs" using edited_keyed [OF begin_edited(1) [OF k] k] assms(2) by (metis fst_conv)
  obtain devs1 x where r: "UpdateReportedAddresses file_get store_device (ne_SaveOK env) (ne_Now env) d (dr_NetworkID req)
       (dr_Revision req) (observed_at env (dr_ObservedAt req)) (dr_Addresses req) devs = (devs1, x)" by fastforce
  obtain st0 c where x: "x = Inr (st0, c)" and
    acc: "rn = ds_Revision (selectDeviceDesiredAddress env (ns_routers s) st0)"
      "ns_devices s1 = fst (store_device True (selectDeviceDesiredAddress env (ns_routers s) st0) devs1)"
    using assms(3) r by (auto elim!: put_accepted)
  have "ds_DeviceID (selectDeviceDesiredAddress env (ns_routers s) st0) = d"
    using select_upd [of st0 env "ns_routers s"] dev.report_result [OF r [unfolded x] dv] by (simp add: upd_def)
  then have new: "\<exists>new. file_get (ns_devices s1) d = Some new \<and> ds_Revision new = rn"
    using acc by (simp add: store_get)
  have st: "st = publishing old ip" "ds_DeviceID old = d"
    using assms(2,4) k choice_state [of cfg active d "ns_devices s"]
    by (auto simp: begin_choice dev.keyed_def split: option.splits prod.splits if_splits)
  have "\<exists>back. file_get (end_reconcile store_device True later failed (Upserting st name ip) (ns_devices s1)) d = Some back
         \<and> ds_Revision back = ds_Revision old \<and> ds_Addresses back = ds_Addresses old"
    unfolding end_get using st by (auto simp: publishing_def split: option.split)
  with new show ?thesis by blast
qed






section \<open>The published address\<close>

lemma matching_addrs: "set (matching_addrs cs ps seen) =
    {a. (\<exists>c \<in> set cs. ParseAddr (trim_space (ra_Address c)) = Some a) \<and> (\<exists>p \<in> set ps. prefix_Contains p a)} - set seen"
proof (induction cs arbitrary: seen)
  case (Cons c cs)
  show ?case
  proof (cases "ParseAddr (trim_space (ra_Address c))")
    case (Some a)
    show ?thesis
      by (auto simp: Some Cons list_ex_iff)
  qed (simp add: Cons)
qed simp

lemma Intersect_iff: "a \<in> set (Intersect cs ps) \<longleftrightarrow>
    (\<exists>c \<in> set cs. ParseAddr (trim_space (ra_Address c)) = Some a) \<and> (\<exists>p \<in> set ps. prefix_Contains p a)"
  by (simp add: Intersect_def matching_addrs)

lemma SelectAddress_in: "SelectAddress valid applied = Some a \<Longrightarrow> a \<in> set valid"
  by (auto simp: SelectAddress_def split: list.splits option.splits if_splits)

lemma SelectAddress_applied:
  "applied \<noteq> [] \<Longrightarrow> ParseAddr (trim_space applied) = Some a \<Longrightarrow> a \<in> set valid \<Longrightarrow> SelectAddress valid applied = Some a"
  by (auto simp: SelectAddress_def split: list.splits)

lemma stale_ttl_pos: "0 < stale_ttl cfg n"
  by (simp add: stale_ttl_def minutes_def split: option.split)

lemma GetActivePrefixes_iff:
  "GetActivePrefixes get n now ttl s = Some (ps, stale) \<longleftrightarrow> (\<exists>r. get s n = Some r
     \<and> ps = map Masked (List.map_filter (\<lambda>p. ParsePrefix (trim_space (rp_Prefix p))) (filter (\<lambda>p. IsValidPrefix p now) (rs_Prefixes r)))
     \<and> stale = (ttl > 0 \<and> time_sub now (rs_LastSeenAt r) > ttl))"
  by (auto simp: GetActivePrefixes_def split: option.split)

text \<open>An address in a valid prefix of a router that was heard of lately.\<close>

definition in_live_prefix :: "RouterPrefixState \<Rightarrow> time \<Rightarrow> duration \<Rightarrow> addr \<Rightarrow> bool" where
  "in_live_prefix r now ttl a \<longleftrightarrow> \<not> time_sub now (rs_LastSeenAt r) > ttl \<and> (\<exists>p \<in> set (rs_Prefixes r). IsValidPrefix p now
     \<and> (case ParsePrefix (trim_space (rp_Prefix p)) of None \<Rightarrow> False | Some x \<Rightarrow> prefix_Contains (Masked x) a))"

text \<open>The network whose prefixes count for a device.\<close>

definition network_of :: "DeviceConfig \<Rightarrow> DeviceIPv6State \<Rightarrow> string" where
  "network_of dev st = (if dc_NetworkID dev = [] then ds_NetworkID st else dc_NetworkID dev)"

lemma choice_found:
  "choice_at cfg env d s = Some (st, name, ps, Some ip) \<longleftrightarrow> (\<exists>dev r. dd_Enabled cfg \<and> gget (dd_Devices cfg) d = Some dev
     \<and> dc_Record dev = name \<and> name \<noteq> [] \<and> file_get (ns_devices s) d = Some st \<and> file_get (ns_routers s) (network_of dev st) = Some r
     \<and> active_prefixes_of s (network_of dev st) (rv_Now env) (stale_ttl cfg (network_of dev st)) = Some (ps, False)
     \<and> SelectAddress (Intersect (ds_Addresses st) ps) (ds_Applied st) = Some ip)"
proof -
  have none: "SelectAddress (Intersect cs []) x = None" for cs x
    by (cases "SelectAddress (Intersect cs []) x") (use Intersect_iff [of _ cs "[]"] SelectAddress_in in auto)
  show ?thesis
  proof (cases "\<exists>dev st. dd_Enabled cfg \<and> gget (dd_Devices cfg) d = Some dev \<and> file_get (ns_devices s) d = Some st")
    case True
    then obtain dev st0 where d: "dd_Enabled cfg" "gget (dd_Devices cfg) d = Some dev" "file_get (ns_devices s) d = Some st0" by blast
    let ?a = "active_prefixes_of s (network_of dev st0) (rv_Now env) (stale_ttl cfg (network_of dev st0))"
    have c: "choice_at cfg env d s = (if dc_Record dev = [] then None else (case ?a of
        None \<Rightarrow> Some (st0, dc_Record dev, [], None)
      | Some (ps, stale) \<Rightarrow> if stale then None
          else Some (st0, dc_Record dev, ps, SelectAddress (Intersect (ds_Addresses st0) ps) (ds_Applied st0))))"
      by (simp add: choice_def d none network_of_def Let_def split: option.split)
    have r: "?a = Some (ps, False) \<Longrightarrow> \<exists>r. file_get (ns_routers s) (network_of dev st0) = Some r"
      by (auto simp: active_prefixes_of_def GetActivePrefixes_iff)
    show ?thesis
      unfolding c using d r by (auto split: option.split)
  qed (auto simp: choice_def split: option.splits)
qed

text \<open>
  C24: What is published: an address that the device reported, in a prefix of its network that is valid at the time of
  the reconciliation, from a router that was heard of within the time the network allows.
\<close>

theorem published_in_active_prefix:
  assumes "reconcile cfg env d s = (devs, Upserting st name ip)"
  shows "\<exists>dev old r. gget (dd_Devices cfg) d = Some dev \<and> dc_Record dev = name \<and> name \<noteq> []
    \<and> file_get (ns_devices s) d = Some old \<and> file_get (ns_routers s) (network_of dev old) = Some r
    \<and> in_live_prefix r (rv_Now env) (stale_ttl cfg (network_of dev old)) ip
    \<and> (\<exists>c \<in> set (ds_Addresses old). ParseAddr (trim_space (ra_Address c)) = Some ip)"
proof -
  obtain old ps where "choice_at cfg env d s = Some (old, name, ps, Some ip)"
    using assms by (auto simp: reconcile_at Let_def split: option.splits prod.splits if_splits)
  then obtain dev r where c: "gget (dd_Devices cfg) d = Some dev" "dc_Record dev = name" "name \<noteq> []"
    "file_get (ns_devices s) d = Some old" "file_get (ns_routers s) (network_of dev old) = Some r"
    "active_prefixes_of s (network_of dev old) (rv_Now env) (stale_ttl cfg (network_of dev old)) = Some (ps, False)"
    "ip \<in> set (Intersect (ds_Addresses old) ps)"
    unfolding choice_found using SelectAddress_in by blast
  from c(5,6) have ps: "set ps = Masked ` {x. \<exists>p \<in> set (rs_Prefixes r). IsValidPrefix p (rv_Now env) \<and> ParsePrefix (trim_space (rp_Prefix p)) = Some x}"
    and live: "\<not> time_sub (rv_Now env) (rs_LastSeenAt r) > stale_ttl cfg (network_of dev old)"
    using stale_ttl_pos [of cfg "network_of dev old"]
    by (force simp: active_prefixes_of_def GetActivePrefixes_iff List.map_filter_def image_iff)+
  from c(7) ps have "\<exists>p \<in> set (rs_Prefixes r). IsValidPrefix p (rv_Now env)
     \<and> (case ParsePrefix (trim_space (rp_Prefix p)) of None \<Rightarrow> False | Some x \<Rightarrow> prefix_Contains (Masked x) ip)"
    by (fastforce simp: Intersect_iff)
  with live c show ?thesis by (auto simp: in_live_prefix_def Intersect_iff)
qed

text \<open>
  The published address is kept while it can be: as long as the device reports it and an active prefix holds it, a
  reconciliation publishes no other one and deletes nothing, whatever other addresses there are; when it is
  published already, nothing is written.
\<close>

theorem applied_address_kept:
  assumes "choice_at cfg env d s = Some (st, name, ps, Some other)"
    and "ds_Applied st = addr_string ip" "ip = Addr6 b []" "\<not> Is4In6 ip"
    and "c \<in> set (ds_Addresses st)" "ParseAddr (trim_space (ra_Address c)) = Some ip"
    and "p \<in> set ps" "prefix_Contains p ip"
  shows "reconcile cfg env d s = (ns_devices s, ReconcileDone)
    \<or> (ds_SyncStatus st \<noteq> SyncSynced \<and> snd (reconcile cfg env d s) = Upserting (publishing st ip) name ip)"
proof -
  have b: "length b = 16" "\<not> Is4In6_bytes b" using assms(3,4,6) parse_addr_length by auto
  have parsed: "ParseAddr (trim_space (ds_Applied st)) = Some ip"
    unfolding assms(2,3) trim_addr_string [OF b] by (rule ParseAddr_string [OF b])
  have "ds_Applied st \<noteq> []" using b assms(2,3) ip6_string_nonempty by simp
  moreover have "ip \<in> set (Intersect (ds_Addresses st) ps)" using assms(5-8) by (auto simp: Intersect_iff)
  ultimately have "SelectAddress (Intersect (ds_Addresses st) ps) (ds_Applied st) = Some ip"
    using SelectAddress_applied parsed by blast
  then have "other = ip" using assms(1) by (auto simp: choice_found)
  with assms(1,2) show ?thesis by (simp add: reconcile_at Let_def del: addr_string.simps)
qed

text \<open>
  When an address or a prefix is reported again with a later end of its validity and nothing else is different, the
  report counts as the one before: under the revision the server has, it is answered as accepted and the end is
  not stored; under a later one it is stored, and answered as unchanged.
\<close>

theorem renewed_validity_unchanged:
  assumes "file_get s d = Some st"
    and "NormalizeAndFilterCandidates raw observed = map (\<lambda>r. r\<lparr>ra_ValidUntil := renewed r\<rparr>) (ds_Addresses st)"
    and "ds_Revision st \<le> rn"
  shows "UpdateReportedAddresses file_get store_device True now d n rn observed raw s =
    (if rn = ds_Revision st then (s, Inr (st, False))
     else (let st1 = st\<lparr>ds_Revision := rn, ds_ObservedAt := observed, ds_NetworkID := (if n \<noteq> [] then n else ds_NetworkID st),
                ds_Addresses := NormalizeAndFilterCandidates raw observed\<rparr> in
           (fst (store_device True st1 s), Inr (st1, False))))"
proof -
  have "AddressesEqual (ds_Addresses st) (NormalizeAndFilterCandidates raw observed)"
    unfolding assms(2) by (simp add: AddressesEqual_def list_all2_map2 list_all2_same same_report_def)
  then show ?thesis
    using assms(1,3) by (auto simp: UpdateReportedAddresses_def Let_def store_device_def file_save_def)
qed

section \<open>Samples\<close>

definition sample_addr :: addr where
  "sample_addr = Addr6 [0x20, 0x01, 0x0d, 0xb8, 0, 0, 0, 0, 0, 0, 0, 0, 0, 0, 0, 5] []"

definition sample_prefix :: prefix where
  "sample_prefix = Prefix (Addr6 [0x20, 0x01, 0x0d, 0xb8, 0, 0, 0, 0, 0, 0, 0, 0, 0, 0, 0, 0] []) 64"

definition plain_address :: "string \<Rightarrow> ReportedIPv6Address" where
  "plain_address a = \<lparr>ra_Address = a, ra_Interface = ''eth0'', ra_PrefixLength = 64, ra_Temporary = False,
     ra_Deprecated = False, ra_PreferredUntil = None, ra_ValidUntil = None\<rparr>"

definition plain_prefix :: "string \<Rightarrow> ReportedIPv6Prefix" where
  "plain_prefix p = \<lparr>rp_Prefix = p, rp_PreferredUntil = None, rp_ValidUntil = None\<rparr>"

lemma sample_text:
  "ParseAddr (addr_string sample_addr) = Some sample_addr" "trim_space (addr_string sample_addr) = addr_string sample_addr"
  "ParsePrefix (prefix_string sample_prefix) = Some sample_prefix" "trim_space (prefix_string sample_prefix) = prefix_string sample_prefix"
  unfolding sample_addr_def sample_prefix_def
  by (rule ParseAddr_string trim_addr_string ParsePrefix_string trim_prefix_string; simp add: Is4In6_bytes_def)+

lemma addr_string_nonempty: "addr_string sample_addr \<noteq> []"
proof
  assume "addr_string sample_addr = []"
  with sample_text(1) show False by (simp add: ParseAddr_def)
qed

lemma sample_usable:
  "Is6 sample_addr" "\<not> Is4In6 sample_addr" "\<not> unusable_range sample_addr" "\<not> isULA (addr_bytes sample_addr)"
  by (simp_all add: sample_addr_def Is4In6_bytes_def unusable_range_def isULA_def Let_def IsLoopback_def To4_def
      IsLinkLocalUnicast_def IsLinkLocalMulticast_def not_zeros)

lemma sample_normalized: "NormalizeAndFilterCandidates [plain_address (addr_string sample_addr)] now = [plain_address (addr_string sample_addr)]"
  by (simp add: NormalizeAndFilterCandidates_def candidate_entries_Cons candidate_of_def IsValidCandidate_def plain_address_def
      ended_def sample_text sample_usable del: addr_string.simps)

lemma sample_masked: "Masked sample_prefix = sample_prefix" "prefix_Contains sample_prefix sample_addr"
  by (simp_all add: sample_prefix_def sample_addr_def)

lemma sample_valid: "IsValidPrefix (plain_prefix (prefix_string sample_prefix)) now"
  unfolding IsValidPrefix_def plain_prefix_def
  by (simp add: ended_def sample_text del: prefix_string.simps)
    (simp add: sample_prefix_def Is4In6_bytes_def unusable_range_def isULA_def Let_def IsLoopback_def To4_def
      IsLinkLocalUnicast_def IsLinkLocalMulticast_def not_zeros)

lemma sample_prefixes_normalized:
  "NormalizePrefixes [plain_prefix (prefix_string sample_prefix)] now = [plain_prefix (prefix_string sample_prefix)]"
  using sample_valid
  by (simp add: NormalizePrefixes_def sample_text sample_masked Let_def plain_prefix_def del: prefix_string.simps)


definition sample_report :: "u64 \<Rightarrow> device_report" where
  "sample_report rn = \<lparr>dr_NetworkID = ''home'', dr_Revision = rn, dr_ObservedAt = 100,
     dr_Addresses = [plain_address (addr_string sample_addr)], dr_MAC = []\<rparr>"

definition sample_announcement :: "u64 \<Rightarrow> string list \<Rightarrow> router_report" where
  "sample_announcement rn ps = \<lparr>rr_NetworkID = ''home'', rr_Revision = rn, rr_ObservedAt = 100,
     rr_Prefixes = map plain_prefix ps, rr_MAC = []\<rparr>"

definition net_env_at :: "time \<Rightarrow> net_env" where
  "net_env_at now = \<lparr>ne_Now = now, ne_SaveOK = True, ne_SelectOK = (\<lambda>_. True),
     ne_Registry = \<lparr>re_Now = now, re_GrantID = [], re_WriteOK = True\<rparr>, ne_NetworkVar = [], ne_RouterVar = []\<rparr>"

definition reconcile_env_at :: "time \<Rightarrow> reconcile_env" where
  "reconcile_env_at now = \<lparr>rv_Now = now, rv_Later = now + 1, rv_Failed = None, rv_SaveOK = True, rv_LastSaveOK = True\<rparr>"

definition net_cfg :: ddns_config where
  "net_cfg = \<lparr>dd_Enabled = True, dd_Grace = 10, dd_TTL = 120, dd_Networks = [],
     dd_Devices = [(''d'', \<lparr>dc_NetworkID = ''home'', dc_Record = ''d.example.org''\<rparr>)]\<rparr>"

definition net_start :: net_server where
  "net_start = \<lparr>ns_devices = \<lparr>sf_states = [], sf_file = NoStateFile\<rparr>, ns_routers = \<lparr>sf_states = [], sf_file = NoStateFile\<rparr>,
     ns_registry = empty_registry None\<rparr>"

definition sample_router :: "u64 \<Rightarrow> time \<Rightarrow> string list \<Rightarrow> RouterPrefixState" where
  "sample_router rn now ps = \<lparr>rs_RouterDeviceID = ''r'', rs_NetworkID = ''home'', rs_Revision = rn, rs_ObservedAt = 100,
     rs_LastSeenAt = now, rs_Prefixes = map plain_prefix ps\<rparr>"

definition sample_state :: "u64 \<Rightarrow> string \<Rightarrow> string \<Rightarrow> u64 \<Rightarrow> sync_status \<Rightarrow> time \<Rightarrow> time option \<Rightarrow> DeviceIPv6State" where
  "sample_state rn desired applied arn sync at0 grace = \<lparr>ds_DeviceID = ''d'', ds_NetworkID = ''home'', ds_Revision = rn,
     ds_ObservedAt = 100, ds_Addresses = [plain_address (addr_string sample_addr)], ds_Desired = desired, ds_Applied = applied,
     ds_AppliedRevision = arn, ds_SyncStatus = sync, ds_SyncError = [], ds_SyncUpdatedAt = at0, ds_GraceEnd = grace\<rparr>"

definition file_of :: "string \<Rightarrow> 'v \<Rightarrow> 'v file_store" where
  "file_of k v = \<lparr>sf_states = [(k, v)], sf_file = StateData 1 (Some [(k, v)])\<rparr>"

definition net_sample :: "RouterPrefixState \<Rightarrow> DeviceIPv6State \<Rightarrow> net_server" where
  "net_sample r d = net_start\<lparr>ns_devices := file_of ''d'' d, ns_routers := file_of ''home'' r\<rparr>"

lemma trim_empty: "trim_space [] = []"
  by code_simp

lemma trim_d: "trim_space ''d'' = ''d''" "trim_space ''r'' = ''r''" "trim_space ''home'' = ''home''"
  by (simp_all add: trim_space_graphic graphic_def)

lemma normalized_none: "NormalizePrefixes [] now = []"
  by (simp add: NormalizePrefixes_def)

lemmas net_samples = sample_announcement_def sample_report_def net_env_at_def reconcile_env_at_def net_cfg_def
  net_start_def sample_router_def sample_state_def net_sample_def file_of_def sample_normalized
  sample_prefixes_normalized normalized_none trim_empty trim_d observed_at_def is_zero_time_def
  UpdateRouterPrefixes_def UpdateReportedAddresses_def report_mac_def store_device_def store_router_def file_save_def
  file_get_def file_list_def Let_def

declare addr_string.simps [simp del] prefix_string.simps [simp del]

lemma sample_announced:
  "fst (putRouterPrefixes (net_env_at now) ''r'' (sample_announcement 1 [prefix_string sample_prefix]) net_start)
    = net_start\<lparr>ns_routers := file_of ''home'' (sample_router 1 now [prefix_string sample_prefix])\<rparr>"
  by (simp add: putRouterPrefixes_def net_samples)


lemma sample_selected: "SelectAddress (Intersect [plain_address (addr_string sample_addr)] [sample_prefix]) x = Some sample_addr"
proof -
  have "Intersect [plain_address (addr_string sample_addr)] [sample_prefix] = [sample_addr]"
    by (simp add: Intersect_def plain_address_def sample_text sample_masked)
  then show ?thesis by (auto simp: SelectAddress_def split: option.split)
qed

lemma none_selected: "SelectAddress (Intersect cs []) x = None"
proof -
  have "matching_addrs cs [] seen = []" for seen by (induction cs arbitrary: seen) (simp_all split: option.split)
  then show ?thesis by (simp add: Intersect_def SelectAddress_def)
qed

lemma active_in_sample:
  "GetActivePrefixes file_get ''home'' now ttl (file_of ''home'' (sample_router rn seen [prefix_string sample_prefix]))
    = Some ([sample_prefix], ttl > 0 \<and> time_sub now seen > ttl)"
  "GetActivePrefixes file_get ''home'' now ttl (file_of ''home'' (sample_router rn seen [])) = Some ([], ttl > 0 \<and> time_sub now seen > ttl)"
  using sample_valid [of now]
  by (simp_all add: GetActivePrefixes_def file_of_def file_get_def sample_router_def List.map_filter_def plain_prefix_def
      sample_text sample_masked)

lemma fresh_sample: "\<not> time_sub now seen > minutes 15" if "now - seen \<in> {0..60}"
  using that by (simp add: time_sub_greater_iff minutes_def min_duration_def max_duration_def)

lemma sample_desired:
  "now - seen \<in> {0..60} \<Longrightarrow>
    selectDeviceDesiredAddress (net_env_at now) (file_of ''home'' (sample_router rn seen [prefix_string sample_prefix]))
      (sample_state k desired applied arn sync t g)
    = (let x = addr_string sample_addr in
       sample_state k x applied arn (if desired = x then sync else SyncPending) (if desired = x then t else now) g)"
  "now - seen \<in> {0..60} \<Longrightarrow>
    selectDeviceDesiredAddress (net_env_at now) (file_of ''home'' (sample_router rn seen [])) (sample_state k desired applied arn sync t g)
    = sample_state k [] applied arn (if desired = [] then sync else SyncPending) (if desired = [] then t else now) g"
proof -
  let ?st = "sample_state k desired applied arn sync t g"
  have known: "file_get (file_of ''home'' (sample_router rn seen ps)) ''home'' = Some (sample_router rn seen ps)" for ps
    by (simp add: file_get_def file_of_def)
  have sel: "select_candidates (net_env_at now) (file_of ''home'' (sample_router rn seen ps)) ?st =
      (case GetActivePrefixes file_get ''home'' now (minutes 15) (file_of ''home'' (sample_router rn seen ps)) of
         None \<Rightarrow> [] | Some (qs, stale) \<Rightarrow> if stale then [] else Intersect [plain_address (addr_string sample_addr)] qs)" for ps
    by (simp add: select_candidates_def known sample_state_def sample_normalized) (simp add: sample_router_def net_env_at_def)
  show "now - seen \<in> {0..60} \<Longrightarrow>
    selectDeviceDesiredAddress (net_env_at now) (file_of ''home'' (sample_router rn seen [prefix_string sample_prefix])) ?st
    = (let x = addr_string sample_addr in
       sample_state k x applied arn (if desired = x then sync else SyncPending) (if desired = x then t else now) g)"
    using fresh_sample [of now seen]
    by (simp add: selectDeviceDesiredAddress_def sel active_in_sample sample_selected Let_def)
      (simp add: sample_state_def net_env_at_def)
  show "now - seen \<in> {0..60} \<Longrightarrow>
    selectDeviceDesiredAddress (net_env_at now) (file_of ''home'' (sample_router rn seen [])) ?st
    = sample_state k [] applied arn (if desired = [] then sync else SyncPending) (if desired = [] then t else now) g"
    using fresh_sample [of now seen]
    by (simp add: selectDeviceDesiredAddress_def sel active_in_sample none_selected Let_def)
      (simp add: sample_state_def net_env_at_def)
qed


definition sample_home :: "time \<Rightarrow> DeviceIPv6State \<Rightarrow> net_server" where
  "sample_home seen st = net_sample (sample_router 1 seen [prefix_string sample_prefix]) st"

lemma sample_home_simps [simp]:
  "ns_devices (net_sample r d) = file_of ''d'' d" "ns_routers (net_sample r d) = file_of ''home'' r"
  "ns_devices (sample_home seen st) = file_of ''d'' st"
  "ns_routers (sample_home seen st) = file_of ''home'' (sample_router 1 seen [prefix_string sample_prefix])"
  by (simp_all add: sample_home_def net_sample_def)

lemma get_file_of [simp]: "file_get (file_of k v) k = Some v"
  by (simp add: file_get_def file_of_def)

lemma store_file_of: "ds_DeviceID v = k \<Longrightarrow> store_device True v (file_of k w) = (file_of k v, True)"
  by (simp add: store_device_def file_save_def file_of_def Let_def)

lemma sample_state_simps [simp]:
  "ds_DeviceID (sample_state k x a arn sync t g) = ''d''" "ds_Addresses (sample_state k x a arn sync t g) = [plain_address (addr_string sample_addr)]"
  "ds_Applied (sample_state k x a arn sync t g) = a" "ds_GraceEnd (sample_state k x a arn sync t g) = g"
  "ds_SyncStatus (sample_state k x a arn sync t g) = sync" "ds_Revision (sample_state k x a arn sync t g) = k"
  "ds_NetworkID (sample_state k x a arn sync t g) = ''home''"
  "ds_Desired (sample_state k x a arn sync t g) = x"
  by (simp_all add: sample_state_def)

lemma sample_reported:
  "fst (putDeviceNetworkState (net_env_at 101) ''d'' (sample_report 1) (net_start\<lparr>ns_routers := file_of ''home'' (sample_router 1 100 [prefix_string sample_prefix])\<rparr>))
    = sample_home 100 (sample_state 1 (addr_string sample_addr) [] 0 SyncPending 101 None)"
proof -
  let ?s = "net_start\<lparr>ns_routers := file_of ''home'' (sample_router 1 100 [prefix_string sample_prefix])\<rparr>"
  have "UpdateReportedAddresses file_get store_device True 101 ''d'' ''home'' 1 100 [plain_address (addr_string sample_addr)] (ns_devices ?s)
      = (file_of ''d'' (sample_state 1 [] [] 0 SyncPending 101 None), Inr (sample_state 1 [] [] 0 SyncPending 101 None, True))"
    by (simp add: UpdateReportedAddresses_def net_samples)
  moreover have "net_env_at 101 = (net_env_at 101)\<lparr>ne_Now := 101, ne_SaveOK := True\<rparr>" "ne_SelectOK (net_env_at 101) x" for x by (simp_all add: net_env_at_def)
  ultimately show ?thesis
    using addr_string_nonempty
    by (simp add: putDeviceNetworkState_def sample_report_def observed_at_def is_zero_time_def net_env_at_def report_mac_def trim_d trim_empty Let_def)
      (simp flip: net_env_at_def add: sample_desired store_file_of sample_home_def net_sample_def Let_def)
qed

lemma sample_choice:
  "now - seen \<in> {0..60} \<Longrightarrow> choice_at net_cfg (reconcile_env_at now) ''d'' (sample_home seen (sample_state k x a arn sync t g))
    = Some (sample_state k x a arn sync t g, ''d.example.org'', [sample_prefix], Some sample_addr)"
  "now - seen \<in> {0..60} \<Longrightarrow> choice_at net_cfg (reconcile_env_at now) ''d'' (net_sample (sample_router rn seen []) (sample_state k x a arn sync t g))
    = Some (sample_state k x a arn sync t g, ''d.example.org'', [], None)"
  using fresh_sample [of now seen]
  by (simp_all add: choice_def net_cfg_def reconcile_env_at_def stale_ttl_def active_prefixes_of_def active_in_sample sample_selected none_selected Let_def)


lemmas sample_found = sample_choice [simplified sample_home_simps]

lemma sample_published:
  "reconcile net_cfg (reconcile_env_at 102) ''d'' (sample_home 100 (sample_state 1 (addr_string sample_addr) [] 0 SyncPending 101 None))
    = (file_of ''d'' (sample_state 1 (addr_string sample_addr) (addr_string sample_addr) 1 SyncSynced 103 None),
       Upserting (sample_state 1 (addr_string sample_addr) [] 0 Syncing 101 None) ''d.example.org'' sample_addr)"
  using addr_string_nonempty
  by (simp add: reconcile_at sample_found Let_def publishing_def store_file_of end_reconcile_def)
    (simp add: reconcile_env_at_def sample_state_def file_of_def store_device_def file_save_def Let_def)

lemma sample_withdrawn:
  "fst (putRouterPrefixes (net_env_at 110) ''r'' (sample_announcement 2 []) (sample_home 100 st))
    = net_sample (sample_router 2 110 []) (selectDeviceDesiredAddress (net_env_at 110) (file_of ''home'' (sample_router 2 110 [])) st)"
  if "ds_NetworkID st = ''home''" "ds_DeviceID st = ''d''"
proof -
  have "UpdateRouterPrefixes file_get store_router True 110 ''r'' ''home'' 2 100 [] (file_of ''home'' (sample_router 1 100 [prefix_string sample_prefix]))
      = (file_of ''home'' (sample_router 2 110 []), Inr (sample_router 2 110 [], True))"
    by (simp add: UpdateRouterPrefixes_def net_samples PrefixesEqual_def)
  moreover have "ds_DeviceID (selectDeviceDesiredAddress env r st) = ''d''" for env r using select_upd [of st env r] that by (simp add: upd_def)
  ultimately show ?thesis
    using that
    by (simp add: putRouterPrefixes_def sample_announcement_def observed_at_def is_zero_time_def net_env_at_def report_mac_def trim_d trim_empty Let_def)
      (simp add: file_list_def file_of_def sample_home_def net_sample_def store_device_def file_save_def Let_def)
qed

definition net_sample_ops :: "net_op list" where
  "net_sample_ops = [RouterReports (net_env_at 100) ''r'' (sample_announcement 1 [prefix_string sample_prefix]),
     DeviceReports (net_env_at 101) ''d'' (sample_report 1), DeviceReconciled (reconcile_env_at 102) ''d'',
     RouterReports (net_env_at 110) ''r'' (sample_announcement 2 []), DeviceReconciled (reconcile_env_at 111) ''d'']"

lemma sample_run:
  "net_run net_cfg net_sample_ops net_start
    = net_sample (sample_router 2 110 []) (sample_state 1 [] (addr_string sample_addr) 1 SyncGracePeriod 111 (Some 121))"
proof -
  let ?a = "addr_string sample_addr"
  have 1: "net_step net_cfg (RouterReports (net_env_at 100) ''r'' (sample_announcement 1 [prefix_string sample_prefix])) net_start
      = net_start\<lparr>ns_routers := file_of ''home'' (sample_router 1 100 [prefix_string sample_prefix])\<rparr>"
    by (simp only: net_step.simps sample_announced)
  have 2: "net_step net_cfg (DeviceReports (net_env_at 101) ''d'' (sample_report 1))
        (net_start\<lparr>ns_routers := file_of ''home'' (sample_router 1 100 [prefix_string sample_prefix])\<rparr>)
      = sample_home 100 (sample_state 1 ?a [] 0 SyncPending 101 None)"
    by (simp only: net_step.simps sample_reported)
  have 3: "net_step net_cfg (DeviceReconciled (reconcile_env_at 102) ''d'') (sample_home 100 (sample_state 1 ?a [] 0 SyncPending 101 None))
      = sample_home 100 (sample_state 1 ?a ?a 1 SyncSynced 103 None)"
    by (simp add: sample_published) (simp add: sample_home_def net_sample_def)
  have 4: "net_step net_cfg (RouterReports (net_env_at 110) ''r'' (sample_announcement 2 [])) (sample_home 100 (sample_state 1 ?a ?a 1 SyncSynced 103 None))
      = net_sample (sample_router 2 110 []) (sample_state 1 [] ?a 1 SyncPending 110 None)"
    using addr_string_nonempty by (simp add: sample_withdrawn sample_desired)
  have 5: "net_step net_cfg (DeviceReconciled (reconcile_env_at 111) ''d'') (net_sample (sample_router 2 110 []) (sample_state 1 [] ?a 1 SyncPending 110 None))
      = net_sample (sample_router 2 110 []) (sample_state 1 [] ?a 1 SyncGracePeriod 111 (Some 121))"
    using addr_string_nonempty
    by (simp add: reconcile_at sample_found Let_def in_grace_def)
      (simp add: net_sample_def reconcile_env_at_def net_cfg_def sample_state_def file_of_def store_device_def file_save_def Let_def)
  show ?thesis
    by (simp only: net_sample_ops_def fold_simps comp_apply id_apply 1 2 3 4 5)
qed




lemma start_ok: "net_ok net_start" "all_grace_ok net_start"
  by (simp_all add: net_ok_def all_grace_ok_def dev.keyed_def net_start_def file_get_def)

theorem revisions_kept_witness:
  "not_behind (net_run net_cfg net_sample_ops net_start) (net_run net_cfg net_sample_ops (net_run net_cfg net_sample_ops net_start)) ''d''
   \<and> file_get (ns_devices (net_run net_cfg net_sample_ops net_start)) ''d'' \<noteq> None"
  using revisions_kept [of "net_run net_cfg net_sample_ops net_start" net_cfg net_sample_ops "''d''"]
    net_run_ok [OF start_ok, of net_cfg net_sample_ops]
  by (simp add: sample_run)

definition sample_waiting :: net_server where
  "sample_waiting = sample_home 100 (sample_state 1 (addr_string sample_addr) [] 0 SyncPending 101 None)"

definition sample_syncing :: DeviceIPv6State where
  "sample_syncing = sample_state 1 (addr_string sample_addr) [] 0 Syncing 101 None"

lemma sample_begun:
  "begin_reconcile net_cfg file_get store_device (\<lambda>n. active_prefixes_of sample_waiting n (rv_Now (reconcile_env_at 102))) True 102 ''d''
     (ns_devices sample_waiting) = (file_of ''d'' sample_syncing, Upserting sample_syncing ''d.example.org'' sample_addr)"
  using addr_string_nonempty
  by (simp add: begin_choice sample_found sample_waiting_def publishing_def store_file_of)
    (simp add: sample_syncing_def sample_state_def file_of_def store_device_def file_save_def Let_def)

lemma waiting_answer:
  "fst (snd (putDeviceNetworkState (net_env_at 103) ''d'' (sample_report 2) (sample_waiting\<lparr>ns_devices := file_of ''d'' sample_syncing\<rparr>)))
    = NetAccepted 2 False Syncing (addr_string sample_addr)"
proof -
  let ?a = "addr_string sample_addr"
  have "UpdateReportedAddresses file_get store_device True 103 ''d'' ''home'' 2 100 [plain_address ?a] (file_of ''d'' sample_syncing)
      = (file_of ''d'' (sample_state 2 ?a [] 0 Syncing 101 None), Inr (sample_state 2 ?a [] 0 Syncing 101 None, False))"
    by (simp add: UpdateReportedAddresses_def net_samples sample_syncing_def AddressesEqual_def same_report_def)
  then show ?thesis
    using addr_string_nonempty
    by (simp add: putDeviceNetworkState_def sample_report_def observed_at_def is_zero_time_def net_env_at_def report_mac_def trim_d trim_empty Let_def)
      (simp flip: net_env_at_def add: sample_desired store_file_of sample_waiting_def Let_def)
qed


theorem reconcile_overwrites_report_witness:
  "\<exists>s1 started. putDeviceNetworkState (net_env_at 103) ''d'' (sample_report 2) (sample_waiting\<lparr>ns_devices := file_of ''d'' sample_syncing\<rparr>)
      = (s1, NetAccepted 2 False Syncing (addr_string sample_addr), started)
    \<and> (\<exists>new. file_get (ns_devices s1) ''d'' = Some new \<and> ds_Revision new = 2)
    \<and> (\<exists>back0. file_get (end_reconcile store_device True 104 None (Upserting sample_syncing ''d.example.org'' sample_addr) (ns_devices s1)) ''d''
         = Some back0 \<and> ds_Revision back0 = 1)"
proof -
  obtain s1 started where put: "putDeviceNetworkState (net_env_at 103) ''d'' (sample_report 2) (sample_waiting\<lparr>ns_devices := file_of ''d'' sample_syncing\<rparr>)
      = (s1, NetAccepted 2 False Syncing (addr_string sample_addr), started)"
    using waiting_answer by (metis prod.collapse)
  have "net_ok sample_waiting" by (simp add: net_ok_def sample_waiting_def file_of_def dev.keyed_def file_get_def)
  moreover have "file_get (ns_devices sample_waiting) ''d'' = Some (sample_state 1 (addr_string sample_addr) [] 0 SyncPending 101 None)"
    by (simp add: sample_waiting_def)
  ultimately show ?thesis
    using reconcile_overwrites_report [OF _ sample_begun put, of _ 104 None] put by auto
qed

theorem published_in_active_prefix_witness:
  "in_live_prefix (sample_router 1 100 [prefix_string sample_prefix]) 102 (minutes 15) sample_addr"
proof -
  have "reconcile net_cfg (reconcile_env_at 102) ''d'' sample_waiting
    = (file_of ''d'' (sample_state 1 (addr_string sample_addr) (addr_string sample_addr) 1 SyncSynced 103 None),
       Upserting sample_syncing ''d.example.org'' sample_addr)"
    by (simp add: sample_waiting_def sample_published sample_syncing_def)
  from published_in_active_prefix [OF this] show ?thesis
    by (auto simp: sample_waiting_def net_cfg_def network_of_def reconcile_env_at_def stale_ttl_def)
qed

theorem applied_address_kept_witness:
  "reconcile net_cfg (reconcile_env_at 104) ''d'' (sample_home 100 (sample_state 1 (addr_string sample_addr) (addr_string sample_addr) 1 SyncSynced 103 None))
    = (file_of ''d'' (sample_state 1 (addr_string sample_addr) (addr_string sample_addr) 1 SyncSynced 103 None), ReconcileDone)"
proof -
  let ?s = "sample_home 100 (sample_state 1 (addr_string sample_addr) (addr_string sample_addr) 1 SyncSynced 103 None)"
  have c: "choice_at net_cfg (reconcile_env_at 104) ''d'' ?s =
      Some (sample_state 1 (addr_string sample_addr) (addr_string sample_addr) 1 SyncSynced 103 None, ''d.example.org'', [sample_prefix], Some sample_addr)"
    by (rule sample_choice) simp
  from applied_address_kept [OF c _ sample_addr_def sample_usable(2), of "plain_address (addr_string sample_addr)" sample_prefix]
  show ?thesis by (simp add: plain_address_def sample_text sample_masked)
qed

text \<open>The address again, valid until 1000.\<close>

lemma renewed_normalized:
  "NormalizeAndFilterCandidates [(plain_address (addr_string sample_addr))\<lparr>ra_ValidUntil := Some 1000\<rparr>] 100
    = [(plain_address (addr_string sample_addr))\<lparr>ra_ValidUntil := Some 1000\<rparr>]"
  by (simp add: NormalizeAndFilterCandidates_def candidate_entries_Cons candidate_of_def IsValidCandidate_def plain_address_def
      ended_def is_zero_time_def sample_text sample_usable)

theorem renewed_validity_unchanged_witness:
  "UpdateReportedAddresses file_get store_device True 104 ''d'' ''home'' 1 100
      [(plain_address (addr_string sample_addr))\<lparr>ra_ValidUntil := Some 1000\<rparr>] (file_of ''d'' sample_syncing)
    = (file_of ''d'' sample_syncing, Inr (sample_syncing, False))"
  using renewed_validity_unchanged [of "file_of ''d'' sample_syncing" "''d''" sample_syncing _ 100 "\<lambda>r. Some 1000" 1,
      OF get_file_of]
  by (simp add: renewed_normalized sample_syncing_def)

end
