(* ===== verification/ServerNet.thy ===== *)
theory ServerNet
  imports NetStates
begin

text \<open>
  The names of the server itself, \<open>internal/servernetwork\<close>: the choice of its address (\<open>collector.go\<close>), the
  state of the records it manages and their files (\<open>state.go\<close>), and the coordinator that publishes a new
  address after it was seen twice, checks what the DNS provider then answers and retries (\<open>coordinator.go\<close>).
  What the operating system and the provider answer are arguments. Every method runs under the mutex of the
  coordinator.
\<close>

section \<open>The address of the server\<close>

record Detection =
  de_Interface :: string
  de_Gateway :: string
  de_Address :: addr

datatype detect_error =
    NoResolver | RouteFailed string | ErrUnsupportedRouteInterface string | ProviderFailed string string
  | ErrNoValidAddress | InvalidCandidate string

text \<open>\<open>Error()\<close> of what \<open>Detect\<close> returns.\<close>

definition detect_error_text :: "detect_error \<Rightarrow> string" where
  "detect_error_text e = (case e of
      NoResolver \<Rightarrow> ''default ipv6 route resolver is not configured''
    | RouteFailed m \<Rightarrow> ''resolve default ipv6 route: '' @ m
    | ErrUnsupportedRouteInterface i \<Rightarrow> ''default ipv6 route uses an unsupported virtual interface: '' @ i
    | ProviderFailed i m \<Rightarrow> ''provider get addresses for '' @ i @ '': '' @ m
    | ErrNoValidAddress \<Rightarrow> ''no valid global unicast ipv6 address found on interface''
    | InvalidCandidate m \<Rightarrow> ''invalid candidate address format '' @ m)"

record Collector =
  cl_iface :: string
  cl_resolver :: bool

text \<open>What the route resolver and the interfaces answer; an error is its text.\<close>

record collect_env =
  ce_Now :: time
  ce_Route :: "string + string \<times> string"
  ce_Addresses :: "string \<Rightarrow> string + ReportedIPv6Address list"

definition equal_fold :: "string \<Rightarrow> string \<Rightarrow> bool" where
  "equal_fold a b \<longleftrightarrow> to_lower a = to_lower b"

definition detect_interface :: "Collector \<Rightarrow> collect_env \<Rightarrow> detect_error + string \<times> string" where
  "detect_interface c env =
     (if cl_iface c \<noteq> [] then Inr (cl_iface c, [])
      else if \<not> cl_resolver c then Inl NoResolver
      else (case ce_Route env of
          Inl e \<Rightarrow> Inl (RouteFailed e)
        | Inr (iface, gw) \<Rightarrow>
            (let i = trim_space iface in
             if IsVirtualInterface i then Inl (ErrUnsupportedRouteInterface i) else Inr (i, trim_space gw))))"

text \<open>\<open>confirmed\<close> is \<open>None\<close> for the zero address.\<close>

definition Detect :: "Collector \<Rightarrow> collect_env \<Rightarrow> addr option \<Rightarrow> detect_error + Detection" where
  "Detect c env confirmed = (case detect_interface c env of
      Inl e \<Rightarrow> Inl e
    | Inr (iface, gw) \<Rightarrow> (case ce_Addresses env iface of
        Inl e \<Rightarrow> Inl (ProviderFailed iface e)
      | Inr raw \<Rightarrow>
          (let valid = NormalizeAndFilterCandidates raw (ce_Now env);
               found = (\<lambda>a. Inr \<lparr>de_Interface = iface, de_Gateway = gw, de_Address = a\<rparr>);
               best = (case SortAddresses valid of
                   [] \<Rightarrow> Inl ErrNoValidAddress
                 | r # _ \<Rightarrow> (case ParseAddr (trim_space (ra_Address r)) of
                     None \<Rightarrow> Inl (InvalidCandidate (ra_Address r))
                   | Some a \<Rightarrow> found a)) in
           case confirmed of
             None \<Rightarrow> best
           | Some a \<Rightarrow>
               if valid \<noteq> [] \<and> Is6 a \<and> \<not> Is4In6 a \<and> list_ex (\<lambda>r. equal_fold (ra_Address r) (addr_string a)) valid then found a
               else best)))"

section \<open>Records and their files\<close>

datatype RecordStatus =
    StatusDisabled | StatusBlocked | StatusWaitingAddress | StatusRecordPending | StatusSyncing | StatusVerifying
  | StatusRecordSynced | StatusRecordFailed | StatusOther string

record RecordState =
  sr_Record :: string
  sr_ConfigVersion :: int
  sr_DesiredAddress :: string
  sr_DesiredVersion :: int
  sr_ConfirmedAddress :: string
  sr_ConfirmedVersion :: int
  sr_Status :: RecordStatus
  sr_LastSuccess :: "time option"
  sr_LastError :: string
  sr_NextRetry :: "time option"
  sr_RetryCount :: int
  sr_UpdatedAt :: time

type_synonym records = "(string, RecordState) gomap"

definition blank_record :: "string \<Rightarrow> int \<Rightarrow> RecordState" where
  "blank_record rec version = \<lparr>sr_Record = rec, sr_ConfigVersion = version, sr_DesiredAddress = [], sr_DesiredVersion = 0,
     sr_ConfirmedAddress = [], sr_ConfirmedVersion = 0, sr_Status = StatusOther [], sr_LastSuccess = None, sr_LastError = [],
     sr_NextRetry = None, sr_RetryCount = 0, sr_UpdatedAt = 0\<rparr>"

datatype 'a json_file = NoJson | JsonUnreadable | JsonCorrupt | JsonData 'a

record PersistedConfig =
  pc_Enabled :: bool
  pc_Records :: "string list"
  pc_Version :: int

record FileStateStore =
  st_state :: "records option json_file"
  st_config :: "PersistedConfig json_file"

text \<open>A corrupt file of states is an empty one; a corrupt configuration is an error.\<close>

definition load_records :: "FileStateStore \<Rightarrow> records option" where
  "load_records s = (case st_state s of
      NoJson \<Rightarrow> Some []
    | JsonUnreadable \<Rightarrow> None
    | JsonCorrupt \<Rightarrow> Some []
    | JsonData None \<Rightarrow> Some []
    | JsonData (Some m) \<Rightarrow> Some m)"

definition save_records :: "bool \<Rightarrow> records \<Rightarrow> FileStateStore \<Rightarrow> FileStateStore" where
  "save_records ok m s = (if ok then s\<lparr>st_state := JsonData (Some m)\<rparr> else s)"

definition LoadConfig :: "FileStateStore \<Rightarrow> PersistedConfig option option" where
  "LoadConfig s = (case st_config s of
      NoJson \<Rightarrow> Some None
    | JsonData c \<Rightarrow> Some (Some c)
    | _ \<Rightarrow> None)"

definition SaveConfig :: "bool \<Rightarrow> PersistedConfig \<Rightarrow> FileStateStore \<Rightarrow> FileStateStore \<times> bool" where
  "SaveConfig ok c s = (if ok then s\<lparr>st_config := JsonData c\<rparr> else s, ok)"

section \<open>The coordinator\<close>

record NetConfig =
  cn_Enabled :: bool
  cn_Interface :: string
  cn_Records :: "string list"
  cn_Version :: int
  cn_Interval :: duration
  cn_Debounce :: duration
  cn_MaxBackoff :: duration
  cn_TTL :: int

record Coordinator =
  co_cfg :: NetConfig
  co_collector :: Collector
  co_store :: FileStateStore
  co_pending :: "(Detection \<times> time) option"

datatype net_config_error = RecordsEmpty | RecordConflict string | ErrConfigConflict | ConfigNotSaved

fun normal_records :: "(string \<Rightarrow> string) \<Rightarrow> string list \<Rightarrow> string list \<Rightarrow> string list" where
  "normal_records f [] seen = []"
| "normal_records f (r # rs) seen =
     (let rec = f r in
      if rec \<noteq> [] \<and> rec \<notin> set seen then rec # normal_records f rs (rec # seen) else normal_records f rs seen)"

definition net_defaults :: "NetConfig \<Rightarrow> NetConfig" where
  "net_defaults cfg = cfg\<lparr>
     cn_Interval := (if cn_Interval cfg \<le> 0 then seconds 30 else cn_Interval cfg),
     cn_Debounce := (if cn_Debounce cfg \<le> 0 then seconds 3 else cn_Debounce cfg),
     cn_MaxBackoff := (if cn_MaxBackoff cfg \<le> 0 then seconds 60 else cn_MaxBackoff cfg),
     cn_TTL := (if cn_TTL cfg \<le> 0 then 300 else cn_TTL cfg),
     cn_Records := go_sort (<) (normal_records (trim_space \<circ> to_lower) (cn_Records cfg) [])\<rparr>"

text \<open>\<open>conflict\<close> is the \<open>ConflictChecker\<close>.\<close>

definition check_net_config :: "(string list \<Rightarrow> string option) \<Rightarrow> NetConfig \<Rightarrow> net_config_error option" where
  "check_net_config conflict cfg =
     (if \<not> cn_Enabled cfg then None
      else if cn_Records cfg = [] then Some RecordsEmpty
      else map_option RecordConflict (conflict (cn_Records cfg)))"

definition NewCoordinator ::
  "(string list \<Rightarrow> string option) \<Rightarrow> NetConfig \<Rightarrow> Collector \<Rightarrow> FileStateStore \<Rightarrow> net_config_error + Coordinator" where
  "NewCoordinator conflict cfg0 collector store =
     (let cfg1 = net_defaults cfg0; cfg = cfg1\<lparr>cn_Version := (if cn_Version cfg1 \<le> 0 then 1 else cn_Version cfg1)\<rparr> in
      case check_net_config conflict cfg of
        Some e \<Rightarrow> Inl e
      | None \<Rightarrow> Inr \<lparr>co_cfg = cfg, co_collector = collector, co_store = store, co_pending = None\<rparr>)"

text \<open>
  The power is a \<open>float64\<close>, exact for three times a power of two; its conversion to 64 bits is exact below
  two to the 63rd and up to the processor above (\<open>wide\<close>). The product with a second wraps around.
\<close>

definition calculateBackoff :: "int \<Rightarrow> duration \<Rightarrow> int \<Rightarrow> duration" where
  "calculateBackoff wide maximum n =
     (let base = 3 * 2 ^ nat ((if n \<le> 0 then 1 else n) - 1);
          b = wrap64 (seconds (if base < 2 ^ 63 then base else wide)) in
      if b > maximum then maximum else b)"

text \<open>
  What a reconciliation meets: for each record the answers of the provider to its three calls and the outcomes
  of its three writes.
\<close>

record sync_env =
  se_Now :: time
  se_Collect :: collect_env
  se_Check :: "string \<Rightarrow> string + addr list"
  se_Upsert :: "string \<Rightarrow> string option"
  se_Verify :: "string \<Rightarrow> string + addr list"
  se_SaveAll :: bool
  se_Saved :: "string \<Rightarrow> bool \<times> bool \<times> bool"
  se_Wide :: int

definition record_in :: "records \<Rightarrow> string \<Rightarrow> int \<Rightarrow> RecordState" where
  "record_in m rec version = (case gget m rec of Some r \<Rightarrow> r | None \<Rightarrow> blank_record rec version)"

definition mark_records :: "(RecordState \<Rightarrow> RecordState) \<Rightarrow> string list \<Rightarrow> records \<Rightarrow> records" where
  "mark_records f recs m = fold (\<lambda>rec m. gput rec (f (record_in m rec 0)) m) recs m"

text \<open>The first confirmed address that can be read.\<close>

definition first_confirmed :: "records \<Rightarrow> string list \<Rightarrow> addr option" where
  "first_confirmed m recs =
     (case List.map_filter (\<lambda>rec. case gget m rec of
          None \<Rightarrow> None
        | Some r \<Rightarrow> if sr_ConfirmedAddress r = [] then None else ParseAddr (sr_ConfirmedAddress r)) recs of
        [] \<Rightarrow> None | a # _ \<Rightarrow> Some a)"

definition retry_later :: "int \<Rightarrow> duration \<Rightarrow> time \<Rightarrow> string \<Rightarrow> RecordState \<Rightarrow> RecordState" where
  "retry_later wide maximum now e r =
     (let n = sr_RetryCount r + 1 in
      r\<lparr>sr_Status := StatusRecordFailed, sr_LastError := e, sr_RetryCount := n,
        sr_NextRetry := Some (now + calculateBackoff wide maximum n), sr_UpdatedAt := now\<rparr>)"

definition backing_off :: "time \<Rightarrow> string \<Rightarrow> RecordState \<Rightarrow> bool" where
  "backing_off now desired r \<longleftrightarrow> (case sr_NextRetry r of None \<Rightarrow> False | Some t \<Rightarrow> now < t)
     \<and> sr_Status r = StatusRecordFailed \<and> sr_DesiredAddress r = desired"

definition needs_sync :: "sync_env \<Rightarrow> addr \<Rightarrow> string \<Rightarrow> RecordState \<Rightarrow> bool" where
  "needs_sync env ip rec r \<longleftrightarrow> sr_ConfirmedAddress r \<noteq> addr_string ip \<or> sr_Status r \<noteq> StatusRecordSynced
     \<or> (case se_Check env rec of Inr as \<Rightarrow> ip \<notin> set as | Inl e \<Rightarrow> False)"

definition verify_error :: "string + addr list \<Rightarrow> addr \<Rightarrow> string option" where
  "verify_error answer ip = (case answer of
      Inl e \<Rightarrow> Some (''dns query error: '' @ e)
    | Inr as \<Rightarrow> if ip \<in> set as then None
        else Some ''dns record verification failed: desired address not returned by provider'')"

text \<open>One record: the third component collects the addresses given to the provider.\<close>

definition sync_record ::
  "NetConfig \<Rightarrow> sync_env \<Rightarrow> addr \<Rightarrow> string \<Rightarrow> records \<times> FileStateStore \<times> (string \<times> addr \<times> int) list
     \<Rightarrow> records \<times> FileStateStore \<times> (string \<times> addr \<times> int) list" where
  "sync_record cfg env ip rec = (\<lambda>(m0, s0, calls).
     (let now = se_Now env; desired = addr_string ip; r = record_in m0 rec 1; m1 = gput rec r m0 in
      if backing_off now desired r \<or> \<not> needs_sync env ip rec r then (m1, s0, calls)
      else
        (let r1 = (if sr_DesiredAddress r \<noteq> desired
                   then r\<lparr>sr_DesiredAddress := desired, sr_DesiredVersion := sr_DesiredVersion r + 1\<rparr> else r);
             r2 = r1\<lparr>sr_Status := StatusSyncing, sr_UpdatedAt := now\<rparr>;
             (ok0, ok1, ok2) = se_Saved env rec;
             m2 = gput rec r2 m1; s2 = save_records ok0 m2 s0;
             calls2 = calls @ [(rec, ip, cn_TTL cfg)] in
         case se_Upsert env rec of
           Some e \<Rightarrow>
             (let m3 = gput rec (retry_later (se_Wide env) (cn_MaxBackoff cfg) now e r2) m2 in
              (m3, save_records ok1 m3 s2, calls2))
         | None \<Rightarrow>
             (let r3 = r2\<lparr>sr_Status := StatusVerifying\<rparr>; m3 = gput rec r3 m2; s3 = save_records ok1 m3 s2;
                  m4 = gput rec (case verify_error (se_Verify env rec) ip of
                      Some e \<Rightarrow> retry_later (se_Wide env) (cn_MaxBackoff cfg) now e r3
                    | None \<Rightarrow> r3\<lparr>sr_Status := StatusRecordSynced, sr_ConfirmedAddress := desired,
                        sr_ConfirmedVersion := sr_DesiredVersion r3, sr_LastSuccess := Some now, sr_LastError := [],
                        sr_RetryCount := 0, sr_NextRetry := None\<rparr>) m3 in
              (m4, save_records ok2 m4 s3, calls2)))))"

definition sync_records ::
  "NetConfig \<Rightarrow> sync_env \<Rightarrow> addr \<Rightarrow> records \<Rightarrow> FileStateStore \<Rightarrow> FileStateStore \<times> (string \<times> addr \<times> int) list" where
  "sync_records cfg env ip m s = (case fold (sync_record cfg env ip) (cn_Records cfg) (m, s, []) of (m1, s1, calls) \<Rightarrow> (s1, calls))"

text \<open>The result tells whether an error was returned, and the addresses given to the provider.\<close>

definition Reconcile :: "sync_env \<Rightarrow> Coordinator \<Rightarrow> Coordinator \<times> bool \<times> (string \<times> addr \<times> int) list" where
  "Reconcile env c =
     (let cfg = co_cfg c; now = se_Now env; ok = se_SaveAll env; s = co_store c in
      case load_records s of
        None \<Rightarrow> (c, True, [])
      | Some m \<Rightarrow>
        if \<not> cn_Enabled cfg then
          (c\<lparr>co_store := save_records ok
               (mark_records (\<lambda>r. r\<lparr>sr_Status := StatusDisabled, sr_UpdatedAt := now\<rparr>) (cn_Records cfg) m) s\<rparr>, False, [])
        else
          (let confirmed = first_confirmed m (cn_Records cfg) in
           case Detect (co_collector c) (se_Collect env) confirmed of
             Inl e \<Rightarrow>
               (c\<lparr>co_store := save_records ok
                   (mark_records (\<lambda>r. r\<lparr>sr_Status := StatusWaitingAddress, sr_LastError := detect_error_text e,
                       sr_UpdatedAt := now\<rparr>) (cn_Records cfg) m) s\<rparr>, False, [])
           | Inr d \<Rightarrow>
               (let ip = de_Address d; c1 = c\<lparr>co_cfg := cfg\<lparr>cn_Interface := de_Interface d\<rparr>\<rparr>;
                    changed = (case confirmed of None \<Rightarrow> False | Some a \<Rightarrow> a \<noteq> ip) in
                if changed \<and> map_option fst (co_pending c) \<noteq> Some d then
                  (c1\<lparr>co_pending := Some (d, now), co_store := save_records ok
                      (mark_records (\<lambda>r. r\<lparr>sr_Status := StatusRecordPending, sr_DesiredAddress := addr_string ip,
                          sr_UpdatedAt := now\<rparr>) (cn_Records cfg) m) s\<rparr>, \<not> ok, [])
                else if changed \<and> (case co_pending c of None \<Rightarrow> False | Some (d, since) \<Rightarrow> time_sub now since < cn_Debounce cfg)
                then (c1, False, [])
                else (case sync_records (co_cfg c1) env ip m s of
                    (s1, calls) \<Rightarrow> (c1\<lparr>co_pending := None, co_store := s1\<rparr>, False, calls)))))"

record StatusView =
  sv_Enabled :: bool
  sv_Interface :: string
  sv_Records :: "string list"
  sv_Status :: RecordStatus
  sv_CurrentAddress :: string
  sv_ConfigVersion :: int
  sv_LastSuccess :: "time option"
  sv_LastError :: string

definition priority :: "RecordStatus \<Rightarrow> nat" where
  "priority st = (case st of StatusRecordSynced \<Rightarrow> 1 | StatusRecordPending \<Rightarrow> 2 | StatusSyncing \<Rightarrow> 3 | StatusVerifying \<Rightarrow> 4
     | StatusWaitingAddress \<Rightarrow> 5 | StatusRecordFailed \<Rightarrow> 6 | StatusBlocked \<Rightarrow> 7 | _ \<Rightarrow> 0)"

definition view_record :: "RecordState \<Rightarrow> StatusView \<Rightarrow> StatusView" where
  "view_record r v = v\<lparr>
     sv_Status := (if priority (sr_Status r) \<ge> priority (sv_Status v) then sr_Status r else sv_Status v),
     sv_CurrentAddress := (if sr_ConfirmedAddress r = [] then sr_DesiredAddress r else sr_ConfirmedAddress r),
     sv_LastSuccess := sr_LastSuccess r, sv_LastError := sr_LastError r\<rparr>"

definition GetStatus :: "Coordinator \<Rightarrow> StatusView" where
  "GetStatus c =
     (let cfg = co_cfg c;
          v = \<lparr>sv_Enabled = cn_Enabled cfg, sv_Interface = cn_Interface cfg, sv_Records = cn_Records cfg,
               sv_Status = StatusDisabled, sv_CurrentAddress = [], sv_ConfigVersion = cn_Version cfg,
               sv_LastSuccess = None, sv_LastError = []\<rparr> in
      if \<not> cn_Enabled cfg then v
      else (case load_records (co_store c) of
          None \<Rightarrow> v\<lparr>sv_Status := StatusRecordPending\<rparr>
        | Some m \<Rightarrow>
            if m = [] then v\<lparr>sv_Status := StatusRecordPending\<rparr>
            else fold (\<lambda>rec v. case gget m rec of None \<Rightarrow> v | Some r \<Rightarrow> view_record r v) (cn_Records cfg) v))"

definition UpdateConfig ::
  "(string list \<Rightarrow> string option) \<Rightarrow> bool \<Rightarrow> sync_env \<Rightarrow> NetConfig \<Rightarrow> Coordinator
     \<Rightarrow> Coordinator \<times> net_config_error option \<times> bool \<times> (string \<times> addr \<times> int) list" where
  "UpdateConfig conflict ok env new0 c =
     (let new = net_defaults new0; cfg = co_cfg c in
      case check_net_config conflict new of
        Some e \<Rightarrow> (c, Some e, False, [])
      | None \<Rightarrow>
        if cn_Version new > 0 \<and> cn_Version new \<noteq> cn_Version cfg then (c, Some ErrConfigConflict, False, [])
        else
          (let v = cn_Version cfg + 1;
               (s1, saved) = SaveConfig ok \<lparr>pc_Enabled = cn_Enabled new, pc_Records = cn_Records new, pc_Version = v\<rparr> (co_store c) in
           if \<not> saved then (c, Some ConfigNotSaved, False, [])
           else
             (case Reconcile env (c\<lparr>co_store := s1,
                  co_cfg := cfg\<lparr>cn_Enabled := cn_Enabled new, cn_Records := cn_Records new, cn_Version := v\<rparr>\<rparr>) of
                (c1, failed, calls) \<Rightarrow> (c1, None, failed, calls))))"

definition DetectNetwork :: "collect_env \<Rightarrow> Coordinator \<Rightarrow> detect_error + Detection" where
  "DetectNetwork env c = Detect (co_collector c) env None"

text \<open>\<open>read\<close> is what the provider answers for a record.\<close>

definition ValidateRecords ::
  "(string list \<Rightarrow> string option) \<Rightarrow> (string \<Rightarrow> string + addr list) \<Rightarrow> string list \<Rightarrow> string option" where
  "ValidateRecords conflict read recs = (case conflict recs of
      Some e \<Rightarrow> Some e
    | None \<Rightarrow> (case List.map_filter (\<lambda>rec. case read rec of Inr as \<Rightarrow> None | Inl e \<Rightarrow> Some (''read dns record '' @ rec @ '': '' @ e)) recs of
        [] \<Rightarrow> None | e # _ \<Rightarrow> Some e))"

end
