(* ===== verification/ServerNetHandlers.thy ===== *)
theory ServerNetHandlers
  imports ServerNet NetIP
begin

text \<open>
  The handlers of \<open>internal/api/api.go\<close> for the names of the server: \<open>getServerNetworkCandidates\<close> detects the
  address, \<open>validateServerNetwork\<close> checks records against a detection and gives a token for them, and
  \<open>putServerNetwork\<close> changes the configuration, which needs such a token to enable the updates. The random
  identifiers and SHA-256 are arguments; a request is its decoded body with its \<open>Authorization\<close> header. A call is one
  step, although the source gives its mutex up between the look at a detection and the store of the token.
\<close>

record net_detection =
  nd_Result :: Detection
  nd_ConfigVersion :: int
  nd_ExpiresAt :: time

record validation_token =
  vt_Digest :: string
  vt_ConfigVersion :: int
  vt_Interface :: string
  vt_Address :: string
  vt_ExpiresAt :: time
  vt_Owner :: string

record net_admin =
  na_coordinator :: Coordinator
  na_detections :: "(string, net_detection) gomap"
  na_tokens :: "(string, validation_token) gomap"

definition normalizeServerNetworkRecords :: "string list \<Rightarrow> string list" where
  "normalizeServerNetworkRecords recs = go_sort (<) (normal_records (to_lower \<circ> trim_space) recs [])"

definition NUL :: char where
  "NUL = char_of (0 :: nat)"

fun join_records :: "string list \<Rightarrow> string" where
  "join_records [] = []"
| "join_records [x] = x"
| "join_records (x # xs) = x @ newline # join_records xs"

definition digest_text :: "string list \<Rightarrow> int \<Rightarrow> string \<Rightarrow> string \<Rightarrow> string \<Rightarrow> string" where
  "digest_text recs version iface addr authorization =
     join_records (normalizeServerNetworkRecords recs) @ NUL # int_text version @ NUL # iface @ NUL # addr @ NUL # authorization"

definition serverNetworkDigest :: "(string \<Rightarrow> string) \<Rightarrow> string list \<Rightarrow> int \<Rightarrow> string \<Rightarrow> string \<Rightarrow> string \<Rightarrow> string" where
  "serverNetworkDigest sha recs version iface addr authorization = sha (digest_text recs version iface addr authorization)"

text \<open>
  What a call meets: the clock, the answers of the operating system and the provider, the identifier \<open>randomOpaqueToken\<close>
  returns (or its failure), and what a reconciliation meets.
\<close>

record admin_env =
  ae_Now :: time
  ae_Collect :: collect_env
  ae_Read :: "string \<Rightarrow> string + addr list"
  ae_Conflict :: "string list \<Rightarrow> string option"
  ae_Token :: "string option"
  ae_ConfigOK :: bool
  ae_Sync :: sync_env

datatype admin_answer =
  CandidatesError string string
| CandidatesReady string time Detection "(string \<times> string) list"
| Invalid string
| TooManyValidations
| ValidationUnavailable
| Valid string time string
| RecordsMissing
| ValidationRequired
| StaleValidation
| InterfaceReadOnly
| ConfigConflict
| UpdateFailed "net_config_error option"
| Updated StatusView

definition candidates_status :: "detect_error \<Rightarrow> string" where
  "candidates_status e = (case e of
      ErrNoValidAddress \<Rightarrow> ''no_address''
    | ErrUnsupportedRouteInterface i \<Rightarrow> ''unsupported_route_interface''
    | _ \<Rightarrow> ''error'')"

text \<open>The records in force, and the name in the public address of the server (\<open>host\<close>, as the URL parser gives it).\<close>

definition record_candidates :: "string option \<Rightarrow> string list \<Rightarrow> (string \<times> string) list" where
  "record_candidates host recs =
     (let saved = normalizeServerNetworkRecords recs in
      map (\<lambda>r. (r, ''saved'')) saved @
      (case host of
         None \<Rightarrow> []
       | Some h0 \<Rightarrow>
           (let h = to_lower (trim_suffix h0 ''.'') in
            if h \<noteq> [] \<and> contains h ''.'' \<and> ParseIP h = None \<and> h \<notin> set saved then [(h, ''server_url'')] else [])))"

definition getServerNetworkCandidates :: "string option \<Rightarrow> admin_env \<Rightarrow> net_admin \<Rightarrow> net_admin \<times> admin_answer" where
  "getServerNetworkCandidates host env s =
     (case DetectNetwork (ae_Collect env) (na_coordinator s) of
        Inl e \<Rightarrow> (s, CandidatesError (candidates_status e) (detect_error_text e))
      | Inr d \<Rightarrow>
          (case ae_Token env of
             None \<Rightarrow> (s, CandidatesError ''error'' ''validation_unavailable'')
           | Some i \<Rightarrow>
               (let view = GetStatus (na_coordinator s); expires = ae_Now env + minutes 1 in
                (s\<lparr>na_detections := gput i \<lparr>nd_Result = d, nd_ConfigVersion = sv_ConfigVersion view, nd_ExpiresAt = expires\<rparr> (na_detections s)\<rparr>,
                 CandidatesReady i expires d (record_candidates host (sv_Records view))))))"

definition live_tokens :: "time \<Rightarrow> (string, validation_token) gomap \<Rightarrow> (string, validation_token) gomap" where
  "live_tokens now = gdel_if (\<lambda>k t. now > vt_ExpiresAt t)"

definition owner_tokens :: "string \<Rightarrow> (string, validation_token) gomap \<Rightarrow> nat" where
  "owner_tokens owner ts = length (filter (\<lambda>t. vt_Owner t = owner) (gvals ts))"

definition validateServerNetwork ::
  "(string \<Rightarrow> string) \<Rightarrow> admin_env \<Rightarrow> string \<Rightarrow> string \<Rightarrow> string list \<Rightarrow> net_admin \<Rightarrow> net_admin \<times> admin_answer" where
  "validateServerNetwork sha env authorization detectionID recs0 s =
     (let now = ae_Now env; recs = normalizeServerNetworkRecords recs0 in
      if recs = [] then (s, Invalid ''invalid_record'')
      else (case gget (na_detections s) detectionID of
          None \<Rightarrow> (s, Invalid ''stale_detection'')
        | Some nd \<Rightarrow>
            if now > nd_ExpiresAt nd then (s, Invalid ''stale_detection'')
            else if DetectNetwork (ae_Collect env) (na_coordinator s) \<noteq> Inr (nd_Result nd) then (s, Invalid ''stale_detection'')
            else if ValidateRecords (ae_Conflict env) (ae_Read env) recs \<noteq> None then (s, Invalid ''provider_unavailable'')
            else (case ae_Token env of
                None \<Rightarrow> (s, ValidationUnavailable)
              | Some token \<Rightarrow>
                  (let d = nd_Result nd; owner = sha authorization; live = live_tokens now (na_tokens s);
                       address = addr_string (de_Address d) in
                   if owner_tokens owner live \<ge> 10 then (s\<lparr>na_tokens := live\<rparr>, TooManyValidations)
                   else
                     (s\<lparr>na_tokens := gput token \<lparr>vt_Digest = serverNetworkDigest sha recs (nd_ConfigVersion nd) (de_Interface d) address authorization,
                          vt_ConfigVersion = nd_ConfigVersion nd, vt_Interface = de_Interface d, vt_Address = address,
                          vt_ExpiresAt = now + minutes 1, vt_Owner = owner\<rparr> live,
                        na_detections := gdel detectionID (na_detections s)\<rparr>,
                      Valid token (now + minutes 1) address)))))"

record net_request =
  nq_Enabled :: bool
  nq_Interface :: string
  nq_Records :: "string list"
  nq_ConfigVersion :: int
  nq_ValidationToken :: string
  nq_ExternalWriterConfirmed :: bool

definition empty_token :: validation_token where
  "empty_token = \<lparr>vt_Digest = [], vt_ConfigVersion = 0, vt_Interface = [], vt_Address = [], vt_ExpiresAt = 0, vt_Owner = []\<rparr>"

definition apply_config :: "admin_env \<Rightarrow> NetConfig \<Rightarrow> net_admin \<Rightarrow> net_admin \<times> admin_answer" where
  "apply_config env cfg s =
     (case UpdateConfig (ae_Conflict env) (ae_ConfigOK env) (ae_Sync env) cfg (na_coordinator s) of
        (c, Some ErrConfigConflict, _) \<Rightarrow> (s\<lparr>na_coordinator := c\<rparr>, ConfigConflict)
      | (c, Some e, _) \<Rightarrow> (s\<lparr>na_coordinator := c\<rparr>, UpdateFailed (Some e))
      | (c, None, failed, calls) \<Rightarrow>
          if failed then (s\<lparr>na_coordinator := c\<rparr>, UpdateFailed None)
          else (s\<lparr>na_coordinator := c\<rparr>, Updated (GetStatus c)))"

definition putServerNetwork ::
  "(string \<Rightarrow> string) \<Rightarrow> admin_env \<Rightarrow> string \<Rightarrow> net_request \<Rightarrow> net_admin \<Rightarrow> net_admin \<times> admin_answer" where
  "putServerNetwork sha env authorization req s =
     (let cfg0 = co_cfg (na_coordinator s);
          cfg = cfg0\<lparr>cn_Enabled := nq_Enabled req, cn_Records := normalizeServerNetworkRecords (nq_Records req),
            cn_Version := nq_ConfigVersion req\<rparr> in
      if nq_Enabled req then
        (if cn_Records cfg = [] then (s, RecordsMissing)
         else if \<not> nq_ExternalWriterConfirmed req \<or> nq_ValidationToken req = [] then (s, ValidationRequired)
         else
           (let found = gget (na_tokens s) (nq_ValidationToken req);
                token = (case found of None \<Rightarrow> empty_token | Some t \<Rightarrow> t);
                s1 = (if found = None then s else s\<lparr>na_tokens := gdel (nq_ValidationToken req) (na_tokens s)\<rparr>);
                digest = serverNetworkDigest sha (cn_Records cfg) (nq_ConfigVersion req) (vt_Interface token) (vt_Address token) authorization;
                legacy = trim_space (nq_Interface req) in
            if found = None \<or> ae_Now env > vt_ExpiresAt token \<or> vt_ConfigVersion token \<noteq> nq_ConfigVersion req
                \<or> vt_Digest token \<noteq> digest then (s1, StaleValidation)
            else if legacy \<noteq> [] \<and> legacy \<noteq> vt_Interface token then (s1, InterfaceReadOnly)
            else apply_config env cfg s1))
      else apply_config env (if nq_ConfigVersion req = 0 then cfg\<lparr>cn_Records := cn_Records cfg0, cn_Version := cn_Version cfg0\<rparr> else cfg) s)"

end
