(* ===== verification/ServerNetProps.thy ===== *)
theory ServerNetProps
  imports ServerNet NetAddrProps
begin

text \<open>
  What the coordinator of the server's names promises: a new address is published only after it was seen for the
  debounce time, an address counts as confirmed only when the provider returned it, and with a stable address and a
  provider that answers all records converge. Beside these, where it falls short: the pause between
  retries that wraps around, the version that does not follow the address, and failures that are hidden.
\<close>

section \<open>The pause between retries\<close>

lemma wrap64_mod: "wrap64 n = (n + 2 ^ 63) mod 2 ^ 64 - 2 ^ 63"
  by (simp add: wrap64_def signed_of_int signed_take_bit_eq_take_bit_shift take_bit_eq_mod)

lemma wrap64_small: "- (2 ^ 63) \<le> n \<Longrightarrow> n < 2 ^ 63 \<Longrightarrow> wrap64 n = n"
  by (simp add: wrap64_mod)

lemma wrap64_above: "2 ^ 63 \<le> n \<Longrightarrow> n < 2 ^ 64 \<Longrightarrow> wrap64 n = n - 2 ^ 64"
proof -
  assume n: "2 ^ 63 \<le> n" "n < 2 ^ 64"
  have "(n + 2 ^ 63) mod 2 ^ 64 = (n + 2 ^ 63 - 2 ^ 64) mod 2 ^ 64" by (simp only: minus_mod_self2)
  also have "\<dots> = n - 2 ^ 63" using n by (subst mod_pos_pos_trivial) simp_all
  finally show "wrap64 n = n - 2 ^ 64" by (simp add: wrap64_mod)
qed

lemma wrap64_multiple: "2 ^ 64 dvd n \<Longrightarrow> wrap64 n = 0"
  by (auto simp: wrap64_mod elim!: dvdE)

lemma wait_bound: "n \<le> 32 \<Longrightarrow> 3 * 2 ^ nat (max n 1 - 1) \<le> (3 * 2 ^ 31 :: int)"
proof -
  assume "n \<le> 32"
  then have "nat (max n 1 - 1) \<le> 31" by auto
  then have "(2 :: int) ^ nat (max n 1 - 1) \<le> 2 ^ 31" by (rule power_increasing) simp
  then show ?thesis by simp
qed

text \<open>Up to 32 failures the pause doubles from three seconds to the maximum.\<close>

theorem backoff_doubles:
  assumes "n \<le> 32"
  shows "calculateBackoff wide maximum n = min (seconds (3 * 2 ^ nat (max n 1 - 1))) maximum"
proof -
  let ?w = "3 * 2 ^ nat (max n 1 - 1) :: int"
  have w: "0 < ?w" "?w \<le> 3 * 2 ^ 31" using wait_bound [OF assms] by simp_all
  have "wrap64 (seconds w) = seconds w" if "0 < w" "w \<le> 3 * 2 ^ 31" for w
    using that unfolding seconds_def by (intro wrap64_small) simp_all
  with w have "wrap64 (seconds ?w) = seconds ?w" by blast
  moreover have "?w < 2 ^ 63" using w by simp
  moreover have "(if n \<le> 0 then 1 else n) - 1 = max n 1 - 1" by auto
  ultimately show ?thesis by (simp add: calculateBackoff_def Let_def min_def)
qed

text \<open>
  The multiplication with a second is not bounded: after 33 failures the product wraps around to a negative pause, and
  from 56 to 62 failures there is none.
\<close>

theorem backoff_lost:
  assumes "0 \<le> maximum"
  shows "calculateBackoff wide maximum 33 < 0 \<and> (\<forall>n \<in> {56..62}. calculateBackoff wide maximum n = 0)"
proof
  have "wrap64 (seconds (3 * 2 ^ 32)) = seconds (3 * 2 ^ 32) - 2 ^ 64" unfolding seconds_def by (rule wrap64_above) simp_all
  then show "calculateBackoff wide maximum 33 < 0" using assms by (simp add: calculateBackoff_def Let_def seconds_def)
  show "\<forall>n \<in> {56..62}. calculateBackoff wide maximum n = 0"
  proof
    fix n :: int assume n: "n \<in> {56..62}"
    then have k: "nat (n - 1) = 55 + nat (n - 56)" "nat (n - 56) \<le> 6" by auto
    have "(2 :: int) ^ nat (n - 56) \<le> 2 ^ 6" by (rule power_increasing) (use k in simp_all)
    then have "3 * 2 ^ nat (n - 1) < (2 ^ 63 :: int)" by (simp add: k(1) power_add)
    moreover have "seconds (3 * 2 ^ nat (n - 1)) = 2 ^ 64 * (3 * 5 ^ 9 * 2 ^ nat (n - 56))" by (simp add: seconds_def k(1) power_add)
    then have "wrap64 (seconds (3 * 2 ^ nat (n - 1))) = 0" by (intro wrap64_multiple) simp
    ultimately show "calculateBackoff wide maximum n = 0" using n assms by (simp add: calculateBackoff_def Let_def)
  qed
qed


section \<open>The files and the configuration\<close>

lemma load_save [simp]: "load_records (save_records ok m s) = (if ok then Some m else load_records s)"
  by (simp add: save_records_def load_records_def)

lemma config_save [simp]: "st_config (save_records ok m s) = st_config s"
  by (simp add: save_records_def)

text \<open>A record before the call of the provider, and after it.\<close>

definition started :: "time \<Rightarrow> string \<Rightarrow> RecordState \<Rightarrow> RecordState" where
  "started now desired r = (if sr_DesiredAddress r \<noteq> desired
     then r\<lparr>sr_DesiredAddress := desired, sr_DesiredVersion := sr_DesiredVersion r + 1\<rparr> else r)
     \<lparr>sr_Status := StatusSyncing, sr_UpdatedAt := now\<rparr>"

definition confirmed_at :: "time \<Rightarrow> string \<Rightarrow> RecordState \<Rightarrow> RecordState" where
  "confirmed_at now desired r = r\<lparr>sr_Status := StatusRecordSynced, sr_ConfirmedAddress := desired,
     sr_ConfirmedVersion := sr_DesiredVersion r, sr_LastSuccess := Some now, sr_LastError := [],
     sr_RetryCount := 0, sr_NextRetry := None\<rparr>"

definition outcome :: "NetConfig \<Rightarrow> sync_env \<Rightarrow> addr \<Rightarrow> string \<Rightarrow> RecordState \<Rightarrow> RecordState" where
  "outcome cfg env ip rec r = (case se_Upsert env rec of
      Some e \<Rightarrow> retry_later (se_Wide env) (cn_MaxBackoff cfg) (se_Now env) e r
    | None \<Rightarrow> (case verify_error (se_Verify env rec) ip of
        Some e \<Rightarrow> retry_later (se_Wide env) (cn_MaxBackoff cfg) (se_Now env) e (r\<lparr>sr_Status := StatusVerifying\<rparr>)
      | None \<Rightarrow> confirmed_at (se_Now env) (addr_string ip) (r\<lparr>sr_Status := StatusVerifying\<rparr>)))"

lemma sync_record_cases:
  fixes m0 rec
  defines "r \<equiv> record_in m0 rec 1"
  obtains (skip) "backing_off (se_Now env) (addr_string ip) r \<or> \<not> needs_sync env ip rec r"
      "sync_record cfg env ip rec (m0, s0, calls) = (gput rec r m0, s0, calls)"
  | (sync) m1 s1 r2 r1 where "\<not> backing_off (se_Now env) (addr_string ip) r" "needs_sync env ip rec r"
      "sync_record cfg env ip rec (m0, s0, calls) = (m1, s1, calls @ [(rec, ip, cn_TTL cfg)])"
      "r2 = started (se_Now env) (addr_string ip) r" "r1 = outcome cfg env ip rec r2" "gget m1 = (gget m0)(rec \<mapsto> r1)"
      "st_config s1 = st_config s0"
      "\<And>m. load_records s1 = Some m \<Longrightarrow> load_records s0 = Some m
          \<or> (\<exists>q \<in> {r2, r2\<lparr>sr_Status := StatusVerifying\<rparr>, r1}. gget m = (gget m0)(rec \<mapsto> q))"
      "se_Saved env rec = (True, True, True) \<Longrightarrow> load_records s1 = Some m1"
proof (cases "backing_off (se_Now env) (addr_string ip) r \<or> \<not> needs_sync env ip rec r")
  case True
  with that(1) show thesis by (simp add: sync_record_def Let_def r_def)
next
  case False
  define r2 where "r2 = started (se_Now env) (addr_string ip) r"
  define r3 where "r3 = r2\<lparr>sr_Status := StatusVerifying\<rparr>"
  obtain ok0 ok1 ok2 where ok: "se_Saved env rec = (ok0, ok1, ok2)" using prod_cases3 by blast
  define m2 where "m2 = gput rec r2 (gput rec r m0)"
  have eq: "sync_record cfg env ip rec (m0, s0, calls) =
      (case se_Upsert env rec of
         Some e \<Rightarrow> (let m3 = gput rec (outcome cfg env ip rec r2) m2 in
           (m3, save_records ok1 m3 (save_records ok0 m2 s0), calls @ [(rec, ip, cn_TTL cfg)]))
       | None \<Rightarrow> (let m3 = gput rec r3 m2; m4 = gput rec (outcome cfg env ip rec r2) m3 in
           (m4, save_records ok2 m4 (save_records ok1 m3 (save_records ok0 m2 s0)), calls @ [(rec, ip, cn_TTL cfg)])))"
    using False
    by (simp add: sync_record_def Let_def r_def [symmetric] ok m2_def r2_def r3_def started_def outcome_def confirmed_at_def
        split: option.split)
  show thesis
  proof (cases "se_Upsert env rec")
    case None
    show thesis
    proof (rule that(2) [OF _ _ _ r2_def refl])
      let ?m3 = "gput rec r3 m2" and ?m4 = "gput rec (outcome cfg env ip rec r2) (gput rec r3 m2)"
      show "sync_record cfg env ip rec (m0, s0, calls) =
          (?m4, save_records ok2 ?m4 (save_records ok1 ?m3 (save_records ok0 m2 s0)), calls @ [(rec, ip, cn_TTL cfg)])"
        by (simp add: eq None Let_def)
    qed (use False ok in \<open>auto simp: m2_def r3_def save_records_def load_records_def split: if_splits\<close>)
  next
    case (Some e)
    show thesis
    proof (rule that(2) [OF _ _ _ r2_def refl])
      let ?m3 = "gput rec (outcome cfg env ip rec r2) m2"
      show "sync_record cfg env ip rec (m0, s0, calls) =
          (?m3, save_records ok1 ?m3 (save_records ok0 m2 s0), calls @ [(rec, ip, cn_TTL cfg)])"
        by (simp add: eq Some Let_def)
    qed (use False ok in \<open>auto simp: m2_def save_records_def load_records_def split: if_splits\<close>)
  qed
qed

lemma sync_record_config: "st_config (fst (snd (sync_record cfg env ip rec x))) = st_config (fst (snd x))"
proof (cases x)
  case (fields m0 s0 calls)
  show ?thesis
    by (cases rule: sync_record_cases [of env ip m0 rec cfg s0 calls]) (simp_all add: fields)
qed

lemma sync_records_config: "st_config (fst (sync_records cfg env ip m s)) = st_config s"
proof -
  have "st_config (fst (snd (fold (sync_record cfg env ip) recs x))) = st_config (fst (snd x))" for recs x
    by (induction recs arbitrary: x) (simp_all add: sync_record_config)
  from this [of "cn_Records cfg" "(m, s, [])"] show ?thesis by (auto simp: sync_records_def split: prod.split)
qed

text \<open>What a reconciliation detects, and the five ways it may go.\<close>

definition sees :: "sync_env \<Rightarrow> Coordinator \<Rightarrow> Detection option" where
  "sees env c = (case load_records (co_store c) of
      None \<Rightarrow> None
    | Some m \<Rightarrow> if \<not> cn_Enabled (co_cfg c) then None
        else (case Detect (co_collector c) (se_Collect env) (first_confirmed m (cn_Records (co_cfg c))) of
            Inl e \<Rightarrow> None | Inr d \<Rightarrow> Some d))"

abbreviation on_interface :: "Detection \<Rightarrow> Coordinator \<Rightarrow> Coordinator" where
  "on_interface d c \<equiv> c\<lparr>co_cfg := (co_cfg c)\<lparr>cn_Interface := de_Interface d\<rparr>\<rparr>"

definition now_pending :: "sync_env \<Rightarrow> addr \<Rightarrow> RecordState \<Rightarrow> RecordState" where
  "now_pending env ip r = r\<lparr>sr_Status := StatusRecordPending, sr_DesiredAddress := addr_string ip, sr_UpdatedAt := se_Now env\<rparr>"

definition same_addresses :: "(RecordState \<Rightarrow> RecordState) \<Rightarrow> bool" where
  "same_addresses f \<longleftrightarrow> (\<forall>r. sr_ConfirmedAddress (f r) = sr_ConfirmedAddress r \<and> sr_DesiredVersion (f r) = sr_DesiredVersion r
     \<and> sr_ConfirmedVersion (f r) = sr_ConfirmedVersion r \<and> sr_NextRetry (f r) = sr_NextRetry r)"

lemma same_addresses_pending [simp]: "same_addresses (now_pending env ip)"
  by (simp add: same_addresses_def now_pending_def)

lemma Reconcile_cases:
  obtains (unread) "load_records (co_store c) = None" "sees env c = None" "Reconcile env c = (c, True, [])"
  | (unseen) m f where "load_records (co_store c) = Some m" "sees env c = None" "same_addresses f"
      "Reconcile env c = (c\<lparr>co_store := save_records (se_SaveAll env) (mark_records f (cn_Records (co_cfg c)) m) (co_store c)\<rparr>, False, [])"
  | (pending) m d a where "load_records (co_store c) = Some m" "sees env c = Some d"
      "first_confirmed m (cn_Records (co_cfg c)) = Some a" "a \<noteq> de_Address d" "map_option fst (co_pending c) \<noteq> Some d"
      "Reconcile env c = ((on_interface d c)\<lparr>co_pending := Some (d, se_Now env), co_store := save_records (se_SaveAll env)
          (mark_records (now_pending env (de_Address d)) (cn_Records (co_cfg c)) m) (co_store c)\<rparr>, \<not> se_SaveAll env, [])"
  | (waiting) m d a since where "load_records (co_store c) = Some m" "sees env c = Some d"
      "first_confirmed m (cn_Records (co_cfg c)) = Some a" "a \<noteq> de_Address d" "co_pending c = Some (d, since)"
      "time_sub (se_Now env) since < cn_Debounce (co_cfg c)" "Reconcile env c = (on_interface d c, False, [])"
  | (synced) m d s1 calls where "load_records (co_store c) = Some m" "sees env c = Some d"
      "\<And>a. first_confirmed m (cn_Records (co_cfg c)) = Some a \<Longrightarrow> a \<noteq> de_Address d \<Longrightarrow>
          \<exists>since. co_pending c = Some (d, since) \<and> \<not> time_sub (se_Now env) since < cn_Debounce (co_cfg c)"
      "sync_records ((co_cfg c)\<lparr>cn_Interface := de_Interface d\<rparr>) env (de_Address d) m (co_store c) = (s1, calls)"
      "Reconcile env c = ((on_interface d c)\<lparr>co_pending := None, co_store := s1\<rparr>, False, calls)"
proof (cases "load_records (co_store c)")
  case None
  with that(1) show thesis by (simp add: Reconcile_def sees_def Let_def)
next
  case (Some m)
  show thesis
  proof (cases "cn_Enabled (co_cfg c)")
    case False
    show thesis
      by (rule that(2) [OF Some, of "\<lambda>r. r\<lparr>sr_Status := StatusDisabled, sr_UpdatedAt := se_Now env\<rparr>"])
        (simp_all add: Reconcile_def sees_def Let_def Some False same_addresses_def)
  next
    case True
    let ?a = "first_confirmed m (cn_Records (co_cfg c))"
    show thesis
    proof (cases "Detect (co_collector c) (se_Collect env) ?a")
      case (Inl e)
      show thesis
        by (rule that(2) [OF Some, of "\<lambda>r. r\<lparr>sr_Status := StatusWaitingAddress, sr_LastError := detect_error_text e, sr_UpdatedAt := se_Now env\<rparr>"])
          (simp_all add: Reconcile_def sees_def Let_def Some True Inl same_addresses_def)
    next
      case (Inr d)
      then have s: "sees env c = Some d" by (simp add: sees_def Some True)
      let ?changed = "case ?a of None \<Rightarrow> False | Some a \<Rightarrow> a \<noteq> de_Address d"
      note r = Reconcile_def [of env c, unfolded Let_def Some option.case Inr sum.case]
      show thesis
      proof (cases "?changed \<and> map_option fst (co_pending c) \<noteq> Some d")
        case p: True
        then obtain a where "?a = Some a" "a \<noteq> de_Address d" by (cases ?a) auto
        moreover have "now_pending env (de_Address d) = (\<lambda>r. r\<lparr>sr_Status := StatusRecordPending,
            sr_DesiredAddress := addr_string (de_Address d), sr_UpdatedAt := se_Now env\<rparr>)" by (simp add: now_pending_def fun_eq_iff)
        ultimately show thesis using that(3) [OF Some s] p by (simp add: r True)
      next
        case np: False
        show thesis
        proof (cases "?changed \<and> (case co_pending c of None \<Rightarrow> False | Some (d, since) \<Rightarrow> time_sub (se_Now env) since < cn_Debounce (co_cfg c))")
          case w: True
          then obtain a where a: "?a = Some a" "a \<noteq> de_Address d" by (cases ?a) auto
          moreover obtain since where "co_pending c = Some (d, since)" "time_sub (se_Now env) since < cn_Debounce (co_cfg c)"
            using w np by (auto split: option.splits)
          ultimately show thesis using that(4) [OF Some s] np w by (simp add: r True)
        next
          case False
          obtain s1 calls where sr: "sync_records ((co_cfg c)\<lparr>cn_Interface := de_Interface d\<rparr>) env (de_Address d) m (co_store c) = (s1, calls)"
            by fastforce
          have "Reconcile env c = ((on_interface d c)\<lparr>co_pending := None, co_store := s1\<rparr>, False, calls)"
            using sr by (simp only: r True not_True_eq_False if_False eq_False [THEN iffD2, OF np] eq_False [THEN iffD2, OF False], simp)
          moreover have "\<exists>since. co_pending c = Some (d, since) \<and> \<not> time_sub (se_Now env) since < cn_Debounce (co_cfg c)"
            if "?a = Some a" "a \<noteq> de_Address d" for a using that np False by (auto split: option.splits)
          ultimately show thesis using that(5) [OF Some s _ sr] by blast
        qed
      qed
    qed
  qed
qed

text \<open>A reconciliation changes nothing of the configuration but the interface.\<close>

definition same_config :: "Coordinator \<Rightarrow> Coordinator \<Rightarrow> bool" where
  "same_config c c' \<longleftrightarrow> (\<exists>i. co_cfg c' = (co_cfg c)\<lparr>cn_Interface := i\<rparr>) \<and> st_config (co_store c') = st_config (co_store c)
     \<and> co_collector c' = co_collector c"

lemma same_config_refl [simp]: "same_config c (c\<lparr>co_store := save_records ok m (co_store c)\<rparr>)" "same_config c c"
  unfolding same_config_def by (auto intro: exI [of _ "cn_Interface (co_cfg c)"])

lemma Reconcile_config: "same_config c (fst (Reconcile env c))"
proof (cases rule: Reconcile_cases [of c env])
  case (synced m d s1 calls)
  from sync_records_config [of "(co_cfg c)\<lparr>cn_Interface := de_Interface d\<rparr>" env "de_Address d" m "co_store c"] synced(4,5)
  show ?thesis by (auto simp: same_config_def)
qed (simp_all, auto simp: same_config_def)

datatype coordinator_op =
  Reconciled sync_env
| Configured "string list \<Rightarrow> string option" bool sync_env NetConfig

fun coordinator_step :: "coordinator_op \<Rightarrow> Coordinator \<Rightarrow> Coordinator" where
  "coordinator_step (Reconciled env) c = fst (Reconcile env c)"
| "coordinator_step (Configured conflict ok env cfg) c = fst (UpdateConfig conflict ok env cfg c)"

abbreviation coordinator_run :: "coordinator_op list \<Rightarrow> Coordinator \<Rightarrow> Coordinator" where
  "coordinator_run \<equiv> fold coordinator_step"



text \<open>What is in force after an update, when it went through.\<close>

lemma UpdateConfig_cases:
  obtains e where "UpdateConfig conflict ok env new c = (c, Some e, False, [])"
  | c1 failed calls s1 where "UpdateConfig conflict ok env new c = (c1, None, failed, calls)"
    "check_net_config conflict (net_defaults new) = None" "cn_Version new > 0 \<longrightarrow> cn_Version new = cn_Version (co_cfg c)"
    "s1 = (co_store c)\<lparr>st_config := JsonData \<lparr>pc_Enabled = cn_Enabled new, pc_Records = cn_Records (net_defaults new),
        pc_Version = cn_Version (co_cfg c) + 1\<rparr>\<rparr>"
    "Reconcile env (c\<lparr>co_store := s1, co_cfg := (co_cfg c)\<lparr>cn_Enabled := cn_Enabled new,
        cn_Records := cn_Records (net_defaults new), cn_Version := cn_Version (co_cfg c) + 1\<rparr>\<rparr>) = (c1, failed, calls)"
proof (cases "snd (UpdateConfig conflict ok env new c)")
  case (fields e failed calls)
  let ?n = "net_defaults new"
  have n: "cn_Version ?n = cn_Version new" "cn_Enabled ?n = cn_Enabled new" by (simp_all add: net_defaults_def)
  show thesis
  proof (cases "check_net_config conflict ?n = None \<and> \<not> (cn_Version new > 0 \<and> cn_Version new \<noteq> cn_Version (co_cfg c)) \<and> ok")
    case True
    obtain c1 failed calls where
      "Reconcile env (c\<lparr>co_store := (co_store c)\<lparr>st_config := JsonData \<lparr>pc_Enabled = cn_Enabled new, pc_Records = cn_Records ?n,
          pc_Version = cn_Version (co_cfg c) + 1\<rparr>\<rparr>, co_cfg := (co_cfg c)\<lparr>cn_Enabled := cn_Enabled new,
          cn_Records := cn_Records ?n, cn_Version := cn_Version (co_cfg c) + 1\<rparr>\<rparr>) = (c1, failed, calls)"
      using prod_cases3 by blast
    with that(2) [OF _ _ _ refl, of c1 failed calls] True n show thesis by (simp add: UpdateConfig_def Let_def SaveConfig_def)
  next
    case False
    then have "\<exists>e. UpdateConfig conflict ok env new c = (c, Some e, False, [])"
      using n by (auto simp: UpdateConfig_def Let_def SaveConfig_def split: option.split)
    with that(1) show thesis by blast
  qed
qed








lemma Reconcile_version: "cn_Version (co_cfg (fst (Reconcile env c))) = cn_Version (co_cfg c)"
  using Reconcile_config [of c env] by (auto simp: same_config_def)

lemma step_version: "cn_Version (co_cfg c) \<le> cn_Version (co_cfg (coordinator_step oper c))"
proof (cases oper)
  case (Configured conflict ok env new)
  show ?thesis
  proof (cases rule: UpdateConfig_cases [of conflict ok env new c])
    case (2 c1 failed calls s1)
    have "cn_Version (co_cfg c1) = cn_Version (co_cfg c) + 1"
      using Reconcile_version [of env "c\<lparr>co_store := s1, co_cfg := (co_cfg c)\<lparr>cn_Enabled := cn_Enabled new,
          cn_Records := cn_Records (net_defaults new), cn_Version := cn_Version (co_cfg c) + 1\<rparr>\<rparr>"] 2(5) by simp
    with 2(1) Configured show ?thesis by simp
  qed (simp add: Configured)
qed (simp add: Reconcile_version)


text \<open>The reconciliation an operation runs, with the coordinator it starts from.\<close>

definition reconfigured :: "(string list \<Rightarrow> string option) \<Rightarrow> bool \<Rightarrow> NetConfig \<Rightarrow> Coordinator \<Rightarrow> Coordinator option" where
  "reconfigured conflict ok new c =
     (if check_net_config conflict (net_defaults new) = None \<and> (cn_Version new > 0 \<longrightarrow> cn_Version new = cn_Version (co_cfg c)) \<and> ok
      then Some (c\<lparr>co_store := (co_store c)\<lparr>st_config := JsonData \<lparr>pc_Enabled = cn_Enabled new,
          pc_Records = cn_Records (net_defaults new), pc_Version = cn_Version (co_cfg c) + 1\<rparr>\<rparr>,
        co_cfg := (co_cfg c)\<lparr>cn_Enabled := cn_Enabled new, cn_Records := cn_Records (net_defaults new),
          cn_Version := cn_Version (co_cfg c) + 1\<rparr>\<rparr>) else None)"

lemma UpdateConfig_reconfigured:
  "reconfigured conflict ok new c = None \<Longrightarrow> \<exists>e. UpdateConfig conflict ok env new c = (c, Some e, False, [])"
  "reconfigured conflict ok new c = Some c0 \<Longrightarrow>
    UpdateConfig conflict ok env new c = (fst (Reconcile env c0), None, snd (Reconcile env c0))"
proof -
  have n: "cn_Version (net_defaults new) = cn_Version new" "cn_Enabled (net_defaults new) = cn_Enabled new" by (simp_all add: net_defaults_def)
  show "reconfigured conflict ok new c = None \<Longrightarrow> \<exists>e. UpdateConfig conflict ok env new c = (c, Some e, False, [])"
    by (auto simp: reconfigured_def UpdateConfig_def Let_def SaveConfig_def n split: option.split if_splits)
  show "reconfigured conflict ok new c = Some c0 \<Longrightarrow>
      UpdateConfig conflict ok env new c = (fst (Reconcile env c0), None, snd (Reconcile env c0))"
    by (auto simp: reconfigured_def UpdateConfig_def Let_def SaveConfig_def n case_prod_beta split: if_splits)
qed

fun reconciles :: "coordinator_op \<Rightarrow> Coordinator \<Rightarrow> (sync_env \<times> Coordinator) option" where
  "reconciles (Reconciled env) c = Some (env, c)"
| "reconciles (Configured conflict ok env new) c = map_option (Pair env) (reconfigured conflict ok new c)"

lemma step_reconciles: "coordinator_step oper c = (case reconciles oper c of None \<Rightarrow> c | Some (env, c0) \<Rightarrow> fst (Reconcile env c0))"
proof (cases oper)
  case (Configured conflict ok env new)
  show ?thesis
  proof (cases "reconfigured conflict ok new c")
    case None
    from UpdateConfig_reconfigured(1) [OF this, of env] show ?thesis by (auto simp: Configured None)
  next
    case (Some c0)
    show ?thesis by (simp add: Configured Some UpdateConfig_reconfigured(2) [OF Some])
  qed
qed simp

lemma reconciles_pending: "reconciles oper c = Some (env, c0) \<Longrightarrow> co_pending c0 = co_pending c"
  by (cases oper) (auto simp: reconfigured_def split: if_splits)

text \<open>Every reconciliation of the operations fails to detect an address, or detects \<open>d\<close>.\<close>

fun only_sees :: "Detection \<Rightarrow> coordinator_op list \<Rightarrow> Coordinator \<Rightarrow> bool" where
  "only_sees d [] c \<longleftrightarrow> True"
| "only_sees d (oper # ops) c \<longleftrightarrow>
     (case reconciles oper c of None \<Rightarrow> True | Some (env, c0) \<Rightarrow> sees env c0 \<in> {None, Some d})
     \<and> only_sees d ops (coordinator_step oper c)"

lemma only_sees_snoc:
  "only_sees d (ops @ [oper]) c \<longleftrightarrow> only_sees d ops c
    \<and> (case reconciles oper (coordinator_run ops c) of None \<Rightarrow> True | Some (env, c0) \<Rightarrow> sees env c0 \<in> {None, Some d})"
  by (induction ops arbitrary: c) (simp_all add: conj_assoc)

lemma pending_began:
  assumes "co_pending c0 = None" "co_pending (coordinator_run ops c0) = Some (d, t)"
  shows "\<exists>before oper mid env c1. ops = before @ oper # mid \<and> reconciles oper (coordinator_run before c0) = Some (env, c1)
    \<and> sees env c1 = Some d \<and> se_Now env = t \<and> only_sees d mid (coordinator_run (before @ [oper]) c0)"
  using assms(2)
proof (induction ops rule: rev_induct)
  case Nil
  with assms(1) show ?case by simp
next
  case (snoc oper ops)
  let ?c = "coordinator_run ops c0"
  have later: ?case if "co_pending ?c = Some (d, t)"
    "case reconciles oper ?c of None \<Rightarrow> True | Some (env, c0) \<Rightarrow> sees env c0 \<in> {None, Some d}"
  proof -
    from snoc.IH [OF that(1)] obtain before o0 mid env c1 where b: "ops = before @ o0 # mid"
      "reconciles o0 (coordinator_run before c0) = Some (env, c1)" "sees env c1 = Some d" "se_Now env = t"
      "only_sees d mid (coordinator_run (before @ [o0]) c0)" by blast
    have "?c = coordinator_run mid (coordinator_run (before @ [o0]) c0)" by (simp add: b(1))
    with that(2) b(5) have "only_sees d (mid @ [oper]) (coordinator_run (before @ [o0]) c0)"
      by (simp only: only_sees_snoc simp_thms)
    with b show ?case
      by (intro exI [of _ before] exI [of _ o0] exI [of _ "mid @ [oper]"] exI [of _ env] exI [of _ c1]) simp
  qed
  show ?case
  proof (cases "reconciles oper ?c")
    case None
    then have "coordinator_step oper ?c = ?c" by (simp add: step_reconciles [of oper ?c])
    with snoc.prems None show ?thesis by (intro later) simp_all
  next
    case (Some x)
    then obtain env c1 where x: "reconciles oper ?c = Some (env, c1)" by (cases x) auto
    have "coordinator_step oper ?c = fst (Reconcile env c1)" by (simp add: step_reconciles [of oper ?c] x)
    then have p: "co_pending (fst (Reconcile env c1)) = Some (d, t)" "co_pending c1 = co_pending ?c"
      using snoc.prems reconciles_pending [OF x] by simp_all
    show ?thesis
    proof (cases rule: Reconcile_cases [of c1 env])
      case (pending m d' a)
      with p(1) have "d' = d" "se_Now env = t" by auto
      with pending(2) x show ?thesis
        by (intro exI [of _ ops] exI [of _ oper] exI [of _ "[]"] exI [of _ env] exI [of _ c1]) simp
    qed (use p later x in auto)
  qed
qed

definition calls_only :: "addr \<Rightarrow> records \<times> FileStateStore \<times> (string \<times> addr \<times> int) list \<Rightarrow> bool" where
  "calls_only ip x \<longleftrightarrow> list_all (\<lambda>(rec, a, ttl). a = ip) (snd (snd x))"

lemma sync_record_calls: "calls_only ip x \<Longrightarrow> calls_only ip (sync_record cfg env ip rec x)"
proof (cases x)
  case (fields m0 s0 calls)
  assume "calls_only ip x"
  then show ?thesis
    by (cases rule: sync_record_cases [of env ip m0 rec cfg s0 calls]) (simp_all add: fields calls_only_def)
qed

lemma calls_to:
  assumes "sync_records cfg env ip m s = (s1, calls)" "(rec, a, ttl) \<in> set calls"
  shows "a = ip"
proof -
  have "calls_only ip (fold (sync_record cfg env ip) recs x)" if "calls_only ip x" for recs x
    using that by (induction recs arbitrary: x) (simp_all add: sync_record_calls)
  from this [of "(m, s, [])" "cn_Records cfg"] have "list_all (\<lambda>(rec, a, ttl). a = ip) calls"
    using assms(1) by (simp add: calls_only_def sync_records_def split: prod.splits)
  with assms(2) show ?thesis by (auto simp: list_all_iff)
qed

text \<open>
  C35: A change of address is published only after it has been seen for the debounce time: when an address other than the
  confirmed one goes to the provider, an earlier reconciliation, at least the debounce time before, detected
  the same interface, gateway and address, and no reconciliation since then detected anything else, over
  all updates of the configuration in between.
\<close>

theorem published_after_debounce:
  assumes "co_pending c0 = None"
    and "reconciles oper (coordinator_run ops c0) = Some (env, c)" "Reconcile env c = (c', failed, calls)"
    and "load_records (co_store c) = Some m" "first_confirmed m (cn_Records (co_cfg c)) = Some a"
    and "(rec, ip, ttl) \<in> set calls" "ip \<noteq> a"
  shows "\<exists>d before oper0 mid env0 c1. ops = before @ oper0 # mid
    \<and> reconciles oper0 (coordinator_run before c0) = Some (env0, c1) \<and> sees env0 c1 = Some d \<and> sees env c = Some d
    \<and> de_Address d = ip \<and> \<not> time_sub (se_Now env) (se_Now env0) < cn_Debounce (co_cfg c)
    \<and> only_sees d mid (coordinator_run (before @ [oper0]) c0)"
proof (cases rule: Reconcile_cases [of c env])
  case (synced m' d s1 calls')
  from synced(4,5) assms(3,6) have d: "de_Address d = ip" using calls_to [OF synced(4)] by simp
  with synced(3) [of a] synced(1) assms(4,5,7) obtain since where "co_pending c = Some (d, since)"
    "\<not> time_sub (se_Now env) since < cn_Debounce (co_cfg c)" by auto
  then have "co_pending (coordinator_run ops c0) = Some (d, since)" using reconciles_pending [OF assms(2)] by simp
  from pending_began [OF assms(1) this] obtain before oper0 mid env0 c1 where "ops = before @ oper0 # mid"
    "reconciles oper0 (coordinator_run before c0) = Some (env0, c1)" "sees env0 c1 = Some d" "se_Now env0 = since"
    "only_sees d mid (coordinator_run (before @ [oper0]) c0)" by blast
  with synced(2) d \<open>\<not> time_sub (se_Now env) since < cn_Debounce (co_cfg c)\<close> show ?thesis
    by (intro exI [of _ d] exI [of _ before] exI [of _ oper0] exI [of _ mid] exI [of _ env0] exI [of _ c1]) simp
qed (use assms in auto)


section \<open>Confirmed addresses\<close>

text \<open>A confirmed address was confirmed before, or the provider returned it after it was written.\<close>

definition verified_from :: "records \<Rightarrow> sync_env \<Rightarrow> (string \<times> addr \<times> int) list \<Rightarrow> string \<Rightarrow> RecordState \<Rightarrow> bool" where
  "verified_from m env calls rec r' \<longleftrightarrow> sr_ConfirmedAddress r' = []
     \<or> (\<exists>r. gget m rec = Some r \<and> sr_ConfirmedAddress r' = sr_ConfirmedAddress r)
     \<or> (\<exists>ip ttl as. (rec, ip, ttl) \<in> set calls \<and> se_Upsert env rec = None \<and> se_Verify env rec = Inr as \<and> ip \<in> set as
         \<and> sr_ConfirmedAddress r' = addr_string ip)"

definition all_verified :: "records \<Rightarrow> sync_env \<Rightarrow> (string \<times> addr \<times> int) list \<Rightarrow> records \<Rightarrow> bool" where
  "all_verified m env calls m' \<longleftrightarrow> (\<forall>rec r'. gget m' rec = Some r' \<longrightarrow> verified_from m env calls rec r')"

lemma verified_calls: "verified_from m env calls rec r \<Longrightarrow> verified_from m env (calls @ others) rec r"
  by (fastforce simp: verified_from_def)

lemma verified_same: "verified_from m env calls rec r \<Longrightarrow> sr_ConfirmedAddress r' = sr_ConfirmedAddress r \<Longrightarrow> verified_from m env calls rec r'"
  by (simp add: verified_from_def)

lemma verified_record_in: "all_verified m env calls m' \<Longrightarrow> verified_from m env calls rec (record_in m' rec v)"
  by (simp add: all_verified_def record_in_def verified_from_def blank_record_def split: option.split)

lemma all_verified_calls: "all_verified m env calls m' \<Longrightarrow> all_verified m env (calls @ others) m'"
  using verified_calls by (fastforce simp: all_verified_def)

lemma all_verified_put: "all_verified m env calls m' \<Longrightarrow> gget m2 = (gget m')(rec \<mapsto> q) \<Longrightarrow> verified_from m env calls rec q
    \<Longrightarrow> all_verified m env calls m2"
  by (simp add: all_verified_def)

lemma started_addresses: "sr_ConfirmedAddress (started now x r) = sr_ConfirmedAddress r"
  by (simp add: started_def)

lemma outcome_verified:
  assumes "verified_from m env calls rec r" "(rec, ip, ttl) \<in> set calls"
  shows "verified_from m env calls rec (outcome cfg env ip rec r)"
proof (cases "se_Upsert env rec")
  case (Some e)
  with verified_same [OF assms(1)] show ?thesis by (simp add: outcome_def retry_later_def Let_def)
next
  case None
  show ?thesis
  proof (cases "verify_error (se_Verify env rec) ip")
    case (Some e)
    with None verified_same [OF assms(1)] show ?thesis by (simp add: outcome_def retry_later_def Let_def)
  next
    case n: None
    then obtain as where "se_Verify env rec = Inr as" "ip \<in> set as"
      by (auto simp: verify_error_def split: sum.splits if_splits)
    with None n assms(2) show ?thesis by (auto simp: outcome_def confirmed_at_def verified_from_def)
  qed
qed

definition all_states_verified :: "records \<Rightarrow> sync_env \<Rightarrow> records \<times> FileStateStore \<times> (string \<times> addr \<times> int) list \<Rightarrow> bool" where
  "all_states_verified m env = (\<lambda>(m', s, calls). all_verified m env calls m'
     \<and> (\<forall>n. load_records s = Some n \<longrightarrow> all_verified m env calls n))"

lemma sync_record_verified:
  assumes "all_states_verified m env x"
  shows "all_states_verified m env (sync_record cfg env ip rec x)"
proof (cases x)
  case (fields m0 s0 calls)
  have v: "all_verified m env calls m0" "\<And>n. load_records s0 = Some n \<Longrightarrow> all_verified m env calls n"
    using assms by (simp_all add: fields all_states_verified_def)
  note vr = verified_record_in [OF v(1), of rec 1]
  show ?thesis
  proof (cases rule: sync_record_cases [of env ip m0 rec cfg s0 calls])
    case skip
    with v all_verified_put [OF v(1) gget_gput vr] show ?thesis by (simp add: fields all_states_verified_def)
  next
    case (sync m1 s1 r2 r1)
    let ?calls = "calls @ [(rec, ip, cn_TTL cfg)]"
    have v': "all_verified m env ?calls m0" by (rule all_verified_calls [OF v(1)])
    have 2: "verified_from m env ?calls rec r2"
      using verified_same [OF verified_calls [OF vr]] started_addresses by (simp add: sync(4))
    then have 3: "verified_from m env ?calls rec (r2\<lparr>sr_Status := StatusVerifying\<rparr>)" by (rule verified_same) simp
    have 1: "verified_from m env ?calls rec r1" unfolding sync(5) by (rule outcome_verified [OF 2, of _ "cn_TTL cfg"]) simp
    have "all_verified m env ?calls n" if "load_records s1 = Some n" for n
      using sync(8) [OF that] v(2) all_verified_calls all_verified_put [OF v'] 1 2 3 by blast
    with sync(3) all_verified_put [OF v' sync(6) 1] show ?thesis by (simp add: fields all_states_verified_def)
  qed
qed

lemma mark_records_verified:
  assumes "same_addresses f" "all_verified m env calls m'"
  shows "all_verified m env calls (mark_records f recs m')"
  using assms(2) unfolding mark_records_def
proof (induction recs arbitrary: m')
  case (Cons rec recs)
  have "verified_from m env calls rec (f (record_in m' rec 0))"
    using verified_same [OF verified_record_in [OF Cons.prems]] assms(1) by (simp add: same_addresses_def)
  with Cons.IH [OF all_verified_put [OF Cons.prems gget_gput]] show ?case by simp
qed simp

text \<open>
  C36: An address that a reconciliation leaves in the file as confirmed was confirmed for this record before, or the provider
  took it and then returned it - whichever of the writes to the file fail.
\<close>

theorem confirmed_was_verified:
  assumes "Reconcile env c = (c', failed, calls)" "load_records (co_store c) = Some m"
    and "load_records (co_store c') = Some m'" "gget m' rec = Some r'" "sr_ConfirmedAddress r' \<noteq> []"
  shows "(\<exists>r. gget m rec = Some r \<and> sr_ConfirmedAddress r' = sr_ConfirmedAddress r)
    \<or> (\<exists>ip ttl as. (rec, ip, ttl) \<in> set calls \<and> se_Upsert env rec = None \<and> se_Verify env rec = Inr as \<and> ip \<in> set as
        \<and> sr_ConfirmedAddress r' = addr_string ip)"
proof -
  have m: "all_verified m env calls m" by (simp add: all_verified_def verified_from_def)
  have "all_verified m env calls m'"
  proof (cases rule: Reconcile_cases [of c env])
    case (synced n d s1 calls1)
    have "all_states_verified m env (fold (sync_record cfg env ip) recs x)" if "all_states_verified m env x" for cfg ip recs x
      using that by (induction recs arbitrary: x) (simp_all add: sync_record_verified)
    moreover have "all_states_verified m env (m, co_store c, [])"
      using assms(2) by (simp add: all_states_verified_def all_verified_def verified_from_def)
    ultimately have all: "all_states_verified m env (fold (sync_record cfg env ip) recs (m, co_store c, []))" for cfg ip recs by blast
    let ?cfg = "(co_cfg c)\<lparr>cn_Interface := de_Interface d\<rparr>"
    have n: "n = m" "co_store c' = s1" "calls1 = calls" using synced(1,5) assms(1,2) by auto
    obtain m1 where "fold (sync_record ?cfg env (de_Address d)) (cn_Records ?cfg) (m, co_store c, []) = (m1, s1, calls)"
      using synced(4) n by (auto simp: sync_records_def split: prod.splits)
    with all [of ?cfg "de_Address d" "cn_Records ?cfg"] n(2) assms(3) show ?thesis by (simp add: all_states_verified_def)
  next
    case (unseen n f)
    with assms m mark_records_verified [OF unseen(3) m, of "cn_Records (co_cfg c)"] show ?thesis by (auto split: if_splits)
  next
    case (pending n d a)
    with assms m mark_records_verified [OF same_addresses_pending m, of env "de_Address d" "cn_Records (co_cfg c)"]
    show ?thesis by (auto split: if_splits)
  qed (use assms m in simp_all)
  with assms(4,5) show ?thesis by (auto simp: all_verified_def verified_from_def)
qed


section \<open>Convergence\<close>

definition settled :: "addr \<Rightarrow> RecordState \<Rightarrow> bool" where
  "settled ip r \<longleftrightarrow> sr_Status r = StatusRecordSynced \<and> sr_ConfirmedAddress r = addr_string ip"

text \<open>A provider that takes every address and returns it, and files that can be written.\<close>

definition provider_answers :: "sync_env \<Rightarrow> addr \<Rightarrow> bool" where
  "provider_answers env ip \<longleftrightarrow> se_SaveAll env \<and> (\<forall>rec. se_Upsert env rec = None \<and> verify_error (se_Verify env rec) ip = None
     \<and> se_Saved env rec = (True, True, True))"

definition due :: "sync_env \<Rightarrow> addr \<Rightarrow> records \<Rightarrow> string \<Rightarrow> bool" where
  "due env ip m rec \<longleftrightarrow> (\<forall>r. gget m rec = Some r \<longrightarrow> \<not> backing_off (se_Now env) (addr_string ip) r)"

definition settled_in :: "addr \<Rightarrow> records \<Rightarrow> string \<Rightarrow> bool" where
  "settled_in ip m rec \<longleftrightarrow> (\<exists>r. gget m rec = Some r \<and> settled ip r)"

lemma settled_due: "settled_in ip m rec \<Longrightarrow> due env ip m rec"
  by (auto simp: settled_in_def due_def settled_def backing_off_def)

lemma outcome_settled: "provider_answers env ip \<Longrightarrow> settled ip (outcome cfg env ip rec r)"
  by (simp add: provider_answers_def outcome_def settled_def confirmed_at_def)

lemma sync_record_settles:
  assumes env: "provider_answers env ip" and s0: "load_records s0 = Some n" "gget n = gget m0" and "due env ip m0 rec"
  shows "\<exists>m1 s1 calls1 n1. sync_record cfg env ip rec (m0, s0, calls) = (m1, s1, calls1) \<and> load_records s1 = Some n1 \<and> gget n1 = gget m1
    \<and> settled_in ip m1 rec \<and> (\<forall>k. k \<noteq> rec \<longrightarrow> gget m1 k = gget m0 k)"
proof (cases rule: sync_record_cases [of env ip m0 rec cfg s0 calls])
  case skip
  have "\<not> backing_off (se_Now env) (addr_string ip) (record_in m0 rec 1)"
    using assms(4) by (auto simp: due_def record_in_def backing_off_def blank_record_def split: option.split)
  with skip(1) have "settled ip (record_in m0 rec 1)" by (simp add: needs_sync_def settled_def)
  moreover from this obtain r where r: "gget m0 rec = Some r"
    by (cases "gget m0 rec") (auto simp: record_in_def settled_def blank_record_def)
  moreover from r have "gget (gput rec (record_in m0 rec 1) m0) = gget m0" by (auto simp: record_in_def)
  ultimately show ?thesis using skip(2) s0 by (auto simp: settled_in_def record_in_def)
next
  case (sync m1 s1 r2 r1)
  have "se_Saved env rec = (True, True, True)" using env by (simp add: provider_answers_def)
  with sync(3,6,9) outcome_settled [OF env, of cfg rec r2] show ?thesis by (auto simp: settled_in_def sync(5))
qed

lemma sync_all_settles:
  assumes "provider_answers env ip" "load_records s = Some n" "gget n = gget m" "\<forall>rec \<in> set recs. due env ip m rec"
  shows "\<exists>m1 s1 calls1 n1. fold (sync_record cfg env ip) recs (m, s, calls) = (m1, s1, calls1) \<and> load_records s1 = Some n1
    \<and> gget n1 = gget m1 \<and> (\<forall>rec \<in> set recs. settled_in ip m1 rec) \<and> (\<forall>k. settled_in ip m k \<longrightarrow> settled_in ip m1 k)"
  using assms(2-4)
proof (induction recs arbitrary: m s n calls)
  case (Cons rec recs)
  from sync_record_settles [OF assms(1) Cons.prems(1,2), of rec cfg calls] Cons.prems(3) obtain m1 s1 calls1 n1 where
    1: "sync_record cfg env ip rec (m, s, calls) = (m1, s1, calls1)" "load_records s1 = Some n1" "gget n1 = gget m1"
      "settled_in ip m1 rec" "\<And>k. k \<noteq> rec \<Longrightarrow> gget m1 k = gget m k" by auto
  have "due env ip m1 k" if "k \<in> set recs" for k
    using 1(4,5) Cons.prems(3) that settled_due by (cases "k = rec") (auto simp: due_def)
  with Cons.IH [OF 1(2,3), of calls1] obtain m2 s2 calls2 n2 where
    2: "fold (sync_record cfg env ip) recs (m1, s1, calls1) = (m2, s2, calls2)" "load_records s2 = Some n2" "gget n2 = gget m2"
      "\<forall>rec \<in> set recs. settled_in ip m2 rec" "\<And>k. settled_in ip m1 k \<Longrightarrow> settled_in ip m2 k" by blast
  have "settled_in ip m1 k" if "settled_in ip m k" for k
    using that 1(4,5) by (cases "k = rec") (simp_all add: settled_in_def)
  with 1 2 show ?case by auto
qed auto


lemma mark_get:
  assumes "rec \<in> set recs"
  shows "\<exists>r. gget (mark_records f recs m) rec = Some (f r)"
proof -
  have keep: "\<exists>r. gget (mark_records f recs m) rec = Some (f r)" if "gget m rec = Some (f r)" for r recs and m :: records
    using that unfolding mark_records_def
  proof (induction recs arbitrary: m r)
    case (Cons k recs)
    from Cons.IH [of "gput k (f (record_in m k 0)) m" "if k = rec then record_in m k 0 else r"] Cons.prems
    show ?case by (cases "k = rec") simp_all
  qed auto
  show ?thesis
    using assms unfolding mark_records_def
  proof (induction recs arbitrary: m)
    case (Cons k recs)
    show ?case
    proof (cases "rec = k")
      case True
      with keep [of "gput k (f (record_in m k 0)) m" "record_in m k 0" recs] show ?thesis by (simp add: mark_records_def)
    qed (use Cons in simp)
  qed simp
qed


lemma sees_Detect:
  assumes "load_records (co_store c) = Some m" "cn_Enabled (co_cfg c)"
    and "Detect (co_collector c) (se_Collect env) (first_confirmed m (cn_Records (co_cfg c))) = Inr d"
  shows "sees env c = Some d"
  using assms by (simp add: sees_def)

definition confirmed_in :: "records \<Rightarrow> string \<Rightarrow> string" where
  "confirmed_in m rec = (case gget m rec of None \<Rightarrow> [] | Some r \<Rightarrow> sr_ConfirmedAddress r)"

lemma first_confirmed_in:
  "(\<And>rec. confirmed_in m1 rec = confirmed_in m2 rec) \<Longrightarrow> first_confirmed m1 recs = first_confirmed m2 recs"
proof -
  have e: "(case gget m rec of None \<Rightarrow> None | Some r \<Rightarrow> if sr_ConfirmedAddress r = [] then None else ParseAddr (sr_ConfirmedAddress r))
      = (if confirmed_in m rec = [] then None else ParseAddr (confirmed_in m rec))" for m rec
    by (simp add: confirmed_in_def split: option.split)
  define g where "g x = (case List.map_filter (\<lambda>rec. if x rec = [] then None else ParseAddr (x rec)) recs of
      [] \<Rightarrow> None | a # _ \<Rightarrow> Some a)" for x
  have g: "first_confirmed m recs = g (confirmed_in m)" for m by (simp add: first_confirmed_def e g_def)
  assume "\<And>rec. confirmed_in m1 rec = confirmed_in m2 rec"
  then have "confirmed_in m1 = confirmed_in m2" by (rule ext)
  then show "first_confirmed m1 recs = first_confirmed m2 recs" by (simp add: g)
qed

lemma first_confirmed_mark: "same_addresses f \<Longrightarrow> first_confirmed (mark_records f ks m) recs = first_confirmed m recs"
proof (rule first_confirmed_in)
  fix rec assume f: "same_addresses f"
  show "confirmed_in (mark_records f ks m) rec = confirmed_in m rec"
    unfolding mark_records_def
  proof (induction ks arbitrary: m)
    case (Cons k ks)
    have "confirmed_in (gput k (f (record_in m k 0)) m) rec = confirmed_in m rec"
      using f by (auto simp: confirmed_in_def record_in_def same_addresses_def blank_record_def split: option.split)
    with Cons show ?case by simp
  qed simp
qed


lemma synced_settles:
  assumes "provider_answers env (de_Address d)" "sync_records cfg env (de_Address d) m s = (s1, calls)"
    and "load_records s = Some m" "\<forall>rec \<in> set (cn_Records cfg). due env (de_Address d) m rec"
  shows "\<exists>m1. load_records s1 = Some m1 \<and> (\<forall>rec \<in> set (cn_Records cfg). settled_in (de_Address d) m1 rec)"
proof -
  from sync_all_settles [OF assms(1,3) refl assms(4), of cfg "[]"] obtain m1 s1' calls1 n1 where
    "fold (sync_record cfg env (de_Address d)) (cn_Records cfg) (m, s, []) = (m1, s1', calls1)"
    "load_records s1' = Some n1" "gget n1 = gget m1" "\<forall>rec \<in> set (cn_Records cfg). settled_in (de_Address d) m1 rec" by blast
  with assms(2) show ?thesis by (auto simp: sync_records_def settled_in_def)
qed



section \<open>A change that fails\<close>

lemma sync_record_keeps_calls: "set (snd (snd x)) \<subseteq> set (snd (snd (sync_record cfg env ip rec x)))"
proof (cases x)
  case (fields m0 s0 calls)
  show ?thesis by (cases rule: sync_record_cases [of env ip m0 rec cfg s0 calls]) (auto simp: fields)
qed

lemma sync_keeps_calls: "set (snd (snd x)) \<subseteq> set (snd (snd (fold (sync_record cfg env ip) recs x)))"
proof (induction recs arbitrary: x)
  case (Cons rec recs)
  from sync_record_keeps_calls [of x cfg env ip rec] Cons [of "sync_record cfg env ip rec x"] show ?case by simp
qed simp

lemma pending_called:
  assumes "rec \<in> set recs" "gget m rec = Some r" "sr_Status r = StatusRecordPending"
  shows "\<exists>ttl. (rec, ip, ttl) \<in> set (snd (snd (fold (sync_record cfg env ip) recs (m, s, calls))))"
  using assms
proof (induction recs arbitrary: m s calls)
  case (Cons k recs)
  show ?case
  proof (cases "k = rec")
    case True
    have r: "record_in m rec 1 = r" using Cons.prems(2) by (simp add: record_in_def)
    have sr: "\<exists>m1 s1. sync_record cfg env ip rec (m, s, calls) = (m1, s1, calls @ [(rec, ip, cn_TTL cfg)])"
      by (cases rule: sync_record_cases [of env ip m rec cfg s calls])
        (use Cons.prems(3) in \<open>auto simp: r backing_off_def needs_sync_def\<close>)
    then obtain m1 s1 where "sync_record cfg env ip rec (m, s, calls) = (m1, s1, calls @ [(rec, ip, cn_TTL cfg)])" by blast
    with sync_keeps_calls [of "(m1, s1, calls @ [(rec, ip, cn_TTL cfg)])" cfg env ip recs] True show ?thesis by auto
  next
    case False
    obtain m1 s1 calls1 where sr: "sync_record cfg env ip k (m, s, calls) = (m1, s1, calls1)" using prod_cases3 by blast
    have "gget m1 rec = Some r"
      by (cases rule: sync_record_cases [of env ip m k cfg s calls]) (use False Cons.prems(2) sr in auto)
    with Cons.IH [of m1 s1 calls1] Cons.prems False sr show ?thesis by simp
  qed
qed simp

lemma mark_first:
  assumes "rec \<in> set recs" "gget m rec = Some r" "\<And>x. P x \<Longrightarrow> P (f x)" "P r"
  shows "\<exists>x. gget (mark_records f recs m) rec = Some (f x) \<and> P x"
proof -
  have keep: "\<exists>x. gget (mark_records f recs m) rec = Some (f x) \<and> P x" if "gget m rec = Some (f x)" "P x" for x recs and m :: records
    using that unfolding mark_records_def
  proof (induction recs arbitrary: m x)
    case (Cons k recs)
    from Cons.IH [of "gput k (f (record_in m k 0)) m" "if k = rec then record_in m k 0 else x"] Cons.prems assms(3)
    show ?case by (cases "k = rec") (simp_all add: record_in_def)
  qed auto
  show ?thesis
    using assms(1,2,4) unfolding mark_records_def
  proof (induction recs arbitrary: m)
    case (Cons k recs)
    show ?case
    proof (cases "rec = k")
      case True
      with keep [of "gput k (f r) m" r recs] Cons.prems show ?thesis by (simp add: mark_records_def record_in_def)
    qed (use Cons in simp)
  qed simp
qed

text \<open>What the first of two reconciliations does with a change of address that is not pending.\<close>

lemma change_marks:
  assumes "cn_Enabled (co_cfg c)" "load_records (co_store c) = Some m" "Detect (co_collector c) (se_Collect env1) (Some a) = Inr d"
    and "first_confirmed m (cn_Records (co_cfg c)) = Some a" "a \<noteq> de_Address d" "co_pending c = None" "se_SaveAll env1"
  shows "fst (Reconcile env1 c) = (on_interface d c)\<lparr>co_pending := Some (d, se_Now env1),
      co_store := save_records True (mark_records (now_pending env1 (de_Address d)) (cn_Records (co_cfg c)) m) (co_store c)\<rparr>"
  using sees_Detect [OF assms(2,1), of env1 d] assms by (cases rule: Reconcile_cases [of c env1]) auto

lemma change_syncs:
  assumes "cn_Enabled (co_cfg c)" "load_records (co_store c) = Some m"
    and "Detect (co_collector c) (se_Collect env2) (first_confirmed m (cn_Records (co_cfg c))) = Inr d"
    and "co_pending c = Some (d, since)" "\<not> time_sub (se_Now env2) since < cn_Debounce (co_cfg c)"
  shows "\<exists>s1 calls. sync_records ((co_cfg c)\<lparr>cn_Interface := de_Interface d\<rparr>) env2 (de_Address d) m (co_store c) = (s1, calls)
    \<and> Reconcile env2 c = ((on_interface d c)\<lparr>co_pending := None, co_store := s1\<rparr>, False, calls)"
  using sees_Detect [OF assms(2,1,3)] assms by (cases rule: Reconcile_cases [of c env2]) auto

lemma change_called:
  assumes "cn_Enabled (co_cfg c)" "load_records (co_store c) = Some m"
    and "Detect (co_collector c) (se_Collect env1) (Some a) = Inr d" "Detect (co_collector c) (se_Collect env2) (Some a) = Inr d"
    and "first_confirmed m (cn_Records (co_cfg c)) = Some a" "a \<noteq> de_Address d" "co_pending c = None" "se_SaveAll env1"
    and "\<not> time_sub (se_Now env2) (se_Now env1) < cn_Debounce (co_cfg c)" "rec \<in> set (cn_Records (co_cfg c))"
  shows "\<exists>c2 failed calls ttl. Reconcile env2 (fst (Reconcile env1 c)) = (c2, failed, calls) \<and> (rec, de_Address d, ttl) \<in> set calls"
proof -
  let ?m1 = "mark_records (now_pending env1 (de_Address d)) (cn_Records (co_cfg c)) m" and ?c1 = "fst (Reconcile env1 c)"
  note c1 = change_marks [OF assms(1-3,5-8)]
  have m1: "load_records (co_store ?c1) = Some ?m1" by (simp add: c1)
  obtain r1 where r1: "gget ?m1 rec = Some r1" "sr_Status r1 = StatusRecordPending"
    using mark_get [OF assms(10), of "now_pending env1 (de_Address d)" m] by (auto simp: now_pending_def)
  obtain s1 calls where s: "sync_records ((co_cfg ?c1)\<lparr>cn_Interface := de_Interface d\<rparr>) env2 (de_Address d) ?m1 (co_store ?c1) = (s1, calls)"
    "Reconcile env2 ?c1 = ((on_interface d ?c1)\<lparr>co_pending := None, co_store := s1\<rparr>, False, calls)"
    using change_syncs [OF _ m1, of env2 d "se_Now env1"] assms(1,4,5,9) by (auto simp: c1 first_confirmed_mark)
  have "\<exists>ttl. (rec, de_Address d, ttl) \<in> set calls"
    using pending_called [OF _ r1, of "cn_Records (co_cfg c)" "de_Address d" "(co_cfg ?c1)\<lparr>cn_Interface := de_Interface d\<rparr>" env2
        "co_store ?c1" "[]"] assms(10) s(1)
    by (auto simp: sync_records_def c1 split: prod.splits)
  with s(2) show ?thesis by blast
qed

text \<open>
  When a change of address could not be published, the next reconciliation that sees it starts the debounce time again: it
  marks the record as pending, so that the failure is shown no more, and the one after it publishes without
  regard for the time of the next retry.
\<close>

theorem retry_time_ignored:
  assumes "cn_Enabled (co_cfg c)" "load_records (co_store c) = Some m"
    and "Detect (co_collector c) (se_Collect env1) (Some a) = Inr d" "Detect (co_collector c) (se_Collect env2) (Some a) = Inr d"
    and "first_confirmed m (cn_Records (co_cfg c)) = Some a" "a \<noteq> de_Address d" "co_pending c = None" "se_SaveAll env1"
    and "\<not> time_sub (se_Now env2) (se_Now env1) < cn_Debounce (co_cfg c)" "rec \<in> set (cn_Records (co_cfg c))"
    and "gget m rec = Some r" "sr_Status r = StatusRecordFailed" "sr_NextRetry r = Some t" "se_Now env2 < t"
  shows "(\<exists>m1 r1. load_records (co_store (fst (Reconcile env1 c))) = Some m1 \<and> gget m1 rec = Some r1
      \<and> sr_Status r1 = StatusRecordPending \<and> sr_NextRetry r1 = Some t)
    \<and> (\<exists>c2 failed calls ttl. Reconcile env2 (fst (Reconcile env1 c)) = (c2, failed, calls) \<and> (rec, de_Address d, ttl) \<in> set calls)"
proof
  show "\<exists>m1 r1. load_records (co_store (fst (Reconcile env1 c))) = Some m1 \<and> gget m1 rec = Some r1
      \<and> sr_Status r1 = StatusRecordPending \<and> sr_NextRetry r1 = Some t"
    using mark_first [OF assms(10,11), of "\<lambda>x. sr_NextRetry x = Some t" "now_pending env1 (de_Address d)"] assms(13)
    by (auto simp: change_marks [OF assms(1-3,5-8)] now_pending_def)
qed (rule change_called [OF assms(1-10)])

text \<open>A record whose desired address is already \<open>ip\<close> keeps its version.\<close>

definition version_kept :: "addr \<Rightarrow> int \<Rightarrow> RecordState \<Rightarrow> bool" where
  "version_kept ip v r \<longleftrightarrow> sr_DesiredAddress r = addr_string ip \<and> sr_DesiredVersion r = v
     \<and> (sr_Status r = StatusRecordSynced \<longrightarrow> sr_ConfirmedVersion r = v)"

lemma outcome_version:
  "version_kept ip v r \<Longrightarrow> version_kept ip v (outcome cfg env ip rec (started now (addr_string ip) r))"
  by (auto simp: version_kept_def outcome_def started_def retry_later_def confirmed_at_def Let_def split: option.split)

lemma sync_version:
  assumes "gget m rec = Some r" "version_kept ip v r"
  shows "\<exists>r'. gget (fst (fold (sync_record cfg env ip) recs (m, s, calls))) rec = Some r' \<and> version_kept ip v r'"
  using assms
proof (induction recs arbitrary: m r s calls)
  case (Cons k recs)
  obtain m1 s1 calls1 where sr: "sync_record cfg env ip k (m, s, calls) = (m1, s1, calls1)" using prod_cases3 by blast
  have "\<exists>r1. gget m1 rec = Some r1 \<and> version_kept ip v r1"
    by (cases rule: sync_record_cases [of env ip m k cfg s calls])
      (use Cons.prems sr outcome_version in \<open>auto simp: record_in_def\<close>)
  with Cons.IH [of m1 _ s1 calls1] sr show ?case by auto
qed simp

text \<open>
  The version of a record is meant to count its addresses; one that was pending before it is published does not
  count: the record ends with the new address under the version of the old one.
\<close>

theorem changed_address_same_version:
  assumes "cn_Enabled (co_cfg c)" "load_records (co_store c) = Some m"
    and "Detect (co_collector c) (se_Collect env1) (Some a) = Inr d" "Detect (co_collector c) (se_Collect env2) (Some a) = Inr d"
    and "first_confirmed m (cn_Records (co_cfg c)) = Some a" "a \<noteq> de_Address d" "co_pending c = None" "se_SaveAll env1"
    and "\<not> time_sub (se_Now env2) (se_Now env1) < cn_Debounce (co_cfg c)" "provider_answers env2 (de_Address d)"
    and "rec \<in> set (cn_Records (co_cfg c))" "gget m rec = Some r"
  shows "\<exists>m2 r2. load_records (co_store (fst (Reconcile env2 (fst (Reconcile env1 c))))) = Some m2 \<and> gget m2 rec = Some r2
    \<and> sr_ConfirmedAddress r2 = addr_string (de_Address d) \<and> sr_DesiredVersion r2 = sr_DesiredVersion r
    \<and> sr_ConfirmedVersion r2 = sr_DesiredVersion r"
proof -
  let ?ip = "de_Address d" and ?recs = "cn_Records (co_cfg c)" and ?c1 = "fst (Reconcile env1 c)"
  let ?m1 = "mark_records (now_pending env1 ?ip) ?recs m"
  note c1 = change_marks [OF assms(1-3,5-8)]
  have m1: "load_records (co_store ?c1) = Some ?m1" by (simp add: c1)
  obtain s1 calls where s: "sync_records ((co_cfg ?c1)\<lparr>cn_Interface := de_Interface d\<rparr>) env2 ?ip ?m1 (co_store ?c1) = (s1, calls)"
    "Reconcile env2 ?c1 = ((on_interface d ?c1)\<lparr>co_pending := None, co_store := s1\<rparr>, False, calls)"
    using change_syncs [OF _ m1, of env2 d "se_Now env1"] assms(1,4,5,9) by (auto simp: c1 first_confirmed_mark)
  have due: "due env2 ?ip ?m1 k" if "k \<in> set ?recs" for k
    using mark_get [OF that, of "now_pending env1 ?ip" m] by (auto simp: due_def backing_off_def now_pending_def)
  obtain m2 s2 calls2 n2 where f: "fold (sync_record ((co_cfg ?c1)\<lparr>cn_Interface := de_Interface d\<rparr>) env2 ?ip) ?recs (?m1, co_store ?c1, []) = (m2, s2, calls2)"
    "load_records s2 = Some n2" "gget n2 = gget m2" "\<forall>k \<in> set ?recs. settled_in ?ip m2 k"
    using sync_all_settles [OF assms(10) m1 refl, of ?recs "(co_cfg ?c1)\<lparr>cn_Interface := de_Interface d\<rparr>" "[]"] due by blast
  then have "s1 = s2" using s(1) by (simp add: sync_records_def c1)
  obtain r1 where r1: "gget ?m1 rec = Some r1" "version_kept ?ip (sr_DesiredVersion r) r1"
    using mark_first [OF assms(11,12), of "\<lambda>x. sr_DesiredVersion x = sr_DesiredVersion r" "now_pending env1 ?ip"]
    by (auto simp: now_pending_def version_kept_def)
  obtain r2 where "gget m2 rec = Some r2" "version_kept ?ip (sr_DesiredVersion r) r2"
    using sync_version [OF r1, of "(co_cfg ?c1)\<lparr>cn_Interface := de_Interface d\<rparr>" env2 ?recs "co_store ?c1" "[]"] f(1) by auto
  moreover from f(4) assms(11) this have "settled ?ip r2" by (auto simp: settled_in_def)
  ultimately show ?thesis using s(2) f(2,3) \<open>s1 = s2\<close> by (auto simp: version_kept_def settled_def)
qed

section \<open>The status\<close>

text \<open>
  The status of several records is the worst of them; the address, the error and the time of the last success that are
  shown with it are those of the last record, whatever its status.
\<close>

theorem status_of_records:
  assumes "cn_Enabled (co_cfg c)" "load_records (co_store c) = Some m"
    and "List.map_filter (gget m) (cn_Records (co_cfg c)) = rs" "rs \<noteq> []"
  shows "sv_Status (GetStatus c) \<in> sr_Status ` set rs
    \<and> (\<forall>r \<in> set rs. priority (sr_Status r) \<le> priority (sv_Status (GetStatus c)))
    \<and> sv_LastError (GetStatus c) = sr_LastError (last rs) \<and> sv_LastSuccess (GetStatus c) = sr_LastSuccess (last rs)
    \<and> sv_CurrentAddress (GetStatus c)
        = (if sr_ConfirmedAddress (last rs) = [] then sr_DesiredAddress (last rs) else sr_ConfirmedAddress (last rs))"
proof -
  define v where "v = \<lparr>sv_Enabled = True, sv_Interface = cn_Interface (co_cfg c), sv_Records = cn_Records (co_cfg c),
       sv_Status = StatusDisabled, sv_CurrentAddress = [], sv_ConfigVersion = cn_Version (co_cfg c), sv_LastSuccess = None, sv_LastError = []\<rparr>"
  have f: "fold (\<lambda>rec v. case gget m rec of None \<Rightarrow> v | Some r \<Rightarrow> view_record r v) recs v
      = fold view_record (List.map_filter (gget m) recs) v" for recs v
    by (induction recs arbitrary: v) (simp_all add: List.map_filter_simps split: option.split)
  have "m \<noteq> []" using assms(3,4) by (auto simp: List.map_filter_def)
  then have g: "GetStatus c = fold view_record rs v"
    using assms by (simp add: GetStatus_def Let_def f v_def)
  have worst: "(sv_Status (fold view_record rs v) \<in> sr_Status ` set rs
      \<or> (sv_Status (fold view_record rs v) = sv_Status v \<and> (\<forall>r \<in> set rs. priority (sr_Status r) < priority (sv_Status v))))
      \<and> priority (sv_Status v) \<le> priority (sv_Status (fold view_record rs v))
      \<and> (\<forall>r \<in> set rs. priority (sr_Status r) \<le> priority (sv_Status (fold view_record rs v)))" for rs v
  proof (induction rs arbitrary: v)
    case (Cons r rs)
    from Cons [of "view_record r v"] show ?case by (auto simp: view_record_def split: if_splits)
  qed simp
  have last: "rs \<noteq> [] \<Longrightarrow> sv_LastError (fold view_record rs v) = sr_LastError (last rs)
      \<and> sv_LastSuccess (fold view_record rs v) = sr_LastSuccess (last rs)
      \<and> sv_CurrentAddress (fold view_record rs v)
          = (if sr_ConfirmedAddress (last rs) = [] then sr_DesiredAddress (last rs) else sr_ConfirmedAddress (last rs))" for rs v
    by (induction rs arbitrary: v) (auto simp: view_record_def)
  have "priority (sv_Status v) = 0" by (simp add: v_def priority_def)
  with worst [of rs v] last [OF assms(4), of v] assms(4) show ?thesis unfolding g by fastforce
qed

section \<open>Samples\<close>

definition server_addr :: addr where
  "server_addr = Addr6 [0x20, 0x01, 0x0d, 0xb8, 0, 0, 0, 0, 0, 0, 0, 0, 0, 0, 0, 7] []"

definition former_addr :: addr where
  "former_addr = Addr6 [0x20, 0x01, 0x0d, 0xb8, 0, 0, 0, 0, 0, 0, 0, 0, 0, 0, 0, 6] []"

lemma printed_run: "zero_run [8193, 3512, 0, 0, 0, 0, 0, 7] = (2, 7)" "zero_run [8193, 3512, 0, 0, 0, 0, 0, 6] = (2, 7)"
  by (simp_all add: zero_run_def Let_def upt_rec)

lemma printed_groups: "hex_digits 8193 = ''2001''" "hex_digits 3512 = ''db8''" "hex_digits 7 = ''7''" "hex_digits 6 = ''6''"
  by (simp_all add: hex_digits.simps hex_digit_def)

lemma printed_texts: "ip6_string [8193, 3512, 0, 0, 0, 0, 0, 7] = ''2001:db8::7''" "ip6_string [8193, 3512, 0, 0, 0, 0, 0, 6] = ''2001:db8::6''"
  unfolding ip6_string_def printed_run by (simp_all add: Let_def printed_groups upt_rec)

lemma printed_addr: "addr_string server_addr = ''2001:db8::7''" "addr_string former_addr = ''2001:db8::6''"
proof -
  have g: "ip_groups [0x20, 0x01, 0x0d, 0xb8, 0, 0, 0, 0, 0, 0, 0, 0, 0, 0, 0, 7] = [8193, 3512, 0, 0, 0, 0, 0, 7]"
    "ip_groups [0x20, 0x01, 0x0d, 0xb8, 0, 0, 0, 0, 0, 0, 0, 0, 0, 0, 0, 6] = [8193, 3512, 0, 0, 0, 0, 0, 6]" by simp_all
  show "addr_string server_addr = ''2001:db8::7''" "addr_string former_addr = ''2001:db8::6''"
    unfolding server_addr_def former_addr_def addr_string.simps g printed_texts by (simp_all add: Is4In6_bytes_def)
qed

lemma server_texts:
  "ParseAddr (addr_string server_addr) = Some server_addr" "trim_space (addr_string server_addr) = addr_string server_addr"
  "ParseAddr (addr_string former_addr) = Some former_addr"
  unfolding server_addr_def former_addr_def
  by (rule ParseAddr_string trim_addr_string; simp add: Is4In6_bytes_def)+

lemma server_folds: "\<not> equal_fold (addr_string server_addr) (addr_string former_addr)"
  unfolding printed_addr equal_fold_def by code_simp

lemma server_usable:
  "Is6 server_addr" "\<not> Is4In6 server_addr" "\<not> unusable_range server_addr" "\<not> isULA (addr_bytes server_addr)" "server_addr \<noteq> former_addr"
  by (simp_all add: server_addr_def former_addr_def Is4In6_bytes_def unusable_range_def isULA_def Let_def IsLoopback_def To4_def
      IsLinkLocalUnicast_def IsLinkLocalMulticast_def not_zeros)

definition server_collect :: collect_env where
  "server_collect = \<lparr>ce_Now = 0, ce_Route = Inl [], ce_Addresses = (\<lambda>_. Inr [\<lparr>ra_Address = addr_string server_addr,
     ra_Interface = ''eth0'', ra_PrefixLength = 64, ra_Temporary = False, ra_Deprecated = False,
     ra_PreferredUntil = None, ra_ValidUntil = None\<rparr>])\<rparr>"

definition server_detection :: Detection where
  "server_detection = \<lparr>de_Interface = ''eth0'', de_Gateway = [], de_Address = server_addr\<rparr>"

declare addr_string.simps [simp del]

lemma server_detected:
  "x \<in> {None, Some server_addr, Some former_addr} \<Longrightarrow>
    Detect \<lparr>cl_iface = ''eth0'', cl_resolver = False\<rparr> server_collect x = Inr server_detection"
  using server_usable server_texts server_folds
  by (auto simp: Detect_def detect_interface_def server_collect_def server_detection_def NormalizeAndFilterCandidates_def
      candidate_entries_Cons candidate_of_def IsValidCandidate_def ended_def SortAddresses_def Let_def equal_fold_def)

definition sync_env_at :: "time \<Rightarrow> sync_env" where
  "sync_env_at now = \<lparr>se_Now = now, se_Collect = server_collect, se_Check = (\<lambda>_. Inr []), se_Upsert = (\<lambda>_. None),
     se_Verify = (\<lambda>_. Inr [server_addr]), se_SaveAll = True, se_Saved = (\<lambda>_. (True, True, True)), se_Wide = 0\<rparr>"

definition home_record :: RecordState where
  "home_record = (blank_record ''home.example.org'' 1)\<lparr>sr_DesiredAddress := addr_string server_addr, sr_DesiredVersion := 4,
     sr_ConfirmedAddress := addr_string former_addr, sr_ConfirmedVersion := 4, sr_Status := StatusRecordFailed,
     sr_RetryCount := 2, sr_NextRetry := Some (seconds 60)\<rparr>"

definition home_coordinator :: Coordinator where
  "home_coordinator = \<lparr>co_cfg = \<lparr>cn_Enabled = True, cn_Interface = [], cn_Records = [''home.example.org''], cn_Version = 1,
       cn_Interval = seconds 30, cn_Debounce = seconds 3, cn_MaxBackoff = seconds 60, cn_TTL = 300\<rparr>,
     co_collector = \<lparr>cl_iface = ''eth0'', cl_resolver = False\<rparr>,
     co_store = \<lparr>st_state = JsonData (Some [(''home.example.org'', home_record)]), st_config = NoJson\<rparr>, co_pending = None\<rparr>"

lemma home_simps:
  "cn_Enabled (co_cfg home_coordinator)" "cn_Records (co_cfg home_coordinator) = [''home.example.org'']"
  "load_records (co_store home_coordinator) = Some [(''home.example.org'', home_record)]"
  "co_pending home_coordinator = None" "cn_Debounce (co_cfg home_coordinator) = seconds 3"
  "first_confirmed [(''home.example.org'', home_record)] [''home.example.org''] = Some former_addr"
  "co_collector home_coordinator = \<lparr>cl_iface = ''eth0'', cl_resolver = False\<rparr>"
  by (simp_all add: home_coordinator_def load_records_def first_confirmed_def List.map_filter_simps home_record_def printed_addr
      server_texts(3) [unfolded printed_addr])

lemma sync_env_simps:
  "se_Collect (sync_env_at now) = server_collect" "se_Now (sync_env_at now) = now" "se_SaveAll (sync_env_at now)"
  "se_Upsert (sync_env_at now) rec = None" "se_Verify (sync_env_at now) rec = Inr [server_addr]"
  "provider_answers (sync_env_at now) server_addr" "de_Address server_detection = server_addr"
  by (simp_all add: sync_env_at_def provider_answers_def verify_error_def server_detection_def)

lemma sample_wait: "\<not> time_sub (seconds 35) (seconds 30) < seconds 3"
  by (simp add: time_sub_def seconds_def min_duration_def max_duration_def)

lemma home_record_simps:
  "sr_Status home_record = StatusRecordFailed" "sr_NextRetry home_record = Some (seconds 60)" "seconds 35 < seconds 60"
  by (simp_all add: home_record_def seconds_def)

theorem retry_time_ignored_witness:
  "\<exists>c2 failed calls ttl. Reconcile (sync_env_at (seconds 35)) (fst (Reconcile (sync_env_at (seconds 30)) home_coordinator)) = (c2, failed, calls)
     \<and> (''home.example.org'', server_addr, ttl) \<in> set calls"
  using retry_time_ignored [of home_coordinator "[(''home.example.org'', home_record)]" "sync_env_at (seconds 30)" former_addr
      server_detection "sync_env_at (seconds 35)" "''home.example.org''" home_record "seconds 60"]
    server_detected [of "Some former_addr"] server_usable(5) sample_wait
  by (simp add: home_simps sync_env_simps home_record_simps)


lemma home_detected:
  "Detect (co_collector home_coordinator) (se_Collect (sync_env_at now)) (Some former_addr) = Inr server_detection"
  "x \<in> {first_confirmed [(''home.example.org'', home_record)] (cn_Records (co_cfg home_coordinator)), Some (de_Address server_detection)}
    \<Longrightarrow> Detect (co_collector home_coordinator) (se_Collect (sync_env_at now)) x = Inr server_detection"
  by (auto simp: home_simps sync_env_simps intro: server_detected)

theorem published_after_debounce_witness:
  "\<exists>before oper0 mid env0 c1. [Reconciled (sync_env_at (seconds 30))] = before @ oper0 # mid
    \<and> reconciles oper0 (coordinator_run before home_coordinator) = Some (env0, c1) \<and> sees env0 c1 = Some server_detection
    \<and> \<not> time_sub (seconds 35) (se_Now env0) < seconds 3"
proof -
  let ?m = "[(''home.example.org'', home_record)]"
  have f: "first_confirmed ?m (cn_Records (co_cfg home_coordinator)) = Some former_addr" by (simp add: home_simps)
  have ne: "former_addr \<noteq> de_Address server_detection" "server_addr \<noteq> former_addr" using server_usable(5) by (auto simp: sync_env_simps)
  note c1 = change_marks [OF home_simps(1,3) home_detected(1) f ne(1) home_simps(4) sync_env_simps(3), of "seconds 30"]
  let ?c1 = "coordinator_run [Reconciled (sync_env_at (seconds 30))] home_coordinator"
  obtain c2 failed calls ttl where r: "Reconcile (sync_env_at (seconds 35)) ?c1 = (c2, failed, calls)"
    "(''home.example.org'', server_addr, ttl) \<in> set calls"
    using change_called [OF home_simps(1,3) home_detected(1) home_detected(1) f ne(1) home_simps(4) sync_env_simps(3), of "seconds 35" "seconds 30"
        "''home.example.org''"] sample_wait
    by (auto simp: home_simps sync_env_simps)
  have 1: "reconciles (Reconciled (sync_env_at (seconds 35))) ?c1 = Some (sync_env_at (seconds 35), ?c1)" by simp
  have 2: "load_records (co_store ?c1) = Some (mark_records (now_pending (sync_env_at (seconds 30)) (de_Address server_detection))
      (cn_Records (co_cfg home_coordinator)) ?m)" by (simp add: c1)
  have 3: "first_confirmed (mark_records (now_pending (sync_env_at (seconds 30)) (de_Address server_detection))
      (cn_Records (co_cfg home_coordinator)) ?m) (cn_Records (co_cfg ?c1)) = Some former_addr"
    by (simp add: c1 first_confirmed_mark f)
  from published_after_debounce [OF home_simps(4) 1 r(1) 2 3 r(2) ne(2)] obtain d before oper0 mid env0 c3 where
    w: "[Reconciled (sync_env_at (seconds 30))] = before @ oper0 # mid" "reconciles oper0 (coordinator_run before home_coordinator) = Some (env0, c3)"
      "sees env0 c3 = Some d" "sees (sync_env_at (seconds 35)) ?c1 = Some d"
      "\<not> time_sub (se_Now (sync_env_at (seconds 35))) (se_Now env0) < cn_Debounce (co_cfg ?c1)" by blast
  have "sees (sync_env_at (seconds 35)) ?c1 = Some server_detection"
    by (rule sees_Detect [OF 2]) (use 3 home_detected(1) in \<open>simp_all add: c1 home_simps\<close>)
  with w(4) have "d = server_detection" by simp
  moreover have "cn_Debounce (co_cfg ?c1) = seconds 3" by (simp add: c1 home_simps)
  with w(5) have "\<not> time_sub (seconds 35) (se_Now env0) < seconds 3" unfolding sync_env_simps by metis
  ultimately show ?thesis using w(1-3) by blast
qed

definition first_coordinator :: Coordinator where
  "first_coordinator = home_coordinator\<lparr>co_store := \<lparr>st_state = NoJson, st_config = NoJson\<rparr>\<rparr>"

theorem confirmed_was_verified_witness:
  "\<exists>c' failed calls m' r'. Reconcile (sync_env_at 0) first_coordinator = (c', failed, calls) \<and> load_records (co_store c') = Some m'
    \<and> gget m' ''home.example.org'' = Some r' \<and> sr_ConfirmedAddress r' = addr_string server_addr
    \<and> (\<exists>ip ttl. (''home.example.org'', ip, ttl) \<in> set calls \<and> addr_string ip = addr_string server_addr)"
proof -
  obtain c' failed calls where r: "Reconcile (sync_env_at 0) first_coordinator = (c', failed, calls)" using prod_cases3 by blast
  have m: "load_records (co_store first_coordinator) = Some []" by (simp add: first_coordinator_def load_records_def)
  have "\<exists>m' r'. load_records (co_store c') = Some m' \<and> gget m' ''home.example.org'' = Some r' \<and> sr_ConfirmedAddress r' = addr_string server_addr"
  proof -
    have s: "sees (sync_env_at 0) first_coordinator = Some server_detection"
      by (rule sees_Detect [OF m]) (use server_detected [of None] in
          \<open>simp_all add: first_coordinator_def home_simps sync_env_simps first_confirmed_def List.map_filter_simps\<close>)
    show ?thesis
    proof (cases rule: Reconcile_cases [of first_coordinator "sync_env_at 0"])
      case (synced m1 d s1 calls1)
      from synced(1,2) s m have "m1 = []" "d = server_detection" by auto
      with synced_settles [of "sync_env_at 0" d _ "[]" _ s1 calls1] synced(4) m r synced(5) show ?thesis
        by (fastforce simp: sync_env_simps due_def settled_in_def settled_def first_coordinator_def home_simps)
    qed (use s m in \<open>auto simp: first_confirmed_def List.map_filter_simps first_coordinator_def home_simps\<close>)
  qed
  then obtain m' r' where mr: "load_records (co_store c') = Some m'" "gget m' ''home.example.org'' = Some r'" "sr_ConfirmedAddress r' = addr_string server_addr"
    by blast
  from confirmed_was_verified [OF r m mr(1,2)] mr(3) have "\<exists>ip ttl. (''home.example.org'', ip, ttl) \<in> set calls \<and> addr_string ip = addr_string server_addr"
    by (auto simp: printed_addr)
  with r mr show ?thesis by blast
qed

theorem changed_address_same_version_witness:
  "\<exists>m2 r2. load_records (co_store (fst (Reconcile (sync_env_at (seconds 35)) (fst (Reconcile (sync_env_at (seconds 30)) home_coordinator))))) = Some m2
    \<and> gget m2 ''home.example.org'' = Some r2 \<and> sr_ConfirmedAddress r2 = addr_string server_addr \<and> sr_DesiredVersion r2 = 4
    \<and> sr_ConfirmedVersion r2 = 4"
  using changed_address_same_version [of home_coordinator "[(''home.example.org'', home_record)]" "sync_env_at (seconds 30)" former_addr
      server_detection "sync_env_at (seconds 35)" "''home.example.org''" home_record]
    server_detected [of "Some former_addr"] server_usable(5) sample_wait
  by (simp add: home_simps sync_env_simps) (simp add: home_record_def)



theorem status_of_records_witness:
  "sv_Status (GetStatus home_coordinator) = StatusRecordFailed \<and> sv_CurrentAddress (GetStatus home_coordinator) = addr_string former_addr"
  using status_of_records [of home_coordinator "[(''home.example.org'', home_record)]" "[home_record]"]
  by (simp add: home_simps List.map_filter_simps) (simp add: home_record_def printed_addr)

theorem backoff_doubles_witness: "calculateBackoff 0 (seconds 60) 4 = seconds 24 \<and> calculateBackoff 0 (seconds 60) 6 = seconds 60"
  using backoff_doubles [of 4 0 "seconds 60"] backoff_doubles [of 6 0 "seconds 60"] by (simp add: seconds_def)

theorem backoff_lost_witness: "calculateBackoff 0 (seconds 60) 33 < 0 \<and> calculateBackoff 0 (seconds 60) 60 = 0"
  using backoff_lost [of "seconds 60" 0] by (simp add: seconds_def)


end
