(* ===== verification/ServerNetAdmin.thy ===== *)
theory ServerNetAdmin
  imports ServerNetHandlers ServerNetProps Users
begin

text \<open>
  What the handlers for the names of the server promise: updates are enabled only with a token of a validation of the
  same records and version by the same credential within the last minute, each token serves once, and an
  owner has at most ten of them. Detections, however, are never discarded.
\<close>

section \<open>The digest\<close>

lemma join_lines_nonempty: "xs \<noteq> [] \<Longrightarrow> [] \<notin> set xs \<Longrightarrow> join_records xs \<noteq> []"
  by (cases xs rule: join_records.cases) auto


lemma append_end: "x @ c # y = x' \<Longrightarrow> c \<notin> set x' \<Longrightarrow> False"
  by auto














section \<open>Runs\<close>

datatype admin_op =
  AskCandidates "string option" admin_env
| AskValidation admin_env string string "string list"
| PutConfig admin_env string net_request
| CoordinatorRuns sync_env

fun admin_step :: "(string \<Rightarrow> string) \<Rightarrow> admin_op \<Rightarrow> net_admin \<Rightarrow> net_admin" where
  "admin_step sha (AskCandidates host env) s = fst (getServerNetworkCandidates host env s)"
| "admin_step sha (AskValidation env a i recs) s = fst (validateServerNetwork sha env a i recs s)"
| "admin_step sha (PutConfig env a req) s = fst (putServerNetwork sha env a req s)"
| "admin_step sha (CoordinatorRuns env) s = s\<lparr>na_coordinator := fst (Reconcile env (na_coordinator s))\<rparr>"

abbreviation admin_run :: "(string \<Rightarrow> string) \<Rightarrow> admin_op list \<Rightarrow> net_admin \<Rightarrow> net_admin" where
  "admin_run sha \<equiv> fold (admin_step sha)"

lemma apply_config_tokens: "na_tokens (fst (apply_config env cfg s)) = na_tokens s" "na_detections (fst (apply_config env cfg s)) = na_detections s"
  by (auto simp: apply_config_def split: prod.split option.split net_config_error.split)

lemma put_tokens: "na_tokens (fst (putServerNetwork sha env a req s)) = na_tokens s
    \<or> na_tokens (fst (putServerNetwork sha env a req s)) = gdel (nq_ValidationToken req) (na_tokens s)"
  by (auto simp: putServerNetwork_def Let_def apply_config_tokens)

text \<open>A validation stores nothing new, or one token, for the records it was given.\<close>

lemma validate_cases:
  obtains "na_tokens (fst (validateServerNetwork sha env a i recs s)) \<in> {na_tokens s, live_tokens (ae_Now env) (na_tokens s)}"
  | token nd address where "gget (na_detections s) i = Some nd" "ae_Token env = Some token" "address = addr_string (de_Address (nd_Result nd))"
      "owner_tokens (sha a) (live_tokens (ae_Now env) (na_tokens s)) < 10"
      "validateServerNetwork sha env a i recs s = (s\<lparr>na_tokens := gput token
          \<lparr>vt_Digest = serverNetworkDigest sha (normalizeServerNetworkRecords recs) (nd_ConfigVersion nd) (de_Interface (nd_Result nd)) address a,
           vt_ConfigVersion = nd_ConfigVersion nd, vt_Interface = de_Interface (nd_Result nd), vt_Address = address,
           vt_ExpiresAt = ae_Now env + minutes 1, vt_Owner = sha a\<rparr> (live_tokens (ae_Now env) (na_tokens s)),
         na_detections := gdel i (na_detections s)\<rparr>, Valid token (ae_Now env + minutes 1) address)"
proof (cases "\<exists>t e ad. snd (validateServerNetwork sha env a i recs s) = Valid t e ad")
  case True
  then obtain nd token where "gget (na_detections s) i = Some nd" "ae_Token env = Some token"
    "owner_tokens (sha a) (live_tokens (ae_Now env) (na_tokens s)) < 10"
    "validateServerNetwork sha env a i recs s = (s\<lparr>na_tokens := gput token
          \<lparr>vt_Digest = serverNetworkDigest sha (normalizeServerNetworkRecords recs) (nd_ConfigVersion nd) (de_Interface (nd_Result nd))
              (addr_string (de_Address (nd_Result nd))) a,
           vt_ConfigVersion = nd_ConfigVersion nd, vt_Interface = de_Interface (nd_Result nd), vt_Address = addr_string (de_Address (nd_Result nd)),
           vt_ExpiresAt = ae_Now env + minutes 1, vt_Owner = sha a\<rparr> (live_tokens (ae_Now env) (na_tokens s)),
         na_detections := gdel i (na_detections s)\<rparr>, Valid token (ae_Now env + minutes 1) (addr_string (de_Address (nd_Result nd))))"
    by (auto simp: validateServerNetwork_def Let_def split: if_splits option.splits)
  with that(2) show thesis by blast
next
  case False
  then show thesis
    by (intro that(1)) (auto simp: validateServerNetwork_def Let_def split: if_splits option.splits)
qed














lemma owner_put: "owner_tokens w (gput k t m) \<le> owner_tokens w m + (if vt_Owner t = w then 1 else 0)"
  by (induction m) (auto simp: owner_tokens_def)

lemma owner_delete: "owner_tokens w (gdel k m) \<le> owner_tokens w m"
  by (induction m) (auto simp: owner_tokens_def AList.delete_eq)

lemma owner_live: "owner_tokens w (live_tokens now m) \<le> owner_tokens w m"
  by (induction m) (auto simp: owner_tokens_def live_tokens_def gdel_if_def)

text \<open>C39: No owner ever has more than ten tokens, whatever is validated and put.\<close>

theorem ten_tokens:
  assumes "na_tokens s0 = []"
  shows "owner_tokens w (na_tokens (admin_run sha ops s0)) \<le> 10"
proof -
  have "owner_tokens w (na_tokens (admin_step sha oper s)) \<le> 10" if "owner_tokens w (na_tokens s) \<le> 10" for oper s
  proof (cases oper)
    case (AskCandidates host env)
    with that show ?thesis by (auto simp: getServerNetworkCandidates_def Let_def split: sum.split option.split)
  next
    case (AskValidation env a i recs)
    show ?thesis
    proof (cases rule: validate_cases [of sha env a i recs s])
      case 1
      with AskValidation that owner_live [of w "ae_Now env" "na_tokens s"] show ?thesis by auto
    next
      case (2 token nd address)
      let ?t = "\<lparr>vt_Digest = serverNetworkDigest sha (normalizeServerNetworkRecords recs) (nd_ConfigVersion nd) (de_Interface (nd_Result nd)) address a,
           vt_ConfigVersion = nd_ConfigVersion nd, vt_Interface = de_Interface (nd_Result nd), vt_Address = address,
           vt_ExpiresAt = ae_Now env + minutes 1, vt_Owner = sha a\<rparr>"
      have "owner_tokens w (gput token ?t (live_tokens (ae_Now env) (na_tokens s)))
          \<le> owner_tokens w (live_tokens (ae_Now env) (na_tokens s)) + (if sha a = w then 1 else 0)"
        using owner_put [of w token ?t] by simp
      with 2(4,5) AskValidation that owner_live [of w "ae_Now env" "na_tokens s"] show ?thesis by (auto split: if_splits)
    qed
  next
    case (PutConfig env a req)
    with that put_tokens [of sha env a req s] owner_delete [of w "nq_ValidationToken req" "na_tokens s"] show ?thesis by auto
  qed (use that in simp)
  then have "owner_tokens w (na_tokens s) \<le> 10 \<Longrightarrow> owner_tokens w (na_tokens (admin_run sha ops s)) \<le> 10" for s
    by (induction ops arbitrary: s) simp_all
  then show ?thesis by (simp add: assms owner_tokens_def)
qed

text \<open>
  A detection is discarded only by the validation that uses it: each look at the candidates, which a reader of the settings
  may repeat at will, leaves another one behind, also when all before have expired.
\<close>

theorem detections_pile_up:
  assumes "distinct ids" "na_detections s = []"
    and "\<And>i. DetectNetwork (ae_Collect (env i)) (na_coordinator s) = Inr d" "\<And>i. ae_Token (env i) = Some i"
  shows "length (na_detections (admin_run sha (map (\<lambda>i. AskCandidates host (env i)) ids) s)) = length ids"
proof -
  have step: "na_coordinator (admin_step sha (AskCandidates host (env i)) s1) = na_coordinator s1 \<and>
      (\<exists>nd. na_detections (admin_step sha (AskCandidates host (env i)) s1) = gput i nd (na_detections s1))"
    if "na_coordinator s1 = na_coordinator s" for i s1
    using that assms(3)[of i] assms(4)[of i] by (auto simp: getServerNetworkCandidates_def Let_def)
  have put: "length (gput k v m) = Suc (length m)" if "k \<notin> set (gkeys m)" for k v and m :: "(string, net_detection) gomap"
    using that by (induction m) auto
  have "length (na_detections (admin_run sha (map (\<lambda>i. AskCandidates host (env i)) ids) s1)) = length (na_detections s1) + length ids"
    if "na_coordinator s1 = na_coordinator s" "set ids \<inter> set (gkeys (na_detections s1)) = {}" "distinct ids" for ids s1
    using that
  proof (induction ids arbitrary: s1)
    case (Cons i ids)
    obtain nd where n: "na_detections (admin_step sha (AskCandidates host (env i)) s1) = gput i nd (na_detections s1)"
      "na_coordinator (admin_step sha (AskCandidates host (env i)) s1) = na_coordinator s" using step Cons.prems(1) by metis
    have "set (gkeys (gput i nd (na_detections s1))) = insert i (set (gkeys (na_detections s1)))" by (simp add: dom_update)
    with Cons.IH [of "admin_step sha (AskCandidates host (env i)) s1"] n Cons.prems put [of i "na_detections s1" nd] show ?case by auto
  qed simp
  from this [of s ids] assms(1,2) show ?thesis by simp
qed


section \<open>Samples\<close>

definition admin_env_at :: "time \<Rightarrow> string \<Rightarrow> admin_env" where
  "admin_env_at now token = \<lparr>ae_Now = now, ae_Collect = server_collect, ae_Read = (\<lambda>_. Inr []), ae_Conflict = (\<lambda>_. None),
     ae_Token = Some token, ae_ConfigOK = True, ae_Sync = sync_env_at now\<rparr>"

definition home_admin :: net_admin where
  "home_admin = \<lparr>na_coordinator = home_coordinator, na_detections = [], na_tokens = []\<rparr>"


definition home_ops :: "admin_op list" where
  "home_ops = [AskCandidates None (admin_env_at 10 ''i''), AskValidation (admin_env_at 20 ''t'') ''secret'' ''i'' [''home.example.org'']]"



lemma home_detect: "DetectNetwork (ae_Collect (admin_env_at now token)) home_coordinator = Inr server_detection"
  using server_detected [of None] by (simp add: DetectNetwork_def admin_env_at_def home_simps)










theorem ten_tokens_witness: "owner_tokens ''secret'' (na_tokens (admin_run (\<lambda>x. x) home_ops home_admin)) \<le> 10"
  by (rule ten_tokens) (simp add: home_admin_def)

theorem detections_pile_up_witness:
  "length (na_detections (admin_run (\<lambda>x. x) (map (\<lambda>i. AskCandidates None (admin_env_at 10 i)) [''i'', ''j'', ''k'']) home_admin)) = 3"
  using detections_pile_up [of "[''i'', ''j'', ''k'']" home_admin "admin_env_at 10" server_detection "\<lambda>x. x" None] home_detect
  by (simp add: home_admin_def admin_env_at_def)

end
