(* ===== verification/Spec2Isabelle.thy ===== *)
theory Spec2Isabelle
  imports SessionProps Enrollment RateLimit RegistryProps CommandProps ReleaseProps DispatchProps
    AlertingProps FileAccessProps NetProps ServerNetAdmin
begin

text \<open>
  A verification library for home-agent, a control plane for the machines of a home: a server that
  knows the accounts, the devices and who may do what with them, sends commands to the devices and
  watches their health, and an agent that runs on each device, follows the server's event stream,
  carries commands out and acknowledges them.

  \<^bold>\<open>The parts and how they interact.\<close> A request reaches a handler of \<open>internal/api/api.go\<close>. It is
  authenticated by a session (\<open>internal/auth/session.go\<close>), a device token (\<open>internal/registry\<close>) or a
  credential for file operations (\<open>internal/fileaccess\<close>), authorized (\<open>internal/auth/authorizer.go\<close>) and
  turned into a command (\<open>internal/command\<close>), which the broker (\<open>internal/broker\<close>) publishes on the event
  stream of its device. The agent (\<open>internal/daemon\<close>) notes the command in its ledger, carries it
  out and acknowledges it; the acknowledgement moves the command on and is projected to the registry, the
  upgrade plans (\<open>internal/upgradeplan\<close>) and the SSH keys (\<open>internal/sshsync\<close>). Releases are looked up
  at GitHub (\<open>internal/githubrelease\<close>, \<open>internal/versionstatus\<close>). What is known of a device is evaluated
  to its health (\<open>internal/health\<close>), whose events open and resolve alerts (\<open>internal/alerting\<close>). Files
  are shared through \<open>internal/fileshare\<close>. Devices and routers report their addresses and prefixes
  (\<open>internal/devicestate\<close>, \<open>internal/prefixstate\<close>), from which names are published (\<open>internal/ddns\<close>);
  the names of the server itself have a coordinator of their own (\<open>internal/servernetwork\<close>).

  \<^bold>\<open>Theories.\<close> Each names its source files and definitions in its first text; a definition has the name of
  the function or type it models, except where Isabelle or another theory has that name already.
  \<^item> \<open>Prelude\<close>: times and durations in nanoseconds, counters as 64-bit words, the \<open>strings\<close>, \<open>strconv\<close> and
    \<open>sort\<close> functions, Go maps as association lists; the generic lemmas and \<open>named_theorems\<close>.
    \<open>NetIP\<close>: \<open>net.ParseIP\<close> and its printer.
  \<^item> \<open>Users\<close>, \<open>Sessions\<close>, \<open>Authorizer\<close>, \<open>Enrollment\<close>, \<open>RateLimit\<close> (\<open>internal/auth\<close>): accounts,
    sessions and their migration, the role matrix and the decision, claim tokens, the login limiter and the audit
    log; \<open>SessionProps\<close> has the invariants of the accounts over the step relation of all operations.
  \<^item> \<open>Devices\<close>, \<open>Registry\<close>, \<open>RegistryProps\<close>: device records and grants, the registry with its indexes and its
    file, and its interpretation of the authorizer's interface.
  \<^item> \<open>Commands\<close>, \<open>CommandRepo\<close>, \<open>CommandRepoInv\<close>, \<open>CommandService\<close>, \<open>CommandProps\<close>, \<open>Deliveries\<close>:
    commands and delivery attempts, their file repositories, and the service over the interface
    \<open>Repository\<close>, which the repository is shown to keep.
  \<^item> \<open>Broker\<close>, \<open>BrokerProps\<close>, \<open>EventStream\<close>: subscriptions, the bounded history and its replay, and the text of
    the stream as the server writes and the agent reads it.
  \<^item> \<open>Agent\<close>, \<open>AgentInv\<close>, \<open>AgentProps\<close>: the ledger and the event handler of the agent, with crashes between any
    two of its writes.
  \<^item> \<open>Dispatch\<close>, \<open>Handlers\<close>, \<open>UpgradeHandlers\<close>, \<open>AckHandler\<close>, \<open>DispatchInv\<close>, \<open>DispatchProps\<close>: the
    handlers of \<open>api.go\<close> that send commands and take acknowledgements, composed of the components above.
  \<^item> \<open>Acl\<close>, \<open>KeySync\<close>, \<open>KeySyncProps\<close>: the access policy and the managed block of \<open>authorized_keys\<close>.
  \<^item> \<open>UpgradePlans\<close>, \<open>Releases\<close>, \<open>VersionStatus\<close>, \<open>ReleaseProps\<close>: upgrade plans, release lookup, versions.
  \<^item> \<open>Health\<close>, \<open>HealthService\<close>, \<open>HealthProps\<close>, \<open>Alerting\<close>, \<open>AlertingProps\<close>: the rules of the evaluator, the
    repository of snapshots, alerts, silences, notifications and their retries.
  \<^item> \<open>FileShare\<close>, \<open>FileShareProps\<close>, \<open>FileAccess\<close>, \<open>FileAccessProps\<close>: shared files and links, and the credentials for
    file operations.
  \<^item> \<open>NetAddr\<close>, \<open>NetStates\<close>, \<open>Ddns\<close>, \<open>NetHandlers\<close>, \<open>NetAddrProps\<close>, \<open>NetProps\<close>: addresses and prefixes with
    Go's \<open>netip\<close>, the reports of devices and routers, the reconciliation of the published names and the handlers that
    take the reports.
  \<^item> \<open>ServerNet\<close>, \<open>ServerNetProps\<close>, \<open>ServerNetHandlers\<close>, \<open>ServerNetAdmin\<close>: the address of the server and the
    coordinator that publishes it, with its debounce and its retries; the handlers that detect, validate
    and configure, with their detections and validation tokens.
  \<^item> \<open>Wol\<close>: hardware addresses and magic packets.

  \<^bold>\<open>State and effects.\<close> A service is a record with the fields of its struct, an operation a function from the
  state to the new state and a result; errors are values of a datatype with the source's error variables.
  A method that holds the service's mutex is one step. Where the source gives the mutex up between two accesses,
  the steps are separate and other operations may come between them: the chunks of an upload, the beginning
  and the end of a retry, the call of a DNS provider in a reconciliation, the writes of the agent's ledger. The file of a repository is a field of its state, so that
  a failed write, a crash and a reopening are steps like the others. A service that another one
  calls through an interface is a locale with the laws the client relies on (\<open>Repository\<close>,
  \<open>DeviceScopeResolver\<close> and others), and each locale is interpreted on the definitions of its provider.

  \<^bold>\<open>What the lemmas show.\<close> Accounts: an active owner is never lost, changed accounts keep no session.
  Authorization: the decision in closed form, composed with the registry's indexes, which agree in every
  reachable state. Commands: exclusion, final outcomes, agreement with the file, delivery after a
  reconnect, at most one execution of a shutdown by the agent. Broker and stream: nothing is lost between the
  publication and the reader, or the reader is refused. Health and alerts: the status and the memory alarm in closed
  form, alerts follow the firing rules whatever retries are interleaved, retries end. Files: the quota bounds
  what is stored and reserved, downloads match their records, revocations are final. Names: what is published was
  reported and lies in a valid prefix, a record is deleted only after a grace period. The server's own names: a change is
  published only after the debounce time, an address is confirmed only when the provider returned it, a stable
  address reaches every record, updates are enabled only by a fresh token. Among the properties
  are also theorems about behaviour the code does not intend (a deleted file that a restart
  brings back, an upgrade that is delivered after it was cancelled, alerts that are lost or come back).

  \<^bold>\<open>Parameters.\<close> The clock, random identifiers, hashes and bytes, the outcome of each write and network call, the
  replies of GitHub and of webhooks, and the accounts behind a lookup are arguments. Properties that need them
  distinct or well formed say so: identifiers are fresh, a hash is injective on the values compared, SHA-256 in
  hexadecimal is a text of 64 digits, a quota is at most 2 to the 61st. Every such property has a witness.

  \<^bold>\<open>Limits.\<close> A replacement of a file (write, sync, rename) is one write that succeeds or fails as a whole; the
  removal of an object after a failed commit succeeds. Go ranges over a map in any order: the association
  lists have an arbitrary order and the theorems hold for all of them. \<open>strings.ToLower\<close> is that of ASCII texts;
  texts are bytes, and runes are decoded where the source counts or classifies them. JSON is not modelled: a
  file is what its decoder returns. Handlers run with all services configured. The release lookup scans ten pages as
  the source does, an event history holds 64 events, the retries end after six attempts; no
  other bound and no fuel is used. Integers are unbounded where the source's cannot reach their limit, 64-bit words where they
  are counters, and wrap at 64 bits where sizes are added.

  \<^bold>\<open>Not modelled.\<close> The programs under \<open>cmd\<close> (flags, wiring, operating system), the HTTP layer of the remaining
  handlers, SSH and UDP connections, the SQL store and the file store behind the repositories, the quality gate;
  the collection of addresses by the agent and the router; the loop and the watcher that call the coordinator; the synchronisation of GitHub credentials, domain bindings, and the
  self-upgrade of agent and server, which work on the operating system, DNS providers and GitHub.
\<close>

end
